(* ===== verification/Prelude.thy ===== *)
theory Prelude
  imports Main "HOL-Library.Word"
begin

text \<open>
  Shared vocabulary of the development: the machine integer types of the Rust sources, the
  result type in which every early return and every panic is a value, the state-passing
  effect type used wherever the source threads a mutable receiver, bounds-checked slices and
  the big-endian byte encoding of 256-bit words.  The generic lemmas that carry the component
  proofs are collected in the named theorem lists declared first.
\<close>

unbundle bit_operations_syntax

named_theorems eff_simps "rewrite rules of the effect operations"
named_theorems wp_simps "weakest preconditions of the effect operations"
named_theorems slice_simps "rules on bounds-checked slices"

section \<open>Machine integers\<close>

type_synonym byte = "8 word"
type_synonym u32 = "32 word"
type_synonym u64 = "64 word"
type_synonym usize = "64 word"
type_synonym u128 = "128 word"
type_synonym u256 = "256 word"
type_synonym u512 = "512 word"
type_synonym address = "160 word"
type_synonym h256 = "256 word"
type_synonym bytes = "byte list"

text \<open>
  Rust's \<open>overflowing_add\<close>, \<open>overflowing_mul\<close>: the wrapped value and whether it wrapped;
  \<open>saturating_add\<close> and \<open>saturating_mul\<close> clamp to the largest value of the type.
\<close>

definition overflowing_add :: "'a::len word \<Rightarrow> 'a word \<Rightarrow> 'a word \<times> bool" where
  "overflowing_add a b = (a + b, 2 ^ LENGTH('a) \<le> unat a + unat b)"

definition overflowing_mul :: "'a::len word \<Rightarrow> 'a word \<Rightarrow> 'a word \<times> bool" where
  "overflowing_mul a b = (a * b, 2 ^ LENGTH('a) \<le> unat a * unat b)"

definition saturating_add :: "'a::len word \<Rightarrow> 'a word \<Rightarrow> 'a word" where
  "saturating_add a b = (if 2 ^ LENGTH('a) \<le> unat a + unat b then - 1 else a + b)"

definition saturating_sub :: "'a::len word \<Rightarrow> 'a word \<Rightarrow> 'a word" where
  "saturating_sub a b = (if a < b then 0 else a - b)"

definition saturating_mul :: "'a::len word \<Rightarrow> 'a word \<Rightarrow> 'a word" where
  "saturating_mul a b = (if 2 ^ LENGTH('a) \<le> unat a * unat b then - 1 else a * b)"

text \<open>\<open>U256::low_u64\<close> keeps the low 64 bits; \<open>U256::bits\<close> is the position of the highest set bit.\<close>

definition low_u64 :: "'a::len word \<Rightarrow> u64" where
  "low_u64 w = ucast w"

definition bits :: "u256 \<Rightarrow> nat" where
  "bits w = length (dropWhile Not (map (bit w) (rev [0..<256])))"

section \<open>Results and effects\<close>

text \<open>
  \<open>Result<T, E>\<close> of the source, extended by the outcome of a Rust panic (a failed
  \<open>assert!\<close> or \<open>expect\<close>, an index out of range, an overflowing \<open>U256\<close> operator).
\<close>

datatype ('e, 'a) res = Ok 'a | Err 'e | Panic

primrec rbind :: "('e, 'a) res \<Rightarrow> ('a \<Rightarrow> ('e, 'b) res) \<Rightarrow> ('e, 'b) res" where
  "rbind (Ok a) f = f a"
| "rbind (Err e) f = Err e"
| "rbind Panic f = Panic"

text \<open>
  The operators of \<open>U256\<close> (\<open>+\<close>, \<open>-\<close>, \<open>*\<close>) panic when the exact result does not fit.
\<close>

definition u_add :: "'a::len word \<Rightarrow> 'a word \<Rightarrow> ('e, 'a word) res" where
  "u_add a b = (if 2 ^ LENGTH('a) \<le> unat a + unat b then Panic else Ok (a + b))"

definition u_sub :: "'a::len word \<Rightarrow> 'a word \<Rightarrow> ('e, 'a word) res" where
  "u_sub a b = (if a < b then Panic else Ok (a - b))"

definition u_mul :: "'a::len word \<Rightarrow> 'a word \<Rightarrow> ('e, 'a word) res" where
  "u_mul a b = (if 2 ^ LENGTH('a) \<le> unat a * unat b then Panic else Ok (a * b))"

text \<open>
  A method with a mutable receiver is a function from the state to a result and the state it
  leaves behind; the state is returned on every outcome because a Rust \<open>&mut\<close> keeps the
  changes made before an early return.
\<close>

type_synonym ('s, 'e, 'a) eff = "'s \<Rightarrow> ('e, 'a) res \<times> 's"

definition eret :: "'a \<Rightarrow> ('s, 'e, 'a) eff" where
  "eret a = (\<lambda>s. (Ok a, s))"

definition efail :: "'e \<Rightarrow> ('s, 'e, 'a) eff" where
  "efail e = (\<lambda>s. (Err e, s))"

definition epanic :: "('s, 'e, 'a) eff" where
  "epanic = (\<lambda>s. (Panic, s))"

definition elift :: "('e, 'a) res \<Rightarrow> ('s, 'e, 'a) eff" where
  "elift r = (\<lambda>s. (r, s))"

definition eget :: "('s \<Rightarrow> 'a) \<Rightarrow> ('s, 'e, 'a) eff" where
  "eget f = (\<lambda>s. (Ok (f s), s))"

definition emodify :: "('s \<Rightarrow> 's) \<Rightarrow> ('s, 'e, unit) eff" where
  "emodify f = (\<lambda>s. (Ok (), f s))"

definition ebind :: "('s, 'e, 'a) eff \<Rightarrow> ('a \<Rightarrow> ('s, 'e, 'b) eff) \<Rightarrow> ('s, 'e, 'b) eff" where
  "ebind m f = (\<lambda>s. case m s of
     (Ok a, s') \<Rightarrow> f a s'
   | (Err e, s') \<Rightarrow> (Err e, s')
   | (Panic, s') \<Rightarrow> (Panic, s'))"

abbreviation ethen :: "('s, 'e, 'a) eff \<Rightarrow> ('s, 'e, 'b) eff \<Rightarrow> ('s, 'e, 'b) eff" where
  "ethen m n \<equiv> ebind m (\<lambda>_. n)"

text \<open>
  Weakest precondition: \<open>Q\<close> after a normal return, \<open>E\<close> after an error, and a panic only where
  \<open>p\<close> permits it.
\<close>

definition wp :: "bool \<Rightarrow> ('s, 'e, 'a) eff \<Rightarrow> ('a \<Rightarrow> 's \<Rightarrow> bool) \<Rightarrow> ('e \<Rightarrow> 's \<Rightarrow> bool) \<Rightarrow> 's \<Rightarrow> bool" where
  "wp p m Q E s = (case m s of
     (Ok a, s') \<Rightarrow> Q a s'
   | (Err e, s') \<Rightarrow> E e s'
   | (Panic, s') \<Rightarrow> p)"

text \<open>The same for results without state: no panic, and \<open>Q\<close> of a normal value.\<close>

definition rwp :: "('e, 'a) res \<Rightarrow> ('a \<Rightarrow> bool) \<Rightarrow> bool" where
  "rwp r Q = (case r of Ok a \<Rightarrow> Q a | Err e \<Rightarrow> True | Panic \<Rightarrow> False)"

section \<open>Bounds-checked slices\<close>

definition slice :: "'a list \<Rightarrow> nat \<Rightarrow> nat \<Rightarrow> ('e, 'a list) res" where
  "slice xs a b = (if a \<le> b \<and> b \<le> length xs then Ok (take (b - a) (drop a xs)) else Panic)"

definition overwrite :: "'a list \<Rightarrow> nat \<Rightarrow> 'a list \<Rightarrow> 'a list" where
  "overwrite xs off ys = take off xs @ ys @ drop (off + length ys) xs"

section \<open>Big-endian bytes\<close>

definition from_be :: "bytes \<Rightarrow> 'a::len word" where
  "from_be bs = foldl (\<lambda>acc b. acc * 256 + ucast b) 0 bs"

definition to_be :: "nat \<Rightarrow> 'a::len word \<Rightarrow> bytes" where
  "to_be n w = map (\<lambda>i. ucast (drop_bit (8 * i) w)) (rev [0..<n])"

section \<open>Lemmas on results and effects\<close>

lemma rbind_Ok_iff: "rbind r f = Ok b \<longleftrightarrow> (\<exists>a. r = Ok a \<and> f a = Ok b)"
  by (cases r) auto

lemma rbind_Panic_iff: "rbind r f = Panic \<longleftrightarrow> r = Panic \<or> (\<exists>a. r = Ok a \<and> f a = Panic)"
  by (cases r) auto

lemma ebind_eret [simp]: "ebind (eret a) f = f a"
  by (simp add: ebind_def eret_def)

lemma ebind_efail [simp]: "ebind (efail e) f = efail e"
  by (simp add: ebind_def efail_def)

lemma ebind_epanic [simp]: "ebind epanic f = epanic"
  by (simp add: ebind_def epanic_def)

lemma ebind_assoc: "ebind (ebind m f) g = ebind m (\<lambda>a. ebind (f a) g)"
  by (rule ext) (simp add: ebind_def split: prod.splits res.splits)

lemma ebind_Ok_iff:
  "ebind m f s = (Ok b, t) \<longleftrightarrow> (\<exists>a u. m s = (Ok a, u) \<and> f a u = (Ok b, t))"
  by (auto simp: ebind_def split: prod.splits res.splits)

lemma eff_apply [eff_simps]:
  "eret a s = (Ok a, s)" "efail e s = (Err e, s)" "epanic s = (Panic, s)"
  "elift r s = (r, s)" "eget h s = (Ok (h s), s)" "emodify k s = (Ok (), k s)"
  by (simp_all add: eret_def efail_def epanic_def elift_def eget_def emodify_def)

lemma ebind_apply [eff_simps]:
  "ebind m f s = (case m s of (Ok a, s') \<Rightarrow> f a s' | (Err e, s') \<Rightarrow> (Err e, s') | (Panic, s') \<Rightarrow> (Panic, s'))"
  by (simp add: ebind_def)

lemma wp_ebind [wp_simps]: "wp p (ebind m f) Q E s = wp p m (\<lambda>a. wp p (f a) Q E) E s"
  by (simp add: wp_def ebind_def split: prod.splits res.splits)

lemma wp_basic [wp_simps]:
  "wp p (eret a) Q E s = Q a s" "wp p (efail e) Q E s = E e s" "wp p epanic Q E s = p"
  "wp p (eget f) Q E s = Q (f s) s"
  by (simp_all add: wp_def eff_apply)

lemma wp_emodify [wp_simps]: "wp p (emodify g) Q E s = Q () (g s)"
  by (simp add: wp_def eff_apply)

lemma wp_elift [wp_simps]:
  "wp p (elift r) Q E s = (case r of Ok a \<Rightarrow> Q a s | Err e \<Rightarrow> E e s | Panic \<Rightarrow> p)"
  by (simp add: wp_def eff_apply)

lemma wp_if [wp_simps]: "wp p (if b then m else n) Q E s = (if b then wp p m Q E s else wp p n Q E s)"
  by simp

lemma wp_mono:
  assumes "wp p m Q E s" and "\<And>a t. Q a t \<Longrightarrow> Q' a t" and "\<And>e t. E e t \<Longrightarrow> E' e t" and "p \<Longrightarrow> p'"
  shows "wp p' m Q' E' s"
  using assms by (auto simp: wp_def split: prod.splits res.splits)

lemma wp_OkD: "wp p m Q E s \<Longrightarrow> m s = (Ok a, t) \<Longrightarrow> Q a t"
  by (simp add: wp_def)

lemma wp_ErrD: "wp p m Q E s \<Longrightarrow> m s = (Err e, t) \<Longrightarrow> E e t"
  by (simp add: wp_def)

lemma wp_PanicD: "wp p m Q E s \<Longrightarrow> m s = (Panic, t) \<Longrightarrow> p"
  by (simp add: wp_def)

lemma rwp_rbind [wp_simps]: "rwp (rbind r f) Q = rwp r (\<lambda>a. rwp (f a) Q)"
  by (cases r) (simp_all add: rwp_def)

lemma rwp_basic [wp_simps]: "rwp (Ok a) Q = Q a" "rwp (Err e) Q" "rwp Panic Q = False"
  by (simp_all add: rwp_def)

lemma rwp_if [wp_simps]: "rwp (if b then r else t) Q = (if b then rwp r Q else rwp t Q)"
  by simp

lemma rwp_mono: "rwp r Q \<Longrightarrow> (\<And>a. Q a \<Longrightarrow> Q' a) \<Longrightarrow> rwp r Q'"
  by (cases r) (simp_all add: rwp_def)

lemma rwp_OkD: "rwp r Q \<Longrightarrow> r = Ok a \<Longrightarrow> Q a"
  by (simp add: rwp_def)

lemma wp_elift_rwp: "rwp r (\<lambda>a. Q a s) \<Longrightarrow> (\<And>e. E e s) \<Longrightarrow> wp p (elift r) Q E s"
  by (cases r) (simp_all add: rwp_def wp_def eff_apply)

section \<open>Lemmas on slices\<close>

lemma slice_Ok [slice_simps]:
  "a \<le> b \<Longrightarrow> b \<le> length xs \<Longrightarrow> slice xs a b = Ok (take (b - a) (drop a xs))"
  by (simp add: slice_def)

lemma slice_Ok_iff:
  "slice xs a b = Ok ys \<longleftrightarrow> a \<le> b \<and> b \<le> length xs \<and> ys = take (b - a) (drop a xs)"
  by (auto simp: slice_def)

lemma length_overwrite [slice_simps]: "off + length ys \<le> length xs \<Longrightarrow> length (overwrite xs off ys) = length xs"
  by (simp add: overwrite_def)

lemma nth_overwrite:
  assumes "off + length ys \<le> length xs" and "i < length xs"
  shows "overwrite xs off ys ! i = (if off \<le> i \<and> i < off + length ys then ys ! (i - off) else xs ! i)"
  using assms by (auto simp: overwrite_def nth_append min_def)

lemma overwrite_Nil [slice_simps, simp]: "overwrite xs off [] = xs"
  by (simp add: overwrite_def)

lemma slice_overwrite [slice_simps]:
  "off + length ys \<le> length xs \<Longrightarrow> take (length ys) (drop off (overwrite xs off ys)) = ys"
  by (simp add: overwrite_def)

section \<open>Lemmas on words\<close>

lemma unat_lt_pow: "unat (w :: 'a::len word) < 2 ^ LENGTH('a)"
  by (rule unsigned_less)

lemma unat_of_nat_small: "n < 2 ^ LENGTH('a) \<Longrightarrow> unat (of_nat n :: 'a::len word) = n"
  by (simp add: unsigned_of_nat take_bit_nat_eq_self)

lemma inj_unat: "inj (unat :: 'a::len word \<Rightarrow> nat)"
  by (rule injI) (simp add: word_unat_eq_iff)

lemma u_add_Ok_iff:
  "u_add a b = Ok c \<longleftrightarrow> unat a + unat b < 2 ^ LENGTH('a) \<and> c = a + (b :: 'a::len word)"
  by (auto simp: u_add_def)

lemma u_sub_Ok_iff: "u_sub a b = Ok c \<longleftrightarrow> b \<le> a \<and> c = a - (b :: 'a::len word)"
  by (auto simp: u_sub_def not_less)

lemma unat_add_no_overflow:
  "unat a + unat b < 2 ^ LENGTH('a) \<Longrightarrow> unat (a + b :: 'a::len word) = unat a + unat b"
  by (simp add: unat_word_ariths)

lemma unat_mult_no_overflow:
  "unat a * unat b < 2 ^ LENGTH('a) \<Longrightarrow> unat (a * b :: 'a::len word) = unat a * unat b"
  by (simp add: unat_word_ariths)

lemma unat_sub_le: "b \<le> a \<Longrightarrow> unat (a - b :: 'a::len word) = unat a - unat b"
  by (simp add: unat_sub word_le_nat_alt)

section \<open>Lemmas on big-endian bytes\<close>

lemma length_to_be [simp]: "length (to_be n w) = n"
  by (simp add: to_be_def)

lemma to_be_Suc: "to_be (Suc n) w = ucast (drop_bit (8 * n) w) # to_be n w"
  by (simp add: to_be_def)

lemma from_be_Nil [simp]: "from_be [] = 0"
  by (simp add: from_be_def)

lemma from_be_snoc: "from_be (bs @ [b]) = from_be bs * 256 + ucast b"
  by (simp add: from_be_def)

lemma to_be_snoc: "to_be (Suc n) w = to_be n (drop_bit 8 w) @ [ucast w]"
proof -
  have "rev [0..<Suc n] = map Suc (rev [0..<n]) @ [0]"
    by (simp add: map_Suc_upt[symmetric] rev_map upt_conv_Cons del: upt_Suc)
  then show ?thesis
    by (simp add: to_be_def comp_def drop_bit_drop_bit add.commute del: upt_Suc)
qed

lemma mult_256_eq: "w * 256 = push_bit 8 (w :: 'a::len word)"
  by (simp add: push_bit_eq_mult)

lemma append_byte_or:
  "w * 256 + ucast (b :: byte) = push_bit 8 w OR (ucast b :: 'a::len word)"
  unfolding mult_256_eq
  by (rule disjunctive_add) (auto simp: bit_push_bit_iff bit_ucast_iff dest: bit_imp_le_length)

lemma from_be_to_be: "from_be (to_be n w) = take_bit (8 * n) (w :: 'a::len word)"
proof (induction n arbitrary: w)
  case 0
  then show ?case by (simp add: to_be_def)
next
  case (Suc n)
  have "from_be (to_be (Suc n) w) = push_bit 8 (take_bit (8 * n) (drop_bit 8 w)) OR ucast (ucast w :: byte)"
    by (simp add: to_be_snoc from_be_snoc Suc.IH append_byte_or del: mult_Suc_right)
  also have "\<dots> = take_bit (8 * Suc n) w"
    by (rule bit_word_eqI)
      (auto simp: bit_or_iff bit_push_bit_iff bit_take_bit_iff bit_drop_bit_eq bit_ucast_iff)
  finally show ?case .
qed

lemma to_be_from_be:
  "8 * length bs \<le> LENGTH('a) \<Longrightarrow> to_be (length bs) (from_be bs :: 'a::len word) = bs"
proof (induction bs rule: rev_induct)
  case Nil
  then show ?case by (simp add: to_be_def)
next
  case (snoc b bs)
  have len: "8 + 8 * length bs \<le> LENGTH('a)" using snoc.prems by simp
  have hi: "drop_bit 8 (from_be (bs @ [b]) :: 'a word) = take_bit (LENGTH('a) - 8) (from_be bs)"
    unfolding from_be_snoc append_byte_or
    by (rule bit_word_eqI)
      (use len in \<open>auto simp: bit_or_iff bit_push_bit_iff bit_take_bit_iff bit_drop_bit_eq bit_ucast_iff dest: bit_imp_le_length\<close>)
  have lo: "ucast (from_be (bs @ [b]) :: 'a word) = b"
    unfolding from_be_snoc append_byte_or
    by (rule bit_word_eqI)
      (use len in \<open>auto simp: bit_or_iff bit_push_bit_iff bit_ucast_iff\<close>)
  have tb: "to_be (length bs) (take_bit (LENGTH('a) - 8) (from_be bs :: 'a word)) = to_be (length bs) (from_be bs :: 'a word)"
    unfolding to_be_def
    by (rule map_cong[OF refl], rule bit_word_eqI)
      (use len in \<open>auto simp: bit_take_bit_iff bit_drop_bit_eq bit_ucast_iff\<close>)
  show ?case using snoc.IH snoc.prems by (simp add: to_be_snoc hi lo tb)
qed

end
