(* ===== verification/Vm_Types.thy ===== *)
theory Vm_Types
  imports Prelude
begin

text \<open>
  The data types the virtual machine exchanges with its callers: errors, return data, action
  parameters, environment, results of nested calls (src/vm), the cost specification
  \<open>Spec\<close> with its genesis instance and its activation by block number (src/vm/spec.rs,
  src/spec/spec.rs), and the address and space types (utils/cfx_types).
\<close>

section \<open>Addresses and spaces\<close>

datatype space = Ethereum

record address_with_space =
  aws_address :: address
  aws_space :: space

definition with_space :: "address \<Rightarrow> space \<Rightarrow> address_with_space" where
  "with_space a sp = \<lparr>aws_address = a, aws_space = sp\<rparr>"

section \<open>Errors\<close>

datatype db_error =
    IncompleteDatabase address
  | AccountError string
  | StorageError string
  | DecoderError string

datatype vm_error =
    OutOfGas
  | BadJumpDestination nat
  | BadInstruction byte
  | StackUnderflow string nat nat
  | OutOfStack string nat usize
  | SubStackUnderflow nat nat
  | OutOfSubStack nat nat
  | InvalidSubEntry
  | NotEnoughBalanceForStorage u256 u256
  | ExceedStorageLimit
  | BuiltIn string
  | InternalContract string
  | MutableCallInStaticContext
  | StateDbError db_error
  | Wasm string
  | OutOfBounds
  | Reverted
  | InvalidAddress address
  | ConflictAddress address

type_synonym 'a vm_result = "(vm_error, 'a) res"
type_synonym 'a db_result = "(db_error, 'a) res"

text \<open>\<open>?\<close> on a database result inside a function that returns \<open>vm::Result\<close>.\<close>

primrec from_db_error :: "'a db_result \<Rightarrow> 'a vm_result" where
  "from_db_error (Ok a) = Ok a"
| "from_db_error (Err e) = Err (StateDbError e)"
| "from_db_error Panic = Panic"

definition separate_out_db_error :: "'a vm_result \<Rightarrow> 'a vm_result db_result" where
  "separate_out_db_error r = (case r of Err (StateDbError e) \<Rightarrow> Err e | Panic \<Rightarrow> Panic | x \<Rightarrow> Ok x)"

section \<open>Return data\<close>

record return_data =
  rd_mem :: bytes
  rd_offset :: nat
  rd_size :: nat

definition rd_deref :: "return_data \<Rightarrow> ('e, bytes) res" where
  "rd_deref rd = slice (rd_mem rd) (rd_offset rd) (rd_offset rd + rd_size rd)"

definition rd_empty :: return_data where
  "rd_empty = \<lparr>rd_mem = [], rd_offset = 0, rd_size = 0\<rparr>"

definition rd_new :: "bytes \<Rightarrow> nat \<Rightarrow> nat \<Rightarrow> return_data" where
  "rd_new m off sz = \<lparr>rd_mem = m, rd_offset = off, rd_size = sz\<rparr>"

definition rd_len :: "return_data \<Rightarrow> ('e, nat) res" where
  "rd_len rd = rbind (rd_deref rd) (\<lambda>bs. Ok (length bs))"

text \<open>
  A buffer whose window lies inside it: the ones the machine constructs.  A Rust vector holds at
  most \<open>isize::MAX\<close> bytes.
\<close>

definition rd_ok :: "return_data \<Rightarrow> bool" where
  "rd_ok rd \<longleftrightarrow> rd_offset rd + rd_size rd \<le> length (rd_mem rd) \<and> length (rd_mem rd) < 2 ^ 63"

datatype gas_left =
    Known u256
  | NeedsReturn u256 return_data bool

section \<open>Calls and creates\<close>

datatype call_type = CallNone | Call | CallCode | DelegateCall | StaticCall

datatype create_contract_address =
    FromSenderNonce
  | FromSenderSaltAndCodeHash h256

datatype create_type = CreateNone | Create1 | Create2

primrec from_address_scheme :: "create_contract_address \<Rightarrow> create_type" where
  "from_address_scheme FromSenderNonce = Create1"
| "from_address_scheme (FromSenderSaltAndCodeHash h) = Create2"

text \<open>The integers that the RLP encodings of the two enums carry.\<close>

primrec call_type_to_u32 :: "call_type \<Rightarrow> u32" where
  "call_type_to_u32 CallNone = 0"
| "call_type_to_u32 Call = 1"
| "call_type_to_u32 CallCode = 2"
| "call_type_to_u32 DelegateCall = 3"
| "call_type_to_u32 StaticCall = 4"

definition call_type_of_u32 :: "u32 \<Rightarrow> call_type option" where
  "call_type_of_u32 v = (if v = 0 then Some CallNone else if v = 1 then Some Call
     else if v = 2 then Some CallCode else if v = 3 then Some DelegateCall
     else if v = 4 then Some StaticCall else None)"

primrec create_type_to_u32 :: "create_type \<Rightarrow> u32" where
  "create_type_to_u32 CreateNone = 0"
| "create_type_to_u32 Create1 = 1"
| "create_type_to_u32 Create2 = 2"

definition create_type_of_u32 :: "u32 \<Rightarrow> create_type option" where
  "create_type_of_u32 v = (if v = 0 then Some CreateNone else if v = 1 then Some Create1
     else if v = 2 then Some Create2 else None)"

datatype action_value = Transfer u256 | Apparent u256

primrec action_value_value :: "action_value \<Rightarrow> u256" where
  "action_value_value (Transfer x) = x"
| "action_value_value (Apparent x) = x"

datatype params_type = Embedded | Separate

record action_params =
  ap_space :: space
  ap_code_address :: address
  ap_code_hash :: "h256 option"
  ap_address :: address
  ap_sender :: address
  ap_original_sender :: address
  ap_gas :: u256
  ap_gas_price :: u256
  ap_value :: action_value
  ap_code :: "bytes option"
  ap_data :: "bytes option"
  ap_call_type :: call_type
  ap_create_type :: create_type
  ap_params_type :: params_type

datatype trap_kind = TrapCall action_params | TrapCreate action_params

datatype contract_create_result =
    Created address_with_space u256
  | CreateFailed vm_error
  | CreateReverted u256 return_data

datatype message_call_result =
    CallSuccess u256 return_data
  | CallFailed vm_error
  | CallReverted u256 return_data

section \<open>Environment\<close>

record env =
  env_number :: u64
  env_author :: address
  env_timestamp :: u64
  env_difficulty :: u256
  env_gas_limit :: u256
  env_last_hash :: h256
  env_accumulated_gas_used :: u256
  env_epoch_height :: u64

section \<open>Cost specification\<close>

datatype clean_dust_mode = DustOff | DustBasicOnly | DustWithCodeAndStorage

record wasm_costs =
  wasm_regular :: u32
  wasm_div :: u32
  wasm_mul :: u32
  wasm_mem :: u32
  wasm_static_u256 :: u32
  wasm_static_address :: u32
  wasm_initial_mem :: u32
  wasm_grow_mem :: u32
  wasm_memcpy :: u32
  wasm_max_stack_height :: u32
  wasm_opcodes_mul :: u32
  wasm_opcodes_div :: u32
  wasm_have_create2 :: bool
  wasm_have_gasleft :: bool

record spec =
  exceptional_failed_code_deposit :: bool
  stack_limit :: usize
  max_depth :: usize
  tier_step_gas :: "usize list"
  exp_gas :: usize
  exp_byte_gas :: usize
  sha3_gas :: usize
  sha3_word_gas :: usize
  sload_gas :: usize
  sstore_set_gas :: usize
  sstore_reset_gas :: usize
  sstore_refund_gas :: usize
  jumpdest_gas :: usize
  log_gas :: usize
  log_data_gas :: usize
  log_topic_gas :: usize
  create_gas :: usize
  call_gas :: usize
  call_stipend :: usize
  call_value_transfer_gas :: usize
  call_new_account_gas :: usize
  suicide_refund_gas :: usize
  memory_gas :: usize
  quad_coeff_div :: usize
  create_data_gas :: usize
  create_data_limit :: usize
  tx_gas :: usize
  tx_create_gas :: usize
  tx_data_zero_gas :: usize
  tx_data_non_zero_gas :: usize
  copy_gas :: usize
  extcodesize_gas :: usize
  extcodecopy_base_gas :: usize
  balance_gas :: usize
  extcodehash_gas :: usize
  suicide_gas :: usize
  retire_gas :: usize
  eip1820_gas :: usize
  suicide_to_new_account_cost :: usize
  sub_gas_cap_divisor :: "usize option"
  no_empty :: bool
  kill_empty :: bool
  blockhash_gas :: usize
  kill_dust :: clean_dust_mode
  keep_unsigned_nonce :: bool
  wasm :: "wasm_costs option"
  contract_start_nonce :: u256
  account_start_nonce :: u256
  evm_gas_ratio :: usize
  cip43_init :: bool
  cip43_contract :: bool
  cip62 :: bool
  cip64 :: bool
  cip71 :: bool
  cip78a :: bool
  cip78b :: bool
  cip90 :: bool
  cip94 :: bool
  cip94_activation_block_number :: u64
  cip97 :: bool
  cip98 :: bool
  cip105 :: bool
  cip_sigma_fix :: bool

definition genesis_spec :: spec where
  "genesis_spec = \<lparr>
     exceptional_failed_code_deposit = True,
     stack_limit = 1024,
     max_depth = 1024,
     tier_step_gas = [0, 2, 3, 5, 8, 10, 20, 0],
     exp_gas = 10,
     exp_byte_gas = 50,
     sha3_gas = 30,
     sha3_word_gas = 6,
     sload_gas = 200,
     sstore_set_gas = 20000,
     sstore_reset_gas = 5000,
     sstore_refund_gas = 15000,
     jumpdest_gas = 1,
     log_gas = 375,
     log_data_gas = 8,
     log_topic_gas = 375,
     create_gas = 32000,
     call_gas = 700,
     call_stipend = 2300,
     call_value_transfer_gas = 9000,
     call_new_account_gas = 25000,
     suicide_refund_gas = 24000,
     memory_gas = 3,
     quad_coeff_div = 512,
     create_data_gas = 200,
     create_data_limit = 49152,
     tx_gas = 21000,
     tx_create_gas = 53000,
     tx_data_zero_gas = 4,
     tx_data_non_zero_gas = 68,
     copy_gas = 3,
     extcodesize_gas = 700,
     extcodecopy_base_gas = 700,
     balance_gas = 400,
     extcodehash_gas = 400,
     suicide_gas = 5000,
     retire_gas = 5000000,
     eip1820_gas = 1500000,
     suicide_to_new_account_cost = 25000,
     sub_gas_cap_divisor = Some 64,
     no_empty = True,
     kill_empty = True,
     blockhash_gas = 20,
     kill_dust = DustOff,
     keep_unsigned_nonce = False,
     wasm = None,
     contract_start_nonce = 1,
     account_start_nonce = 0,
     evm_gas_ratio = 2,
     cip43_init = False,
     cip43_contract = False,
     cip62 = False,
     cip64 = False,
     cip71 = False,
     cip78a = False,
     cip78b = False,
     cip90 = False,
     cip94 = False,
     cip94_activation_block_number = - 1,
     cip97 = False,
     cip98 = False,
     cip105 = False,
     cip_sigma_fix = False\<rparr>"

record transitions_block_number =
  tn_cip43a :: u64
  tn_cip43b :: u64
  tn_cip62 :: u64
  tn_cip64 :: u64
  tn_cip71 :: u64
  tn_cip78a :: u64
  tn_cip78b :: u64
  tn_cip90b :: u64
  tn_cip92 :: u64
  tn_cip94 :: u64
  tn_cip97 :: u64
  tn_cip98 :: u64
  tn_cip105 :: u64
  tn_cip_sigma_fix :: u64

definition new_spec_from_common_params :: "transitions_block_number \<Rightarrow> u64 \<Rightarrow> spec" where
  "new_spec_from_common_params tn number = genesis_spec\<lparr>
     cip43_contract := tn_cip43a tn \<le> number,
     cip43_init := tn_cip43a tn \<le> number \<and> number < tn_cip43b tn,
     cip62 := tn_cip62 tn \<le> number,
     cip64 := tn_cip64 tn \<le> number,
     cip71 := tn_cip71 tn \<le> number,
     cip90 := tn_cip90b tn \<le> number,
     cip78a := tn_cip78a tn \<le> number,
     cip78b := tn_cip78b tn \<le> number,
     cip94 := tn_cip94 tn \<le> number,
     cip94_activation_block_number := tn_cip94 tn,
     cip97 := tn_cip97 tn \<le> number,
     cip98 := tn_cip98 tn \<le> number,
     cip105 := tn_cip105 tn \<le> number,
     cip_sigma_fix := tn_cip_sigma_fix tn \<le> number\<rparr>"

section \<open>Lemmas\<close>

lemma rd_deref_Ok: "rd_ok rd \<Longrightarrow> rd_deref rd = Ok (take (rd_size rd) (drop (rd_offset rd) (rd_mem rd)))"
  by (simp add: rd_deref_def rd_ok_def slice_def)

lemma rd_len_Ok: "rd_ok rd \<Longrightarrow> rd_len rd = Ok (rd_size rd)"
  by (simp add: rd_len_def rd_deref_Ok) (auto simp: rd_ok_def)

lemma rd_ok_empty [simp]: "rd_ok rd_empty"
  by (simp add: rd_ok_def rd_empty_def)

lemma call_type_round_trip: "call_type_of_u32 (call_type_to_u32 c) = Some c"
  by (cases c) (simp_all add: call_type_of_u32_def)

lemma create_type_round_trip: "create_type_of_u32 (create_type_to_u32 c) = Some c"
  by (cases c) (simp_all add: create_type_of_u32_def)

end
