(* ===== verification/Cost_Type.thy ===== *)
theory Cost_Type
  imports Vm_Types
begin

text \<open>
  The gas arithmetic of the interpreter (trait \<open>CostType\<close>, src/evm/evm.rs).  The trait has
  two implementations, \<open>usize\<close> for small gas limits and \<open>U256\<close> for all others; the
  interpreter is generic in it.  Both are machine words, so the model is generic in the word
  length \<open>'g\<close>: the operations below are defined once for every length, and the two
  implementations of the source, which differ in how they detect a lost product, are defined as
  written and proved equal to the generic operation at their length.  The locale
  \<open>cost_type\<close> is the trait with the laws the gas meter relies on.  Operators on \<open>usize\<close> and
  \<open>U256\<close> panic on overflow (for \<open>usize\<close>: overflow checks on).
\<close>

definition cost_from :: "usize \<Rightarrow> 'g::len word" where
  "cost_from n = ucast n"

definition as_u256 :: "'g::len word \<Rightarrow> u256" where
  "as_u256 g = ucast g"

definition from_u256 :: "u256 \<Rightarrow> 'g::len word vm_result" where
  "from_u256 v = (let r = ucast v in if ucast r \<noteq> v then Err OutOfGas else Ok r)"

definition as_usize :: "'g::len word \<Rightarrow> ('e, usize) res" where
  "as_usize g = (if 2 ^ 64 \<le> unat g then Panic else Ok (ucast g))"

definition overflow_add :: "'g::len word \<Rightarrow> 'g word \<Rightarrow> 'g word \<times> bool" where
  "overflow_add a b = overflowing_add a b"

definition overflow_mul :: "'g::len word \<Rightarrow> 'g word \<Rightarrow> 'g word \<times> bool" where
  "overflow_mul a b = overflowing_mul a b"

definition overflow_mul_shr :: "'g::len word \<Rightarrow> 'g word \<Rightarrow> nat \<Rightarrow> 'g word \<times> bool" where
  "overflow_mul_shr a b shr =
     (of_nat (unat a * unat b div 2 ^ shr), 2 ^ LENGTH('g) \<le> unat a * unat b)"

text \<open>The macro \<open>overflowing!\<close>: an overflow is reported as out of gas.\<close>

definition overflowing :: "'a \<times> bool \<Rightarrow> 'a vm_result" where
  "overflowing p = (if snd p then Err OutOfGas else Ok (fst p))"

section \<open>The two implementations\<close>

definition overflow_mul_shr_u256 :: "u256 \<Rightarrow> u256 \<Rightarrow> nat \<Rightarrow> u256 \<times> bool" where
  "overflow_mul_shr_u256 a b shr =
     (let x = (ucast a :: u512) * ucast b;
          overflow = drop_bit 256 x \<noteq> 0
      in (ucast (drop_bit shr x), overflow))"

definition overflow_mul_shr_usize :: "usize \<Rightarrow> usize \<Rightarrow> nat \<Rightarrow> usize \<times> bool" where
  "overflow_mul_shr_usize a b shr =
     (let (c, o1) = overflowing_mul (ucast a :: u128) (ucast b);
          overflow = (o1 \<or> drop_bit 64 c \<noteq> 0);
          result = (ucast (drop_bit shr c) :: usize);
          overflow' = (overflow \<or> result < ucast (drop_bit shr c))
      in (result, overflow'))"

definition from_u256_usize :: "u256 \<Rightarrow> usize vm_result" where
  "from_u256_usize val = (let r = low_u64 val in if ucast r \<noteq> val then Err OutOfGas else Ok r)"

definition can_fit_in_usize :: "u256 \<Rightarrow> bool" where
  "can_fit_in_usize gas \<longleftrightarrow> gas = ucast (low_u64 gas)"

section \<open>Laws of the trait\<close>

locale cost_type =
  fixes val :: "'g \<Rightarrow> nat"
    and bound :: nat
    and from_u :: "u256 \<Rightarrow> 'g vm_result"
    and to_u :: "'g \<Rightarrow> u256"
    and add_op :: "'g \<Rightarrow> 'g \<Rightarrow> 'g \<times> bool"
    and mul_op :: "'g \<Rightarrow> 'g \<Rightarrow> 'g \<times> bool"
    and mul_shr_op :: "'g \<Rightarrow> 'g \<Rightarrow> nat \<Rightarrow> 'g \<times> bool"
  assumes val_bound: "val a < bound"
    and to_u_val: "unat (to_u a) = val a"
    and from_u_law: "from_u v = Ok a \<longleftrightarrow> unat v < bound \<and> val a = unat v"
    and from_u_err: "bound \<le> unat v \<Longrightarrow> from_u v = Err OutOfGas"
    and add_law: "\<not> snd (add_op a b) \<Longrightarrow> val (fst (add_op a b)) = val a + val b"
    and add_flag: "snd (add_op a b) \<longleftrightarrow> bound \<le> val a + val b"
    and mul_law: "\<not> snd (mul_op a b) \<Longrightarrow> val (fst (mul_op a b)) = val a * val b"
    and mul_flag: "snd (mul_op a b) \<longleftrightarrow> bound \<le> val a * val b"
    and mul_shr_law: "\<not> snd (mul_shr_op a b k) \<Longrightarrow> val (fst (mul_shr_op a b k)) = val a * val b div 2 ^ k"
    and mul_shr_flag: "snd (mul_shr_op a b k) \<longleftrightarrow> bound \<le> val a * val b"
begin

text \<open>Converting an amount to \<open>U256\<close> and back loses nothing.\<close>

lemma from_to: "from_u (to_u a) = Ok a"
  by (simp add: from_u_law to_u_val val_bound)

text \<open>A sum that is not flagged as overflowing is at least each summand: cost only grows.\<close>

lemma add_mono: "\<not> snd (add_op a b) \<Longrightarrow> val a \<le> val (fst (add_op a b)) \<and> val b \<le> val (fst (add_op a b))"
  by (simp add: add_law)

text \<open>An amount of gas that does not fit is more than any amount that does.\<close>

lemma unfit_exceeds: "from_u v = Err OutOfGas \<Longrightarrow> bound \<le> unat v \<or> (\<nexists>a. val a = unat v)"
  using from_u_law by (metis res.distinct(1) not_le)

end

section \<open>Lemmas on the generic operations\<close>

lemma unat_ucast_up:
  assumes "LENGTH('a) \<le> LENGTH('b)"
  shows "unat (ucast (w :: 'a::len word) :: 'b::len word) = unat w"
proof -
  have "unat w < 2 ^ LENGTH('b)"
    by (rule less_le_trans [OF unat_lt_pow power_increasing [OF assms]]) simp
  then show ?thesis by (simp add: unsigned_ucast_eq take_bit_nat_eq_self)
qed

lemma unat_cost_from: "64 \<le> LENGTH('g) \<Longrightarrow> unat (cost_from n :: 'g::len word) = unat n"
  by (simp add: cost_from_def unat_ucast_up)

lemma unat_as_u256: "LENGTH('g) \<le> 256 \<Longrightarrow> unat (as_u256 (g :: 'g::len word)) = unat g"
  by (simp add: as_u256_def unat_ucast_up)

lemma overflowing_Ok_iff: "overflowing p = Ok a \<longleftrightarrow> \<not> snd p \<and> a = fst p"
  by (auto simp: overflowing_def)

lemma overflowing_not_Panic [simp]: "overflowing p \<noteq> Panic"
  by (simp add: overflowing_def)

lemma overflow_add_Ok: "\<not> snd (overflow_add a b) \<Longrightarrow> unat (fst (overflow_add a b)) = unat a + unat b"
  by (simp add: overflow_add_def overflowing_add_def unat_add_no_overflow)

lemma overflow_mul_Ok: "\<not> snd (overflow_mul a b) \<Longrightarrow> unat (fst (overflow_mul a b)) = unat a * unat b"
  by (simp add: overflow_mul_def overflowing_mul_def unat_mult_no_overflow)

lemma overflow_flags:
  "snd (overflow_add a b) \<longleftrightarrow> 2 ^ LENGTH('g) \<le> unat a + unat b"
  "snd (overflow_mul a b) \<longleftrightarrow> 2 ^ LENGTH('g) \<le> unat a * unat b"
  "snd (overflow_mul_shr a b k) \<longleftrightarrow> 2 ^ LENGTH('g) \<le> unat a * unat b"
  for a b :: "'g::len word"
  by (simp_all add: overflow_add_def overflow_mul_def overflow_mul_shr_def overflowing_add_def
      overflowing_mul_def)

lemma overflow_mul_shr_Ok:
  assumes "\<not> snd (overflow_mul_shr a b k)"
  shows "unat (fst (overflow_mul_shr a b k)) = unat a * unat b div 2 ^ k"
proof -
  have "unat a * unat b div 2 ^ k < 2 ^ LENGTH('a)"
    using assms le_less_trans [OF div_le_dividend] by (simp add: overflow_mul_shr_def)
  then show ?thesis by (simp add: overflow_mul_shr_def unat_of_nat_small)
qed

lemma ucast_ucast_eq_iff:
  assumes "LENGTH('g) \<le> 256"
  shows "ucast (ucast v :: 'g::len word) = (v :: u256) \<longleftrightarrow> unat v < 2 ^ LENGTH('g)"
proof -
  have "unat (ucast (ucast v :: 'g word) :: u256) = unat (ucast v :: 'g word)"
    using assms by (simp add: unat_ucast_up)
  also have "\<dots> = unat v mod 2 ^ LENGTH('g)"
    by (simp add: unsigned_ucast_eq take_bit_eq_mod)
  finally show ?thesis
    by (simp add: word_unat_eq_iff) (metis mod_less mod_less_divisor zero_less_numeral zero_less_power)
qed

lemma from_u256_Ok_iff:
  assumes "LENGTH('g) \<le> 256"
  shows "from_u256 v = Ok (a :: 'g::len word) \<longleftrightarrow> unat v < 2 ^ LENGTH('g) \<and> unat a = unat v"
proof -
  have "unat v < 2 ^ LENGTH('g) \<Longrightarrow> unat (ucast v :: 'g word) = unat v"
    by (simp add: unsigned_ucast_eq take_bit_nat_eq_self)
  then show ?thesis
    unfolding from_u256_def Let_def ucast_ucast_eq_iff [OF assms]
    by (auto simp: word_unat_eq_iff)
qed

lemma from_u256_Err:
  "LENGTH('g) \<le> 256 \<Longrightarrow> 2 ^ LENGTH('g) \<le> unat v \<Longrightarrow> (from_u256 v :: 'g::len word vm_result) = Err OutOfGas"
  by (simp add: from_u256_def Let_def ucast_ucast_eq_iff)

lemma from_u256_not_Panic [simp]: "from_u256 v \<noteq> Panic"
  by (simp add: from_u256_def Let_def)

lemma from_u256_cases [consumes 1, case_names fit unfit]:
  assumes "LENGTH('g) \<le> 256"
  obtains (fit) a :: "'g::len word" where "from_u256 v = Ok a" "unat a = unat v"
  | (unfit) "(from_u256 v :: 'g word vm_result) = Err OutOfGas" "2 ^ LENGTH('g) \<le> unat v"
proof (cases "unat v < 2 ^ LENGTH('g)")
  case True
  then have "unat (ucast v :: 'g word) = unat v"
    by (simp add: unsigned_ucast_eq take_bit_nat_eq_self)
  with True fit assms show thesis by (metis from_u256_Ok_iff)
next
  case False
  with unfit assms show thesis by (simp add: from_u256_Err)
qed

section \<open>The two implementations are the generic operation\<close>

lemma unat_mul_lt_sq:
  "unat (a :: 'a::len word) * unat b < 2 ^ (2 * LENGTH('a))" for b :: "'a::len word"
  using mult_strict_mono' [OF unat_lt_pow [of a] unat_lt_pow [of b]]
  by (simp add: mult_2 power_add)

lemma unat_drop_bit: "unat (drop_bit n w) = unat (w :: 'a::len word) div 2 ^ n"
  by (simp add: unat_drop_bit_eq flip: drop_bit_eq_div)

lemma drop_bit_zero_iff: "drop_bit n w \<noteq> 0 \<longleftrightarrow> 2 ^ n \<le> unat (w :: 'a::len word)"
  unfolding word_unat_eq_iff unat_drop_bit by (simp add: div_eq_0_iff not_less)

lemma overflow_mul_shr_u256_eq: "overflow_mul_shr_u256 a b k = overflow_mul_shr a b k"
proof -
  define x :: u512 where "x = ucast a * ucast b"
  have x: "unat x = unat a * unat b"
    unfolding x_def using unat_mul_lt_sq [of a b]
    by (subst unat_mult_no_overflow) (simp_all add: unat_ucast_up)
  have "unat (ucast (drop_bit k x) :: u256) = unat (of_nat (unat a * unat b div 2 ^ k) :: u256)"
    by (simp add: unsigned_ucast_eq unsigned_of_nat unat_drop_bit x)
  then have "ucast (drop_bit k x) = (of_nat (unat a * unat b div 2 ^ k) :: u256)"
    by (simp only: word_unat_eq_iff)
  moreover have "drop_bit 256 x \<noteq> 0 \<longleftrightarrow> 2 ^ 256 \<le> unat a * unat b"
    by (simp only: drop_bit_zero_iff x)
  ultimately show ?thesis
    by (simp add: overflow_mul_shr_u256_def overflow_mul_shr_def x_def Let_def)
qed

lemma overflow_mul_shr_usize_eq: "overflow_mul_shr_usize a b k = overflow_mul_shr a b k"
proof -
  define c :: u128 where "c = ucast a * ucast b"
  have lt: "unat a * unat b < 2 ^ 128" using unat_mul_lt_sq [of a b] by simp
  then have c: "unat c = unat a * unat b"
    unfolding c_def by (subst unat_mult_no_overflow) (simp_all add: unat_ucast_up)
  define r :: usize where "r = ucast (drop_bit k c)"
  have r: "unat r = (unat a * unat b div 2 ^ k) mod 2 ^ 64"
    by (simp add: r_def unsigned_ucast_eq unat_drop_bit take_bit_eq_mod c)
  have r': "r = of_nat (unat a * unat b div 2 ^ k)"
    by (simp add: word_unat_eq_iff r unsigned_of_nat take_bit_eq_mod)
  have "\<not> r < ucast (drop_bit k c)"
    by (simp add: r_def)
  moreover have "drop_bit 64 c \<noteq> 0 \<longleftrightarrow> 2 ^ 64 \<le> unat a * unat b"
    by (simp only: drop_bit_zero_iff c)
  ultimately show ?thesis
    using lt unfolding overflow_mul_shr_usize_def overflow_mul_shr_def overflowing_mul_def Let_def
      c_def [symmetric]
    by (simp add: r' [unfolded r_def] unat_ucast_up)
qed

lemma from_u256_usize_eq: "from_u256_usize v = from_u256 v"
  by (simp add: from_u256_usize_def from_u256_def low_u64_def)

lemma can_fit_in_usize_iff: "can_fit_in_usize gas \<longleftrightarrow> (\<exists>g. from_u256_usize gas = Ok g)"
  by (auto simp: can_fit_in_usize_def from_u256_usize_def Let_def)

section \<open>Both implementations obey the trait\<close>

lemma cost_type_word:
  assumes "LENGTH('g) \<le> 256"
  shows "cost_type (unat :: 'g::len word \<Rightarrow> nat) (2 ^ LENGTH('g)) from_u256 as_u256
    overflow_add overflow_mul overflow_mul_shr"
  using assms
  by unfold_locales (simp_all add: unat_as_u256 from_u256_Ok_iff from_u256_Err overflow_add_Ok
      overflow_mul_Ok overflow_mul_shr_Ok unat_lt_pow overflow_flags)

lemma cost_type_usize:
  "cost_type (unat :: usize \<Rightarrow> nat) (2 ^ 64) from_u256_usize as_u256
     overflow_add overflow_mul overflow_mul_shr_usize"
  using cost_type_word [where 'g = 64]
  by (simp add: from_u256_usize_eq [abs_def] overflow_mul_shr_usize_eq [abs_def])

lemma cost_type_u256:
  "cost_type (unat :: u256 \<Rightarrow> nat) (2 ^ 256) from_u256 as_u256
     overflow_add overflow_mul overflow_mul_shr_u256"
  using cost_type_word [where 'g = 256] by (simp add: overflow_mul_shr_u256_eq [abs_def])

interpretation usize_cost: cost_type "unat :: usize \<Rightarrow> nat" "2 ^ 64" from_u256_usize as_u256
    overflow_add overflow_mul overflow_mul_shr_usize
  by (rule cost_type_usize)

interpretation u256_cost: cost_type "unat :: u256 \<Rightarrow> nat" "2 ^ 256" from_u256 as_u256
    overflow_add overflow_mul overflow_mul_shr_u256
  by (rule cost_type_u256)

end
