(* ===== verification/Instructions.thy ===== *)
theory Instructions
  imports Prelude
begin

text \<open>
  The instruction set (src/evm/instructions.rs).  The Rust enum is \<open>repr(u8)\<close> and the code
  orders and subtracts its values by their discriminants, so an instruction is its opcode byte
  and every variant is a named constant; the variants whose names are infix operators on words
  carry the suffix \<open>op\<close>.  The static table \<open>INSTRUCTIONS\<close> is the association list of its
  assignments, in the source's order.
\<close>

type_synonym instruction = byte

section \<open>The opcodes\<close>

abbreviation (input) STOP :: instruction where "STOP \<equiv> 0"
abbreviation (input) ADD :: instruction where "ADD \<equiv> 1"
abbreviation (input) MUL :: instruction where "MUL \<equiv> 0x02"
abbreviation (input) SUB :: instruction where "SUB \<equiv> 0x03"
abbreviation (input) DIV :: instruction where "DIV \<equiv> 0x04"
abbreviation (input) SDIV :: instruction where "SDIV \<equiv> 0x05"
abbreviation (input) MOD :: instruction where "MOD \<equiv> 0x06"
abbreviation (input) SMOD :: instruction where "SMOD \<equiv> 0x07"
abbreviation (input) ADDMOD :: instruction where "ADDMOD \<equiv> 0x08"
abbreviation (input) MULMOD :: instruction where "MULMOD \<equiv> 0x09"
abbreviation (input) EXP :: instruction where "EXP \<equiv> 0x0a"
abbreviation (input) SIGNEXTEND :: instruction where "SIGNEXTEND \<equiv> 0x0b"
abbreviation (input) LT :: instruction where "LT \<equiv> 0x10"
abbreviation (input) GT :: instruction where "GT \<equiv> 0x11"
abbreviation (input) SLT :: instruction where "SLT \<equiv> 0x12"
abbreviation (input) SGT :: instruction where "SGT \<equiv> 0x13"
abbreviation (input) EQ :: instruction where "EQ \<equiv> 0x14"
abbreviation (input) ISZERO :: instruction where "ISZERO \<equiv> 0x15"
abbreviation (input) ANDop :: instruction where "ANDop \<equiv> 0x16"
abbreviation (input) ORop :: instruction where "ORop \<equiv> 0x17"
abbreviation (input) XORop :: instruction where "XORop \<equiv> 0x18"
abbreviation (input) NOTop :: instruction where "NOTop \<equiv> 0x19"
abbreviation (input) BYTE :: instruction where "BYTE \<equiv> 0x1a"
abbreviation (input) SHL :: instruction where "SHL \<equiv> 0x1b"
abbreviation (input) SHR :: instruction where "SHR \<equiv> 0x1c"
abbreviation (input) SAR :: instruction where "SAR \<equiv> 0x1d"
abbreviation (input) SHA3 :: instruction where "SHA3 \<equiv> 0x20"
abbreviation (input) ADDRESS :: instruction where "ADDRESS \<equiv> 0x30"
abbreviation (input) BALANCE :: instruction where "BALANCE \<equiv> 0x31"
abbreviation (input) ORIGIN :: instruction where "ORIGIN \<equiv> 0x32"
abbreviation (input) CALLER :: instruction where "CALLER \<equiv> 0x33"
abbreviation (input) CALLVALUE :: instruction where "CALLVALUE \<equiv> 0x34"
abbreviation (input) CALLDATALOAD :: instruction where "CALLDATALOAD \<equiv> 0x35"
abbreviation (input) CALLDATASIZE :: instruction where "CALLDATASIZE \<equiv> 0x36"
abbreviation (input) CALLDATACOPY :: instruction where "CALLDATACOPY \<equiv> 0x37"
abbreviation (input) CODESIZE :: instruction where "CODESIZE \<equiv> 0x38"
abbreviation (input) CODECOPY :: instruction where "CODECOPY \<equiv> 0x39"
abbreviation (input) GASPRICE :: instruction where "GASPRICE \<equiv> 0x3a"
abbreviation (input) EXTCODESIZE :: instruction where "EXTCODESIZE \<equiv> 0x3b"
abbreviation (input) EXTCODECOPY :: instruction where "EXTCODECOPY \<equiv> 0x3c"
abbreviation (input) RETURNDATASIZE :: instruction where "RETURNDATASIZE \<equiv> 0x3d"
abbreviation (input) RETURNDATACOPY :: instruction where "RETURNDATACOPY \<equiv> 0x3e"
abbreviation (input) EXTCODEHASH :: instruction where "EXTCODEHASH \<equiv> 0x3f"
abbreviation (input) BLOCKHASH :: instruction where "BLOCKHASH \<equiv> 0x40"
abbreviation (input) COINBASE :: instruction where "COINBASE \<equiv> 0x41"
abbreviation (input) TIMESTAMP :: instruction where "TIMESTAMP \<equiv> 0x42"
abbreviation (input) NUMBER :: instruction where "NUMBER \<equiv> 0x43"
abbreviation (input) DIFFICULTY :: instruction where "DIFFICULTY \<equiv> 0x44"
abbreviation (input) GASLIMIT :: instruction where "GASLIMIT \<equiv> 0x45"
abbreviation (input) CHAINID :: instruction where "CHAINID \<equiv> 0x46"
abbreviation (input) SELFBALANCE :: instruction where "SELFBALANCE \<equiv> 0x47"
abbreviation (input) POP :: instruction where "POP \<equiv> 0x50"
abbreviation (input) MLOAD :: instruction where "MLOAD \<equiv> 0x51"
abbreviation (input) MSTORE :: instruction where "MSTORE \<equiv> 0x52"
abbreviation (input) MSTORE8 :: instruction where "MSTORE8 \<equiv> 0x53"
abbreviation (input) SLOAD :: instruction where "SLOAD \<equiv> 0x54"
abbreviation (input) SSTORE :: instruction where "SSTORE \<equiv> 0x55"
abbreviation (input) JUMP :: instruction where "JUMP \<equiv> 0x56"
abbreviation (input) JUMPI :: instruction where "JUMPI \<equiv> 0x57"
abbreviation (input) PC :: instruction where "PC \<equiv> 0x58"
abbreviation (input) MSIZE :: instruction where "MSIZE \<equiv> 0x59"
abbreviation (input) GAS :: instruction where "GAS \<equiv> 0x5a"
abbreviation (input) JUMPDEST :: instruction where "JUMPDEST \<equiv> 0x5b"
abbreviation (input) BEGINSUB :: instruction where "BEGINSUB \<equiv> 0x5c"
abbreviation (input) RETURNSUB :: instruction where "RETURNSUB \<equiv> 0x5d"
abbreviation (input) JUMPSUB :: instruction where "JUMPSUB \<equiv> 0x5e"
abbreviation (input) PUSH1 :: instruction where "PUSH1 \<equiv> 0x60"
abbreviation (input) PUSH2 :: instruction where "PUSH2 \<equiv> 0x61"
abbreviation (input) PUSH3 :: instruction where "PUSH3 \<equiv> 0x62"
abbreviation (input) PUSH4 :: instruction where "PUSH4 \<equiv> 0x63"
abbreviation (input) PUSH5 :: instruction where "PUSH5 \<equiv> 0x64"
abbreviation (input) PUSH6 :: instruction where "PUSH6 \<equiv> 0x65"
abbreviation (input) PUSH7 :: instruction where "PUSH7 \<equiv> 0x66"
abbreviation (input) PUSH8 :: instruction where "PUSH8 \<equiv> 0x67"
abbreviation (input) PUSH9 :: instruction where "PUSH9 \<equiv> 0x68"
abbreviation (input) PUSH10 :: instruction where "PUSH10 \<equiv> 0x69"
abbreviation (input) PUSH11 :: instruction where "PUSH11 \<equiv> 0x6a"
abbreviation (input) PUSH12 :: instruction where "PUSH12 \<equiv> 0x6b"
abbreviation (input) PUSH13 :: instruction where "PUSH13 \<equiv> 0x6c"
abbreviation (input) PUSH14 :: instruction where "PUSH14 \<equiv> 0x6d"
abbreviation (input) PUSH15 :: instruction where "PUSH15 \<equiv> 0x6e"
abbreviation (input) PUSH16 :: instruction where "PUSH16 \<equiv> 0x6f"
abbreviation (input) PUSH17 :: instruction where "PUSH17 \<equiv> 0x70"
abbreviation (input) PUSH18 :: instruction where "PUSH18 \<equiv> 0x71"
abbreviation (input) PUSH19 :: instruction where "PUSH19 \<equiv> 0x72"
abbreviation (input) PUSH20 :: instruction where "PUSH20 \<equiv> 0x73"
abbreviation (input) PUSH21 :: instruction where "PUSH21 \<equiv> 0x74"
abbreviation (input) PUSH22 :: instruction where "PUSH22 \<equiv> 0x75"
abbreviation (input) PUSH23 :: instruction where "PUSH23 \<equiv> 0x76"
abbreviation (input) PUSH24 :: instruction where "PUSH24 \<equiv> 0x77"
abbreviation (input) PUSH25 :: instruction where "PUSH25 \<equiv> 0x78"
abbreviation (input) PUSH26 :: instruction where "PUSH26 \<equiv> 0x79"
abbreviation (input) PUSH27 :: instruction where "PUSH27 \<equiv> 0x7a"
abbreviation (input) PUSH28 :: instruction where "PUSH28 \<equiv> 0x7b"
abbreviation (input) PUSH29 :: instruction where "PUSH29 \<equiv> 0x7c"
abbreviation (input) PUSH30 :: instruction where "PUSH30 \<equiv> 0x7d"
abbreviation (input) PUSH31 :: instruction where "PUSH31 \<equiv> 0x7e"
abbreviation (input) PUSH32 :: instruction where "PUSH32 \<equiv> 0x7f"
abbreviation (input) DUP1 :: instruction where "DUP1 \<equiv> 0x80"
abbreviation (input) DUP2 :: instruction where "DUP2 \<equiv> 0x81"
abbreviation (input) DUP3 :: instruction where "DUP3 \<equiv> 0x82"
abbreviation (input) DUP4 :: instruction where "DUP4 \<equiv> 0x83"
abbreviation (input) DUP5 :: instruction where "DUP5 \<equiv> 0x84"
abbreviation (input) DUP6 :: instruction where "DUP6 \<equiv> 0x85"
abbreviation (input) DUP7 :: instruction where "DUP7 \<equiv> 0x86"
abbreviation (input) DUP8 :: instruction where "DUP8 \<equiv> 0x87"
abbreviation (input) DUP9 :: instruction where "DUP9 \<equiv> 0x88"
abbreviation (input) DUP10 :: instruction where "DUP10 \<equiv> 0x89"
abbreviation (input) DUP11 :: instruction where "DUP11 \<equiv> 0x8a"
abbreviation (input) DUP12 :: instruction where "DUP12 \<equiv> 0x8b"
abbreviation (input) DUP13 :: instruction where "DUP13 \<equiv> 0x8c"
abbreviation (input) DUP14 :: instruction where "DUP14 \<equiv> 0x8d"
abbreviation (input) DUP15 :: instruction where "DUP15 \<equiv> 0x8e"
abbreviation (input) DUP16 :: instruction where "DUP16 \<equiv> 0x8f"
abbreviation (input) SWAP1 :: instruction where "SWAP1 \<equiv> 0x90"
abbreviation (input) SWAP2 :: instruction where "SWAP2 \<equiv> 0x91"
abbreviation (input) SWAP3 :: instruction where "SWAP3 \<equiv> 0x92"
abbreviation (input) SWAP4 :: instruction where "SWAP4 \<equiv> 0x93"
abbreviation (input) SWAP5 :: instruction where "SWAP5 \<equiv> 0x94"
abbreviation (input) SWAP6 :: instruction where "SWAP6 \<equiv> 0x95"
abbreviation (input) SWAP7 :: instruction where "SWAP7 \<equiv> 0x96"
abbreviation (input) SWAP8 :: instruction where "SWAP8 \<equiv> 0x97"
abbreviation (input) SWAP9 :: instruction where "SWAP9 \<equiv> 0x98"
abbreviation (input) SWAP10 :: instruction where "SWAP10 \<equiv> 0x99"
abbreviation (input) SWAP11 :: instruction where "SWAP11 \<equiv> 0x9a"
abbreviation (input) SWAP12 :: instruction where "SWAP12 \<equiv> 0x9b"
abbreviation (input) SWAP13 :: instruction where "SWAP13 \<equiv> 0x9c"
abbreviation (input) SWAP14 :: instruction where "SWAP14 \<equiv> 0x9d"
abbreviation (input) SWAP15 :: instruction where "SWAP15 \<equiv> 0x9e"
abbreviation (input) SWAP16 :: instruction where "SWAP16 \<equiv> 0x9f"
abbreviation (input) LOG0 :: instruction where "LOG0 \<equiv> 0xa0"
abbreviation (input) LOG1 :: instruction where "LOG1 \<equiv> 0xa1"
abbreviation (input) LOG2 :: instruction where "LOG2 \<equiv> 0xa2"
abbreviation (input) LOG3 :: instruction where "LOG3 \<equiv> 0xa3"
abbreviation (input) LOG4 :: instruction where "LOG4 \<equiv> 0xa4"
abbreviation (input) CREATE :: instruction where "CREATE \<equiv> 0xf0"
abbreviation (input) CALL :: instruction where "CALL \<equiv> 0xf1"
abbreviation (input) CALLCODE :: instruction where "CALLCODE \<equiv> 0xf2"
abbreviation (input) RETURN :: instruction where "RETURN \<equiv> 0xf3"
abbreviation (input) DELEGATECALL :: instruction where "DELEGATECALL \<equiv> 0xf4"
abbreviation (input) CREATE2 :: instruction where "CREATE2 \<equiv> 0xf5"
abbreviation (input) REVERT :: instruction where "REVERT \<equiv> 0xfd"
abbreviation (input) STATICCALL :: instruction where "STATICCALL \<equiv> 0xfa"
abbreviation (input) SUICIDE :: instruction where "SUICIDE \<equiv> 0xff"

text \<open>\<open>opcodes\<close> lists the discriminants of the enum; \<open>from_u8\<close> is the function the macro
  generates from them.\<close>

definition opcodes :: "instruction list" where
  "opcodes =
    [STOP, ADD, MUL, SUB, DIV, SDIV, MOD, SMOD, ADDMOD, MULMOD, EXP, SIGNEXTEND,
     LT, GT, SLT, SGT, EQ, ISZERO, ANDop, ORop, XORop, NOTop, BYTE, SHL,
     SHR, SAR, SHA3, ADDRESS, BALANCE, ORIGIN, CALLER, CALLVALUE, CALLDATALOAD, CALLDATASIZE, CALLDATACOPY, CODESIZE,
     CODECOPY, GASPRICE, EXTCODESIZE, EXTCODECOPY, RETURNDATASIZE, RETURNDATACOPY, EXTCODEHASH, BLOCKHASH, COINBASE, TIMESTAMP, NUMBER, DIFFICULTY,
     GASLIMIT, CHAINID, SELFBALANCE, POP, MLOAD, MSTORE, MSTORE8, SLOAD, SSTORE, JUMP, JUMPI, PC,
     MSIZE, GAS, JUMPDEST, BEGINSUB, RETURNSUB, JUMPSUB, PUSH1, PUSH2, PUSH3, PUSH4, PUSH5, PUSH6,
     PUSH7, PUSH8, PUSH9, PUSH10, PUSH11, PUSH12, PUSH13, PUSH14, PUSH15, PUSH16, PUSH17, PUSH18,
     PUSH19, PUSH20, PUSH21, PUSH22, PUSH23, PUSH24, PUSH25, PUSH26, PUSH27, PUSH28, PUSH29, PUSH30,
     PUSH31, PUSH32, DUP1, DUP2, DUP3, DUP4, DUP5, DUP6, DUP7, DUP8, DUP9, DUP10,
     DUP11, DUP12, DUP13, DUP14, DUP15, DUP16, SWAP1, SWAP2, SWAP3, SWAP4, SWAP5, SWAP6,
     SWAP7, SWAP8, SWAP9, SWAP10, SWAP11, SWAP12, SWAP13, SWAP14, SWAP15, SWAP16, LOG0, LOG1,
     LOG2, LOG3, LOG4, CREATE, CALL, CALLCODE, RETURN, DELEGATECALL, CREATE2, REVERT, STATICCALL, SUICIDE]"

definition from_u8 :: "byte \<Rightarrow> instruction option" where
  "from_u8 v = (if v \<in> set opcodes then Some v else None)"

section \<open>Classification\<close>

definition is_push :: "instruction \<Rightarrow> bool" where
  "is_push i \<longleftrightarrow> PUSH1 \<le> i \<and> i \<le> PUSH32"

definition push_bytes :: "instruction \<Rightarrow> nat option" where
  "push_bytes i = (if is_push i then Some (unat (i - PUSH1 + 1)) else None)"

definition dup_position :: "instruction \<Rightarrow> nat option" where
  "dup_position i = (if DUP1 \<le> i \<and> i \<le> DUP16 then Some (unat (i - DUP1)) else None)"

definition swap_position :: "instruction \<Rightarrow> nat option" where
  "swap_position i = (if SWAP1 \<le> i \<and> i \<le> SWAP16 then Some (unat (i - SWAP1 + 1)) else None)"

definition log_topics :: "instruction \<Rightarrow> nat option" where
  "log_topics i = (if LOG0 \<le> i \<and> i \<le> LOG4 then Some (unat (i - LOG0)) else None)"

section \<open>Gas price tiers and the instruction table\<close>

datatype gas_price_tier = Zero | Base | VeryLow | Low | Mid | High | Ext | Special

primrec tier_idx :: "gas_price_tier \<Rightarrow> nat" where
  "tier_idx Zero = 0"
| "tier_idx Base = 1"
| "tier_idx VeryLow = 2"
| "tier_idx Low = 3"
| "tier_idx Mid = 4"
| "tier_idx High = 5"
| "tier_idx Ext = 6"
| "tier_idx Special = 7"

record instruction_info =
  info_name :: string
  info_args :: nat
  info_ret :: nat
  info_tier :: gas_price_tier

definition new_info :: "string \<Rightarrow> nat \<Rightarrow> nat \<Rightarrow> gas_price_tier \<Rightarrow> instruction_info" where
  "new_info name args ret tier =
     \<lparr>info_name = name, info_args = args, info_ret = ret, info_tier = tier\<rparr>"

definition INSTRUCTIONS :: "(instruction \<times> instruction_info) list" where
  "INSTRUCTIONS =
    [(STOP, new_info ''STOP'' 0 0 Zero),
     (ADD, new_info ''ADD'' 2 1 VeryLow),
     (SUB, new_info ''SUB'' 2 1 VeryLow),
     (MUL, new_info ''MUL'' 2 1 Low),
     (DIV, new_info ''DIV'' 2 1 Low),
     (SDIV, new_info ''SDIV'' 2 1 Low),
     (MOD, new_info ''MOD'' 2 1 Low),
     (SMOD, new_info ''SMOD'' 2 1 Low),
     (EXP, new_info ''EXP'' 2 1 Special),
     (NOTop, new_info ''NOT'' 1 1 VeryLow),
     (LT, new_info ''LT'' 2 1 VeryLow),
     (GT, new_info ''GT'' 2 1 VeryLow),
     (SLT, new_info ''SLT'' 2 1 VeryLow),
     (SGT, new_info ''SGT'' 2 1 VeryLow),
     (EQ, new_info ''EQ'' 2 1 VeryLow),
     (ISZERO, new_info ''ISZERO'' 1 1 VeryLow),
     (ANDop, new_info ''AND'' 2 1 VeryLow),
     (ORop, new_info ''OR'' 2 1 VeryLow),
     (XORop, new_info ''XOR'' 2 1 VeryLow),
     (BYTE, new_info ''BYTE'' 2 1 VeryLow),
     (SHL, new_info ''SHL'' 2 1 VeryLow),
     (SHR, new_info ''SHR'' 2 1 VeryLow),
     (SAR, new_info ''SAR'' 2 1 VeryLow),
     (ADDMOD, new_info ''ADDMOD'' 3 1 Mid),
     (MULMOD, new_info ''MULMOD'' 3 1 Mid),
     (SIGNEXTEND, new_info ''SIGNEXTEND'' 2 1 Low),
     (RETURNDATASIZE, new_info ''RETURNDATASIZE'' 0 1 Base),
     (RETURNDATACOPY, new_info ''RETURNDATACOPY'' 3 0 VeryLow),
     (SHA3, new_info ''SHA3'' 2 1 Special),
     (ADDRESS, new_info ''ADDRESS'' 0 1 Base),
     (BALANCE, new_info ''BALANCE'' 1 1 Special),
     (ORIGIN, new_info ''ORIGIN'' 0 1 Base),
     (CALLER, new_info ''CALLER'' 0 1 Base),
     (CALLVALUE, new_info ''CALLVALUE'' 0 1 Base),
     (CALLDATALOAD, new_info ''CALLDATALOAD'' 1 1 VeryLow),
     (CALLDATASIZE, new_info ''CALLDATASIZE'' 0 1 Base),
     (CALLDATACOPY, new_info ''CALLDATACOPY'' 3 0 VeryLow),
     (EXTCODEHASH, new_info ''EXTCODEHASH'' 1 1 Special),
     (CODESIZE, new_info ''CODESIZE'' 0 1 Base),
     (CODECOPY, new_info ''CODECOPY'' 3 0 VeryLow),
     (GASPRICE, new_info ''GASPRICE'' 0 1 Base),
     (EXTCODESIZE, new_info ''EXTCODESIZE'' 1 1 Special),
     (EXTCODECOPY, new_info ''EXTCODECOPY'' 4 0 Special),
     (BLOCKHASH, new_info ''BLOCKHASH'' 1 1 Ext),
     (COINBASE, new_info ''COINBASE'' 0 1 Base),
     (TIMESTAMP, new_info ''TIMESTAMP'' 0 1 Base),
     (NUMBER, new_info ''NUMBER'' 0 1 Base),
     (DIFFICULTY, new_info ''DIFFICULTY'' 0 1 Base),
     (GASLIMIT, new_info ''GASLIMIT'' 0 1 Base),
     (CHAINID, new_info ''CHAINID'' 0 1 Base),
     (SELFBALANCE, new_info ''SELFBALANCE'' 0 1 Low),
     (POP, new_info ''POP'' 1 0 Base),
     (MLOAD, new_info ''MLOAD'' 1 1 VeryLow),
     (MSTORE, new_info ''MSTORE'' 2 0 VeryLow),
     (MSTORE8, new_info ''MSTORE8'' 2 0 VeryLow),
     (SLOAD, new_info ''SLOAD'' 1 1 Special),
     (SSTORE, new_info ''SSTORE'' 2 0 Special),
     (JUMP, new_info ''JUMP'' 1 0 Mid),
     (JUMPI, new_info ''JUMPI'' 2 0 High),
     (PC, new_info ''PC'' 0 1 Base),
     (MSIZE, new_info ''MSIZE'' 0 1 Base),
     (GAS, new_info ''GAS'' 0 1 Base),
     (JUMPDEST, new_info ''JUMPDEST'' 0 0 Special),
     (PUSH1, new_info ''PUSH1'' 0 1 VeryLow),
     (PUSH2, new_info ''PUSH2'' 0 1 VeryLow),
     (PUSH3, new_info ''PUSH3'' 0 1 VeryLow),
     (PUSH4, new_info ''PUSH4'' 0 1 VeryLow),
     (PUSH5, new_info ''PUSH5'' 0 1 VeryLow),
     (PUSH6, new_info ''PUSH6'' 0 1 VeryLow),
     (PUSH7, new_info ''PUSH7'' 0 1 VeryLow),
     (PUSH8, new_info ''PUSH8'' 0 1 VeryLow),
     (PUSH9, new_info ''PUSH9'' 0 1 VeryLow),
     (PUSH10, new_info ''PUSH10'' 0 1 VeryLow),
     (PUSH11, new_info ''PUSH11'' 0 1 VeryLow),
     (PUSH12, new_info ''PUSH12'' 0 1 VeryLow),
     (PUSH13, new_info ''PUSH13'' 0 1 VeryLow),
     (PUSH14, new_info ''PUSH14'' 0 1 VeryLow),
     (PUSH15, new_info ''PUSH15'' 0 1 VeryLow),
     (PUSH16, new_info ''PUSH16'' 0 1 VeryLow),
     (PUSH17, new_info ''PUSH17'' 0 1 VeryLow),
     (PUSH18, new_info ''PUSH18'' 0 1 VeryLow),
     (PUSH19, new_info ''PUSH19'' 0 1 VeryLow),
     (PUSH20, new_info ''PUSH20'' 0 1 VeryLow),
     (PUSH21, new_info ''PUSH21'' 0 1 VeryLow),
     (PUSH22, new_info ''PUSH22'' 0 1 VeryLow),
     (PUSH23, new_info ''PUSH23'' 0 1 VeryLow),
     (PUSH24, new_info ''PUSH24'' 0 1 VeryLow),
     (PUSH25, new_info ''PUSH25'' 0 1 VeryLow),
     (PUSH26, new_info ''PUSH26'' 0 1 VeryLow),
     (PUSH27, new_info ''PUSH27'' 0 1 VeryLow),
     (PUSH28, new_info ''PUSH28'' 0 1 VeryLow),
     (PUSH29, new_info ''PUSH29'' 0 1 VeryLow),
     (PUSH30, new_info ''PUSH30'' 0 1 VeryLow),
     (PUSH31, new_info ''PUSH31'' 0 1 VeryLow),
     (PUSH32, new_info ''PUSH32'' 0 1 VeryLow),
     (DUP1, new_info ''DUP1'' 1 2 VeryLow),
     (DUP2, new_info ''DUP2'' 2 3 VeryLow),
     (DUP3, new_info ''DUP3'' 3 4 VeryLow),
     (DUP4, new_info ''DUP4'' 4 5 VeryLow),
     (DUP5, new_info ''DUP5'' 5 6 VeryLow),
     (DUP6, new_info ''DUP6'' 6 7 VeryLow),
     (DUP7, new_info ''DUP7'' 7 8 VeryLow),
     (DUP8, new_info ''DUP8'' 8 9 VeryLow),
     (DUP9, new_info ''DUP9'' 9 10 VeryLow),
     (DUP10, new_info ''DUP10'' 10 11 VeryLow),
     (DUP11, new_info ''DUP11'' 11 12 VeryLow),
     (DUP12, new_info ''DUP12'' 12 13 VeryLow),
     (DUP13, new_info ''DUP13'' 13 14 VeryLow),
     (DUP14, new_info ''DUP14'' 14 15 VeryLow),
     (DUP15, new_info ''DUP15'' 15 16 VeryLow),
     (DUP16, new_info ''DUP16'' 16 17 VeryLow),
     (SWAP1, new_info ''SWAP1'' 2 2 VeryLow),
     (SWAP2, new_info ''SWAP2'' 3 3 VeryLow),
     (SWAP3, new_info ''SWAP3'' 4 4 VeryLow),
     (SWAP4, new_info ''SWAP4'' 5 5 VeryLow),
     (SWAP5, new_info ''SWAP5'' 6 6 VeryLow),
     (SWAP6, new_info ''SWAP6'' 7 7 VeryLow),
     (SWAP7, new_info ''SWAP7'' 8 8 VeryLow),
     (SWAP8, new_info ''SWAP8'' 9 9 VeryLow),
     (SWAP9, new_info ''SWAP9'' 10 10 VeryLow),
     (SWAP10, new_info ''SWAP10'' 11 11 VeryLow),
     (SWAP11, new_info ''SWAP11'' 12 12 VeryLow),
     (SWAP12, new_info ''SWAP12'' 13 13 VeryLow),
     (SWAP13, new_info ''SWAP13'' 14 14 VeryLow),
     (SWAP14, new_info ''SWAP14'' 15 15 VeryLow),
     (SWAP15, new_info ''SWAP15'' 16 16 VeryLow),
     (SWAP16, new_info ''SWAP16'' 17 17 VeryLow),
     (LOG0, new_info ''LOG0'' 2 0 Special),
     (LOG1, new_info ''LOG1'' 3 0 Special),
     (LOG2, new_info ''LOG2'' 4 0 Special),
     (LOG3, new_info ''LOG3'' 5 0 Special),
     (LOG4, new_info ''LOG4'' 6 0 Special),
     (BEGINSUB, new_info ''BEGINSUB'' 0 0 Base),
     (JUMPSUB, new_info ''JUMPSUB'' 1 0 High),
     (RETURNSUB, new_info ''RETURNSUB'' 0 0 Low),
     (CREATE, new_info ''CREATE'' 3 1 Special),
     (CALL, new_info ''CALL'' 7 1 Special),
     (CALLCODE, new_info ''CALLCODE'' 7 1 Special),
     (RETURN, new_info ''RETURN'' 2 0 Zero),
     (DELEGATECALL, new_info ''DELEGATECALL'' 6 1 Special),
     (STATICCALL, new_info ''STATICCALL'' 6 1 Special),
     (SUICIDE, new_info ''SUICIDE'' 1 0 Special),
     (CREATE2, new_info ''CREATE2'' 4 1 Special),
     (REVERT, new_info ''REVERT'' 2 0 Zero)]"

definition info :: "instruction \<Rightarrow> ('e, instruction_info) res" where
  "info i = (case map_of INSTRUCTIONS i of Some x \<Rightarrow> Ok x | None \<Rightarrow> Panic)"

definition MAX_NO_OF_TOPICS :: nat where
  "MAX_NO_OF_TOPICS = 4"

section \<open>The table and the enum agree\<close>

lemma table_keys_distinct: "distinct (map fst INSTRUCTIONS)"
proof -
  have "distinct (map unat (map fst INSTRUCTIONS))"
    by (simp add: INSTRUCTIONS_def)
  then show ?thesis by (rule distinct_map [THEN iffD1, THEN conjunct1])
qed

lemma table_keys: "fst ` set INSTRUCTIONS = set opcodes"
proof -
  have "sort (map unat (map fst INSTRUCTIONS)) = sort (map unat opcodes)"
    by (simp add: INSTRUCTIONS_def opcodes_def)
  then have "set (sort (map unat (map fst INSTRUCTIONS))) = set (sort (map unat opcodes))"
    by simp
  then have "unat ` (fst ` set INSTRUCTIONS) = unat ` set opcodes"
    by (simp only: set_sort set_map)
  then show ?thesis
    by (simp add: inj_image_eq_iff [OF inj_unat])
qed

lemma info_Ok_iff: "info i = Ok x \<longleftrightarrow> (i, x) \<in> set INSTRUCTIONS"
proof -
  have "info i = Ok x \<longleftrightarrow> map_of INSTRUCTIONS i = Some x"
    by (simp add: info_def split: option.splits)
  then show ?thesis by (simp add: map_of_eq_Some_iff [OF table_keys_distinct])
qed

lemma info_all: "list_all (\<lambda>(i, x). info i = Ok x) INSTRUCTIONS"
  by (auto simp: list_all_iff info_Ok_iff)

text \<open>The whole table as rewrite rules, one equation per instruction.\<close>

lemmas info_simps = info_all [unfolded INSTRUCTIONS_def list.pred_inject prod.case]

lemma info_iff_opcode: "(\<exists>x. info i = Ok x) \<longleftrightarrow> i \<in> set opcodes"
  unfolding info_Ok_iff table_keys [symmetric] by force

lemma info_from_u8: "from_u8 v = Some i \<Longrightarrow> \<exists>x. info i = Ok x"
  by (simp add: info_iff_opcode from_u8_def split: if_splits)

lemma from_u8_same: "from_u8 v = Some i \<Longrightarrow> i = v"
  by (simp add: from_u8_def split: if_splits)

lemma table_bounds:
  "list_all (\<lambda>(i, x). info_args x \<le> 17 \<and> info_ret x \<le> 17 \<and> info_ret x \<le> Suc (info_args x)) INSTRUCTIONS"
  by (simp add: INSTRUCTIONS_def new_info_def)

lemma table_push:
  "list_all (\<lambda>(i, x). case push_bytes i of None \<Rightarrow> True
     | Some p \<Rightarrow> 1 \<le> p \<and> p \<le> 32 \<and> info_args x = 0 \<and> info_ret x = 1) INSTRUCTIONS"
  by (simp add: INSTRUCTIONS_def new_info_def push_bytes_def is_push_def word_le_nat_alt)

lemma table_dup:
  "list_all (\<lambda>(i, x). case dup_position i of None \<Rightarrow> True
     | Some p \<Rightarrow> info_args x = Suc p \<and> info_ret x = Suc (Suc p)) INSTRUCTIONS"
  by (simp add: INSTRUCTIONS_def new_info_def dup_position_def word_le_nat_alt)

lemma table_swap:
  "list_all (\<lambda>(i, x). case swap_position i of None \<Rightarrow> True
     | Some p \<Rightarrow> 1 \<le> p \<and> info_args x = Suc p \<and> info_ret x = Suc p) INSTRUCTIONS"
  by (simp add: INSTRUCTIONS_def new_info_def swap_position_def word_le_nat_alt)

lemma table_log:
  "list_all (\<lambda>(i, x). case log_topics i of None \<Rightarrow> True
     | Some n \<Rightarrow> n \<le> MAX_NO_OF_TOPICS \<and> info_args x = n + 2 \<and> info_ret x = 0) INSTRUCTIONS"
  by (simp add: INSTRUCTIONS_def new_info_def log_topics_def MAX_NO_OF_TOPICS_def word_le_nat_alt)

lemma info_bounds:
  "info i = Ok x \<Longrightarrow> info_args x \<le> 17 \<and> info_ret x \<le> 17 \<and> info_ret x \<le> Suc (info_args x)"
  using table_bounds by (auto simp: list_all_iff info_Ok_iff)

lemma info_push: "info i = Ok x \<Longrightarrow> push_bytes i = Some p \<Longrightarrow> info_args x = 0 \<and> info_ret x = 1"
  using table_push by (fastforce simp: list_all_iff info_Ok_iff)

lemma info_dup:
  "info i = Ok x \<Longrightarrow> dup_position i = Some p \<Longrightarrow> info_args x = Suc p \<and> info_ret x = Suc (Suc p)"
  using table_dup by (fastforce simp: list_all_iff info_Ok_iff)

lemma info_swap:
  "info i = Ok x \<Longrightarrow> swap_position i = Some p \<Longrightarrow> 1 \<le> p \<and> info_args x = Suc p \<and> info_ret x = Suc p"
  using table_swap by (fastforce simp: list_all_iff info_Ok_iff)

lemma info_log:
  "info i = Ok x \<Longrightarrow> log_topics i = Some n \<Longrightarrow>
   n \<le> MAX_NO_OF_TOPICS \<and> info_args x = n + 2 \<and> info_ret x = 0"
  using table_log by (fastforce simp: list_all_iff info_Ok_iff)

end
