(* ===== verification/Evm_Stack.thy ===== *)
theory Evm_Stack
  imports Instructions
begin

text \<open>
  The operand stack of the interpreter (src/evm/interpreter/stack.rs).  The Rust vector grows
  at its end; the model keeps the same elements with the top of the stack first, so
  \<open>stack[len - n - 1]\<close> of the source is element \<open>n\<close> of the list.  Every operation the
  source guards by an \<open>expect\<close>, an assertion or an index check panics on the same inputs.
  The interface \<open>Stack<T>\<close> is the locale \<open>vm_stack\<close>, stated over the contents of a stack as
  a list with the top first, and the model is an instance of it.
\<close>

type_synonym 'a stack = "'a list"

definition peek :: "'a stack \<Rightarrow> nat \<Rightarrow> ('e, 'a) res" where
  "peek s no_from_top = (if no_from_top < length s then Ok (s ! no_from_top) else Panic)"

definition swap_with_top :: "nat \<Rightarrow> ('a stack, 'e, unit) eff" where
  "swap_with_top no_from_top = (\<lambda>s.
     if no_from_top < length s
     then (Ok (), s[0 := s ! no_from_top, no_from_top := s ! 0])
     else (Panic, s))"

definition has :: "'a stack \<Rightarrow> nat \<Rightarrow> bool" where
  "has s no_of_elems \<longleftrightarrow> no_of_elems \<le> length s"

definition pop_back :: "('a stack, 'e, 'a) eff" where
  "pop_back = (\<lambda>s. case s of [] \<Rightarrow> (Panic, s) | x # s' \<Rightarrow> (Ok x, s'))"

fun pop_loop :: "nat \<Rightarrow> ('a stack, 'e, 'a list) eff" where
  "pop_loop 0 = eret []"
| "pop_loop (Suc n) = ebind pop_back (\<lambda>x. ebind (pop_loop n) (\<lambda>xs. eret (x # xs)))"

definition pop_n :: "nat \<Rightarrow> ('a stack, 'e, 'a list) eff" where
  "pop_n no_of_elems = (if no_of_elems \<le> MAX_NO_OF_TOPICS then pop_loop no_of_elems else epanic)"

definition push :: "'a \<Rightarrow> ('a stack, 'e, unit) eff" where
  "push x = emodify (\<lambda>s. x # s)"

definition stack_size :: "'a stack \<Rightarrow> nat" where
  "stack_size s = length s"

definition peek_top :: "'a stack \<Rightarrow> nat \<Rightarrow> ('e, 'a list) res" where
  "peek_top s no_from_top = (if no_from_top \<le> length s then Ok (rev (take no_from_top s)) else Panic)"

section \<open>The interface\<close>

locale vm_stack =
  fixes contents :: "'s \<Rightarrow> 'a list"
    and peek_op :: "'s \<Rightarrow> nat \<Rightarrow> ('e, 'a) res"
    and swap_op :: "nat \<Rightarrow> ('s, 'e, unit) eff"
    and has_op :: "'s \<Rightarrow> nat \<Rightarrow> bool"
    and pop_op :: "('s, 'e, 'a) eff"
    and push_op :: "'a \<Rightarrow> ('s, 'e, unit) eff"
  assumes peek_law: "n < length (contents s) \<Longrightarrow> peek_op s n = Ok (contents s ! n)"
    and has_law: "has_op s n \<longleftrightarrow> n \<le> length (contents s)"
    and push_law: "\<exists>t. push_op x s = (Ok (), t) \<and> contents t = x # contents s"
    and pop_law: "contents s = x # xs \<Longrightarrow> \<exists>t. pop_op s = (Ok x, t) \<and> contents t = xs"
    and swap_law: "n < length (contents s) \<Longrightarrow> 0 < n \<Longrightarrow> \<exists>t. swap_op n s = (Ok (), t) \<and>
      contents t = (contents s)[0 := contents s ! n, n := contents s ! 0]"
begin

text \<open>Popping returns what was pushed, and leaves the stack as it was.\<close>

lemma push_pop: "\<exists>t u. push_op x s = (Ok (), t) \<and> pop_op t = (Ok x, u) \<and> contents u = contents s"
  using push_law [of x s] pop_law by metis

text \<open>A swap is its own inverse.\<close>

lemma swap_swap:
  assumes "n < length (contents s)" and "0 < n"
  shows "\<exists>t u. swap_op n s = (Ok (), t) \<and> swap_op n t = (Ok (), u) \<and> contents u = contents s"
proof -
  obtain t where t: "swap_op n s = (Ok (), t)"
    and ct: "contents t = (contents s)[0 := contents s ! n, n := contents s ! 0]"
    using swap_law assms by blast
  have "n < length (contents t)" using assms ct by simp
  then obtain u where u: "swap_op n t = (Ok (), u)"
    and cu: "contents u = (contents t)[0 := contents t ! n, n := contents t ! 0]"
    using swap_law assms(2) by blast
  have "contents u = contents s"
    unfolding cu ct using assms
    by (intro nth_equalityI) (auto simp: nth_list_update simp del: length_greater_0_conv)
  with t u show ?thesis by blast
qed

text \<open>If a stack has the elements, popping one succeeds and leaves one fewer.\<close>

lemma has_pop: "has_op s (Suc n) \<Longrightarrow> \<exists>x t. pop_op s = (Ok x, t) \<and> has_op t n"
  using pop_law has_law by (metis Suc_le_length_iff)

end

interpretation vs: vm_stack "\<lambda>s. s" peek swap_with_top has pop_back push
  by unfold_locales
    (auto simp: peek_def has_def push_def pop_back_def swap_with_top_def eff_simps)

section \<open>Lemmas\<close>

lemma wp_pop_back [wp_simps]:
  "wp p pop_back Q E s \<longleftrightarrow> (case s of [] \<Rightarrow> p | x # s' \<Rightarrow> Q x s')"
  by (cases s) (auto simp: wp_def pop_back_def)

lemma wp_push [wp_simps]: "wp p (push x) Q E s = Q () (x # s)"
  by (simp add: push_def wp_simps)

lemma pop_loop_Ok: "n \<le> length s \<Longrightarrow> pop_loop n s = (Ok (take n s), drop n s)"
  by (induction n arbitrary: s)
    (auto simp: eff_simps pop_back_def Suc_le_length_iff)

lemma pop_n_Ok:
  "n \<le> length s \<Longrightarrow> n \<le> MAX_NO_OF_TOPICS \<Longrightarrow> pop_n n s = (Ok (take n s), drop n s)"
  by (simp add: pop_n_def pop_loop_Ok)

lemma swap_with_top_Ok:
  "n < length s \<Longrightarrow> swap_with_top n s = (Ok (), s[0 := s ! n, n := s ! 0])"
  by (simp add: swap_with_top_def)

end
