(* ===== verification/Vm_Context.thy ===== *)
theory Vm_Context
  imports Vm_Types
begin

text \<open>
  The interface between the interpreter and the chain (trait \<open>Context\<close>, src/vm/context.rs).
  The trait object \<open>&mut dyn Context\<close> is a record of its methods over a state \<open>'c\<close>; methods
  that read also pass the state, because the implementation fills caches on reads.  The
  observer that the source passes beside the context is part of \<open>'c\<close>.  The locale
  \<open>vm_context_laws\<close> is what the interpreter relies on.
\<close>

record 'c vm_context =
  cx_storage_at :: "bytes \<Rightarrow> ('c, vm_error, u256) eff"
  cx_set_storage :: "bytes \<Rightarrow> u256 \<Rightarrow> ('c, vm_error, unit) eff"
  cx_exists :: "address \<Rightarrow> ('c, vm_error, bool) eff"
  cx_exists_and_not_null :: "address \<Rightarrow> ('c, vm_error, bool) eff"
  cx_origin_balance :: "('c, vm_error, u256) eff"
  cx_balance :: "address \<Rightarrow> ('c, vm_error, u256) eff"
  cx_blockhash :: "u256 \<Rightarrow> ('c, vm_error, h256) eff"
  cx_create :: "u256 \<Rightarrow> u256 \<Rightarrow> bytes \<Rightarrow> create_contract_address \<Rightarrow>
    ('c, db_error, contract_create_result + trap_kind) eff"
  cx_call :: "u256 \<Rightarrow> address \<Rightarrow> address \<Rightarrow> u256 option \<Rightarrow> bytes \<Rightarrow> address \<Rightarrow> call_type \<Rightarrow>
    ('c, db_error, message_call_result + trap_kind) eff"
  cx_extcode :: "address \<Rightarrow> ('c, vm_error, bytes option) eff"
  cx_extcodehash :: "address \<Rightarrow> ('c, vm_error, h256 option) eff"
  cx_extcodesize :: "address \<Rightarrow> ('c, vm_error, usize option) eff"
  cx_log :: "h256 list \<Rightarrow> bytes \<Rightarrow> ('c, vm_error, unit) eff"
  cx_ret :: "u256 \<Rightarrow> return_data \<Rightarrow> bool \<Rightarrow> ('c, vm_error, u256) eff"
  cx_suicide :: "address \<Rightarrow> u256 \<Rightarrow> ('c, vm_error, unit) eff"
  cx_spec :: "'c \<Rightarrow> spec"
  cx_env :: "'c \<Rightarrow> env"
  cx_chain_id :: "'c \<Rightarrow> u64"
  cx_space :: "'c \<Rightarrow> space"
  cx_depth :: "'c \<Rightarrow> usize"
  cx_is_static :: "'c \<Rightarrow> bool"
  cx_trace_next_instruction :: "nat \<Rightarrow> byte \<Rightarrow> u256 \<Rightarrow> 'c \<Rightarrow> bool \<times> 'c"
  cx_trace_prepare_execute ::
    "nat \<Rightarrow> byte \<Rightarrow> u256 \<Rightarrow> (nat \<times> nat) option \<Rightarrow> (u256 \<times> u256) option \<Rightarrow> 'c \<Rightarrow> 'c"
  cx_trace_executed :: "u256 \<Rightarrow> u256 list \<Rightarrow> bytes \<Rightarrow> 'c \<Rightarrow> 'c"

text \<open>The part of a context that stays the same while a frame runs.\<close>

definition cx_frame :: "'c vm_context \<Rightarrow> 'c \<Rightarrow> spec \<times> env \<times> u64 \<times> space \<times> usize \<times> bool" where
  "cx_frame V c = (cx_spec V c, cx_env V c, cx_chain_id V c, cx_space V c, cx_depth V c, cx_is_static V c)"

text \<open>An operation that keeps an invariant and an observation and never panics.\<close>

definition keeps :: "('c \<Rightarrow> bool) \<Rightarrow> ('c \<Rightarrow> 'k) \<Rightarrow> ('c, 'e, 'a) eff \<Rightarrow> bool" where
  "keeps J fr m \<longleftrightarrow> (\<forall>c. J c \<longrightarrow> wp False m (\<lambda>_ c'. J c' \<and> fr c' = fr c) (\<lambda>_ c'. J c' \<and> fr c' = fr c) c)"

section \<open>Lemmas on preserved observations\<close>

lemma keepsD:
  assumes "keeps J fr m" and "J c" and "m c = (r, c')"
  shows "r \<noteq> Panic \<and> J c' \<and> fr c' = fr c"
proof -
  have "wp False m (\<lambda>_ c'. J c' \<and> fr c' = fr c) (\<lambda>_ c'. J c' \<and> fr c' = fr c) c"
    using assms unfolding keeps_def by blast
  with assms(3) show ?thesis by (cases r) (simp_all add: wp_def)
qed

lemma keepsI:
  assumes "\<And>c r c'. J c \<Longrightarrow> m c = (r, c') \<Longrightarrow> r \<noteq> Panic \<and> J c' \<and> fr c' = fr c"
  shows "keeps J fr m"
  unfolding keeps_def wp_def
proof (intro allI impI)
  fix c
  assume "J c"
  with assms [of c "fst (m c)" "snd (m c)"]
  show "case m c of (Ok a, s') \<Rightarrow> J s' \<and> fr s' = fr c | (Err e, s') \<Rightarrow> J s' \<and> fr s' = fr c
      | (Panic, s') \<Rightarrow> False"
    by (cases "m c"; cases "fst (m c)") auto
qed

lemma keeps_wp:
  "keeps J fr m \<Longrightarrow> J c \<Longrightarrow> (\<And>a c'. J c' \<Longrightarrow> fr c' = fr c \<Longrightarrow> Q a c') \<Longrightarrow>
   (\<And>e c'. J c' \<Longrightarrow> fr c' = fr c \<Longrightarrow> E e c') \<Longrightarrow> wp p m Q E c"
  unfolding keeps_def by (rule wp_mono [of False m "\<lambda>_ c'. J c' \<and> fr c' = fr c" "\<lambda>_ c'. J c' \<and> fr c' = fr c"]) auto

lemma keeps_ebind: "keeps J fr m \<Longrightarrow> (\<And>a. keeps J fr (f a)) \<Longrightarrow> keeps J fr (ebind m f)"
  by (rule keepsI) (auto simp: ebind_def split: prod.splits res.splits dest: keepsD, metis keepsD)

lemma keeps_basic [simp]: "keeps J fr (eret a)" "keeps J fr (efail e)" "keeps J fr (eget g)"
  by (simp_all add: keeps_def wp_simps)

lemma keeps_elift: "r \<noteq> Panic \<Longrightarrow> keeps J fr (elift r)"
  by (cases r) (simp_all add: keeps_def wp_simps)

lemma keeps_if: "(b \<Longrightarrow> keeps J fr m) \<Longrightarrow> (\<not> b \<Longrightarrow> keeps J fr n) \<Longrightarrow> keeps J fr (if b then m else n)"
  by simp

section \<open>Well-formed cost schedules\<close>

text \<open>
  What the gas meter needs of a schedule: eight tiers, only the free ones zero, the memory
  divisor and the call divisor the meter is written for, amounts so small that the products
  and sums the meter forms on \<open>usize\<close> do not overflow, and a stipend that the surcharge for a
  value transfer covers.
\<close>

definition spec_ok :: "spec \<Rightarrow> bool" where
  "spec_ok sp \<longleftrightarrow>
     length (tier_step_gas sp) = 8 \<and>
     (\<forall>k \<in> {1, 2, 3, 4, 5, 6}. 0 < unat (tier_step_gas sp ! k)) \<and>
     quad_coeff_div sp = 512 \<and> sub_gas_cap_divisor sp = Some 64 \<and>
     list_all (\<lambda>g. 0 < unat g \<and> unat g < 2 ^ 24)
       [exp_gas sp, exp_byte_gas sp, sha3_gas sp, sload_gas sp, balance_gas sp, extcodesize_gas sp,
        extcodehash_gas sp, extcodecopy_base_gas sp, suicide_gas sp, suicide_to_new_account_cost sp,
        sstore_set_gas sp, sstore_reset_gas sp, log_gas sp, log_topic_gas sp, call_gas sp,
        call_new_account_gas sp, call_value_transfer_gas sp, create_gas sp, blockhash_gas sp,
        evm_gas_ratio sp, stack_limit sp, memory_gas sp] \<and>
     call_stipend sp < call_value_transfer_gas sp \<and> call_stipend sp < create_gas sp"

lemma spec_ok_new: "spec_ok (new_spec_from_common_params tn n)"
  by (simp add: spec_ok_def new_spec_from_common_params_def genesis_spec_def word_less_nat_alt)

section \<open>The contract of the interface\<close>

text \<open>
  What a call or a create that returns at once hands back is never more gas than it was given; a
  create that succeeds always runs in a frame of its own, so it never returns at once.  A trap
  passes on exactly the gas it was given.
\<close>

text \<open>The parameters of a trap, for what the machine asked for.\<close>

definition create_trap :: "u256 \<Rightarrow> u256 \<Rightarrow> bytes \<Rightarrow> action_params \<Rightarrow> bool" where
  "create_trap g v code p \<longleftrightarrow> ap_gas p = g \<and> ap_value p = Transfer v \<and> ap_code p = Some code \<and> ap_data p = None"

definition call_trap :: "u256 \<Rightarrow> u256 option \<Rightarrow> bytes \<Rightarrow> call_type \<Rightarrow> action_params \<Rightarrow> bool" where
  "call_trap g v d ct p \<longleftrightarrow> ap_gas p = g \<and> ap_call_type p = ct \<and> ap_data p = Some d \<and>
     (\<forall>x. v = Some x \<longrightarrow> ap_value p = Transfer x) \<and> (\<forall>c. ap_code p = Some c \<longrightarrow> length c < 2 ^ 63)"

primrec create_result_ok :: "u256 \<Rightarrow> (action_params \<Rightarrow> bool) \<Rightarrow> contract_create_result + trap_kind \<Rightarrow> bool" where
  "create_result_ok g P (Inl r) = (case r of
      Created _ _ \<Rightarrow> False
    | CreateFailed _ \<Rightarrow> True
    | CreateReverted left rd \<Rightarrow> left \<le> g \<and> rd_ok rd)"
| "create_result_ok g P (Inr t) = (case t of TrapCreate p \<Rightarrow> P p | TrapCall p \<Rightarrow> False)"

primrec call_result_ok :: "u256 \<Rightarrow> (action_params \<Rightarrow> bool) \<Rightarrow> message_call_result + trap_kind \<Rightarrow> bool" where
  "call_result_ok g P (Inl r) = (case r of
      CallSuccess left rd \<Rightarrow> left \<le> g \<and> rd_ok rd
    | CallFailed _ \<Rightarrow> True
    | CallReverted left rd \<Rightarrow> left \<le> g \<and> rd_ok rd)"
| "call_result_ok g P (Inr t) = (case t of TrapCall p \<Rightarrow> P p | TrapCreate p \<Rightarrow> False)"

text \<open>
  The traps that leave a machine: data and code of a size that fits a frame, no create in a static
  context, and no value moved by a static call or by any call in a static context.
\<close>

definition params_fit :: "action_params \<Rightarrow> bool" where
  "params_fit p \<longleftrightarrow> (\<forall>d. ap_data p = Some d \<longrightarrow> length d < 2 ^ 63) \<and> (\<forall>c. ap_code p = Some c \<longrightarrow> length c < 2 ^ 63)"

definition trap_allowed :: "bool \<Rightarrow> trap_kind \<Rightarrow> bool" where
  "trap_allowed static t = (case t of
     TrapCall p \<Rightarrow> params_fit p \<and> (ap_call_type p = StaticCall \<or> static \<and> ap_call_type p = Call \<longrightarrow> action_value_value (ap_value p) = 0)
   | TrapCreate p \<Rightarrow> params_fit p \<and> \<not> static \<and> ap_code p \<noteq> None \<and> (\<exists>v. ap_value p = Transfer v))"

text \<open>
  The laws: every operation keeps the invariant of the context and the part that is fixed for the
  frame, and does not panic.  There are two exceptions.  \<open>blockhash\<close> is asked only for block numbers that
  have a successor.  \<open>create\<close> and \<open>suicide\<close> add to nonces and balances, so they are free of panics only in a
  context that is \<open>calm\<close>; all other operations leave a calm context calm.
\<close>

definition cx_view :: "'c vm_context \<Rightarrow> ('c \<Rightarrow> bool) \<Rightarrow> 'c \<Rightarrow> (spec \<times> env \<times> u64 \<times> space \<times> usize \<times> bool) \<times> bool" where
  "cx_view V calm c = (cx_frame V c, calm c)"

locale vm_context_laws =
  fixes V :: "'c vm_context"
    and J :: "'c \<Rightarrow> bool"
    and calm :: "'c \<Rightarrow> bool"
  assumes storage_at: "keeps J (cx_view V calm) (cx_storage_at V k)"
    and set_storage: "keeps J (cx_view V calm) (cx_set_storage V k v)"
    and exists: "keeps J (cx_view V calm) (cx_exists V a)"
    and exists_and_not_null: "keeps J (cx_view V calm) (cx_exists_and_not_null V a)"
    and origin_balance: "keeps J (cx_view V calm) (cx_origin_balance V)"
    and balance: "keeps J (cx_view V calm) (cx_balance V a)"
    and blockhash: "J c \<Longrightarrow> wp (n = - 1) (cx_blockhash V n) (\<lambda>_ c'. J c' \<and> cx_view V calm c' = cx_view V calm c)
      (\<lambda>_ c'. J c' \<and> cx_view V calm c' = cx_view V calm c) c"
    and create: "J c \<Longrightarrow> wp (\<not> calm c) (cx_create V g v code scheme)
      (\<lambda>r c'. J c' \<and> cx_frame V c' = cx_frame V c \<and> create_result_ok g (create_trap g v code) r) (\<lambda>_ c'. J c' \<and> cx_frame V c' = cx_frame V c) c"
    and call: "keeps J (cx_view V calm) (cx_call V g sender receiver value data code_address ct)"
    and call_result: "J c \<Longrightarrow> cx_call V g sender receiver value data code_address ct c = (Ok r', c')
      \<Longrightarrow> call_result_ok g (call_trap g value data ct) r'"
    and extcode: "keeps J (cx_view V calm) (cx_extcode V a)"
    and extcode_length: "J c \<Longrightarrow> cx_extcode V a c = (Ok (Some code), c') \<Longrightarrow> length code < 2 ^ 63"
    and extcodehash: "keeps J (cx_view V calm) (cx_extcodehash V a)"
    and extcodesize: "keeps J (cx_view V calm) (cx_extcodesize V a)"
    and log: "keeps J (cx_view V calm) (cx_log V topics data)"
    and suicide: "J c \<Longrightarrow> wp (\<not> calm c) (cx_suicide V a nonce) (\<lambda>_ c'. J c' \<and> cx_frame V c' = cx_frame V c)
      (\<lambda>_ c'. J c' \<and> cx_frame V c' = cx_frame V c) c"
    and trace_next: "J c \<Longrightarrow> J (snd (cx_trace_next_instruction V pc i g c)) \<and>
      cx_view V calm (snd (cx_trace_next_instruction V pc i g c)) = cx_view V calm c"
    and trace_prepare: "J c \<Longrightarrow> J (cx_trace_prepare_execute V pc i g mw sw c) \<and>
      cx_view V calm (cx_trace_prepare_execute V pc i g mw sw c) = cx_view V calm c"
    and trace_executed: "J c \<Longrightarrow> J (cx_trace_executed V g sp m c) \<and>
      cx_view V calm (cx_trace_executed V g sp m c) = cx_view V calm c"
    and spec_law: "J c \<Longrightarrow> spec_ok (cx_spec V c)"

end
