(* ===== verification/Gasometer.thy ===== *)
theory Gasometer
  imports Cost_Type Evm_Stack Vm_Context
begin

text \<open>
  The gas meter of the interpreter (src/evm/interpreter/gasometer.rs): the cost of each
  instruction, the cost of growing the memory and the gas a nested call receives.  The record
  \<open>gasometer\<close> is generic in the cost type as in the source.  The function \<open>requirements\<close> is
  split where the source computes a \<open>Request\<close> first and its total second.
\<close>

section \<open>State and requests\<close>

record 'g gasometer =
  current_gas :: 'g
  current_mem_gas :: 'g

datatype 'g request =
    Gas 'g
  | GasMem 'g 'g
  | GasMemProvide 'g 'g "u256 option"
  | GasMemCopy 'g 'g 'g

record 'g instruction_requirements =
  gas_cost :: 'g
  provide_gas :: "'g option"
  memory_total_gas :: 'g
  memory_required_size :: usize

definition gasometer_new :: "'g::len word \<Rightarrow> 'g word gasometer" where
  "gasometer_new g = \<lparr>current_gas = g, current_mem_gas = cost_from 0\<rparr>"

definition verify_gas :: "'g::len word gasometer \<Rightarrow> 'g word \<Rightarrow> unit vm_result" where
  "verify_gas gm cost = (if current_gas gm < cost then Err OutOfGas else Ok ())"

section \<open>Gas for nested calls\<close>

definition capped_remaining :: "usize \<Rightarrow> 'g::len word \<Rightarrow> 'g word vm_result" where
  "capped_remaining cap_divisor gas_remaining =
     (if cap_divisor = 64 then u_sub gas_remaining (drop_bit 6 gas_remaining)
      else if (cost_from cap_divisor :: 'g word) = 0 then Panic
      else u_sub gas_remaining (gas_remaining div cost_from cap_divisor))"

definition gas_provided ::
    "'g::len word gasometer \<Rightarrow> spec \<Rightarrow> 'g word \<Rightarrow> u256 option \<Rightarrow> 'g word vm_result" where
  "gas_provided gm sp needed requested =
     (let requested = map_option from_u256 requested in
      case (sub_gas_cap_divisor sp, needed \<le> current_gas gm) of
        (Some cap_divisor, True) \<Rightarrow>
          rbind (u_sub (current_gas gm) needed) (\<lambda>gas_remaining.
          rbind (capped_remaining cap_divisor gas_remaining) (\<lambda>max_gas_provided.
          (case requested of
             Some (Ok r) \<Rightarrow> Ok (min r max_gas_provided)
           | _ \<Rightarrow> Ok max_gas_provided)))
      | _ \<Rightarrow>
          (case requested of
             Some r \<Rightarrow> r
           | None \<Rightarrow> if needed \<le> current_gas gm then u_sub (current_gas gm) needed else Ok (cost_from 0)))"

section \<open>Memory\<close>

definition add_gas_usize :: "'g::len word \<Rightarrow> usize \<Rightarrow> 'g word \<times> bool" where
  "add_gas_usize value num = overflow_add value (cost_from num)"

definition to_word_size :: "'g::len word \<Rightarrow> 'g word \<times> bool" where
  "to_word_size value =
     (let (gas, overflow) = add_gas_usize value 31 in
      if overflow then (gas, overflow) else (drop_bit 5 gas, False))"

definition mem_needed_const :: "u256 \<Rightarrow> usize \<Rightarrow> 'g::len word vm_result" where
  "mem_needed_const mem add = rbind (overflowing (overflowing_add mem (ucast add))) from_u256"

definition mem_needed :: "u256 \<Rightarrow> u256 \<Rightarrow> 'g::len word vm_result" where
  "mem_needed offset sz =
     (if sz = 0 then Ok (cost_from 0)
      else rbind (overflowing (overflowing_add offset sz)) from_u256)"

definition gas_for_mem :: "spec \<Rightarrow> 'g::len word \<Rightarrow> 'g word vm_result" where
  "gas_for_mem sp mem_size =
     (let s = drop_bit 5 mem_size in
      rbind (overflowing (overflow_mul s (cost_from (memory_gas sp)))) (\<lambda>a.
      if quad_coeff_div sp \<noteq> 512 then Panic
      else rbind (overflowing (overflow_mul_shr s s 9)) (\<lambda>b.
           overflowing (overflow_add a b))))"

definition mem_gas_cost ::
    "'g::len word gasometer \<Rightarrow> spec \<Rightarrow> usize \<Rightarrow> 'g word \<Rightarrow> ('g word \<times> 'g word \<times> usize) vm_result" where
  "mem_gas_cost gm sp current_mem_size mem_size =
     rbind (overflowing (to_word_size mem_size)) (\<lambda>words.
     let current = cost_from current_mem_size;
         req_mem_size_rounded = push_bit 5 words in
     rbind (if current < req_mem_size_rounded
            then rbind (gas_for_mem sp req_mem_size_rounded) (\<lambda>new_mem_gas.
                 rbind (u_sub new_mem_gas (current_mem_gas gm)) (\<lambda>cost. Ok (cost, new_mem_gas)))
            else Ok (cost_from 0, current_mem_gas gm))
       (\<lambda>(cost, new_mem_gas). rbind (as_usize req_mem_size_rounded) (\<lambda>sz. Ok (cost, new_mem_gas, sz))))"

section \<open>The requirements of an instruction\<close>

definition u256_to_address :: "u256 \<Rightarrow> address" where
  "u256_to_address v = ucast v"

definition epeek :: "u256 stack \<Rightarrow> nat \<Rightarrow> ('c, vm_error, u256) eff" where
  "epeek s n = elift (peek s n)"

text \<open>The condition under which an account is created by a transfer, with the source's short circuits.\<close>

definition creates_account :: "'c vm_context \<Rightarrow> spec \<Rightarrow> address \<Rightarrow> bool \<Rightarrow> ('c, vm_error, bool) eff" where
  "creates_account V sp a is_value_transfer =
     (if \<not> no_empty sp then ebind (cx_exists V a) (\<lambda>e. eret (\<not> e))
      else if is_value_transfer then ebind (cx_exists_and_not_null V a) (\<lambda>e. eret (\<not> e))
      else eret False)"

definition account_ratio :: "'c vm_context \<Rightarrow> spec \<Rightarrow> 'c \<Rightarrow> usize" where
  "account_ratio V sp c = (if cx_space V c = Ethereum then evm_gas_ratio sp else 1)"

definition with_new_account_gas ::
    "'c vm_context \<Rightarrow> spec \<Rightarrow> usize \<Rightarrow> bool \<Rightarrow> 'g::len word \<Rightarrow> ('c, vm_error, 'g word) eff" where
  "with_new_account_gas V sp cost creates gas =
     (if creates
      then ebind (eget (account_ratio V sp)) (\<lambda>ratio.
           ebind (elift (u_mul cost ratio)) (\<lambda>x.
           elift (overflowing (overflow_add gas (cost_from x)))))
      else eret gas)"

definition sstore_request ::
    "'c vm_context \<Rightarrow> spec \<Rightarrow> u256 stack \<Rightarrow> ('c, vm_error, 'g::len word request) eff" where
  "sstore_request V sp s =
     ebind (epeek s 0) (\<lambda>k.
     ebind (epeek s 1) (\<lambda>newval.
     ebind (cx_storage_at V (to_be 32 k)) (\<lambda>val.
     if val = 0 \<and> newval \<noteq> 0
     then ebind (elift (u_mul (sstore_set_gas sp) (evm_gas_ratio sp))) (\<lambda>g. eret (Gas (cost_from g)))
     else eret (Gas (cost_from (sstore_reset_gas sp))))))"

definition suicide_request ::
    "'c vm_context \<Rightarrow> spec \<Rightarrow> u256 stack \<Rightarrow> ('c, vm_error, 'g::len word request) eff" where
  "suicide_request V sp s =
     ebind (cx_origin_balance V) (\<lambda>b.
     ebind (epeek s 0) (\<lambda>a.
     ebind (creates_account V sp (u256_to_address a) (b \<noteq> 0)) (\<lambda>creates.
     ebind (with_new_account_gas V sp (suicide_to_new_account_cost sp) creates
              (cost_from (suicide_gas sp))) (\<lambda>gas.
     eret (Gas gas)))))"

definition sha3_request :: "spec \<Rightarrow> u256 stack \<Rightarrow> 'g::len word request vm_result" where
  "sha3_request sp s =
     rbind (peek s 1) (\<lambda>sz.
     rbind (from_u256 sz) (\<lambda>g.
     rbind (overflowing (to_word_size g)) (\<lambda>words.
     rbind (overflowing (overflow_mul (cost_from (sha3_word_gas sp)) words)) (\<lambda>wg.
     rbind (overflowing (overflow_add (cost_from (sha3_gas sp)) wg)) (\<lambda>gas.
     rbind (peek s 0) (\<lambda>off.
     rbind (mem_needed off sz) (\<lambda>mem. Ok (GasMem gas mem))))))))"

definition copy_request :: "u256 stack \<Rightarrow> nat \<Rightarrow> nat \<Rightarrow> 'g::len word \<Rightarrow> 'g word request vm_result" where
  "copy_request s i j gas =
     rbind (peek s i) (\<lambda>off.
     rbind (peek s j) (\<lambda>sz.
     rbind (mem_needed off sz) (\<lambda>mem.
     rbind (from_u256 sz) (\<lambda>copy. Ok (GasMemCopy gas mem copy)))))"

definition log_request :: "spec \<Rightarrow> instruction \<Rightarrow> u256 stack \<Rightarrow> 'g::len word request vm_result" where
  "log_request sp i s =
     (case log_topics i of None \<Rightarrow> Panic | Some no_of_topics \<Rightarrow>
     rbind (u_mul (log_topic_gas sp) (of_nat no_of_topics)) (\<lambda>tg.
     rbind (u_add (log_gas sp) tg) (\<lambda>lg.
     rbind (peek s 1) (\<lambda>sz.
     rbind (from_u256 sz) (\<lambda>g.
     rbind (overflowing (overflow_mul g (cost_from (log_data_gas sp)))) (\<lambda>data_gas.
     rbind (overflowing (overflow_add data_gas (cost_from lg))) (\<lambda>gas.
     rbind (peek s 0) (\<lambda>off.
     rbind (mem_needed off sz) (\<lambda>mem. Ok (GasMem gas mem))))))))))"

definition two_ranges :: "u256 stack \<Rightarrow> nat \<Rightarrow> nat \<Rightarrow> nat \<Rightarrow> nat \<Rightarrow> 'g::len word vm_result" where
  "two_ranges s i j k l =
     rbind (peek s i) (\<lambda>o1. rbind (peek s j) (\<lambda>s1.
     rbind (mem_needed o1 s1) (\<lambda>m1.
     rbind (peek s k) (\<lambda>o2. rbind (peek s l) (\<lambda>s2.
     rbind (mem_needed o2 s2) (\<lambda>m2. Ok (max m1 m2)))))))"

definition call_request ::
    "'c vm_context \<Rightarrow> spec \<Rightarrow> instruction \<Rightarrow> u256 stack \<Rightarrow> ('c, vm_error, 'g::len word request) eff" where
  "call_request V sp i s =
     ebind (elift (two_ranges s 5 6 3 4)) (\<lambda>mem.
     ebind (epeek s 1) (\<lambda>a.
     ebind (epeek s 2) (\<lambda>v.
     ebind (if i = CALL then creates_account V sp (u256_to_address a) (v \<noteq> 0) else eret False) (\<lambda>creates.
     ebind (with_new_account_gas V sp (call_new_account_gas sp) creates (cost_from (call_gas sp))) (\<lambda>gas.
     ebind (elift (if v \<noteq> 0 then overflowing (overflow_add gas (cost_from (call_value_transfer_gas sp)))
                   else Ok gas)) (\<lambda>gas'.
     ebind (epeek s 0) (\<lambda>requested.
     eret (GasMemProvide gas' mem (Some requested)))))))))"

definition delegate_request :: "spec \<Rightarrow> u256 stack \<Rightarrow> 'g::len word request vm_result" where
  "delegate_request sp s =
     rbind (two_ranges s 4 5 2 3) (\<lambda>mem.
     rbind (peek s 0) (\<lambda>requested.
     Ok (GasMemProvide (cost_from (call_gas sp)) mem (Some requested))))"

definition create_request ::
    "'c vm_context \<Rightarrow> spec \<Rightarrow> instruction \<Rightarrow> u256 stack \<Rightarrow> 'c \<Rightarrow> 'g::len word request vm_result" where
  "create_request V sp i s c =
     rbind (peek s 1) (\<lambda>start.
     rbind (peek s 2) (\<lambda>len.
     rbind (from_u256 len) (\<lambda>g.
     rbind (overflowing (to_word_size g)) (\<lambda>word.
     rbind (overflowing (overflow_mul (cost_from (sha3_word_gas sp)) word)) (\<lambda>wg.
     let word_gas = (if i = CREATE \<and> cx_space V c = Ethereum then cost_from 0 else wg) in
     rbind (overflowing (overflow_add (cost_from (create_gas sp)) word_gas)) (\<lambda>gas.
     rbind (mem_needed start len) (\<lambda>mem. Ok (GasMemProvide gas mem None))))))))"

definition exp_request :: "spec \<Rightarrow> u256 stack \<Rightarrow> 'g::len word request vm_result" where
  "exp_request sp s =
     rbind (peek s 1) (\<lambda>expon.
     let nbytes = (bits expon + 7) div 8 in
     rbind (u_mul (exp_byte_gas sp) (of_nat nbytes)) (\<lambda>bg.
     rbind (u_add (exp_gas sp) bg) (\<lambda>gas. Ok (Gas (cost_from gas)))))"

definition request_of ::
    "'c vm_context \<Rightarrow> spec \<Rightarrow> instruction \<Rightarrow> 'g::len word \<Rightarrow> u256 stack \<Rightarrow> ('c, vm_error, 'g word request) eff" where
  "request_of V sp i default_gas s =
     (if i = JUMPDEST then eret (Gas (cost_from 1))
      else if i = SSTORE then sstore_request V sp s
      else if i = SLOAD then eret (Gas (cost_from (sload_gas sp)))
      else if i = BALANCE then eret (Gas (cost_from (balance_gas sp)))
      else if i = EXTCODESIZE then eret (Gas (cost_from (extcodesize_gas sp)))
      else if i = EXTCODEHASH then eret (Gas (cost_from (extcodehash_gas sp)))
      else if i = SUICIDE then suicide_request V sp s
      else if i = MSTORE \<or> i = MLOAD then
        elift (rbind (peek s 0) (\<lambda>a. rbind (mem_needed_const a 32) (\<lambda>m. Ok (GasMem default_gas m))))
      else if i = MSTORE8 then
        elift (rbind (peek s 0) (\<lambda>a. rbind (mem_needed_const a 1) (\<lambda>m. Ok (GasMem default_gas m))))
      else if i = RETURN \<or> i = REVERT then
        elift (rbind (peek s 0) (\<lambda>a. rbind (peek s 1) (\<lambda>b.
               rbind (mem_needed a b) (\<lambda>m. Ok (GasMem default_gas m)))))
      else if i = SHA3 then elift (sha3_request sp s)
      else if i = CALLDATACOPY \<or> i = CODECOPY \<or> i = RETURNDATACOPY then
        elift (copy_request s 0 2 default_gas)
      else if i = EXTCODECOPY then elift (copy_request s 1 3 (cost_from (extcodecopy_base_gas sp)))
      else if LOG0 \<le> i \<and> i \<le> LOG4 then elift (log_request sp i s)
      else if i = CALL \<or> i = CALLCODE then call_request V sp i s
      else if i = DELEGATECALL \<or> i = STATICCALL then elift (delegate_request sp s)
      else if i = CREATE \<or> i = CREATE2 then (\<lambda>c. elift (create_request V sp i s c) c)
      else if i = EXP then elift (exp_request sp s)
      else if i = BLOCKHASH then eret (Gas (cost_from (blockhash_gas sp)))
      else eret (Gas default_gas))"

definition total_of ::
    "'g::len word gasometer \<Rightarrow> spec \<Rightarrow> usize \<Rightarrow> 'g word request \<Rightarrow> 'g word instruction_requirements vm_result" where
  "total_of gm sp current_mem_size cost = (case cost of
     Gas gas \<Rightarrow> Ok \<lparr>gas_cost = gas, provide_gas = None,
                   memory_total_gas = current_mem_gas gm, memory_required_size = 0\<rparr>
   | GasMem gas mem_size \<Rightarrow>
       rbind (mem_gas_cost gm sp current_mem_size mem_size) (\<lambda>(mem_cost, new_mem_gas, new_mem_size).
       rbind (overflowing (overflow_add gas mem_cost)) (\<lambda>gas.
       Ok \<lparr>gas_cost = gas, provide_gas = None,
           memory_total_gas = new_mem_gas, memory_required_size = new_mem_size\<rparr>))
   | GasMemProvide gas mem_size requested \<Rightarrow>
       rbind (mem_gas_cost gm sp current_mem_size mem_size) (\<lambda>(mem_cost, new_mem_gas, new_mem_size).
       rbind (overflowing (overflow_add gas mem_cost)) (\<lambda>gas.
       rbind (gas_provided gm sp gas requested) (\<lambda>provided.
       rbind (overflowing (overflow_add gas provided)) (\<lambda>total_gas.
       Ok \<lparr>gas_cost = total_gas, provide_gas = Some provided,
           memory_total_gas = new_mem_gas, memory_required_size = new_mem_size\<rparr>))))
   | GasMemCopy gas mem_size copy \<Rightarrow>
       rbind (mem_gas_cost gm sp current_mem_size mem_size) (\<lambda>(mem_cost, new_mem_gas, new_mem_size).
       rbind (overflowing (to_word_size copy)) (\<lambda>copy.
       rbind (overflowing (overflow_mul (cost_from (copy_gas sp)) copy)) (\<lambda>cg.
       rbind (overflowing (overflow_add gas cg)) (\<lambda>gas.
       rbind (overflowing (overflow_add gas mem_cost)) (\<lambda>gas.
       Ok \<lparr>gas_cost = gas, provide_gas = None,
           memory_total_gas = new_mem_gas, memory_required_size = new_mem_size\<rparr>))))))"

definition tier_gas :: "spec \<Rightarrow> gas_price_tier \<Rightarrow> usize vm_result" where
  "tier_gas sp t = (if tier_idx t < length (tier_step_gas sp) then Ok (tier_step_gas sp ! tier_idx t) else Panic)"

definition requirements ::
    "'c vm_context \<Rightarrow> 'g::len word gasometer \<Rightarrow> instruction \<Rightarrow> instruction_info \<Rightarrow> u256 stack \<Rightarrow> usize \<Rightarrow>
     ('c, vm_error, 'g word instruction_requirements) eff" where
  "requirements V gm i ii s current_mem_size =
     ebind (eget (cx_spec V)) (\<lambda>sp.
     ebind (elift (tier_gas sp (info_tier ii))) (\<lambda>t.
     ebind (request_of V sp i (cost_from t) s) (\<lambda>cost.
     elift (total_of gm sp current_mem_size cost))))"

section \<open>Specification\<close>

text \<open>The cost of a memory of \<open>n\<close> bytes: linear in its words plus a quadratic surcharge.\<close>

definition mem_cost :: "spec \<Rightarrow> nat \<Rightarrow> nat" where
  "mem_cost sp n = (let s = n div 32 in s * unat (memory_gas sp) + s * s div 512)"

text \<open>The meter's record of the memory agrees with the memory's size.\<close>

definition mem_gas_ok :: "spec \<Rightarrow> 'g::len word gasometer \<Rightarrow> usize \<Rightarrow> bool" where
  "mem_gas_ok sp gm cur \<longleftrightarrow> unat (current_mem_gas gm) = mem_cost sp (unat cur) \<and> 32 dvd unat cur"

text \<open>The instructions that hand gas to a nested frame.\<close>

definition provides_gas :: "instruction \<Rightarrow> bool" where
  "provides_gas i \<longleftrightarrow> i \<in> {CREATE, CREATE2, CALL, CALLCODE, DELEGATECALL, STATICCALL}"

text \<open>The memory ranges an instruction reads or writes, as offset and size.\<close>

definition touched :: "instruction \<Rightarrow> u256 stack \<Rightarrow> (u256 \<times> u256) list" where
  "touched i s =
     (if i = MSTORE \<or> i = MLOAD then [(s ! 0, 32)]
      else if i = MSTORE8 then [(s ! 0, 1)]
      else if i = RETURN \<or> i = REVERT \<or> i = SHA3 \<or> (LOG0 \<le> i \<and> i \<le> LOG4) then [(s ! 0, s ! 1)]
      else if i = CALLDATACOPY \<or> i = CODECOPY \<or> i = RETURNDATACOPY then [(s ! 0, s ! 2)]
      else if i = EXTCODECOPY then [(s ! 1, s ! 3)]
      else if i = CALL \<or> i = CALLCODE then [(s ! 5, s ! 6), (s ! 3, s ! 4)]
      else if i = DELEGATECALL \<or> i = STATICCALL then [(s ! 4, s ! 5), (s ! 2, s ! 3)]
      else if i = CREATE \<or> i = CREATE2 then [(s ! 1, s ! 2)]
      else [])"

definition covers :: "nat \<Rightarrow> (u256 \<times> u256) list \<Rightarrow> bool" where
  "covers n rs \<longleftrightarrow> list_all (\<lambda>(off, sz). unat sz \<noteq> 0 \<longrightarrow> unat off + unat sz \<le> n) rs"

section \<open>Word sizes and memory cost\<close>

lemma cost_from_0 [simp]: "cost_from 0 = 0"
  by (simp add: cost_from_def)

lemma mem_cost_mono: "m \<le> n \<Longrightarrow> mem_cost sp m \<le> mem_cost sp n"
  unfolding mem_cost_def Let_def
  by (intro add_mono mult_le_mono div_le_mono) (simp_all add: div_le_mono)

lemma to_word_size_flag:
  "64 \<le> LENGTH('g) \<Longrightarrow> snd (to_word_size v) \<longleftrightarrow> 2 ^ LENGTH('g) \<le> unat (v :: 'g::len word) + 31"
  by (simp add: to_word_size_def add_gas_usize_def Let_def overflow_add_def overflowing_add_def unat_cost_from)

lemma to_word_size_Ok:
  assumes "64 \<le> LENGTH('g)" and "\<not> snd (to_word_size v)"
  shows "unat (fst (to_word_size v)) = (unat (v :: 'g::len word) + 31) div 32"
proof -
  have "unat (v + cost_from 31) = unat v + 31"
    using assms by (subst unat_add_no_overflow) (simp_all add: to_word_size_flag unat_cost_from)
  with assms show ?thesis
    by (auto simp: to_word_size_def add_gas_usize_def Let_def overflow_add_def overflowing_add_def
        unat_cost_from unat_drop_bit)
qed

lemma unat_push_bit_5:
  "unat (w :: 'g::len word) * 32 < 2 ^ LENGTH('g) \<Longrightarrow> unat (push_bit 5 w) = unat w * 32"
  unfolding unsigned_push_bit_eq by (simp add: push_bit_eq_mult take_bit_nat_eq_self)

lemma round_up_32: "\<not> 2 ^ k \<le> n + 31 \<Longrightarrow> (n + 31) div 32 * 32 < (2 :: nat) ^ k"
  by (rule le_less_trans [of _ "n + 31"]) (simp_all add: div_times_less_eq_dividend)

lemma rwp_overflowing [wp_simps]: "rwp (overflowing p) Q = (\<not> snd p \<longrightarrow> Q (fst p))"
  by (simp add: overflowing_def rwp_def)

lemma gas_for_mem_rwp:
  assumes "64 \<le> LENGTH('g)" and "quad_coeff_div sp = 512"
  shows "rwp (gas_for_mem sp (m :: 'g::len word)) (\<lambda>g. unat g = mem_cost sp (unat m) \<and>
     (unat m div 32) * (unat m div 32) < 2 ^ LENGTH('g))"
  using assms
  by (auto simp: gas_for_mem_def Let_def wp_simps mem_cost_def overflow_add_Ok overflow_mul_Ok
      overflow_mul_shr_Ok unat_cost_from unat_drop_bit overflow_flags)

text \<open>The size a request is rounded to.\<close>

definition round_words :: "nat \<Rightarrow> nat" where
  "round_words n = (n + 31) div 32 * 32"

lemma round_words_ge: "n \<le> round_words n"
proof -
  have "n + 31 = round_words n + (n + 31) mod 32"
    by (simp add: round_words_def div_mult_mod_eq)
  moreover have "(n + 31) mod 32 < 32" by simp
  ultimately show ?thesis by linarith
qed

lemma mem_gas_cost_rwp:
  fixes gm :: "'g::len word gasometer"
  assumes g: "64 \<le> LENGTH('g)" and sp: "quad_coeff_div sp = 512" and ok: "mem_gas_ok sp gm cur"
    and small: "LENGTH('g) = 64 \<or> round_words (unat mem) < 2 ^ 64"
  shows "rwp (mem_gas_cost gm sp cur mem) (\<lambda>(cost, total, sz).
     unat sz = round_words (unat mem) \<and>
     unat total = mem_cost sp (max (unat cur) (unat sz)) \<and>
     unat cost + unat (current_mem_gas gm) = unat total \<and>
     (unat cur < unat sz \<longrightarrow> (unat sz div 32) * (unat sz div 32) < 2 ^ LENGTH('g)))"
proof (cases "snd (to_word_size mem)")
  case True
  then show ?thesis by (simp add: mem_gas_cost_def wp_simps)
next
  case False
  define r where "r = push_bit 5 (fst (to_word_size mem))"
  have w: "unat (fst (to_word_size mem)) = (unat mem + 31) div 32"
    using to_word_size_Ok [OF g False] .
  have r: "unat r = round_words (unat mem)"
    unfolding r_def using False round_up_32 [of "LENGTH('g)" "unat mem"]
    by (subst unat_push_bit_5) (simp_all add: w round_words_def to_word_size_flag [OF g])
  have lt: "unat r < 2 ^ 64"
    using small unat_lt_pow [of r] r by auto
  have c: "cost_from cur < r \<longleftrightarrow> unat cur < unat r"
    by (simp add: word_less_nat_alt unat_cost_from g)
  have u: "as_usize r = (Ok (ucast r) :: usize vm_result)" "unat (ucast r :: usize) = unat r"
    using lt by (simp_all add: as_usize_def unsigned_ucast_eq take_bit_nat_eq_self)
  have grow: "rwp (gas_for_mem sp r) (\<lambda>n. unat cur < unat r \<longrightarrow> current_mem_gas gm \<le> n \<and>
       unat n = mem_cost sp (unat r) \<and> (unat r div 32) * (unat r div 32) < 2 ^ LENGTH('g))"
    using gas_for_mem_rwp [OF g sp, of r] ok mem_cost_mono [of "unat cur" "unat r" sp]
    by (elim rwp_mono) (auto simp: mem_gas_ok_def word_le_nat_alt)
  have eq: "mem_gas_cost gm sp cur mem =
      rbind (if unat cur < unat r
             then rbind (gas_for_mem sp r) (\<lambda>n. rbind (u_sub n (current_mem_gas gm)) (\<lambda>cost. Ok (cost, n)))
             else Ok (cost_from 0, current_mem_gas gm))
        (\<lambda>(cost, n). Ok (cost, n, ucast r))"
    using False by (simp add: mem_gas_cost_def overflowing_def Let_def u c flip: r_def)
  show ?thesis
  proof (cases "unat cur < unat r")
    case True
    with grow show ?thesis
      by (auto simp: eq wp_simps r u_sub_def unat_sub_le word_le_nat_alt not_less u(2) max_def elim!: rwp_mono)
  next
    case not: False
    with ok show ?thesis
      by (simp add: eq wp_simps u r [symmetric] max_def mem_gas_ok_def)
  qed
qed

section \<open>Gas for nested calls\<close>

lemma unat_min: "unat (min a b) = min (unat a) (unat (b :: 'g::len word))"
  by (simp add: min_def word_le_nat_alt)

lemma unat_max: "unat (max a b) = max (unat a) (unat (b :: 'g::len word))"
  by (simp add: max_def word_le_nat_alt)

lemma capped_remaining_64:
  "capped_remaining 64 g = Ok (g - drop_bit 6 g)"
  "unat (g - drop_bit 6 g) = unat (g :: 'g::len word) - unat g div 64"
proof -
  have le: "drop_bit 6 g \<le> g"
    by (simp add: word_le_nat_alt unat_drop_bit)
  then show "capped_remaining 64 g = Ok (g - drop_bit 6 g)"
    by (simp add: capped_remaining_def u_sub_def not_less)
  from le show "unat (g - drop_bit 6 g) = unat g - unat g div 64"
    by (simp add: unat_sub_le unat_drop_bit)
qed

lemma gas_provided_capped:
  fixes gm :: "'g::len word gasometer"
  assumes sp: "sub_gas_cap_divisor sp = Some 64" and n: "needed \<le> current_gas gm"
    and g: "LENGTH('g) \<le> 256"
  shows "\<exists>p. gas_provided gm sp needed requested = Ok p \<and>
     (let rest = unat (current_gas gm) - unat needed; cap = rest - rest div 64 in
      unat p = (case requested of None \<Rightarrow> cap | Some r \<Rightarrow> min (unat r) cap))"
proof -
  define rest where "rest = current_gas gm - needed"
  have r: "unat rest = unat (current_gas gm) - unat needed"
    unfolding rest_def using n by (simp add: unat_sub_le)
  have cap: "unat (rest - drop_bit 6 rest) = unat rest - unat rest div 64"
    by (rule capped_remaining_64)
  have sub: "u_sub (current_gas gm) needed = (Ok rest :: 'g word vm_result)"
    using n by (simp add: u_sub_Ok_iff rest_def)
  have eq: "gas_provided gm sp needed requested =
      (case map_option from_u256 requested of Some (Ok v) \<Rightarrow> Ok (min v (rest - drop_bit 6 rest))
       | _ \<Rightarrow> Ok (rest - drop_bit 6 rest))"
    using sp n by (simp add: gas_provided_def Let_def sub capped_remaining_64(1))
  show ?thesis
  proof (cases requested)
    case None
    show ?thesis using eq by (simp add: None cap r Let_def)
  next
    case (Some q)
    from g show ?thesis
    proof (cases rule: from_u256_cases [where v = q])
      case (fit a)
      then show ?thesis using eq by (simp add: Some cap r Let_def unat_min)
    next
      case unfit
      then have "unat rest - unat rest div 64 < unat q"
        using unat_lt_pow [of rest] by linarith
      then show ?thesis using eq unfit by (simp add: Some cap r Let_def min_def)
    qed
  qed
qed

lemma gas_provided_rwp:
  fixes gm :: "'g::len word gasometer"
  assumes "sub_gas_cap_divisor sp = Some 64" and "LENGTH('g) \<le> 256"
  shows "rwp (gas_provided gm sp needed requested) (\<lambda>p. needed \<le> current_gas gm \<longrightarrow>
     unat p + unat needed \<le> unat (current_gas gm))"
proof (cases "needed \<le> current_gas gm")
  case True
  with gas_provided_capped [OF assms(1) True assms(2), of requested] show ?thesis
    by (auto simp: wp_simps Let_def word_le_nat_alt split: option.splits)
next
  case False
  then show ?thesis
    using assms by (auto simp: gas_provided_def Let_def rwp_def split: option.splits res.splits)
qed

section \<open>The request of each instruction\<close>

lemma peek_Ok [simp]: "n < length s \<Longrightarrow> peek s n = Ok (s ! n)"
  by (simp add: peek_def)

lemma stack_nonempty: "n < length s \<Longrightarrow> s \<noteq> []"
  by auto

lemma wp_epeek [wp_simps]: "n < length s \<Longrightarrow> wp p (epeek s n) Q E c = Q (s ! n) c"
  by (simp add: epeek_def wp_simps)

text \<open>The paid tiers: every instruction without a price of its own has a tier that costs something.\<close>

definition own_price :: "instruction list" where
  "own_price = [STOP, RETURN, REVERT, SLOAD, SSTORE, BALANCE, EXTCODESIZE, EXTCODEHASH, EXTCODECOPY,
     SUICIDE, SHA3, LOG0, LOG1, LOG2, LOG3, LOG4, CALL, CALLCODE, DELEGATECALL, STATICCALL, CREATE,
     CREATE2, EXP, JUMPDEST]"

lemma tier_paid_table:
  "list_all (\<lambda>(i, x). unat i \<in> set (map unat own_price) \<or> tier_idx (info_tier x) \<in> {1, 2, 3, 4, 5, 6}) INSTRUCTIONS"
  by (simp add: INSTRUCTIONS_def new_info_def own_price_def)

lemma tier_paid:
  assumes "info i = Ok x" and "i \<notin> set own_price"
  shows "tier_idx (info_tier x) \<in> {1, 2, 3, 4, 5, 6}"
  using assms tier_paid_table inj_unat
  by (fastforce simp: info_Ok_iff list_all_iff inj_image_mem_iff)

lemma tier_gas_Ok: "spec_ok sp \<Longrightarrow> \<exists>t. tier_gas sp tier = Ok t"
  by (cases tier) (simp_all add: tier_gas_def spec_ok_def)

lemma tier_gas_paid:
  "spec_ok sp \<Longrightarrow> info i = Ok x \<Longrightarrow> i \<notin> set own_price \<Longrightarrow> tier_gas sp (info_tier x) = Ok t \<Longrightarrow> 0 < unat t"
  by (drule (1) tier_paid) (auto simp: tier_gas_def spec_ok_def split: if_splits)

text \<open>What a request promises of its instruction.\<close>

definition request_ok :: "spec \<Rightarrow> instruction \<Rightarrow> u256 stack \<Rightarrow> 'g::len word request \<Rightarrow> bool" where
  "request_ok sp i s q = (case q of
     Gas g \<Rightarrow> \<not> provides_gas i \<and> touched i s = [] \<and> (0 < unat g \<or> i = STOP)
   | GasMem g m \<Rightarrow> \<not> provides_gas i \<and> covers (unat m) (touched i s) \<and> (0 < unat g \<or> i = RETURN \<or> i = REVERT)
   | GasMemProvide g m r \<Rightarrow> provides_gas i \<and> covers (unat m) (touched i s) \<and> 0 < unat g \<and>
       ((i = CALL \<or> i = CALLCODE) \<and> s ! 2 \<noteq> 0 \<longrightarrow> unat (call_value_transfer_gas sp) < unat g)
   | GasMemCopy g m k \<Rightarrow> \<not> provides_gas i \<and> covers (unat m) (touched i s) \<and> 0 < unat g)"

lemma rwp_from_u256 [wp_simps]:
  assumes "LENGTH('g) \<le> 256"
  shows "rwp (from_u256 v) Q \<longleftrightarrow> (\<forall>a :: 'g::len word. unat a = unat v \<longrightarrow> Q a)"
  using assms
proof (cases rule: from_u256_cases [where v = v])
  case (fit a)
  then show ?thesis by (auto simp: wp_simps) (metis word_unat_eq_iff)
next
  case unfit
  then show ?thesis by (auto simp: wp_simps) (metis not_less unat_lt_pow)
qed

lemma mem_needed_rwp:
  "LENGTH('g) \<le> 256 \<Longrightarrow>
   rwp (mem_needed off sz) (\<lambda>m :: 'g::len word. unat sz \<noteq> 0 \<longrightarrow> unat m = unat off + unat sz)"
  by (simp add: mem_needed_def wp_simps overflowing_add_def unat_add_no_overflow)

lemma mem_needed_const_rwp:
  "LENGTH('g) \<le> 256 \<Longrightarrow>
   rwp (mem_needed_const off n) (\<lambda>m :: 'g::len word. unat m = unat off + unat n)"
  by (simp add: mem_needed_const_def wp_simps overflowing_add_def unat_add_no_overflow unat_ucast_up)

lemma two_ranges_rwp:
  assumes "LENGTH('g) \<le> 256" and "i < length s" "j < length s" "k < length s" "l < length s"
  shows "rwp (two_ranges s i j k l) (\<lambda>m :: 'g::len word. covers (unat m) [(s ! i, s ! j), (s ! k, s ! l)])"
  using assms
  by (auto simp: two_ranges_def wp_simps covers_def unat_max intro!: rwp_mono [OF mem_needed_rwp])

lemma copy_request_rwp:
  assumes "LENGTH('g) \<le> 256" and "i < length s" "j < length s"
  shows "rwp (copy_request s i j (gas :: 'g::len word)) (\<lambda>q. \<exists>m k. q = GasMemCopy gas m k \<and> covers (unat m) [(s ! i, s ! j)])"
  using assms
  by (auto simp: copy_request_def wp_simps covers_def split: res.splits
      intro!: rwp_mono [OF mem_needed_rwp])

lemma spec_ok_small:
  assumes "spec_ok sp"
  shows "unat (log_topic_gas sp) < 2 ^ 24" "unat (log_gas sp) < 2 ^ 24" "unat (exp_gas sp) < 2 ^ 24"
    "unat (exp_byte_gas sp) < 2 ^ 24" "unat (sstore_set_gas sp) < 2 ^ 24" "unat (evm_gas_ratio sp) < 2 ^ 24"
    "unat (call_new_account_gas sp) < 2 ^ 24" "unat (suicide_to_new_account_cost sp) < 2 ^ 24"
  using assms by (simp_all add: spec_ok_def)

lemma spec_ok_pos:
  assumes "spec_ok sp"
  shows "0 < unat (log_gas sp)" "0 < unat (exp_gas sp)" "0 < unat (sha3_gas sp)" "0 < unat (create_gas sp)"
    "0 < unat (call_gas sp)" "0 < unat (suicide_gas sp)" "0 < unat (sload_gas sp)" "0 < unat (balance_gas sp)"
    "0 < unat (extcodesize_gas sp)" "0 < unat (extcodehash_gas sp)" "0 < unat (extcodecopy_base_gas sp)"
    "0 < unat (blockhash_gas sp)" "0 < unat (sstore_reset_gas sp)" "0 < unat (sstore_set_gas sp)"
    "0 < unat (evm_gas_ratio sp)"
  using assms by (simp_all add: spec_ok_def)

text \<open>Products of two small amounts fit into \<open>usize\<close>.\<close>

lemma u_mul_small:
  assumes "unat a < 2 ^ 24" and "unat b < 2 ^ 24"
  shows "u_mul a b = Ok (a * b)" "unat (a * b :: usize) = unat a * unat b" "unat a * unat b < 2 ^ 48"
proof -
  have "unat a * unat b < 2 ^ 24 * 2 ^ 24"
    using assms by (intro mult_strict_mono') auto
  then show "unat a * unat b < 2 ^ 48" by simp
  then show "u_mul a b = Ok (a * b)" "unat (a * b) = unat a * unat b"
    by (simp_all add: u_mul_def unat_mult_no_overflow)
qed

lemma bits_le: "bits w \<le> 256"
  unfolding bits_def by (rule order_trans [OF length_dropWhile_le]) simp

lemma exp_request_rwp:
  assumes sp: "spec_ok sp" and g: "64 \<le> LENGTH('g)" and s: "1 < length s"
  shows "rwp (exp_request sp s) (\<lambda>q. \<exists>gas :: 'g::len word. q = Gas gas \<and> 0 < unat gas)"
proof -
  define n :: usize where "n = of_nat ((bits (s ! 1) + 7) div 8)"
  have "unat n \<le> 32"
    unfolding n_def using bits_le [of "s ! 1"] by (subst unat_of_nat_small) simp_all
  then have "unat n < 2 ^ 24" by simp
  note m = u_mul_small [OF spec_ok_small(4) [OF sp] this]
  have "unat (exp_gas sp) + unat (exp_byte_gas sp * n) < 2 ^ 64"
    using m spec_ok_small(3) [OF sp] by simp
  then show ?thesis
    using s g spec_ok_pos(2) [OF sp]
    by (simp add: exp_request_def Let_def wp_simps m u_add_def unat_cost_from unat_add_no_overflow
        flip: n_def [unfolded One_nat_def])
qed

lemma log_request_rwp:
  assumes sp: "spec_ok sp" and g: "64 \<le> LENGTH('g)" "LENGTH('g) \<le> 256" and s: "1 < length s"
    and i: "log_topics i = Some n" "n \<le> 4"
  shows "rwp (log_request sp i s) (\<lambda>q. \<exists>gas m :: 'g::len word. q = GasMem gas m \<and> 0 < unat gas \<and>
     covers (unat m) [(s ! 0, s ! 1)])"
proof -
  have "unat (of_nat n :: usize) < 2 ^ 24"
    using i by (subst unat_of_nat_small) simp_all
  note m = u_mul_small [OF spec_ok_small(1) [OF sp] this]
  have sum: "unat (log_gas sp) + unat (log_topic_gas sp * of_nat n) < 2 ^ 64"
    using m spec_ok_small(2) [OF sp] by simp
  then have "0 < unat (log_gas sp + log_topic_gas sp * of_nat n)"
    using spec_ok_pos(1) [OF sp] by (simp add: unat_add_no_overflow)
  with s stack_nonempty [OF s] g i sum show ?thesis
    by (auto simp: log_request_def wp_simps m u_add_def covers_def overflow_add_Ok unat_cost_from
        intro!: rwp_mono [OF mem_needed_rwp])
qed

lemma sha3_request_rwp:
  assumes sp: "spec_ok sp" and g: "64 \<le> LENGTH('g)" "LENGTH('g) \<le> 256" and s: "1 < length s"
  shows "rwp (sha3_request sp s) (\<lambda>q. \<exists>gas m :: 'g::len word. q = GasMem gas m \<and> 0 < unat gas \<and>
     covers (unat m) [(s ! 0, s ! 1)])"
  using s stack_nonempty [OF s] g spec_ok_pos(3) [OF sp]
  by (auto simp: sha3_request_def wp_simps covers_def overflow_add_Ok unat_cost_from
      intro!: rwp_mono [OF mem_needed_rwp])

lemma create_request_rwp:
  assumes sp: "spec_ok sp" and g: "64 \<le> LENGTH('g)" "LENGTH('g) \<le> 256" and s: "2 < length s"
  shows "rwp (create_request V sp i s c) (\<lambda>q. \<exists>gas m :: 'g::len word. q = GasMemProvide gas m None \<and> 0 < unat gas \<and>
     covers (unat m) [(s ! 1, s ! 2)])"
  using s stack_nonempty [OF s] g spec_ok_pos(4) [OF sp]
  by (auto simp: create_request_def Let_def wp_simps covers_def overflow_add_Ok unat_cost_from
      intro!: rwp_mono [OF mem_needed_rwp])

lemma delegate_request_rwp:
  assumes sp: "spec_ok sp" and g: "64 \<le> LENGTH('g)" "LENGTH('g) \<le> 256" and s: "5 < length s"
  shows "rwp (delegate_request sp s) (\<lambda>q. \<exists>m :: 'g::len word. q = GasMemProvide (cost_from (call_gas sp)) m (Some (s ! 0)) \<and>
     covers (unat m) [(s ! 4, s ! 5), (s ! 2, s ! 3)])"
  using s stack_nonempty [OF s] g
  by (auto simp: delegate_request_def wp_simps intro!: rwp_mono [OF two_ranges_rwp])

section \<open>The total of a request\<close>

text \<open>What the requirements of an instruction promise to the interpreter.\<close>

definition requirements_ok ::
    "spec \<Rightarrow> 'g::len word gasometer \<Rightarrow> instruction \<Rightarrow> u256 stack \<Rightarrow> usize \<Rightarrow> 'g word instruction_requirements \<Rightarrow> bool" where
  "requirements_ok sp gm i s cur r \<longleftrightarrow>
     (provide_gas r \<noteq> None \<longleftrightarrow> provides_gas i) \<and>
     32 dvd unat (memory_required_size r) \<and>
     covers (unat (memory_required_size r)) (touched i s) \<and>
     unat (memory_total_gas r) = mem_cost sp (max (unat cur) (unat (memory_required_size r))) \<and>
     unat (memory_total_gas r) \<le> unat (gas_cost r) + unat (current_mem_gas gm) \<and>
     (unat cur < unat (memory_required_size r) \<longrightarrow> (unat (memory_required_size r) div 32) ^ 2 < 2 ^ LENGTH('g)) \<and>
     (case provide_gas r of
        None \<Rightarrow> 0 < unat (gas_cost r) \<or> i \<in> {STOP, RETURN, REVERT}
      | Some p \<Rightarrow> unat p < unat (gas_cost r) \<and>
          ((i = CALL \<or> i = CALLCODE) \<and> s ! 2 \<noteq> 0 \<longrightarrow> unat p + unat (call_stipend sp) < unat (gas_cost r)))"

lemma covers_mono: "covers m rs \<Longrightarrow> m \<le> n \<Longrightarrow> covers n rs"
  by (auto simp: covers_def list_all_iff)

lemma total_of_rwp:
  fixes gm :: "'g::len word gasometer"
  assumes sp: "spec_ok sp" and g: "LENGTH('g) = 64" and ok: "mem_gas_ok sp gm cur"
    and q: "request_ok sp i s q"
  shows "rwp (total_of gm sp cur q) (requirements_ok sp gm i s cur)"
proof -
  have stip: "unat (call_stipend sp) \<le> unat (call_value_transfer_gas sp)"
    and quad: "quad_coeff_div sp = 512" and div: "sub_gas_cap_divisor sp = Some 64"
    using sp by (simp_all add: spec_ok_def word_less_nat_alt)
  define good where "good mem = (\<lambda>(cost :: 'g word, total :: 'g word, sz :: usize).
     unat mem \<le> unat sz \<and> 32 dvd unat sz \<and> unat total = mem_cost sp (max (unat cur) (unat sz)) \<and>
     unat cost + unat (current_mem_gas gm) = unat total \<and>
     (unat cur < unat sz \<longrightarrow> (unat sz div 32) ^ 2 < (2 :: nat) ^ LENGTH('g)))" for mem :: "'g word"
  have mem: "rwp (mem_gas_cost gm sp cur mem) (good mem)" for mem
    using g quad ok round_words_ge [of "unat mem"]
    by (intro rwp_mono [OF mem_gas_cost_rwp]) (auto simp: good_def power2_eq_square round_words_def)
  have prov: "rwp (gas_provided gm sp n r) (\<lambda>_. True)" for n r
    using div g by (intro rwp_mono [OF gas_provided_rwp]) simp_all
  show ?thesis
  proof (cases q)
    case (Gas x1)
    with q ok show ?thesis
      by (auto simp: total_of_def wp_simps request_ok_def requirements_ok_def mem_gas_ok_def covers_def)
  next
    case (GasMem x m)
    with q show ?thesis
      by (auto simp: total_of_def wp_simps request_ok_def requirements_ok_def overflow_add_Ok good_def
          intro!: rwp_mono [OF mem [of m]] elim: covers_mono)
  next
    case (GasMemProvide x m r)
    with q stip show ?thesis
      by (auto simp: total_of_def wp_simps request_ok_def requirements_ok_def overflow_add_Ok good_def
          intro!: rwp_mono [OF mem [of m]] rwp_mono [OF prov] elim: covers_mono)
  next
    case (GasMemCopy x m k)
    with q show ?thesis
      by (auto simp: total_of_def wp_simps request_ok_def requirements_ok_def overflow_add_Ok good_def
          intro!: rwp_mono [OF mem [of m]] elim: covers_mono)
  qed
qed

section \<open>The requirements of each instruction\<close>

text \<open>The number of operands of the instructions whose request looks at the stack.\<close>

lemma request_args:
  assumes "info i = Ok x" and "info_args x \<le> length s"
  shows "i \<in> {SSTORE, MSTORE, MSTORE8, RETURN, REVERT, SHA3, EXP} \<Longrightarrow> 1 < length s"
    and "i \<in> {SUICIDE, MLOAD} \<Longrightarrow> 0 < length s"
    and "i \<in> {CALLDATACOPY, CODECOPY, RETURNDATACOPY, CREATE, CREATE2} \<Longrightarrow> 2 < length s"
    and "i = EXTCODECOPY \<Longrightarrow> 3 < length s"
    and "i \<in> {CALL, CALLCODE} \<Longrightarrow> 6 < length s"
    and "i \<in> {DELEGATECALL, STATICCALL} \<Longrightarrow> 5 < length s"
  using assms by (auto simp: info_simps new_info_def)

lemma log_args:
  assumes "info i = Ok x" and "info_args x \<le> length s" and "LOG0 \<le> i \<and> i \<le> LOG4"
  obtains n where "log_topics i = Some n" "n \<le> 4" "1 < length s"
proof -
  obtain n where n: "log_topics i = Some n" using assms(3) by (simp add: log_topics_def)
  with that assms info_log [OF assms(1) n] show ?thesis by (simp add: MAX_NO_OF_TOPICS_def)
qed

lemma log_opcodes:
  assumes "LOG0 \<le> i \<and> i \<le> LOG4"
  shows "i \<in> {LOG0, LOG1, LOG2, LOG3, LOG4}"
proof -
  have "160 \<le> unat i" "unat i \<le> 164"
    using assms by (simp_all add: word_le_nat_alt)
  then have "unat i \<in> {160, 161, 162, 163, 164}" by auto
  then show ?thesis by (auto simp: word_unat_eq_iff)
qed

context vm_context_laws
begin

text \<open>The postcondition shared by the steps on the context that leave a calm context calm.\<close>

definition stays :: "'c \<Rightarrow> 'c \<Rightarrow> bool" where
  "stays c c' \<longleftrightarrow> J c' \<and> cx_view V calm c' = cx_view V calm c"

lemma stays_iff: "stays c c' \<longleftrightarrow> J c' \<and> cx_frame V c' = cx_frame V c \<and> calm c' = calm c"
  by (simp add: stays_def cx_view_def)

lemma stays_trans: "stays c c' \<Longrightarrow> stays c' c'' \<Longrightarrow> stays c c''"
  by (simp add: stays_def)

lemma keeps_stays:
  "keeps J (cx_view V calm) m \<Longrightarrow> stays c\<^sub>0 c \<Longrightarrow> (\<And>a c'. stays c\<^sub>0 c' \<Longrightarrow> Q a c') \<Longrightarrow>
   (\<And>e c'. stays c\<^sub>0 c' \<Longrightarrow> E e c') \<Longrightarrow> wp p m Q E c"
  by (rule keeps_wp [of J "cx_view V calm"]) (auto simp: stays_def)

lemma creates_account_wp:
  "stays c\<^sub>0 c \<Longrightarrow> (\<And>b c'. stays c\<^sub>0 c' \<Longrightarrow> Q b c') \<Longrightarrow> (\<And>e c'. stays c\<^sub>0 c' \<Longrightarrow> E e c') \<Longrightarrow>
   wp p (creates_account V sp a tr) Q E c"
  by (auto simp: creates_account_def wp_simps intro!: keeps_stays [OF exists] keeps_stays [OF exists_and_not_null])

lemma with_new_account_gas_wp:
  fixes gas :: "'g::len word"
  assumes sp: "spec_ok sp" and cost: "unat cost < 2 ^ 24" and c: "stays c\<^sub>0 c"
    and Q: "\<And>g. unat gas \<le> unat g \<Longrightarrow> Q g c" and E: "\<And>e. E e c"
  shows "wp p (with_new_account_gas V sp cost creates gas) Q E c"
proof -
  have "unat (account_ratio V sp c) < 2 ^ 24"
    using spec_ok_small(6) [OF sp] by (simp add: account_ratio_def)
  note m = u_mul_small [OF cost this]
  show ?thesis
    using Q E by (auto simp: with_new_account_gas_def wp_simps m overflow_add_Ok overflowing_def)
qed

lemma sstore_request_wp:
  assumes sp: "spec_ok sp" and g: "64 \<le> LENGTH('g)" and s: "1 < length s" and c: "stays c\<^sub>0 c"
    and Q: "\<And>gas c'. stays c\<^sub>0 c' \<Longrightarrow> 0 < unat gas \<Longrightarrow> Q (Gas (gas :: 'g::len word)) c'"
    and E: "\<And>e c'. stays c\<^sub>0 c' \<Longrightarrow> E e c'"
  shows "wp p (sstore_request V sp s) Q E c"
proof -
  note m = u_mul_small [OF spec_ok_small(5) [OF sp] spec_ok_small(6) [OF sp]]
  have p: "0 < unat (sstore_set_gas sp * evm_gas_ratio sp)" "0 < unat (sstore_reset_gas sp)"
    using spec_ok_pos [OF sp] by (simp_all add: m)
  show ?thesis
    unfolding sstore_request_def
    using s stack_nonempty [OF s] p Q E g
    by (auto simp: wp_simps m unat_cost_from intro!: keeps_stays [OF storage_at c])
qed

lemma suicide_request_wp:
  assumes sp: "spec_ok sp" and g: "64 \<le> LENGTH('g)" and s: "s \<noteq> []" and c: "stays c\<^sub>0 c"
    and Q: "\<And>gas c'. stays c\<^sub>0 c' \<Longrightarrow> 0 < unat gas \<Longrightarrow> Q (Gas (gas :: 'g::len word)) c'"
    and E: "\<And>e c'. stays c\<^sub>0 c' \<Longrightarrow> E e c'"
  shows "wp p (suicide_request V sp s) Q E c"
proof -
  have Q': "stays c\<^sub>0 c' \<Longrightarrow> unat (suicide_gas sp) \<le> unat gas \<Longrightarrow> Q (Gas gas) c'" for gas c'
    using spec_ok_pos(6) [OF sp] by (intro Q) simp_all
  show ?thesis
    unfolding suicide_request_def
    using s g Q' E
    by (auto simp: wp_simps unat_cost_from intro!: keeps_stays [OF origin_balance c] creates_account_wp
        with_new_account_gas_wp [OF sp spec_ok_small(8) [OF sp]])
qed

lemma call_request_wp:
  assumes sp: "spec_ok sp" and g: "64 \<le> LENGTH('g)" "LENGTH('g) \<le> 256" and s: "6 < length s" and c: "stays c\<^sub>0 c"
    and Q: "\<And>gas m c'. stays c\<^sub>0 c' \<Longrightarrow> covers (unat m) [(s ! 5, s ! 6), (s ! 3, s ! 4)] \<Longrightarrow> 0 < unat gas \<Longrightarrow>
      (s ! 2 \<noteq> 0 \<Longrightarrow> unat (call_value_transfer_gas sp) < unat gas) \<Longrightarrow>
      Q (GasMemProvide (gas :: 'g::len word) m (Some (s ! 0))) c'"
    and E: "\<And>e c'. stays c\<^sub>0 c' \<Longrightarrow> E e c'"
  shows "wp p (call_request V sp i s) Q E c"
proof -
  have cg: "0 < unat (cost_from (call_gas sp) :: 'g word)"
    using spec_ok_pos(5) [OF sp] g by (simp add: unat_cost_from)
  have tail: "wp p (ebind (with_new_account_gas V sp (call_new_account_gas sp) creates (cost_from (call_gas sp))) (\<lambda>gas.
     ebind (elift (if s ! 2 \<noteq> 0 then overflowing (overflow_add gas (cost_from (call_value_transfer_gas sp)))
                   else Ok gas)) (\<lambda>gas'.
     ebind (epeek s 0) (\<lambda>requested.
     eret (GasMemProvide gas' m (Some requested)))))) Q E c'"
    if "stays c\<^sub>0 c'" "covers (unat m) [(s ! 5, s ! 6), (s ! 3, s ! 4)]" for creates c' and m :: "'g word"
    unfolding wp_ebind
    using that s stack_nonempty [OF s] Q E g cg
    by (intro with_new_account_gas_wp [OF sp spec_ok_small(7) [OF sp]])
      (auto simp: wp_simps overflow_add_Ok unat_cost_from overflowing_def)
  show ?thesis
    unfolding call_request_def wp_ebind [of _ "elift (two_ranges s 5 6 3 4)"]
  proof (rule wp_elift_rwp)
    show "E e c" for e using E c by blast
    show "rwp (two_ranges s 5 6 3 4) (\<lambda>m. wp p (ebind (epeek s 1) (\<lambda>a. ebind (epeek s 2) (\<lambda>v.
       ebind (if i = CALL then creates_account V sp (u256_to_address a) (v \<noteq> 0) else eret False) (\<lambda>creates.
       ebind (with_new_account_gas V sp (call_new_account_gas sp) creates (cost_from (call_gas sp))) (\<lambda>gas.
       ebind (elift (if v \<noteq> 0 then overflowing (overflow_add gas (cost_from (call_value_transfer_gas sp)))
                   else Ok gas)) (\<lambda>gas'.
       ebind (epeek s 0) (\<lambda>requested.
       eret (GasMemProvide gas' m (Some requested))))))))) Q E c)"
      using g s c E
      by (intro rwp_mono [OF two_ranges_rwp])
        (auto simp: wp_ebind [of _ "epeek _ _"] wp_epeek wp_ebind [of _ "eret _"] wp_basic wp_ebind [of _ "creates_account _ _ _ _"]
          intro!: tail creates_account_wp)
  qed
qed

lemma request_of_wp:
  fixes default_gas :: "'g::len word"
  assumes sp: "spec_ok sp" and g: "64 \<le> LENGTH('g)" "LENGTH('g) \<le> 256" and c: "stays c\<^sub>0 c"
    and i: "info i = Ok x" "info_args x \<le> length s" and d: "i \<notin> set own_price \<Longrightarrow> 0 < unat default_gas"
  shows "wp p (request_of V sp i default_gas s) (\<lambda>q c'. stays c\<^sub>0 c' \<and> request_ok sp i s q) (\<lambda>e c'. stays c\<^sub>0 c') c"
proof -
  note args = request_args [OF i]
  note pos = spec_ok_pos [OF sp]
  consider "i = SSTORE" | "i = SUICIDE" | "i = CALL \<or> i = CALLCODE" | "LOG0 \<le> i \<and> i \<le> LOG4" "i \<notin> {SSTORE, SUICIDE, CALL, CALLCODE}"
    | "i = CREATE \<or> i = CREATE2" | "i = DELEGATECALL \<or> i = STATICCALL" | "i = EXP" | "i = SHA3"
    | "i = EXTCODECOPY" | "i = CALLDATACOPY \<or> i = CODECOPY \<or> i = RETURNDATACOPY"
    | "i = MSTORE \<or> i = MLOAD \<or> i = MSTORE8" | "i = RETURN \<or> i = REVERT"
    | (other) "\<not> (LOG0 \<le> i \<and> i \<le> LOG4)" "i \<notin> {SSTORE, SUICIDE, CALL, CALLCODE, CREATE, CREATE2, DELEGATECALL,
        STATICCALL, EXP, SHA3, EXTCODECOPY, CALLDATACOPY, CODECOPY, RETURNDATACOPY, MSTORE, MLOAD, MSTORE8, RETURN, REVERT}"
    by blast
  then show ?thesis
  proof cases
    case 1
    with args show ?thesis
      by (simp add: request_of_def) (rule sstore_request_wp [OF sp g(1) _ c], simp_all add: request_ok_def provides_gas_def touched_def)
  next
    case 2
    with args show ?thesis
      by (simp add: request_of_def) (rule suicide_request_wp [OF sp g(1) _ c], simp_all add: request_ok_def provides_gas_def touched_def)
  next
    case 3
    then have l: "6 < length s" using args by auto
    have "request_of V sp i default_gas s = call_request V sp i s"
      using 3 by (auto simp: request_of_def)
    moreover have "touched i s = [(s ! 5, s ! 6), (s ! 3, s ! 4)]"
      using 3 by (auto simp: touched_def)
    ultimately show ?thesis
      using 3 by (auto simp: request_ok_def provides_gas_def intro!: call_request_wp [OF sp g l c])
  next
    case 4
    obtain n where n: "log_topics i = Some n" "n \<le> 4" "1 < length s"
      using i 4(1) by (rule log_args)
    have "request_of V sp i default_gas s = elift (log_request sp i s)"
      using log_opcodes [OF 4(1)] by (elim insertE emptyE) (simp_all add: request_of_def)
    moreover have "touched i s = [(s ! 0, s ! 1)]" and "\<not> provides_gas i"
      using log_opcodes [OF 4(1)] by (elim insertE emptyE; simp add: touched_def provides_gas_def)+
    ultimately show ?thesis
      using c by (auto simp: request_ok_def intro!: wp_elift_rwp rwp_mono [OF log_request_rwp [OF sp g n(3,1,2)]])
  next
    case 5
    then have l: "2 < length s" using args by auto
    have "request_of V sp i default_gas s c = elift (create_request V sp i s c) c"
      using 5 by (auto simp: request_of_def)
    moreover have "touched i s = [(s ! 1, s ! 2)]" "provides_gas i"
      using 5 by (auto simp: touched_def provides_gas_def)
    moreover have "rwp (create_request V sp i s c) (\<lambda>q :: 'g word request. request_ok sp i s q)"
      using 5 \<open>touched i s = _\<close> \<open>provides_gas i\<close>
      by (intro rwp_mono [OF create_request_rwp [OF sp g l]]) (auto simp: request_ok_def)
    ultimately show ?thesis
      using c unfolding wp_def rwp_def by (auto simp: eff_apply split: res.splits)
  next
    case 6
    then have l: "5 < length s" using args by auto
    have "request_of V sp i default_gas s = elift (delegate_request sp s)"
      using 6 by (auto simp: request_of_def)
    moreover have "touched i s = [(s ! 4, s ! 5), (s ! 2, s ! 3)]" "provides_gas i"
      using 6 by (auto simp: touched_def provides_gas_def)
    ultimately show ?thesis
      using c 6 pos g
      by (auto simp: request_ok_def unat_cost_from intro!: wp_elift_rwp rwp_mono [OF delegate_request_rwp [OF sp g l]])
  next
    case 7
    with args c g show ?thesis
      by (auto simp: request_of_def request_ok_def provides_gas_def touched_def
          intro!: wp_elift_rwp rwp_mono [OF exp_request_rwp [OF sp g(1)]])
  next
    case 8
    with args c g show ?thesis
      by (auto simp: request_of_def request_ok_def provides_gas_def touched_def
          intro!: wp_elift_rwp rwp_mono [OF sha3_request_rwp [OF sp g]])
  next
    case 9
    with args c g pos show ?thesis
      by (auto simp: request_of_def request_ok_def provides_gas_def touched_def unat_cost_from
          intro!: wp_elift_rwp rwp_mono [OF copy_request_rwp])
  next
    case 10
    then have "0 < unat default_gas" using d by (auto simp: own_price_def)
    with 10 args c g show ?thesis
      by (auto simp: request_of_def request_ok_def provides_gas_def touched_def unat_cost_from
          intro!: wp_elift_rwp rwp_mono [OF copy_request_rwp])
  next
    case 11
    then have d': "0 < unat default_gas" using d by (auto simp: own_price_def)
    have ne: "s \<noteq> []" using 11 args by auto
    have "\<not> provides_gas i" using 11 by (auto simp: provides_gas_def)
    moreover obtain n :: usize where
      "request_of V sp i default_gas s = elift (rbind (peek s 0) (\<lambda>a. rbind (mem_needed_const a n) (\<lambda>m. Ok (GasMem default_gas m))))"
      and "touched i s = [(s ! 0, ucast n)]"
      using 11 by (elim disjE) (force simp: request_of_def touched_def)+
    ultimately show ?thesis
      using c g ne d'
      by (auto simp: request_ok_def rwp_rbind rwp_basic covers_def unat_ucast_up intro!: wp_elift_rwp rwp_mono [OF mem_needed_const_rwp])
  next
    case 12
    then have l: "1 < length s" "s \<noteq> []" using args by auto
    have "\<not> provides_gas i" and "touched i s = [(s ! 0, s ! 1)]"
      using 12 by (auto simp: provides_gas_def touched_def)
    moreover have "request_of V sp i default_gas s = elift (rbind (peek s 0) (\<lambda>a. rbind (peek s 1) (\<lambda>b.
               rbind (mem_needed a b) (\<lambda>m. Ok (GasMem default_gas m)))))"
      using 12 by (auto simp: request_of_def)
    ultimately show ?thesis
      using c g l 12
      by (auto simp: request_ok_def rwp_rbind rwp_basic covers_def intro!: wp_elift_rwp rwp_mono [OF mem_needed_rwp])
  next
    case other
    have t: "touched i s = []" "\<not> provides_gas i"
      using other by (simp_all add: touched_def provides_gas_def)
    show ?thesis
    proof (cases "i \<in> {JUMPDEST, SLOAD, BALANCE, EXTCODESIZE, EXTCODEHASH, BLOCKHASH}")
      case True
      with t other c pos g show ?thesis
        by (auto simp: request_of_def request_ok_def wp_simps unat_cost_from)
    next
      case False
      then have "request_of V sp i default_gas s = eret (Gas default_gas)"
        using other(2) by (simp add: request_of_def other(1) del: de_Morgan_conj)
      moreover have "0 < unat default_gas \<or> i = STOP"
        using d other False log_opcodes [of i] by (cases "i \<in> set own_price") (auto simp: own_price_def)
      ultimately show ?thesis
        using t c by (simp add: request_ok_def wp_simps)
    qed
  qed
qed

lemma requirements_wp:
  fixes gm :: "'g::len word gasometer"
  assumes c: "J c" and g: "LENGTH('g) = 64" and i: "info i = Ok x" "info_args x \<le> length s"
    and ok: "mem_gas_ok (cx_spec V c) gm cur"
  shows "wp p (requirements V gm i x s cur)
     (\<lambda>r c'. stays c c' \<and> requirements_ok (cx_spec V c) gm i s cur r) (\<lambda>e c'. stays c c') c"
proof -
  have sp: "spec_ok (cx_spec V c)" using c by (rule spec_law)
  obtain t where t: "tier_gas (cx_spec V c) (info_tier x) = Ok t"
    using tier_gas_Ok [OF sp] by blast
  have "stays c c" using c by (simp add: stays_def)
  moreover have "i \<notin> set own_price \<Longrightarrow> 0 < unat (cost_from t :: 'g word)"
    using tier_gas_paid [OF sp i(1) _ t] g by (simp add: unat_cost_from)
  ultimately have "wp p (request_of V (cx_spec V c) i (cost_from t :: 'g word) s)
     (\<lambda>q c'. stays c c' \<and> request_ok (cx_spec V c) i s q) (\<lambda>e c'. stays c c') c"
    using sp g i by (intro request_of_wp) simp_all
  then have "wp p (request_of V (cx_spec V c) i (cost_from t :: 'g word) s)
     (\<lambda>q. wp p (elift (total_of gm (cx_spec V c) cur q))
        (\<lambda>r c'. stays c c' \<and> requirements_ok (cx_spec V c) gm i s cur r) (\<lambda>e c'. stays c c'))
     (\<lambda>e c'. stays c c') c"
    by (rule wp_mono) (auto intro!: wp_elift_rwp rwp_mono [OF total_of_rwp [OF sp g ok]])
  then show ?thesis
    by (simp add: requirements_def wp_ebind wp_basic wp_elift t)
qed

end

end
