(* ===== verification/Shared_Cache.thy ===== *)
theory Shared_Cache
  imports Instructions
begin

text \<open>
  The analysis of jump destinations (src/evm/interpreter/shared_cache.rs) and the
  memory-bounded cache that stores its results (utils/memory-cache/src/lib.rs).  The LRU map
  underneath (crate \<open>lru-cache\<close>) is not part of the repository: its operations are the record
  \<open>lru_ops\<close>, an argument of the definitions, and what the code relies on is the predicate
  \<open>lru_laws\<close>.  A bit set is the set of its members.
\<close>

section \<open>Jump destinations\<close>

record cache_item =
  jump_destination :: "nat set"
  sub_entrypoint :: "nat set"

text \<open>The number of code bytes that follow an opcode as its immediate operand.\<close>

definition skip_bytes :: "byte \<Rightarrow> nat" where
  "skip_bytes opcode = (case from_u8 opcode of
     None \<Rightarrow> 0
   | Some i \<Rightarrow> (case push_bytes i of None \<Rightarrow> 0 | Some n \<Rightarrow> n))"

function scan_code :: "bytes \<Rightarrow> nat \<Rightarrow> nat set \<Rightarrow> nat set \<Rightarrow> cache_item" where
  "scan_code code position jump_dests sub_entrypoints =
     (if position < length code
      then
        let opcode = code ! position; i = from_u8 opcode in
        if i = Some JUMPDEST then scan_code code (position + 1) (insert position jump_dests) sub_entrypoints
        else if i = Some BEGINSUB then scan_code code (position + 1) jump_dests (insert position sub_entrypoints)
        else scan_code code (position + skip_bytes opcode + 1) jump_dests sub_entrypoints
      else \<lparr>jump_destination = jump_dests, sub_entrypoint = sub_entrypoints\<rparr>)"
  by pat_completeness auto
termination by (relation "measure (\<lambda>(code, position, _, _). length code - position)") auto

declare scan_code.simps [simp del]

definition find_jump_and_sub_destinations :: "bytes \<Rightarrow> cache_item" where
  "find_jump_and_sub_destinations code = scan_code code 0 {} {}"

section \<open>The memory-bounded LRU cache\<close>

record 'l lru_ops =
  lru_new :: "nat \<Rightarrow> 'l"
  lru_capacity :: "'l \<Rightarrow> nat"
  lru_len :: "'l \<Rightarrow> nat"
  lru_set_capacity :: "nat \<Rightarrow> 'l \<Rightarrow> 'l"
  lru_insert :: "h256 \<Rightarrow> cache_item \<Rightarrow> 'l \<Rightarrow> cache_item option \<times> 'l"
  lru_get_mut :: "h256 \<Rightarrow> 'l \<Rightarrow> cache_item option \<times> 'l"
  lru_remove_lru :: "'l \<Rightarrow> (h256 \<times> cache_item) option \<times> 'l"
  item_size :: "cache_item \<Rightarrow> nat"

record 'l memory_lru_cache =
  inner :: 'l
  cur_size :: nat
  max_size :: nat

definition INITIAL_CAPACITY :: nat where
  "INITIAL_CAPACITY = 4"

text \<open>\<open>size_of::<CacheItem>()\<close> is two pointers.\<close>

definition heap_size_of :: "'l lru_ops \<Rightarrow> cache_item \<Rightarrow> nat" where
  "heap_size_of L val = 16 + item_size L val"

definition memory_lru_new :: "'l lru_ops \<Rightarrow> nat \<Rightarrow> 'l memory_lru_cache" where
  "memory_lru_new L limit = \<lparr>inner = lru_new L INITIAL_CAPACITY, cur_size = 0, max_size = limit\<rparr>"

text \<open>
  The eviction loop.  Every round but the last removes an entry, so \<open>lru_len + 1\<close> rounds are
  enough; \<open>Panic\<close> is the underflow of \<open>cur_size\<close>.
\<close>

fun evict :: "'l lru_ops \<Rightarrow> nat \<Rightarrow> 'l memory_lru_cache \<Rightarrow> ('e, 'l memory_lru_cache) res" where
  "evict L 0 m = Ok m"
| "evict L (Suc n) m =
     (if max_size m < cur_size m
      then (case lru_remove_lru L (inner m) of
              (Some (_, v), l) \<Rightarrow>
                if cur_size m < heap_size_of L v then Panic
                else evict L n (m\<lparr>inner := l, cur_size := cur_size m - heap_size_of L v\<rparr>)
            | (None, l) \<Rightarrow> Ok (m\<lparr>inner := l\<rparr>))
      else Ok m)"

definition memory_lru_insert ::
    "'l lru_ops \<Rightarrow> h256 \<Rightarrow> cache_item \<Rightarrow> 'l memory_lru_cache \<Rightarrow> ('e, 'l memory_lru_cache) res" where
  "memory_lru_insert L k val m =
     (let cap = lru_capacity L (inner m);
          l0 = (if lru_len L (inner m) = cap \<and> cur_size m < max_size m
                then lru_set_capacity L (cap * 2) (inner m) else inner m);
          size1 = cur_size m + heap_size_of L val;
          (old, l1) = lru_insert L k val l0 in
      rbind (case old of
               None \<Rightarrow> Ok size1
             | Some v \<Rightarrow> if size1 < heap_size_of L v then Panic else Ok (size1 - heap_size_of L v))
        (\<lambda>size2. evict L (lru_len L l1 + 1) (m\<lparr>inner := l1, cur_size := size2\<rparr>)))"

definition memory_lru_get_mut ::
    "'l lru_ops \<Rightarrow> h256 \<Rightarrow> 'l memory_lru_cache \<Rightarrow> cache_item option \<times> 'l memory_lru_cache" where
  "memory_lru_get_mut L k m = (let (v, l) = lru_get_mut L k (inner m) in (v, m\<lparr>inner := l\<rparr>))"

section \<open>The shared cache\<close>

definition shared_cache_new :: "'l lru_ops \<Rightarrow> nat \<Rightarrow> 'l memory_lru_cache" where
  "shared_cache_new L limit = memory_lru_new L limit"

definition shared_cache_default :: "'l lru_ops \<Rightarrow> 'l memory_lru_cache" where
  "shared_cache_default L = shared_cache_new L (4 * 1024 * 1024)"

definition jump_and_sub_destinations ::
    "'l lru_ops \<Rightarrow> h256 \<Rightarrow> h256 option \<Rightarrow> bytes \<Rightarrow> ('l memory_lru_cache, 'e, nat set \<times> nat set) eff" where
  "jump_and_sub_destinations L keccak_empty code_hash code = (\<lambda>cache.
     let answer = (\<lambda>d. (jump_destination d, sub_entrypoint d));
         d = find_jump_and_sub_destinations code in
     case code_hash of
       None \<Rightarrow> (Ok (answer d), cache)
     | Some h \<Rightarrow>
         if h = keccak_empty then (Ok (answer d), cache)
         else (case memory_lru_get_mut L h cache of
                 (Some d', cache') \<Rightarrow> (Ok (answer d'), cache')
               | (None, cache') \<Rightarrow>
                   (case memory_lru_insert L h d cache' of
                      Ok cache'' \<Rightarrow> (Ok (answer d), cache'')
                    | Err e \<Rightarrow> (Err e, cache')
                    | Panic \<Rightarrow> (Panic, cache'))))"

section \<open>Specification\<close>

text \<open>Instruction boundaries: the positions a decoder that skips push operands arrives at.\<close>

inductive boundary :: "bytes \<Rightarrow> nat \<Rightarrow> bool" for code where
  start: "boundary code 0"
| step: "boundary code p \<Longrightarrow> p < length code \<Longrightarrow> boundary code (Suc (p + skip_bytes (code ! p)))"

text \<open>
  What the code relies on of the LRU map, over the finite map \<open>M\<close> it represents: a lookup
  answers from the map and keeps it; an insertion returns the old value of the same key, maps
  the key to the new value or drops it, and adds nothing else; removal returns and removes an entry, and only an
  empty map has none.
\<close>

definition lru_laws :: "'l lru_ops \<Rightarrow> ('l \<Rightarrow> h256 \<rightharpoonup> cache_item) \<Rightarrow> bool" where
  "lru_laws L M \<longleftrightarrow>
     (\<forall>l. finite (dom (M l)) \<and> lru_len L l = card (dom (M l))) \<and>
     (\<forall>n. M (lru_new L n) = Map.empty) \<and>
     (\<forall>n l. M (lru_set_capacity L n l) \<subseteq>\<^sub>m M l) \<and>
     (\<forall>k l. fst (lru_get_mut L k l) = M l k \<and> M (snd (lru_get_mut L k l)) = M l) \<and>
     (\<forall>k v l. fst (lru_insert L k v l) = M l k \<and> M (snd (lru_insert L k v l)) \<subseteq>\<^sub>m (M l)(k \<mapsto> v)) \<and>
     (\<forall>l. case lru_remove_lru L l of
        (None, l') \<Rightarrow> M l = Map.empty \<and> M l' = Map.empty
      | (Some (k, v), l') \<Rightarrow> M l k = Some v \<and> M l' = (M l)(k := None))"

text \<open>The total size of the stored items.\<close>

definition stored_size :: "'l lru_ops \<Rightarrow> (h256 \<rightharpoonup> cache_item) \<Rightarrow> nat" where
  "stored_size L m = (\<Sum>k \<in> dom m. heap_size_of L (the (m k)))"

text \<open>The cache answers only with analyses of codes known under the hash: \<open>codes h c\<close> says that \<open>c\<close> may be met with hash \<open>h\<close>.\<close>

definition cache_ok :: "'l lru_ops \<Rightarrow> ('l \<Rightarrow> h256 \<rightharpoonup> cache_item) \<Rightarrow> (h256 \<Rightarrow> bytes \<Rightarrow> bool) \<Rightarrow> 'l memory_lru_cache \<Rightarrow> bool" where
  "cache_ok L M codes m \<longleftrightarrow>
     (\<forall>h d. M (inner m) h = Some d \<longrightarrow> (\<exists>code. codes h code \<and> d = find_jump_and_sub_destinations code)) \<and>
     stored_size L (M (inner m)) \<le> cur_size m"

section \<open>Jump destinations are the marked instruction boundaries\<close>

lemma skip_bytes_jumpdest [simp]: "skip_bytes JUMPDEST = 0" "skip_bytes BEGINSUB = 0"
  by (simp_all add: skip_bytes_def push_bytes_def is_push_def split: option.splits)
    (auto simp: from_u8_def push_bytes_def is_push_def split: if_splits)

inductive decodes :: "bytes \<Rightarrow> nat \<Rightarrow> nat \<Rightarrow> bool" for code p where
  here: "decodes code p p"
| step: "decodes code p q \<Longrightarrow> q < length code \<Longrightarrow> decodes code p (Suc (q + skip_bytes (code ! q)))"

lemma decodes_ge: "decodes code p q \<Longrightarrow> p \<le> q"
  by (induction rule: decodes.induct) auto

lemma decodes_unfold:
  assumes "p < length code"
  shows "decodes code p q \<longleftrightarrow> q = p \<or> decodes code (Suc (p + skip_bytes (code ! p))) q"
proof
  assume "decodes code p q"
  then show "q = p \<or> decodes code (Suc (p + skip_bytes (code ! p))) q"
  proof (induction rule: decodes.induct)
    case here
    then show ?case by simp
  next
    case (step q)
    from step.IH show ?case
    proof
      assume "q = p"
      then show ?thesis using decodes.here [of code "Suc (p + skip_bytes (code ! p))"] by simp
    next
      assume "decodes code (Suc (p + skip_bytes (code ! p))) q"
      then show ?thesis using decodes.step [OF _ step.hyps(2)] by simp
    qed
  qed
next
  have "decodes code p q" if "decodes code (Suc (p + skip_bytes (code ! p))) q"
    using that
  proof (induction rule: decodes.induct)
    case here
    then show ?case using decodes.step [OF decodes.here assms] by simp
  next
    case (step q)
    then show ?case by (simp add: decodes.step)
  qed
  then show "q = p \<or> decodes code (Suc (p + skip_bytes (code ! p))) q \<Longrightarrow> decodes code p q"
    using decodes.here by blast
qed

lemma boundary_iff_decodes: "boundary code q \<longleftrightarrow> decodes code 0 q"
proof
  show "boundary code q \<Longrightarrow> decodes code 0 q"
    by (induction rule: boundary.induct) (auto intro: decodes.intros)
  show "decodes code 0 q \<Longrightarrow> boundary code q"
    by (induction rule: decodes.induct) (auto intro: boundary.intros)
qed

lemma from_u8_marks [simp]:
  "from_u8 b = Some JUMPDEST \<longleftrightarrow> b = JUMPDEST" "from_u8 b = Some BEGINSUB \<longleftrightarrow> b = BEGINSUB"
  by (auto simp: from_u8_def opcodes_def)

lemma scan_code_correct:
  "scan_code code p js bs =
     \<lparr>jump_destination = js \<union> {q. decodes code p q \<and> q < length code \<and> code ! q = JUMPDEST},
      sub_entrypoint = bs \<union> {q. decodes code p q \<and> q < length code \<and> code ! q = BEGINSUB}\<rparr>"
proof (induction code p js bs rule: scan_code.induct)
  case (1 code p js bs)
  show ?case
  proof (cases "p < length code")
    case False
    then have "decodes code p q \<Longrightarrow> \<not> q < length code" for q
      using decodes_ge [of code p q] by simp
    with False show ?thesis by (subst scan_code.simps) auto
  next
    case True
    define n where "n = Suc (p + skip_bytes (code ! p))"
    have u: "decodes code p q \<longleftrightarrow> q = p \<or> decodes code n q" for q
      unfolding n_def by (rule decodes_unfold [OF True])
    consider (jump) "code ! p = JUMPDEST" | (sub) "code ! p = BEGINSUB"
      | (other) "code ! p \<noteq> JUMPDEST" "code ! p \<noteq> BEGINSUB" by blast
    then show ?thesis
    proof cases
      case jump
      then have n: "n = p + 1" by (simp add: n_def)
      have "scan_code code p js bs = scan_code code n (insert p js) bs"
        using jump True n by (subst scan_code.simps) simp
      also have "\<dots> = \<lparr>jump_destination = insert p js \<union> {q. decodes code n q \<and> q < length code \<and> code ! q = JUMPDEST},
          sub_entrypoint = bs \<union> {q. decodes code n q \<and> q < length code \<and> code ! q = BEGINSUB}\<rparr>"
        unfolding n using jump by (intro 1(1) [OF True refl refl]) simp
      finally show ?thesis using jump True by (auto simp: u)
    next
      case sub
      then have n: "n = p + 1" by (simp add: n_def)
      have "scan_code code p js bs = scan_code code n js (insert p bs)"
        using sub True n by (subst scan_code.simps) simp
      also have "\<dots> = \<lparr>jump_destination = js \<union> {q. decodes code n q \<and> q < length code \<and> code ! q = JUMPDEST},
          sub_entrypoint = insert p bs \<union> {q. decodes code n q \<and> q < length code \<and> code ! q = BEGINSUB}\<rparr>"
        unfolding n using sub by (intro 1(2) [OF True refl refl]) simp_all
      finally show ?thesis using sub True by (auto simp: u)
    next
      case other
      have "scan_code code p js bs = scan_code code n js bs"
        using other True by (subst scan_code.simps) (simp add: n_def Let_def)
      also have "\<dots> = \<lparr>jump_destination = js \<union> {q. decodes code n q \<and> q < length code \<and> code ! q = JUMPDEST},
          sub_entrypoint = bs \<union> {q. decodes code n q \<and> q < length code \<and> code ! q = BEGINSUB}\<rparr>"
        unfolding n_def using other 1(3) [OF True refl refl] by simp
      finally show ?thesis using other by (auto simp: u)
    qed
  qed
qed

lemma find_destinations:
  "q \<in> jump_destination (find_jump_and_sub_destinations code) \<longleftrightarrow>
     boundary code q \<and> q < length code \<and> code ! q = JUMPDEST"
  "q \<in> sub_entrypoint (find_jump_and_sub_destinations code) \<longleftrightarrow>
     boundary code q \<and> q < length code \<and> code ! q = BEGINSUB"
  by (simp_all add: find_jump_and_sub_destinations_def scan_code_correct boundary_iff_decodes)

section \<open>The cache is transparent\<close>

lemma stored_size_mono:
  assumes "m \<subseteq>\<^sub>m n" and "finite (dom n)"
  shows "stored_size L m \<le> stored_size L n"
proof -
  have d: "dom m \<subseteq> dom n" using assms(1) by (rule map_le_implies_dom_le)
  have "stored_size L m = (\<Sum>k \<in> dom m. heap_size_of L (the (n k)))"
    unfolding stored_size_def using assms(1) by (intro sum.cong) (auto simp: map_le_def)
  also have "\<dots> \<le> stored_size L n"
    unfolding stored_size_def using assms(2) d by (rule sum_mono2) simp
  finally show ?thesis .
qed

lemma stored_size_remove:
  assumes "finite (dom m)" and "m k = Some v"
  shows "stored_size L m = heap_size_of L v + stored_size L (m(k := None))"
proof -
  have "stored_size L m = heap_size_of L (the (m k)) + (\<Sum>x \<in> dom m - {k}. heap_size_of L (the (m x)))"
    unfolding stored_size_def using assms by (intro sum.remove) auto
  also have "(\<Sum>x \<in> dom m - {k}. heap_size_of L (the (m x))) = stored_size L (m(k := None))"
    unfolding stored_size_def by (rule sum.cong) auto
  finally show ?thesis using assms by simp
qed

lemma stored_size_update:
  assumes "finite (dom m)"
  shows "stored_size L (m(k \<mapsto> v)) = heap_size_of L v + stored_size L (m(k := None))"
  using assms stored_size_remove [of "m(k \<mapsto> v)" k v L] by simp

lemma lru_lawsD:
  assumes "lru_laws L M"
  shows "finite (dom (M l))" "lru_len L l = card (dom (M l))" "M (lru_new L n) = Map.empty"
    "M (lru_set_capacity L n l) \<subseteq>\<^sub>m M l"
    "fst (lru_get_mut L k l) = M l k" "M (snd (lru_get_mut L k l)) = M l"
    "fst (lru_insert L k v l) = M l k" "M (snd (lru_insert L k v l)) \<subseteq>\<^sub>m (M l)(k \<mapsto> v)"
    "lru_remove_lru L l = (None, l') \<Longrightarrow> M l = Map.empty \<and> M l' = Map.empty"
    "lru_remove_lru L l = (Some (k, v), l') \<Longrightarrow> M l k = Some v \<and> M l' = (M l)(k := None)"
  using assms unfolding lru_laws_def by (auto split: prod.splits option.splits)

text \<open>The eviction loop keeps the invariant, never underflows, and stops below the limit or with an empty map.\<close>

lemma evict_ok:
  assumes L: "lru_laws L M"
  shows "cache_ok L M codes m \<Longrightarrow> card (dom (M (inner m))) < n \<Longrightarrow>
    \<exists>m'. evict L n m = Ok m' \<and> cache_ok L M codes m' \<and> max_size m' = max_size m \<and>
      (cur_size m' \<le> max_size m \<or> M (inner m') = Map.empty)"
proof (induction n arbitrary: m)
  case 0
  then show ?case by simp
next
  case (Suc n)
  show ?case
  proof (cases "max_size m < cur_size m")
    case False
    with Suc.prems show ?thesis by simp
  next
    case over: True
    show ?thesis
    proof (cases "lru_remove_lru L (inner m)")
      case (Pair r l)
      show ?thesis
      proof (cases r)
        case None
        with Pair over Suc.prems lru_lawsD(9) [OF L, of "inner m" l] show ?thesis
          by (auto simp: cache_ok_def)
      next
        case (Some kv)
        obtain k v where kv: "kv = (k, v)" by fastforce
        have e: "M (inner m) k = Some v" "M l = (M (inner m))(k := None)"
          using lru_lawsD(10) [OF L, of "inner m" k v l] Pair Some kv by auto
        have sz: "stored_size L (M (inner m)) = heap_size_of L v + stored_size L (M l)"
          unfolding e(2) using e(1) lru_lawsD(1) [OF L] by (intro stored_size_remove)
        define m1 where "m1 = m\<lparr>inner := l, cur_size := cur_size m - heap_size_of L v\<rparr>"
        have "cache_ok L M codes m1"
          using Suc.prems(1) sz e unfolding cache_ok_def m1_def by (auto split: if_splits)
        moreover have "card (dom (M (inner m1))) < n"
        proof -
          have "card (dom (M l)) < card (dom (M (inner m)))"
            using e lru_lawsD(1) [OF L] by (intro psubset_card_mono) auto
          with Suc.prems(2) show ?thesis by (simp add: m1_def)
        qed
        moreover have "\<not> cur_size m < heap_size_of L v"
          using Suc.prems(1) sz by (simp add: cache_ok_def)
        ultimately show ?thesis
          using Suc.IH [of m1] over Pair Some kv by (simp add: m1_def)
      qed
    qed
  qed
qed

lemma memory_lru_insert_ok:
  assumes L: "lru_laws L M" and ok: "cache_ok L M codes m" and code: "codes h code"
  shows "\<exists>m'. memory_lru_insert L h (find_jump_and_sub_destinations code) m = (Ok m' :: ('e, 'l memory_lru_cache) res) \<and> cache_ok L M codes m' \<and>
    max_size m' = max_size m \<and> (cur_size m' \<le> max_size m \<or> M (inner m') = Map.empty)"
proof -
  define d where "d = find_jump_and_sub_destinations code"
  define l0 where "l0 = (if lru_len L (inner m) = lru_capacity L (inner m) \<and> cur_size m < max_size m
     then lru_set_capacity L (lru_capacity L (inner m) * 2) (inner m) else inner m)"
  obtain old l1 where ins: "lru_insert L h d l0 = (old, l1)" by fastforce
  have l0: "M l0 \<subseteq>\<^sub>m M (inner m)"
    unfolding l0_def using lru_lawsD(4) [OF L] by simp
  have old: "old = M l0 h" and l1: "M l1 \<subseteq>\<^sub>m (M l0)(h \<mapsto> d)"
    using lru_lawsD(7,8) [OF L, of h d l0] by (simp_all add: ins)
  note fin = lru_lawsD(1) [OF L]
  define size1 where "size1 = cur_size m + heap_size_of L d"
  define size2 where "size2 = (case old of None \<Rightarrow> size1 | Some v \<Rightarrow> size1 - heap_size_of L v)"
  have le0: "stored_size L (M l0) \<le> cur_size m"
    using stored_size_mono [OF l0 fin, of L] ok by (simp add: cache_ok_def)
  have bal: "old = Some v \<Longrightarrow> heap_size_of L v \<le> size1" for v
    using le0 stored_size_remove [OF fin, of l0 h v L] old by (simp add: size1_def)
  have "stored_size L (M l1) \<le> size2"
  proof -
    have "stored_size L (M l1) \<le> heap_size_of L d + stored_size L ((M l0)(h := None))"
      using stored_size_mono [OF l1, of L] fin [of l0] by (simp add: stored_size_update fin)
    also have "\<dots> \<le> size2"
      using le0 stored_size_remove [OF fin, of l0 h _ L]
      by (cases "M l0 h") (auto simp: size2_def size1_def fun_upd_idem old)
    finally show ?thesis .
  qed
  moreover have "\<exists>c. codes k c \<and> x = find_jump_and_sub_destinations c" if "M l1 k = Some x" for k x
  proof (cases "k = h")
    case True
    with that l1 have "x = d" by (metis domI fun_upd_same map_le_def option.inject)
    with True code show ?thesis by (auto simp: d_def)
  next
    case False
    with that l1 l0 have "M (inner m) k = Some x"
      by (metis (no_types, lifting) domI fun_upd_other map_le_def)
    with ok show ?thesis by (auto simp: cache_ok_def)
  qed
  ultimately have ok1: "cache_ok L M codes (m\<lparr>inner := l1, cur_size := size2\<rparr>)"
    unfolding cache_ok_def by simp
  have ins_eq: "memory_lru_insert L h d m = (evict L (lru_len L l1 + 1) (m\<lparr>inner := l1, cur_size := size2\<rparr>) :: ('e, 'l memory_lru_cache) res)"
    using bal unfolding memory_lru_insert_def Let_def l0_def [symmetric] size1_def [symmetric]
    by (auto simp: ins size2_def simp del: evict.simps split: option.splits dest: leD)
  obtain m' where "evict L (lru_len L l1 + 1) (m\<lparr>inner := l1, cur_size := size2\<rparr>) =
      (Ok m' :: ('e, 'l memory_lru_cache) res)" "cache_ok L M codes m'" "max_size m' = max_size m"
      "cur_size m' \<le> max_size m \<or> M (inner m') = Map.empty"
    using evict_ok [OF L ok1, of "lru_len L l1 + 1"] lru_lawsD(2) [OF L] by auto
  then show ?thesis
    using ins_eq unfolding d_def by metis
qed

text \<open>Every lookup answers with the analysis of a code known under the hash.\<close>

lemma jump_and_sub_destinations_ok:
  assumes L: "lru_laws L M" and ok: "cache_ok L M codes m" and code: "\<And>h. code_hash = Some h \<Longrightarrow> codes h code"
  shows "\<exists>m' c. (jump_and_sub_destinations L ke code_hash code :: ('l memory_lru_cache, 'e, _) eff) m =
      (Ok (jump_destination (find_jump_and_sub_destinations c), sub_entrypoint (find_jump_and_sub_destinations c)), m')
    \<and> cache_ok L M codes m' \<and> (c = code \<or> (\<exists>h. code_hash = Some h \<and> codes h c))"
proof (cases code_hash)
  case None
  with ok show ?thesis by (auto simp: jump_and_sub_destinations_def)
next
  case (Some h)
  obtain v l where g: "lru_get_mut L h (inner m) = (v, l)" by fastforce
  have v: "v = M (inner m) h" "M l = M (inner m)"
    using lru_lawsD(5,6) [OF L, of h "inner m"] by (simp_all add: g)
  have ok': "cache_ok L M codes (m\<lparr>inner := l\<rparr>)"
    using ok v by (simp add: cache_ok_def)
  show ?thesis
  proof (cases v)
    case None
    obtain m' where m': "memory_lru_insert L h (find_jump_and_sub_destinations code) (m\<lparr>inner := l\<rparr>) =
        (Ok m' :: ('e, 'l memory_lru_cache) res)" "cache_ok L M codes m'"
      using memory_lru_insert_ok [OF L ok' code [OF Some]] by blast
    with None Some ok g show ?thesis
      by (auto simp: jump_and_sub_destinations_def memory_lru_get_mut_def Let_def)
  next
    case (Some d)
    then obtain c where c: "codes h c" "d = find_jump_and_sub_destinations c"
      using ok v unfolding cache_ok_def by metis
    with Some \<open>code_hash = Some h\<close> ok ok' g show ?thesis
      by (auto simp: jump_and_sub_destinations_def memory_lru_get_mut_def Let_def)
  qed
qed

end
