(* ===== verification/Evm_Memory.thy ===== *)
theory Evm_Memory
  imports Vm_Types
begin

text \<open>
  The byte memory of the interpreter (src/evm/interpreter/memory.rs) and the copy loop that
  fills it from call data, code and return data (\<open>copy_data_to_memory\<close> in
  src/evm/interpreter/mod.rs).  Offsets arrive as 256-bit words and are truncated to
  \<open>usize\<close> exactly where the source does so.  A mutable slice is its start and its length.
\<close>

definition MAX_RETURN_WASTE_BYTES :: nat where
  "MAX_RETURN_WASTE_BYTES = 16384"

definition is_valid_range :: "usize \<Rightarrow> usize \<Rightarrow> bool" where
  "is_valid_range off sz \<longleftrightarrow> 0 < sz \<and> \<not> snd (overflowing_add off sz)"

definition read_slice :: "bytes \<Rightarrow> u256 \<Rightarrow> u256 \<Rightarrow> ('e, bytes) res" where
  "read_slice m init_off_u init_size_u =
     (let off = low_u64 init_off_u; sz = low_u64 init_size_u in
      if \<not> is_valid_range off sz then Ok []
      else slice m (unat off) (unat (off + sz)))"

definition mem_read :: "bytes \<Rightarrow> u256 \<Rightarrow> ('e, u256) res" where
  "mem_read m offset =
     (let off = unat (low_u64 offset) in rbind (slice m off (off + 32)) (\<lambda>bs. Ok (from_be bs)))"

definition writeable_slice :: "bytes \<Rightarrow> u256 \<Rightarrow> u256 \<Rightarrow> ('e, nat \<times> nat) res" where
  "writeable_slice m offset sz =
     (let off = low_u64 offset; s = low_u64 sz in
      if \<not> is_valid_range off s then Ok (0, 0)
      else if unat (off + s) \<le> length m then Ok (unat off, unat s)
      else Panic)"

definition write_slice :: "bytes \<Rightarrow> u256 \<Rightarrow> bytes \<Rightarrow> ('e, bytes) res" where
  "write_slice m offset bs =
     (if bs = [] then Ok m
      else let off = unat (low_u64 offset) in
        if off + length bs \<le> length m then Ok (overwrite m off bs) else Panic)"

definition mem_write :: "bytes \<Rightarrow> u256 \<Rightarrow> u256 \<Rightarrow> ('e, bytes) res" where
  "mem_write m offset value =
     (let off = unat (low_u64 offset) in
      if off + 32 \<le> length m then Ok (overwrite m off (to_be 32 value)) else Panic)"

definition write_byte :: "bytes \<Rightarrow> u256 \<Rightarrow> u256 \<Rightarrow> ('e, bytes) res" where
  "write_byte m offset value =
     (let off = unat (low_u64 offset); val = low_u64 value in
      if off < length m then Ok (m[off := ucast val]) else Panic)"

definition mem_resize :: "bytes \<Rightarrow> nat \<Rightarrow> bytes" where
  "mem_resize m new_size = take new_size m @ replicate (new_size - length m) 0"

definition expand :: "bytes \<Rightarrow> nat \<Rightarrow> bytes" where
  "expand m sz = (if length m < sz then mem_resize m sz else m)"

definition into_return_data :: "bytes \<Rightarrow> u256 \<Rightarrow> u256 \<Rightarrow> ('e, return_data) res" where
  "into_return_data m offset_u size_u =
     (let off = low_u64 offset_u; sz_w = low_u64 size_u; offset = unat off; sz = unat sz_w in
      if \<not> is_valid_range off sz_w then Ok rd_empty
      else if length m < sz then Panic
      else if MAX_RETURN_WASTE_BYTES < length m - sz then
        (if offset = 0 then Ok (rd_new (take sz m) offset sz)
         else rbind (slice m offset (offset + sz)) (\<lambda>m'. Ok (rd_new m' 0 sz)))
      else Ok (rd_new m offset sz))"

text \<open>
  \<open>copy_data_to_memory\<close>: first the part of the destination that lies past the end of the
  source is zeroed, then the part that the source covers is copied.
\<close>

definition zero_range :: "bytes \<Rightarrow> nat \<times> nat \<Rightarrow> bytes" where
  "zero_range m r = overwrite m (fst r) (replicate (snd r) 0)"

definition copy_past_end :: "u256 \<Rightarrow> u256 \<Rightarrow> u256 \<Rightarrow> ('e, bool) res" where
  "copy_past_end source_offset sz src_size =
     (if src_size < source_offset \<or> src_size < sz then Ok True
      else rbind (u_add source_offset sz) (\<lambda>e. Ok (src_size < e)))"

definition copy_data_to_memory :: "bytes \<Rightarrow> u256 \<Rightarrow> u256 \<Rightarrow> u256 \<Rightarrow> bytes \<Rightarrow> ('e, bytes) res" where
  "copy_data_to_memory m dest_offset source_offset sz source =
     (let src_size = of_nat (length source) in
      rbind (copy_past_end source_offset sz src_size) (\<lambda>past.
      rbind (if past
             then rbind (if src_size < source_offset then writeable_slice m dest_offset sz
                         else rbind (u_add dest_offset src_size) (\<lambda>d.
                              rbind (u_sub d source_offset) (\<lambda>zero_at.
                              rbind (u_add source_offset sz) (\<lambda>e.
                              rbind (u_sub e src_size) (\<lambda>zero_len.
                              writeable_slice m zero_at zero_len)))))
                  (\<lambda>r. Ok (zero_range m r, length source))
             else rbind (u_add (low_u64 sz) (low_u64 source_offset)) (\<lambda>e. Ok (m, unat e)))
        (\<lambda>(m', output_end).
           if source_offset < src_size
           then rbind (slice source (unat (low_u64 source_offset)) output_end)
                  (\<lambda>bs. write_slice m' dest_offset bs)
           else Ok m')))"

text \<open>What the copy is for: byte \<open>i\<close> of the destination window is byte \<open>source_offset + i\<close> of the
  source, read as zero past its end.\<close>

definition padded_slice :: "bytes \<Rightarrow> nat \<Rightarrow> nat \<Rightarrow> bytes" where
  "padded_slice source off n = map (\<lambda>i. if off + i < length source then source ! (off + i) else 0) [0..<n]"

section \<open>Lemmas\<close>

lemma unat_low_u64: "unat (w :: u256) < 2 ^ 64 \<Longrightarrow> unat (low_u64 w) = unat w"
  by (simp add: low_u64_def unsigned_ucast_eq take_bit_nat_eq_self)

lemma is_valid_range_iff: "is_valid_range off sz \<longleftrightarrow> 0 < unat sz \<and> unat off + unat sz < 2 ^ 64"
  by (simp add: is_valid_range_def overflowing_add_def word_less_nat_alt not_le)

lemma length_resize [simp]: "length (mem_resize m n) = n"
  by (simp add: mem_resize_def)

lemma length_expand: "length (expand m n) = max (length m) n"
  by (simp add: expand_def)

lemma expand_prefix: "take (length m) (expand m n) = m"
  by (simp add: expand_def mem_resize_def)

lemma nth_expand: "i < length (expand m n) \<Longrightarrow> expand m n ! i = (if i < length m then m ! i else 0)"
  by (auto simp: expand_def mem_resize_def nth_append)

lemma length_padded_slice [simp]: "length (padded_slice source off n) = n"
  by (simp add: padded_slice_def)

lemma writeable_slice_Ok:
  assumes "unat off + unat sz \<le> length m" and "length m < 2 ^ 64" and "0 < unat sz"
  shows "writeable_slice m off sz = Ok (unat off, unat sz)"
proof -
  have lo: "unat (low_u64 off) = unat off" "unat (low_u64 sz) = unat sz"
    using assms by (simp_all add: unat_low_u64)
  then have "unat (low_u64 off + low_u64 sz) = unat off + unat sz"
    using assms by (subst unat_add_no_overflow) simp_all
  with lo assms show ?thesis
    by (simp add: writeable_slice_def is_valid_range_iff)
qed

lemma writeable_slice_zero: "writeable_slice m off 0 = Ok (0, 0)"
  by (simp add: writeable_slice_def is_valid_range_iff low_u64_def)

lemma read_slice_Ok:
  assumes "unat off + unat sz \<le> length m" and "length m < 2 ^ 64"
  shows "read_slice m off sz = Ok (take (unat sz) (drop (unat off) m))"
proof -
  have lo: "unat (low_u64 off) = unat off" "unat (low_u64 sz) = unat sz"
    using assms by (simp_all add: unat_low_u64)
  then have "unat (low_u64 off + low_u64 sz) = unat off + unat sz"
    using assms by (subst unat_add_no_overflow) simp_all
  with lo assms show ?thesis
    by (auto simp: read_slice_def Let_def is_valid_range_iff slice_def)
qed

lemma read_slice_zero: "read_slice m off 0 = Ok []"
  by (simp add: read_slice_def is_valid_range_iff low_u64_def)

lemma mem_write_Ok: "unat (low_u64 off) + 32 \<le> length m \<Longrightarrow>
   mem_write m off v = Ok (overwrite m (unat (low_u64 off)) (to_be 32 v))"
  by (simp add: mem_write_def)

lemma mem_read_Ok: "unat (low_u64 off) + 32 \<le> length m \<Longrightarrow>
   mem_read m off = Ok (from_be (take 32 (drop (unat (low_u64 off)) m)))"
  by (simp add: mem_read_def slice_def)

lemma write_byte_Ok: "unat (low_u64 off) < length m \<Longrightarrow>
   write_byte m off v = Ok (m[unat (low_u64 off) := ucast (low_u64 v)])"
  by (simp add: write_byte_def)

section \<open>The copy loop\<close>

lemma padded_slice_split:
  assumes "off \<le> length src" and "length src < off + n"
  shows "padded_slice src off n = drop off src @ replicate (off + n - length src) 0"
  using assms by (intro nth_equalityI) (auto simp: padded_slice_def nth_append)

lemma padded_slice_inside: "off + n \<le> length src \<Longrightarrow> padded_slice src off n = take n (drop off src)"
  by (intro nth_equalityI) (auto simp: padded_slice_def)

lemma padded_slice_outside: "length src \<le> off \<Longrightarrow> padded_slice src off n = replicate n 0"
  by (intro nth_equalityI) (auto simp: padded_slice_def)

lemma overwrite_overwrite_tail:
  assumes "d + length ys + length zs \<le> length m"
  shows "overwrite (overwrite m (d + length ys) zs) d ys = overwrite m d (ys @ zs)"
  using assms by (intro nth_equalityI) (auto simp: length_overwrite nth_overwrite nth_append)

lemma copy_past_end_eq:
  assumes "unat src_size < 2 ^ 255"
  shows "copy_past_end so sz src_size = Ok (unat src_size < unat so + unat sz)"
proof (cases "src_size < so \<or> src_size < sz")
  case True
  then show ?thesis by (auto simp: copy_past_end_def word_less_nat_alt)
next
  case False
  then have "unat so + unat sz < 2 ^ 256"
    using assms by (auto simp: word_less_nat_alt)
  with False show ?thesis
    by (simp add: copy_past_end_def u_add_def word_less_nat_alt unat_add_no_overflow)
qed

lemma copy_data_to_memory_zero:
  assumes "length source < 2 ^ 63"
  shows "copy_data_to_memory m d so 0 source = Ok m"
proof -
  have n: "unat (of_nat (length source) :: u256) = length source"
    using assms by (simp add: unat_of_nat_small)
  have c: "copy_past_end so 0 (of_nat (length source)) = Ok (length source < unat so)"
    using assms copy_past_end_eq [of "of_nat (length source)" so 0] by (auto simp: n word_less_nat_alt)
  show ?thesis
  proof (cases "length source < unat so")
    case True
    then show ?thesis
      by (simp add: copy_data_to_memory_def Let_def c n word_less_nat_alt writeable_slice_zero zero_range_def)
  next
    case False
    then have "unat (low_u64 so) = unat so"
      using assms by (simp add: unat_low_u64)
    with False assms show ?thesis
      by (simp add: copy_data_to_memory_def Let_def c n word_less_nat_alt u_add_def
          slice_def write_slice_def low_u64_def)
  qed
qed

lemma copy_data_to_memory_eq:
  assumes sz: "0 < unat sz" and m: "unat d + unat sz \<le> length m" "length m < 2 ^ 63"
    and src: "length source < 2 ^ 63"
  shows "copy_data_to_memory m d so sz source =
     (Ok (overwrite m (unat d) (padded_slice source (unat so) (unat sz))) :: ('e, bytes) res)"
proof -
  define N :: u256 where "N = of_nat (length source)"
  have n: "unat N = length source"
    unfolding N_def using src by (simp add: unat_of_nat_small)
  have c: "copy_past_end so sz N = (Ok (length source < unat so + unat sz) :: ('e, bool) res)"
    using src copy_past_end_eq [of N so sz] by (auto simp: n word_less_nat_alt)
  have lo: "unat (low_u64 sz) = unat sz" "unat (low_u64 d) = unat d"
    using m by (simp_all add: unat_low_u64)
  consider (out) "length source < unat so"
    | (part) "unat so \<le> length source" "length source < unat so + unat sz"
    | (inside) "unat so + unat sz \<le> length source" by linarith
  then show ?thesis
  proof cases
    case out
    have "writeable_slice m d sz = (Ok (unat d, unat sz) :: ('e, nat \<times> nat) res)"
      using m sz by (intro writeable_slice_Ok) auto
    with out show ?thesis
      unfolding copy_data_to_memory_def Let_def N_def [symmetric]
      by (simp add: c n word_less_nat_alt zero_range_def padded_slice_outside)
  next
    case part
    then obtain k j where k: "length source = unat so + k" and j: "unat sz = k + j" "0 < j"
      using less_imp_add_positive [of "length source" "unat so + unat sz"]
      by (metis (no_types, opaque_lifting) add.assoc add_left_cancel le_Suc_ex)
    have lso: "unat (low_u64 so) = unat so" using part src by (simp add: unat_low_u64)
    have a1: "unat (d + N) = unat d + length source" "unat (so + sz) = unat so + unat sz"
      using m src part n by (simp_all add: unat_add_no_overflow)
    have "unat (d + N - so) = unat d + length source - unat so"
      "unat (so + sz - N) = unat so + unat sz - length source"
      using part a1 n by (simp_all add: unat_sub_le word_le_nat_alt)
    then have a2: "unat (d + N - so) = unat d + k" "unat (so + sz - N) = j"
      using k j by linarith+
    have w: "writeable_slice m (d + N - so) (so + sz - N) = (Ok (unat d + k, j) :: ('e, nat \<times> nat) res)"
      using m j writeable_slice_Ok [of "d + N - so" "so + sz - N" m, unfolded a2] by simp
    have p: "padded_slice source (unat so) (unat sz) = drop (unat so) source @ replicate j 0"
      using part k j by (simp add: padded_slice_split)
    have o: "overwrite (overwrite m (unat d + k) (replicate j 0)) (unat d) (drop (unat so) source)
        = overwrite m (unat d) (drop (unat so) source @ replicate j 0)"
      using m j k overwrite_overwrite_tail [of "unat d" "drop (unat so) source" "replicate j 0" m]
      by simp
    show ?thesis
      using m part src a1 lo lso k j o
      unfolding copy_data_to_memory_def Let_def N_def [symmetric] p
      by (simp add: c n word_less_nat_alt u_add_def u_sub_def w zero_range_def slice_def write_slice_def
          length_overwrite)
  next
    case inside
    have lso: "unat (low_u64 so) = unat so" using inside src by (simp add: unat_low_u64)
    have e: "unat (low_u64 sz + low_u64 so) = unat so + unat sz"
      using inside src lo lso by (simp add: unat_add_no_overflow)
    show ?thesis
      using m inside src lo lso sz e
      unfolding copy_data_to_memory_def Let_def N_def [symmetric]
      by (auto simp: c n word_less_nat_alt u_add_def slice_def write_slice_def padded_slice_inside)
  qed
qed

section \<open>Return data\<close>

lemma into_return_data_Ok:
  assumes "unat off + unat sz \<le> length m" and "length m < 2 ^ 63"
  shows "\<exists>rd. into_return_data m off sz = Ok rd \<and> rd_ok rd \<and>
    rd_deref rd = Ok (take (unat sz) (drop (unat off) m))"
proof -
  have lo: "unat (low_u64 off) = unat off" "unat (low_u64 sz) = unat sz"
    using assms by (simp_all add: unat_low_u64)
  show ?thesis
    using assms
    by (auto simp: into_return_data_def Let_def lo is_valid_range_iff rd_ok_def rd_deref_def rd_new_def
        rd_empty_def slice_def)
qed

end
