(* ===== verification/Evm_Arith.thy ===== *)
theory Evm_Arith
  imports Prelude "HOL-Library.Signed_Division"
begin

text \<open>
  The arithmetic of the interpreter: what the arithmetic, comparison, bitwise and shift
  instructions of \<open>exec_instruction\<close> compute from their operands, and the sign helpers at the
  end of src/evm/interpreter/mod.rs.  Each definition is the expression of the source; each is
  then proved equal to the operation on unsigned or two's complement integers it stands for.
\<close>

section \<open>Definitions\<close>

definition set_sign :: "u256 \<Rightarrow> bool \<Rightarrow> u256" where
  "set_sign value sign = (if sign then fst (overflowing_add (NOT 0 XOR value) 1) else value)"

definition get_and_reset_sign :: "u256 \<Rightarrow> u256 \<times> bool" where
  "get_and_reset_sign value = (let sign = bit value 255 in (set_sign value sign, sign))"

definition bool_to_u256 :: "bool \<Rightarrow> u256" where
  "bool_to_u256 val = (if val then 1 else 0)"

definition evm_div :: "u256 \<Rightarrow> u256 \<Rightarrow> u256" where
  "evm_div a b =
     (if b \<noteq> 0 then
        if b = 1 then a
        else if b = 2 then drop_bit 1 a
        else if b = 0x20 then drop_bit 5 a
        else if b = 0x100 then drop_bit 8 a
        else if b = 0x10000 then drop_bit 16 a
        else if b = 0x1000000 then drop_bit 24 a
        else if b = 0x10000000000000000 then drop_bit 64 a
        else if b = 0x1000000000000000000000000 then drop_bit 96 a
        else if b = 0x100000000000000000000000000000000000000000000000000000000 then drop_bit 224 a
        else if b = 0x100000000000000000000000000000000000000000000000000000000000000 then drop_bit 248 a
        else a div b
      else 0)"

definition evm_mod :: "u256 \<Rightarrow> u256 \<Rightarrow> u256" where
  "evm_mod a b = (if b \<noteq> 0 then a mod b else 0)"

definition evm_sdiv :: "u256 \<Rightarrow> u256 \<Rightarrow> u256" where
  "evm_sdiv ua ub =
     (let (a, sign_a) = get_and_reset_sign ua;
          (b, sign_b) = get_and_reset_sign ub;
          least = push_bit 255 1 - 1 in
      if b = 0 then 0
      else if a = least \<and> b = NOT 0 then least
      else set_sign (a div b) (sign_a \<noteq> sign_b))"

definition evm_smod :: "u256 \<Rightarrow> u256 \<Rightarrow> u256" where
  "evm_smod ua ub =
     (let (a, sign_a) = get_and_reset_sign ua;
          b = fst (get_and_reset_sign ub) in
      if b \<noteq> 0 then set_sign (a mod b) sign_a else 0)"

definition evm_exp :: "u256 \<Rightarrow> u256 \<Rightarrow> u256" where
  "evm_exp base expon = base ^ unat expon"

definition evm_slt :: "u256 \<Rightarrow> u256 \<Rightarrow> u256" where
  "evm_slt ua ub =
     (let (a, neg_a) = get_and_reset_sign ua;
          (b, neg_b) = get_and_reset_sign ub;
          is_positive_lt = (a < b \<and> \<not> (neg_a \<or> neg_b));
          is_negative_lt = (a > b \<and> (neg_a \<and> neg_b));
          has_different_signs = (neg_a \<and> \<not> neg_b) in
      bool_to_u256 (is_positive_lt \<or> is_negative_lt \<or> has_different_signs))"

definition evm_sgt :: "u256 \<Rightarrow> u256 \<Rightarrow> u256" where
  "evm_sgt ua ub =
     (let (a, neg_a) = get_and_reset_sign ua;
          (b, neg_b) = get_and_reset_sign ub;
          is_positive_gt = (a > b \<and> \<not> (neg_a \<or> neg_b));
          is_negative_gt = (a < b \<and> (neg_a \<and> neg_b));
          has_different_signs = (\<not> neg_a \<and> neg_b) in
      bool_to_u256 (is_positive_gt \<or> is_negative_gt \<or> has_different_signs))"

definition evm_byte :: "u256 \<Rightarrow> u256 \<Rightarrow> u256" where
  "evm_byte word val =
     (if word < 32 then drop_bit (8 * (31 - unat (low_u64 word))) val AND 0xff else 0)"

text \<open>\<open>U256::try_from(x).expect(..)\<close> panics on a value of more than 256 bits.\<close>

definition u512_to_u256 :: "u512 \<Rightarrow> ('e, u256) res" where
  "u512_to_u256 x = (if 2 ^ 256 \<le> unat x then Panic else Ok (ucast x))"

definition evm_addmod :: "u256 \<Rightarrow> u256 \<Rightarrow> u256 \<Rightarrow> ('e, u256) res" where
  "evm_addmod a b c =
     (if c \<noteq> 0 then u512_to_u256 (fst (overflowing_add (ucast a :: u512) (ucast b)) mod ucast c)
      else Ok 0)"

definition evm_mulmod :: "u256 \<Rightarrow> u256 \<Rightarrow> u256 \<Rightarrow> ('e, u256) res" where
  "evm_mulmod a b c =
     (if c \<noteq> 0 then u512_to_u256 (fst (overflowing_mul (ucast a :: u512) (ucast b)) mod ucast c)
      else Ok 0)"

definition evm_signextend :: "u256 \<Rightarrow> u256 \<Rightarrow> u256" where
  "evm_signextend b number =
     (let bit_position = unat (low_u64 b * 8 + 7);
          mask = push_bit bit_position 1 - 1 in
      if bit number bit_position then number OR NOT mask else number AND mask)"

definition evm_shl :: "u256 \<Rightarrow> u256 \<Rightarrow> u256" where
  "evm_shl shift value = (if 256 \<le> shift then 0 else push_bit (unat shift) value)"

definition evm_shr :: "u256 \<Rightarrow> u256 \<Rightarrow> u256" where
  "evm_shr shift value = (if 256 \<le> shift then 0 else drop_bit (unat shift) value)"

definition evm_sar :: "u256 \<Rightarrow> u256 \<Rightarrow> u256" where
  "evm_sar shift value =
     (let hibit = 0x8000000000000000000000000000000000000000000000000000000000000000;
          sign = (value AND hibit \<noteq> 0) in
      if 256 \<le> shift then (if sign then - 1 else 0)
      else let s = unat shift; shifted = drop_bit s value in
        if sign then shifted OR push_bit (256 - s) (- 1) else shifted)"

section \<open>Unsigned operations\<close>

lemma drop_bit_div: "drop_bit n a = a div (2 ^ n :: u256)"
  by (rule drop_bit_eq_div)

lemma evm_div_eq: "evm_div a b = a div b"
  by (auto simp: evm_div_def drop_bit_div)

lemma evm_mod_eq: "evm_mod a b = (if b = 0 then 0 else a mod b)"
  by (simp add: evm_mod_def)

lemma u512_to_u256_small: "unat x < 2 ^ 256 \<Longrightarrow> \<exists>r. u512_to_u256 x = Ok r \<and> unat r = unat x"
  by (simp add: u512_to_u256_def unsigned_ucast_eq take_bit_nat_eq_self)

lemma unat_ucast_512: "unat (ucast (a :: u256) :: u512) = unat a"
  by (simp add: unsigned_ucast_eq take_bit_nat_eq_self_iff)
    (rule less_trans [OF unat_lt_pow], simp)

lemma mod_512:
  assumes "c \<noteq> (0 :: u256)"
  shows "unat (x mod ucast c :: u512) = unat x mod unat c" "unat x mod unat c < 2 ^ 256"
proof -
  have "0 < unat c" using assms by (simp add: unat_gt_0)
  then have "unat x mod unat c < unat c" by simp
  also have "\<dots> < 2 ^ 256" using unat_lt_pow [of c] by simp
  finally show "unat x mod unat c < 2 ^ 256" .
  show "unat (x mod ucast c :: u512) = unat x mod unat c"
    by (simp add: unat_mod unat_ucast_512)
qed

lemma evm_addmod_eq:
  "\<exists>r. evm_addmod a b c = Ok r \<and> unat r = (if c = 0 then 0 else (unat a + unat b) mod unat c)"
proof (cases "c = 0")
  case False
  have "unat (ucast a + ucast b :: u512) = unat a + unat b"
    using unat_lt_pow [of a] unat_lt_pow [of b]
    by (subst unat_add_no_overflow) (simp_all add: unat_ucast_512)
  with False show ?thesis
    using mod_512 [OF False, of "ucast a + ucast b"] u512_to_u256_small [of "(ucast a + ucast b) mod ucast c"]
    by (simp add: evm_addmod_def overflowing_add_def)
qed (simp add: evm_addmod_def)

lemma evm_mulmod_eq:
  "\<exists>r. evm_mulmod a b c = Ok r \<and> unat r = (if c = 0 then 0 else (unat a * unat b) mod unat c)"
proof (cases "c = 0")
  case False
  have "unat a * unat b < 2 ^ 256 * 2 ^ 256"
    using unat_lt_pow [of a] unat_lt_pow [of b] by (intro mult_strict_mono') simp_all
  then have "unat (ucast a * ucast b :: u512) = unat a * unat b"
    by (subst unat_mult_no_overflow) (simp_all add: unat_ucast_512)
  with False show ?thesis
    using mod_512 [OF False, of "ucast a * ucast b"] u512_to_u256_small [of "(ucast a * ucast b) mod ucast c"]
    by (simp add: evm_mulmod_def overflowing_mul_def)
qed (simp add: evm_mulmod_def)

section \<open>Two's complement operations\<close>

lemma set_sign_eq: "set_sign v s = (if s then - v else v)"
  by (simp add: set_sign_def overflowing_add_def flip: minus_eq_not_plus_1)

lemma bit_255: "bit (v :: u256) 255 \<longleftrightarrow> sint v < 0"
  using bit_last_iff [of v] by simp

lemma word_of_sint: "word_of_int (sint v) = (v :: u256)"
  by simp

lemma uint_word_of_int_small: "0 \<le> k \<Longrightarrow> k < 2 ^ 256 \<Longrightarrow> uint (word_of_int k :: u256) = k"
  by (simp add: unsigned_of_int take_bit_int_eq_self)

lemma abs_sint_le: "\<bar>sint (v :: u256)\<bar> \<le> 2 ^ 255"
  using sint_greater_eq [of v] sint_less [of v] by (simp add: abs_le_iff)

lemma reset_sign:
  "snd (get_and_reset_sign v) \<longleftrightarrow> sint v < 0"
  "uint (fst (get_and_reset_sign v)) = \<bar>sint v\<bar>"
  "fst (get_and_reset_sign v) = word_of_int \<bar>sint v\<bar>"
proof -
  show sgn: "snd (get_and_reset_sign v) \<longleftrightarrow> sint v < 0"
    by (simp add: get_and_reset_sign_def Let_def bit_255)
  have "fst (get_and_reset_sign v) = (if sint v < 0 then - v else v)"
    by (simp add: get_and_reset_sign_def Let_def bit_255 set_sign_eq)
  also have "\<dots> = word_of_int \<bar>sint v\<bar>"
    by (simp add: abs_if)
  finally show mag: "fst (get_and_reset_sign v) = word_of_int \<bar>sint v\<bar>" .
  show "uint (fst (get_and_reset_sign v)) = \<bar>sint v\<bar>"
    unfolding mag using abs_sint_le [of v] by (intro uint_word_of_int_small) simp_all
qed

lemma get_and_reset_sign_eq: "get_and_reset_sign v = (word_of_int \<bar>sint v\<bar>, sint v < 0)"
  by (rule prod_eqI) (simp_all add: reset_sign)

lemma sint_eq_0_iff: "sint (v :: u256) = 0 \<longleftrightarrow> v = 0"
  by (metis sint_0 word_of_sint)

lemma abs_word_eq_0_iff: "(word_of_int \<bar>sint v\<bar> :: u256) = 0 \<longleftrightarrow> v = 0" for v :: u256
  using reset_sign(2,3) [of v] sint_eq_0_iff [of v] by (metis abs_eq_0 unsigned_0 uint_0_iff)

lemma abs_word_div:
  "(word_of_int \<bar>sint a\<bar> :: u256) div word_of_int \<bar>sint b\<bar> = word_of_int (\<bar>sint a\<bar> div \<bar>sint b\<bar>)"
  "(word_of_int \<bar>sint a\<bar> :: u256) mod word_of_int \<bar>sint b\<bar> = word_of_int (\<bar>sint a\<bar> mod \<bar>sint b\<bar>)"
  for a b :: u256
  using reset_sign(2,3) [of a] reset_sign(2,3) [of b]
  by (simp_all add: word_div_def word_mod_def)

lemma evm_sdiv_eq: "evm_sdiv a b = (if b = 0 then 0 else word_of_int (sint a sdiv sint b))"
proof (cases "b = 0")
  case True
  then show ?thesis by (simp add: evm_sdiv_def get_and_reset_sign_eq Let_def)
next
  case False
  have "(word_of_int \<bar>sint b\<bar> :: u256) \<noteq> NOT 0"
  proof
    assume "(word_of_int \<bar>sint b\<bar> :: u256) = NOT 0"
    then have "\<bar>sint b\<bar> = uint (- 1 :: u256)" using reset_sign(2,3) [of b] by simp
    with abs_sint_le [of b] show False by (simp add: unsigned_minus_1_eq_mask mask_eq_exp_minus_1)
  qed
  then have "evm_sdiv a b = set_sign (word_of_int (\<bar>sint a\<bar> div \<bar>sint b\<bar>)) ((sint a < 0) \<noteq> (sint b < 0))"
    using False by (simp add: evm_sdiv_def get_and_reset_sign_eq Let_def abs_word_eq_0_iff abs_word_div)
  also have "\<dots> = word_of_int (sint a sdiv sint b)"
    using False sint_eq_0_iff [of b]
    by (auto simp: set_sign_eq signed_divide_int_def sgn_if)
  finally show ?thesis using False by simp
qed

lemma evm_smod_eq: "evm_smod a b = (if b = 0 then 0 else word_of_int (sint a smod sint b))"
proof (cases "b = 0")
  case True
  then show ?thesis by (simp add: evm_smod_def get_and_reset_sign_eq Let_def)
next
  case False
  then have "evm_smod a b = set_sign (word_of_int (\<bar>sint a\<bar> mod \<bar>sint b\<bar>)) (sint a < 0)"
    by (simp add: evm_smod_def get_and_reset_sign_eq Let_def abs_word_eq_0_iff abs_word_div)
  also have "\<dots> = word_of_int (sgn (sint a) * (\<bar>sint a\<bar> mod \<bar>sint b\<bar>))"
    by (auto simp: set_sign_eq sgn_if)
  also have "sgn (sint a) * (\<bar>sint a\<bar> mod \<bar>sint b\<bar>) = sint a smod sint b"
    by (simp add: signed_modulo_int_def)
  finally show ?thesis using False by simp
qed

lemma abs_word_less:
  "(word_of_int \<bar>sint a\<bar> :: u256) < word_of_int \<bar>sint b\<bar> \<longleftrightarrow> \<bar>sint a\<bar> < \<bar>sint b\<bar>"
  for a b :: u256
  using reset_sign(2,3) [of a] reset_sign(2,3) [of b] by (simp add: word_less_def)

lemma evm_slt_eq: "evm_slt a b = bool_to_u256 (sint a < sint b)"
  unfolding evm_slt_def get_and_reset_sign_eq Let_def prod.case abs_word_less
  by (rule arg_cong [of _ _ bool_to_u256]) linarith

lemma evm_sgt_eq: "evm_sgt a b = bool_to_u256 (sint a > sint b)"
  unfolding evm_sgt_def get_and_reset_sign_eq Let_def prod.case abs_word_less
  by (rule arg_cong [of _ _ bool_to_u256]) linarith

section \<open>Bits and bytes\<close>

lemma unat_low_u64_small: "unat (w :: u256) < 32 \<Longrightarrow> unat (low_u64 w) = unat w"
  by (simp add: low_u64_def unsigned_ucast_eq take_bit_nat_eq_self)

lemma evm_byte_eq:
  "evm_byte i val = (if unat i < 32 then ucast (to_be 32 val ! unat i) else 0)"
proof (cases "unat i < 32")
  case True
  then have "to_be 32 val ! unat i = ucast (drop_bit (8 * (31 - unat i)) val)"
    by (simp add: to_be_def rev_nth)
  moreover have "w AND 0xff = ucast (ucast w :: byte)" for w :: u256
  proof -
    have "(0xff :: u256) = mask 8" by (simp add: mask_eq_exp_minus_1)
    then have "w AND 0xff = w AND mask 8" by (rule arg_cong)
    also have "\<dots> = ucast (ucast w :: byte)"
      by (rule bit_word_eqI) (auto simp: bit_and_iff bit_ucast_iff bit_mask_iff)
    finally show ?thesis .
  qed
  ultimately show ?thesis
    using True by (simp add: evm_byte_def word_less_nat_alt unat_low_u64_small)
next
  case False
  then show ?thesis by (simp add: evm_byte_def word_less_nat_alt)
qed

lemma evm_signextend_eq:
  assumes "unat b < 32"
  shows "evm_signextend b number = signed_take_bit (8 * unat b + 7) number"
proof -
  define n where "n = 8 * unat b + 7"
  have "unat (low_u64 b * 8) = unat b * 8"
    using assms unat_mult_no_overflow [of "low_u64 b" 8] by (simp add: unat_low_u64_small)
  then have n: "unat (low_u64 b * 8 + 7) = n"
    using assms unat_add_no_overflow [of "low_u64 b * 8" 7] by (simp add: n_def)
  have m: "push_bit n 1 - 1 = (mask n :: u256)"
    by (simp add: push_bit_eq_mult mask_eq_exp_minus_1)
  have "n < 256" using assms by (simp add: n_def)
  then show ?thesis
    unfolding evm_signextend_def Let_def n m n_def [symmetric]
    by (intro bit_word_eqI)
      (auto simp: bit_signed_take_bit_iff bit_or_iff bit_and_iff bit_not_iff bit_mask_iff min_def)
qed

lemma evm_shl_eq: "evm_shl shift value = push_bit (unat shift) value"
  by (rule bit_word_eqI) (auto simp: evm_shl_def bit_push_bit_iff word_le_nat_alt)

lemma evm_shr_eq: "evm_shr shift value = drop_bit (unat shift) value"
  by (rule bit_word_eqI) (auto simp: evm_shr_def bit_drop_bit_eq word_le_nat_alt dest: bit_imp_le_length)

lemma hibit_test:
  "(value :: u256) AND 0x8000000000000000000000000000000000000000000000000000000000000000 \<noteq> 0 \<longleftrightarrow> bit value 255"
proof -
  have "(0x8000000000000000000000000000000000000000000000000000000000000000 :: u256) = push_bit 255 1"
    by (simp add: push_bit_eq_mult)
  then show ?thesis
    by (simp only: and_exp_eq_0_iff_not_bit push_bit_of_1) simp
qed

lemma evm_sar_eq: "evm_sar shift value = signed_drop_bit (unat shift) value"
  by (rule bit_word_eqI)
    (auto simp: evm_sar_def Let_def hibit_test bit_signed_drop_bit_iff bit_or_iff bit_push_bit_iff
      bit_drop_bit_eq bit_not_iff bit_mask_iff word_le_nat_alt not_le dest: bit_imp_le_length)

end
