(* ===== verification/Interpreter.thy ===== *)
theory Interpreter
  imports Gasometer Shared_Cache Evm_Memory Evm_Arith
begin

text \<open>
  The bytecode interpreter (src/evm/interpreter/mod.rs): its state, \<open>exec_instruction\<close> with one
  definition per group of match arms, \<open>step\<close>, \<open>exec\<close> and the two functions that resume it
  after a nested call or create.  The interpreter runs on the record \<open>vm_state\<close>: its own
  fields, the cache of jump destinations shared by all interpreters, and the state of the
  context.  An early return \<open>InterpreterResult::from(error)\<close> is the error outcome of the effect.
  The debug informant has no effect on the state and is left out.
\<close>

section \<open>State\<close>

definition MAX_SUB_STACK_SIZE :: nat where
  "MAX_SUB_STACK_SIZE = 1023"

datatype 'g instruction_result =
    IOk
  | UnusedGas 'g
  | JumpToPosition u256
  | JumpToSubroutine u256
  | ReturnFromSubroutine nat
  | StopExecutionNeedsReturn 'g u256 u256 bool
  | StopExecution
  | ITrap trap_kind

record interpreter_params =
  ip_space :: space
  ip_code_address :: address
  ip_code_hash :: "h256 option"
  ip_address :: address
  ip_sender :: address
  ip_original_sender :: address
  ip_gas :: u256
  ip_gas_price :: u256
  ip_value :: action_value
  ip_data :: "bytes option"
  ip_call_type :: call_type
  ip_params_type :: params_type

definition interpreter_params_from :: "action_params \<Rightarrow> interpreter_params" where
  "interpreter_params_from p = \<lparr>ip_space = ap_space p, ip_code_address = ap_code_address p,
     ip_code_hash = ap_code_hash p, ip_address = ap_address p, ip_sender = ap_sender p,
     ip_original_sender = ap_original_sender p, ip_gas = ap_gas p, ip_gas_price = ap_gas_price p,
     ip_value = ap_value p, ip_data = ap_data p, ip_call_type = ap_call_type p,
     ip_params_type = ap_params_type p\<rparr>"

datatype interpreter_result =
    Stopped
  | Done "gas_left vm_result"
  | Continue
  | Trapped trap_kind

record 'g interp =
  it_space :: space
  it_mem :: bytes
  it_params :: interpreter_params
  it_code :: bytes
  it_position :: nat
  it_return_data :: return_data
  it_do_trace :: bool
  it_done :: bool
  it_valid_jumps :: "nat set option"
  it_valid_subs :: "nat set option"
  it_gasometer :: "'g gasometer option"
  it_stack :: "u256 stack"
  it_return_stack :: "nat list"
  it_resume_output_range :: "(u256 \<times> u256) option"
  it_resume_result :: "'g instruction_result option"
  it_last_stack_ret_len :: nat

record ('g, 'l, 'c) vm_state =
  vm :: "'g interp"
  shared :: "'l memory_lru_cache"
  ctx :: 'c

type_synonym ('g, 'l, 'c, 'a) vm_eff = "(('g, 'l, 'c) vm_state, vm_error, 'a) eff"

text \<open>The functions of other crates the interpreter calls: the Keccak hash and the LRU map.\<close>

record 'l externals =
  ext_lru :: "'l lru_ops"
  keccak :: "bytes \<Rightarrow> h256"
  keccak_empty :: h256

section \<open>Access to the parts of the state\<close>

definition on_ctx :: "('c, vm_error, 'a) eff \<Rightarrow> ('g, 'l, 'c, 'a) vm_eff" where
  "on_ctx m = (\<lambda>s. case m (ctx s) of (r, c) \<Rightarrow> (r, s\<lparr>ctx := c\<rparr>))"

definition on_ctx_db :: "('c, db_error, 'a) eff \<Rightarrow> ('g, 'l, 'c, 'a) vm_eff" where
  "on_ctx_db m = (\<lambda>s. case m (ctx s) of (r, c) \<Rightarrow> (from_db_error r, s\<lparr>ctx := c\<rparr>))"

definition on_cache :: "('l memory_lru_cache, vm_error, 'a) eff \<Rightarrow> ('g, 'l, 'c, 'a) vm_eff" where
  "on_cache m = (\<lambda>s. case m (shared s) of (r, l) \<Rightarrow> (r, s\<lparr>shared := l\<rparr>))"

definition on_stack :: "(u256 stack, vm_error, 'a) eff \<Rightarrow> ('g, 'l, 'c, 'a) vm_eff" where
  "on_stack m = (\<lambda>s. case m (it_stack (vm s)) of (r, st) \<Rightarrow> (r, s\<lparr>vm := (vm s)\<lparr>it_stack := st\<rparr>\<rparr>))"

definition on_mem :: "(bytes \<Rightarrow> bytes vm_result) \<Rightarrow> ('g, 'l, 'c, unit) vm_eff" where
  "on_mem f = (\<lambda>s. case f (it_mem (vm s)) of
     Ok m \<Rightarrow> (Ok (), s\<lparr>vm := (vm s)\<lparr>it_mem := m\<rparr>\<rparr>)
   | Err e \<Rightarrow> (Err e, s)
   | Panic \<Rightarrow> (Panic, s))"

definition upd_vm :: "('g interp \<Rightarrow> 'g interp) \<Rightarrow> ('g, 'l, 'c, unit) vm_eff" where
  "upd_vm f = emodify (\<lambda>s. s\<lparr>vm := f (vm s)\<rparr>)"

definition get_vm :: "('g interp \<Rightarrow> 'a) \<Rightarrow> ('g, 'l, 'c, 'a) vm_eff" where
  "get_vm f = eget (\<lambda>s. f (vm s))"

definition get_ctx :: "('c \<Rightarrow> 'a) \<Rightarrow> ('g, 'l, 'c, 'a) vm_eff" where
  "get_ctx f = eget (\<lambda>s. f (ctx s))"

abbreviation pop :: "('g, 'l, 'c, u256) vm_eff" where
  "pop \<equiv> on_stack pop_back"

abbreviation spush :: "u256 \<Rightarrow> ('g, 'l, 'c, unit) vm_eff" where
  "spush v \<equiv> on_stack (push v)"

text \<open>\<open>expect\<close> on a result or an option.\<close>

definition expect_ok :: "'a vm_result \<Rightarrow> 'a vm_result" where
  "expect_ok r = (case r of Ok a \<Rightarrow> Ok a | _ \<Rightarrow> Panic)"

definition expect_some :: "'a option \<Rightarrow> 'a vm_result" where
  "expect_some x = (case x of Some a \<Rightarrow> Ok a | None \<Rightarrow> Panic)"

definition address_to_u256 :: "address \<Rightarrow> u256" where
  "address_to_u256 a = ucast a"

section \<open>Construction\<close>

definition interpreter_new :: "action_params \<Rightarrow> 'g::len word interp vm_result" where
  "interpreter_new params =
     rbind (expect_some (ap_code params)) (\<lambda>code.
     let p = interpreter_params_from params in
     Ok \<lparr>it_space = ip_space p, it_mem = [], it_params = p, it_code = code, it_position = 0,
         it_return_data = rd_empty, it_do_trace = True, it_done = False,
         it_valid_jumps = None, it_valid_subs = None,
         it_gasometer = (case from_u256 (ip_gas p) of Ok g \<Rightarrow> Some (gasometer_new g) | _ \<Rightarrow> None),
         it_stack = [], it_return_stack = [], it_resume_output_range = None,
         it_resume_result = None, it_last_stack_ret_len = 0\<rparr>)"

section \<open>Reading code\<close>

definition reader_read :: "nat \<Rightarrow> ('g, 'l, 'c, u256) vm_eff" where
  "reader_read no_of_bytes =
     ebind (get_vm it_position) (\<lambda>pos.
     ebind (get_vm it_code) (\<lambda>code.
     ebind (upd_vm (it_position_update (\<lambda>_. pos + no_of_bytes))) (\<lambda>_.
     ebind (elift (slice code pos (min (pos + no_of_bytes) (length code)))) (\<lambda>bs.
     if 32 < length bs then epanic else eret (from_be bs)))))"

section \<open>Instructions: control flow\<close>

definition exec_control :: "instruction \<Rightarrow> ('g, 'l, 'c, 'g instruction_result) vm_eff" where
  "exec_control i =
     (if i = JUMP then ebind pop (\<lambda>jump. eret (JumpToPosition jump))
      else if i = JUMPI then
        ebind pop (\<lambda>jump. ebind pop (\<lambda>condition.
        if condition \<noteq> 0 then eret (JumpToPosition jump) else eret IOk))
      else if i = BEGINSUB then efail InvalidSubEntry
      else if i = JUMPSUB then
        ebind (get_vm (\<lambda>v. length (it_return_stack v))) (\<lambda>n.
        if MAX_SUB_STACK_SIZE \<le> n then efail (OutOfSubStack 1 MAX_SUB_STACK_SIZE)
        else ebind pop (\<lambda>sub_destination. eret (JumpToSubroutine sub_destination)))
      else if i = RETURNSUB then
        ebind (get_vm it_return_stack) (\<lambda>rs.
        case rs of
          [] \<Rightarrow> efail (SubStackUnderflow 1 0)
        | pos # rest \<Rightarrow> ethen (upd_vm (it_return_stack_update (\<lambda>_. rest))) (eret (ReturnFromSubroutine pos)))
      else eret IOk)"

section \<open>Instructions: create and call\<close>

definition finish_create ::
    "contract_create_result + trap_kind \<Rightarrow> ('g::len word, 'l, 'c, 'g word instruction_result) vm_eff" where
  "finish_create r = (case r of
     Inl (Created a gas_left) \<Rightarrow> epanic
   | Inl (CreateReverted gas_left rd) \<Rightarrow>
       ethen (spush 0) (ethen (upd_vm (it_return_data_update (\<lambda>_. rd)))
       (ebind (elift (expect_ok (from_u256 gas_left))) (\<lambda>g. eret (UnusedGas g))))
   | Inl (CreateFailed e) \<Rightarrow> ethen (spush 0) (eret IOk)
   | Inr trap \<Rightarrow> eret (ITrap trap))"

definition exec_create ::
    "'c vm_context \<Rightarrow> instruction \<Rightarrow> 'g::len word option \<Rightarrow> ('g word, 'l, 'c, 'g word instruction_result) vm_eff" where
  "exec_create V i provided =
     ebind pop (\<lambda>endowment.
     ebind pop (\<lambda>init_off.
     ebind pop (\<lambda>init_size.
     ebind (if i = CREATE then eret FromSenderNonce
            else ebind pop (\<lambda>h. eret (FromSenderSaltAndCodeHash h))) (\<lambda>address_scheme.
     ebind (elift (expect_some provided)) (\<lambda>create_gas.
     ebind (get_ctx (cx_is_static V)) (\<lambda>static.
     if static then efail MutableCallInStaticContext else
     ethen (upd_vm (it_return_data_update (\<lambda>_. rd_empty)))
     (ebind (get_vm (\<lambda>v. ip_address (it_params v))) (\<lambda>self_address.
     ebind (on_ctx (cx_balance V self_address)) (\<lambda>b.
     ebind (get_ctx (\<lambda>c. endowment \<le> b \<and> cx_depth V c < max_depth (cx_spec V c))) (\<lambda>can_create.
     if \<not> can_create then ethen (spush 0) (eret (UnusedGas create_gas)) else
     ebind (get_vm it_mem) (\<lambda>m.
     ebind (elift (read_slice m init_off init_size)) (\<lambda>contract_code.
     ebind (on_ctx_db (cx_create V (as_u256 create_gas) endowment contract_code address_scheme))
       finish_create))))))))))))"

text \<open>Copying the output of a call into the caller's memory, also used when a call is resumed.\<close>

definition copy_output :: "bytes \<Rightarrow> u256 \<Rightarrow> u256 \<Rightarrow> return_data \<Rightarrow> bytes vm_result" where
  "copy_output m out_off out_size rd =
     rbind (writeable_slice m out_off out_size) (\<lambda>(start, n).
     rbind (rd_deref rd) (\<lambda>bs.
     Ok (overwrite m start (take (min n (length bs)) bs))))"

definition finish_call ::
    "u256 \<Rightarrow> u256 \<Rightarrow> message_call_result + trap_kind \<Rightarrow> ('g::len word, 'l, 'c, 'g word instruction_result) vm_eff" where
  "finish_call out_off out_size r = (case r of
     Inl (CallSuccess gas_left rd) \<Rightarrow>
       ethen (on_mem (\<lambda>m. copy_output m out_off out_size rd))
       (ethen (spush 1) (ethen (upd_vm (it_return_data_update (\<lambda>_. rd)))
       (ebind (elift (expect_ok (from_u256 gas_left))) (\<lambda>g. eret (UnusedGas g)))))
   | Inl (CallReverted gas_left rd) \<Rightarrow>
       ethen (on_mem (\<lambda>m. copy_output m out_off out_size rd))
       (ethen (spush 0) (ethen (upd_vm (it_return_data_update (\<lambda>_. rd)))
       (ebind (elift (expect_ok (from_u256 gas_left))) (\<lambda>g. eret (UnusedGas g)))))
   | Inl (CallFailed e) \<Rightarrow> ethen (spush 0) (eret IOk)
   | Inr trap \<Rightarrow> eret (ITrap trap))"

definition call_value :: "instruction \<Rightarrow> ('g, 'l, 'c, u256 option) vm_eff" where
  "call_value i =
     (if i = DELEGATECALL then eret None
      else if i = STATICCALL then eret (Some 0)
      else ebind pop (\<lambda>v. eret (Some v)))"

definition call_stipend_for :: "spec \<Rightarrow> u256 option \<Rightarrow> 'g::len word" where
  "call_stipend_for sp value = (case value of
     None \<Rightarrow> cost_from 0
   | Some v \<Rightarrow> if v \<noteq> 0 then cost_from (call_stipend sp) else cost_from 0)"

definition has_balance :: "'c vm_context \<Rightarrow> address \<Rightarrow> u256 option \<Rightarrow> ('g, 'l, 'c, bool) vm_eff" where
  "has_balance V a value =
     ebind (on_ctx (cx_balance V a)) (\<lambda>b.
     ebind (elift (expect_some value)) (\<lambda>v. eret (v \<le> b)))"

definition call_parties ::
    "'c vm_context \<Rightarrow> instruction \<Rightarrow> address \<Rightarrow> u256 option \<Rightarrow>
     ('g, 'l, 'c, address \<times> address \<times> bool \<times> call_type) vm_eff" where
  "call_parties V i code_address value =
     ebind (get_vm it_params) (\<lambda>p.
     if i = CALL then
       ebind (get_ctx (cx_is_static V)) (\<lambda>static.
       if static \<and> (case value of None \<Rightarrow> False | Some v \<Rightarrow> v \<noteq> 0) then efail MutableCallInStaticContext
       else ebind (has_balance V (ip_address p) value) (\<lambda>b. eret (ip_address p, code_address, b, Call)))
     else if i = CALLCODE then
       ebind (has_balance V (ip_address p) value) (\<lambda>b. eret (ip_address p, ip_address p, b, CallCode))
     else if i = DELEGATECALL then eret (ip_sender p, ip_address p, True, DelegateCall)
     else if i = STATICCALL then eret (ip_address p, code_address, True, StaticCall)
     else epanic)"

text \<open>The call itself, once its operands are read and its parties known.\<close>

definition run_call ::
    "'c vm_context \<Rightarrow> address \<Rightarrow> u256 option \<Rightarrow> u256 \<times> u256 \<Rightarrow> u256 \<times> u256 \<Rightarrow> 'g::len word \<Rightarrow>
     address \<times> address \<times> bool \<times> call_type \<Rightarrow> ('g word, 'l, 'c, 'g word instruction_result) vm_eff" where
  "run_call V code_address value inp_range out_range gas_for_call parties =
     (case parties of (sender_address, receive_address, has_bal, ct) \<Rightarrow>
     ethen (upd_vm (it_return_data_update (\<lambda>_. rd_empty)))
     (ebind (get_ctx (\<lambda>c. has_bal \<and> cx_depth V c < max_depth (cx_spec V c))) (\<lambda>can_call.
     if \<not> can_call then ethen (spush 0) (eret (UnusedGas gas_for_call)) else
     ebind (get_vm it_mem) (\<lambda>m.
     ebind (elift (read_slice m (fst inp_range) (snd inp_range))) (\<lambda>inp.
     ebind (on_ctx_db (cx_call V (as_u256 gas_for_call) sender_address receive_address value inp code_address ct))
       (\<lambda>call_result.
     ethen (upd_vm (it_resume_output_range_update (\<lambda>_. Some out_range)))
     (finish_call (fst out_range) (snd out_range) call_result)))))))"

definition exec_call ::
    "'c vm_context \<Rightarrow> instruction \<Rightarrow> 'g::len word option \<Rightarrow> ('g word, 'l, 'c, 'g word instruction_result) vm_eff" where
  "exec_call V i provided =
     ebind (get_ctx (cx_spec V)) (\<lambda>sp.
     if \<not> call_stipend sp < call_value_transfer_gas sp then epanic else
     ethen pop
     (ebind (elift (expect_some provided)) (\<lambda>provided_gas.
     ebind pop (\<lambda>code_address_word.
     ebind (eret (u256_to_address code_address_word)) (\<lambda>code_address.
     ebind (call_value i) (\<lambda>value.
     ebind pop (\<lambda>in_off. ebind pop (\<lambda>in_size.
     ebind pop (\<lambda>out_off. ebind pop (\<lambda>out_size.
     ebind (elift (u_add provided_gas (call_stipend_for sp value))) (\<lambda>call_gas.
     ebind (call_parties V i code_address value)
       (run_call V code_address value (in_off, in_size) (out_off, out_size) call_gas))))))))))))"

section \<open>Instructions: halting and logging\<close>

definition exec_halt ::
    "'c vm_context \<Rightarrow> 'g \<Rightarrow> instruction \<Rightarrow> ('g, 'l, 'c, 'g instruction_result) vm_eff" where
  "exec_halt V gas i =
     (if i = RETURN \<or> i = REVERT then
        ebind pop (\<lambda>init_off. ebind pop (\<lambda>init_size.
        eret (StopExecutionNeedsReturn gas init_off init_size (i = RETURN))))
      else if i = SUICIDE then
        ebind pop (\<lambda>a.
        ebind (get_ctx (\<lambda>c. account_start_nonce (cx_spec V c))) (\<lambda>nonce.
        ethen (on_ctx (cx_suicide V (u256_to_address a) nonce)) (eret StopExecution)))
      else eret StopExecution)"

definition exec_log :: "'c vm_context \<Rightarrow> instruction \<Rightarrow> ('g, 'l, 'c, unit) vm_eff" where
  "exec_log V i =
     ebind (elift (expect_some (log_topics i))) (\<lambda>no_of_topics.
     ebind pop (\<lambda>offset.
     ebind pop (\<lambda>sz.
     ebind (on_stack (pop_n no_of_topics)) (\<lambda>topics.
     ebind (get_vm it_mem) (\<lambda>m.
     ebind (elift (read_slice m offset sz)) (\<lambda>data.
     on_ctx (cx_log V topics data)))))))"

section \<open>Instructions: push, memory and storage\<close>

definition exec_push :: "instruction \<Rightarrow> ('g, 'l, 'c, unit) vm_eff" where
  "exec_push i =
     ebind (elift (expect_some (push_bytes i))) (\<lambda>n.
     ebind (reader_read n) spush)"

definition exec_memory :: "'l externals \<Rightarrow> instruction \<Rightarrow> ('g, 'l, 'c, unit) vm_eff" where
  "exec_memory X i =
     (if i = MLOAD then
        ebind pop (\<lambda>off. ebind (get_vm it_mem) (\<lambda>m. ebind (elift (mem_read m off)) spush))
      else if i = MSTORE then
        ebind pop (\<lambda>offset. ebind pop (\<lambda>word. on_mem (\<lambda>m. mem_write m offset word)))
      else if i = MSTORE8 then
        ebind pop (\<lambda>offset. ebind pop (\<lambda>b. on_mem (\<lambda>m. write_byte m offset b)))
      else if i = MSIZE then
        ebind (get_vm (\<lambda>v. length (it_mem v))) (\<lambda>n. spush (of_nat n))
      else
        ebind pop (\<lambda>offset. ebind pop (\<lambda>sz. ebind (get_vm it_mem) (\<lambda>m.
        ebind (elift (read_slice m offset sz)) (\<lambda>bs. spush (keccak X bs))))))"

definition exec_storage :: "'c vm_context \<Rightarrow> instruction \<Rightarrow> ('g, 'l, 'c, unit) vm_eff" where
  "exec_storage V i =
     (if i = SLOAD then
        ebind pop (\<lambda>k. ebind (on_ctx (cx_storage_at V (to_be 32 k))) spush)
      else
        ebind pop (\<lambda>k. ebind pop (\<lambda>v. on_ctx (cx_set_storage V (to_be 32 k) v))))"

section \<open>Instructions: environment\<close>

text \<open>The instructions that push one value and take no operand.\<close>

definition exec_env_value :: "'c vm_context \<Rightarrow> 'g::len word \<Rightarrow> instruction \<Rightarrow> ('g word, 'l, 'c, unit) vm_eff" where
  "exec_env_value V gas i =
     (if i = PC then ebind (get_vm it_position) (\<lambda>p. if p = 0 then epanic else spush (of_nat (p - 1)))
      else if i = GAS then spush (as_u256 gas)
      else if i = ADDRESS then ebind (get_vm (\<lambda>v. ip_address (it_params v))) (\<lambda>a. spush (address_to_u256 a))
      else if i = ORIGIN then ebind (get_vm (\<lambda>v. ip_original_sender (it_params v))) (\<lambda>a. spush (address_to_u256 a))
      else if i = CALLER then ebind (get_vm (\<lambda>v. ip_sender (it_params v))) (\<lambda>a. spush (address_to_u256 a))
      else if i = CALLVALUE then ebind (get_vm (\<lambda>v. ip_value (it_params v))) (\<lambda>x. spush (action_value_value x))
      else if i = CALLDATASIZE then
        ebind (get_vm (\<lambda>v. case ip_data (it_params v) of None \<Rightarrow> 0 | Some d \<Rightarrow> length d)) (\<lambda>n. spush (of_nat n))
      else if i = CODESIZE then ebind (get_vm (\<lambda>v. length (it_code v))) (\<lambda>n. spush (of_nat n))
      else if i = RETURNDATASIZE then
        ebind (get_vm it_return_data) (\<lambda>rd. ebind (elift (rd_len rd)) (\<lambda>n. spush (of_nat n)))
      else if i = GASPRICE then ebind (get_vm (\<lambda>v. ip_gas_price (it_params v))) spush
      else if i = COINBASE then ebind (get_ctx (\<lambda>c. env_author (cx_env V c))) (\<lambda>a. spush (address_to_u256 a))
      else if i = TIMESTAMP then ebind (get_ctx (\<lambda>c. env_timestamp (cx_env V c))) (\<lambda>t. spush (ucast t))
      else if i = NUMBER then
        ebind (get_ctx (\<lambda>c. case cx_space V c of Ethereum \<Rightarrow> env_epoch_height (cx_env V c))) (\<lambda>n. spush (ucast n))
      else if i = DIFFICULTY then ebind (get_ctx (\<lambda>c. env_difficulty (cx_env V c))) spush
      else if i = GASLIMIT then ebind (get_ctx (\<lambda>c. env_gas_limit (cx_env V c))) spush
      else ebind (get_ctx (cx_chain_id V)) (\<lambda>n. spush (ucast n)))"

definition exec_calldataload :: "('g, 'l, 'c, unit) vm_eff" where
  "exec_calldataload =
     ebind pop (\<lambda>big_id.
     ebind (get_vm (\<lambda>v. ip_data (it_params v))) (\<lambda>d.
     let i_w = low_u64 big_id; idx = unat i_w; upper = unat (i_w + 32) in
     case d of
       None \<Rightarrow> spush 0
     | Some data \<Rightarrow>
         let bound = min (length data) upper in
         if idx < bound \<and> big_id < of_nat (length data)
         then if 32 < bound - idx then epanic
              else ebind (elift (slice data idx bound)) (\<lambda>bs.
                   spush (from_be (bs @ replicate (32 - (bound - idx)) 0)))
         else spush 0))"

text \<open>The instructions that ask the context about an account or a block.\<close>

definition exec_query :: "'c vm_context \<Rightarrow> instruction \<Rightarrow> ('g, 'l, 'c, unit) vm_eff" where
  "exec_query V i =
     (if i = BALANCE then ebind pop (\<lambda>a. ebind (on_ctx (cx_balance V (u256_to_address a))) spush)
      else if i = EXTCODESIZE then
        ebind pop (\<lambda>a. ebind (on_ctx (cx_extcodesize V (u256_to_address a))) (\<lambda>len.
        spush (case len of None \<Rightarrow> 0 | Some n \<Rightarrow> ucast n)))
      else if i = EXTCODEHASH then
        ebind pop (\<lambda>a. ebind (on_ctx (cx_extcodehash V (u256_to_address a))) (\<lambda>h.
        spush (case h of None \<Rightarrow> 0 | Some x \<Rightarrow> x)))
      else if i = BLOCKHASH then
        ebind pop (\<lambda>n. ebind (on_ctx (cx_blockhash V n)) spush)
      else
        ebind (get_vm (\<lambda>v. ip_address (it_params v))) (\<lambda>a. ebind (on_ctx (cx_balance V a)) spush))"

definition exec_copy_from :: "bytes \<Rightarrow> ('g, 'l, 'c, unit) vm_eff" where
  "exec_copy_from source =
     ebind pop (\<lambda>dest_offset. ebind pop (\<lambda>source_offset. ebind pop (\<lambda>sz.
     on_mem (\<lambda>m. copy_data_to_memory m dest_offset source_offset sz source))))"

definition exec_copy :: "'c vm_context \<Rightarrow> instruction \<Rightarrow> ('g, 'l, 'c, unit) vm_eff" where
  "exec_copy V i =
     (if i = CALLDATACOPY then
        ebind (get_vm (\<lambda>v. case ip_data (it_params v) of None \<Rightarrow> [] | Some d \<Rightarrow> d)) exec_copy_from
      else if i = RETURNDATACOPY then
        ebind (get_vm it_stack) (\<lambda>st.
        ebind (elift (peek st 1)) (\<lambda>source_offset.
        ebind (elift (peek st 2)) (\<lambda>sz.
        ebind (get_vm it_return_data) (\<lambda>rd.
        ebind (elift (rd_deref rd)) (\<lambda>bs.
        if of_nat (length bs) < saturating_add source_offset sz then efail OutOfBounds
        else exec_copy_from bs)))))
      else if i = CODECOPY then ebind (get_vm it_code) exec_copy_from
      else
        ebind pop (\<lambda>a. ebind (on_ctx (cx_extcode V (u256_to_address a))) (\<lambda>code.
        exec_copy_from (case code of None \<Rightarrow> [] | Some c \<Rightarrow> c))))"

section \<open>Instructions: stack and arithmetic\<close>

definition exec_stack :: "instruction \<Rightarrow> ('g, 'l, 'c, unit) vm_eff" where
  "exec_stack i =
     (if DUP1 \<le> i \<and> i \<le> DUP16 then
        ebind (elift (expect_some (dup_position i))) (\<lambda>n.
        ebind (get_vm it_stack) (\<lambda>st. ebind (elift (peek st n)) spush))
      else if SWAP1 \<le> i \<and> i \<le> SWAP16 then
        ebind (elift (expect_some (swap_position i))) (\<lambda>n. on_stack (swap_with_top n))
      else ebind pop (\<lambda>_. eret ()))"

definition binop :: "instruction \<Rightarrow> (u256 \<Rightarrow> u256 \<Rightarrow> u256) option" where
  "binop i =
     (if i = ADD then Some (\<lambda>a b. fst (overflowing_add a b))
      else if i = MUL then Some (\<lambda>a b. fst (overflowing_mul a b))
      else if i = SUB then Some (\<lambda>a b. a - b)
      else if i = DIV then Some evm_div
      else if i = MOD then Some evm_mod
      else if i = SDIV then Some evm_sdiv
      else if i = SMOD then Some evm_smod
      else if i = EXP then Some evm_exp
      else if i = LT then Some (\<lambda>a b. bool_to_u256 (a < b))
      else if i = SLT then Some evm_slt
      else if i = GT then Some (\<lambda>a b. bool_to_u256 (a > b))
      else if i = SGT then Some evm_sgt
      else if i = EQ then Some (\<lambda>a b. bool_to_u256 (a = b))
      else if i = ANDop then Some (\<lambda>a b. a AND b)
      else if i = ORop then Some (\<lambda>a b. a OR b)
      else if i = XORop then Some (\<lambda>a b. a XOR b)
      else if i = BYTE then Some evm_byte
      else if i = SHL then Some evm_shl
      else if i = SHR then Some evm_shr
      else if i = SAR then Some evm_sar
      else None)"

definition exec_arith :: "instruction \<Rightarrow> ('g, 'l, 'c, unit) vm_eff" where
  "exec_arith i = (case binop i of
     Some f \<Rightarrow> ebind pop (\<lambda>a. ebind pop (\<lambda>b. spush (f a b)))
   | None \<Rightarrow>
       if i = NOTop then ebind pop (\<lambda>a. spush (NOT a))
       else if i = ISZERO then ebind pop (\<lambda>a. spush (bool_to_u256 (a = 0)))
       else if i = ADDMOD then
         ebind pop (\<lambda>a. ebind pop (\<lambda>b. ebind pop (\<lambda>c. ebind (elift (evm_addmod a b c)) spush)))
       else if i = MULMOD then
         ebind pop (\<lambda>a. ebind pop (\<lambda>b. ebind pop (\<lambda>c. ebind (elift (evm_mulmod a b c)) spush)))
       else if i = SIGNEXTEND then
         ebind pop (\<lambda>b.
         if b < 32 then ebind pop (\<lambda>number. spush (evm_signextend b number)) else eret ())
       else epanic)"

section \<open>All instructions\<close>

text \<open>The groups of match arms that \<open>exec_instruction\<close> is divided into.\<close>

definition control_group :: "instruction \<Rightarrow> bool" where
  "control_group i \<longleftrightarrow> i \<in> {JUMP, JUMPI, JUMPDEST, BEGINSUB, JUMPSUB, RETURNSUB}"

definition env_value_group :: "instruction \<Rightarrow> bool" where
  "env_value_group i \<longleftrightarrow> i \<in> {PC, GAS, ADDRESS, ORIGIN, CALLER, CALLVALUE, CALLDATASIZE, CODESIZE,
     RETURNDATASIZE, GASPRICE, COINBASE, TIMESTAMP, NUMBER, DIFFICULTY, GASLIMIT, CHAINID}"

definition exec_plain ::
    "'l externals \<Rightarrow> 'c vm_context \<Rightarrow> 'g::len word \<Rightarrow> instruction \<Rightarrow> ('g word, 'l, 'c, unit) vm_eff" where
  "exec_plain X V gas i =
     (if LOG0 \<le> i \<and> i \<le> LOG4 then exec_log V i
      else if is_push i then exec_push i
      else if i \<in> {MLOAD, MSTORE, MSTORE8, MSIZE, SHA3} then exec_memory X i
      else if i = SLOAD \<or> i = SSTORE then exec_storage V i
      else if env_value_group i then exec_env_value V gas i
      else if i = CALLDATALOAD then exec_calldataload
      else if i \<in> {BALANCE, EXTCODESIZE, EXTCODEHASH, BLOCKHASH, SELFBALANCE} then exec_query V i
      else if i \<in> {CALLDATACOPY, RETURNDATACOPY, CODECOPY, EXTCODECOPY} then exec_copy V i
      else if (DUP1 \<le> i \<and> i \<le> DUP16) \<or> (SWAP1 \<le> i \<and> i \<le> SWAP16) \<or> i = POP then exec_stack i
      else exec_arith i)"

definition exec_instruction ::
    "'l externals \<Rightarrow> 'c vm_context \<Rightarrow> 'g::len word \<Rightarrow> instruction \<Rightarrow> 'g word option \<Rightarrow>
     ('g word, 'l, 'c, 'g word instruction_result) vm_eff" where
  "exec_instruction X V gas i provided =
     (if control_group i then exec_control i
      else if i = CREATE \<or> i = CREATE2 then exec_create V i provided
      else if i \<in> {CALL, CALLCODE, DELEGATECALL, STATICCALL} then exec_call V i provided
      else if i \<in> {RETURN, REVERT, STOP, SUICIDE} then exec_halt V gas i
      else ethen (exec_plain X V gas i) (eret IOk))"

section \<open>One step\<close>

definition verify_instruction :: "spec \<Rightarrow> instruction_info \<Rightarrow> u256 stack \<Rightarrow> unit vm_result" where
  "verify_instruction sp ii st =
     (if \<not> has st (info_args ii) then Err (StackUnderflow (info_name ii) (info_args ii) (stack_size st))
      else if unat (stack_limit sp) < stack_size st - info_args ii + info_ret ii then
        (if info_ret ii < info_args ii then Panic
         else Err (OutOfStack (info_name ii) (info_ret ii - info_args ii) (stack_limit sp)))
      else Ok ())"

definition valid_or_none :: "(usize \<times> usize) option \<Rightarrow> (nat \<times> nat) option" where
  "valid_or_none written = (case written of
     Some (offset, sz) \<Rightarrow> if \<not> is_valid_range offset sz then None else Some (unat offset, unat sz)
   | None \<Rightarrow> None)"

definition read_pair :: "u256 stack \<Rightarrow> nat \<Rightarrow> nat \<Rightarrow> (usize \<times> usize) option vm_result" where
  "read_pair st i j =
     rbind (peek st i) (\<lambda>a. rbind (peek st j) (\<lambda>b. Ok (Some (low_u64 a, low_u64 b))))"

definition mem_written :: "instruction \<Rightarrow> u256 stack \<Rightarrow> (nat \<times> nat) option vm_result" where
  "mem_written i st =
     rbind
       (if i = MSTORE \<or> i = MLOAD then rbind (peek st 0) (\<lambda>a. Ok (Some (low_u64 a, 32)))
        else if i = MSTORE8 then rbind (peek st 0) (\<lambda>a. Ok (Some (low_u64 a, 1)))
        else if i = CALLDATACOPY \<or> i = CODECOPY \<or> i = RETURNDATACOPY then read_pair st 0 2
        else if i = EXTCODECOPY then read_pair st 1 3
        else if i = CALL \<or> i = CALLCODE then read_pair st 5 6
        else if i = DELEGATECALL \<or> i = STATICCALL then read_pair st 4 5
        else Ok None)
       (\<lambda>written. Ok (valid_or_none written))"

definition store_written :: "instruction \<Rightarrow> u256 stack \<Rightarrow> (u256 \<times> u256) option vm_result" where
  "store_written i st =
     (if i = SSTORE then rbind (peek st 0) (\<lambda>a. rbind (peek st 1) (\<lambda>b. Ok (Some (a, b)))) else Ok None)"

definition get_gasometer :: "('g, 'l, 'c, 'g gasometer) vm_eff" where
  "get_gasometer = ebind (get_vm it_gasometer) (\<lambda>g. elift (expect_some g))"

definition set_gas :: "'g \<Rightarrow> ('g, 'l, 'c, unit) vm_eff" where
  "set_gas g = upd_vm (it_gasometer_update (map_option (current_gas_update (\<lambda>_. g))))"

definition trace_next :: "'c vm_context \<Rightarrow> nat \<Rightarrow> byte \<Rightarrow> ('g::len word, 'l, 'c, unit) vm_eff" where
  "trace_next V pc opcode =
     ebind (get_vm it_do_trace) (\<lambda>t.
     if \<not> t then eret () else
     ebind get_gasometer (\<lambda>gm.
     ebind (on_ctx (\<lambda>c. case cx_trace_next_instruction V pc opcode (as_u256 (current_gas gm)) c of
              (b, c') \<Rightarrow> (Ok b, c'))) (\<lambda>b.
     upd_vm (it_do_trace_update (\<lambda>_. b)))))"

definition trace_prepare ::
    "'c vm_context \<Rightarrow> nat \<Rightarrow> byte \<Rightarrow> 'g::len word \<Rightarrow> ('g word, 'l, 'c, unit) vm_eff" where
  "trace_prepare V pc opcode cost =
     ebind (get_vm it_do_trace) (\<lambda>t.
     if \<not> t then eret () else
     ebind (get_vm it_stack) (\<lambda>st.
     ebind (elift (mem_written opcode st)) (\<lambda>mw.
     ebind (elift (store_written opcode st)) (\<lambda>sw.
     on_ctx (emodify (cx_trace_prepare_execute V pc opcode (as_u256 cost) mw sw))))))"

definition trace_done :: "'c vm_context \<Rightarrow> ('g::len word, 'l, 'c, unit) vm_eff" where
  "trace_done V =
     ebind (get_vm it_do_trace) (\<lambda>t.
     if \<not> t then eret () else
     ebind get_gasometer (\<lambda>gm.
     ebind (get_vm it_stack) (\<lambda>st.
     ebind (get_vm it_last_stack_ret_len) (\<lambda>n.
     ebind (elift (peek_top st n)) (\<lambda>top.
     ebind (get_vm it_mem) (\<lambda>m.
     on_ctx (emodify (cx_trace_executed V (as_u256 (current_gas gm)) top m))))))))"

text \<open>Fetching, metering and executing the next instruction: the \<open>None\<close> arm of \<open>step_inner\<close>.\<close>

definition charge ::
    "'g::len word instruction_requirements \<Rightarrow> ('g word, 'l, 'c, 'g word) vm_eff" where
  "charge r =
     ebind get_gasometer (\<lambda>gm.
     ebind (elift (verify_gas gm (gas_cost r))) (\<lambda>_.
     ethen (on_mem (\<lambda>m. Ok (expand m (unat (memory_required_size r)))))
     (ethen (upd_vm (it_gasometer_update (map_option (current_mem_gas_update (\<lambda>_. memory_total_gas r)))))
     (ebind (elift (u_sub (current_gas gm) (gas_cost r))) (\<lambda>left.
     ethen (set_gas left) (eret left))))))"

definition run_instruction ::
    "'l externals \<Rightarrow> 'c vm_context \<Rightarrow> nat \<Rightarrow> instruction \<Rightarrow> ('g::len word, 'l, 'c, 'g word instruction_result) vm_eff" where
  "run_instruction X V pc i =
     ebind (elift (info i)) (\<lambda>ii.
     ethen (upd_vm (it_last_stack_ret_len_update (\<lambda>_. info_ret ii)))
     (ebind (get_ctx (cx_spec V)) (\<lambda>sp.
     ebind (get_vm it_stack) (\<lambda>st.
     ebind (elift (verify_instruction sp ii st)) (\<lambda>_.
     ebind get_gasometer (\<lambda>gm.
     ebind (get_vm (\<lambda>v. of_nat (length (it_mem v)))) (\<lambda>mem_size.
     ebind (on_ctx (requirements V gm i ii st mem_size)) (\<lambda>r.
     ethen (trace_prepare V pc i (gas_cost r))
     (ebind (charge r) (\<lambda>gas.
     exec_instruction X V gas i (provide_gas r)))))))))))"

definition fetch_and_execute ::
    "'l externals \<Rightarrow> 'c vm_context \<Rightarrow> ('g::len word, 'l, 'c, 'g word instruction_result) vm_eff" where
  "fetch_and_execute X V =
     ebind (get_vm it_position) (\<lambda>pc.
     ebind (get_vm it_code) (\<lambda>code.
     if length code \<le> pc then epanic else
     ebind (eret (code ! pc)) (\<lambda>opcode.
     ethen (upd_vm (it_position_update (\<lambda>_. pc + 1)))
     (ethen (trace_next V pc opcode)
     (case from_u8 opcode of
        None \<Rightarrow> efail (BadInstruction opcode)
      | Some i \<Rightarrow> run_instruction X V pc i)))))"

definition verify_jump :: "u256 \<Rightarrow> nat set \<Rightarrow> nat vm_result" where
  "verify_jump jump_u valid_jump_destinations =
     (let jump = low_u64 jump_u in
      if unat jump \<in> valid_jump_destinations \<and> ucast jump = jump_u then Ok (unat jump)
      else Err (BadJumpDestination (unat jump)))"

definition destinations ::
    "'l externals \<Rightarrow> ('g, 'l, 'c, nat set \<times> nat set) vm_eff" where
  "destinations X =
     ebind (get_vm (\<lambda>v. ip_code_hash (it_params v))) (\<lambda>h.
     ebind (get_vm it_code) (\<lambda>code.
     on_cache (jump_and_sub_destinations (ext_lru X) (keccak_empty X) h code)))"

definition jump_destinations :: "'l externals \<Rightarrow> ('g, 'l, 'c, nat set) vm_eff" where
  "jump_destinations X =
     ebind (get_vm it_valid_jumps) (\<lambda>v. case v of
       Some js \<Rightarrow> eret js
     | None \<Rightarrow> ebind (destinations X) (\<lambda>(js, _).
                ethen (upd_vm (it_valid_jumps_update (\<lambda>_. Some js))) (eret js)))"

definition subroutine_destinations :: "'l externals \<Rightarrow> ('g, 'l, 'c, nat set) vm_eff" where
  "subroutine_destinations X =
     ebind (get_vm it_valid_subs) (\<lambda>v. case v of
       Some js \<Rightarrow> eret js
     | None \<Rightarrow> ebind (destinations X) (\<lambda>(_, js).
                ethen (upd_vm (it_valid_subs_update (\<lambda>_. Some js))) (eret js)))"

definition known_gas_left :: "('g::len word, 'l, 'c, interpreter_result) vm_eff" where
  "known_gas_left = ebind get_gasometer (\<lambda>gm. eret (Done (Ok (Known (as_u256 (current_gas gm))))))"

definition check_end :: "('g::len word, 'l, 'c, interpreter_result) vm_eff" where
  "check_end =
     ebind (get_vm (\<lambda>v. length (it_code v) \<le> it_position v)) (\<lambda>at_end.
     if at_end then known_gas_left else eret Continue)"

definition advance ::
    "'l externals \<Rightarrow> 'g::len word instruction_result \<Rightarrow> ('g word, 'l, 'c, interpreter_result) vm_eff" where
  "advance X r = (case r of
     JumpToPosition position \<Rightarrow>
       ebind (jump_destinations X) (\<lambda>js.
       ebind (elift (verify_jump position js)) (\<lambda>pos.
       ethen (upd_vm (it_position_update (\<lambda>_. pos))) check_end))
   | JumpToSubroutine position \<Rightarrow>
       ebind (subroutine_destinations X) (\<lambda>js.
       ebind (elift (verify_jump position js)) (\<lambda>pos.
       ethen (upd_vm (\<lambda>v. v\<lparr>it_return_stack := it_position v # it_return_stack v, it_position := pos + 1\<rparr>))
         check_end))
   | ReturnFromSubroutine pos \<Rightarrow> ethen (upd_vm (it_position_update (\<lambda>_. pos))) check_end
   | StopExecutionNeedsReturn gas init_off init_size apply \<Rightarrow>
       ebind (get_vm it_mem) (\<lambda>m.
       ethen (upd_vm (it_mem_update (\<lambda>_. [])))
       (ebind (elift (into_return_data m init_off init_size)) (\<lambda>data.
       eret (Done (Ok (NeedsReturn (as_u256 gas) data apply))))))
   | StopExecution \<Rightarrow> known_gas_left
   | _ \<Rightarrow> check_end)"

definition take_resume_result :: "('g, 'l, 'c, 'g instruction_result option) vm_eff" where
  "take_resume_result =
     ebind (get_vm it_resume_result) (\<lambda>r.
     ethen (upd_vm (it_resume_result_update (\<lambda>_. None))) (eret r))"

definition after_execute ::
    "'l externals \<Rightarrow> 'c vm_context \<Rightarrow> 'g::len word instruction_result \<Rightarrow> ('g word, 'l, 'c, interpreter_result) vm_eff" where
  "after_execute X V r = (case r of
     ITrap trap \<Rightarrow> eret (Trapped trap)
   | _ \<Rightarrow>
       ethen (case r of
                UnusedGas g \<Rightarrow>
                  ebind get_gasometer (\<lambda>gm.
                  ebind (elift (u_add (current_gas gm) g)) set_gas)
              | _ \<Rightarrow> eret ())
       (ethen (trace_done V) (advance X r)))"

definition step_inner ::
    "'l externals \<Rightarrow> 'c vm_context \<Rightarrow> ('g::len word, 'l, 'c, interpreter_result) vm_eff" where
  "step_inner X V =
     ebind take_resume_result (\<lambda>resumed.
     ebind (case resumed of Some r \<Rightarrow> eret r | None \<Rightarrow> fetch_and_execute X V) (\<lambda>r.
     after_execute X V r))"

text \<open>An error inside \<open>step_inner\<close> is the result \<open>Done(Err(..))\<close> of the step.\<close>

definition catch_done :: "('s, vm_error, interpreter_result) eff \<Rightarrow> ('s, vm_error, interpreter_result) eff" where
  "catch_done m = (\<lambda>s. case m s of (Err e, s') \<Rightarrow> (Ok (Done (Err e)), s') | x \<Rightarrow> x)"

definition mark_done :: "interpreter_result \<Rightarrow> ('g, 'l, 'c, interpreter_result) vm_eff" where
  "mark_done r = (case r of
     Done v \<Rightarrow> ethen (upd_vm (it_done_update (\<lambda>_. True))) (eret r)
   | _ \<Rightarrow> eret r)"

definition step ::
    "'l externals \<Rightarrow> 'c vm_context \<Rightarrow> ('g::len word, 'l, 'c, interpreter_result) vm_eff" where
  "step X V =
     ebind (get_vm id) (\<lambda>v.
     if it_done v then eret Stopped else
     ebind (case it_gasometer v of
              None \<Rightarrow> eret (Done (Err OutOfGas))
            | Some gm \<Rightarrow>
                if it_code v = [] then eret (Done (Ok (Known (as_u256 (current_gas gm)))))
                else catch_done (step_inner X V))
       mark_done)"

section \<open>Running and resuming\<close>

datatype 'g exec_trap_result =
    Return "gas_left vm_result"
  | SubCallCreate trap_kind "'g interp"

text \<open>The loop of \<open>exec\<close>; \<open>None\<close> is a run that does not return, \<open>Panic\<close> that of a stopped machine.\<close>

partial_function (option) exec ::
    "'l externals \<Rightarrow> 'c vm_context \<Rightarrow> ('g::len word, 'l, 'c) vm_state \<Rightarrow>
     (('g word exec_trap_result) vm_result \<times> ('g word, 'l, 'c) vm_state) option" where
  "exec X V s = (case step X V s of
     (Ok r, s') \<Rightarrow> (case r of
        Continue \<Rightarrow> exec X V s'
      | Done v \<Rightarrow> Some (Ok (Return v), s')
      | Trapped t \<Rightarrow> Some (Ok (SubCallCreate t (vm s')), s')
      | Stopped \<Rightarrow> Some (Panic, s'))
   | (Err e, s') \<Rightarrow> Some (Err e, s')
   | (Panic, s') \<Rightarrow> Some (Panic, s'))"

definition resume_with_output ::
    "u256 \<Rightarrow> u256 \<Rightarrow> u256 \<Rightarrow> u256 \<Rightarrow> return_data \<Rightarrow> 'g::len word interp \<Rightarrow> 'g word interp vm_result" where
  "resume_with_output flag out_off out_size gas_left rd v =
     rbind (copy_output (it_mem v) out_off out_size rd) (\<lambda>m.
     rbind (expect_ok (from_u256 gas_left)) (\<lambda>g.
     Ok (v\<lparr>it_mem := m, it_return_data := rd, it_stack := flag # it_stack v,
           it_resume_output_range := None, it_resume_result := Some (UnusedGas g)\<rparr>)))"

definition resume_call :: "'g::len word interp \<Rightarrow> message_call_result \<Rightarrow> 'g word interp vm_result" where
  "resume_call v result =
     rbind (expect_some (it_resume_output_range v)) (\<lambda>(out_off, out_size).
     (case result of
        CallSuccess gas_left rd \<Rightarrow> resume_with_output 1 out_off out_size gas_left rd v
      | CallReverted gas_left rd \<Rightarrow> resume_with_output 0 out_off out_size gas_left rd v
      | CallFailed e \<Rightarrow> Ok (v\<lparr>it_stack := 0 # it_stack v, it_resume_output_range := None,
                              it_resume_result := Some IOk\<rparr>)))"

definition resume_create :: "'g::len word interp \<Rightarrow> contract_create_result \<Rightarrow> 'g word interp vm_result" where
  "resume_create v result = (case result of
     Created a gas_left \<Rightarrow>
       if aws_space a \<noteq> it_space v then Panic
       else rbind (expect_ok (from_u256 gas_left)) (\<lambda>g.
            Ok (v\<lparr>it_stack := address_to_u256 (aws_address a) # it_stack v, it_resume_result := Some (UnusedGas g)\<rparr>))
   | CreateReverted gas_left rd \<Rightarrow>
       rbind (expect_ok (from_u256 gas_left)) (\<lambda>g.
       Ok (v\<lparr>it_stack := 0 # it_stack v, it_return_data := rd, it_resume_result := Some (UnusedGas g)\<rparr>))
   | CreateFailed e \<Rightarrow> Ok (v\<lparr>it_stack := 0 # it_stack v, it_resume_result := Some IOk\<rparr>))"

end
