(* ===== verification/Interpreter_Safety.thy ===== *)
theory Interpreter_Safety
  imports Interpreter
begin

text \<open>
  Safety of the interpreter for gas kept in \<open>usize\<close>: with a context that obeys its laws, every
  instruction that passes the stack check runs without a panic, leaves a stack of exactly the
  height its table entry announces, and stays inside the memory that was paid for.
\<close>

section \<open>Weakest preconditions of the state accessors\<close>

lemma wp_on_ctx [wp_simps]:
  "wp p (on_ctx m) Q E s = wp p m (\<lambda>a c. Q a (s\<lparr>ctx := c\<rparr>)) (\<lambda>e c. E e (s\<lparr>ctx := c\<rparr>)) (ctx s)"
  by (simp add: wp_def on_ctx_def split: prod.splits res.splits)

lemma wp_on_ctx_db [wp_simps]:
  "wp p (on_ctx_db m) Q E s =
     wp p m (\<lambda>a c. Q a (s\<lparr>ctx := c\<rparr>)) (\<lambda>e c. E (StateDbError e) (s\<lparr>ctx := c\<rparr>)) (ctx s)"
  by (simp add: wp_def on_ctx_db_def split: prod.splits res.splits)

lemma wp_on_cache [wp_simps]:
  "wp p (on_cache m) Q E s = wp p m (\<lambda>a c. Q a (s\<lparr>shared := c\<rparr>)) (\<lambda>e c. E e (s\<lparr>shared := c\<rparr>)) (shared s)"
  by (simp add: wp_def on_cache_def split: prod.splits res.splits)

lemma wp_on_stack [wp_simps]:
  "wp p (on_stack m) Q E s =
     wp p m (\<lambda>a st. Q a (s\<lparr>vm := (vm s)\<lparr>it_stack := st\<rparr>\<rparr>)) (\<lambda>e st. E e (s\<lparr>vm := (vm s)\<lparr>it_stack := st\<rparr>\<rparr>))
       (it_stack (vm s))"
  by (simp add: wp_def on_stack_def split: prod.splits res.splits)

lemma wp_on_mem [wp_simps]:
  "wp p (on_mem f) Q E s = (case f (it_mem (vm s)) of
     Ok m \<Rightarrow> Q () (s\<lparr>vm := (vm s)\<lparr>it_mem := m\<rparr>\<rparr>) | Err e \<Rightarrow> E e s | Panic \<Rightarrow> p)"
  by (simp add: wp_def on_mem_def split: res.splits)

lemma wp_upd_vm [wp_simps]: "wp p (upd_vm f) Q E s = Q () (s\<lparr>vm := f (vm s)\<rparr>)"
  by (simp add: upd_vm_def wp_simps)

lemma wp_get_vm [wp_simps]: "wp p (get_vm f) Q E s = Q (f (vm s)) s"
  by (simp add: get_vm_def wp_simps)

lemma wp_get_ctx [wp_simps]: "wp p (get_ctx f) Q E s = Q (f (ctx s)) s"
  by (simp add: get_ctx_def wp_simps)

lemma wp_swap [wp_simps]:
  "n < length st \<Longrightarrow> wp p (swap_with_top n) Q E st = Q () (st[0 := st ! n, n := st ! 0])"
  by (simp add: wp_def swap_with_top_Ok)

lemma wp_pop_n [wp_simps]:
  "n \<le> MAX_NO_OF_TOPICS \<Longrightarrow> n \<le> length st \<Longrightarrow> wp p (pop_n n) Q E st = Q (take n st) (drop n st)"
  by (simp add: wp_def pop_n_Ok)

lemma expect_simps [simp]:
  "expect_some (Some a) = Ok a" "expect_some None = Panic" "expect_ok (Ok a) = Ok a"
  by (simp_all add: expect_some_def expect_ok_def)

section \<open>The instruction groups\<close>

definition arith_ops :: "instruction list" where
  "arith_ops = [ADD, MUL, SUB, DIV, MOD, SDIV, SMOD, EXP, LT, SLT, GT, SGT, EQ, ANDop, ORop, XORop, BYTE, SHL,
     SHR, SAR, NOTop, ISZERO, ADDMOD, MULMOD, SIGNEXTEND]"

definition listed_ops :: "instruction list" where
  "listed_ops = [JUMP, JUMPI, JUMPDEST, BEGINSUB, JUMPSUB, RETURNSUB, CREATE, CREATE2, CALL, CALLCODE,
     DELEGATECALL, STATICCALL, RETURN, REVERT, STOP, SUICIDE, MLOAD, MSTORE, MSTORE8, MSIZE, SHA3, SLOAD, SSTORE,
     PC, GAS, ADDRESS, ORIGIN, CALLER, CALLVALUE, CALLDATASIZE, CODESIZE, RETURNDATASIZE, GASPRICE, COINBASE,
     TIMESTAMP, NUMBER, DIFFICULTY, GASLIMIT, CHAINID, CALLDATALOAD, BALANCE, EXTCODESIZE, EXTCODEHASH,
     BLOCKHASH, SELFBALANCE, CALLDATACOPY, RETURNDATACOPY, CODECOPY, EXTCODECOPY, POP]"

lemma groups_table:
  "list_all (\<lambda>n. (160 \<le> n \<and> n \<le> 164) \<or> (96 \<le> n \<and> n \<le> 127) \<or> (128 \<le> n \<and> n \<le> 143) \<or> (144 \<le> n \<and> n \<le> 159)
     \<or> n \<in> set (map unat listed_ops) \<or> n \<in> set (map unat arith_ops)) (map unat opcodes)"
  by (simp add: opcodes_def listed_ops_def arith_ops_def)

text \<open>Every opcode is in exactly the groups the match has arms for.\<close>

lemma opcode_cases:
  assumes "info i = Ok x"
  obtains (log) "LOG0 \<le> i \<and> i \<le> LOG4" | (push) "is_push i" | (dup) "DUP1 \<le> i \<and> i \<le> DUP16"
    | (swap) "SWAP1 \<le> i \<and> i \<le> SWAP16" | (listed) "i \<in> set listed_ops" | (arith) "i \<in> set arith_ops"
proof -
  have "i \<in> set opcodes" using assms info_iff_opcode by blast
  then have "(160 \<le> unat i \<and> unat i \<le> 164) \<or> (96 \<le> unat i \<and> unat i \<le> 127) \<or> (128 \<le> unat i \<and> unat i \<le> 143) \<or>
     (144 \<le> unat i \<and> unat i \<le> 159) \<or> unat i \<in> unat ` set listed_ops \<or> unat i \<in> unat ` set arith_ops"
    using groups_table by (auto simp: list_all_iff)
  then show ?thesis
    using that by (auto simp: is_push_def word_le_nat_alt inj_image_mem_iff [OF inj_unat])
qed

section \<open>Postconditions\<close>

text \<open>The fields a plain instruction leaves alone.\<close>

definition erase :: "'g interp \<Rightarrow> 'g interp" where
  "erase v = v\<lparr>it_stack := [], it_mem := [], it_position := 0\<rparr>"

lemma erase_simps [simp]:
  "erase (v\<lparr>it_stack := st\<rparr>) = erase v" "erase (v\<lparr>it_mem := m\<rparr>) = erase v" "erase (v\<lparr>it_position := q\<rparr>) = erase v"
  by (simp_all add: erase_def)

text \<open>The fields no instruction touches: code, parameters, meter, caches of destinations and flags.\<close>

definition erase_all :: "'g interp \<Rightarrow> 'g interp" where
  "erase_all v = (erase v)\<lparr>it_return_data := rd_empty, it_resume_output_range := None, it_return_stack := []\<rparr>"

lemma erase_all_simps [simp]:
  "erase_all (v\<lparr>it_stack := st\<rparr>) = erase_all v" "erase_all (v\<lparr>it_mem := m\<rparr>) = erase_all v"
  "erase_all (v\<lparr>it_position := q\<rparr>) = erase_all v" "erase_all (v\<lparr>it_return_data := rd\<rparr>) = erase_all v"
  "erase_all (v\<lparr>it_resume_output_range := o'\<rparr>) = erase_all v" "erase_all (v\<lparr>it_return_stack := rs\<rparr>) = erase_all v"
  by (simp_all add: erase_all_def erase_def)

lemma erase_allD: "erase v = erase w \<Longrightarrow> erase_all v = erase_all w \<and> it_return_data v = it_return_data w \<and>
    it_return_stack v = it_return_stack w"
  by (cases v; cases w) (simp add: erase_all_def erase_def)

text \<open>The gas a call or create may hand back: what it provided and the stipend for a value transfer.\<close>

definition returnable :: "spec \<Rightarrow> instruction \<Rightarrow> u256 stack \<Rightarrow> usize option \<Rightarrow> nat" where
  "returnable sp i st provided =
     (case provided of None \<Rightarrow> 0 | Some g \<Rightarrow>
        unat g + (if (i = CALL \<or> i = CALLCODE) \<and> st ! 2 \<noteq> 0 then unat (call_stipend sp) else 0))"

text \<open>What the result of an instruction says about the machine it leaves.\<close>

definition result_ok ::
    "spec \<Rightarrow> usize \<Rightarrow> instruction \<Rightarrow> usize option \<Rightarrow> usize interp \<Rightarrow> usize instruction_result \<Rightarrow> usize interp \<Rightarrow> bool" where
  "result_ok sp gas i provided v r v' = (case r of
     IOk \<Rightarrow> i \<notin> {STOP, RETURN, REVERT}
   | UnusedGas g \<Rightarrow> provides_gas i \<and> unat g \<le> returnable sp i (it_stack v) provided
   | JumpToPosition q \<Rightarrow> i = JUMP \<or> i = JUMPI
   | JumpToSubroutine q \<Rightarrow> i = JUMPSUB \<and> length (it_return_stack v) < MAX_SUB_STACK_SIZE
   | ReturnFromSubroutine q \<Rightarrow> i = RETURNSUB \<and> q \<in> set (it_return_stack v)
   | StopExecutionNeedsReturn g off sz b \<Rightarrow> g = gas \<and> (unat sz \<noteq> 0 \<longrightarrow> unat off + unat sz \<le> length (it_mem v'))
   | StopExecution \<Rightarrow> True
   | ITrap (TrapCall q) \<Rightarrow> provides_gas i \<and> unat (ap_gas q) \<le> returnable sp i (it_stack v) provided \<and>
       (\<exists>off sz. it_resume_output_range v' = Some (off, sz) \<and> (unat sz \<noteq> 0 \<longrightarrow> unat off + unat sz \<le> length (it_mem v')))
   | ITrap (TrapCreate q) \<Rightarrow> provides_gas i \<and> unat (ap_gas q) \<le> returnable sp i (it_stack v) provided)"

definition is_trap :: "'g instruction_result \<Rightarrow> bool" where
  "is_trap r \<longleftrightarrow> (case r of ITrap _ \<Rightarrow> True | _ \<Rightarrow> False)"

text \<open>Gas that fits into what was given also fits into \<open>usize\<close>.\<close>

lemma gas_left_fits:
  assumes "left \<le> as_u256 (g :: usize)"
  shows "\<exists>h :: usize. from_u256 left = Ok h \<and> unat h \<le> unat g"
proof -
  have le: "unat left \<le> unat g"
    using assms by (simp add: word_le_nat_alt unat_as_u256)
  have "LENGTH(64) \<le> 256" by simp
  then show ?thesis
  proof (cases rule: from_u256_cases [where v = left])
    case (fit a)
    with le show ?thesis by auto
  next
    case unfit
    with le unat_lt_pow [of g] show ?thesis by simp
  qed
qed

lemma copy_output_Ok:
  assumes "unat sz \<noteq> 0 \<Longrightarrow> unat off + unat sz \<le> length m" and "length m < 2 ^ 63" and "rd_ok rd"
  shows "\<exists>m'. copy_output m off sz rd = Ok m' \<and> length m' = length m"
proof (cases "unat sz = 0")
  case True
  then have "sz = 0" by (simp add: word_unat_eq_iff)
  with assms(3) show ?thesis by (simp add: copy_output_def writeable_slice_zero rd_deref_Ok)
next
  case False
  then have "writeable_slice m off sz = (Ok (unat off, unat sz) :: (nat \<times> nat) vm_result)"
    using assms by (intro writeable_slice_Ok) simp_all
  with False assms show ?thesis
    by (simp add: copy_output_def rd_deref_Ok length_overwrite)
qed

context vm_context_laws
begin

text \<open>The postcondition of steps that may also create accounts or move balances.\<close>

definition abides :: "'c \<Rightarrow> 'c \<Rightarrow> bool" where
  "abides c c' \<longleftrightarrow> J c' \<and> cx_frame V c' = cx_frame V c"

lemma stays_abides [intro]: "stays c c' \<Longrightarrow> abides c c'"
  by (simp add: stays_iff abides_def)

lemma abides_trans: "abides c c' \<Longrightarrow> abides c' c'' \<Longrightarrow> abides c c''"
  by (simp add: abides_def)

lemma abides_refl: "J c \<Longrightarrow> abides c c"
  by (simp add: abides_def)

text \<open>The instructions that may panic: the hash of the last block, and those that add to nonces and
  balances in a context that is not calm.\<close>

definition may_panic :: "instruction \<Rightarrow> u256 list \<Rightarrow> 'c \<Rightarrow> bool" where
  "may_panic i st c \<longleftrightarrow> (i = BLOCKHASH \<and> st ! 0 = - 1) \<or> (i \<in> {CREATE, CREATE2, SUICIDE} \<and> \<not> calm c)"

definition plain_post :: "('g, 'l, 'c) vm_state \<Rightarrow> nat \<Rightarrow> ('g, 'l, 'c) vm_state \<Rightarrow> bool" where
  "plain_post s n s' \<longleftrightarrow> shared s' = shared s \<and> stays (ctx s) (ctx s') \<and> erase (vm s') = erase (vm s) \<and>
     length (it_mem (vm s')) = length (it_mem (vm s)) \<and> it_position (vm s) \<le> it_position (vm s') \<and>
     length (it_stack (vm s')) = n"

definition err_post :: "('g, 'l, 'c) vm_state \<Rightarrow> ('g, 'l, 'c) vm_state \<Rightarrow> bool" where
  "err_post s s' \<longleftrightarrow> shared s' = shared s \<and> abides (ctx s) (ctx s')"

lemma stays_refl: "J c \<Longrightarrow> stays c c"
  by (simp add: stays_def)

lemmas posts = plain_post_def err_post_def stays_refl abides_refl

lemma exec_arith_wp:
  assumes c: "J (ctx s)" and i: "i \<in> set arith_ops" and x: "info i = Ok x" "info_args x \<le> length (it_stack (vm s))"
  shows "wp p (exec_arith i) (\<lambda>_. plain_post s (length (it_stack (vm s)) - info_args x + info_ret x)) (\<lambda>_. err_post s) s"
proof -
  let ?st = "it_stack (vm s)"
  show ?thesis
  proof (cases "binop i")
    case (Some f)
    have "info_args x = 2 \<and> info_ret x = 1"
      using Some x(1) by (auto simp: binop_def info_simps new_info_def split: if_splits)
    moreover then obtain a b rest where "?st = a # b # rest"
      using x(2) by (auto simp: numeral_eq_Suc Suc_le_length_iff)
    ultimately show ?thesis
      using c Some by (simp add: exec_arith_def wp_simps posts)
  next
    case None
    then have "i \<in> {NOTop, ISZERO, ADDMOD, MULMOD, SIGNEXTEND}"
      using i by (auto simp: arith_ops_def binop_def)
    then consider "i = NOTop \<or> i = ISZERO" | "i = ADDMOD \<or> i = MULMOD" | "i = SIGNEXTEND" by blast
    then show ?thesis
    proof cases
      case 1
      then have "info_args x = 1 \<and> info_ret x = 1"
        using x(1) by (auto simp: info_simps new_info_def)
      moreover then obtain a rest where "?st = a # rest"
        using x(2) by (auto simp: Suc_le_length_iff)
      ultimately show ?thesis
        using c 1 by (auto simp: exec_arith_def binop_def wp_simps posts)
    next
      case 2
      then have "info_args x = 3 \<and> info_ret x = 1"
        using x(1) by (auto simp: info_simps new_info_def)
      moreover then obtain a b d rest where "?st = a # b # d # rest"
        using x(2) by (auto simp: numeral_eq_Suc Suc_le_length_iff)
      moreover obtain r r' where "evm_addmod a b d = (Ok r :: u256 vm_result)" "evm_mulmod a b d = (Ok r' :: u256 vm_result)"
        using evm_addmod_eq evm_mulmod_eq by blast
      ultimately show ?thesis
        using c 2 by (auto simp: exec_arith_def binop_def wp_simps posts)
    next
      case 3
      then have "info_args x = 2 \<and> info_ret x = 1"
        using x(1) by (auto simp: info_simps new_info_def)
      moreover then obtain a b rest where "?st = a # b # rest"
        using x(2) by (auto simp: numeral_eq_Suc Suc_le_length_iff)
      ultimately show ?thesis
        using c 3 by (auto simp: exec_arith_def binop_def wp_simps posts)
    qed
  qed
qed

lemma exec_env_value_wp:
  assumes c: "J (ctx s)" and i: "env_value_group i" and x: "info i = Ok x"
    and pos: "0 < it_position (vm s)" and rd: "rd_ok (it_return_data (vm s))"
  shows "wp p (exec_env_value V gas i) (\<lambda>_. plain_post s (length (it_stack (vm s)) - info_args x + info_ret x)) (\<lambda>_. err_post s) s"
proof -
  have "info_args x = 0 \<and> info_ret x = 1"
    using i x unfolding env_value_group_def by (elim insertE emptyE) (auto simp: info_simps new_info_def)
  with c pos rd show ?thesis
    by (simp add: exec_env_value_def wp_simps posts rd_len_Ok)
qed

lemma exec_stack_wp:
  assumes c: "J (ctx s)" and x: "info i = Ok x" "info_args x \<le> length (it_stack (vm s))"
    and i: "(DUP1 \<le> i \<and> i \<le> DUP16) \<or> (SWAP1 \<le> i \<and> i \<le> SWAP16) \<or> i = POP"
  shows "wp p (exec_stack i) (\<lambda>_. plain_post s (length (it_stack (vm s)) - info_args x + info_ret x)) (\<lambda>_. err_post s) s"
proof -
  let ?st = "it_stack (vm s)"
  consider n where "dup_position i = Some n" "DUP1 \<le> i \<and> i \<le> DUP16"
    | n where "swap_position i = Some n" "SWAP1 \<le> i \<and> i \<le> SWAP16" "\<not> (DUP1 \<le> i \<and> i \<le> DUP16)"
    | "i = POP"
    using i by (auto simp: dup_position_def swap_position_def)
  then show ?thesis
  proof cases
    case (1 n)
    with info_dup [OF x(1) 1(1)] x(2) c show ?thesis
      by (simp add: exec_stack_def wp_simps posts)
  next
    case (2 n)
    have eq: "exec_stack i = ebind (elift (expect_some (swap_position i))) (\<lambda>n. on_stack (swap_with_top n))"
      using 2 by (simp add: exec_stack_def 2(3) del: de_Morgan_conj)
    from 2 info_swap [OF x(1) 2(1)] x(2) c show ?thesis
      by (simp add: eq wp_simps posts)
  next
    case 3
    then have "info_args x = 1 \<and> info_ret x = 0"
      using x(1) by (auto simp: info_simps new_info_def)
    moreover then obtain a rest where "?st = a # rest"
      using x(2) by (auto simp: Suc_le_length_iff)
    ultimately show ?thesis
      using c 3 by (simp add: exec_stack_def wp_simps posts)
  qed
qed

lemma exec_push_wp:
  assumes c: "J (ctx s)" and x: "info i = Ok x" and i: "is_push i"
    and pos: "it_position (vm s) \<le> length (it_code (vm s))"
  shows "wp p (exec_push i) (\<lambda>_. plain_post s (length (it_stack (vm s)) - info_args x + info_ret x)) (\<lambda>_. err_post s) s"
proof -
  obtain n where n: "push_bytes i = Some n" using i by (simp add: push_bytes_def)
  have "n \<le> 32"
    using table_push n x by (fastforce simp: list_all_iff info_Ok_iff)
  with n info_push [OF x n] c pos show ?thesis
    by (auto simp: exec_push_def reader_read_def wp_simps slice_def posts min_def)
qed

lemma touched_in_memory:
  assumes "covers n (touched i st)" and "n \<le> length m" and "(off, sz) \<in> set (touched i st)" and "unat sz \<noteq> 0"
  shows "unat off + unat sz \<le> length m"
  using assms by (fastforce simp: covers_def list_all_iff)

lemma read_slice_rwp:
  assumes "unat sz \<noteq> 0 \<Longrightarrow> unat off + unat sz \<le> length m" and "length m < 2 ^ 63"
  shows "\<exists>bs. read_slice m off sz = (Ok bs :: bytes vm_result) \<and> length bs < 2 ^ 63"
proof (cases "unat sz = 0")
  case True
  then have "sz = 0" by (simp add: word_unat_eq_iff)
  then show ?thesis by (simp add: read_slice_zero)
next
  case False
  with assms show ?thesis by (simp add: read_slice_Ok)
qed

lemma exec_memory_wp:
  assumes c: "J (ctx s)" and i: "i \<in> {MLOAD, MSTORE, MSTORE8, MSIZE, SHA3}"
    and x: "info i = Ok x" "info_args x \<le> length (it_stack (vm s))"
    and m: "covers (length (it_mem (vm s))) (touched i (it_stack (vm s)))" "length (it_mem (vm s)) < 2 ^ 63"
  shows "wp p (exec_memory X i) (\<lambda>_. plain_post s (length (it_stack (vm s)) - info_args x + info_ret x)) (\<lambda>_. err_post s) s"
proof -
  let ?st = "it_stack (vm s)"
  consider "i = MLOAD" | "i = MSTORE \<or> i = MSTORE8" | "i = MSIZE" | "i = SHA3" using i by blast
  then show ?thesis
  proof cases
    case 1
    then have "info_args x = 1 \<and> info_ret x = 1" using x(1) by (auto simp: info_simps new_info_def)
    moreover then obtain a rest where st: "?st = a # rest" using x(2) by (auto simp: Suc_le_length_iff)
    moreover from m 1 st have "unat a + 32 \<le> length (it_mem (vm s))" by (simp add: touched_def covers_def)
    moreover then have "unat (low_u64 a) = unat a" using m by (simp add: unat_low_u64)
    ultimately show ?thesis
      using c 1 by (simp add: exec_memory_def wp_simps mem_read_Ok posts)
  next
    case 2
    then have "info_args x = 2 \<and> info_ret x = 0" using x(1) by (auto simp: info_simps new_info_def)
    moreover then obtain a b rest where st: "?st = a # b # rest"
      using x(2) by (auto simp: numeral_eq_Suc Suc_le_length_iff)
    moreover from m 2 st have "unat a + (if i = MSTORE then 32 else 1) \<le> length (it_mem (vm s))"
      by (auto simp: touched_def covers_def)
    moreover then have "unat (low_u64 a) = unat a" using m by (simp add: unat_low_u64 split: if_splits)
    ultimately show ?thesis
      using c 2 by (auto simp: exec_memory_def wp_simps mem_write_Ok write_byte_Ok posts length_overwrite)
  next
    case 3
    then have "info_args x = 0 \<and> info_ret x = 1" using x(1) by (auto simp: info_simps new_info_def)
    with c 3 show ?thesis by (simp add: exec_memory_def wp_simps posts)
  next
    case 4
    then have "info_args x = 2 \<and> info_ret x = 1" using x(1) by (auto simp: info_simps new_info_def)
    moreover then obtain a b rest where st: "?st = a # b # rest"
      using x(2) by (auto simp: numeral_eq_Suc Suc_le_length_iff)
    moreover obtain bs where "read_slice (it_mem (vm s)) a b = (Ok bs :: bytes vm_result)"
      using m 4 st read_slice_rwp [of b a "it_mem (vm s)"] by (auto simp: touched_def covers_def)
    ultimately show ?thesis
      using c 4 by (simp add: exec_memory_def wp_simps posts)
  qed
qed

lemma exec_storage_wp:
  assumes c: "J (ctx s)" and i: "i = SLOAD \<or> i = SSTORE" and x: "info i = Ok x" "info_args x \<le> length (it_stack (vm s))"
  shows "wp p (exec_storage V i) (\<lambda>_. plain_post s (length (it_stack (vm s)) - info_args x + info_ret x)) (\<lambda>_. err_post s) s"
  using i
proof
  let ?st = "it_stack (vm s)"
  assume i: "i = SLOAD"
  then have "info_args x = 1 \<and> info_ret x = 1" using x(1) by (auto simp: info_simps new_info_def)
  moreover then obtain a rest where st: "?st = a # rest" using x(2) by (auto simp: Suc_le_length_iff)
  ultimately show ?thesis
    using c i by (auto simp: exec_storage_def wp_simps posts intro!: keeps_stays [OF storage_at])
next
  let ?st = "it_stack (vm s)"
  assume i: "i = SSTORE"
  then have "info_args x = 2 \<and> info_ret x = 0" using x(1) by (auto simp: info_simps new_info_def)
  moreover then obtain a b rest where st: "?st = a # b # rest"
    using x(2) by (auto simp: numeral_eq_Suc Suc_le_length_iff)
  ultimately show ?thesis
    using c i by (auto simp: exec_storage_def wp_simps posts intro!: keeps_stays [OF set_storage])
qed

lemma blockhash_wp:
  assumes "J c" and "n = - 1 \<Longrightarrow> p" and "\<And>h c'. stays c c' \<Longrightarrow> Q h c'" and "\<And>e c'. stays c c' \<Longrightarrow> E e c'"
  shows "wp p (cx_blockhash V n) Q E c"
  by (rule wp_mono [OF blockhash [OF assms(1)]]) (use assms in \<open>auto simp: stays_def\<close>)

lemma exec_query_wp:
  assumes c: "J (ctx s)" and i: "i \<in> {BALANCE, EXTCODESIZE, EXTCODEHASH, BLOCKHASH, SELFBALANCE}"
    and x: "info i = Ok x" "info_args x \<le> length (it_stack (vm s))"
    and p: "i = BLOCKHASH \<and> it_stack (vm s) ! 0 = - 1 \<Longrightarrow> p"
  shows "wp p (exec_query V i) (\<lambda>_. plain_post s (length (it_stack (vm s)) - info_args x + info_ret x)) (\<lambda>_. err_post s) s"
proof (cases "i = SELFBALANCE")
  case True
  then have "info_args x = 0 \<and> info_ret x = 1" using x(1) by (auto simp: info_simps new_info_def)
  with c True show ?thesis
    by (auto simp: exec_query_def wp_simps posts intro!: keeps_stays [OF balance])
next
  case False
  with i x(1) have "info_args x = 1 \<and> info_ret x = 1"
    by (elim insertE emptyE) (auto simp: info_simps new_info_def)
  moreover then obtain a rest where st: "it_stack (vm s) = a # rest"
    using x(2) by (auto simp: Suc_le_length_iff)
  ultimately show ?thesis
    using c i False p
    by (elim insertE emptyE) (auto simp: exec_query_def wp_simps posts
        intro!: blockhash_wp keeps_stays [OF balance] keeps_stays [OF extcodesize] keeps_stays [OF extcodehash])
qed

lemma copy_rwp:
  assumes "unat sz \<noteq> 0 \<Longrightarrow> unat d + unat sz \<le> length m" and "length m < 2 ^ 63" and "length source < 2 ^ 63"
  shows "\<exists>m'. copy_data_to_memory m d so sz source = (Ok m' :: bytes vm_result) \<and> length m' = length m"
proof (cases "unat sz = 0")
  case True
  then have "sz = 0" by (simp add: word_unat_eq_iff)
  then show ?thesis using assms by (simp add: copy_data_to_memory_zero)
next
  case False
  then have "copy_data_to_memory m d so sz source =
      (Ok (overwrite m (unat d) (padded_slice source (unat so) (unat sz))) :: bytes vm_result)"
    using assms by (intro copy_data_to_memory_eq) simp_all
  with False assms show ?thesis by (simp add: length_overwrite)
qed

text \<open>The copying instructions, whatever their source is.\<close>

lemma exec_copy_from_wp:
  assumes st: "it_stack (vm t) = d # so # sz # rest" and src: "length source < 2 ^ 63"
    and m: "unat sz \<noteq> 0 \<Longrightarrow> unat d + unat sz \<le> length (it_mem (vm t))" "length (it_mem (vm t)) < 2 ^ 63"
    and Q: "\<And>m'. length m' = length (it_mem (vm t)) \<Longrightarrow> Q () (t\<lparr>vm := (vm t)\<lparr>it_stack := rest, it_mem := m'\<rparr>\<rparr>)"
  shows "wp p (exec_copy_from source) Q E t"
proof -
  obtain m' where "copy_data_to_memory (it_mem (vm t)) d so sz source = (Ok m' :: bytes vm_result)"
    "length m' = length (it_mem (vm t))"
    using copy_rwp [OF m src] by blast
  with st Q [of m'] show ?thesis by (simp add: exec_copy_from_def wp_simps)
qed

lemma exec_copy_wp:
  assumes c: "J (ctx s)" and i: "i \<in> {CALLDATACOPY, RETURNDATACOPY, CODECOPY, EXTCODECOPY}"
    and x: "info i = Ok x" "info_args x \<le> length (it_stack (vm s))"
    and m: "covers (length (it_mem (vm s))) (touched i (it_stack (vm s)))" "length (it_mem (vm s)) < 2 ^ 63"
    and src: "rd_ok (it_return_data (vm s))" "length (it_code (vm s)) < 2 ^ 63"
      "\<And>d. ip_data (it_params (vm s)) = Some d \<Longrightarrow> length d < 2 ^ 63"
  shows "wp p (exec_copy V i) (\<lambda>_. plain_post s (length (it_stack (vm s)) - info_args x + info_ret x)) (\<lambda>_. err_post s) s"
proof (cases "i = EXTCODECOPY")
  case True
  then have a: "info_args x = 4 \<and> info_ret x = 0" using x(1) by (auto simp: info_simps new_info_def)
  then obtain a d so sz rest where st: "it_stack (vm s) = a # d # so # sz # rest"
    using x(2) by (auto simp: numeral_eq_Suc Suc_le_length_iff)
  have cov: "unat sz \<noteq> 0 \<Longrightarrow> unat d + unat sz \<le> length (it_mem (vm s))"
    using m(1) True st by (simp add: touched_def covers_def)
  have "wp p (cx_extcode V b) (\<lambda>r c'. stays (ctx s) c' \<and> (\<forall>code. r = Some code \<longrightarrow> length code < 2 ^ 63))
      (\<lambda>e c'. stays (ctx s) c') (ctx s)" for b
    using keepsD [OF extcode c] extcode_length [OF c]
    by (auto simp: wp_def stays_def split: prod.splits res.splits)
  note ext = wp_mono [OF this]
  show ?thesis
    using True a st m cov c
    by (auto simp: exec_copy_def wp_simps posts length_overwrite split: option.splits
        intro!: ext exec_copy_from_wp [where d = d and so = so and sz = sz and rest = rest])
next
  case False
  with i x(1) have a: "info_args x = 3 \<and> info_ret x = 0"
    by (elim insertE emptyE) (auto simp: info_simps new_info_def)
  then obtain d so sz rest where st: "it_stack (vm s) = d # so # sz # rest"
    using x(2) by (auto simp: numeral_eq_Suc Suc_le_length_iff)
  have cov: "unat sz \<noteq> 0 \<Longrightarrow> unat d + unat sz \<le> length (it_mem (vm s))"
    using m(1) i False st by (elim insertE emptyE) (simp_all add: touched_def covers_def)
  define n where "n = length (it_stack (vm s)) - info_args x + info_ret x"
  have via: "wp p (exec_copy_from source) (\<lambda>_. plain_post s n) (\<lambda>_. err_post s) s"
    if "length source < 2 ^ 63" for source
    using a c cov m(2) that by (intro exec_copy_from_wp [OF st]) (auto simp: posts st n_def)
  have rd: "rd_deref (it_return_data (vm s)) = (Ok (take (rd_size (it_return_data (vm s)))
      (drop (rd_offset (it_return_data (vm s))) (rd_mem (it_return_data (vm s))))) :: bytes vm_result)"
    using src(1) by (rule rd_deref_Ok)
  show ?thesis
    unfolding n_def [symmetric]
    using i False src c st
    by (elim insertE emptyE)
      (auto simp: exec_copy_def wp_simps rd posts(2,3) rd_ok_def split: option.splits intro!: via)
qed

lemma exec_calldataload_wp:
  assumes c: "J (ctx s)" and x: "info CALLDATALOAD = Ok x" "info_args x \<le> length (it_stack (vm s))"
    and d: "\<And>d. ip_data (it_params (vm s)) = Some d \<Longrightarrow> length d < 2 ^ 63"
  shows "wp p exec_calldataload (\<lambda>_. plain_post s (length (it_stack (vm s)) - info_args x + info_ret x)) (\<lambda>_. err_post s) s"
proof -
  have "info_args x = 1 \<and> info_ret x = 1" using x(1) by (auto simp: info_simps new_info_def)
  moreover then obtain a rest where st: "it_stack (vm s) = a # rest" using x(2) by (auto simp: Suc_le_length_iff)
  moreover have "min (length data) (unat (low_u64 a + 32)) - unat (low_u64 a) \<le> 32" for data :: bytes
    by (rule order_trans [of _ "unat (low_u64 a + 32) - unat (low_u64 a)"])
      (auto simp: unat_word_ariths intro!: order_trans [OF diff_le_mono [OF mod_less_eq_dividend]])
  ultimately show ?thesis
    using c by (auto simp: exec_calldataload_def Let_def wp_simps posts slice_def split: option.splits dest!: leD)
qed

lemma exec_log_wp:
  assumes c: "J (ctx s)" and i: "LOG0 \<le> i \<and> i \<le> LOG4" and x: "info i = Ok x" "info_args x \<le> length (it_stack (vm s))"
    and m: "covers (length (it_mem (vm s))) (touched i (it_stack (vm s)))" "length (it_mem (vm s)) < 2 ^ 63"
  shows "wp p (exec_log V i) (\<lambda>_. plain_post s (length (it_stack (vm s)) - info_args x + info_ret x)) (\<lambda>_. err_post s) s"
proof -
  obtain n where n: "log_topics i = Some n" using i by (simp add: log_topics_def)
  note il = info_log [OF x(1) n]
  then obtain a b rest where st: "it_stack (vm s) = a # b # rest" "n \<le> length rest"
    using x(2) by (auto simp: Suc_le_length_iff)
  have "touched i (it_stack (vm s)) = [(a, b)]"
    using log_opcodes [OF i] by (elim insertE emptyE; simp add: touched_def st)
  then obtain bs where "read_slice (it_mem (vm s)) a b = (Ok bs :: bytes vm_result)"
    using m read_slice_rwp [of b a "it_mem (vm s)"] by (auto simp: covers_def)
  with n il st c show ?thesis
    by (auto simp: exec_log_def wp_simps posts intro!: keeps_stays [OF log])
qed

lemma exec_plain_wp:
  assumes c: "J (ctx s)" and x: "info i = Ok x" "info_args x \<le> length (it_stack (vm s))"
    and m: "covers (length (it_mem (vm s))) (touched i (it_stack (vm s)))" "length (it_mem (vm s)) < 2 ^ 63"
    and src: "rd_ok (it_return_data (vm s))" "length (it_code (vm s)) < 2 ^ 63"
      "\<And>d. ip_data (it_params (vm s)) = Some d \<Longrightarrow> length d < 2 ^ 63"
    and pos: "0 < it_position (vm s)" "it_position (vm s) \<le> length (it_code (vm s))"
    and p: "i = BLOCKHASH \<and> it_stack (vm s) ! 0 = - 1 \<Longrightarrow> p"
    and i: "\<not> control_group i" "\<not> provides_gas i" "i \<notin> {RETURN, REVERT, STOP, SUICIDE}"
  shows "wp p (exec_plain X V gas i) (\<lambda>_. plain_post s (length (it_stack (vm s)) - info_args x + info_ret x)) (\<lambda>_. err_post s) s"
  using x(1)
proof (cases rule: opcode_cases)
  case log
  with exec_log_wp [OF c log x m] show ?thesis by (simp add: exec_plain_def)
next
  case push
  then have "\<not> (LOG0 \<le> i \<and> i \<le> LOG4)" by (auto simp: is_push_def word_le_nat_alt)
  with push exec_push_wp [OF c x(1) push pos(2)] show ?thesis
    by (simp add: exec_plain_def del: de_Morgan_conj)
next
  case dup
  then have "unat i \<ge> 128" "unat i \<le> 143" by (simp_all add: word_le_nat_alt)
  then have "exec_plain X V gas i = exec_stack i"
    using dup by (auto simp: exec_plain_def env_value_group_def is_push_def word_le_nat_alt)
  with exec_stack_wp [OF c x] dup show ?thesis by simp
next
  case swap
  then have "unat i \<ge> 144" "unat i \<le> 159" by (simp_all add: word_le_nat_alt)
  then have "exec_plain X V gas i = exec_stack i"
    using swap by (auto simp: exec_plain_def env_value_group_def is_push_def word_le_nat_alt)
  with exec_stack_wp [OF c x] swap show ?thesis by simp
next
  case arith
  then have "exec_plain X V gas i = exec_arith i"
    unfolding arith_ops_def set_simps
    by (elim insertE emptyE) (simp_all add: exec_plain_def env_value_group_def is_push_def word_le_nat_alt)
  with exec_arith_wp [OF c arith x] show ?thesis by simp
next
  case listed
  consider "i \<in> {MLOAD, MSTORE, MSTORE8, MSIZE, SHA3}" | "i = SLOAD \<or> i = SSTORE" | "env_value_group i"
    | "i = CALLDATALOAD" | "i \<in> {BALANCE, EXTCODESIZE, EXTCODEHASH, BLOCKHASH, SELFBALANCE}"
    | "i \<in> {CALLDATACOPY, RETURNDATACOPY, CODECOPY, EXTCODECOPY}" | "i = POP"
    using listed i unfolding listed_ops_def control_group_def provides_gas_def env_value_group_def set_simps by blast
  then show ?thesis
  proof cases
    case 1
    then have "exec_plain X V gas i = exec_memory X i"
      by (elim insertE emptyE) (simp_all add: exec_plain_def is_push_def)
    with exec_memory_wp [OF c 1 x m] show ?thesis by simp
  next
    case 2
    then have "exec_plain X V gas i = exec_storage V i"
      by (elim disjE) (simp_all add: exec_plain_def is_push_def)
    with exec_storage_wp [OF c 2 x] show ?thesis by simp
  next
    case 3
    then have "exec_plain X V gas i = exec_env_value V gas i"
      unfolding env_value_group_def
      by (elim insertE emptyE) (simp_all add: exec_plain_def env_value_group_def is_push_def)
    with exec_env_value_wp [OF c 3 x(1) pos(1) src(1)] show ?thesis by simp
  next
    case 4
    then have "exec_plain X V gas i = exec_calldataload"
      by (simp add: exec_plain_def env_value_group_def is_push_def)
    with exec_calldataload_wp [OF c] x src(3) 4 show ?thesis by simp
  next
    case 5
    then have "exec_plain X V gas i = exec_query V i"
      by (elim insertE emptyE) (simp_all add: exec_plain_def env_value_group_def is_push_def)
    with exec_query_wp [OF c 5 x p] show ?thesis by simp
  next
    case 6
    then have "exec_plain X V gas i = exec_copy V i"
      by (elim insertE emptyE) (simp_all add: exec_plain_def env_value_group_def is_push_def)
    with exec_copy_wp [OF c 6 x m src] show ?thesis by simp
  next
    case 7
    then have "exec_plain X V gas i = exec_stack i"
      by (simp add: exec_plain_def env_value_group_def is_push_def)
    with exec_stack_wp [OF c x] 7 show ?thesis by simp
  qed
qed

section \<open>All instructions\<close>

text \<open>A trap is one that the context allows, and leaves room for one more frame.\<close>

definition trap_post :: "'c \<Rightarrow> trap_kind \<Rightarrow> bool" where
  "trap_post c t \<longleftrightarrow> trap_allowed (cx_is_static V c) t \<and> cx_depth V c < max_depth (cx_spec V c)"

lemma trap_post_frame: "cx_frame V c' = cx_frame V c \<Longrightarrow> trap_post c' t = trap_post c t"
  by (simp add: trap_post_def cx_frame_def)

definition inst_post ::
    "usize \<Rightarrow> instruction \<Rightarrow> instruction_info \<Rightarrow> usize option \<Rightarrow> (usize, 'l, 'c) vm_state \<Rightarrow> usize instruction_result \<Rightarrow>
     (usize, 'l, 'c) vm_state \<Rightarrow> bool" where
  "inst_post gas i x provided s r s' \<longleftrightarrow> shared s' = shared s \<and> abides (ctx s) (ctx s') \<and>
     erase_all (vm s') = erase_all (vm s) \<and> length (it_mem (vm s')) = length (it_mem (vm s)) \<and>
     it_position (vm s) \<le> it_position (vm s') \<and> rd_ok (it_return_data (vm s')) \<and>
     set (it_return_stack (vm s')) \<subseteq> set (it_return_stack (vm s)) \<and>
     length (it_return_stack (vm s')) \<le> length (it_return_stack (vm s)) \<and>
     length (it_stack (vm s')) = length (it_stack (vm s)) - info_args x + (if is_trap r then 0 else info_ret x) \<and>
     result_ok (cx_spec V (ctx s)) gas i provided (vm s) r (vm s') \<and> (\<forall>t. r = ITrap t \<longrightarrow> trap_post (ctx s) t)"

lemma plain_inst_post:
  "plain_post s (length (it_stack (vm s)) - info_args x + info_ret x) s' \<Longrightarrow> rd_ok (it_return_data (vm s)) \<Longrightarrow>
   i \<notin> {STOP, RETURN, REVERT} \<Longrightarrow> inst_post gas i x provided s IOk s'"
  by (auto simp: plain_post_def inst_post_def result_ok_def is_trap_def dest: erase_allD)

lemma exec_control_wp:
  assumes c: "J (ctx s)" and i: "control_group i" and x: "info i = Ok x" "info_args x \<le> length (it_stack (vm s))"
    and rd: "rd_ok (it_return_data (vm s))"
  shows "wp p (exec_control i) (inst_post gas i x provided s) (\<lambda>_. err_post s) s"
proof -
  let ?st = "it_stack (vm s)"
  note defs = exec_control_def wp_simps inst_post_def err_post_def stays_refl abides_refl is_trap_def result_ok_def
  consider "i = JUMP" | "i = JUMPI" | "i = JUMPDEST" | "i = BEGINSUB" | "i = JUMPSUB" | "i = RETURNSUB"
    using i by (auto simp: control_group_def)
  then show ?thesis
  proof cases
    case 1
    then have "info_args x = 1 \<and> info_ret x = 0" using x(1) by (auto simp: info_simps new_info_def)
    moreover then obtain a rest where "?st = a # rest" using x(2) by (auto simp: Suc_le_length_iff)
    ultimately show ?thesis using c rd 1 by (simp add: defs)
  next
    case 2
    then have "info_args x = 2 \<and> info_ret x = 0" using x(1) by (auto simp: info_simps new_info_def)
    moreover then obtain a b rest where "?st = a # b # rest"
      using x(2) by (auto simp: numeral_eq_Suc Suc_le_length_iff)
    ultimately show ?thesis using c rd 2 by (simp add: defs)
  next
    case 3
    then have "info_args x = 0 \<and> info_ret x = 0" using x(1) by (auto simp: info_simps new_info_def)
    then show ?thesis using c rd 3 by (simp add: defs)
  next
    case 4
    then show ?thesis using c by (simp add: defs)
  next
    case 5
    then have "info_args x = 1 \<and> info_ret x = 0" using x(1) by (auto simp: info_simps new_info_def)
    moreover then obtain a rest where "?st = a # rest" using x(2) by (auto simp: Suc_le_length_iff)
    ultimately show ?thesis using c rd 5 by (simp add: defs)
  next
    case 6
    then have "info_args x = 0 \<and> info_ret x = 0" using x(1) by (auto simp: info_simps new_info_def)
    then show ?thesis using c rd 6 by (auto simp: defs split: list.splits)
  qed
qed

lemma suicide_wp:
  assumes "J c" and "\<not> calm c \<Longrightarrow> p"
    and "\<And>a c'. abides c c' \<Longrightarrow> Q a c'" and "\<And>e c'. abides c c' \<Longrightarrow> E e c'"
  shows "wp p (cx_suicide V a n) Q E c"
  by (rule wp_mono [OF suicide [OF assms(1)]]) (use assms in \<open>auto simp: abides_def\<close>)

lemma exec_halt_wp:
  assumes c: "J (ctx s)" and i: "i \<in> {RETURN, REVERT, STOP, SUICIDE}"
    and x: "info i = Ok x" "info_args x \<le> length (it_stack (vm s))" and rd: "rd_ok (it_return_data (vm s))"
    and m: "covers (length (it_mem (vm s))) (touched i (it_stack (vm s)))"
    and p: "i = SUICIDE \<and> \<not> calm (ctx s) \<Longrightarrow> p"
  shows "wp p (exec_halt V gas i) (inst_post gas i x provided s) (\<lambda>_. err_post s) s"
proof -
  let ?st = "it_stack (vm s)"
  note defs = exec_halt_def wp_simps inst_post_def err_post_def stays_refl abides_refl is_trap_def result_ok_def
  consider "i = RETURN \<or> i = REVERT" | "i = STOP" | "i = SUICIDE" using i by blast
  then show ?thesis
  proof cases
    case 1
    then have "info_args x = 2 \<and> info_ret x = 0" using x(1) by (auto simp: info_simps new_info_def)
    moreover then obtain a b rest where "?st = a # b # rest"
      using x(2) by (auto simp: numeral_eq_Suc Suc_le_length_iff)
    ultimately show ?thesis using c rd m 1 by (auto simp: defs touched_def covers_def)
  next
    case 2
    then have "info_args x = 0 \<and> info_ret x = 0" using x(1) by (auto simp: info_simps new_info_def)
    then show ?thesis using c rd 2 by (simp add: defs)
  next
    case 3
    then have "info_args x = 1 \<and> info_ret x = 0" using x(1) by (auto simp: info_simps new_info_def)
    moreover then obtain a rest where "?st = a # rest" using x(2) by (auto simp: Suc_le_length_iff)
    ultimately show ?thesis using c rd 3 p by (auto simp: defs intro!: suicide_wp)
  qed
qed

lemma finish_call_wp:
  fixes call_gas :: usize and Q :: "usize instruction_result \<Rightarrow> (usize, 'l, 'c) vm_state \<Rightarrow> bool"
  assumes r: "call_result_ok (as_u256 call_gas) P r"
    and m: "unat sz \<noteq> 0 \<Longrightarrow> unat off + unat sz \<le> length (it_mem (vm t))" "length (it_mem (vm t)) < 2 ^ 63"
    and U: "\<And>b rd g m'. rd_ok rd \<Longrightarrow> unat g \<le> unat call_gas \<Longrightarrow> length m' = length (it_mem (vm t)) \<Longrightarrow>
      Q (UnusedGas g) (t\<lparr>vm := (vm t)\<lparr>it_mem := m', it_stack := b # it_stack (vm t), it_return_data := rd\<rparr>\<rparr>)"
    and F: "Q IOk (t\<lparr>vm := (vm t)\<lparr>it_stack := 0 # it_stack (vm t)\<rparr>\<rparr>)"
    and T: "\<And>q. P q \<Longrightarrow> Q (ITrap (TrapCall q)) t"
  shows "wp p (finish_call off sz r) Q E t"
proof (cases r)
  case (Inr trap)
  with r T show ?thesis by (cases trap) (simp_all add: finish_call_def wp_simps)
next
  case (Inl res)
  show ?thesis
  proof (cases res)
    case (CallFailed e)
    with Inl F show ?thesis by (simp add: finish_call_def wp_simps)
  next
    case (CallSuccess left rd)
    with r Inl have rd: "left \<le> as_u256 call_gas" "rd_ok rd" by simp_all
    obtain g :: usize where "from_u256 left = Ok g" "unat g \<le> unat call_gas"
      using gas_left_fits [OF rd(1)] by blast
    moreover obtain m' where "copy_output (it_mem (vm t)) off sz rd = Ok m'" "length m' = length (it_mem (vm t))"
      using copy_output_Ok [OF m rd(2)] by blast
    ultimately show ?thesis
      using Inl CallSuccess rd U [of rd g m' 1] by (simp add: finish_call_def wp_simps)
  next
    case (CallReverted left rd)
    with r Inl have rd: "left \<le> as_u256 call_gas" "rd_ok rd" by simp_all
    obtain g :: usize where "from_u256 left = Ok g" "unat g \<le> unat call_gas"
      using gas_left_fits [OF rd(1)] by blast
    moreover obtain m' where "copy_output (it_mem (vm t)) off sz rd = Ok m'" "length m' = length (it_mem (vm t))"
      using copy_output_Ok [OF m rd(2)] by blast
    ultimately show ?thesis
      using Inl CallReverted rd U [of rd g m' 0] by (simp add: finish_call_def wp_simps)
  qed
qed

lemma finish_create_wp:
  fixes create_gas :: usize and Q :: "usize instruction_result \<Rightarrow> (usize, 'l, 'c) vm_state \<Rightarrow> bool"
  assumes r: "create_result_ok (as_u256 create_gas) P r"
    and U: "\<And>rd g. rd_ok rd \<Longrightarrow> unat g \<le> unat create_gas \<Longrightarrow>
      Q (UnusedGas g) (t\<lparr>vm := (vm t)\<lparr>it_stack := 0 # it_stack (vm t), it_return_data := rd\<rparr>\<rparr>)"
    and F: "Q IOk (t\<lparr>vm := (vm t)\<lparr>it_stack := 0 # it_stack (vm t)\<rparr>\<rparr>)"
    and T: "\<And>q. P q \<Longrightarrow> Q (ITrap (TrapCreate q)) t"
  shows "wp p (finish_create r) Q E t"
proof (cases r)
  case (Inr trap)
  with r T show ?thesis by (cases trap) (simp_all add: finish_create_def wp_simps)
next
  case (Inl res)
  show ?thesis
  proof (cases res)
    case (CreateFailed e)
    with Inl F show ?thesis by (simp add: finish_create_def wp_simps)
  next
    case (Created a left)
    with r Inl show ?thesis by simp
  next
    case (CreateReverted left rd)
    with r Inl have rd: "left \<le> as_u256 create_gas" "rd_ok rd" by simp_all
    obtain g :: usize where "from_u256 left = Ok g" "unat g \<le> unat create_gas"
      using gas_left_fits [OF rd(1)] by blast
    with rd Inl CreateReverted U [of rd g] show ?thesis
      by (simp add: finish_create_def wp_simps)
  qed
qed

lemma create_wp:
  assumes "stays c\<^sub>0 c" and "\<not> calm c\<^sub>0 \<Longrightarrow> p"
    and "\<And>r c'. abides c\<^sub>0 c' \<Longrightarrow> create_result_ok g (create_trap g v code) r \<Longrightarrow> Q r c'" and "\<And>e c'. abides c\<^sub>0 c' \<Longrightarrow> E e c'"
  shows "wp p (cx_create V g v code scheme) Q E c"
proof -
  have c: "J c" "cx_frame V c = cx_frame V c\<^sub>0" "calm c = calm c\<^sub>0"
    using assms(1) by (simp_all add: stays_iff)
  show ?thesis
    by (rule wp_mono [OF create [OF c(1)]]) (use assms c in \<open>auto simp: abides_def\<close>)
qed

lemma call_wp:
  assumes "stays c\<^sub>0 c" and "\<And>r c'. stays c\<^sub>0 c' \<Longrightarrow> call_result_ok g (call_trap g v d ct) r \<Longrightarrow> Q r c'" and "\<And>e c'. stays c\<^sub>0 c' \<Longrightarrow> E e c'"
  shows "wp p (cx_call V g a b v d k ct) Q E c"
proof -
  have "J c" using assms(1) by (simp add: stays_def)
  moreover obtain r c' where e: "cx_call V g a b v d k ct c = (r, c')" by fastforce
  ultimately have "r \<noteq> Panic \<and> stays c\<^sub>0 c'"
    using assms(1) keepsD [OF call \<open>J c\<close> e] by (simp add: stays_def)
  with assms(2,3) call_result [OF \<open>J c\<close>] e show ?thesis
    by (cases r) (simp_all add: wp_def)
qed

lemma create_trap_post:
  fixes g :: usize
  assumes "create_trap (as_u256 g) v bs q" "length bs < 2 ^ 63" "\<not> cx_is_static V c" "stays c c'"
    "cx_depth V c' < max_depth (cx_spec V c')"
  shows "trap_post c (TrapCreate q)" "unat (ap_gas q) \<le> unat g"
  using assms
  by (auto simp: create_trap_def trap_post_def trap_allowed_def params_fit_def stays_iff cx_frame_def unat_as_u256)

lemma exec_create_wp:
  assumes c: "J (ctx s)" and i: "i = CREATE \<or> i = CREATE2"
    and x: "info i = Ok x" "info_args x \<le> length (it_stack (vm s))" and pg: "provided = Some g"
    and m: "covers (length (it_mem (vm s))) (touched i (it_stack (vm s)))" "length (it_mem (vm s)) < 2 ^ 63"
    and rd: "rd_ok (it_return_data (vm s))" and p: "\<not> calm (ctx s) \<Longrightarrow> p"
  shows "wp p (exec_create V i provided) (inst_post gas i x provided s) (\<lambda>_. err_post s) s"
proof -
  note defs = exec_create_def wp_simps inst_post_def err_post_def stays_refl abides_refl is_trap_def result_ok_def
  have pi: "provides_gas i" and ret: "returnable (cx_spec V (ctx s)) i (it_stack (vm s)) provided = unat g"
    using i pg by (auto simp: provides_gas_def returnable_def)
  have args: "info_args x = (if i = CREATE then 3 else 4)" "info_ret x = 1"
    using i x(1) by (auto simp: info_simps new_info_def)
  then obtain v off sz rest where st: "it_stack (vm s) = v # off # sz # rest"
    using x(2) by (auto simp: numeral_eq_Suc Suc_le_length_iff split: if_splits)
  have st2: "\<exists>h rest'. rest = h # rest'" if "i = CREATE2"
    using that x(2) args st by (cases rest) auto
  obtain bs where bs: "read_slice (it_mem (vm s)) off sz = (Ok bs :: bytes vm_result)" "length bs < 2 ^ 63"
    using m i st read_slice_rwp [of sz off "it_mem (vm s)"] by (auto simp: touched_def covers_def)
  from i show ?thesis
  proof
    assume "i = CREATE"
    then show ?thesis
      using c pi ret args st pg rd bs m p
      by (auto simp: defs bs stays_trans unat_as_u256 create_trap_post
          intro!: keeps_stays [OF balance] create_wp [where c\<^sub>0 = "ctx s"] finish_create_wp [where create_gas = g])
  next
    assume i2: "i = CREATE2"
    with st2 obtain h rest' where "rest = h # rest'" by blast
    then show ?thesis
      using i2 c pi ret args st pg rd bs m p
      by (auto simp: defs bs stays_trans unat_as_u256 create_trap_post
          intro!: keeps_stays [OF balance] create_wp [where c\<^sub>0 = "ctx s"] finish_create_wp [where create_gas = g])
  qed
qed

text \<open>The operands of the call family: the gas, the code address, a value where there is one, and two ranges.\<close>

lemma call_operands:
  assumes "i \<in> {CALL, CALLCODE, DELEGATECALL, STATICCALL}" and "info i = Ok x" "info_args x \<le> length st"
  obtains g a v in_off in_size out_off out_size rest where
    "st = g # a # (if i = CALL \<or> i = CALLCODE then v # in_off # in_size # out_off # out_size # rest
        else in_off # in_size # out_off # out_size # rest)"
    "info_args x = length st - length rest" "info_ret x = 1"
    "touched i st = [(out_off, out_size), (in_off, in_size)]"
    "(i = CALL \<or> i = CALLCODE) \<longrightarrow> st ! 2 = v"
proof (cases "i = CALL \<or> i = CALLCODE")
  case True
  then have a: "info_args x = 7" "info_ret x = 1" using assms(2) by (auto simp: info_simps new_info_def)
  then obtain g a v in_off in_size out_off out_size rest where
    st: "st = g # a # v # in_off # in_size # out_off # out_size # rest"
    using assms(3) by (auto simp: numeral_eq_Suc Suc_le_length_iff)
  then have "touched i st = [(out_off, out_size), (in_off, in_size)]" "st ! 2 = v"
    using True by (auto simp: touched_def)
  with that [of g a v in_off in_size out_off out_size rest] st a True show ?thesis by simp
next
  case False
  with assms(1,2) have a: "info_args x = 6" "info_ret x = 1"
    by (auto simp: info_simps new_info_def)
  then obtain g a in_off in_size out_off out_size rest where
    st: "st = g # a # in_off # in_size # out_off # out_size # rest"
    using assms(3) by (auto simp: numeral_eq_Suc Suc_le_length_iff)
  then have "touched i st = [(out_off, out_size), (in_off, in_size)]"
    using False assms(1) by (auto simp: touched_def)
  with that [of g a 0 in_off in_size out_off out_size rest] st a False show ?thesis by simp
qed

definition parties_ok :: "bool \<Rightarrow> u256 option \<Rightarrow> address \<times> address \<times> bool \<times> call_type \<Rightarrow> bool" where
  "parties_ok static val r \<longleftrightarrow> (snd (snd (snd r)) = StaticCall \<or> static \<and> snd (snd (snd r)) = Call \<longrightarrow> val = Some 0)"

lemma call_parties_wp:
  assumes i: "i \<in> {CALL, CALLCODE, DELEGATECALL, STATICCALL}" and c: "J (ctx t)" and v: "i = CALL \<or> i = CALLCODE \<Longrightarrow> value \<noteq> None"
    and z: "i = STATICCALL \<Longrightarrow> value = Some 0"
    and Q: "\<And>r c'. stays (ctx t) c' \<Longrightarrow> parties_ok (cx_is_static V (ctx t)) value r \<Longrightarrow> Q r (t\<lparr>ctx := c'\<rparr>)" and E: "\<And>e c'. stays (ctx t) c' \<Longrightarrow> E e (t\<lparr>ctx := c'\<rparr>)"
  shows "wp p (call_parties V i a value) Q E t"
proof -
  have same: "parties_ok (cx_is_static V (ctx t)) value r \<Longrightarrow> Q r t" "E e t" for r e
    using Q [of "ctx t" r] E [of "ctx t" e] c by (simp_all add: stays_refl)
  show ?thesis
    using i c v z Q E same
    by (auto simp: call_parties_def has_balance_def wp_simps stays_refl parties_ok_def
        split: option.splits intro!: keeps_stays [OF balance] stays_refl)
qed

lemma call_trap_post:
  fixes cg :: usize
  assumes "call_trap (as_u256 cg) val inp ct q" "length inp < 2 ^ 63" "parties_ok (cx_is_static V c) val (a, b, h, ct)" "stays c c'"
    "cx_depth V c' < max_depth (cx_spec V c')"
  shows "trap_post c (TrapCall q)" "unat (ap_gas q) = unat cg"
  using assms
  by (auto simp: call_trap_def trap_post_def trap_allowed_def params_fit_def stays_iff cx_frame_def unat_as_u256 parties_ok_def)

lemma run_call_wp:
  fixes s :: "(usize, 'l, 'c) vm_state"
  assumes c: "stays (ctx s) c'" and pi: "provides_gas i"
    and cg: "unat cg = returnable (cx_spec V (ctx s)) i (it_stack (vm s)) provided"
    and st: "length rest = length (it_stack (vm s)) - info_args x" "info_ret x = 1"
    and r: "parties_ok (cx_is_static V (ctx s)) val parties"
    and m: "length (it_mem (vm s)) < 2 ^ 63"
      "list_all (\<lambda>(off, sz). unat sz \<noteq> 0 \<longrightarrow> unat off + unat sz \<le> length (it_mem (vm s))) [inr, outr]"
  shows "wp p (run_call V a val inr outr cg parties) (inst_post gas i x provided s) (\<lambda>_. err_post s)
     (s\<lparr>vm := (vm s)\<lparr>it_stack := rest\<rparr>, ctx := c'\<rparr>)"
proof -
  obtain inp where inp: "read_slice (it_mem (vm s)) (fst inr) (snd inr) = (Ok inp :: bytes vm_result)" "length inp < 2 ^ 63"
    using m read_slice_rwp [of "snd inr" "fst inr" "it_mem (vm s)"] by (auto split: prod.splits)
  have out: "unat (snd outr) \<noteq> 0 \<Longrightarrow> unat (fst outr) + unat (snd outr) \<le> length (it_mem (vm s))"
    using m by (auto split: prod.splits)
  obtain oo os where outr: "outr = (oo, os)" by fastforce
  have "i \<noteq> STOP" "i \<noteq> RETURN" "i \<noteq> REVERT" using pi by (auto simp: provides_gas_def)
  with c pi cg st inp r m(1) out outr show ?thesis
    by (auto simp: run_call_def wp_simps inst_post_def err_post_def is_trap_def result_ok_def unat_as_u256 call_trap_post
        split: prod.splits intro!: call_wp [where c\<^sub>0 = "ctx s"] finish_call_wp [where call_gas = cg])
qed

text \<open>The gas of the call, stipend included, is what the instruction may get back.\<close>

lemma call_gas_Ok:
  assumes i: "i \<in> {CALL, CALLCODE, DELEGATECALL, STATICCALL}" and pg: "provided = Some g"
    and fit: "returnable sp i st provided < 2 ^ 64"
    and val: "val = (if i = DELEGATECALL then None else if i = STATICCALL then Some 0 else Some v)"
    and v: "(i = CALL \<or> i = CALLCODE) \<longrightarrow> st ! 2 = v"
  shows "u_add g (call_stipend_for sp val) = (Ok (g + call_stipend_for sp val) :: usize vm_result)"
    and "unat (g + call_stipend_for sp val) = returnable sp i st provided"
proof -
  have "unat (call_stipend_for sp val :: usize) =
      (if (i = CALL \<or> i = CALLCODE) \<and> v \<noteq> 0 then unat (call_stipend sp) else 0)"
    using i by (auto simp: call_stipend_for_def val unat_cost_from)
  then have s: "unat g + unat (call_stipend_for sp val :: usize) = returnable sp i st provided"
    using v pg by (auto simp: returnable_def)
  with fit show "u_add g (call_stipend_for sp val) = (Ok (g + call_stipend_for sp val) :: usize vm_result)"
    by (simp add: u_add_def)
  from s fit show "unat (g + call_stipend_for sp val) = returnable sp i st provided"
    by (simp add: unat_add_no_overflow)
qed

lemma exec_call_wp:
  fixes s :: "(usize, 'l, 'c) vm_state"
  assumes c: "J (ctx s)" and i: "i \<in> {CALL, CALLCODE, DELEGATECALL, STATICCALL}"
    and x: "info i = Ok x" "info_args x \<le> length (it_stack (vm s))" and pg: "provided = Some g"
    and fit: "returnable (cx_spec V (ctx s)) i (it_stack (vm s)) provided < 2 ^ 64"
    and m: "covers (length (it_mem (vm s))) (touched i (it_stack (vm s)))" "length (it_mem (vm s)) < 2 ^ 63"
  shows "wp p (exec_call V i provided) (inst_post gas i x provided s) (\<lambda>_. err_post s) s"
proof -
  have sp: "call_stipend (cx_spec V (ctx s)) < call_value_transfer_gas (cx_spec V (ctx s))"
    using spec_law [OF c] by (simp add: spec_ok_def)
  have pi: "provides_gas i" using i by (auto simp: provides_gas_def)
  from i x obtain gg a v in_off in_size out_off out_size rest where
    st: "it_stack (vm s) = gg # a # (if i = CALL \<or> i = CALLCODE then v # in_off # in_size # out_off # out_size # rest
        else in_off # in_size # out_off # out_size # rest)"
    and args: "info_args x = length (it_stack (vm s)) - length rest" "info_ret x = 1"
    and t: "touched i (it_stack (vm s)) = [(out_off, out_size), (in_off, in_size)]"
    and v: "(i = CALL \<or> i = CALLCODE) \<longrightarrow> it_stack (vm s) ! 2 = v"
    by (rule call_operands)
  define val where "val = (if i = DELEGATECALL then None else if i = STATICCALL then Some 0 else Some v)"
  note cg = call_gas_Ok [OF i pg fit val_def v]
  have rest: "length rest = length (it_stack (vm s)) - info_args x"
    using args(1) x(2) st by (auto split: if_splits)
  have tail: "wp p (run_call V (u256_to_address a) val (in_off, in_size) (out_off, out_size)
      (g + call_stipend_for (cx_spec V (ctx s)) val) r) (inst_post gas i x provided s) (\<lambda>_. err_post s)
      (s\<lparr>vm := (vm s)\<lparr>it_stack := rest\<rparr>, ctx := c'\<rparr>)" if "stays (ctx s) c'" "parties_ok (cx_is_static V (ctx s)) val r" for r c'
    using m t by (intro run_call_wp [OF that(1) pi cg(2) rest args(2) that(2) m(2)]) (simp add: covers_def)
  have parties: "wp p (call_parties V i (u256_to_address a) val)
      (\<lambda>r. wp p (run_call V (u256_to_address a) val (in_off, in_size) (out_off, out_size)
        (g + call_stipend_for (cx_spec V (ctx s)) val) r) (inst_post gas i x provided s) (\<lambda>_. err_post s))
      (\<lambda>_. err_post s) (s\<lparr>vm := (vm s)\<lparr>it_stack := rest\<rparr>\<rparr>)"
    by (rule call_parties_wp [OF i]) (use c tail in \<open>auto simp: val_def err_post_def\<close>)
  show ?thesis
    using sp parties i pg cg(1) st
    unfolding exec_call_def call_value_def
    by (auto simp: wp_simps val_def)
qed

text \<open>Everything an instruction needs of the machine it runs on.\<close>

definition ready :: "instruction \<Rightarrow> instruction_info \<Rightarrow> usize option \<Rightarrow> (usize, 'l, 'c) vm_state \<Rightarrow> bool" where
  "ready i x provided s \<longleftrightarrow> J (ctx s) \<and> info i = (Ok x :: instruction_info vm_result) \<and> info_args x \<le> length (it_stack (vm s)) \<and>
     covers (length (it_mem (vm s))) (touched i (it_stack (vm s))) \<and> length (it_mem (vm s)) < 2 ^ 63 \<and>
     rd_ok (it_return_data (vm s)) \<and> length (it_code (vm s)) < 2 ^ 63 \<and>
     (\<forall>d. ip_data (it_params (vm s)) = Some d \<longrightarrow> length d < 2 ^ 63) \<and>
     0 < it_position (vm s) \<and> it_position (vm s) \<le> length (it_code (vm s)) \<and>
     (provided \<noteq> None \<longleftrightarrow> provides_gas i) \<and>
     returnable (cx_spec V (ctx s)) i (it_stack (vm s)) provided < 2 ^ 64"

lemma exec_instruction_wp:
  assumes r: "ready i x provided s" and p: "may_panic i (it_stack (vm s)) (ctx s) \<Longrightarrow> p"
  shows "wp p (exec_instruction X V gas i provided) (inst_post gas i x provided s) (\<lambda>_. err_post s) s"
proof -
  have c: "J (ctx s)" and x: "info i = (Ok x :: instruction_info vm_result)" "info_args x \<le> length (it_stack (vm s))"
    and m: "covers (length (it_mem (vm s))) (touched i (it_stack (vm s)))" "length (it_mem (vm s)) < 2 ^ 63"
    and rd: "rd_ok (it_return_data (vm s))" and src: "length (it_code (vm s)) < 2 ^ 63"
      "\<And>d. ip_data (it_params (vm s)) = Some d \<Longrightarrow> length d < 2 ^ 63"
    and pos: "0 < it_position (vm s)" "it_position (vm s) \<le> length (it_code (vm s))"
    and prov: "provided \<noteq> None \<longleftrightarrow> provides_gas i"
    and fit: "returnable (cx_spec V (ctx s)) i (it_stack (vm s)) provided < 2 ^ 64"
    using r by (auto simp: ready_def)
  consider "control_group i" | "i = CREATE \<or> i = CREATE2" | "i \<in> {CALL, CALLCODE, DELEGATECALL, STATICCALL}"
    | "i \<in> {RETURN, REVERT, STOP, SUICIDE}"
    | "\<not> control_group i" "\<not> provides_gas i" "i \<notin> {RETURN, REVERT, STOP, SUICIDE}"
    by (auto simp: provides_gas_def)
  then show ?thesis
  proof cases
    case 1
    with exec_control_wp [OF c 1 x rd] show ?thesis by (simp add: exec_instruction_def)
  next
    case 2
    then obtain g where g: "provided = Some g" using prov by (auto simp: provides_gas_def)
    have "exec_instruction X V gas i provided = exec_create V i provided"
      using 2 by (auto simp: exec_instruction_def control_group_def)
    with exec_create_wp [OF c 2 x g m rd] p 2 show ?thesis by (auto simp: may_panic_def)
  next
    case 3
    then obtain g where g: "provided = Some g" using prov by (auto simp: provides_gas_def)
    have "exec_instruction X V gas i provided = exec_call V i provided"
      using 3 by (auto simp: exec_instruction_def control_group_def)
    with exec_call_wp [OF c 3 x g fit m] show ?thesis by simp
  next
    case 4
    then have "exec_instruction X V gas i provided = exec_halt V gas i"
      by (auto simp: exec_instruction_def control_group_def)
    with exec_halt_wp [OF c 4 x rd m(1)] p show ?thesis by (auto simp: may_panic_def)
  next
    case 5
    then have "exec_instruction X V gas i provided = ethen (exec_plain X V gas i) (eret IOk)"
      by (auto simp: exec_instruction_def provides_gas_def)
    moreover have "wp p (ethen (exec_plain X V gas i) (eret IOk)) (inst_post gas i x provided s) (\<lambda>_. err_post s) s"
      unfolding wp_ebind
      by (rule wp_mono [OF exec_plain_wp [OF c x m rd src pos _ 5]])
        (use rd 5 p in \<open>auto simp: wp_basic may_panic_def intro: plain_inst_post\<close>)
    ultimately show ?thesis by simp
  qed
qed

end

end
