(* ===== verification/Interpreter_Run.thy ===== *)
theory Interpreter_Run
  imports Interpreter_Safety
begin

text \<open>
  Running the interpreter with gas kept in \<open>usize\<close>: the invariant of a machine between two
  steps, what a step does to it and to the gas, and that a run returns.  A machine that stops at
  a nested call or create is \<open>suspended\<close>; resuming it with a result that hands back no more gas
  than it gave gives a machine that satisfies the invariant again.
\<close>

section \<open>The invariant\<close>

definition interp_core :: "spec \<Rightarrow> usize interp \<Rightarrow> bool" where
  "interp_core sp v \<longleftrightarrow> \<not> it_done v \<and> it_code v \<noteq> [] \<and>
     length (it_mem v) < 2 ^ 37 \<and>
     (\<exists>gm. it_gasometer v = Some gm \<and> mem_gas_ok sp gm (of_nat (length (it_mem v)))) \<and>
     rd_ok (it_return_data v) \<and> length (it_code v) < 2 ^ 63 \<and>
     (\<forall>d. ip_data (it_params v) = Some d \<longrightarrow> length d < 2 ^ 63) \<and>
     length (it_return_stack v) \<le> MAX_SUB_STACK_SIZE"

definition gas_now :: "usize interp \<Rightarrow> nat" where
  "gas_now v = (case it_gasometer v of None \<Rightarrow> 0 | Some gm \<Rightarrow> unat (current_gas gm))"

text \<open>The gas of a machine, with the gas a finished nested call has yet to hand back.\<close>

definition gas_total :: "usize interp \<Rightarrow> nat" where
  "gas_total v = gas_now v + (case it_resume_result v of Some (UnusedGas g) \<Rightarrow> unat g | _ \<Rightarrow> 0)"

definition interp_ok :: "spec \<Rightarrow> usize interp \<Rightarrow> bool" where
  "interp_ok sp v \<longleftrightarrow> interp_core sp v \<and> length (it_stack v) \<le> unat (stack_limit sp) \<and>
     (case it_resume_result v of
        None \<Rightarrow> it_position v < length (it_code v)
      | Some IOk \<Rightarrow> it_last_stack_ret_len v \<le> length (it_stack v)
      | Some (UnusedGas g) \<Rightarrow> it_last_stack_ret_len v \<le> length (it_stack v) \<and> gas_total v < 2 ^ 64
      | _ \<Rightarrow> False)"

text \<open>A machine waiting for the result of a frame that was given \<open>g\<close> gas.\<close>

definition suspended :: "spec \<Rightarrow> trap_kind \<Rightarrow> usize interp \<Rightarrow> bool" where
  "suspended sp t v \<longleftrightarrow> interp_core sp v \<and> it_resume_result v = None \<and>
     length (it_stack v) < unat (stack_limit sp) \<and> it_last_stack_ret_len v = 1 \<and>
     (case t of
        TrapCall q \<Rightarrow> gas_now v + unat (ap_gas q) < 2 ^ 64 \<and>
          (\<exists>off sz. it_resume_output_range v = Some (off, sz) \<and>
             (unat sz \<noteq> 0 \<longrightarrow> unat off + unat sz \<le> length (it_mem v)))
      | TrapCreate q \<Rightarrow> gas_now v + unat (ap_gas q) < 2 ^ 64)"

primrec trap_gas :: "trap_kind \<Rightarrow> nat" where
  "trap_gas (TrapCall q) = unat (ap_gas q)"
| "trap_gas (TrapCreate q) = unat (ap_gas q)"

text \<open>The code of the machine is one known under its hash.\<close>

definition hash_known :: "(h256 \<Rightarrow> bytes \<Rightarrow> bool) \<Rightarrow> 'g interp \<Rightarrow> bool" where
  "hash_known codes v \<longleftrightarrow> (\<forall>h. ip_code_hash (it_params v) = Some h \<longrightarrow> codes h (it_code v))"

section \<open>Fields that instructions keep\<close>

lemma erase_all_fields:
  assumes "erase_all v = erase_all w"
  shows "it_code v = it_code w" "it_params v = it_params w" "it_gasometer v = it_gasometer w"
    "it_valid_jumps v = it_valid_jumps w" "it_valid_subs v = it_valid_subs w" "it_done v = it_done w"
    "it_last_stack_ret_len v = it_last_stack_ret_len w" "it_resume_result v = it_resume_result w"
    "it_space v = it_space w"
  using assms by (cases v; cases w; simp add: erase_all_def erase_def)+

lemma vm_state_same [simp]: "s\<lparr>ctx := ctx s\<rparr> = (s :: ('g, 'l, 'c) vm_state)" "s\<lparr>vm := vm s\<rparr> = s"
  by simp_all

lemma do_trace_same [simp]: "v\<lparr>it_do_trace := it_do_trace v\<rparr> = (v :: 'g interp)"
  by simp

lemma gasometer_update:
  "it_gasometer v = Some gm \<Longrightarrow> it_gasometer_update (map_option f) v = v\<lparr>it_gasometer := Some (f gm)\<rparr>"
  "it_gasometer v = Some gm \<Longrightarrow>
   it_gasometer_update (map_option f \<circ> map_option g) v = v\<lparr>it_gasometer := Some (f (g gm))\<rparr>"
  by (cases v; simp)+

lemma usize_lt: "unat (w :: usize) < 18446744073709551616"
  using unat_lt_pow [of w] by simp

section \<open>Tracing\<close>

lemma mem_written_Ok:
  assumes "info i = Ok x" and "info_args x \<le> length st"
  shows "\<exists>w. mem_written i st = Ok w" "\<exists>w. store_written i st = Ok w"
proof -
  note a = request_args [OF assms]
  show "\<exists>w. mem_written i st = Ok w"
  proof -
    consider "i = MSTORE \<or> i = MLOAD \<or> i = MSTORE8" | "i = CALLDATACOPY \<or> i = CODECOPY \<or> i = RETURNDATACOPY"
      | "i = EXTCODECOPY" | "i = CALL \<or> i = CALLCODE" | "i = DELEGATECALL \<or> i = STATICCALL"
      | "i \<notin> {MSTORE, MLOAD, MSTORE8, CALLDATACOPY, CODECOPY, RETURNDATACOPY, EXTCODECOPY, CALL, CALLCODE, DELEGATECALL, STATICCALL}"
      by blast
    then show ?thesis
    proof cases
      case 1
      then have "st \<noteq> []" using a(1,2) by auto
      with 1 show ?thesis by (elim disjE) (simp_all add: mem_written_def)
    next
      case 2
      then have "2 < length st" "st \<noteq> []" using a(3) by auto
      with 2 show ?thesis by (elim disjE) (simp_all add: mem_written_def read_pair_def)
    next
      case 3
      then have "3 < length st" using a(4) by auto
      with 3 show ?thesis by (simp add: mem_written_def read_pair_def)
    next
      case 4
      then have "6 < length st" using a(5) by auto
      with 4 show ?thesis by (elim disjE) (simp_all add: mem_written_def read_pair_def)
    next
      case 5
      then have "5 < length st" using a(6) by auto
      with 5 show ?thesis by (elim disjE) (simp_all add: mem_written_def read_pair_def)
    next
      case 6
      then show ?thesis by (simp add: mem_written_def)
    qed
  qed
  show "\<exists>w. store_written i st = Ok w"
  proof (cases "i = SSTORE")
    case True
    then have "1 < length st" "st \<noteq> []" using a(1) by auto
    with True show ?thesis by (simp add: store_written_def)
  qed (simp add: store_written_def)
qed

context vm_context_laws
begin

lemma trace_next_wp:
  assumes "J (ctx s)" and "it_gasometer (vm s) = Some gm"
    and "\<And>c' b. stays (ctx s) c' \<Longrightarrow> Q () (s\<lparr>ctx := c', vm := (vm s)\<lparr>it_do_trace := b\<rparr>\<rparr>)"
  shows "wp p (trace_next V pc opcode) Q E s"
proof -
  obtain b c' where e: "cx_trace_next_instruction V pc opcode (as_u256 (current_gas gm)) (ctx s) = (b, c')"
    by fastforce
  then have "stays (ctx s) c'"
    using trace_next [OF assms(1), of pc opcode "as_u256 (current_gas gm)"] by (simp add: stays_def)
  then have "Q () (s\<lparr>ctx := c', vm := (vm s)\<lparr>it_do_trace := b\<rparr>\<rparr>)" and "Q () s"
    using assms(3) assms(3) [OF stays_refl [OF assms(1)], of "it_do_trace (vm s)"] by simp_all
  moreover have "wp p (\<lambda>c. case cx_trace_next_instruction V pc opcode (as_u256 (current_gas gm)) c of
      (b, c') \<Rightarrow> (Ok b :: bool vm_result, c')) Q' E' (ctx s) = Q' b c'" for Q' E'
    by (simp add: wp_def e)
  ultimately show ?thesis
    using assms(2) by (simp add: trace_next_def get_gasometer_def wp_simps)
qed

lemma trace_prepare_wp:
  assumes "J (ctx s)" and "info i = Ok x" "info_args x \<le> length (it_stack (vm s))"
    and "\<And>c'. stays (ctx s) c' \<Longrightarrow> Q () (s\<lparr>ctx := c'\<rparr>)"
  shows "wp p (trace_prepare V pc i cost) Q E s"
proof -
  have "stays (ctx s) (cx_trace_prepare_execute V pc i g mw sw (ctx s))" for g mw sw
    using trace_prepare [OF assms(1)] by (simp add: stays_def)
  moreover obtain mw sw where "mem_written i (it_stack (vm s)) = Ok mw" "store_written i (it_stack (vm s)) = Ok sw"
    using mem_written_Ok [OF assms(2,3)] by blast
  ultimately show ?thesis
    using assms(4) [OF stays_refl [OF assms(1)]] assms(4)
    by (simp add: trace_prepare_def wp_simps)
qed

lemma trace_done_wp:
  assumes "J (ctx s)" and "it_gasometer (vm s) = Some gm" and "it_last_stack_ret_len (vm s) \<le> length (it_stack (vm s))"
    and "\<And>c'. stays (ctx s) c' \<Longrightarrow> Q () (s\<lparr>ctx := c'\<rparr>)"
  shows "wp p (trace_done V) Q E s"
proof -
  have "stays (ctx s) (cx_trace_executed V g top m (ctx s))" for g top m
    using trace_executed [OF assms(1)] by (simp add: stays_def)
  then show ?thesis
    using assms(2,3) assms(4) [OF stays_refl [OF assms(1)]] assms(4)
    by (simp add: trace_done_def get_gasometer_def wp_simps peek_top_def)
qed

section \<open>Charging\<close>

lemma square_bound: "(n :: nat) ^ 2 < 2 ^ 64 \<Longrightarrow> n < 2 ^ 32"
  using power_less_imp_less_base [of n 2 "2 ^ 32"] by simp

lemma charge_wp:
  fixes s :: "(usize, 'l, 'c) vm_state"
  assumes gm: "it_gasometer (vm s) = Some gm" and r: "requirements_ok sp gm i st (of_nat (length (it_mem (vm s)))) r"
    and m: "length (it_mem (vm s)) < 2 ^ 37"
    and Q: "\<And>gm' mem'. gas_cost r \<le> current_gas gm \<Longrightarrow> current_gas gm' = current_gas gm - gas_cost r \<Longrightarrow>
       length mem' = max (length (it_mem (vm s))) (unat (memory_required_size r)) \<Longrightarrow> length mem' < 2 ^ 37 \<Longrightarrow>
       mem_gas_ok sp gm' (of_nat (length mem')) \<Longrightarrow>
       Q (current_gas gm') (s\<lparr>vm := (vm s)\<lparr>it_mem := mem', it_gasometer := Some gm'\<rparr>\<rparr>)"
    and E: "\<And>e. E e s" and old: "mem_gas_ok sp gm (of_nat (length (it_mem (vm s))))"
  shows "wp p (charge r) Q E s"
proof (cases "current_gas gm < gas_cost r")
  case True
  with gm E show ?thesis by (simp add: charge_def get_gasometer_def wp_simps verify_gas_def)
next
  case False
  define n where "n = unat (memory_required_size r)"
  define mem' where "mem' = expand (it_mem (vm s)) n"
  define gm' where "gm' = gm\<lparr>current_mem_gas := memory_total_gas r, current_gas := current_gas gm - gas_cost r\<rparr>"
  have len: "unat (of_nat (length (it_mem (vm s))) :: usize) = length (it_mem (vm s))"
    using m by (simp add: unat_of_nat_small)
  have l: "length mem' = max (length (it_mem (vm s))) n"
    by (simp add: mem'_def length_expand)
  have d: "32 dvd n" and sq: "length (it_mem (vm s)) < n \<Longrightarrow> (n div 32) ^ 2 < 2 ^ 64"
    using r len by (auto simp: requirements_ok_def n_def)
  have lt: "length mem' < 2 ^ 37"
    using l m d square_bound [OF sq]
    by (cases "length (it_mem (vm s)) < n") (auto simp: max_def dvd_def)
  then have "unat (of_nat (length mem') :: usize) = length mem'"
    by (simp add: unat_of_nat_small)
  then have ok: "mem_gas_ok sp gm' (of_nat (length mem'))"
    using r l d old len by (auto simp: requirements_ok_def mem_gas_ok_def gm'_def n_def max_def)
  show ?thesis
    using gm Q [of gm' mem'] l lt ok False leI [OF False]
    by (simp add: charge_def get_gasometer_def set_gas_def wp_simps verify_gas_def u_sub_def gm'_def mem'_def n_def
        gasometer_update del: not_less)
qed

section \<open>Fetching and executing\<close>

text \<open>The machine after an instruction that did not trap.\<close>

definition settled :: "spec \<Rightarrow> usize interp \<Rightarrow> bool" where
  "settled sp v \<longleftrightarrow> interp_core sp v \<and> it_resume_result v = None \<and>
     length (it_stack v) \<le> unat (stack_limit sp) \<and> it_last_stack_ret_len v \<le> length (it_stack v)"

definition fetch_result :: "spec \<Rightarrow> nat \<Rightarrow> usize instruction_result \<Rightarrow> usize interp \<Rightarrow> bool" where
  "fetch_result sp g r v = (case r of
     ITrap t \<Rightarrow> suspended sp t v \<and> gas_now v + trap_gas t < g
   | UnusedGas h \<Rightarrow> settled sp v \<and> gas_now v + unat h < g
   | StopExecutionNeedsReturn h off sz b \<Rightarrow> settled sp v \<and> unat h = gas_now v \<and> gas_now v \<le> g \<and>
       (unat sz \<noteq> 0 \<longrightarrow> unat off + unat sz \<le> length (it_mem v))
   | StopExecution \<Rightarrow> settled sp v \<and> gas_now v \<le> g
   | JumpToSubroutine q \<Rightarrow> settled sp v \<and> gas_now v < g \<and> length (it_return_stack v) < MAX_SUB_STACK_SIZE
   | _ \<Rightarrow> settled sp v \<and> gas_now v < g)"

definition fetch_post :: "(usize, 'l, 'c) vm_state \<Rightarrow> usize instruction_result \<Rightarrow> (usize, 'l, 'c) vm_state \<Rightarrow> bool" where
  "fetch_post s r s' \<longleftrightarrow> shared s' = shared s \<and> abides (ctx s) (ctx s') \<and>
     it_code (vm s') = it_code (vm s) \<and> it_params (vm s') = it_params (vm s) \<and>
     fetch_result (cx_spec V (ctx s)) (gas_now (vm s)) r (vm s') \<and> (\<forall>q. r = ITrap q \<longrightarrow> trap_post (ctx s) q)"

lemma abides_spec: "abides c c' \<Longrightarrow> cx_spec V c' = cx_spec V c"
  by (simp add: abides_def cx_frame_def)

lemma trap_post_abides: "abides c c' \<Longrightarrow> trap_post c' q = trap_post c q"
  by (rule trap_post_frame) (simp add: abides_def)

lemma stays_spec: "stays c c' \<Longrightarrow> cx_spec V c' = cx_spec V c"
  by (rule abides_spec) (rule stays_abides)

lemma returnable_lt:
  assumes "requirements_ok sp gm i st cur (r :: usize instruction_requirements)" and "provides_gas i"
  shows "returnable sp i st (provide_gas r) < unat (gas_cost r)"
  using assms by (auto simp: requirements_ok_def returnable_def split: option.splits)

text \<open>From the instruction's own postcondition to what the step needs.\<close>

lemma inst_post_fetch:
  assumes post: "inst_post gas i x (provide_gas req) t r t'"
    and core: "interp_core sp (vm t)" "it_resume_result (vm t) = None" "it_last_stack_ret_len (vm t) = info_ret x"
    and sp: "sp = cx_spec V (ctx t)"
    and st: "info_args x \<le> length (it_stack (vm t))"
      "length (it_stack (vm t)) - info_args x + info_ret x \<le> unat (stack_limit sp)"
    and trap: "provides_gas i \<Longrightarrow> info_ret x = 1"
    and req: "requirements_ok sp gm i (it_stack (vm t)) cur req"
    and gas: "gas_now (vm t) = unat gas" "unat gas + unat (gas_cost req) = g" "g < 2 ^ 64"
  shows "fetch_result sp g r (vm t')"
proof -
  have fields: "it_code (vm t') = it_code (vm t)" "it_params (vm t') = it_params (vm t)"
    "it_gasometer (vm t') = it_gasometer (vm t)" "it_valid_jumps (vm t') = it_valid_jumps (vm t)"
    "it_valid_subs (vm t') = it_valid_subs (vm t)" "it_done (vm t') = it_done (vm t)"
    "it_last_stack_ret_len (vm t') = it_last_stack_ret_len (vm t)" "it_resume_result (vm t') = it_resume_result (vm t)"
    using post by (auto simp: inst_post_def dest: erase_all_fields)
  have core': "interp_core sp (vm t')"
    using core(1) post unfolding interp_core_def inst_post_def by (auto simp: fields)
  have now: "gas_now (vm t') = unat gas"
    using gas(1) by (simp add: gas_now_def fields)
  have len: "length (it_stack (vm t')) = length (it_stack (vm t)) - info_args x + (if is_trap r then 0 else info_ret x)"
    and res: "result_ok sp gas i (provide_gas req) (vm t) r (vm t')"
    and rs: "length (it_return_stack (vm t')) \<le> length (it_return_stack (vm t))"
    using post by (auto simp: inst_post_def sp)
  have settled: "settled sp (vm t')" if "\<not> is_trap r"
    using that core' core(2,3) st len by (simp add: settled_def fields)
  have paid: "0 < unat (gas_cost req)" if "\<not> provides_gas i" "i \<notin> {STOP, RETURN, REVERT}"
    using that req by (auto simp: requirements_ok_def split: option.splits)
  have paid': "i \<notin> {STOP, RETURN, REVERT} \<Longrightarrow> 0 < unat (gas_cost req)"
    using paid returnable_lt [OF req] by (cases "provides_gas i") auto
  show ?thesis
  proof (cases r)
    case (ITrap q)
    then show ?thesis
      using res returnable_lt [OF req] trap core' core(2,3) st len gas now
      by (cases q) (auto simp: fetch_result_def suspended_def result_ok_def is_trap_def fields)
  next
    case (UnusedGas h)
    with settled res returnable_lt [OF req] gas now show ?thesis
      by (auto simp: fetch_result_def result_ok_def is_trap_def)
  qed (use settled res gas now paid' rs in \<open>auto simp: fetch_result_def result_ok_def is_trap_def\<close>)
qed

lemma metered_wp:
  fixes t :: "(usize, 'l, 'c) vm_state"
  assumes c: "stays (ctx t) c'" and x: "info i = (Ok x :: instruction_info vm_result)"
    and core: "interp_core (cx_spec V (ctx t)) (vm t)" "it_resume_result (vm t) = None"
    and pos: "0 < it_position (vm t)" "it_position (vm t) \<le> length (it_code (vm t))"
    and p: "may_panic i (it_stack (vm t)) (ctx t) \<Longrightarrow> p"
    and st: "info_args x \<le> length (it_stack (vm t))"
      "length (it_stack (vm t)) - info_args x + info_ret x \<le> unat (stack_limit (cx_spec V (ctx t)))"
    and gm: "it_gasometer (vm t) = Some gm" "mem_gas_ok (cx_spec V (ctx t)) gm (of_nat (length (it_mem (vm t))))"
    and req: "requirements_ok (cx_spec V (ctx t)) gm i (it_stack (vm t)) (of_nat (length (it_mem (vm t)))) r"
  shows "wp p (ethen (trace_prepare V pc i (gas_cost r)) (ebind (charge r) (\<lambda>gas. exec_instruction X V gas i (provide_gas r))))
     (fetch_post t) (\<lambda>_. err_post t) (t\<lparr>vm := (vm t)\<lparr>it_last_stack_ret_len := info_ret x\<rparr>, ctx := c'\<rparr>)"
proof -
  let ?sp = "cx_spec V (ctx t)"
  have m: "length (it_mem (vm t)) < 2 ^ 37" using core by (simp add: interp_core_def)
  have trap: "provides_gas i \<Longrightarrow> info_ret x = 1"
    using x by (auto simp: provides_gas_def info_simps new_info_def)
  have run: "wp p (exec_instruction X V (current_gas gm') i (provide_gas r)) (fetch_post t) (\<lambda>_. err_post t) t4"
    if t4: "t4 = t\<lparr>ctx := c'', vm := (vm t)\<lparr>it_last_stack_ret_len := info_ret x, it_mem := mem', it_gasometer := Some gm'\<rparr>\<rparr>"
      and c'': "stays (ctx t) c''" and paid: "gas_cost r \<le> current_gas gm" "current_gas gm' = current_gas gm - gas_cost r"
      and mem': "length mem' = max (length (it_mem (vm t))) (unat (memory_required_size r))" "length mem' < 2 ^ 37"
        "mem_gas_ok ?sp gm' (of_nat (length mem'))" for t4 gm' mem' c''
  proof -
    have sp: "cx_spec V c'' = ?sp" using c'' by (rule stays_spec)
    have fit: "returnable ?sp i (it_stack (vm t)) (provide_gas r) < 2 ^ 64"
    proof (cases "provides_gas i")
      case True
      then show ?thesis using returnable_lt [OF req] unat_lt_pow [of "gas_cost r"] by simp
    next
      case False
      then show ?thesis using req by (auto simp: requirements_ok_def returnable_def)
    qed
    have "covers (length mem') (touched i (it_stack (vm t)))"
      using req mem'(1) by (auto simp: requirements_ok_def elim: covers_mono)
    then have ready: "ready i x (provide_gas r) t4"
      using c'' x st(1) core pos req fit mem'(2) sp unfolding t4 ready_def interp_core_def
      by (auto simp: stays_def requirements_ok_def)
    have core4: "interp_core ?sp (vm t4)" "it_resume_result (vm t4) = None"
      using core mem' unfolding t4 interp_core_def by auto
    have gas: "unat (current_gas gm') + unat (gas_cost r) = gas_now (vm t)" "gas_now (vm t) < 2 ^ 64"
      using paid gm unat_lt_pow [of "current_gas gm"] by (auto simp: gas_now_def unat_sub_le word_le_nat_alt)
    have "fetch_post t q t'" if "inst_post (current_gas gm') i x (provide_gas r) t4 q t'" for q t'
    proof -
      have "fetch_result ?sp (gas_now (vm t)) q (vm t')"
        by (rule inst_post_fetch [OF that core4 _ _ _ _ trap, where gm = gm])
          (use sp st req gas in \<open>auto simp: t4 gas_now_def\<close>)
      moreover have "erase_all (vm t') = erase_all (vm t4)" "shared t' = shared t4" "abides (ctx t4) (ctx t')"
        using that by (simp_all add: inst_post_def)
      moreover have "trap_post (ctx t) w" if w: "q = ITrap w" for w
        using \<open>inst_post _ _ _ _ t4 q t'\<close> w trap_post_abides [of "ctx t" c'' w] c'' by (auto simp: inst_post_def t4)
      ultimately show ?thesis
        using c'' erase_all_fields(1,2) [of "vm t'" "vm t4"] by (auto simp: fetch_post_def t4 intro: abides_trans)
    qed
    moreover have "err_post t t'" if "err_post t4 t'" for t'
      using that c'' by (auto simp: err_post_def t4 intro: abides_trans)
    ultimately show ?thesis
      using p c'' by (intro wp_mono [OF exec_instruction_wp [OF ready]]) (auto simp: t4 may_panic_def stays_iff)
  qed
  show ?thesis
    unfolding wp_ebind
  proof (rule trace_prepare_wp [OF _ x])
    show "J (ctx (t\<lparr>vm := (vm t)\<lparr>it_last_stack_ret_len := info_ret x\<rparr>, ctx := c'\<rparr>))"
      using c by (simp add: stays_def)
    show "info_args x \<le> length (it_stack (vm (t\<lparr>vm := (vm t)\<lparr>it_last_stack_ret_len := info_ret x\<rparr>, ctx := c'\<rparr>)))"
      using st by simp
    fix c''
    assume "stays (ctx (t\<lparr>vm := (vm t)\<lparr>it_last_stack_ret_len := info_ret x\<rparr>, ctx := c'\<rparr>)) c''"
    with c have c'': "stays (ctx t) c''" by (auto intro: stays_trans)
    show "wp p (charge r) (\<lambda>gas. wp p (exec_instruction X V gas i (provide_gas r)) (fetch_post t) (\<lambda>_. err_post t))
        (\<lambda>_. err_post t) (t\<lparr>vm := (vm t)\<lparr>it_last_stack_ret_len := info_ret x\<rparr>, ctx := c', ctx := c''\<rparr>)"
    proof (rule charge_wp [where sp = ?sp and i = i and st = "it_stack (vm t)" and gm = gm])
      fix gm' :: "usize gasometer" and mem' :: bytes
      assume a: "gas_cost r \<le> current_gas gm" "current_gas gm' = current_gas gm - gas_cost r" "length mem' < 2 ^ 37"
        "mem_gas_ok ?sp gm' (of_nat (length mem'))"
        and "length mem' = max (length (it_mem (vm (t\<lparr>vm := (vm t)\<lparr>it_last_stack_ret_len := info_ret x\<rparr>, ctx := c', ctx := c''\<rparr>))))
           (unat (memory_required_size r))"
      then show "wp p (exec_instruction X V (current_gas gm') i (provide_gas r)) (fetch_post t) (\<lambda>_. err_post t)
          (t\<lparr>vm := (vm t)\<lparr>it_last_stack_ret_len := info_ret x\<rparr>, ctx := c', ctx := c'',
             vm := (vm (t\<lparr>vm := (vm t)\<lparr>it_last_stack_ret_len := info_ret x\<rparr>, ctx := c', ctx := c''\<rparr>))
               \<lparr>it_mem := mem', it_gasometer := Some gm'\<rparr>\<rparr>)"
        by (intro run [OF _ c'' a(1,2) _ a(3,4)]) simp_all
    qed (use gm req m c'' in \<open>auto simp: err_post_def\<close>)
  qed
qed

lemma run_instruction_wp:
  fixes t :: "(usize, 'l, 'c) vm_state"
  assumes c: "J (ctx t)" and x: "info i = (Ok x :: instruction_info vm_result)"
    and core: "interp_core (cx_spec V (ctx t)) (vm t)" "it_resume_result (vm t) = None"
    and pos: "0 < it_position (vm t)" "it_position (vm t) \<le> length (it_code (vm t))"
    and st: "length (it_stack (vm t)) \<le> unat (stack_limit (cx_spec V (ctx t)))"
    and p: "may_panic i (it_stack (vm t)) (ctx t) \<Longrightarrow> p"
  shows "wp p (run_instruction X V pc i) (fetch_post t) (\<lambda>_. err_post t) t"
proof -
  let ?sp = "cx_spec V (ctx t)"
  obtain gm where gm: "it_gasometer (vm t) = Some gm" "mem_gas_ok ?sp gm (of_nat (length (it_mem (vm t))))"
    using core by (auto simp: interp_core_def)
  show ?thesis
  proof (cases "verify_instruction ?sp x (it_stack (vm t))")
    case (Err e)
    with x c show ?thesis
      by (simp add: run_instruction_def wp_simps err_post_def abides_refl)
  next
    case Panic
    with st show ?thesis
      by (auto simp: verify_instruction_def has_def stack_size_def split: if_splits)
  next
    case (Ok u)
    then have v: "info_args x \<le> length (it_stack (vm t))"
      "length (it_stack (vm t)) - info_args x + info_ret x \<le> unat (stack_limit ?sp)"
      by (auto simp: verify_instruction_def has_def stack_size_def not_less split: if_splits)
    have "wp p (requirements V gm i x (it_stack (vm t)) (of_nat (length (it_mem (vm t)))))
        (\<lambda>r c'. wp p (ethen (trace_prepare V pc i (gas_cost r)) (ebind (charge r) (\<lambda>gas. exec_instruction X V gas i (provide_gas r))))
          (fetch_post t) (\<lambda>_. err_post t) (t\<lparr>vm := (vm t)\<lparr>it_last_stack_ret_len := info_ret x\<rparr>, ctx := c'\<rparr>))
        (\<lambda>e c'. err_post t (t\<lparr>vm := (vm t)\<lparr>it_last_stack_ret_len := info_ret x\<rparr>, ctx := c'\<rparr>)) (ctx t)"
      by (rule wp_mono [OF requirements_wp [OF c _ x v(1) gm(2)]])
        (use metered_wp [OF _ x core pos p v gm] in \<open>auto simp: err_post_def\<close>)
    with x gm(1) Ok show ?thesis
      by (simp add: run_instruction_def wp_simps get_gasometer_def)
  qed
qed

lemma fetch_and_execute_wp:
  fixes s :: "(usize, 'l, 'c) vm_state"
  assumes c: "J (ctx s)" and ok: "interp_ok (cx_spec V (ctx s)) (vm s)" "it_resume_result (vm s) = None"
    and p: "may_panic (it_code (vm s) ! it_position (vm s)) (it_stack (vm s)) (ctx s) \<Longrightarrow> p"
  shows "wp p (fetch_and_execute X V) (fetch_post s) (\<lambda>_. err_post s) s"
proof -
  let ?op = "it_code (vm s) ! it_position (vm s)"
  have core: "interp_core (cx_spec V (ctx s)) (vm s)" and pos: "it_position (vm s) < length (it_code (vm s))"
    and st: "length (it_stack (vm s)) \<le> unat (stack_limit (cx_spec V (ctx s)))"
    using ok by (simp_all add: interp_ok_def)
  then obtain gm where gm: "it_gasometer (vm s) = Some gm" by (auto simp: interp_core_def)
  have main: "wp p (case from_u8 ?op of None \<Rightarrow> efail (BadInstruction ?op) | Some i \<Rightarrow> run_instruction X V (it_position (vm s)) i)
      (fetch_post s) (\<lambda>_. err_post s)
      (s\<lparr>ctx := c', vm := (vm s)\<lparr>it_position := it_position (vm s) + 1, it_do_trace := b\<rparr>\<rparr>)"
    if c': "stays (ctx s) c'" for b c'
  proof (cases "from_u8 ?op")
    case None
    with c' show ?thesis by (auto simp: wp_simps err_post_def)
  next
    case (Some i)
    then have i: "i = ?op" by (rule from_u8_same)
    obtain x where x: "info i = (Ok x :: instruction_info vm_result)" using info_from_u8 [OF Some] by blast
    define t where "t = s\<lparr>ctx := c', vm := (vm s)\<lparr>it_position := it_position (vm s) + 1, it_do_trace := b\<rparr>\<rparr>"
    have t: "J (ctx t)" "cx_spec V (ctx t) = cx_spec V (ctx s)" "gas_now (vm t) = gas_now (vm s)"
      using c' stays_spec [OF c'] by (simp_all add: t_def stays_def gas_now_def)
    have "wp p (run_instruction X V (it_position (vm s)) i) (fetch_post t) (\<lambda>_. err_post t) t"
      by (rule run_instruction_wp [OF t(1) x])
        (use core ok(2) pos st p i t c' in \<open>auto simp: t_def interp_core_def may_panic_def stays_iff\<close>)
    then have "wp p (run_instruction X V (it_position (vm s)) i) (fetch_post s) (\<lambda>_. err_post s) t"
      by (rule wp_mono) (use c' t trap_post_abides [of "ctx s" c'] in \<open>auto simp: fetch_post_def err_post_def t_def intro: abides_trans\<close>)
    then show ?thesis by (simp add: Some t_def)
  qed
  have "wp p (trace_next V (it_position (vm s)) ?op)
      (\<lambda>_. wp p (case from_u8 ?op of None \<Rightarrow> efail (BadInstruction ?op) | Some i \<Rightarrow> run_instruction X V (it_position (vm s)) i)
        (fetch_post s) (\<lambda>_. err_post s)) (\<lambda>_. err_post s)
      (s\<lparr>vm := (vm s)\<lparr>it_position := it_position (vm s) + 1\<rparr>\<rparr>)"
    by (rule trace_next_wp) (use c gm main in auto)
  then show ?thesis
    using pos by (simp add: fetch_and_execute_def wp_simps)
qed

section \<open>After the instruction\<close>

definition machine_ok ::
    "'l externals \<Rightarrow> ('l \<Rightarrow> h256 \<rightharpoonup> cache_item) \<Rightarrow> (h256 \<Rightarrow> bytes \<Rightarrow> bool) \<Rightarrow> (usize, 'l, 'c) vm_state \<Rightarrow> bool" where
  "machine_ok X M codes s \<longleftrightarrow> J (ctx s) \<and> cache_ok (ext_lru X) M codes (shared s) \<and> hash_known codes (vm s) \<and>
     interp_ok (cx_spec V (ctx s)) (vm s)"

text \<open>What a step may end in: \<open>g\<close> bounds the gas it may leave, \<open>gc\<close> the gas of a machine that continues.\<close>

definition step_result :: "spec \<Rightarrow> nat \<Rightarrow> nat \<Rightarrow> interpreter_result \<Rightarrow> usize interp \<Rightarrow> bool" where
  "step_result sp gc g r v = (case r of
     Continue \<Rightarrow> interp_ok sp v \<and> it_resume_result v = None \<and> gas_total v < gc
   | Trapped t \<Rightarrow> suspended sp t v \<and> gas_now v + trap_gas t < g
   | Done (Ok (Known h)) \<Rightarrow> unat h \<le> g
   | Done (Ok (NeedsReturn h rd b)) \<Rightarrow> unat h \<le> g \<and> rd_ok rd
   | Done (Err e) \<Rightarrow> True
   | Done Panic \<Rightarrow> False
   | Stopped \<Rightarrow> False)"

definition step_post ::
    "'l externals \<Rightarrow> ('l \<Rightarrow> h256 \<rightharpoonup> cache_item) \<Rightarrow> (h256 \<Rightarrow> bytes \<Rightarrow> bool) \<Rightarrow> nat \<Rightarrow> nat \<Rightarrow> (usize, 'l, 'c) vm_state \<Rightarrow>
     interpreter_result \<Rightarrow> (usize, 'l, 'c) vm_state \<Rightarrow> bool" where
  "step_post X M codes gc g s r s' \<longleftrightarrow> abides (ctx s) (ctx s') \<and> cache_ok (ext_lru X) M codes (shared s') \<and>
     ((\<forall>d. r \<noteq> Done d) \<longrightarrow> it_code (vm s') = it_code (vm s) \<and> it_params (vm s') = it_params (vm s)) \<and>
     step_result (cx_spec V (ctx s)) gc g r (vm s') \<and> (\<forall>q. r = Trapped q \<longrightarrow> trap_post (ctx s) q)"

definition step_err :: "'l externals \<Rightarrow> ('l \<Rightarrow> h256 \<rightharpoonup> cache_item) \<Rightarrow> (h256 \<Rightarrow> bytes \<Rightarrow> bool) \<Rightarrow> (usize, 'l, 'c) vm_state \<Rightarrow>
     (usize, 'l, 'c) vm_state \<Rightarrow> bool" where
  "step_err X M codes s s' \<longleftrightarrow> abides (ctx s) (ctx s') \<and> cache_ok (ext_lru X) M codes (shared s')"

lemma verify_jump_Ok_iff: "verify_jump q js = Ok n \<longleftrightarrow> unat q = n \<and> n < 2 ^ 64 \<and> n \<in> js"
proof -
  have "ucast (low_u64 q) = q \<longleftrightarrow> unat q < 2 ^ 64"
    using ucast_ucast_eq_iff [where 'g = 64 and v = q] by (simp add: low_u64_def)
  then show ?thesis
    by (auto simp: verify_jump_def Let_def unat_low_u64)
qed

lemma verify_jump_not_Panic: "verify_jump q js \<noteq> Panic"
  by (simp add: verify_jump_def Let_def)

lemma destinations_wp:
  fixes t :: "(usize, 'l, 'c) vm_state"
  assumes L: "lru_laws (ext_lru X) M" and ok: "cache_ok (ext_lru X) M codes (shared t)" and h: "hash_known codes (vm t)"
    and Q: "\<And>js bs l. cache_ok (ext_lru X) M codes l \<Longrightarrow> Q (js, bs) (t\<lparr>shared := l\<rparr>)"
  shows "wp p (destinations X) Q E t"
proof -
  obtain js bs l where "jump_and_sub_destinations (ext_lru X) (keccak_empty X) (ip_code_hash (it_params (vm t))) (it_code (vm t)) (shared t) =
      (Ok (js, bs) :: (nat set \<times> nat set) vm_result, l)"
    "cache_ok (ext_lru X) M codes l"
    using jump_and_sub_destinations_ok [OF L ok] h unfolding hash_known_def by blast
  with Q [of l js bs] show ?thesis
    by (simp add: destinations_def wp_simps) (simp add: wp_def)
qed

lemma check_end_wp:
  fixes t :: "(usize, 'l, 'c) vm_state"
  assumes gm: "it_gasometer (vm t) = Some gm" and Q: "it_position (vm t) < length (it_code (vm t)) \<Longrightarrow> Q Continue t"
    and D: "Q (Done (Ok (Known (as_u256 (current_gas gm))))) t"
  shows "wp p check_end Q E t"
  using assms by (simp add: check_end_def known_gas_left_def get_gasometer_def wp_simps)

lemma settled_ok: "settled sp v \<Longrightarrow> it_position v < length (it_code v) \<Longrightarrow> interp_ok sp v"
  by (simp add: settled_def interp_ok_def)

lemma settled_position: "settled sp (v\<lparr>it_position := q\<rparr>) = settled sp v"
  by (simp add: settled_def interp_core_def)

lemma into_return_data_safe:
  assumes "unat sz \<noteq> 0 \<longrightarrow> unat off + unat sz \<le> length m" and "length m < 2 ^ 63"
  shows "\<exists>rd. into_return_data m off sz = (Ok rd :: return_data vm_result) \<and> rd_ok rd"
proof (cases "unat sz = 0")
  case True
  then have "sz = 0" by (simp add: word_unat_eq_iff)
  then show ?thesis by (simp add: into_return_data_def is_valid_range_iff low_u64_def)
next
  case False
  with assms into_return_data_Ok [of off sz m] show ?thesis by blast
qed

lemma gas_now_u256: "it_gasometer v = Some gm \<Longrightarrow> unat (as_u256 (current_gas gm)) = gas_now v"
  by (simp add: gas_now_def unat_as_u256)

lemma settled_gasometer: "settled sp v \<Longrightarrow> \<exists>gm. it_gasometer v = Some gm"
  by (auto simp: settled_def interp_core_def)

text \<open>Ending a step at the current position.\<close>

lemma finish_wp:
  fixes t :: "(usize, 'l, 'c) vm_state"
  assumes sett: "settled (cx_spec V (ctx s)) (vm t)" and g: "gas_now (vm t) < gc" "gas_now (vm t) \<le> g"
    and c: "abides (ctx s) (ctx t)" and l: "cache_ok (ext_lru X) M codes (shared t)"
    and same: "it_code (vm t) = it_code (vm s)" "it_params (vm t) = it_params (vm s)"
  shows "wp p check_end (step_post X M codes gc g s) E t"
proof -
  obtain gm where gm: "it_gasometer (vm t) = Some gm" using settled_gasometer [OF sett] by blast
  have "gas_total (vm t) = gas_now (vm t)" "it_resume_result (vm t) = None"
    using sett by (simp_all add: settled_def gas_total_def)
  with assms gas_now_u256 [OF gm] settled_ok show ?thesis
    by (intro check_end_wp [OF gm]) (simp_all add: step_post_def step_result_def)
qed

definition is_stop :: "'g instruction_result \<Rightarrow> bool" where
  "is_stop r \<longleftrightarrow> (case r of StopExecution \<Rightarrow> True | StopExecutionNeedsReturn _ _ _ _ \<Rightarrow> True | _ \<Rightarrow> False)"

lemma advance_wp:
  fixes t :: "(usize, 'l, 'c) vm_state"
  assumes L: "lru_laws (ext_lru X) M" and l: "cache_ok (ext_lru X) M codes (shared t)" and h: "hash_known codes (vm t)"
    and c: "abides (ctx s) (ctx t)" and same: "it_code (vm t) = it_code (vm s)" "it_params (vm t) = it_params (vm s)"
    and sett: "settled (cx_spec V (ctx s)) (vm t)" and g: "gas_now (vm t) \<le> g" "\<not> is_stop r \<Longrightarrow> gas_now (vm t) < gc"
    and r: "case r of StopExecutionNeedsReturn h off sz b \<Rightarrow> unat h \<le> g \<and> (unat sz \<noteq> 0 \<longrightarrow> unat off + unat sz \<le> length (it_mem (vm t)))
      | JumpToSubroutine q \<Rightarrow> length (it_return_stack (vm t)) < MAX_SUB_STACK_SIZE | _ \<Rightarrow> True"
  shows "wp p (advance X r) (step_post X M codes gc g s) (\<lambda>_. step_err X M codes s) t"
proof -
  note fin = finish_wp [where s = s and g = g and gc = gc and X = X and M = M and codes = codes]
  have jump: "wp p (elift (verify_jump q js)) Q (\<lambda>_. step_err X M codes s) t'"
    if "abides (ctx s) (ctx t')" "cache_ok (ext_lru X) M codes (shared t')" "\<And>n. Q n t'" for q js Q t'
    using that verify_jump_not_Panic [of q js] by (auto simp: wp_simps step_err_def split: res.splits)
  obtain gm where gm: "it_gasometer (vm t) = Some gm" using settled_gasometer [OF sett] by blast
  note set_simps = settled_def interp_core_def gas_now_def
  show ?thesis
  proof (cases r)
    case (JumpToPosition q)
    then show ?thesis
      using c l sett g same
      by (auto simp: advance_def is_stop_def jump_destinations_def wp_simps(1-5) wp_get_vm wp_upd_vm set_simps
          split: option.splits intro!: destinations_wp [OF L l h] jump fin)
  next
    case (JumpToSubroutine q)
    then show ?thesis
      using c l sett g same r
      by (auto simp: advance_def is_stop_def subroutine_destinations_def wp_simps(1-5) wp_get_vm wp_upd_vm set_simps
          split: option.splits intro!: destinations_wp [OF L l h] jump fin)
  next
    case (ReturnFromSubroutine q)
    then show ?thesis
      using c l sett g same
      by (auto simp: advance_def is_stop_def wp_simps set_simps intro!: fin)
  next
    case (StopExecutionNeedsReturn h' off sz b)
    have "length (it_mem (vm t)) < 2 ^ 63" using sett by (simp add: settled_def interp_core_def)
    then obtain rd where "into_return_data (it_mem (vm t)) off sz = (Ok rd :: return_data vm_result)" "rd_ok rd"
      using r StopExecutionNeedsReturn into_return_data_safe [of sz off "it_mem (vm t)"] by auto
    with StopExecutionNeedsReturn show ?thesis
      using c l same r by (simp add: advance_def wp_simps step_post_def step_result_def unat_as_u256)
  next
    case StopExecution
    then show ?thesis
      using c l same g gas_now_u256 [OF gm] gm
      by (simp add: advance_def known_gas_left_def get_gasometer_def wp_simps step_post_def step_result_def)
  qed (use c l sett g same in \<open>auto simp: advance_def is_stop_def intro!: fin\<close>)
qed

definition after_pre :: "spec \<Rightarrow> nat \<Rightarrow> nat \<Rightarrow> usize instruction_result \<Rightarrow> usize interp \<Rightarrow> bool" where
  "after_pre sp gc g r v = (case r of
     ITrap t \<Rightarrow> suspended sp t v \<and> gas_now v + trap_gas t < g
   | UnusedGas h \<Rightarrow> settled sp v \<and> gas_now v + unat h < gc
   | StopExecutionNeedsReturn h off sz b \<Rightarrow> settled sp v \<and> unat h \<le> g \<and> gas_now v \<le> g \<and>
       (unat sz \<noteq> 0 \<longrightarrow> unat off + unat sz \<le> length (it_mem v))
   | StopExecution \<Rightarrow> settled sp v \<and> gas_now v \<le> g
   | JumpToSubroutine q \<Rightarrow> settled sp v \<and> gas_now v < gc \<and> length (it_return_stack v) < MAX_SUB_STACK_SIZE
   | _ \<Rightarrow> settled sp v \<and> gas_now v < gc)"

lemma settled_gas: "settled sp v \<Longrightarrow> it_gasometer v = Some gm \<Longrightarrow>
    settled sp (v\<lparr>it_gasometer := Some (gm\<lparr>current_gas := x\<rparr>)\<rparr>)"
  by (simp add: settled_def interp_core_def mem_gas_ok_def)

lemma after_execute_wp:
  fixes t :: "(usize, 'l, 'c) vm_state"
  assumes L: "lru_laws (ext_lru X) M" and l: "cache_ok (ext_lru X) M codes (shared t)" and h: "hash_known codes (vm t)"
    and c: "abides (ctx s) (ctx t)" and same: "it_code (vm t) = it_code (vm s)" "it_params (vm t) = it_params (vm s)"
    and pre: "after_pre (cx_spec V (ctx s)) gc g r (vm t)" "\<And>q. r = ITrap q \<Longrightarrow> trap_post (ctx s) q" and gc: "gc \<le> Suc g" "g < 2 ^ 64"
  shows "wp p (after_execute X V r) (step_post X M codes gc g s) (\<lambda>_. step_err X M codes s) t"
proof (cases "is_trap r")
  case True
  then obtain q where "r = ITrap q" by (auto simp: is_trap_def split: instruction_result.splits)
  with pre c l same show ?thesis
    by (simp add: after_execute_def wp_simps step_post_def step_result_def after_pre_def)
next
  case False
  then have sett: "settled (cx_spec V (ctx s)) (vm t)"
    using pre by (auto simp: after_pre_def is_trap_def split: instruction_result.splits)
  then obtain gm where gm: "it_gasometer (vm t) = Some gm" using settled_gasometer by blast
  have adv: "wp p (ethen (trace_done V) (advance X r)) (step_post X M codes gc g s) (\<lambda>_. step_err X M codes s) t'"
    if t': "t' = t\<lparr>vm := (vm t)\<lparr>it_gasometer := Some (gm\<lparr>current_gas := x\<rparr>)\<rparr>\<rparr>" "unat x \<le> g"
      "\<not> is_stop r \<Longrightarrow> unat x < gc" for t' x
    unfolding wp_ebind
  proof (rule trace_done_wp)
    fix c'
    assume "stays (ctx t') c'"
    then show "wp p (advance X r) (step_post X M codes gc g s) (\<lambda>_. step_err X M codes s) (t'\<lparr>ctx := c'\<rparr>)"
      using l h c same gm sett pre t' gc settled_gas [OF sett gm]
      by (intro advance_wp [OF L]) (auto simp: gas_now_def hash_known_def after_pre_def intro: abides_trans
          split: instruction_result.splits)
  qed (use c sett t' in \<open>auto simp: abides_def settled_def\<close>)
  have same_t: "t\<lparr>vm := (vm t)\<lparr>it_gasometer := Some (gm\<lparr>current_gas := current_gas gm\<rparr>)\<rparr>\<rparr> = t"
    using gm by (cases t; cases "vm t"; cases gm) simp
  show ?thesis
  proof (cases r)
    case (UnusedGas h')
    have "unat (current_gas gm) + unat h' < gc"
      using pre gm UnusedGas by (simp add: after_pre_def gas_now_def)
    then have "u_add (current_gas gm) h' = (Ok (current_gas gm + h') :: usize vm_result)"
      "unat (current_gas gm + h') < gc"
      using gc by (simp_all add: u_add_def unat_add_no_overflow)
    with UnusedGas gm gc adv [OF refl, of "current_gas gm + h'"] show ?thesis
      by (simp add: after_execute_def get_gasometer_def set_gas_def gasometer_update wp_simps(1-5) wp_elift wp_get_vm wp_upd_vm)
  qed (use False gm gc pre adv [OF same_t [symmetric]] in
      \<open>simp_all add: after_execute_def is_trap_def is_stop_def after_pre_def gas_now_def wp_simps(1-5)\<close>)
qed

lemma fetch_after_pre:
  "fetch_result sp g r v \<Longrightarrow> after_pre sp g g r v"
  by (auto simp: fetch_result_def after_pre_def split: instruction_result.splits)

section \<open>Steps and runs\<close>

text \<open>A step that fetches an instruction that may panic.\<close>

definition step_may_panic :: "(usize, 'l, 'c) vm_state \<Rightarrow> bool" where
  "step_may_panic s \<longleftrightarrow> it_resume_result (vm s) = None \<and>
     may_panic (it_code (vm s) ! it_position (vm s)) (it_stack (vm s)) (ctx s)"

definition panic_ops :: "instruction set" where
  "panic_ops = {BLOCKHASH, CREATE, CREATE2, SUICIDE}"

lemma step_inner_wp:
  fixes s :: "(usize, 'l, 'c) vm_state"
  assumes L: "lru_laws (ext_lru X) M" and ok: "machine_ok X M codes s" and p: "step_may_panic s \<Longrightarrow> p"
  shows "wp p (step_inner X V)
     (step_post X M codes (gas_total (vm s) + (if it_resume_result (vm s) = None then 0 else 1)) (gas_total (vm s)) s)
     (\<lambda>_. step_err X M codes s) s"
proof -
  have c: "J (ctx s)" and l: "cache_ok (ext_lru X) M codes (shared s)" and h: "hash_known codes (vm s)"
    and iok: "interp_ok (cx_spec V (ctx s)) (vm s)"
    using ok by (simp_all add: machine_ok_def)
  show ?thesis
  proof (cases "it_resume_result (vm s)")
    case None
    have same: "s\<lparr>vm := (vm s)\<lparr>it_resume_result := None\<rparr>\<rparr> = s"
      using None by (cases s; cases "vm s") simp
    have g: "gas_total (vm s) = gas_now (vm s)" "gas_now (vm s) < 2 ^ 64"
      using None by (auto simp: gas_total_def gas_now_def split: option.splits intro: order_less_le_trans [OF unat_lt_pow])
    have "wp p (after_execute X V r) (step_post X M codes (gas_now (vm s)) (gas_now (vm s)) s) (\<lambda>_. step_err X M codes s) t"
      if "fetch_post s r t" for r t
      using that l h g
      by (intro after_execute_wp [OF L]) (auto simp: fetch_post_def hash_known_def intro: fetch_after_pre)
    moreover have "step_err X M codes s t" if "err_post s t" for t
      using that l by (simp add: err_post_def step_err_def)
    ultimately have "wp p (fetch_and_execute X V)
        (\<lambda>r. wp p (after_execute X V r) (step_post X M codes (gas_now (vm s)) (gas_now (vm s)) s) (\<lambda>_. step_err X M codes s))
        (\<lambda>_. step_err X M codes s) s"
      using p None by (intro wp_mono [OF fetch_and_execute_wp [OF c iok None]]) (auto simp: step_may_panic_def)
    then show ?thesis
      by (simp add: step_inner_def take_resume_result_def wp_simps None g same)
  next
    case (Some r)
    define t where "t = s\<lparr>vm := (vm s)\<lparr>it_resume_result := None\<rparr>\<rparr>"
    have "after_pre (cx_spec V (ctx s)) (Suc (gas_total (vm s))) (gas_total (vm s)) r (vm t)" "gas_total (vm s) < 2 ^ 64" "\<And>q. r \<noteq> ITrap q"
      using iok Some usize_lt
      by (auto simp: interp_ok_def after_pre_def t_def settled_def interp_core_def gas_now_def gas_total_def
          split: instruction_result.splits option.splits)
    then have "wp p (after_execute X V r) (step_post X M codes (Suc (gas_total (vm s))) (gas_total (vm s)) s)
        (\<lambda>_. step_err X M codes s) t"
      using c l h by (intro after_execute_wp [OF L]) (auto simp: t_def hash_known_def abides_refl)
    then show ?thesis
      by (simp add: step_inner_def take_resume_result_def wp_simps Some t_def)
  qed
qed

lemma step_wp:
  fixes s :: "(usize, 'l, 'c) vm_state"
  assumes L: "lru_laws (ext_lru X) M" and ok: "machine_ok X M codes s" and p: "step_may_panic s \<Longrightarrow> p"
  shows "wp p (step X V)
     (step_post X M codes (gas_total (vm s) + (if it_resume_result (vm s) = None then 0 else 1)) (gas_total (vm s)) s)
     (\<lambda>_ _. False) s"
proof -
  define Q where "Q = step_post X M codes (gas_total (vm s) + (if it_resume_result (vm s) = None then 0 else 1)) (gas_total (vm s)) s"
  have core: "interp_core (cx_spec V (ctx s)) (vm s)"
    using ok by (simp add: machine_ok_def interp_ok_def)
  then obtain gm where v: "\<not> it_done (vm s)" "it_code (vm s) \<noteq> []" "it_gasometer (vm s) = Some gm"
    by (auto simp: interp_core_def)
  have md: "wp p (mark_done r) Q (\<lambda>_ _. False) t" if "Q r t" for r t
    using that by (auto simp: mark_done_def wp_simps Q_def step_post_def step_result_def
        split: interpreter_result.splits res.splits gas_left.splits)
  have "wp p (step_inner X V) Q (\<lambda>_. step_err X M codes s) s"
    unfolding Q_def by (rule step_inner_wp [OF L ok p])
  moreover have "Q (Done (Err e)) t" if "step_err X M codes s t" for e t
    using that by (simp add: Q_def step_err_def step_post_def step_result_def)
  ultimately have "wp p (catch_done (step_inner X V)) Q (\<lambda>_ _. False) s"
    by (auto simp: wp_def catch_done_def split: prod.splits res.splits)
  then have "wp p (catch_done (step_inner X V)) (\<lambda>r. wp p (mark_done r) Q (\<lambda>_ _. False)) (\<lambda>_ _. False) s"
    by (rule wp_mono) (auto intro: md)
  then show ?thesis
    using v by (simp add: step_def wp_simps flip: Q_def)
qed

text \<open>A run ends: every continued step leaves less gas.\<close>

definition run_post ::
    "'l externals \<Rightarrow> ('l \<Rightarrow> h256 \<rightharpoonup> cache_item) \<Rightarrow> (h256 \<Rightarrow> bytes \<Rightarrow> bool) \<Rightarrow> (usize, 'l, 'c) vm_state \<Rightarrow>
     usize exec_trap_result \<Rightarrow> (usize, 'l, 'c) vm_state \<Rightarrow> bool" where
  "run_post X M codes s r s' \<longleftrightarrow> abides (ctx s) (ctx s') \<and> cache_ok (ext_lru X) M codes (shared s') \<and> (case r of
     Return v \<Rightarrow> step_result (cx_spec V (ctx s)) 0 (gas_total (vm s)) (Done v) (vm s')
   | SubCallCreate t v \<Rightarrow> v = vm s' \<and> suspended (cx_spec V (ctx s)) t v \<and> gas_now v + trap_gas t < gas_total (vm s) \<and>
       trap_post (ctx s) t \<and>
       it_code v = it_code (vm s) \<and> it_params v = it_params (vm s))"

lemma exec_returns:
  fixes s :: "(usize, 'l, 'c) vm_state"
  assumes L: "lru_laws (ext_lru X) M"
  shows "machine_ok X M codes s \<Longrightarrow>
     \<exists>r s'. exec X V s = Some (r, s') \<and> (case r of Ok v \<Rightarrow> run_post X M codes s v s' | Err e \<Rightarrow> False | Panic \<Rightarrow> set (it_code (vm s)) \<inter> panic_ops \<noteq> {})"
proof (induction "2 * gas_total (vm s) + (if it_resume_result (vm s) = None then 0 else 1)"
    arbitrary: s rule: less_induct)
  case less
  note ok = less.prems
  let ?n = "gas_total (vm s) + (if it_resume_result (vm s) = None then 0 else 1)"
  have w: "wp True (step X V) (step_post X M codes ?n (gas_total (vm s)) s) (\<lambda>_ _. False) s"
    by (rule step_wp [OF L ok]) simp
  obtain r s' where e: "step X V s = (r, s')" by fastforce
  show ?case
  proof (cases r)
    case (Err x)
    with wp_ErrD [OF w] e show ?thesis by blast
  next
    case Panic
    then have "step_may_panic s"
      using wp_PanicD [OF step_wp [OF L ok, of False]] e by blast
    moreover have "it_position (vm s) < length (it_code (vm s))"
      if "it_resume_result (vm s) = None"
      using ok that by (simp add: machine_ok_def interp_ok_def)
    ultimately have "set (it_code (vm s)) \<inter> panic_ops \<noteq> {}"
      by (auto simp: step_may_panic_def may_panic_def panic_ops_def dest: nth_mem)
    with e Panic show ?thesis by (subst exec.simps) simp
  next
    case (Ok v)
    then have post: "step_post X M codes ?n (gas_total (vm s)) s v s'"
      using wp_OkD [OF w] e by blast
    show ?thesis
    proof (cases v)
      case Stopped
      with post show ?thesis by (simp add: step_post_def step_result_def)
    next
      case (Done d)
      with post Ok e show ?thesis
        by (subst exec.simps) (auto simp: step_post_def run_post_def step_result_def split: res.splits gas_left.splits)
    next
      case (Trapped t)
      with post Ok e show ?thesis
        by (subst exec.simps) (simp add: step_post_def run_post_def step_result_def)
    next
      case Continue
      then have post': "abides (ctx s) (ctx s')" "cache_ok (ext_lru X) M codes (shared s')"
        "it_code (vm s') = it_code (vm s)" "it_params (vm s') = it_params (vm s)"
        "interp_ok (cx_spec V (ctx s)) (vm s')" "it_resume_result (vm s') = None" "gas_total (vm s') < ?n"
        using post by (auto simp: step_post_def step_result_def)
      have sp: "cx_spec V (ctx s') = cx_spec V (ctx s)" using post'(1) by (rule abides_spec)
      have ok': "machine_ok X M codes s'"
        using post' ok sp by (simp add: machine_ok_def hash_known_def abides_def)
      have "2 * gas_total (vm s') + (if it_resume_result (vm s') = None then 0 else 1) <
          2 * gas_total (vm s) + (if it_resume_result (vm s) = None then 0 else 1)"
        using post'(6,7) by (auto split: if_splits)
      from less.hyps [OF this ok'] obtain r2 s2 where ih: "exec X V s' = Some (r2, s2)"
        "case r2 of Ok v \<Rightarrow> run_post X M codes s' v s2 | Err e \<Rightarrow> False | Panic \<Rightarrow> set (it_code (vm s')) \<inter> panic_ops \<noteq> {}"
        by blast
      have le: "gas_total (vm s') \<le> gas_total (vm s)" using post'(7) by (simp split: if_splits)
      have "exec X V s = exec X V s'"
        using e Ok Continue by (subst exec.simps) simp
      moreover have "run_post X M codes s v2 s2" if "run_post X M codes s' v2 s2" for v2
        using that post'(1-4) sp le trap_post_abides [OF post'(1)]
        by (auto simp: run_post_def step_result_def intro: abides_trans
            split: exec_trap_result.splits res.splits gas_left.splits)
      ultimately show ?thesis
        using ih post'(3) by (auto split: res.splits)
    qed
  qed
qed

text \<open>Code without the instructions that may panic runs without panics.\<close>

lemma exec_returns_Ok:
  fixes s :: "(usize, 'l, 'c) vm_state"
  assumes "lru_laws (ext_lru X) M" "machine_ok X M codes s" "set (it_code (vm s)) \<inter> panic_ops = {}"
  obtains v s' where "exec X V s = Some (Ok v, s')" "run_post X M codes s v s'"
proof -
  obtain r s' where r: "exec X V s = Some (r, s')"
    "case r of Ok v \<Rightarrow> run_post X M codes s v s' | Err e \<Rightarrow> False | Panic \<Rightarrow> set (it_code (vm s)) \<inter> panic_ops \<noteq> {}"
    using exec_returns [OF assms(1,2)] by blast
  then show thesis using that assms(3) by (cases r) auto
qed

end

section \<open>Construction and resumption\<close>

lemma gas_fits: "unat left < 2 ^ 64 \<Longrightarrow> \<exists>g :: usize. from_u256 left = Ok g \<and> unat g = unat left"
  by (rule from_u256_cases [where 'g = 64 and v = left]) auto

lemma interpreter_new_ok:
  assumes "ap_code params = Some code" and "code \<noteq> []" "length code < 2 ^ 63"
    and "\<And>d. ap_data params = Some d \<Longrightarrow> length d < 2 ^ 63" and "unat (ap_gas params) < 2 ^ 64"
  shows "\<exists>v. interpreter_new params = Ok v \<and> interp_ok sp v \<and> gas_total v = unat (ap_gas params) \<and>
    it_code v = code \<and> it_params v = interpreter_params_from params"
proof -
  obtain g :: usize where g: "from_u256 (ap_gas params) = Ok g" "unat g = unat (ap_gas params)"
    using gas_fits [OF assms(5)] by blast
  have m: "mem_gas_ok sp (gasometer_new g) 0"
    by (simp add: mem_gas_ok_def gasometer_new_def mem_cost_def)
  show ?thesis
    using assms g m
    by (auto simp: interpreter_new_def expect_some_def interpreter_params_from_def interp_ok_def interp_core_def
        rd_ok_def rd_empty_def gas_total_def gas_now_def gasometer_new_def)
qed

lemma resume_with_output_ok:
  assumes "interp_core sp v" "length (it_stack v) < unat (stack_limit sp)" "it_last_stack_ret_len v = 1"
    and "unat sz \<noteq> 0 \<longrightarrow> unat off + unat sz \<le> length (it_mem v)"
    and "gas_now v + unat limit < 2 ^ 64" "left \<le> limit" "rd_ok rd"
  shows "\<exists>v'. resume_with_output flag off sz left rd v = Ok v' \<and> interp_ok sp v' \<and>
    gas_total v' = gas_now v + unat left \<and> it_stack v' = flag # it_stack v \<and> it_return_data v' = rd \<and>
    it_code v' = it_code v \<and> it_params v' = it_params v"
proof -
  have le: "unat left \<le> unat limit" using assms(6) by (simp add: word_le_nat_alt)
  obtain g :: usize where g: "from_u256 left = Ok g" "unat g = unat left"
    using gas_fits [of left] assms(5) le by auto
  obtain m where m: "copy_output (it_mem v) off sz rd = Ok m" "length m = length (it_mem v)"
    using copy_output_Ok [of sz off "it_mem v" rd] assms(1,4,7) by (auto simp: interp_core_def)
  show ?thesis
    using assms g m le
    by (auto simp: resume_with_output_def expect_ok_def interp_ok_def interp_core_def gas_total_def gas_now_def)
qed

text \<open>What a finished frame may hand back to the machine that waits for it.\<close>

definition call_returns :: "u256 \<Rightarrow> message_call_result \<Rightarrow> bool" where
  "call_returns g r \<longleftrightarrow> call_result_ok g (\<lambda>_. False) (Inl r)"

definition create_returns :: "space \<Rightarrow> u256 \<Rightarrow> contract_create_result \<Rightarrow> bool" where
  "create_returns sc g r \<longleftrightarrow> (case r of
     Created a left \<Rightarrow> aws_space a = sc \<and> left \<le> g
   | CreateReverted left rd \<Rightarrow> left \<le> g \<and> rd_ok rd
   | CreateFailed e \<Rightarrow> True)"

lemma resume_call_ok:
  assumes s: "suspended sp (TrapCall q) v" and r: "call_returns (ap_gas q) r"
  shows "\<exists>v'. resume_call v r = Ok v' \<and> interp_ok sp v' \<and> gas_total v' \<le> gas_now v + unat (ap_gas q) \<and>
    it_code v' = it_code v \<and> it_params v' = it_params v \<and>
    it_stack v' = (case r of CallSuccess _ _ \<Rightarrow> 1 | _ \<Rightarrow> 0) # it_stack v"
proof -
  obtain off sz where o: "it_resume_output_range v = Some (off, sz)"
    "unat sz \<noteq> 0 \<longrightarrow> unat off + unat sz \<le> length (it_mem v)"
    and v: "interp_core sp v" "length (it_stack v) < unat (stack_limit sp)" "it_last_stack_ret_len v = 1"
      "gas_now v + unat (ap_gas q) < 2 ^ 64"
    using s by (auto simp: suspended_def)
  note R = resume_with_output_ok [OF v(1-3) o(2) v(4)]
  show ?thesis
  proof (cases r)
    case (CallSuccess left rd)
    with r R [of left rd 1] o show ?thesis
      by (auto simp: resume_call_def expect_some_def call_returns_def word_le_nat_alt)
  next
    case (CallReverted left rd)
    with r R [of left rd 0] o show ?thesis
      by (auto simp: resume_call_def expect_some_def call_returns_def word_le_nat_alt)
  next
    case (CallFailed e)
    with v o show ?thesis
      by (simp add: resume_call_def expect_some_def interp_ok_def interp_core_def gas_total_def gas_now_def)
  qed
qed

lemma resume_create_ok:
  assumes s: "suspended sp (TrapCreate q) v" and r: "create_returns (it_space v) (ap_gas q) r"
  shows "\<exists>v'. resume_create v r = Ok v' \<and> interp_ok sp v' \<and> gas_total v' \<le> gas_now v + unat (ap_gas q) \<and>
    it_code v' = it_code v \<and> it_params v' = it_params v \<and>
    it_stack v' = (case r of Created a _ \<Rightarrow> address_to_u256 (aws_address a) | _ \<Rightarrow> 0) # it_stack v"
proof -
  have v: "interp_core sp v" "length (it_stack v) < unat (stack_limit sp)" "it_last_stack_ret_len v = 1"
    "gas_now v + unat (ap_gas q) < 2 ^ 64"
    using s by (auto simp: suspended_def)
  have fit: "\<exists>g :: usize. from_u256 left = Ok g \<and> unat g = unat left" if "left \<le> ap_gas q" for left
    using that v(4) by (intro gas_fits) (simp add: word_le_nat_alt)
  show ?thesis
  proof (cases r)
    case (Created a left)
    with r have "left \<le> ap_gas q" "aws_space a = it_space v" by (simp_all add: create_returns_def)
    with fit [of left] Created v show ?thesis
      by (auto simp: resume_create_def expect_ok_def interp_ok_def interp_core_def gas_total_def gas_now_def word_le_nat_alt)
  next
    case (CreateReverted left rd)
    with r have "left \<le> ap_gas q" "rd_ok rd" by (simp_all add: create_returns_def)
    with fit [of left] CreateReverted v show ?thesis
      by (auto simp: resume_create_def expect_ok_def interp_ok_def interp_core_def gas_total_def gas_now_def word_le_nat_alt)
  next
    case (CreateFailed e)
    with v show ?thesis
      by (simp add: resume_create_def interp_ok_def interp_core_def gas_total_def gas_now_def)
  qed
qed

end
