(* ===== verification/Lru_Reference.thy ===== *)
theory Lru_Reference
  imports Shared_Cache
begin

text \<open>
  A reference least-recently-used map: an association list, most recent entry first, cut off at
  its capacity.  It behaves as the documentation of the \<open>lru-cache\<close> crate says and satisfies the
  laws that Shared_Cache relies on, so theorems that assume the laws can be applied to it.
\<close>

type_synonym alru = "nat \<times> (h256 \<times> cache_item) list"

definition alru_insert :: "h256 \<Rightarrow> cache_item \<Rightarrow> alru \<Rightarrow> cache_item option \<times> alru" where
  "alru_insert k v l = (case l of (cap, xs) \<Rightarrow> (map_of xs k, cap, take cap ((k, v) # [p \<leftarrow> xs. fst p \<noteq> k])))"

definition alru_get_mut :: "h256 \<Rightarrow> alru \<Rightarrow> cache_item option \<times> alru" where
  "alru_get_mut k l = (case l of (cap, xs) \<Rightarrow> (case map_of xs k of
     None \<Rightarrow> (None, l)
   | Some v \<Rightarrow> (Some v, cap, (k, v) # [p \<leftarrow> xs. fst p \<noteq> k])))"

definition alru_remove_lru :: "alru \<Rightarrow> (h256 \<times> cache_item) option \<times> alru" where
  "alru_remove_lru l = (case l of (cap, xs) \<Rightarrow>
     if xs = [] then (None, l)
     else (let k = fst (last xs) in (Some (k, the (map_of xs k)), cap, [p \<leftarrow> xs. fst p \<noteq> k])))"

definition alru_ops :: "alru lru_ops" where
  "alru_ops = \<lparr>lru_new = (\<lambda>n. (n, [])), lru_capacity = fst, lru_len = (\<lambda>l. length (remdups (map fst (snd l)))),
     lru_set_capacity = (\<lambda>n l. (n, take n (snd l))), lru_insert = alru_insert, lru_get_mut = alru_get_mut,
     lru_remove_lru = alru_remove_lru, item_size = (\<lambda>_. 0)\<rparr>"

definition alru_map :: "alru \<Rightarrow> h256 \<rightharpoonup> cache_item" where
  "alru_map l = map_of (snd l)"

lemma map_of_take: "map_of (take n xs) \<subseteq>\<^sub>m map_of xs"
proof -
  have "map_of xs = map_of (drop n xs) ++ map_of (take n xs)"
    by (metis append_take_drop_id map_of_append)
  then show ?thesis by (simp add: map_le_iff_map_add_commute map_add_assoc [symmetric])
qed

lemma map_of_filter_key: "map_of [p \<leftarrow> xs. fst p \<noteq> k] = (map_of xs)(k := None)"
  by (induction xs) (auto simp: fun_eq_iff)

lemma alru_laws: "lru_laws alru_ops alru_map"
proof -
  have last: "map_of xs (fst (last xs)) = Some (the (map_of xs (fst (last xs))))" if "xs \<noteq> []" for xs :: "(h256 \<times> cache_item) list"
    using that by (metis dom_map_of_conv_image_fst domIff imageI last_in_set option.collapse)
  have ins: "map_of (take n ((k, v) # [p \<leftarrow> xs. fst p \<noteq> k])) \<subseteq>\<^sub>m (map_of xs)(k \<mapsto> v)" for n k v and xs :: "(h256 \<times> cache_item) list"
    using map_of_take [of n "(k, v) # [p \<leftarrow> xs. fst p \<noteq> k]"] by (simp add: map_of_filter_key)
  show ?thesis
    unfolding lru_laws_def
    by (auto simp: alru_ops_def alru_map_def alru_insert_def alru_get_mut_def alru_remove_lru_def Let_def
        finite_dom_map_of dom_map_of_conv_image_fst map_of_take map_of_filter_key ins length_remdups_card_conv
        last [symmetric] fun_upd_idem split: prod.splits option.splits simp del: take_Suc_Cons)
qed

lemma alru_empty_ok: "cache_ok alru_ops alru_map codes (shared_cache_default alru_ops)"
  by (simp add: cache_ok_def shared_cache_default_def shared_cache_new_def memory_lru_new_def stored_size_def
      alru_ops_def alru_map_def)

end
