(* ===== verification/Vm_Properties.thy ===== *)
theory Vm_Properties
  imports Interpreter_Run Lru_Reference
begin

text \<open>
  The properties of the interpreter's parts that do not depend on the chain: decoding and jump
  destinations, the cache, memory, arithmetic and the gas formulas.
\<close>

section \<open>Decoding\<close>


text \<open>C37. A position is a jump destination exactly when it is an instruction boundary of the code
  (reached from 0 by skipping push operands) that holds \<open>JUMPDEST\<close>; the same for subroutine
  entries and \<open>BEGINSUB\<close>.  So a jump never lands in the operand of a push.\<close>

theorem jump_destinations_exact:
  "jump_destination (find_jump_and_sub_destinations code) = {q. boundary code q \<and> q < length code \<and> code ! q = JUMPDEST}
   \<and> sub_entrypoint (find_jump_and_sub_destinations code) = {q. boundary code q \<and> q < length code \<and> code ! q = BEGINSUB}"
  by (auto simp: find_destinations)

text \<open>C39. The shared cache is transparent: whatever it holds and evicts, the answer is the analysis
  of the code at hand; the lookup never panics, it keeps the cache sound, and the byte count
  of the cache never drops below the size of what is stored.\<close>

theorem cache_transparent:
  assumes "lru_laws L M" and "cache_ok L M (\<lambda>h c. codes h = Some c) cache" and "\<forall>h. code_hash = Some h \<longrightarrow> codes h = Some code"
  shows "\<exists>cache'. jump_and_sub_destinations L ke code_hash code cache =
      ((Ok (jump_destination (find_jump_and_sub_destinations code),
            sub_entrypoint (find_jump_and_sub_destinations code)) :: (nat set \<times> nat set) vm_result), cache')
    \<and> cache_ok L M (\<lambda>h c. codes h = Some c) cache'"
proof -
  obtain cache' c where c: "jump_and_sub_destinations L ke code_hash code cache = ((Ok (jump_destination (find_jump_and_sub_destinations c),
      sub_entrypoint (find_jump_and_sub_destinations c)) :: (nat set \<times> nat set) vm_result), cache')"
    "cache_ok L M (\<lambda>h c. codes h = Some c) cache'" "c = code \<or> (\<exists>h. code_hash = Some h \<and> codes h = Some c)"
    using jump_and_sub_destinations_ok [OF assms(1,2), of code_hash code ke] assms(3) by blast
  then have "c = code" using assms(3) by auto
  with c show ?thesis by blast
qed

theorem cache_transparent_witness:
  "\<exists>cache'. jump_and_sub_destinations alru_ops 0 (Some 7) [0x5b, 0x60, 0x5b] (shared_cache_default alru_ops) =
      ((Ok (jump_destination (find_jump_and_sub_destinations [0x5b, 0x60, 0x5b]),
            sub_entrypoint (find_jump_and_sub_destinations [0x5b, 0x60, 0x5b])) :: (nat set \<times> nat set) vm_result), cache')
    \<and> cache_ok alru_ops alru_map (\<lambda>h c. [7 \<mapsto> [0x5b, 0x60, 0x5b]] h = Some c) cache'"
  by (rule cache_transparent [OF alru_laws alru_empty_ok]) simp

section \<open>Memory\<close>

text \<open>A word written to memory is read back unchanged, and no byte outside its 32 changes.\<close>

theorem memory_round_trip:
  assumes "unat off + 32 \<le> length m" and "length m < 2 ^ 64"
  shows "\<exists>m'. mem_write m off v = (Ok m' :: bytes vm_result) \<and> mem_read m' off = (Ok v :: u256 vm_result)
    \<and> length m' = length m
    \<and> (\<forall>k < length m. k < unat off \<or> unat off + 32 \<le> k \<longrightarrow> m' ! k = m ! k)"
proof -
  have lo: "unat (low_u64 off) = unat off" using assms by (simp add: unat_low_u64)
  define m' where "m' = overwrite m (unat off) (to_be 32 v)"
  have l: "length m' = length m" using assms by (simp add: m'_def length_overwrite)
  have "take 32 (drop (unat off) m') = to_be 32 v"
    using assms by (intro nth_equalityI) (auto simp: m'_def length_overwrite nth_overwrite)
  then have "mem_read m' off = (Ok v :: u256 vm_result)"
    using assms l by (simp add: mem_read_Ok lo from_be_to_be take_bit_word_eq_self)
  with l assms show ?thesis
    by (intro exI [of _ m']) (auto simp: mem_write_Ok lo m'_def nth_overwrite)
qed

theorem memory_round_trip_witness:
  "\<exists>m'. mem_write (replicate 64 0) 5 77 = (Ok m' :: bytes vm_result) \<and> mem_read m' 5 = (Ok 77 :: u256 vm_result)
    \<and> length m' = length (replicate 64 (0 :: byte))
    \<and> (\<forall>k < length (replicate 64 (0 :: byte)). k < unat (5 :: u256) \<or> unat (5 :: u256) + 32 \<le> k \<longrightarrow> m' ! k = replicate 64 0 ! k)"
  by (rule memory_round_trip) simp_all

text \<open>The copy instructions write exactly the bytes of the source, read as zero past its end, for
  every source offset, also beyond the range of \<open>usize\<close>: the branches that zero, clip and copy
  amount to one padded copy.\<close>

theorem copy_is_padded:
  assumes "unat d + unat sz \<le> length m" and "length m < 2 ^ 63" and "length source < 2 ^ 63"
  shows "copy_data_to_memory m d so sz source =
     (Ok (overwrite m (unat d) (padded_slice source (unat so) (unat sz))) :: bytes vm_result)"
proof (cases "0 < unat sz")
  case False
  then have "sz = 0" by (simp add: unat_eq_0)
  with assms show ?thesis by (simp add: copy_data_to_memory_zero padded_slice_def overwrite_def)
qed (use assms in \<open>simp add: copy_data_to_memory_eq\<close>)

theorem copy_is_padded_witness:
  "copy_data_to_memory [9, 9, 9, 9] 1 1 3 [7, 8] =
     (Ok (overwrite [9, 9, 9, 9] (unat (1 :: u256)) (padded_slice [7, 8] (unat (1 :: u256)) (unat (3 :: u256)))) :: bytes vm_result)"
  by (rule copy_is_padded) simp_all

text \<open>The return data taken from memory is the slice asked for, whichever of the two layouts
  (a shared buffer, or a shrunk copy) \<open>into_return_data\<close> picks to bound the waste, and a layout
  that is kept wastes at most \<open>MAX_RETURN_WASTE_BYTES\<close> when it was shrunk.\<close>

theorem return_data_is_slice:
  assumes "unat off + unat sz \<le> length m" and "length m < 2 ^ 63"
  shows "\<exists>rd. into_return_data m off sz = (Ok rd :: return_data vm_result) \<and> rd_ok rd
    \<and> rd_deref rd = (Ok (take (unat sz) (drop (unat off) m)) :: bytes vm_result)
    \<and> length (rd_mem rd) \<le> unat sz + MAX_RETURN_WASTE_BYTES"
proof -
  have lo: "unat (low_u64 off) = unat off" "unat (low_u64 sz) = unat sz"
    using assms by (simp_all add: unat_low_u64)
  show ?thesis
    using assms
    by (auto simp: into_return_data_def Let_def lo is_valid_range_iff rd_ok_def rd_deref_def rd_new_def
        rd_empty_def slice_def)
qed

theorem return_data_is_slice_witness:
  "\<exists>rd. into_return_data [1, 2, 3, 4] 1 2 = (Ok rd :: return_data vm_result) \<and> rd_ok rd
    \<and> rd_deref rd = (Ok (take (unat (2 :: u256)) (drop (unat (1 :: u256)) [1, 2, 3, 4])) :: bytes vm_result)
    \<and> length (rd_mem rd) \<le> unat (2 :: u256) + MAX_RETURN_WASTE_BYTES"
  by (rule return_data_is_slice) simp_all

section \<open>Arithmetic\<close>

lemma exec_arith_binop:
  "binop i = Some f \<Longrightarrow>
   exec_arith i (s\<lparr>vm := (vm s)\<lparr>it_stack := a # b # st\<rparr>\<rparr>) = (Ok (), s\<lparr>vm := (vm s)\<lparr>it_stack := f a b # st\<rparr>\<rparr>)"
  by (simp add: exec_arith_def on_stack_def pop_back_def push_def emodify_def ebind_def)

text \<open>What a binary instruction computes, on the unsigned and signed values of its operands.\<close>

definition meaning :: "instruction \<Rightarrow> u256 \<Rightarrow> u256 \<Rightarrow> u256 option" where
  "meaning i a b =
     (if i = ADD then Some (of_nat (unat a + unat b))
      else if i = MUL then Some (of_nat (unat a * unat b))
      else if i = SUB then Some (word_of_int (uint a - uint b))
      else if i = DIV then Some (if b = 0 then 0 else of_nat (unat a div unat b))
      else if i = MOD then Some (if b = 0 then 0 else of_nat (unat a mod unat b))
      else if i = SDIV then Some (if b = 0 then 0 else word_of_int (sint a sdiv sint b))
      else if i = SMOD then Some (if b = 0 then 0 else word_of_int (sint a smod sint b))
      else if i = EXP then Some (of_nat (unat a ^ unat b))
      else if i = LT then Some (of_bool (unat a < unat b))
      else if i = SLT then Some (of_bool (sint a < sint b))
      else if i = GT then Some (of_bool (unat a > unat b))
      else if i = SGT then Some (of_bool (sint a > sint b))
      else if i = EQ then Some (of_bool (unat a = unat b))
      else if i = ANDop then Some (a AND b)
      else if i = ORop then Some (a OR b)
      else if i = XORop then Some (a XOR b)
      else if i = BYTE then Some (if unat a < 32 then ucast (to_be 32 b ! unat a) else 0)
      else if i = SHL then Some (of_nat (unat b * 2 ^ unat a))
      else if i = SHR then Some (of_nat (unat b div 2 ^ unat a))
      else if i = SAR then Some (word_of_int (sint b div 2 ^ unat a))
      else None)"

lemma of_nat_ops:
  fixes a b :: u256
  shows "of_nat (unat a div unat b) = a div b" "of_nat (unat a mod unat b) = a mod b"
    "of_nat (unat a div 2 ^ n) = drop_bit n a"
  by (simp_all flip: unat_div unat_mod unat_drop_bit)

lemma signed_shift: "signed_drop_bit n (b :: u256) = word_of_int (sint b div 2 ^ n)"
proof -
  have "signed_drop_bit n b = word_of_int (sint (signed_drop_bit n b))" by (simp add: word_of_sint)
  then show ?thesis by (simp only: sint_signed_drop_bit_eq drop_bit_eq_div)
qed

lemma unsigned_ops:
  fixes a b :: u256
  shows "fst (overflowing_add a b) = of_nat (unat a + unat b)" "fst (overflowing_mul a b) = of_nat (unat a * unat b)"
    "a - b = word_of_int (uint a - uint b)" "evm_exp a b = of_nat (unat a ^ unat b)"
    "evm_div a b = (if b = 0 then 0 else of_nat (unat a div unat b))"
    "evm_mod a b = (if b = 0 then 0 else of_nat (unat a mod unat b))"
    "bool_to_u256 p = of_bool p" "(a < b) = (unat a < unat b)" "(a = b) = (unat a = unat b)"
    "evm_shl a b = of_nat (unat b * 2 ^ unat a)" "evm_shr a b = of_nat (unat b div 2 ^ unat a)"
    "evm_sar a b = word_of_int (sint b div 2 ^ unat a)"
  by (simp_all add: overflowing_add_def overflowing_mul_def evm_exp_def evm_div_eq evm_mod_eq bool_to_u256_def
      word_less_nat_alt word_unat_eq_iff [of a b] evm_shl_eq push_bit_eq_mult evm_sar_eq signed_shift evm_shr_eq of_nat_ops)

lemma binop_meaning: "map_option (\<lambda>f. f a b) (binop i) = meaning i a b"
  unfolding binop_def meaning_def
  by (simp only: if_distrib [of "map_option (\<lambda>f. f a b)"] option.map unsigned_ops(1-7,10-12) evm_sdiv_eq evm_smod_eq
      evm_slt_eq evm_sgt_eq evm_byte_eq unsigned_ops(8,9)[of a b] unsigned_ops(8)[of b a])

text \<open>C38. Every binary arithmetic, comparison, bitwise and shift instruction pops its two operands and
  pushes the value it denotes: arithmetic modulo $2^{256}$, division and remainder towards zero with
  zero for a zero divisor, comparisons and shifts on the signed or unsigned values.  The shortcuts
  of the code (division by powers of two as shifts, the case of the most negative dividend, shifts by 256 bits
  and more) change nothing.\<close>

theorem arithmetic_instructions:
  fixes s :: "('g, 'l, 'c) vm_state"
  assumes "meaning i a b = Some r"
  shows "exec_arith i (s\<lparr>vm := (vm s)\<lparr>it_stack := a # b # st\<rparr>\<rparr>) = (Ok (), s\<lparr>vm := (vm s)\<lparr>it_stack := r # st\<rparr>\<rparr>)"
proof -
  obtain f where "binop i = Some f" "f a b = r"
    using assms by (auto simp flip: binop_meaning)
  then show ?thesis by (simp add: exec_arith_binop)
qed

theorem arithmetic_instructions_witness:
  "\<forall>s :: (usize, alru, unit) vm_state.
     exec_arith SDIV (s\<lparr>vm := (vm s)\<lparr>it_stack := - 7 # 2 # []\<rparr>\<rparr>) = (Ok (), s\<lparr>vm := (vm s)\<lparr>it_stack := - 3 # []\<rparr>\<rparr>)"
proof -
  have "sint (- 7 :: u256) = - 7" "sint (2 :: u256) = 2"
    by (simp_all add: sint_uint signed_take_bit_eq_if_negative)
  then have "meaning SDIV (- 7) 2 = Some (- 3)"
    by (simp add: meaning_def signed_divide_int_def)
  then show ?thesis by (intro allI arithmetic_instructions)
qed

text \<open>\<open>ADDMOD\<close> and \<open>MULMOD\<close> reduce the exact sum and product, without the wrap-around of 256-bit
  words, and give zero for a zero modulus; \<open>SIGNEXTEND\<close> extends the sign of the byte its first
  operand names, and leaves the number alone when there is no such byte.  None of them panics.\<close>

theorem modular_instructions:
  fixes s :: "('g, 'l, 'c) vm_state"
  defines "on \<equiv> (\<lambda>st. s\<lparr>vm := (vm s)\<lparr>it_stack := st\<rparr>\<rparr>)"
  shows "(\<exists>r. exec_arith ADDMOD (on (a # b # n # st)) = (Ok (), on (r # st))
      \<and> unat r = (if n = 0 then 0 else (unat a + unat b) mod unat n))
    \<and> (\<exists>r. exec_arith MULMOD (on (a # b # n # st)) = (Ok (), on (r # st))
      \<and> unat r = (if n = 0 then 0 else unat a * unat b mod unat n))
    \<and> exec_arith SIGNEXTEND (on (k # a # st)) =
      (Ok (), on ((if unat k < 32 then signed_take_bit (8 * unat k + 7) a else a) # st))"
proof (intro conjI)
  have b: "binop ADDMOD = None" "binop MULMOD = None" "binop SIGNEXTEND = None"
    by (simp_all add: binop_def)
  note run = exec_arith_def on_stack_def pop_back_def push_def emodify_def ebind_def elift_def on_def
  show "\<exists>r. exec_arith ADDMOD (on (a # b # n # st)) = (Ok (), on (r # st))
      \<and> unat r = (if n = 0 then 0 else (unat a + unat b) mod unat n)"
    using evm_addmod_eq [of a b n, where 'a = vm_error] b by (auto simp: run)
  show "\<exists>r. exec_arith MULMOD (on (a # b # n # st)) = (Ok (), on (r # st))
      \<and> unat r = (if n = 0 then 0 else unat a * unat b mod unat n)"
    using evm_mulmod_eq [of a b n, where 'a = vm_error] b by (auto simp: run)
  show "exec_arith SIGNEXTEND (on (k # a # st)) =
      (Ok (), on ((if unat k < 32 then signed_take_bit (8 * unat k + 7) a else a) # st))"
    using b by (simp add: run eret_def word_less_nat_alt evm_signextend_eq)
qed

section \<open>Gas\<close>

lemma gas_for_mem_small:
  fixes r :: usize
  assumes "quad_coeff_div sp = 512" "unat (memory_gas sp) < 2 ^ 24" "unat r \<le> 2 ^ 36"
  shows "\<exists>n. gas_for_mem sp r = Ok n"
proof -
  define k where "k = unat r div 32"
  have k: "unat (drop_bit 5 r) = k" "k \<le> 2 ^ 31"
    using assms(3) div_le_mono [of "unat r" "2 ^ 36" 32] by (simp_all add: k_def unat_drop_bit)
  have a: "k * unat (memory_gas sp) \<le> 2 ^ 31 * 2 ^ 24" using k(2) assms(2) by (intro mult_mono) simp_all
  have b: "k * k \<le> 2 ^ 31 * 2 ^ 31" using k(2) by (intro mult_mono) simp_all
  have c: "unat (of_nat (k * k div 512) :: usize) \<le> 2 ^ 62"
    using b by (simp add: unat_of_nat)
  have m: "unat (drop_bit 5 r * memory_gas sp) = k * unat (memory_gas sp)"
    using a k by (subst unat_mult_no_overflow) simp_all
  show ?thesis
    using assms a b c m k
    by (simp add: gas_for_mem_def Let_def overflowing_def overflow_mul_def overflow_mul_shr_def overflow_add_def
        overflowing_mul_def overflowing_add_def cost_from_def)
qed

lemma mem_gas_cost_small:
  fixes gm :: "usize gasometer"
  assumes "quad_coeff_div sp = 512" "unat (memory_gas sp) < 2 ^ 24" "mem_gas_ok sp gm cur" "unat mem \<le> 2 ^ 36"
  shows "mem_gas_cost gm sp cur mem \<noteq> Err e"
proof -
  have f: "\<not> snd (to_word_size mem)"
    using assms(4) by (simp add: to_word_size_flag)
  define r where "r = push_bit 5 (fst (to_word_size mem))"
  have r: "unat r = round_words (unat mem)"
    unfolding r_def using f round_up_32 [of 64 "unat mem"]
    by (subst unat_push_bit_5) (simp_all add: to_word_size_Ok round_words_def to_word_size_flag)
  have "round_words (unat mem) \<le> round_words (2 ^ 36)"
    unfolding round_words_def using assms(4) by (intro mult_mono div_le_mono) simp_all
  then have "unat r \<le> 2 ^ 36" by (simp add: r round_words_def)
  then obtain n where "gas_for_mem sp r = Ok n"
    using gas_for_mem_small [OF assms(1,2)] by blast
  then show ?thesis
    using f by (simp add: mem_gas_cost_def overflowing_def Let_def r_def [symmetric] u_sub_def as_usize_def rbind_def
        split: res.splits)
qed

text \<open>Growing the memory to cover \<open>mem\<close> bytes charges exactly the difference between the quadratic
  price of the new size, rounded up to whole words, and of the old one, and nothing when the memory is
  large enough already.  Requests of up to $2^{36}$ bytes always have a price; larger ones have one or
  are reported as out of gas, and no request panics.\<close>

theorem memory_expansion_price:
  fixes gm :: "usize gasometer"
  assumes "quad_coeff_div sp = 512" and "unat (memory_gas sp) < 2 ^ 24" and "mem_gas_ok sp gm cur"
  shows "case mem_gas_cost gm sp cur mem of
      Ok (cost, new_gas, sz) \<Rightarrow> unat sz = round_words (unat mem)
        \<and> unat new_gas = mem_cost sp (max (unat cur) (unat sz))
        \<and> unat cost = mem_cost sp (max (unat cur) (unat sz)) - mem_cost sp (unat cur)
    | Err e \<Rightarrow> 2 ^ 36 < unat mem
    | Panic \<Rightarrow> False"
  using mem_gas_cost_rwp [of sp gm cur mem] mem_gas_cost_small [OF assms, of mem] assms
  by (auto simp: rwp_def mem_gas_ok_def not_le [symmetric] split: res.splits)

theorem memory_expansion_price_witness:
  "case mem_gas_cost (gasometer_new 100) genesis_spec 0 (65 :: usize) of
      Ok (cost, new_gas, sz) \<Rightarrow> unat sz = round_words (unat (65 :: usize))
        \<and> unat new_gas = mem_cost genesis_spec (max (unat (0 :: usize)) (unat sz))
        \<and> unat cost = mem_cost genesis_spec (max (unat (0 :: usize)) (unat sz)) - mem_cost genesis_spec (unat (0 :: usize))
    | Err e \<Rightarrow> 2 ^ 36 < unat (65 :: usize)
    | Panic \<Rightarrow> False"
  by (rule memory_expansion_price) (simp_all add: genesis_spec_def mem_gas_ok_def gasometer_new_def mem_cost_def)

text \<open>The gas handed to a nested frame is the requested amount, but at most all but one 64th of what is
  left after the cost of the instruction; a request that does not fit the cost type, or none, gets
  that maximum.\<close>

theorem nested_gas_cap:
  fixes gm :: "usize gasometer"
  assumes "sub_gas_cap_divisor sp = Some 64" and "needed \<le> current_gas gm"
  shows "\<exists>p. gas_provided gm sp needed requested = Ok p \<and>
     (let rest = unat (current_gas gm) - unat needed; cap = rest - rest div 64 in
      unat p = (case requested of None \<Rightarrow> cap | Some r \<Rightarrow> min (unat r) cap))"
  by (rule gas_provided_capped [OF assms]) simp

theorem nested_gas_cap_witness:
  "\<exists>p. gas_provided (gasometer_new 6500 :: usize gasometer) genesis_spec 100 (Some (2 ^ 200)) = Ok p \<and>
     (let rest = unat (current_gas (gasometer_new 6500 :: usize gasometer)) - unat (100 :: usize); cap = rest - rest div 64 in
      unat p = (case Some (2 ^ 200 :: u256) of None \<Rightarrow> cap | Some r \<Rightarrow> min (unat r) cap))"
  by (rule nested_gas_cap) (simp_all add: genesis_spec_def gasometer_new_def)

text \<open>Both implementations of \<open>overflow_mul_shr\<close> compute the exact product, report an overflow exactly
  when it does not fit the type, and shift the full product: the detour of \<open>usize\<close> through 128 bits and of
  \<open>U256\<close> through 512 bits loses nothing.\<close>

theorem mul_shr_exact:
  "overflow_mul_shr_usize a b k = (of_nat (unat a * unat b div 2 ^ k), 2 ^ 64 \<le> unat a * unat b)
   \<and> overflow_mul_shr_u256 c d k = (of_nat (unat c * unat d div 2 ^ k), 2 ^ 256 \<le> unat c * unat d)"
  by (simp add: overflow_mul_shr_usize_eq overflow_mul_shr_u256_eq overflow_mul_shr_def)

text \<open>A gas limit selects the \<open>usize\<close> interpreter exactly when it converts to \<open>usize\<close> without loss.\<close>

theorem usize_gas_exact:
  "(can_fit_in_usize gas \<longleftrightarrow> unat gas < 2 ^ 64)
   \<and> (from_u256_usize gas = Ok g \<longleftrightarrow> unat g = unat gas)
   \<and> (from_u256_usize gas = Err OutOfGas \<longleftrightarrow> 2 ^ 64 \<le> unat gas)"
proof -
  have ok: "from_u256_usize gas = Ok h \<longleftrightarrow> unat gas < 2 ^ 64 \<and> unat h = unat gas" for h
    unfolding from_u256_usize_eq by (simp add: from_u256_Ok_iff)
  have err: "from_u256_usize gas = Err OutOfGas \<longleftrightarrow> 2 ^ 64 \<le> unat gas"
    using from_u256_Err [where 'g = 64 and v = gas] gas_fits [of gas] unfolding from_u256_usize_eq
    by (cases "unat gas < 2 ^ 64") auto
  have fit: "can_fit_in_usize gas \<longleftrightarrow> unat gas < 2 ^ 64"
    unfolding can_fit_in_usize_iff ok using gas_fits [of gas] by auto
  show ?thesis
    using ok [of g] err fit usize_lt [of g] by auto
qed

end
