(* ===== verification/Rlp.thy ===== *)
theory Rlp
  imports Vm_Types
begin

text \<open>
  What the program uses of the RLP crate, which is a parameter: encoders and decoders of basic
  values, lists, and the views \<open>item_count\<close>, \<open>at\<close> and \<open>iter\<close> of a received item.  Errors of a
  decoder carry the name of their variant.  The predicate \<open>rlp_ok\<close> states the documented laws.
\<close>

section \<open>The crate\<close>

record rlp_crate =
  enc_u8 :: "byte \<Rightarrow> bytes"
  dec_u8 :: "bytes \<Rightarrow> (string, byte) res"
  enc_bool :: "bool \<Rightarrow> bytes"
  dec_bool :: "bytes \<Rightarrow> (string, bool) res"
  enc_u32 :: "u32 \<Rightarrow> bytes"
  dec_u32 :: "bytes \<Rightarrow> (string, u32) res"
  enc_u64 :: "u64 \<Rightarrow> bytes"
  dec_u64 :: "bytes \<Rightarrow> (string, u64) res"
  enc_u256 :: "u256 \<Rightarrow> bytes"
  dec_u256 :: "bytes \<Rightarrow> (string, u256) res"
  enc_address :: "address \<Rightarrow> bytes"
  dec_address :: "bytes \<Rightarrow> (string, address) res"
  enc_h256 :: "h256 \<Rightarrow> bytes"
  dec_h256 :: "bytes \<Rightarrow> (string, h256) res"
  enc_h512 :: "u512 \<Rightarrow> bytes"
  dec_h512 :: "bytes \<Rightarrow> (string, u512) res"
  enc_bytes :: "bytes \<Rightarrow> bytes"
  dec_bytes :: "bytes \<Rightarrow> (string, bytes) res"
  enc_option :: "bytes option \<Rightarrow> bytes"
  dec_option :: "bytes \<Rightarrow> (string, bytes option) res"
  enc_list :: "bytes list \<Rightarrow> bytes"
  item_count :: "bytes \<Rightarrow> (string, nat) res"
  rlp_at :: "bytes \<Rightarrow> nat \<Rightarrow> (string, bytes) res"
  rlp_iter :: "bytes \<Rightarrow> bytes list"
  rlp_is_empty :: "bytes \<Rightarrow> bool"
  payload_total :: "bytes \<Rightarrow> (string, nat) res"

text \<open>
  A stream that begins a list of \<open>n\<close> items, appends \<open>items\<close> and is read: \<open>RlpStream::out\<close> panics when the list is not
  complete, and what comes after a complete list follows it.
\<close>

definition stream_list :: "'x rlp_crate_scheme \<Rightarrow> nat \<Rightarrow> bytes list \<Rightarrow> ('e, bytes) res" where
  "stream_list R n items = (if length items < n then Panic else Ok (enc_list R (take n items) @ concat (drop n items)))"

definition val_at :: "'x rlp_crate_scheme \<Rightarrow> (bytes \<Rightarrow> (string, 'a) res) \<Rightarrow> bytes \<Rightarrow> nat \<Rightarrow> (string, 'a) res" where
  "val_at R dec r i = rbind (rlp_at R r i) dec"

text \<open>Decoding each of the items that an iteration gives, up to the first error.\<close>

fun decode_all :: "(bytes \<Rightarrow> (string, 'a) res) \<Rightarrow> bytes list \<Rightarrow> (string, 'a list) res" where
  "decode_all dec [] = Ok []"
| "decode_all dec (x # xs) = rbind (dec x) (\<lambda>y. rbind (decode_all dec xs) (\<lambda>ys. Ok (y # ys)))"

definition as_list :: "'x rlp_crate_scheme \<Rightarrow> (bytes \<Rightarrow> (string, 'a) res) \<Rightarrow> bytes \<Rightarrow> (string, 'a list) res" where
  "as_list R dec r = decode_all dec (rlp_iter R r)"

definition list_at :: "'x rlp_crate_scheme \<Rightarrow> (bytes \<Rightarrow> (string, 'a) res) \<Rightarrow> bytes \<Rightarrow> nat \<Rightarrow> (string, 'a list) res" where
  "list_at R dec r i = rbind (rlp_at R r i) (as_list R dec)"

definition option_of :: "'x rlp_crate_scheme \<Rightarrow> (bytes \<Rightarrow> (string, 'a) res) \<Rightarrow> bytes \<Rightarrow> (string, 'a option) res" where
  "option_of R dec r = rbind (dec_option R r) (\<lambda>v. case v of None \<Rightarrow> Ok None | Some x \<Rightarrow> rbind (dec x) (\<lambda>y. Ok (Some y)))"

section \<open>Its laws\<close>

text \<open>
  \<open>single\<close> holds of the encodings of one item.  Vectors of bytes are in memory, shorter than \<open>2 ^ 63\<close>.
\<close>

definition rlp_ok :: "'x rlp_crate_scheme \<Rightarrow> (bytes \<Rightarrow> bool) \<Rightarrow> bool" where
  "rlp_ok R single \<longleftrightarrow>
     (\<forall>x. single (enc_u8 R x) \<and> dec_u8 R (enc_u8 R x) = Ok x) \<and>
     (\<forall>x. single (enc_bool R x) \<and> dec_bool R (enc_bool R x) = Ok x) \<and>
     (\<forall>x. single (enc_u32 R x) \<and> dec_u32 R (enc_u32 R x) = Ok x) \<and>
     (\<forall>x. single (enc_u64 R x) \<and> dec_u64 R (enc_u64 R x) = Ok x) \<and>
     (\<forall>x. single (enc_u256 R x) \<and> dec_u256 R (enc_u256 R x) = Ok x) \<and>
     (\<forall>x. single (enc_address R x) \<and> dec_address R (enc_address R x) = Ok x \<and> \<not> rlp_is_empty R (enc_address R x)) \<and>
     (\<forall>x. single (enc_h256 R x) \<and> dec_h256 R (enc_h256 R x) = Ok x) \<and>
     (\<forall>x. single (enc_h512 R x) \<and> dec_h512 R (enc_h512 R x) = Ok x) \<and>
     (\<forall>x. single (enc_bytes R x) \<and> (length x < 2 ^ 63 \<longrightarrow> dec_bytes R (enc_bytes R x) = Ok x)) \<and>
     rlp_is_empty R (enc_bytes R []) \<and>
     (\<forall>x. (\<forall>y \<in> set_option x. single y) \<longrightarrow> single (enc_option R x) \<and> dec_option R (enc_option R x) = Ok x) \<and>
     (\<forall>xs. list_all single xs \<longrightarrow> single (enc_list R xs) \<and> item_count R (enc_list R xs) = Ok (length xs) \<and>
        (\<forall>i. if i < length xs then rlp_at R (enc_list R xs) i = Ok (xs ! i) else \<exists>e. rlp_at R (enc_list R xs) i = Err e) \<and>
        rlp_iter R (enc_list R xs) = xs) \<and>
     (\<forall>x. single x \<longrightarrow> payload_total R x = Ok (length x))"

text \<open>No view of the crate panics, whatever the bytes.\<close>

definition rlp_calm :: "'x rlp_crate_scheme \<Rightarrow> bool" where
  "rlp_calm R \<longleftrightarrow> (\<forall>r. item_count R r \<noteq> Panic \<and> (\<forall>i. rlp_at R r i \<noteq> Panic) \<and> dec_bytes R r \<noteq> Panic \<and>
     dec_u256 R r \<noteq> Panic \<and> dec_h256 R r \<noteq> Panic)"

lemmas rlp_simps = stream_list_def val_at_def list_at_def as_list_def option_of_def

lemma rlp_single:
  assumes "rlp_ok R single"
  shows "single (enc_u8 R b)" "single (enc_bool R c)" "single (enc_u32 R d)" "single (enc_u64 R e)" "single (enc_u256 R f)"
    "single (enc_address R a)" "single (enc_h256 R h)" "single (enc_h512 R k)" "single (enc_bytes R bs)"
    "(\<And>y. x = Some y \<Longrightarrow> single y) \<Longrightarrow> single (enc_option R x)"
    "list_all single xs \<Longrightarrow> single (enc_list R xs)"
  using assms unfolding rlp_ok_def by auto

lemma rlp_dec:
  assumes "rlp_ok R single"
  shows "dec_u8 R (enc_u8 R b) = Ok b" "dec_bool R (enc_bool R c) = Ok c" "dec_u32 R (enc_u32 R d) = Ok d" "dec_u64 R (enc_u64 R e) = Ok e"
    "dec_u256 R (enc_u256 R f) = Ok f" "dec_address R (enc_address R a) = Ok a" "dec_h256 R (enc_h256 R h) = Ok h"
    "dec_h512 R (enc_h512 R k) = Ok k" "length bs < 2 ^ 63 \<Longrightarrow> dec_bytes R (enc_bytes R bs) = Ok bs"
    "(\<And>y. x = Some y \<Longrightarrow> single y) \<Longrightarrow> dec_option R (enc_option R x) = Ok x"
    "\<not> rlp_is_empty R (enc_address R a)" "rlp_is_empty R (enc_bytes R [])"
  using assms unfolding rlp_ok_def by auto

lemma rlp_list:
  assumes "rlp_ok R single" "list_all single xs"
  shows "item_count R (enc_list R xs) = Ok (length xs)" "i < length xs \<Longrightarrow> rlp_at R (enc_list R xs) i = Ok (xs ! i)"
    "length xs \<le> i \<Longrightarrow> \<exists>e. rlp_at R (enc_list R xs) i = Err e" "rlp_iter R (enc_list R xs) = xs"
    "payload_total R (enc_list R xs) = Ok (length (enc_list R xs))"
proof -
  have l: "single (enc_list R xs) \<and> item_count R (enc_list R xs) = Ok (length xs) \<and>
      (\<forall>i. if i < length xs then rlp_at R (enc_list R xs) i = Ok (xs ! i) else \<exists>e. rlp_at R (enc_list R xs) i = Err e) \<and>
      rlp_iter R (enc_list R xs) = xs" and "single (enc_list R xs) \<longrightarrow> payload_total R (enc_list R xs) = Ok (length (enc_list R xs))"
    using assms unfolding rlp_ok_def by blast+
  then show "item_count R (enc_list R xs) = Ok (length xs)" "rlp_iter R (enc_list R xs) = xs"
    "payload_total R (enc_list R xs) = Ok (length (enc_list R xs))"
    "i < length xs \<Longrightarrow> rlp_at R (enc_list R xs) i = Ok (xs ! i)" "length xs \<le> i \<Longrightarrow> \<exists>e. rlp_at R (enc_list R xs) i = Err e"
    by (auto dest: spec [of _ i])
qed

text \<open>Reading the items of an encoded list.\<close>

lemma rlp_reads:
  assumes "rlp_ok R single" "list_all single xs"
  shows "i < length xs \<Longrightarrow> val_at R dec (enc_list R xs) i = dec (xs ! i)"
    "i < length xs \<Longrightarrow> list_at R dec (enc_list R xs) i = as_list R dec (xs ! i)"
    "as_list R dec (enc_list R xs) = decode_all dec xs"
  using rlp_list [OF assms] by (simp_all add: val_at_def list_at_def as_list_def)

lemma decode_all_map: "(\<And>x. x \<in> set xs \<Longrightarrow> dec (enc x) = Ok x) \<Longrightarrow> decode_all dec (map enc xs) = Ok xs"
  by (induction xs) auto

end
