(* ===== verification/State_Db.thy ===== *)
theory State_Db
  imports Rlp
begin

text \<open>
  The database under the world state: the storage trait and its in-memory implementation
  (backend/storage), the typed access of \<open>StateDbExt\<close> (backend/statedb), the keys
  (primitives/storage_key.rs) and the account data that is stored (primitives/account.rs).
  The RLP crate and the Keccak hash are parameters, fields of the record \<open>backend\<close>.
\<close>

section \<open>Accounts and keys\<close>

record account =
  ac_address :: address_with_space
  ac_balance :: u256
  ac_nonce :: u256
  ac_code_hash :: h256

datatype state_key =
    AccountKey address_with_space
  | StorageKey address_with_space bytes
  | CodeKey address_with_space

definition STORAGE_PREFIX :: bytes where
  "STORAGE_PREFIX = [0x73, 0x74, 0x6f, 0x72, 0x65]"

definition CODE_PREFIX :: bytes where
  "CODE_PREFIX = [0x63, 0x6f, 0x64, 0x65]"

definition state_key_bytes :: "state_key \<Rightarrow> bytes" where
  "state_key_bytes k = (case k of
     AccountKey a \<Rightarrow> to_be 20 (aws_address a)
   | StorageKey a sk \<Rightarrow> to_be 20 (aws_address a) @ STORAGE_PREFIX @ sk
   | CodeKey a \<Rightarrow> to_be 20 (aws_address a) @ CODE_PREFIX)"

section \<open>Storage\<close>

text \<open>The methods of \<open>dyn StorageTrait\<close> over a store of type \<open>'d\<close>.\<close>

record 'd storage_ops =
  st_get :: "bytes \<Rightarrow> 'd \<Rightarrow> bytes option db_result"
  st_set :: "bytes \<Rightarrow> bytes \<Rightarrow> ('d, db_error, unit) eff"
  st_delete :: "bytes \<Rightarrow> ('d, db_error, unit) eff"
  st_commit :: "h256 \<Rightarrow> ('d, db_error, unit) eff"

type_synonym in_memory_db = "bytes \<rightharpoonup> bytes"

definition in_memory_get :: "bytes \<Rightarrow> in_memory_db \<Rightarrow> bytes option db_result" where
  "in_memory_get k db = Ok (db k)"

definition in_memory_set :: "bytes \<Rightarrow> bytes \<Rightarrow> (in_memory_db, db_error, unit) eff" where
  "in_memory_set k v = emodify (\<lambda>db. db(k \<mapsto> v))"

definition in_memory_delete :: "bytes \<Rightarrow> (in_memory_db, db_error, unit) eff" where
  "in_memory_delete k = emodify (\<lambda>db. db(k := None))"

definition in_memory_commit :: "h256 \<Rightarrow> (in_memory_db, db_error, unit) eff" where
  "in_memory_commit epoch = eret ()"

definition in_memory_ops :: "in_memory_db storage_ops" where
  "in_memory_ops = \<lparr>st_get = in_memory_get, st_set = in_memory_set, st_delete = in_memory_delete,
     st_commit = in_memory_commit\<rparr>"

section \<open>Encodings\<close>

text \<open>The crate, with the encodings that its macro derives for \<open>EthereumAccount\<close> and \<open>StorageValue\<close>.\<close>

record rlp_ops = rlp_crate +
  enc_evm_account :: "u256 \<times> u256 \<times> h256 \<Rightarrow> bytes"
  dec_evm_account :: "bytes \<Rightarrow> (string, u256 \<times> u256 \<times> h256) res"
  enc_value :: "u256 \<Rightarrow> bytes"
  dec_value :: "bytes \<Rightarrow> (string, u256) res"

text \<open>\<open>CodeInfo\<close> begins a list of two items and appends one.\<close>

definition code_info_rlp :: "'x rlp_crate_scheme \<Rightarrow> bytes \<Rightarrow> ('e, bytes) res" where
  "code_info_rlp R code = stream_list R 2 [enc_bytes R code]"

definition code_info_decode :: "'x rlp_crate_scheme \<Rightarrow> bytes \<Rightarrow> (string, bytes) res" where
  "code_info_decode R raw = val_at R (dec_bytes R) raw 0"

text \<open>The error of a decoder as an error of an account, and as one of the database.\<close>

definition map_err :: "('e \<Rightarrow> 'f) \<Rightarrow> ('e, 'a) res \<Rightarrow> ('f, 'a) res" where
  "map_err f r = (case r of Ok a \<Rightarrow> Ok a | Err e \<Rightarrow> Err (f e) | Panic \<Rightarrow> Panic)"

lemma map_err_simps [simp]:
  "map_err f (Ok a) = Ok a" "map_err f (Err e) = Err (f e)" "map_err f Panic = Panic" "map_err f r = Panic \<longleftrightarrow> r = Panic"
  "map_err f r = Ok a \<longleftrightarrow> r = Ok a"
  by (cases r; simp add: map_err_def)+

record 'd backend =
  bk_storage :: "'d storage_ops"
  bk_rlp :: rlp_ops
  bk_keccak :: "bytes \<Rightarrow> h256"
  bk_keccak_empty :: h256

definition new_empty_with_balance :: "'d backend \<Rightarrow> address_with_space \<Rightarrow> u256 \<Rightarrow> u256 \<Rightarrow> account" where
  "new_empty_with_balance B a balance nonce =
     \<lparr>ac_address = a, ac_balance = balance, ac_nonce = nonce, ac_code_hash = bk_keccak_empty B\<rparr>"

definition new_empty :: "'d backend \<Rightarrow> address_with_space \<Rightarrow> account" where
  "new_empty B a = new_empty_with_balance B a 0 0"

definition from_ethereum_account :: "address \<Rightarrow> u256 \<times> u256 \<times> h256 \<Rightarrow> account" where
  "from_ethereum_account a x = (case x of (balance, nonce, code_hash) \<Rightarrow>
     \<lparr>ac_address = with_space a Ethereum, ac_balance = balance, ac_nonce = nonce, ac_code_hash = code_hash\<rparr>)"

definition to_evm_account :: "account \<Rightarrow> u256 \<times> u256 \<times> h256" where
  "to_evm_account acc = (ac_balance acc, ac_nonce acc, ac_code_hash acc)"

definition new_from_rlp :: "'d backend \<Rightarrow> address \<Rightarrow> bytes \<Rightarrow> account db_result" where
  "new_from_rlp B a raw =
     rbind (map_err AccountError (item_count (bk_rlp B) raw)) (\<lambda>n.
     if n = 3 then rbind (map_err AccountError (dec_evm_account (bk_rlp B) raw)) (\<lambda>x. Ok (from_ethereum_account a x))
     else Err (AccountError ''RlpIncorrectListLen''))"

text \<open>The values the world state treats as absent.\<close>

definition account_is_default :: "'d backend \<Rightarrow> account \<Rightarrow> bool" where
  "account_is_default B acc \<longleftrightarrow> ac_balance acc = 0 \<and> ac_nonce acc = 0 \<and> ac_code_hash acc = bk_keccak_empty B"

definition code_is_default :: "bytes \<Rightarrow> bool" where
  "code_is_default code \<longleftrightarrow> length code = 0"

definition value_is_default :: "u256 \<Rightarrow> bool" where
  "value_is_default v \<longleftrightarrow> v = 0"

section \<open>Typed access\<close>

definition db_get_raw :: "'d backend \<Rightarrow> state_key \<Rightarrow> 'd \<Rightarrow> bytes option db_result" where
  "db_get_raw B k db = st_get (bk_storage B) (state_key_bytes k) db"

definition db_set_raw :: "'d backend \<Rightarrow> state_key \<Rightarrow> bytes \<Rightarrow> ('d, db_error, unit) eff" where
  "db_set_raw B k v = st_set (bk_storage B) (state_key_bytes k) v"

definition db_delete :: "'d backend \<Rightarrow> state_key \<Rightarrow> ('d, db_error, unit) eff" where
  "db_delete B k = st_delete (bk_storage B) (state_key_bytes k)"

definition db_commit :: "'d backend \<Rightarrow> h256 \<Rightarrow> ('d, db_error, unit) eff" where
  "db_commit B epoch_id = st_commit (bk_storage B) epoch_id"

definition db_get :: "(bytes \<Rightarrow> 'a db_result) \<Rightarrow> 'd backend \<Rightarrow> state_key \<Rightarrow> 'd \<Rightarrow> 'a option db_result" where
  "db_get dec B k db =
     rbind (db_get_raw B k db) (\<lambda>r. case r of
       None \<Rightarrow> Ok None
     | Some raw \<Rightarrow> rbind (dec raw) (\<lambda>x. Ok (Some x)))"

definition db_set :: "('a \<Rightarrow> bool) \<Rightarrow> ('a \<Rightarrow> bytes db_result) \<Rightarrow> 'd backend \<Rightarrow> state_key \<Rightarrow> 'a \<Rightarrow> ('d, db_error, unit) eff" where
  "db_set is_default enc B k v = (if is_default v then db_delete B k else ebind (elift (enc v)) (db_set_raw B k))"

definition db_get_account :: "'d backend \<Rightarrow> address_with_space \<Rightarrow> 'd \<Rightarrow> account option db_result" where
  "db_get_account B a db = db_get (new_from_rlp B (aws_address a)) B (AccountKey a) db"

definition db_get_code :: "'d backend \<Rightarrow> address_with_space \<Rightarrow> h256 \<Rightarrow> 'd \<Rightarrow> bytes option db_result" where
  "db_get_code B a code_hash db = db_get (\<lambda>raw. map_err DecoderError (code_info_decode (bk_rlp B) raw)) B (CodeKey a) db"

definition db_get_storage :: "'d backend \<Rightarrow> address_with_space \<Rightarrow> bytes \<Rightarrow> 'd \<Rightarrow> u256 option db_result" where
  "db_get_storage B a k db = db_get (\<lambda>raw. map_err DecoderError (dec_value (bk_rlp B) raw)) B (StorageKey a k) db"

definition STORAGE_INTEREST_STAKING_CONTRACT_ADDRESS :: address where
  "STORAGE_INTEREST_STAKING_CONTRACT_ADDRESS = 0x0888000000000000000000000000000000000002"

definition SYSTEM_STORAGE_ADDRESS :: address where
  "SYSTEM_STORAGE_ADDRESS = 0x088800000000000000000000000000000000000a"

definition TOTAL_TOKENS_KEY :: bytes where
  "TOTAL_TOKENS_KEY = [0x74, 0x6f, 0x74, 0x61, 0x6c, 0x5f, 0x69, 0x73, 0x73, 0x75, 0x65, 0x64, 0x5f,
     0x74, 0x6f, 0x6b, 0x65, 0x6e, 0x73]"

definition total_tokens_state_key :: state_key where
  "total_tokens_state_key = StorageKey (with_space STORAGE_INTEREST_STAKING_CONTRACT_ADDRESS Ethereum) TOTAL_TOKENS_KEY"

definition get_total_issued_tokens :: "'d backend \<Rightarrow> 'd \<Rightarrow> u256 db_result" where
  "get_total_issued_tokens B db =
     rbind (db_get (\<lambda>raw. map_err DecoderError (dec_u256 (bk_rlp B) raw)) B total_tokens_state_key db) (\<lambda>r. Ok (case r of Some v \<Rightarrow> v | None \<Rightarrow> 0))"

definition set_total_issued_tokens :: "'d backend \<Rightarrow> u256 \<Rightarrow> ('d, db_error, unit) eff" where
  "set_total_issued_tokens B v = db_set value_is_default (\<lambda>v. Ok (enc_u256 (bk_rlp B) v)) B total_tokens_state_key v"

section \<open>Keys do not collide\<close>

lemma to_be_address_inject: "to_be 20 (a :: address) = to_be 20 b \<longleftrightarrow> a = b"
proof
  assume "to_be 20 a = to_be 20 b"
  then have "(from_be (to_be 20 a) :: address) = from_be (to_be 20 b)" by simp
  then show "a = b" by (simp add: from_be_to_be take_bit_word_eq_self)
qed simp

lemma aws_eq_iff: "(a :: address_with_space) = b \<longleftrightarrow> aws_address a = aws_address b"
  by (cases a; cases b; cases "aws_space a"; cases "aws_space b") simp

lemma state_key_bytes_inject: "state_key_bytes j = state_key_bytes k \<longleftrightarrow> j = k"
proof
  assume e: "state_key_bytes j = state_key_bytes k"
  then have "take 20 (state_key_bytes j) = take 20 (state_key_bytes k)"
    "drop 20 (state_key_bytes j) = drop 20 (state_key_bytes k)" by simp_all
  then show "j = k"
    by (cases j; cases k)
      (simp_all add: state_key_bytes_def to_be_address_inject STORAGE_PREFIX_def CODE_PREFIX_def aws_eq_iff)
qed simp

section \<open>The contract of storage\<close>

text \<open>A storage that reads what was written, over the map \<open>A\<close> it represents.\<close>

locale storage_laws =
  fixes S :: "'d storage_ops"
    and A :: "'d \<Rightarrow> bytes \<rightharpoonup> bytes"
  assumes get: "st_get S k db = Ok (A db k)"
    and set: "\<exists>db'. st_set S k v db = (Ok (), db') \<and> A db' = (A db)(k \<mapsto> v)"
    and delete: "\<exists>db'. st_delete S k db = (Ok (), db') \<and> A db' = (A db)(k := None)"
    and commit: "\<exists>db'. st_commit S epoch db = (Ok (), db') \<and> A db' = A db"
begin

text \<open>A typed write is read back, a default value as absent, and no other key is affected.\<close>

lemma set_get:
  assumes B: "bk_storage B = S" and codec: "enc v = Ok raw" "dec raw = Ok v"
  shows "\<exists>db'. db_set is_default enc B k v db = (Ok (), db') \<and>
    db_get dec B k db' = Ok (if is_default v then None else Some v) \<and>
    (\<forall>j. j \<noteq> k \<longrightarrow> db_get_raw B j db' = db_get_raw B j db)"
proof (cases "is_default v")
  case True
  obtain db' where "st_delete S (state_key_bytes k) db = (Ok (), db')" "A db' = (A db)(state_key_bytes k := None)"
    using delete by blast
  with True B show ?thesis
    by (simp add: db_set_def db_delete_def db_get_def db_get_raw_def get state_key_bytes_inject)
next
  case False
  obtain db' where "st_set S (state_key_bytes k) raw db = (Ok (), db')"
    "A db' = (A db)(state_key_bytes k \<mapsto> raw)"
    using set by blast
  with False B codec show ?thesis
    by (simp add: eff_simps db_set_def db_set_raw_def db_get_def db_get_raw_def get state_key_bytes_inject)
qed

end

interpretation mem: storage_laws in_memory_ops "\<lambda>db. db"
  by unfold_locales (simp_all add: in_memory_ops_def in_memory_get_def in_memory_set_def in_memory_delete_def
      in_memory_commit_def emodify_def eret_def)

end
