(* ===== verification/Hash_Map.thy ===== *)
theory Hash_Map
  imports Main "HOL-Library.AList"
begin

text \<open>
  The \<open>HashMap\<close> of the Rust standard library as the sources use it: an association list in which
  every key occurs once and whose order is the order of iteration, which the standard library
  leaves open.  No theorem of the development depends on it: every lookup goes through
  \<open>hm_get\<close>, and what the loops over a map compute is stated through \<open>hm_get\<close> as well.
\<close>

named_theorems hm_simps "lookups after an operation on a hash map"

type_synonym ('k, 'v) hash_map = "('k \<times> 'v) list"

abbreviation hm_get :: "('k, 'v) hash_map \<Rightarrow> 'k \<Rightarrow> 'v option" where
  "hm_get m \<equiv> map_of m"

definition hm_insert :: "'k \<Rightarrow> 'v \<Rightarrow> ('k, 'v) hash_map \<Rightarrow> ('k, 'v) hash_map" where
  "hm_insert k v m = AList.update k v m"

definition hm_remove :: "'k \<Rightarrow> ('k, 'v) hash_map \<Rightarrow> ('k, 'v) hash_map" where
  "hm_remove k m = AList.delete k m"

definition hm_contains :: "'k \<Rightarrow> ('k, 'v) hash_map \<Rightarrow> bool" where
  "hm_contains k m \<longleftrightarrow> hm_get m k \<noteq> None"

text \<open>\<open>entry(k).or_insert(v)\<close>.\<close>

definition hm_or_insert :: "'k \<Rightarrow> 'v \<Rightarrow> ('k, 'v) hash_map \<Rightarrow> ('k, 'v) hash_map" where
  "hm_or_insert k v m = (case hm_get m k of Some _ \<Rightarrow> m | None \<Rightarrow> hm_insert k v m)"

definition hm_ok :: "('k, 'v) hash_map \<Rightarrow> bool" where
  "hm_ok m \<longleftrightarrow> distinct (map fst m)"

lemma hm_ok_Nil [simp]: "hm_ok []"
  by (simp add: hm_ok_def)

lemma hm_get_insert [hm_simps]: "hm_get (hm_insert k v m) = (hm_get m)(k \<mapsto> v)"
  by (simp add: hm_insert_def update_conv')

lemma hm_get_remove [hm_simps]: "hm_get (hm_remove k m) = (hm_get m)(k := None)"
  by (simp add: hm_remove_def delete_conv')

lemma hm_get_or_insert [hm_simps]:
  "hm_get (hm_or_insert k v m) = (hm_get m)(k := Some (case hm_get m k of Some w \<Rightarrow> w | None \<Rightarrow> v))"
  by (rule ext) (simp add: hm_or_insert_def hm_get_insert split: option.splits)

lemma hm_ok_insert [simp]: "hm_ok m \<Longrightarrow> hm_ok (hm_insert k v m)"
  by (simp add: hm_ok_def hm_insert_def distinct_update)

lemma hm_ok_remove [simp]: "hm_ok m \<Longrightarrow> hm_ok (hm_remove k m)"
  by (simp add: hm_ok_def hm_remove_def distinct_delete)

lemma hm_ok_or_insert [simp]: "hm_ok m \<Longrightarrow> hm_ok (hm_or_insert k v m)"
  by (simp add: hm_or_insert_def split: option.splits)

text \<open>Merging a map into another that has priority, entry by entry.\<close>

lemma hm_get_fold_or_insert:
  "hm_get (fold (\<lambda>(k, v). hm_or_insert k v) xs m) = hm_get xs ++ hm_get m"
proof (induction xs arbitrary: m)
  case (Cons x xs)
  obtain k v where "x = (k, v)" by (cases x)
  then show ?case
    by (auto simp: Cons.IH hm_get_or_insert map_add_def fun_eq_iff split: option.splits)
qed simp

lemma hm_ok_fold_or_insert: "hm_ok m \<Longrightarrow> hm_ok (fold (\<lambda>(k, v). hm_or_insert k v) xs m)"
  by (induction xs arbitrary: m) auto

end
