(* ===== verification/Overlay_Account.thy ===== *)
theory Overlay_Account
  imports State_Db Hash_Map
begin

text \<open>
  The account overlay and its cache entry (src/state/account_entry.rs).  The storage caches are
  reference-counted maps in the source: the write cache is copied before it is written
  (\<open>Arc::make_mut\<close>), so it behaves as a value; the read cache is shared between an account and
  its clones, and holds only values of the database, so a clone that owns a copy returns the same values.
\<close>

section \<open>Address classes\<close>

definition address_type_bits :: "address \<Rightarrow> byte" where
  "address_type_bits a = hd (to_be 20 a) AND 0xf0"

definition is_builtin_address :: "address \<Rightarrow> bool" where
  "is_builtin_address a \<longleftrightarrow> address_type_bits a = 0 \<and> a \<noteq> 0"

section \<open>Accounts\<close>

datatype storage_layout = Regular byte

record overlay_account =
  oa_address :: address_with_space
  oa_balance :: u256
  oa_nonce :: u256
  oa_read_cache :: "(bytes, u256) hash_map"
  oa_write_cache :: "(bytes, u256) hash_map"
  oa_layout :: "storage_layout option"
  oa_code_hash :: h256
  oa_code :: "bytes option"
  oa_newly_created :: bool
  oa_invalidated :: bool

definition from_loaded :: "address_with_space \<Rightarrow> account \<Rightarrow> overlay_account" where
  "from_loaded a acc = \<lparr>oa_address = a, oa_balance = ac_balance acc, oa_nonce = ac_nonce acc,
     oa_read_cache = [], oa_write_cache = [], oa_layout = None, oa_code_hash = ac_code_hash acc,
     oa_code = None, oa_newly_created = False, oa_invalidated = False\<rparr>"

definition new_basic :: "'d backend \<Rightarrow> address_with_space \<Rightarrow> u256 \<Rightarrow> u256 \<Rightarrow> overlay_account" where
  "new_basic B a balance nonce = \<lparr>oa_address = a, oa_balance = balance, oa_nonce = nonce,
     oa_read_cache = [], oa_write_cache = [], oa_layout = None, oa_code_hash = bk_keccak_empty B,
     oa_code = None, oa_newly_created = False, oa_invalidated = False\<rparr>"

definition new_removed :: "'d backend \<Rightarrow> address_with_space \<Rightarrow> overlay_account" where
  "new_removed B a = \<lparr>oa_address = a, oa_balance = 0, oa_nonce = 0,
     oa_read_cache = [], oa_write_cache = [], oa_layout = None, oa_code_hash = bk_keccak_empty B,
     oa_code = None, oa_newly_created = False, oa_invalidated = True\<rparr>"

definition new_contract_account ::
  "'d backend \<Rightarrow> address_with_space \<Rightarrow> u256 \<Rightarrow> u256 \<Rightarrow> bool \<Rightarrow> storage_layout option \<Rightarrow> overlay_account" where
  "new_contract_account B a balance nonce invalidated_storage layout =
     \<lparr>oa_address = a, oa_balance = balance, oa_nonce = nonce,
      oa_read_cache = [], oa_write_cache = [], oa_layout = layout, oa_code_hash = bk_keccak_empty B,
      oa_code = None, oa_newly_created = True, oa_invalidated = invalidated_storage\<rparr>"

definition as_account :: "'d backend \<Rightarrow> overlay_account \<Rightarrow> account" where
  "as_account B oa = (new_empty B (oa_address oa))\<lparr>ac_balance := oa_balance oa, ac_nonce := oa_nonce oa,
     ac_code_hash := oa_code_hash oa, ac_address := oa_address oa\<rparr>"

definition is_contract :: "'d backend \<Rightarrow> overlay_account \<Rightarrow> bool" where
  "is_contract B oa \<longleftrightarrow> oa_code_hash oa \<noteq> bk_keccak_empty B \<or> oa_newly_created oa"

definition fresh_storage :: "overlay_account \<Rightarrow> bool" where
  "fresh_storage oa \<longleftrightarrow>
     (oa_newly_created oa \<and> \<not> is_builtin_address (aws_address (oa_address oa))) \<or> oa_invalidated oa"

definition removed_without_update :: "'d backend \<Rightarrow> overlay_account \<Rightarrow> bool" where
  "removed_without_update B oa \<longleftrightarrow> oa_invalidated oa \<and> account_is_default B (as_account B oa)"

definition is_code_loaded :: "'d backend \<Rightarrow> overlay_account \<Rightarrow> bool" where
  "is_code_loaded B oa \<longleftrightarrow> oa_code oa \<noteq> None \<or> oa_code_hash oa = bk_keccak_empty B"

definition is_null :: "'d backend \<Rightarrow> overlay_account \<Rightarrow> bool" where
  "is_null B oa \<longleftrightarrow> oa_balance oa = 0 \<and> oa_nonce oa = 0 \<and> oa_code_hash oa = bk_keccak_empty B"

definition is_basic :: "'d backend \<Rightarrow> overlay_account \<Rightarrow> bool" where
  "is_basic B oa \<longleftrightarrow> oa_code_hash oa = bk_keccak_empty B"

definition oa_set_nonce :: "u256 \<Rightarrow> (overlay_account, 'e, unit) eff" where
  "oa_set_nonce nonce = emodify (\<lambda>oa. oa\<lparr>oa_nonce := nonce\<rparr>)"

definition oa_inc_nonce :: "(overlay_account, 'e, unit) eff" where
  "oa_inc_nonce =
     ebind (eget oa_nonce) (\<lambda>n. ebind (elift (u_add n 1)) (\<lambda>n'. emodify (\<lambda>oa. oa\<lparr>oa_nonce := n'\<rparr>)))"

definition oa_add_balance :: "u256 \<Rightarrow> (overlay_account, 'e, unit) eff" where
  "oa_add_balance v =
     ebind (eget oa_balance) (\<lambda>b. ebind (elift (u_add b v)) (\<lambda>b'. emodify (\<lambda>oa. oa\<lparr>oa_balance := b'\<rparr>)))"

definition oa_sub_balance :: "u256 \<Rightarrow> (overlay_account, 'e, unit) eff" where
  "oa_sub_balance v = ebind (eget oa_balance) (\<lambda>b. if v \<le> b
     then ebind (elift (u_sub b v)) (\<lambda>b'. emodify (\<lambda>oa. oa\<lparr>oa_balance := b'\<rparr>)) else epanic)"

definition cache_code :: "'d backend \<Rightarrow> 'd \<Rightarrow> (overlay_account, db_error, bool) eff" where
  "cache_code B db = (\<lambda>oa.
     if is_code_loaded B oa then (Ok True, oa)
     else case db_get_code B (oa_address oa) (oa_code_hash oa) db of
       Ok code \<Rightarrow> (Ok (code \<noteq> None), oa\<lparr>oa_code := code\<rparr>)
     | Err e \<Rightarrow> (Err e, oa)
     | Panic \<Rightarrow> (Panic, oa))"

definition clone_basic :: "overlay_account \<Rightarrow> overlay_account" where
  "clone_basic oa = \<lparr>oa_address = oa_address oa, oa_balance = oa_balance oa, oa_nonce = oa_nonce oa,
     oa_read_cache = [], oa_write_cache = [], oa_layout = None, oa_code_hash = oa_code_hash oa,
     oa_code = oa_code oa, oa_newly_created = oa_newly_created oa, oa_invalidated = oa_invalidated oa\<rparr>"

definition oa_clone_dirty :: "overlay_account \<Rightarrow> overlay_account" where
  "oa_clone_dirty oa = (clone_basic oa)\<lparr>oa_write_cache := oa_write_cache oa,
     oa_read_cache := oa_read_cache oa, oa_layout := oa_layout oa\<rparr>"

definition oa_set_storage :: "bytes \<Rightarrow> u256 \<Rightarrow> (overlay_account, 'e, unit) eff" where
  "oa_set_storage k v = emodify (\<lambda>oa. oa\<lparr>oa_write_cache := hm_insert k v (oa_write_cache oa)\<rparr>)"

definition cached_storage_at :: "overlay_account \<Rightarrow> bytes \<Rightarrow> u256 option" where
  "cached_storage_at oa k = (case hm_get (oa_write_cache oa) k of
     Some v \<Rightarrow> Some v
   | None \<Rightarrow> (case hm_get (oa_read_cache oa) k of Some v \<Rightarrow> Some v | None \<Rightarrow> None))"

definition get_and_cache_storage ::
  "'d backend \<Rightarrow> 'd \<Rightarrow> address_with_space \<Rightarrow> bytes \<Rightarrow> ((bytes, u256) hash_map, db_error, u256) eff" where
  "get_and_cache_storage B db a k = (\<lambda>cache. case db_get_storage B a k db of
     Ok (Some v) \<Rightarrow> (Ok v, hm_insert k v cache)
   | Ok None \<Rightarrow> (Ok 0, hm_insert k 0 cache)
   | Err e \<Rightarrow> (Err e, cache)
   | Panic \<Rightarrow> (Panic, cache))"

definition oa_storage_at :: "'d backend \<Rightarrow> 'd \<Rightarrow> bytes \<Rightarrow> (overlay_account, db_error, u256) eff" where
  "oa_storage_at B db k = (\<lambda>oa. case cached_storage_at oa k of
     Some v \<Rightarrow> (Ok v, oa)
   | None \<Rightarrow> if fresh_storage oa then (Ok 0, oa)
       else (case get_and_cache_storage B db (oa_address oa) k (oa_read_cache oa) of
         (r, cache) \<Rightarrow> (r, oa\<lparr>oa_read_cache := cache\<rparr>)))"

definition oa_init_code :: "'d backend \<Rightarrow> bytes \<Rightarrow> (overlay_account, 'e, unit) eff" where
  "oa_init_code B code = emodify (\<lambda>oa. oa\<lparr>oa_code_hash := bk_keccak B code, oa_code := Some code\<rparr>)"

definition oa_overwrite_with :: "overlay_account \<Rightarrow> overlay_account \<Rightarrow> overlay_account" where
  "oa_overwrite_with other oa = oa\<lparr>oa_balance := oa_balance other, oa_nonce := oa_nonce other,
     oa_code_hash := oa_code_hash other, oa_code := oa_code other, oa_read_cache := oa_read_cache other,
     oa_write_cache := oa_write_cache other, oa_layout := oa_layout other,
     oa_newly_created := oa_newly_created other, oa_invalidated := oa_invalidated other\<rparr>"

section \<open>Cache entries\<close>

datatype account_state = CleanFresh | CleanCached | Dirty | Committed

record account_entry =
  ae_account :: "overlay_account option"
  ae_old_balance :: "u256 option"
  ae_state :: account_state

definition is_dirty :: "account_entry \<Rightarrow> bool" where
  "is_dirty e \<longleftrightarrow> ae_state e = Dirty"

definition ae_overwrite_with :: "account_entry \<Rightarrow> account_entry \<Rightarrow> account_entry" where
  "ae_overwrite_with other e = (let e' = e\<lparr>ae_state := ae_state other\<rparr> in
     case ae_account other of
       Some acc \<Rightarrow> (case ae_account e' of
           Some ours \<Rightarrow> e'\<lparr>ae_account := Some (oa_overwrite_with acc ours)\<rparr>
         | None \<Rightarrow> e'\<lparr>ae_account := Some acc\<rparr>)
     | None \<Rightarrow> e'\<lparr>ae_account := None\<rparr>)"

definition ae_clone_dirty :: "account_entry \<Rightarrow> account_entry" where
  "ae_clone_dirty e = \<lparr>ae_account = map_option oa_clone_dirty (ae_account e),
     ae_old_balance = ae_old_balance e, ae_state = ae_state e\<rparr>"

definition new_dirty :: "overlay_account option \<Rightarrow> account_entry" where
  "new_dirty acc = \<lparr>ae_account = acc, ae_old_balance = map_option oa_balance acc, ae_state = Dirty\<rparr>"

definition new_clean :: "overlay_account option \<Rightarrow> account_entry" where
  "new_clean acc = \<lparr>ae_account = acc, ae_old_balance = map_option oa_balance acc, ae_state = CleanFresh\<rparr>"

section \<open>Lemmas\<close>

lemma oa_clone_dirty_id [simp]: "oa_clone_dirty oa = oa"
  by (simp add: oa_clone_dirty_def clone_basic_def)

lemma ae_clone_dirty_id [simp]: "ae_clone_dirty e = e"
  by (cases e) (simp add: ae_clone_dirty_def map_option_case split: option.splits)

lemma oa_overwrite_with_same: "oa_address oa = oa_address other \<Longrightarrow> oa_overwrite_with other oa = other"
  by (simp add: oa_overwrite_with_def)

lemma as_account_simps [simp]:
  "ac_balance (as_account B oa) = oa_balance oa" "ac_nonce (as_account B oa) = oa_nonce oa"
  "ac_code_hash (as_account B oa) = oa_code_hash oa" "ac_address (as_account B oa) = oa_address oa"
  by (simp_all add: as_account_def)

lemma account_is_default_as_account: "account_is_default B (as_account B oa) = is_null B oa"
  by (simp add: account_is_default_def is_null_def)

end
