(* ===== verification/World_State.thy ===== *)
theory World_State
  imports Overlay_Account
begin

text \<open>
  The world state (src/state/mod.rs): a cache of account entries over the database, the stack of
  checkpoints that records the entries overwritten since each one was taken, and the issued
  tokens.  The last element of the source's vectors of checkpoints is the head of the lists here.
\<close>

section \<open>Effects on a part of a state\<close>

definition ezoom :: "('t \<Rightarrow> 's) \<Rightarrow> ('s \<Rightarrow> 't \<Rightarrow> 't) \<Rightarrow> ('s, 'e, 'a) eff \<Rightarrow> ('t, 'e, 'a) eff" where
  "ezoom get put m = (\<lambda>t. case m (get t) of (r, s) \<Rightarrow> (r, put s t))"

abbreviation on_fst :: "('s, 'e, 'a) eff \<Rightarrow> ('s \<times> 't, 'e, 'a) eff" where
  "on_fst \<equiv> ezoom fst (\<lambda>s t. (s, snd t))"

lemma wp_ezoom [wp_simps]:
  "wp p (ezoom get put m) Q E t = wp p m (\<lambda>a s. Q a (put s t)) (\<lambda>e s. E e (put s t)) (get t)"
  by (simp add: wp_def ezoom_def split: prod.splits res.splits)

lemma ezoom_apply [eff_simps]: "ezoom get put m t = (case m (get t) of (r, s) \<Rightarrow> (r, put s t))"
  by (simp add: ezoom_def)

section \<open>Order of addresses\<close>

instantiation space :: linorder
begin

definition less_eq_space :: "space \<Rightarrow> space \<Rightarrow> bool" where
  "less_eq_space a b = True"

definition less_space :: "space \<Rightarrow> space \<Rightarrow> bool" where
  "less_space a b = False"

instance
proof
  fix x y :: space
  show "x = y" by (cases x; cases y) simp
qed (simp_all add: less_eq_space_def less_space_def)

end

text \<open>The derived order of \<open>AddressWithSpace\<close>: the address first, then the space.\<close>

instantiation address_with_space_ext :: (linorder) linorder
begin

definition less_eq_address_with_space_ext :: "'a address_with_space_scheme \<Rightarrow> 'a address_with_space_scheme \<Rightarrow> bool" where
  "less_eq_address_with_space_ext a b \<longleftrightarrow> aws_address a < aws_address b \<or> (aws_address a = aws_address b \<and>
     (aws_space a < aws_space b \<or> (aws_space a = aws_space b \<and>
        address_with_space.more a \<le> address_with_space.more b)))"

definition less_address_with_space_ext :: "'a address_with_space_scheme \<Rightarrow> 'a address_with_space_scheme \<Rightarrow> bool" where
  "less_address_with_space_ext a b \<longleftrightarrow> a \<le> b \<and> \<not> b \<le> a"

instance
proof
  fix x y z :: "'a address_with_space_scheme"
  show "(x < y) = (x \<le> y \<and> \<not> y \<le> x)" by (simp add: less_address_with_space_ext_def)
  show "x \<le> x" by (simp add: less_eq_address_with_space_ext_def)
  show "x \<le> y \<Longrightarrow> y \<le> z \<Longrightarrow> x \<le> z"
    by (auto simp: less_eq_address_with_space_ext_def)
  show "x \<le> y \<Longrightarrow> y \<le> x \<Longrightarrow> x = y"
    by (auto simp: less_eq_address_with_space_ext_def)
  show "x \<le> y \<or> y \<le> x"
    by (auto simp: less_eq_address_with_space_ext_def)
qed

end

section \<open>The state\<close>

datatype require_cache = RequireNone | RequireCode

datatype cleanup_mode = ForceCreate | NoEmpty | TrackTouched "address_with_space set"

record world_statistics =
  total_issued :: u256

record 'd state =
  st_db :: 'd
  st_notify :: "(address_with_space, account) res list"
  st_cache :: "(address_with_space, account_entry) hash_map"
  st_statistics :: world_statistics
  st_statistics_checkpoints :: "world_statistics list"
  st_checkpoints :: "(address_with_space, account_entry option) hash_map list"

definition state_new :: "'d backend \<Rightarrow> 'd \<Rightarrow> 'd state db_result" where
  "state_new B db = rbind (get_total_issued_tokens B db) (\<lambda>t.
     Ok \<lparr>st_db = db, st_notify = [], st_cache = [], st_statistics = \<lparr>total_issued = t\<rparr>,
       st_statistics_checkpoints = [], st_checkpoints = []\<rparr>)"

section \<open>Loading accounts\<close>

definition needs_update :: "'d backend \<Rightarrow> require_cache \<Rightarrow> overlay_account \<Rightarrow> bool" where
  "needs_update B require oa = (case require of
     RequireNone \<Rightarrow> False | RequireCode \<Rightarrow> \<not> is_code_loaded B oa)"

definition update_account_cache ::
  "'d backend \<Rightarrow> require_cache \<Rightarrow> 'd \<Rightarrow> (overlay_account, db_error, bool) eff" where
  "update_account_cache B require db = (case require of
     RequireNone \<Rightarrow> eret True | RequireCode \<Rightarrow> cache_code B db)"

definition update_cache :: "address_with_space \<Rightarrow> account_entry \<Rightarrow> 'd state \<Rightarrow> 'd state" where
  "update_cache a entry s =
     (let old_value = hm_get (st_cache s) a;
          s' = s\<lparr>st_cache := hm_insert a entry (st_cache s)\<rparr>
      in if is_dirty entry then (case st_checkpoints s of
             c # cs \<Rightarrow> s'\<lparr>st_checkpoints := hm_or_insert a old_value c # cs\<rparr>
           | [] \<Rightarrow> s')
         else s')"

definition insert_cache_if_fresh_account ::
  "address_with_space \<Rightarrow> overlay_account option \<Rightarrow> 'd state \<Rightarrow> 'd state" where
  "insert_cache_if_fresh_account a acc s =
     (if hm_contains a (st_cache s) then s
      else s\<lparr>st_cache := hm_insert a (new_clean acc) (st_cache s)\<rparr>)"

text \<open>
  The closure passed to \<open>ensure_account_loaded\<close> sees the cached account; through the lock inside
  the account it may fill the read cache, so it also returns the account it leaves behind.
\<close>

type_synonym 'u account_reader = "overlay_account option \<Rightarrow> 'u \<times> overlay_account option"

definition reading :: "(overlay_account option \<Rightarrow> 'u) \<Rightarrow> 'u account_reader" where
  "reading f = (\<lambda>acc. (f acc, acc))"

definition with_cached :: "address_with_space \<Rightarrow> 'u account_reader \<Rightarrow> ('d state, db_error, 'u) eff" where
  "with_cached a f = (\<lambda>s. case hm_get (st_cache s) a of
     None \<Rightarrow> (Ok (fst (f None)), s)
   | Some e \<Rightarrow> (case f (ae_account e) of (u, acc) \<Rightarrow>
       (Ok u, s\<lparr>st_cache := hm_insert a (e\<lparr>ae_account := acc\<rparr>) (st_cache s)\<rparr>)))"

definition load_from_db ::
  "'d backend \<Rightarrow> address_with_space \<Rightarrow> require_cache \<Rightarrow> 'd \<Rightarrow> overlay_account option db_result" where
  "load_from_db B a require db =
     rbind (db_get_account B a db) (\<lambda>r. case map_option (from_loaded a) r of
       None \<Rightarrow> Ok None
     | Some acc \<Rightarrow> (case update_account_cache B require db acc of
         (Ok _, acc') \<Rightarrow> Ok (Some acc') | (Err e, _) \<Rightarrow> Err e | (Panic, _) \<Rightarrow> Panic))"

definition complete_cached :: "'d backend \<Rightarrow> address_with_space \<Rightarrow> require_cache \<Rightarrow> ('d state, db_error, unit) eff" where
  "complete_cached B a require = (\<lambda>s. case hm_get (st_cache s) a of
     None \<Rightarrow> (Panic, s)
   | Some e \<Rightarrow> (case ae_account e of
       None \<Rightarrow> (Ok (), s)
     | Some acc \<Rightarrow> (case update_account_cache B require (st_db s) acc of (r, acc') \<Rightarrow>
         (rbind r (\<lambda>ok. if ok then Ok () else Err (IncompleteDatabase (aws_address (oa_address acc')))),
          s\<lparr>st_cache := hm_insert a (e\<lparr>ae_account := Some acc'\<rparr>) (st_cache s)\<rparr>))))"

definition load_slow ::
  "'d backend \<Rightarrow> address_with_space \<Rightarrow> require_cache \<Rightarrow> 'u account_reader \<Rightarrow> ('d state, db_error, 'u) eff" where
  "load_slow B a require f =
     ethen (\<lambda>s. if hm_contains a (st_cache s) then (Ok (), s)
            else case load_from_db B a require (st_db s) of
              Ok acc \<Rightarrow> (Ok (), insert_cache_if_fresh_account a acc s)
            | Err e \<Rightarrow> (Err e, s)
            | Panic \<Rightarrow> (Panic, s))
     (ethen (complete_cached B a require) (with_cached a f))"

definition ensure_account_loaded ::
  "'d backend \<Rightarrow> address_with_space \<Rightarrow> require_cache \<Rightarrow> 'u account_reader \<Rightarrow> ('d state, db_error, 'u) eff" where
  "ensure_account_loaded B a require f = (\<lambda>s. case hm_get (st_cache s) a of
     Some e \<Rightarrow> (case ae_account e of
         Some acc \<Rightarrow> if \<not> needs_update B require acc then with_cached a f s else load_slow B a require f s
       | None \<Rightarrow> with_cached a f s)
   | None \<Rightarrow> load_slow B a require f s)"

text \<open>
  \<open>require_or_set\<close> hands out a write guard on the account; what the caller does with it is the
  effect \<open>m\<close>.
\<close>

definition record_checkpoint :: "address_with_space \<Rightarrow> 'd state \<Rightarrow> 'd state" where
  "record_checkpoint a s = (case st_checkpoints s of
     c # cs \<Rightarrow> s\<lparr>st_checkpoints := hm_or_insert a (map_option ae_clone_dirty (hm_get (st_cache s) a)) c # cs\<rparr>
   | [] \<Rightarrow> s)"

definition modify_dirty ::
  "'d backend \<Rightarrow> address_with_space \<Rightarrow> bool \<Rightarrow> overlay_account db_result \<Rightarrow>
   (overlay_account, db_error, 'u) eff \<Rightarrow> ('d state, db_error, 'u) eff" where
  "modify_dirty B a require_code dflt m = (\<lambda>s. case hm_get (st_cache s) a of
     None \<Rightarrow> (Panic, s)
   | Some e0 \<Rightarrow>
       (let e = e0\<lparr>ae_state := Dirty\<rparr>;
            put = (\<lambda>acc. s\<lparr>st_cache := hm_insert a (e\<lparr>ae_account := acc\<rparr>) (st_cache s)\<rparr>)
        in case (case ae_account e of Some acc \<Rightarrow> Ok acc | None \<Rightarrow> dflt) of
             Ok acc \<Rightarrow>
               (case ebind (if require_code
                      then ebind (update_account_cache B RequireCode (st_db s))
                        (\<lambda>ok. if ok then eret () else efail (IncompleteDatabase (aws_address a)))
                      else eret ()) (\<lambda>_. m) acc of (r, acc') \<Rightarrow> (r, put (Some acc')))
           | Err x \<Rightarrow> (Err x, put (ae_account e))
           | Panic \<Rightarrow> (Panic, put (ae_account e))))"

definition require_or_set ::
  "'d backend \<Rightarrow> address_with_space \<Rightarrow> bool \<Rightarrow> overlay_account db_result \<Rightarrow>
   (overlay_account, db_error, 'u) eff \<Rightarrow> ('d state, db_error, 'u) eff" where
  "require_or_set B a require_code dflt m =
     ethen (\<lambda>s. if \<not> hm_contains a (st_cache s) then
              (case db_get_account B a (st_db s) of
                Ok r \<Rightarrow> (Ok (), insert_cache_if_fresh_account a (map_option (from_loaded a) r) s)
              | Err e \<Rightarrow> (Err e, s)
              | Panic \<Rightarrow> (Panic, s))
            else (Ok (), s))
     (ethen (emodify (record_checkpoint a)) (modify_dirty B a require_code dflt m))"

definition require_exists ::
  "'d backend \<Rightarrow> address_with_space \<Rightarrow> bool \<Rightarrow> (overlay_account, db_error, 'u) eff \<Rightarrow> ('d state, db_error, 'u) eff" where
  "require_exists B a require_code m = require_or_set B a require_code (Err (IncompleteDatabase (aws_address a))) m"

definition require_or_new_basic_account ::
  "'d backend \<Rightarrow> address_with_space \<Rightarrow> u256 \<Rightarrow> (overlay_account, db_error, 'u) eff \<Rightarrow> ('d state, db_error, 'u) eff" where
  "require_or_new_basic_account B a start_nonce m =
     require_or_set B a False (Ok (new_basic B a 0 start_nonce)) m"

section \<open>Reading\<close>

definition state_balance :: "'d backend \<Rightarrow> address_with_space \<Rightarrow> ('d state, db_error, u256) eff" where
  "state_balance B a = ensure_account_loaded B a RequireNone (reading (\<lambda>acc. case acc of None \<Rightarrow> 0 | Some oa \<Rightarrow> oa_balance oa))"

definition is_contract_with_code :: "'d backend \<Rightarrow> address_with_space \<Rightarrow> ('d state, db_error, bool) eff" where
  "is_contract_with_code B a = ensure_account_loaded B a RequireNone
     (reading (\<lambda>acc. case acc of None \<Rightarrow> False | Some oa \<Rightarrow> oa_code_hash oa \<noteq> bk_keccak_empty B))"

definition state_nonce :: "'d backend \<Rightarrow> address_with_space \<Rightarrow> ('d state, db_error, u256) eff" where
  "state_nonce B a = ensure_account_loaded B a RequireNone (reading (\<lambda>acc. case acc of None \<Rightarrow> 0 | Some oa \<Rightarrow> oa_nonce oa))"

definition state_code_hash :: "'d backend \<Rightarrow> address_with_space \<Rightarrow> ('d state, db_error, h256 option) eff" where
  "state_code_hash B a = ensure_account_loaded B a RequireNone (reading (map_option oa_code_hash))"

definition state_code_size :: "'d backend \<Rightarrow> address_with_space \<Rightarrow> ('d state, db_error, usize option) eff" where
  "state_code_size B a = ensure_account_loaded B a RequireCode
     (reading (\<lambda>acc. Option.bind acc (\<lambda>oa. map_option (\<lambda>c. of_nat (length c)) (oa_code oa))))"

definition state_code :: "'d backend \<Rightarrow> address_with_space \<Rightarrow> ('d state, db_error, bytes option) eff" where
  "state_code B a = ensure_account_loaded B a RequireCode (reading (\<lambda>acc. Option.bind acc oa_code))"

definition state_exists :: "'d backend \<Rightarrow> address_with_space \<Rightarrow> ('d state, db_error, bool) eff" where
  "state_exists B a = ensure_account_loaded B a RequireNone (reading (\<lambda>acc. acc \<noteq> None))"

definition exists_and_not_null :: "'d backend \<Rightarrow> address_with_space \<Rightarrow> ('d state, db_error, bool) eff" where
  "exists_and_not_null B a = ensure_account_loaded B a RequireNone
     (reading (\<lambda>acc. case acc of None \<Rightarrow> False | Some oa \<Rightarrow> \<not> is_null B oa))"

definition total_issued_tokens :: "'d state \<Rightarrow> u256" where
  "total_issued_tokens s = total_issued (st_statistics s)"

definition storage_reader :: "'d backend \<Rightarrow> 'd \<Rightarrow> bytes \<Rightarrow> u256 db_result account_reader" where
  "storage_reader B db k = (\<lambda>acc. case acc of
     None \<Rightarrow> (Ok 0, None)
   | Some oa \<Rightarrow> (case oa_storage_at B db k oa of (r, oa') \<Rightarrow> (r, Some oa')))"

definition storage_at :: "'d backend \<Rightarrow> address_with_space \<Rightarrow> bytes \<Rightarrow> ('d state, db_error, u256) eff" where
  "storage_at B a k = ebind (eget st_db) (\<lambda>db.
     ebind (ensure_account_loaded B a RequireNone (storage_reader B db k)) elift)"

definition get_system_storage :: "'d backend \<Rightarrow> bytes \<Rightarrow> ('d state, db_error, u256) eff" where
  "get_system_storage B k = storage_at B (with_space SYSTEM_STORAGE_ADDRESS Ethereum) k"

section \<open>Writing\<close>

definition add_total_issued :: "u256 \<Rightarrow> ('d state, db_error, unit) eff" where
  "add_total_issued v = (\<lambda>s. if st_statistics_checkpoints s = [] then
     (case u_add (total_issued (st_statistics s)) v of
        Ok t \<Rightarrow> (Ok (), s\<lparr>st_statistics := (st_statistics s)\<lparr>total_issued := t\<rparr>\<rparr>)
      | Err e \<Rightarrow> (Err e, s)
      | Panic \<Rightarrow> (Panic, s))
     else (Panic, s))"

definition subtract_total_issued :: "u256 \<Rightarrow> ('d state, db_error, unit) eff" where
  "subtract_total_issued v = emodify (\<lambda>s. s\<lparr>st_statistics :=
     (st_statistics s)\<lparr>total_issued := saturating_sub (total_issued (st_statistics s)) v\<rparr>\<rparr>)"

definition new_contract ::
  "'d backend \<Rightarrow> address_with_space \<Rightarrow> u256 \<Rightarrow> u256 \<Rightarrow> storage_layout option \<Rightarrow> ('d state, db_error, unit) eff" where
  "new_contract B contract bal non layout =
     ebind (ensure_account_loaded B contract RequireNone
       (reading (\<lambda>acc. case acc of None \<Rightarrow> False | Some oa \<Rightarrow> oa_invalidated oa))) (\<lambda>invalidated_storage.
     emodify (update_cache contract
       (new_dirty (Some (new_contract_account B contract bal non invalidated_storage layout)))))"

definition init_code :: "'d backend \<Rightarrow> address_with_space \<Rightarrow> bytes \<Rightarrow> ('d state, db_error, unit) eff" where
  "init_code B a c = require_exists B a False (oa_init_code B c)"

definition clean_account :: "'d backend \<Rightarrow> address_with_space \<Rightarrow> ('d state, db_error, unit) eff" where
  "clean_account B a = require_or_new_basic_account B a 0 (emodify (\<lambda>_. from_loaded a (new_empty B a)))"

definition inc_nonce :: "'d backend \<Rightarrow> address_with_space \<Rightarrow> u256 \<Rightarrow> ('d state, db_error, unit) eff" where
  "inc_nonce B a start_nonce = require_or_new_basic_account B a start_nonce oa_inc_nonce"

definition set_nonce :: "'d backend \<Rightarrow> address_with_space \<Rightarrow> u256 \<Rightarrow> ('d state, db_error, unit) eff" where
  "set_nonce B a n = require_or_new_basic_account B a n (oa_set_nonce n)"

text \<open>The cleanup mode carries the set of touched addresses, which the caller owns.\<close>

definition touch :: "address_with_space \<Rightarrow> bool \<Rightarrow> ('s \<times> cleanup_mode, 'e, unit) eff" where
  "touch a cond = emodify (\<lambda>(s, mode). (s, case mode of
     TrackTouched touched \<Rightarrow> if cond then TrackTouched (insert a touched) else mode | _ \<Rightarrow> mode))"

definition sub_balance ::
  "'d backend \<Rightarrow> address_with_space \<Rightarrow> u256 \<Rightarrow> ('d state \<times> cleanup_mode, db_error, unit) eff" where
  "sub_balance B a v =
     ethen (if v \<noteq> 0 then on_fst (require_exists B a False (oa_sub_balance v)) else eret ())
     (ebind (eget snd) (\<lambda>mode. case mode of
        TrackTouched _ \<Rightarrow> ebind (on_fst (state_exists B a)) (touch a)
      | _ \<Rightarrow> eret ()))"

definition add_balance ::
  "'d backend \<Rightarrow> address_with_space \<Rightarrow> u256 \<Rightarrow> u256 \<Rightarrow> ('d state \<times> cleanup_mode, db_error, unit) eff" where
  "add_balance B a v start_nonce =
     ebind (on_fst (state_exists B a)) (\<lambda>ex.
     ebind (eget snd) (\<lambda>mode.
     ethen (if v \<noteq> 0 \<or> (mode = ForceCreate \<and> \<not> ex)
            then on_fst (require_or_new_basic_account B a start_nonce (oa_add_balance v)) else eret ())
     (touch a ex)))"

definition transfer_balance ::
  "'d backend \<Rightarrow> address_with_space \<Rightarrow> address_with_space \<Rightarrow> u256 \<Rightarrow> u256 \<Rightarrow>
   ('d state \<times> cleanup_mode, db_error, unit) eff" where
  "transfer_balance B src dst v start_nonce =
     ethen (sub_balance B src v) (add_balance B dst v start_nonce)"

definition remove_contract :: "'d backend \<Rightarrow> address_with_space \<Rightarrow> ('d state, db_error, unit) eff" where
  "remove_contract B a = emodify (update_cache a (new_dirty (Some (new_removed B a))))"

definition set_storage :: "'d backend \<Rightarrow> address_with_space \<Rightarrow> bytes \<Rightarrow> u256 \<Rightarrow> ('d state, db_error, unit) eff" where
  "set_storage B a k v = ebind (storage_at B a k) (\<lambda>old.
     if old \<noteq> v then require_exists B a False (oa_set_storage k v) else eret ())"

definition set_system_storage :: "'d backend \<Rightarrow> bytes \<Rightarrow> u256 \<Rightarrow> ('d state, db_error, unit) eff" where
  "set_system_storage B k v = set_storage B (with_space SYSTEM_STORAGE_ADDRESS Ethereum) k v"

section \<open>Checkpoints\<close>

definition checkpoint :: "'d state \<Rightarrow> nat \<times> 'd state" where
  "checkpoint s = (length (st_checkpoints s),
     s\<lparr>st_statistics_checkpoints := st_statistics s # st_statistics_checkpoints s,
       st_checkpoints := [] # st_checkpoints s\<rparr>)"

definition discard_checkpoint :: "'d state \<Rightarrow> 'd state" where
  "discard_checkpoint s = (case st_checkpoints s of
     [] \<Rightarrow> s
   | c # cs \<Rightarrow> s\<lparr>st_statistics_checkpoints := tl (st_statistics_checkpoints s),
       st_checkpoints := (case cs of
           [] \<Rightarrow> []
         | p # ps \<Rightarrow> (if p = [] then c else fold (\<lambda>(k, v). hm_or_insert k v) c p) # ps)\<rparr>)"

definition revert_entry ::
  "address_with_space \<times> account_entry option \<Rightarrow> (address_with_space, account_entry) hash_map \<Rightarrow>
   (address_with_space, account_entry) hash_map" where
  "revert_entry x cache = (case x of
     (k, Some v) \<Rightarrow> (case hm_get cache k of
        Some e \<Rightarrow> hm_insert k (ae_overwrite_with v e) cache
      | None \<Rightarrow> hm_insert k v cache)
   | (k, None) \<Rightarrow> (case hm_get cache k of
        Some e \<Rightarrow> if is_dirty e then hm_remove k cache else cache
      | None \<Rightarrow> cache))"

definition revert_to_checkpoint :: "('d state, 'e, unit) eff" where
  "revert_to_checkpoint = (\<lambda>s. case st_checkpoints s of
     [] \<Rightarrow> (Ok (), s)
   | c # cs \<Rightarrow> (case st_statistics_checkpoints s of
       [] \<Rightarrow> (Panic, s\<lparr>st_checkpoints := cs\<rparr>)
     | w # ws \<Rightarrow> (Ok (), s\<lparr>st_checkpoints := cs, st_statistics := w, st_statistics_checkpoints := ws,
         st_cache := fold revert_entry c (st_cache s)\<rparr>)))"

section \<open>Commit\<close>

definition on_db :: "('d, 'e, 'a) eff \<Rightarrow> ('d state, 'e, 'a) eff" where
  "on_db = ezoom st_db (\<lambda>db s. s\<lparr>st_db := db\<rparr>)"

primrec recycle_storage :: "'d backend \<Rightarrow> address_with_space list \<Rightarrow> ('d state, db_error, unit) eff" where
  "recycle_storage B [] = eret ()"
| "recycle_storage B (a # as) = ethen (on_db (db_delete B (AccountKey a))) (recycle_storage B as)"

primrec commit_storage :: "'d backend \<Rightarrow> address_with_space \<Rightarrow> (bytes \<times> u256) list \<Rightarrow> ('d state, db_error, unit) eff" where
  "commit_storage B a [] = eret ()"
| "commit_storage B a (kv # kvs) =
     ethen (on_db (if snd kv = 0 then db_delete B (StorageKey a (fst kv))
                   else db_set value_is_default (\<lambda>v. Ok (enc_value (bk_rlp B) v)) B (StorageKey a (fst kv)) (snd kv)))
     (commit_storage B a kvs)"

text \<open>
  The source first asserts that nobody else holds the write cache; only checkpoints hold clones of
  it, and the state commits only without checkpoints.
\<close>

definition oa_commit :: "'d backend \<Rightarrow> address_with_space \<Rightarrow> overlay_account \<Rightarrow> ('d state, db_error, unit) eff" where
  "oa_commit B a oa =
     ethen (if oa_invalidated oa then recycle_storage B [oa_address oa] else eret ())
     (ethen (commit_storage B (oa_address oa) (oa_write_cache oa))
     (ethen (case oa_code oa of
        Some c \<Rightarrow> on_db (db_set code_is_default (code_info_rlp (bk_rlp B)) B (CodeKey (oa_address oa)) c)
      | None \<Rightarrow> eret ())
     (on_db (db_set (account_is_default B) (\<lambda>acc. Ok (enc_evm_account (bk_rlp B) (to_evm_account acc))) B
       (AccountKey a) (as_account B oa)))))"

primrec commit_accounts ::
  "'d backend \<Rightarrow> (address_with_space \<times> account_entry) list \<Rightarrow> ('d state, db_error, address_with_space list) eff" where
  "commit_accounts B [] = eret []"
| "commit_accounts B (x # xs) = (case x of (a, e) \<Rightarrow>
     (case ae_account e of
        None \<Rightarrow> commit_accounts B xs
      | Some oa \<Rightarrow>
          if removed_without_update B oa then
            ethen (emodify (\<lambda>s. s\<lparr>st_notify := st_notify s @ [Err a]\<rparr>))
            (ebind (commit_accounts B xs) (\<lambda>killed. eret (a # killed)))
          else
            ethen (oa_commit B a oa)
            (ethen (emodify (\<lambda>s. s\<lparr>st_notify := st_notify s @ [Ok (as_account B oa)]\<rparr>))
            (commit_accounts B xs))))"

definition commit_world_statistics :: "'d backend \<Rightarrow> ('d state, db_error, unit) eff" where
  "commit_world_statistics B = ebind (eget total_issued_tokens) (\<lambda>t. on_db (set_total_issued_tokens B t))"

definition state_commit :: "'d backend \<Rightarrow> h256 \<Rightarrow> ('d state, db_error, unit) eff" where
  "state_commit B epoch_id = (\<lambda>s.
     if st_checkpoints s \<noteq> [] \<or> st_statistics_checkpoints s \<noteq> [] then (Panic, s)
     else ebind (commit_accounts B (sort_key fst (st_cache s))) (\<lambda>killed.
          ethen (recycle_storage B killed)
          (ethen (commit_world_statistics B)
          (on_db (db_commit B epoch_id)))) (s\<lparr>st_cache := []\<rparr>))"

end
