(* ===== verification/State_Refinement.thy ===== *)
theory State_Refinement
  imports World_State
begin

text \<open>
  What the world state promises, and that src/state/mod.rs keeps it.  Abstractly, the state is a
  stack of worlds: the current one and one for every open checkpoint.  A world gives for every
  address the account there, with all of its storage, and the issued tokens.  The abstraction
  \<open>worlds\<close> reads the accounts through the caches and the database; reads leave it alone, writes
  change one account of the top world, and checkpoints push, merge or pop worlds.
\<close>

section \<open>Accounts as a client sees them\<close>

record account_view =
  av_balance :: u256
  av_nonce :: u256
  av_code_hash :: h256
  av_code :: "bytes option db_result"
  av_storage :: "bytes \<Rightarrow> u256 db_result"
  av_newly_created :: bool
  av_invalidated :: bool

type_synonym view = "address_with_space \<Rightarrow> account_view option db_result"
type_synonym world = "view \<times> world_statistics"

definition rmap :: "('a \<Rightarrow> 'b) \<Rightarrow> ('e, 'a) res \<Rightarrow> ('e, 'b) res" where
  "rmap f r = rbind r (\<lambda>a. Ok (f a))"

definition or_zero :: "u256 option \<Rightarrow> u256" where
  "or_zero x = (case x of Some v \<Rightarrow> v | None \<Rightarrow> 0)"

definition code_view :: "'d backend \<Rightarrow> 'd \<Rightarrow> overlay_account \<Rightarrow> bytes option db_result" where
  "code_view B db oa = (if is_code_loaded B oa then Ok (oa_code oa)
     else rbind (db_get_code B (oa_address oa) (oa_code_hash oa) db) (\<lambda>c.
       if c = None then Err (IncompleteDatabase (aws_address (oa_address oa))) else Ok c))"

definition storage_view :: "'d backend \<Rightarrow> 'd \<Rightarrow> overlay_account \<Rightarrow> bytes \<Rightarrow> u256 db_result" where
  "storage_view B db oa k = (case hm_get (oa_write_cache oa) k of
     Some v \<Rightarrow> Ok v
   | None \<Rightarrow> if fresh_storage oa then Ok 0 else rmap or_zero (db_get_storage B (oa_address oa) k db))"

definition account_view :: "'d backend \<Rightarrow> 'd \<Rightarrow> overlay_account \<Rightarrow> account_view" where
  "account_view B db oa = \<lparr>av_balance = oa_balance oa, av_nonce = oa_nonce oa, av_code_hash = oa_code_hash oa,
     av_code = code_view B db oa, av_storage = storage_view B db oa,
     av_newly_created = oa_newly_created oa, av_invalidated = oa_invalidated oa\<rparr>"

definition entry_view :: "'d backend \<Rightarrow> 'd \<Rightarrow> account_entry \<Rightarrow> account_view option" where
  "entry_view B db e = map_option (account_view B db) (ae_account e)"

definition db_view :: "'d backend \<Rightarrow> 'd \<Rightarrow> view" where
  "db_view B db a = rmap (map_option (\<lambda>acc. account_view B db (from_loaded a acc))) (db_get_account B a db)"

definition cache_view :: "'d backend \<Rightarrow> 'd \<Rightarrow> (address_with_space, account_entry) hash_map \<Rightarrow> view" where
  "cache_view B db cache a = (case hm_get cache a of Some e \<Rightarrow> Ok (entry_view B db e) | None \<Rightarrow> db_view B db a)"

text \<open>The view before the changes that a checkpoint records.\<close>

definition before_checkpoint ::
  "'d backend \<Rightarrow> 'd \<Rightarrow> (address_with_space, account_entry option) hash_map \<Rightarrow> view \<Rightarrow> view" where
  "before_checkpoint B db c V a = (case hm_get c a of
     None \<Rightarrow> V a
   | Some None \<Rightarrow> db_view B db a
   | Some (Some e) \<Rightarrow> Ok (entry_view B db e))"

primrec views_from ::
  "'d backend \<Rightarrow> 'd \<Rightarrow> view \<Rightarrow> (address_with_space, account_entry option) hash_map list \<Rightarrow> view list" where
  "views_from B db V [] = [V]"
| "views_from B db V (c # cs) = V # views_from B db (before_checkpoint B db c V) cs"

definition top_view :: "'d backend \<Rightarrow> 'd state \<Rightarrow> view" where
  "top_view B s = cache_view B (st_db s) (st_cache s)"

definition worlds :: "'d backend \<Rightarrow> 'd state \<Rightarrow> world list" where
  "worlds B s = zip (views_from B (st_db s) (top_view B s) (st_checkpoints s))
     (st_statistics s # st_statistics_checkpoints s)"

section \<open>The invariant\<close>

text \<open>
  What the state needs of the database and the decoders: they return, and the code they decode
  fits into memory.
\<close>

definition backend_ok :: "'d backend \<Rightarrow> bool" where
  "backend_ok B \<longleftrightarrow>
     (\<forall>k db. st_get (bk_storage B) k db \<noteq> Panic) \<and>
     rlp_calm (bk_rlp B) \<and>
     (\<forall>raw. dec_evm_account (bk_rlp B) raw \<noteq> Panic) \<and>
     (\<forall>raw. dec_value (bk_rlp B) raw \<noteq> Panic) \<and>
     (\<forall>raw c. dec_bytes (bk_rlp B) raw = Ok c \<longrightarrow> length c < 2 ^ 63)"

definition account_ok :: "'d backend \<Rightarrow> 'd \<Rightarrow> address_with_space \<Rightarrow> overlay_account \<Rightarrow> bool" where
  "account_ok B db a oa \<longleftrightarrow> oa_address oa = a \<and>
     (\<forall>k v. hm_get (oa_read_cache oa) k = Some v \<longrightarrow>
        \<not> fresh_storage oa \<and> rmap or_zero (db_get_storage B a k db) = Ok v) \<and>
     (\<forall>c. oa_code oa = Some c \<longrightarrow> length c < 2 ^ 63) \<and> hm_ok (oa_write_cache oa)"

definition entry_ok :: "'d backend \<Rightarrow> 'd \<Rightarrow> address_with_space \<Rightarrow> account_entry \<Rightarrow> bool" where
  "entry_ok B db a e \<longleftrightarrow> (\<forall>oa. ae_account e = Some oa \<longrightarrow> account_ok B db a oa) \<and>
     (\<not> is_dirty e \<longrightarrow> db_view B db a = Ok (entry_view B db e))"

definition state_ok :: "'d backend \<Rightarrow> 'd state \<Rightarrow> bool" where
  "state_ok B s \<longleftrightarrow> backend_ok B \<and>
     length (st_statistics_checkpoints s) = length (st_checkpoints s) \<and> hm_ok (st_cache s) \<and>
     (\<forall>a e. hm_get (st_cache s) a = Some e \<longrightarrow> entry_ok B (st_db s) a e) \<and>
     (\<forall>c \<in> set (st_checkpoints s). hm_ok c \<and> (\<forall>a e. hm_get c a = Some (Some e) \<longrightarrow> entry_ok B (st_db s) a e))"

text \<open>Two states that a client cannot tell apart.\<close>

definition same :: "'d backend \<Rightarrow> 'd state \<Rightarrow> 'd state \<Rightarrow> bool" where
  "same B s s' \<longleftrightarrow> state_ok B s' \<and> worlds B s' = worlds B s \<and> st_db s' = st_db s"

text \<open>One account of the top world changes.\<close>

definition world_update :: "address_with_space \<Rightarrow> account_view option \<Rightarrow> world list \<Rightarrow> world list" where
  "world_update a av ws = (case ws of [] \<Rightarrow> [] | (V, t) # ws' \<Rightarrow> (V(a := Ok av), t) # ws')"

definition updates :: "'d backend \<Rightarrow> 'd state \<Rightarrow> address_with_space \<Rightarrow> account_view option \<Rightarrow> 'd state \<Rightarrow> bool" where
  "updates B s a av s' \<longleftrightarrow> state_ok B s' \<and> worlds B s' = world_update a av (worlds B s) \<and> st_db s' = st_db s"

section \<open>Lemmas on the stack of worlds\<close>

lemma rmap_simps [simp]: "rmap f (Ok a) = Ok (f a)" "rmap f (Err e) = Err e" "rmap f Panic = Panic"
  by (simp_all add: rmap_def)

lemma rmap_eq_simps [simp]:
  "rmap f r = Panic \<longleftrightarrow> r = Panic" "rmap f r = Err e \<longleftrightarrow> r = Err e" "rmap f r = Ok b \<longleftrightarrow> (\<exists>a. r = Ok a \<and> b = f a)"
  by (cases r; auto)+

lemma worlds_eq:
  "worlds B s = (top_view B s, st_statistics s) # zip (tl (views_from B (st_db s) (top_view B s) (st_checkpoints s)))
     (st_statistics_checkpoints s)"
  by (cases "st_checkpoints s") (simp_all add: worlds_def)

lemma hd_worlds: "fst (hd (worlds B s)) = top_view B s"
  by (simp add: worlds_eq)

lemma same_refl: "state_ok B s \<Longrightarrow> same B s s"
  by (simp add: same_def)

lemma same_trans: "same B s t \<Longrightarrow> same B t u \<Longrightarrow> same B s u"
  by (simp add: same_def)

lemma same_ok: "same B s t \<Longrightarrow> state_ok B t"
  by (simp add: same_def)

lemma same_view: "same B s t \<Longrightarrow> top_view B t = top_view B s"
  using hd_worlds [of B s] hd_worlds [of B t] by (simp add: same_def)

lemma same_updates: "same B s t \<Longrightarrow> updates B t a av u \<Longrightarrow> updates B s a av u"
  by (simp add: same_def updates_def)

lemma updates_ok: "updates B s a av t \<Longrightarrow> state_ok B t"
  by (simp add: updates_def)

lemma updates_view: "updates B s a av t \<Longrightarrow> top_view B t = (top_view B s)(a := Ok av)"
  using hd_worlds [of B t] by (simp add: updates_def world_update_def worlds_eq [of B s])

lemma updates_same: "state_ok B s \<Longrightarrow> updates B s a av t \<Longrightarrow> top_view B s a = Ok av \<Longrightarrow> same B s t"
  by (auto simp: updates_def same_def world_update_def worlds_eq [of B s] fun_upd_idem)

text \<open>Replacing a cached entry by one with the same view.\<close>

lemma put_same:
  assumes s: "state_ok B s" and e: "entry_ok B (st_db s) a e" and v: "top_view B s a = Ok (entry_view B (st_db s) e)"
  shows "same B s (s\<lparr>st_cache := hm_insert a e (st_cache s)\<rparr>)"
proof -
  have "cache_view B (st_db s) (hm_insert a e (st_cache s)) = cache_view B (st_db s) (st_cache s)"
    using v by (auto simp: fun_eq_iff cache_view_def top_view_def hm_simps)
  then show ?thesis
    using s e by (auto simp: same_def state_ok_def worlds_def top_view_def hm_simps)
qed

text \<open>Recording an entry in the last checkpoint changes nothing.\<close>

lemma before_checkpoint_record:
  "before_checkpoint B db (hm_or_insert a (hm_get cache a) c) (cache_view B db cache) =
   before_checkpoint B db c (cache_view B db cache)"
  by (auto simp: fun_eq_iff before_checkpoint_def hm_simps cache_view_def split: option.splits)

lemma record_same:
  assumes "state_ok B s"
  shows "same B s (record_checkpoint a s)"
  using assms
  by (auto simp: same_def state_ok_def worlds_def top_view_def record_checkpoint_def hm_simps before_checkpoint_record
      option.map_ident ae_clone_dirty_id [abs_def] split: list.splits option.splits if_splits)

lemma record_simps [simp]:
  "st_cache (record_checkpoint a s) = st_cache s" "st_db (record_checkpoint a s) = st_db s"
  by (simp_all add: record_checkpoint_def split: list.splits)

definition recorded :: "address_with_space \<Rightarrow> 'd state \<Rightarrow> bool" where
  "recorded a s \<longleftrightarrow> (case st_checkpoints s of [] \<Rightarrow> True | c # cs \<Rightarrow> hm_get c a \<noteq> None)"

lemma recorded_record: "recorded a (record_checkpoint a s)"
  by (simp add: recorded_def record_checkpoint_def hm_simps split: list.splits)

text \<open>Once the old entry is recorded, a new one changes the top world only.\<close>

lemma put_updates:
  assumes s: "state_ok B s" and e: "entry_ok B (st_db s) a e" and r: "recorded a s"
  shows "updates B s a (entry_view B (st_db s) e) (s\<lparr>st_cache := hm_insert a e (st_cache s)\<rparr>)"
proof -
  let ?V = "top_view B s" and ?V' = "top_view B (s\<lparr>st_cache := hm_insert a e (st_cache s)\<rparr>)"
  have V': "?V' = ?V(a := Ok (entry_view B (st_db s) e))"
    by (auto simp: fun_eq_iff cache_view_def top_view_def hm_simps)
  have "tl (views_from B (st_db s) ?V' (st_checkpoints s)) = tl (views_from B (st_db s) ?V (st_checkpoints s))"
  proof (cases "st_checkpoints s")
    case (Cons c cs)
    then have "before_checkpoint B (st_db s) c ?V' = before_checkpoint B (st_db s) c ?V"
      using r by (auto simp: V' fun_eq_iff before_checkpoint_def recorded_def split: option.splits)
    then show ?thesis using Cons by simp
  qed simp
  then show ?thesis
    using s e V' by (auto simp: updates_def state_ok_def worlds_eq world_update_def hm_simps)
qed

lemma update_cache_updates:
  assumes s: "state_ok B s" and e: "entry_ok B (st_db s) a e" and d: "is_dirty e"
  shows "updates B s a (entry_view B (st_db s) e) (update_cache a e s)"
proof -
  have "update_cache a e s = (record_checkpoint a s)\<lparr>st_cache := hm_insert a e (st_cache (record_checkpoint a s))\<rparr>"
    using d by (simp add: update_cache_def record_checkpoint_def option.map_ident ae_clone_dirty_id [abs_def] split: list.splits)
  moreover have "same B s (record_checkpoint a s)" by (rule record_same [OF s])
  ultimately show ?thesis
    using put_updates [of B "record_checkpoint a s" a e] e recorded_record [of a s]
    by (auto intro: same_updates dest: same_ok)
qed

section \<open>Loading an account\<close>

lemma db_get_no_panic:
  assumes "backend_ok B"
  shows "db_get_account B a db \<noteq> Panic" "db_get_code B a h db \<noteq> Panic" "db_get_storage B a k db \<noteq> Panic"
  using assms
  by (auto simp: backend_ok_def db_get_account_def db_get_code_def db_get_storage_def db_get_def db_get_raw_def
      new_from_rlp_def rlp_calm_def code_info_decode_def val_at_def rbind_Panic_iff split: option.splits if_splits)

lemma db_get_code_length: "backend_ok B \<Longrightarrow> db_get_code B a h db = Ok (Some c) \<Longrightarrow> length c < 2 ^ 63"
  by (auto simp: backend_ok_def db_get_code_def db_get_def code_info_decode_def val_at_def rbind_Ok_iff split: option.splits)

lemma from_loaded_ok: "account_ok B db a (from_loaded a acc)"
  by (simp add: account_ok_def from_loaded_def)

text \<open>Caching the code keeps the account and its view; it succeeds iff the code is there.\<close>

lemma cache_code_spec:
  assumes "backend_ok B" "account_ok B db a oa" "cache_code B db oa = (r, oa')"
  shows "account_ok B db a oa' \<and> account_view B db oa' = account_view B db oa \<and> oa_address oa' = oa_address oa \<and>
    (case code_view B db oa of
       Ok c \<Rightarrow> r = Ok True \<and> oa_code oa' = c \<and> is_code_loaded B oa'
     | Err e \<Rightarrow> r = Err e \<or> (r = Ok False \<and> e = IncompleteDatabase (aws_address a))
     | Panic \<Rightarrow> False)"
proof (cases "is_code_loaded B oa")
  case True
  with assms show ?thesis by (simp add: cache_code_def code_view_def)
next
  case False
  with assms db_get_no_panic(2) [OF assms(1), of "oa_address oa" "oa_code_hash oa" db]
    db_get_code_length [OF assms(1), of "oa_address oa" "oa_code_hash oa" db] show ?thesis
    by (auto simp: cache_code_def code_view_def account_ok_def account_view_def is_code_loaded_def fresh_storage_def
        storage_view_def fun_eq_iff split: res.splits option.splits)
qed

lemma update_account_cache_spec:
  assumes "backend_ok B" "account_ok B db a oa" "update_account_cache B req db oa = (r, oa')"
  shows "account_ok B db a oa' \<and> account_view B db oa' = account_view B db oa \<and> oa_address oa' = oa_address oa \<and>
    (case (if req = RequireCode then code_view B db oa else Ok (oa_code oa)) of
       Ok c \<Rightarrow> r = Ok True \<and> oa_code oa' = c \<and> (req = RequireCode \<longrightarrow> is_code_loaded B oa')
     | Err e \<Rightarrow> r = Err e \<or> (r = Ok False \<and> e = IncompleteDatabase (aws_address a))
     | Panic \<Rightarrow> False)"
  using assms cache_code_spec [OF assms(1,2)]
  by (cases req) (auto simp: update_account_cache_def eff_simps split: res.splits)

text \<open>What a read of an account finds: the account as the top world has it, or the error of the database.\<close>

definition required :: "require_cache \<Rightarrow> account_view option db_result \<Rightarrow> account_view option db_result" where
  "required req r = rbind r (\<lambda>acc. case acc of
     None \<Rightarrow> Ok None
   | Some av \<Rightarrow> if req = RequireCode then rmap (\<lambda>_. acc) (av_code av) else Ok acc)"

definition reader_ok :: "'d backend \<Rightarrow> 'd \<Rightarrow> address_with_space \<Rightarrow> 'u account_reader \<Rightarrow> bool" where
  "reader_ok B db a f \<longleftrightarrow> (snd (f None) = None) \<and> (\<forall>oa. account_ok B db a oa \<longrightarrow>
     (\<exists>oa'. snd (f (Some oa)) = Some oa' \<and> account_ok B db a oa' \<and> account_view B db oa' = account_view B db oa))"

lemma reader_ok_reading [simp]: "reader_ok B db a (reading f)"
  by (simp add: reader_ok_def reading_def)

definition read_result ::
  "'d backend \<Rightarrow> 'd \<Rightarrow> address_with_space \<Rightarrow> require_cache \<Rightarrow> 'u account_reader \<Rightarrow> account_view option db_result \<Rightarrow>
   'u db_result \<Rightarrow> bool" where
  "read_result B db a req f V r \<longleftrightarrow> (case required req V of
     Ok None \<Rightarrow> r = Ok (fst (f None))
   | Ok (Some av) \<Rightarrow> (\<exists>oa. account_ok B db a oa \<and> account_view B db oa = av \<and>
       (req = RequireCode \<longrightarrow> av_code av = Ok (oa_code oa)) \<and> r = Ok (fst (f (Some oa))))
   | Err e \<Rightarrow> r = Err e
   | Panic \<Rightarrow> False)"

lemma top_view_cached: "hm_get (st_cache s) a = Some e \<Longrightarrow> top_view B s a = Ok (entry_view B (st_db s) e)"
  by (simp add: top_view_def cache_view_def)

lemma top_view_uncached: "hm_get (st_cache s) a = None \<Longrightarrow> top_view B s a = db_view B (st_db s) a"
  by (simp add: top_view_def cache_view_def)

lemma entry_ok_account:
  "entry_ok B db a e \<Longrightarrow> (\<And>oa. acc = Some oa \<Longrightarrow> account_ok B db a oa) \<Longrightarrow>
   map_option (account_view B db) acc = entry_view B db e \<Longrightarrow> entry_ok B db a (e\<lparr>ae_account := acc\<rparr>)"
  by (auto simp: entry_ok_def is_dirty_def entry_view_def)

lemma with_cached_spec:
  assumes s: "state_ok B s" and f: "reader_ok B (st_db s) a f" and c: "hm_get (st_cache s) a = Some e"
    and l: "\<And>oa. ae_account e = Some oa \<Longrightarrow> req = RequireCode \<Longrightarrow> is_code_loaded B oa"
    and r: "with_cached a f s = (r, s')"
  shows "same B s s' \<and> read_result B (st_db s) a req f (top_view B s a) r"
proof -
  have e: "entry_ok B (st_db s) a e" using s c by (auto simp: state_ok_def)
  obtain u acc where u: "f (ae_account e) = (u, acc)" by fastforce
  have acc: "map_option (account_view B (st_db s)) acc = entry_view B (st_db s) e"
    "\<And>oa. acc = Some oa \<Longrightarrow> account_ok B (st_db s) a oa"
    using f e u by (cases "ae_account e"; fastforce simp: reader_ok_def entry_ok_def entry_view_def)+
  have s': "s' = s\<lparr>st_cache := hm_insert a (e\<lparr>ae_account := acc\<rparr>) (st_cache s)\<rparr>" and r': "r = Ok u"
    using r c u by (simp_all add: with_cached_def)
  have "same B s s'"
    unfolding s' using put_same [OF s entry_ok_account [OF e acc(2,1)]] acc(1)
    by (simp add: top_view_cached [OF c] entry_view_def)
  moreover have "read_result B (st_db s) a req f (top_view B s a) r"
  proof (cases "ae_account e")
    case None
    then show ?thesis using u r' by (simp add: read_result_def required_def top_view_cached [OF c] entry_view_def)
  next
    case (Some oa)
    have "code_view B (st_db s) oa = Ok (oa_code oa)" if "req = RequireCode"
      using l [OF Some that] by (simp add: code_view_def)
    moreover have "account_ok B (st_db s) a oa" using e Some by (simp add: entry_ok_def)
    ultimately show ?thesis
      using Some u r' by (auto simp: read_result_def required_def top_view_cached [OF c] entry_view_def account_view_def)
  qed
  ultimately show ?thesis by simp
qed

lemma complete_cached_spec:
  assumes s: "state_ok B s" and c: "hm_get (st_cache s) a = Some e" and r: "complete_cached B a req s = (r, s')"
  shows "same B s s' \<and> (case required req (top_view B s a) of
     Ok _ \<Rightarrow> r = Ok () \<and> (\<exists>e'. hm_get (st_cache s') a = Some e' \<and>
       (\<forall>oa. ae_account e' = Some oa \<longrightarrow> req = RequireCode \<longrightarrow> is_code_loaded B oa))
   | Err x \<Rightarrow> r = Err x | Panic \<Rightarrow> False)"
proof (cases "ae_account e")
  case None
  then have "top_view B s a = Ok None" by (simp add: top_view_cached [OF c] entry_view_def)
  then show ?thesis
    using r c s None by (auto simp: complete_cached_def required_def same_refl)
next
  case (Some oa)
  have e: "entry_ok B (st_db s) a e" and B: "backend_ok B" using s c by (auto simp: state_ok_def)
  have oa: "account_ok B (st_db s) a oa" using e Some by (simp add: entry_ok_def)
  obtain q oa' where u: "update_account_cache B req (st_db s) oa = (q, oa')" by fastforce
  note spec = update_account_cache_spec [OF B oa u]
  have s': "s' = s\<lparr>st_cache := hm_insert a (e\<lparr>ae_account := Some oa'\<rparr>) (st_cache s)\<rparr>"
    and r': "r = rbind q (\<lambda>ok. if ok then Ok () else Err (IncompleteDatabase (aws_address (oa_address oa'))))"
    using r c Some u by (simp_all add: complete_cached_def)
  have v: "map_option (account_view B (st_db s)) (Some oa') = entry_view B (st_db s) e"
    using spec Some by (simp add: entry_view_def)
  have "entry_ok B (st_db s) a (e\<lparr>ae_account := Some oa'\<rparr>)"
    by (rule entry_ok_account [OF e _ v]) (use spec in simp)
  then have "same B s s'"
    unfolding s' using v by (intro put_same [OF s]) (simp_all add: top_view_cached [OF c] entry_view_def)
  moreover have "oa_address oa' = a" using spec oa by (simp add: account_ok_def)
  ultimately show ?thesis
    using spec Some r' unfolding s'
    by (auto simp: required_def top_view_cached [OF c] entry_view_def account_view_def hm_simps
        split: res.splits if_splits)
qed

lemma load_from_db_spec:
  assumes B: "backend_ok B"
  shows "case load_from_db B a req db of
     Ok acc \<Rightarrow> db_view B db a = Ok (map_option (account_view B db) acc) \<and>
       (\<forall>oa. acc = Some oa \<longrightarrow> account_ok B db a oa)
   | Err e \<Rightarrow> required req (db_view B db a) = Err e
   | Panic \<Rightarrow> False"
proof (cases "db_get_account B a db")
  case (Ok r)
  show ?thesis
  proof (cases r)
    case None
    with Ok show ?thesis by (simp add: load_from_db_def db_view_def)
  next
    case (Some acc)
    obtain q oa' where u: "update_account_cache B req db (from_loaded a acc) = (q, oa')" by fastforce
    show ?thesis
      using Ok Some u update_account_cache_spec [OF B from_loaded_ok u]
      by (auto simp: load_from_db_def db_view_def required_def account_view_def split: res.splits if_splits)
  qed
qed (simp_all add: load_from_db_def db_view_def required_def db_get_no_panic [OF B])

lemma load_slow_spec:
  assumes s: "state_ok B s" and f: "reader_ok B (st_db s) a f" and r: "load_slow B a req f s = (r, s')"
  shows "same B s s' \<and> read_result B (st_db s) a req f (top_view B s a) r"
proof -
  have cached: "same B s s'' \<and> read_result B (st_db s) a req f (top_view B s a) r'"
    if t: "same B s t" and c: "hm_get (st_cache t) a = Some e"
      and r': "ethen (complete_cached B a req) (with_cached a f) t = (r', s'')" for t e r' s''
  proof -
    obtain q t' where q: "complete_cached B a req t = (q, t')" by fastforce
    have spec: "same B t t'" "case required req (top_view B t a) of
       Ok _ \<Rightarrow> q = Ok () \<and> (\<exists>e'. hm_get (st_cache t') a = Some e' \<and>
         (\<forall>oa. ae_account e' = Some oa \<longrightarrow> req = RequireCode \<longrightarrow> is_code_loaded B oa))
     | Err x \<Rightarrow> q = Err x | Panic \<Rightarrow> False"
      using complete_cached_spec [OF same_ok [OF t] c q] by auto
    have st: "same B s t'" using t spec(1) by (rule same_trans)
    have db: "st_db t' = st_db s" "top_view B t a = top_view B s a" "top_view B t' a = top_view B s a"
      using st t same_view [OF t] same_view [OF st] by (simp_all add: same_def)
    show ?thesis
    proof (cases "required req (top_view B s a)")
      case (Ok acc)
      then obtain e' where e': "q = Ok ()" "hm_get (st_cache t') a = Some e'"
        "\<And>oa. ae_account e' = Some oa \<Longrightarrow> req = RequireCode \<Longrightarrow> is_code_loaded B oa"
        using spec(2) db by auto
      from r' q e'(1) have "with_cached a f t' = (r', s'')" by (simp add: eff_simps)
      from with_cached_spec [OF same_ok [OF st] _ e'(2,3) this] f db same_trans [OF st] show ?thesis by auto
    qed (use r' q spec(2) db st in \<open>auto simp: eff_simps read_result_def\<close>)
  qed
  show ?thesis
  proof (cases "hm_get (st_cache s) a")
    case (Some e)
    then show ?thesis using cached [OF same_refl [OF s] Some] r by (simp add: load_slow_def eff_simps hm_contains_def)
  next
    case None
    have B: "backend_ok B" using s by (simp add: state_ok_def)
    note spec = load_from_db_spec [OF B, where a = a and req = req and db = "st_db s"]
    show ?thesis
    proof (cases "load_from_db B a req (st_db s)")
      case (Ok acc)
      let ?t = "insert_cache_if_fresh_account a acc s"
      have t: "?t = s\<lparr>st_cache := hm_insert a (new_clean acc) (st_cache s)\<rparr>"
        using None by (simp add: insert_cache_if_fresh_account_def hm_contains_def)
      have "same B s ?t"
        unfolding t using spec Ok
        by (intro put_same [OF s]) (auto simp: entry_ok_def new_clean_def entry_view_def top_view_uncached [OF None])
      moreover have "hm_get (st_cache ?t) a = Some (new_clean acc)" by (simp add: t hm_simps)
      ultimately show ?thesis
        using cached r Ok None by (simp add: load_slow_def eff_simps hm_contains_def)
    qed (use spec r None s in \<open>auto simp: load_slow_def eff_simps hm_contains_def read_result_def
      top_view_uncached same_refl\<close>)
  qed
qed

lemma ensure_account_loaded_spec:
  assumes s: "state_ok B s" and f: "reader_ok B (st_db s) a f" and r: "ensure_account_loaded B a req f s = (r, s')"
  shows "same B s s' \<and> read_result B (st_db s) a req f (top_view B s a) r"
proof (cases "load_slow B a req f s = (r, s')")
  case True
  then show ?thesis by (rule load_slow_spec [OF s f])
next
  case False
  with r obtain e where e: "hm_get (st_cache s) a = Some e" and w: "with_cached a f s = (r, s')"
    and "\<And>oa. ae_account e = Some oa \<Longrightarrow> \<not> needs_update B req oa"
    by (auto simp: ensure_account_loaded_def split: option.splits if_splits)
  then show ?thesis
    by (intro with_cached_spec [OF s f e _ w]) (simp add: needs_update_def)
qed

section \<open>Changing an account\<close>

text \<open>
  \<open>require_or_set\<close> runs the change on the account of the top world, or on the default where there is
  none, and nothing else of the worlds changes.
\<close>

definition changed_by ::
  "'d backend \<Rightarrow> 'd state \<Rightarrow> address_with_space \<Rightarrow> (overlay_account, db_error, 'u) eff \<Rightarrow> overlay_account \<Rightarrow>
   'u db_result \<Rightarrow> 'd state \<Rightarrow> bool" where
  "changed_by B s a m oa r s' \<longleftrightarrow> r = fst (m oa) \<and> st_db s' = st_db s \<and> (account_ok B (st_db s) a (snd (m oa)) \<longrightarrow>
     updates B s a (Some (account_view B (st_db s) (snd (m oa)))) s')"

lemma changed_by_same: "same B s t \<Longrightarrow> changed_by B t a m oa r s' \<Longrightarrow> changed_by B s a m oa r s'"
  by (auto simp: changed_by_def same_def updates_def)

lemma modify_dirty_spec:
  assumes s: "state_ok B s" and c: "hm_get (st_cache s) a = Some e" and rec: "recorded a s"
    and r: "modify_dirty B a False dflt m s = (r, s')"
  shows "case ae_account e of
      Some oa \<Rightarrow> changed_by B s a m oa r s'
    | None \<Rightarrow> (case dflt of Ok oa \<Rightarrow> changed_by B s a m oa r s' | Err x \<Rightarrow> r = Err x \<and> same B s s' | Panic \<Rightarrow> r = Panic)"
proof -
  let ?put = "\<lambda>acc. s\<lparr>st_cache := hm_insert a (e\<lparr>ae_state := Dirty, ae_account := acc\<rparr>) (st_cache s)\<rparr>"
  have run: "m oa = (q, oa') \<Longrightarrow> changed_by B s a m oa q (?put (Some oa'))" for oa q oa'
    using put_updates [OF s _ rec, of "e\<lparr>ae_state := Dirty, ae_account := Some (snd (m oa))\<rparr>"]
    by (auto simp: changed_by_def entry_ok_def is_dirty_def entry_view_def)
  have keep: "same B s (?put (ae_account e))"
    using s c by (intro put_same [OF s]) (auto simp: state_ok_def entry_ok_def is_dirty_def entry_view_def top_view_cached [OF c])
  show ?thesis
  proof (cases "ae_account e")
    case None
    with r c keep run show ?thesis
      by (cases dflt) (auto simp: modify_dirty_def eff_simps Let_def split: prod.splits)
  next
    case (Some oa)
    with r c run show ?thesis by (auto simp: modify_dirty_def eff_simps Let_def split: prod.splits)
  qed
qed

lemma require_or_set_spec:
  assumes s: "state_ok B s" and r: "require_or_set B a False dflt m s = (r, s')"
  shows "case top_view B s a of
      Ok (Some av) \<Rightarrow> (\<exists>oa. account_ok B (st_db s) a oa \<and> account_view B (st_db s) oa = av \<and> changed_by B s a m oa r s')
    | Ok None \<Rightarrow> (case dflt of Ok oa \<Rightarrow> changed_by B s a m oa r s' | Err x \<Rightarrow> r = Err x \<and> same B s s' | Panic \<Rightarrow> r = Panic)
    | Err x \<Rightarrow> r = Err x \<and> same B s s'
    | Panic \<Rightarrow> False"
proof -
  have cached: ?thesis if t: "same B s t" and c: "hm_get (st_cache t) a = Some e"
    and r': "modify_dirty B a False dflt m (record_checkpoint a t) = (r, s')" for t e
  proof -
    have rec: "same B t (record_checkpoint a t)" by (rule record_same [OF same_ok [OF t]])
    then have st: "same B s (record_checkpoint a t)" using t by (rule same_trans [rotated])
    have c': "hm_get (st_cache (record_checkpoint a t)) a = Some e" using c by simp
    have V: "top_view B s a = Ok (entry_view B (st_db s) e)" "st_db t = st_db s"
      using top_view_cached [OF c, of B] same_view [OF t] t by (simp_all add: same_def)
    have "\<And>oa. ae_account e = Some oa \<Longrightarrow> account_ok B (st_db s) a oa"
      using same_ok [OF t] c V by (auto simp: state_ok_def entry_ok_def)
    then show ?thesis
      using modify_dirty_spec [OF same_ok [OF st] c' recorded_record r'] V
      by (auto simp: entry_view_def intro: changed_by_same [OF st] same_trans [OF st] split: option.splits res.splits)
  qed
  show ?thesis
  proof (cases "hm_get (st_cache s) a")
    case (Some e)
    then show ?thesis
      using cached [OF same_refl [OF s] Some] r by (simp add: require_or_set_def eff_simps hm_contains_def)
  next
    case None
    have B: "backend_ok B" using s by (simp add: state_ok_def)
    show ?thesis
    proof (cases "db_get_account B a (st_db s)")
      case (Ok acc)
      let ?e = "new_clean (map_option (from_loaded a) acc)"
      have e: "entry_ok B (st_db s) a ?e" "db_view B (st_db s) a = Ok (entry_view B (st_db s) ?e)"
        using Ok by (auto simp: entry_ok_def new_clean_def from_loaded_ok db_view_def entry_view_def option.map_comp comp_def)
      have t: "insert_cache_if_fresh_account a (map_option (from_loaded a) acc) s =
          s\<lparr>st_cache := hm_insert a ?e (st_cache s)\<rparr>"
        using None by (simp add: insert_cache_if_fresh_account_def hm_contains_def)
      have "same B s (s\<lparr>st_cache := hm_insert a ?e (st_cache s)\<rparr>)"
        using e by (intro put_same [OF s]) (simp_all add: top_view_uncached [OF None])
      from cached [OF this] show ?thesis
        using r Ok None by (simp add: require_or_set_def eff_simps hm_contains_def t hm_simps)
    qed (use r None s db_get_no_panic(1) [OF B] in \<open>auto simp: require_or_set_def eff_simps hm_contains_def
      top_view_uncached db_view_def same_refl\<close>)
  qed
qed

section \<open>Reads\<close>

definition or_default :: "'b \<Rightarrow> ('a \<Rightarrow> 'b) \<Rightarrow> 'a option \<Rightarrow> 'b" where
  "or_default d f x = (case x of None \<Rightarrow> d | Some y \<Rightarrow> f y)"

lemma or_default_simps [simp]: "or_default d f None = d" "or_default d f (Some x) = f x"
  by (simp_all add: or_default_def)

lemma reading_spec:
  assumes s: "state_ok B s" and r: "ensure_account_loaded B a RequireNone (reading f) s = (r, s')"
    and g: "\<And>oa. f (Some oa) = g (account_view B (st_db s) oa)"
  shows "same B s s' \<and> r = rmap (or_default (f None) g) (top_view B s a)"
  using ensure_account_loaded_spec [OF s reader_ok_reading r] g
  by (cases "top_view B s a") (auto simp: read_result_def required_def reading_def split: option.splits)

lemma state_balance_spec:
  assumes "state_ok B s" "state_balance B a s = (r, s')"
  shows "same B s s' \<and> r = rmap (or_default 0 av_balance) (top_view B s a)"
  using reading_spec [OF assms(1) assms(2) [unfolded state_balance_def], where g = av_balance]
  by (simp add: account_view_def)

lemma state_nonce_spec:
  assumes "state_ok B s" "state_nonce B a s = (r, s')"
  shows "same B s s' \<and> r = rmap (or_default 0 av_nonce) (top_view B s a)"
  using reading_spec [OF assms(1) assms(2) [unfolded state_nonce_def], where g = av_nonce]
  by (simp add: account_view_def)

lemma state_code_hash_spec:
  assumes "state_ok B s" "state_code_hash B a s = (r, s')"
  shows "same B s s' \<and> r = rmap (map_option av_code_hash) (top_view B s a)"
  using reading_spec [OF assms(1) assms(2) [unfolded state_code_hash_def], where g = "\<lambda>av. Some (av_code_hash av)"]
  by (simp add: account_view_def or_default_def [abs_def] map_option_case [abs_def])

lemma state_exists_spec:
  assumes "state_ok B s" "state_exists B a s = (r, s')"
  shows "same B s s' \<and> r = rmap (\<lambda>acc. acc \<noteq> None) (top_view B s a)"
  using reading_spec [OF assms(1) assms(2) [unfolded state_exists_def], where g = "\<lambda>_. True"]
  by (cases "top_view B s a") (auto simp: or_default_def split: option.splits)

lemma is_contract_with_code_spec:
  assumes "state_ok B s" "is_contract_with_code B a s = (r, s')"
  shows "same B s s' \<and> r = rmap (or_default False (\<lambda>av. av_code_hash av \<noteq> bk_keccak_empty B)) (top_view B s a)"
  using reading_spec [OF assms(1) assms(2) [unfolded is_contract_with_code_def],
      where g = "\<lambda>av. av_code_hash av \<noteq> bk_keccak_empty B"]
  by (simp add: account_view_def)

definition av_null :: "'d backend \<Rightarrow> account_view \<Rightarrow> bool" where
  "av_null B av \<longleftrightarrow> av_balance av = 0 \<and> av_nonce av = 0 \<and> av_code_hash av = bk_keccak_empty B"

lemma exists_and_not_null_spec:
  assumes "state_ok B s" "exists_and_not_null B a s = (r, s')"
  shows "same B s s' \<and> r = rmap (or_default False (\<lambda>av. \<not> av_null B av)) (top_view B s a)"
  using reading_spec [OF assms(1) assms(2) [unfolded exists_and_not_null_def], where g = "\<lambda>av. \<not> av_null B av"]
  by (simp add: account_view_def is_null_def av_null_def)

lemma rmap_ident [simp]: "rmap (\<lambda>x. x) r = r"
  by (cases r) simp_all

lemma reading_code_spec:
  assumes s: "state_ok B s"
    and r: "ensure_account_loaded B a RequireCode (reading (\<lambda>acc. Option.bind acc (\<lambda>oa. g (oa_code oa)))) s = (r, s')"
  shows "same B s s' \<and> r = rbind (top_view B s a) (or_default (Ok None) (\<lambda>av. rmap g (av_code av)))"
  using ensure_account_loaded_spec [OF s reader_ok_reading r]
  by (cases "top_view B s a")
    (auto simp: read_result_def required_def reading_def split: res.splits option.splits)

lemma state_code_spec:
  assumes "state_ok B s" "state_code B a s = (r, s')"
  shows "same B s s' \<and> r = rbind (top_view B s a) (or_default (Ok None) av_code)"
  using reading_code_spec [OF assms(1), where g = "\<lambda>x. x"] assms(2) by (simp add: state_code_def)

lemma state_code_size_spec:
  assumes "state_ok B s" "state_code_size B a s = (r, s')"
  shows "same B s s' \<and> r = rbind (top_view B s a)
    (or_default (Ok None) (\<lambda>av. rmap (map_option (\<lambda>c. of_nat (length c))) (av_code av)))"
  by (rule reading_code_spec [OF assms(1) assms(2) [unfolded state_code_size_def]])

lemma read_cache_insert:
  assumes "account_ok B db a oa" "\<not> fresh_storage oa" "rmap or_zero (db_get_storage B a k db) = Ok v"
  shows "account_ok B db a (oa\<lparr>oa_read_cache := hm_insert k v (oa_read_cache oa)\<rparr>)"
  using assms unfolding account_ok_def fresh_storage_def by (simp add: hm_simps)

lemma read_cache_view [simp]: "account_view B db (oa\<lparr>oa_read_cache := c\<rparr>) = account_view B db oa"
  by (simp add: account_view_def code_view_def is_code_loaded_def storage_view_def fresh_storage_def fun_eq_iff
      cong: option.case_cong if_cong)

lemma oa_storage_at_spec:
  assumes B: "backend_ok B" and oa: "account_ok B db a oa" and r: "oa_storage_at B db k oa = (r, oa')"
  shows "account_ok B db a oa' \<and> account_view B db oa' = account_view B db oa \<and> r = storage_view B db oa k"
proof (cases "cached_storage_at oa k")
  case (Some v)
  then have "storage_view B db oa k = Ok v"
    using oa by (auto simp: cached_storage_at_def storage_view_def account_ok_def split: option.splits)
  with Some r oa show ?thesis by (auto simp: oa_storage_at_def)
next
  case None
  then have w: "hm_get (oa_write_cache oa) k = None" by (simp add: cached_storage_at_def split: option.splits)
  show ?thesis
  proof (cases "fresh_storage oa")
    case True
    with None w r oa show ?thesis by (auto simp: oa_storage_at_def storage_view_def)
  next
    case False
    then have "storage_view B db oa k = rmap or_zero (db_get_storage B a k db)"
      using w oa by (simp add: storage_view_def account_ok_def)
    moreover have "oa_address oa = a" using oa by (simp add: account_ok_def)
    ultimately show ?thesis
      using r oa None False db_get_no_panic(3) [OF B, of a k db] read_cache_insert [OF oa False]
      by (auto simp: oa_storage_at_def get_and_cache_storage_def or_zero_def split: res.splits option.splits)
  qed
qed

lemma storage_at_spec:
  assumes s: "state_ok B s" and r: "storage_at B a k s = (r, s')"
  shows "same B s s' \<and> r = rbind (top_view B s a) (or_default (Ok 0) (\<lambda>av. av_storage av k))"
proof -
  have B: "backend_ok B" using s by (simp add: state_ok_def)
  obtain q t where q: "ensure_account_loaded B a RequireNone (storage_reader B (st_db s) k) s = (q, t)" by fastforce
  have "reader_ok B (st_db s) a (storage_reader B (st_db s) k)"
    unfolding reader_ok_def storage_reader_def
    by (auto split: prod.splits dest: oa_storage_at_spec [OF B])
  note spec = ensure_account_loaded_spec [OF s this q]
  have "fst (storage_reader B (st_db s) k (Some oa)) = storage_view B (st_db s) oa k"
    if "account_ok B (st_db s) a oa" for oa
    by (auto simp: storage_reader_def split: prod.splits dest: oa_storage_at_spec [OF B that])
  with spec r q show ?thesis
    by (cases "top_view B s a") (auto simp: storage_at_def eff_simps read_result_def required_def or_default_def
        storage_reader_def account_view_def split: res.splits option.splits)
qed

end
