(* ===== verification/State_Contract.thy ===== *)
theory State_Contract
  imports State_Refinement
begin

text \<open>
  The operations of the world state against the stack of worlds: every write as a change of one
  account of the top world, and the three checkpoint operations as push, merge and pop.
\<close>

section \<open>Changes of one field\<close>

lemmas view_defs = account_view_def code_view_def is_code_loaded_def storage_view_def fresh_storage_def

lemma view_update [simp]:
  "account_view B db (oa\<lparr>oa_balance := b\<rparr>) = (account_view B db oa)\<lparr>av_balance := b\<rparr>"
  "account_view B db (oa\<lparr>oa_nonce := n\<rparr>) = (account_view B db oa)\<lparr>av_nonce := n\<rparr>"
  "account_view B db (oa\<lparr>oa_write_cache := hm_insert k v (oa_write_cache oa)\<rparr>) =
     (account_view B db oa)\<lparr>av_storage := (av_storage (account_view B db oa))(k := Ok v)\<rparr>"
  "account_view B db (oa\<lparr>oa_code_hash := h, oa_code := Some c\<rparr>) =
     (account_view B db oa)\<lparr>av_code_hash := h, av_code := Ok (Some c)\<rparr>"
  by (simp_all add: view_defs fun_eq_iff hm_simps cong: option.case_cong if_cong)

lemma view_select [simp]:
  "av_balance (account_view B db oa) = oa_balance oa" "av_nonce (account_view B db oa) = oa_nonce oa"
  "av_code_hash (account_view B db oa) = oa_code_hash oa" "av_invalidated (account_view B db oa) = oa_invalidated oa"
  "av_newly_created (account_view B db oa) = oa_newly_created oa"
  by (simp_all add: account_view_def)

lemma account_ok_update [simp]:
  "account_ok B db a oa \<Longrightarrow> account_ok B db a (oa\<lparr>oa_balance := b\<rparr>)"
  "account_ok B db a oa \<Longrightarrow> account_ok B db a (oa\<lparr>oa_nonce := n\<rparr>)"
  "account_ok B db a oa \<Longrightarrow> account_ok B db a (oa\<lparr>oa_write_cache := hm_insert k v (oa_write_cache oa)\<rparr>)"
  "account_ok B db a oa \<Longrightarrow> length c < 2 ^ 63 \<Longrightarrow> account_ok B db a (oa\<lparr>oa_code_hash := h, oa_code := Some c\<rparr>)"
  by (auto simp: account_ok_def fresh_storage_def)

lemma new_account_ok [simp]:
  "account_ok B db a (new_basic B a b n)" "account_ok B db a (new_removed B a)"
  "account_ok B db a (new_contract_account B a b n i l)"
  by (simp_all add: account_ok_def new_basic_def new_removed_def new_contract_account_def)

lemma same_is_update: "state_ok B s \<Longrightarrow> same B s t \<Longrightarrow> top_view B s a = Ok av \<Longrightarrow> updates B s a av t"
  by (auto simp: updates_def same_def world_update_def worlds_eq [of B s] fun_upd_idem)

section \<open>Writes\<close>

text \<open>The account a payment or a nonce creates where there is none.\<close>

definition basic_view :: "'d backend \<Rightarrow> 'd \<Rightarrow> address_with_space \<Rightarrow> u256 \<Rightarrow> account_view" where
  "basic_view B db a n = account_view B db (new_basic B a 0 n)"

lemma change_basic:
  assumes s: "state_ok B s" and r: "require_or_new_basic_account B a n m s = (r, s')"
    and V: "top_view B s a = Ok acc"
  obtains oa where "account_ok B (st_db s) a oa"
    "account_view B (st_db s) oa = or_default (basic_view B (st_db s) a n) (\<lambda>av. av) acc" "changed_by B s a m oa r s'"
  using require_or_set_spec [OF s r [unfolded require_or_new_basic_account_def]] V that [of "new_basic B a 0 n"] that
  by (cases acc) (auto simp: basic_view_def)

lemma change_existing:
  assumes s: "state_ok B s" and r: "require_exists B a False m s = (r, s')"
    and V: "top_view B s a = Ok (Some av)"
  obtains oa where "account_ok B (st_db s) a oa" "account_view B (st_db s) oa = av" "changed_by B s a m oa r s'"
  using require_or_set_spec [OF s r [unfolded require_exists_def]] V by auto

lemma change_missing:
  assumes s: "state_ok B s" and r: "require_exists B a False m s = (r, s')" and V: "top_view B s a = Ok None"
  shows "r = Err (IncompleteDatabase (aws_address a)) \<and> same B s s'"
  using require_or_set_spec [OF s r [unfolded require_exists_def]] V by auto

lemma change_error:
  assumes s: "state_ok B s" and r: "require_or_set B a False dflt m s = (r, s')" and V: "top_view B s a = Err e"
  shows "r = Err e \<and> same B s s'"
  using require_or_set_spec [OF s r] V by auto

lemma top_view_no_panic: "state_ok B s \<Longrightarrow> top_view B s a \<noteq> Panic"
  by (auto simp: top_view_def cache_view_def db_view_def state_ok_def db_get_no_panic split: option.splits)

lemma inc_nonce_spec:
  assumes s: "state_ok B s" and r: "inc_nonce B a n s = (r, s')" and V: "top_view B s a = Ok acc"
    and av: "av = or_default (basic_view B (st_db s) a n) (\<lambda>av. av) acc"
  shows "if av_nonce av = - 1 then r = Panic
    else r = Ok () \<and> updates B s a (Some (av\<lparr>av_nonce := av_nonce av + 1\<rparr>)) s'"
proof -
  obtain oa where oa: "account_ok B (st_db s) a oa" "account_view B (st_db s) oa = av" "changed_by B s a oa_inc_nonce oa r s'"
    using change_basic [OF s r [unfolded inc_nonce_def] V] av by auto
  have "(2 ^ 256 \<le> unat (oa_nonce oa) + 1) \<longleftrightarrow> oa_nonce oa = - 1"
  proof
    assume "2 ^ 256 \<le> unat (oa_nonce oa) + 1"
    then have "unat (oa_nonce oa) = unat (- 1 :: u256)" using unat_lt_pow [of "oa_nonce oa"] by (simp add: unsigned_minus_1_eq_mask mask_eq_exp_minus_1)
    then show "oa_nonce oa = - 1" by (simp only: word_unat_eq_iff)
  qed (simp add: unsigned_minus_1_eq_mask mask_eq_exp_minus_1)
  with oa show ?thesis
    by (auto simp: changed_by_def oa_inc_nonce_def eff_simps u_add_def)
qed

lemma set_nonce_spec:
  assumes s: "state_ok B s" and r: "set_nonce B a n s = (r, s')" and V: "top_view B s a = Ok acc"
  shows "r = Ok () \<and> updates B s a (Some ((or_default (basic_view B (st_db s) a n) (\<lambda>av. av) acc)\<lparr>av_nonce := n\<rparr>)) s'"
proof -
  obtain oa where "account_ok B (st_db s) a oa" "account_view B (st_db s) oa = or_default (basic_view B (st_db s) a n) (\<lambda>av. av) acc"
    "changed_by B s a (oa_set_nonce n) oa r s'"
    by (rule change_basic [OF s r [unfolded set_nonce_def] V])
  then show ?thesis by (auto simp: changed_by_def oa_set_nonce_def eff_simps)
qed

lemma init_code_spec:
  assumes s: "state_ok B s" and r: "init_code B a c s = (r, s')" and V: "top_view B s a = Ok (Some av)"
    and c: "length c < 2 ^ 63"
  shows "r = Ok () \<and> updates B s a (Some (av\<lparr>av_code_hash := bk_keccak B c, av_code := Ok (Some c)\<rparr>)) s'"
proof -
  obtain oa where "account_ok B (st_db s) a oa" "account_view B (st_db s) oa = av" "changed_by B s a (oa_init_code B c) oa r s'"
    by (rule change_existing [OF s r [unfolded init_code_def] V])
  with c show ?thesis by (auto simp: changed_by_def oa_init_code_def eff_simps)
qed

lemma new_contract_spec:
  assumes s: "state_ok B s" and r: "new_contract B a bal n l s = (r, s')"
  shows "case top_view B s a of
      Ok acc \<Rightarrow> r = Ok () \<and> updates B s a
        (Some (account_view B (st_db s) (new_contract_account B a bal n (or_default False av_invalidated acc) l))) s'
    | Err e \<Rightarrow> r = Err e \<and> same B s s'
    | Panic \<Rightarrow> False"
proof -
  let ?f = "\<lambda>acc. case acc of None \<Rightarrow> False | Some oa \<Rightarrow> oa_invalidated oa"
  obtain q t where q: "ensure_account_loaded B a RequireNone (reading ?f) s = (q, t)" by fastforce
  have spec: "same B s t" "q = rmap (or_default False av_invalidated) (top_view B s a)"
    using reading_spec [OF s q, where g = av_invalidated] by auto
  have "updates B s a (Some (account_view B (st_db s) (new_contract_account B a bal n i l)))
      (update_cache a (new_dirty (Some (new_contract_account B a bal n i l))) t)" for i
    using update_cache_updates [OF same_ok [OF spec(1)], of a "new_dirty (Some (new_contract_account B a bal n i l))"] spec(1)
    by (auto intro!: same_updates [OF spec(1)] simp: entry_ok_def new_dirty_def is_dirty_def entry_view_def same_def)
  with spec q r show ?thesis
    by (cases "top_view B s a") (auto simp: new_contract_def eff_simps top_view_no_panic [OF s])
qed

lemma remove_contract_spec:
  assumes s: "state_ok B s" and r: "remove_contract B a s = (r, s')"
  shows "r = Ok () \<and> updates B s a (Some (account_view B (st_db s) (new_removed B a))) s'"
  using update_cache_updates [OF s, of a "new_dirty (Some (new_removed B a))"] r
  by (auto simp: remove_contract_def eff_simps entry_ok_def new_dirty_def is_dirty_def entry_view_def)

lemma set_storage_spec:
  assumes s: "state_ok B s" and r: "set_storage B a k v s = (r, s')"
  shows "case top_view B s a of
      Ok (Some av) \<Rightarrow> (case av_storage av k of
          Ok _ \<Rightarrow> r = Ok () \<and> updates B s a (Some (av\<lparr>av_storage := (av_storage av)(k := Ok v)\<rparr>)) s'
        | Err e \<Rightarrow> r = Err e \<and> same B s s'
        | Panic \<Rightarrow> r = Panic)
    | Ok None \<Rightarrow> r = (if v = 0 then Ok () else Err (IncompleteDatabase (aws_address a))) \<and> same B s s'
    | Err e \<Rightarrow> r = Err e \<and> same B s s'
    | Panic \<Rightarrow> False"
proof -
  obtain q t where q: "storage_at B a k s = (q, t)" by fastforce
  have t: "same B s t" and q': "q = rbind (top_view B s a) (or_default (Ok 0) (\<lambda>av. av_storage av k))"
    using storage_at_spec [OF s q] by auto
  have tv: "top_view B t a = top_view B s a" by (simp add: same_view [OF t])
  show ?thesis
  proof (cases "top_view B s a")
    case (Ok acc)
    show ?thesis
    proof (cases acc)
      case None
      then show ?thesis
        using Ok r q q' t change_missing [OF same_ok [OF t], of a "oa_set_storage k v" r s'] tv
        by (auto simp: set_storage_def eff_simps intro: same_trans split: if_splits)
    next
      case (Some av)
      show ?thesis
      proof (cases "av_storage av k")
        case old: (Ok old)
        show ?thesis
        proof (cases "old = v")
          case True
          then have "av\<lparr>av_storage := (av_storage av)(k := Ok v)\<rparr> = av" using old by (simp add: fun_upd_idem)
          then show ?thesis
            using True Ok Some old r q q' same_is_update [OF s t Ok] by (auto simp: set_storage_def eff_simps)
        next
          case False
          then have "require_exists B a False (oa_set_storage k v) t = (r, s')"
            using Ok Some old r q q' by (simp add: set_storage_def eff_simps)
          from change_existing [OF same_ok [OF t] this] Ok Some tv
          obtain oa where "account_ok B (st_db t) a oa" "account_view B (st_db t) oa = av"
            "changed_by B t a (oa_set_storage k v) oa r s'" by metis
          then have "r = Ok () \<and> updates B t a (Some (av\<lparr>av_storage := (av_storage av)(k := Ok v)\<rparr>)) s'"
            by (auto simp: changed_by_def oa_set_storage_def eff_simps)
          then show ?thesis using Ok Some old same_updates [OF t] by simp
        qed
      qed (use Ok Some r q q' t in \<open>auto simp: set_storage_def eff_simps\<close>)
    qed
  qed (use r q q' t top_view_no_panic [OF s] in \<open>auto simp: set_storage_def eff_simps\<close>)
qed

section \<open>Balances\<close>

lemma sub_balance_state:
  assumes s: "state_ok B s" and r: "sub_balance B a v (s, mode) = (r, (s', mode'))"
    and V: "top_view B s a = Ok (Some av)" and v: "v \<le> av_balance av"
  shows "r = Ok () \<and> updates B s a (Some (av\<lparr>av_balance := av_balance av - v\<rparr>)) s'"
proof -
  obtain q t where q: "(if v \<noteq> 0 then require_exists B a False (oa_sub_balance v) else eret ()) s = (q, t)" by fastforce
  have t: "q = Ok () \<and> updates B s a (Some (av\<lparr>av_balance := av_balance av - v\<rparr>)) t"
  proof (cases "v = 0")
    case True
    then show ?thesis using q same_is_update [OF s same_refl [OF s] V] by (simp add: eff_simps)
  next
    case False
    then have run: "require_exists B a False (oa_sub_balance v) s = (q, t)" using q by simp
    obtain oa where "account_ok B (st_db s) a oa" "account_view B (st_db s) oa = av"
      "changed_by B s a (oa_sub_balance v) oa q t"
      by (rule change_existing [OF s run V])
    then show ?thesis using v by (auto simp: changed_by_def oa_sub_balance_def eff_simps u_sub_def)
  qed
  have tv: "top_view B t a = Ok (Some (av\<lparr>av_balance := av_balance av - v\<rparr>))"
    using updates_view [OF conjunct2 [OF t]] by simp
  have ex: "state_exists B a t = (x, u) \<Longrightarrow> x = Ok True \<and> same B t u" for x u
    using state_exists_spec [OF updates_ok, of B s a "Some (av\<lparr>av_balance := av_balance av - v\<rparr>)" t a x u] t tv by auto
  have upd: "same B t u \<Longrightarrow> updates B s a (Some (av\<lparr>av_balance := av_balance av - v\<rparr>)) u" for u
    using t by (auto simp: updates_def same_def)
  have sub: "sub_balance B a v (s, mode) = (case mode of
      TrackTouched _ \<Rightarrow> ebind (on_fst (state_exists B a)) (touch a) | _ \<Rightarrow> eret ()) (t, mode)"
    using q t by (cases "v = 0") (auto simp: sub_balance_def eff_simps)
  show ?thesis
    using r t upd ex unfolding sub
    by (cases mode) (auto simp: eff_simps touch_def split: prod.splits res.splits)
qed

lemma add_balance_state:
  assumes s: "state_ok B s" and r: "add_balance B a v n (s, mode) = (r, (s', mode'))"
    and V: "top_view B s a = Ok acc" and av: "av = or_default (basic_view B (st_db s) a n) (\<lambda>av. av) acc"
    and v: "unat (av_balance av) + unat v < 2 ^ 256"
  shows "r = Ok () \<and> (if acc = None \<and> v = 0 \<and> mode \<noteq> ForceCreate then same B s s'
    else updates B s a (Some (av\<lparr>av_balance := av_balance av + v\<rparr>)) s')"
proof -
  obtain x t where x: "state_exists B a s = (x, t)" by fastforce
  have t: "same B s t" and x': "x = Ok (acc \<noteq> None)" using state_exists_spec [OF s x] V by auto
  have tv: "top_view B t a = Ok acc" "st_db t = st_db s" using same_view [OF t] V t by (simp_all add: same_def)
  have ch: "q = Ok () \<and> updates B s a (Some (av\<lparr>av_balance := av_balance av + v\<rparr>)) u"
    if run: "require_or_new_basic_account B a n (oa_add_balance v) t = (q, u)" for q u
  proof -
    obtain oa where "account_ok B (st_db t) a oa" "account_view B (st_db t) oa = av" "changed_by B t a (oa_add_balance v) oa q u"
      using change_basic [OF same_ok [OF t] run tv(1)] av tv(2) by auto
    then have "q = Ok () \<and> updates B t a (Some (av\<lparr>av_balance := av_balance av + v\<rparr>)) u"
      using v by (auto simp: changed_by_def oa_add_balance_def eff_simps u_add_def)
    then show ?thesis using same_updates [OF t] by blast
  qed
  have keep: "updates B s a (Some (av\<lparr>av_balance := av_balance av + v\<rparr>)) t" if "v = 0" "acc \<noteq> None"
    using same_is_update [OF s t V] that av by auto
  show ?thesis
  proof (cases "v \<noteq> 0 \<or> (mode = ForceCreate \<and> acc = None)")
    case True
    obtain q u where q: "require_or_new_basic_account B a n (oa_add_balance v) t = (q, u)" by fastforce
    show ?thesis
      using r x x' q True ch [OF q] by (auto simp: add_balance_def eff_simps touch_def split: prod.splits)
  next
    case False
    with r x x' t keep show ?thesis by (auto simp: add_balance_def eff_simps touch_def split: prod.splits)
  qed
qed

text \<open>A payment between two different accounts moves exactly the amount.\<close>

lemma transfer_balance_state:
  assumes s: "state_ok B s" and r: "transfer_balance B src dst v n (s, mode) = (r, (s', mode'))"
    and src: "top_view B s src = Ok (Some av)" and v: "v \<le> av_balance av"
    and dst: "top_view B s dst = Ok acc" and ne: "src \<noteq> dst"
    and bv: "bv = or_default (basic_view B (st_db s) dst n) (\<lambda>av. av) acc"
    and fits: "unat (av_balance bv) + unat v < 2 ^ 256"
  shows "r = Ok () \<and> state_ok B s' \<and> st_db s' = st_db s \<and> tl (worlds B s') = tl (worlds B s) \<and>
    top_view B s' = (top_view B s)(src := Ok (Some (av\<lparr>av_balance := av_balance av - v\<rparr>)),
      dst := Ok (if acc = None \<and> v = 0 \<and> mode \<noteq> ForceCreate then None
                 else Some (bv\<lparr>av_balance := av_balance bv + v\<rparr>)))"
proof -
  obtain q t m where q: "sub_balance B src v (s, mode) = (q, (t, m))" by (metis prod.exhaust)
  have t: "q = Ok ()" "updates B s src (Some (av\<lparr>av_balance := av_balance av - v\<rparr>)) t"
    using sub_balance_state [OF s q src v] by auto
  have m: "m = ForceCreate \<longleftrightarrow> mode = ForceCreate"
    using q by (auto simp: sub_balance_def eff_simps touch_def split: prod.splits res.splits if_splits cleanup_mode.splits)
  have r': "add_balance B dst v n (t, m) = (r, (s', mode'))"
    using r q t by (simp add: transfer_balance_def eff_simps)
  have tv: "top_view B t dst = Ok acc" "st_db t = st_db s" using updates_view [OF t(2)] dst ne t by (simp_all add: updates_def)
  have bv': "bv = or_default (basic_view B (st_db t) dst n) (\<lambda>av. av) acc" using bv tv(2) by simp
  have add: "r = Ok () \<and> (if acc = None \<and> v = 0 \<and> m \<noteq> ForceCreate then same B t s'
      else updates B t dst (Some (bv\<lparr>av_balance := av_balance bv + v\<rparr>)) s')"
    by (rule add_balance_state [OF updates_ok [OF t(2)] r' tv(1) bv' fits])
  have tl: "tl (worlds B t) = tl (worlds B s)" using t by (simp add: updates_def world_update_def worlds_eq [of B s])
  show ?thesis
  proof (cases "acc = None \<and> v = 0 \<and> m \<noteq> ForceCreate")
    case True
    then have "same B t s'" using add by simp
    then show ?thesis using True add m tl tv dst same_view [OF \<open>same B t s'\<close>] updates_view [OF t(2)] ne
      by (auto simp: same_def fun_upd_idem)
  next
    case False
    then have u: "updates B t dst (Some (bv\<lparr>av_balance := av_balance bv + v\<rparr>)) s'" using add by auto
    then have "tl (worlds B s') = tl (worlds B t)" by (simp add: updates_def world_update_def worlds_eq [of B t])
    then show ?thesis using False add m tl tv u updates_view [OF u] updates_view [OF t(2)] by (auto simp: updates_def)
  qed
qed

section \<open>Checkpoints\<close>

lemma checkpoint_spec:
  assumes "state_ok B s" "checkpoint s = (n, s')"
  shows "state_ok B s' \<and> worlds B s' = hd (worlds B s) # worlds B s \<and> st_db s' = st_db s \<and> n = length (worlds B s) - 1"
proof -
  have "before_checkpoint B db [] V = V" for db V by (simp add: before_checkpoint_def fun_eq_iff)
  moreover have "length (views_from B (st_db s) V cs) = Suc (length cs)" for V cs by (induction cs arbitrary: V) simp_all
  ultimately show ?thesis
    using assms by (cases "st_checkpoints s") (auto simp: checkpoint_def state_ok_def worlds_def top_view_def)
qed

lemma discard_checkpoint_spec:
  assumes s: "state_ok B s" and c: "st_checkpoints s = c # cs"
  shows "state_ok B (discard_checkpoint s) \<and> st_db (discard_checkpoint s) = st_db s \<and>
    worlds B (discard_checkpoint s) = hd (worlds B s) # drop 2 (worlds B s)"
proof -
  obtain w ws where ws: "st_statistics_checkpoints s = w # ws" "length ws = length cs"
    using s c by (cases "st_statistics_checkpoints s") (auto simp: state_ok_def)
  show ?thesis
  proof (cases cs)
    case Nil
    with s c ws show ?thesis by (auto simp: discard_checkpoint_def state_ok_def worlds_def top_view_def)
  next
    case (Cons p ps)
    let ?m = "if p = [] then c else fold (\<lambda>(k, v). hm_or_insert k v) c p"
    have m: "hm_get ?m = hm_get c ++ hm_get p" by (simp add: hm_get_fold_or_insert)
    have "before_checkpoint B db ?m V = before_checkpoint B db p (before_checkpoint B db c V)" for db V
      unfolding before_checkpoint_def m by (auto simp: fun_eq_iff map_add_def split: option.splits)
    moreover have "hm_ok ?m" using s c Cons by (simp add: state_ok_def hm_ok_fold_or_insert)
    moreover have "hm_get ?m a = Some (Some e) \<Longrightarrow> entry_ok B (st_db s) a e" for a e
      using s c Cons unfolding m by (auto simp: state_ok_def map_add_Some_iff)
    ultimately show ?thesis
      using s c ws Cons by (simp add: discard_checkpoint_def state_ok_def worlds_def top_view_def)
  qed
qed

lemma fold_revert_entry:
  "hm_ok c \<Longrightarrow> hm_get (fold revert_entry c cache) a =
     (case hm_get c a of None \<Rightarrow> hm_get cache a | Some x \<Rightarrow> hm_get (revert_entry (a, x) cache) a)"
proof (induction c arbitrary: cache)
  case (Cons kx c)
  obtain k x where kx: "kx = (k, x)" by (cases kx)
  have other: "b \<noteq> k \<Longrightarrow> hm_get (revert_entry (k, x) cache) b = hm_get cache b" for b
    by (auto simp: revert_entry_def hm_simps split: option.splits)
  have cong: "b \<noteq> k \<Longrightarrow> hm_get (revert_entry (b, y) (revert_entry (k, x) cache)) b = hm_get (revert_entry (b, y) cache) b" for b y
    using other by (auto simp: revert_entry_def hm_simps split: option.splits)
  have ok: "hm_ok c" and k: "hm_get c k = None" using Cons.prems by (simp_all add: kx hm_ok_def map_of_eq_None_iff)
  show ?case
    using Cons.IH [OF ok, of "revert_entry (k, x) cache"] k other cong
    by (cases "a = k"; cases "hm_get c a") (simp_all add: kx)
qed simp

lemma hm_ok_fold_revert: "hm_ok cache \<Longrightarrow> hm_ok (fold revert_entry c cache)"
  by (induction c arbitrary: cache) (auto simp: revert_entry_def split: option.splits prod.splits)

lemma overwrite_entry:
  assumes e: "entry_ok B db a e" and v: "entry_ok B db a v"
  shows "entry_view B db (ae_overwrite_with v e) = entry_view B db v \<and> entry_ok B db a (ae_overwrite_with v e)"
proof -
  have "ae_account (ae_overwrite_with v e) = ae_account v"
  proof (cases "ae_account e"; cases "ae_account v")
    fix ours acc
    assume acc: "ae_account e = Some ours" "ae_account v = Some acc"
    then have "oa_address ours = oa_address acc" using e v by (simp add: entry_ok_def account_ok_def)
    then show ?thesis using acc by (simp add: ae_overwrite_with_def Let_def oa_overwrite_with_same)
  qed (simp_all add: ae_overwrite_with_def Let_def)
  moreover have "is_dirty (ae_overwrite_with v e) = is_dirty v"
    by (simp add: ae_overwrite_with_def Let_def is_dirty_def split: option.splits)
  ultimately show ?thesis using v by (simp add: entry_ok_def entry_view_def)
qed

lemma revert_entry_view:
  assumes s: "state_ok B s" and x: "\<And>e. x = Some e \<Longrightarrow> entry_ok B (st_db s) a e"
  shows "cache_view B (st_db s) (revert_entry (a, x) (st_cache s)) a =
      (case x of None \<Rightarrow> db_view B (st_db s) a | Some e \<Rightarrow> Ok (entry_view B (st_db s) e)) \<and>
    (\<forall>e. hm_get (revert_entry (a, x) (st_cache s)) a = Some e \<longrightarrow> entry_ok B (st_db s) a e)"
proof -
  have e: "hm_get (st_cache s) a = Some e \<Longrightarrow> entry_ok B (st_db s) a e" for e using s by (auto simp: state_ok_def)
  show ?thesis
  proof (cases "hm_get (st_cache s) a")
    case None
    with x show ?thesis by (cases x) (simp_all add: revert_entry_def cache_view_def hm_simps)
  next
    case (Some e)
    show ?thesis
    proof (cases x)
      case None
      with Some e [OF Some] show ?thesis
        by (cases "is_dirty e") (simp_all add: revert_entry_def cache_view_def hm_simps entry_ok_def)
    next
      case (Some v)
      with \<open>hm_get (st_cache s) a = Some e\<close> overwrite_entry [OF e x] show ?thesis
        by (simp add: revert_entry_def cache_view_def hm_simps)
    qed
  qed
qed

lemma revert_to_checkpoint_spec:
  assumes s: "state_ok B s" and c: "st_checkpoints s = c # cs" and r: "revert_to_checkpoint s = (r, s')"
  shows "r = Ok () \<and> state_ok B s' \<and> st_db s' = st_db s \<and> worlds B s' = tl (worlds B s)"
proof -
  obtain w ws where ws: "st_statistics_checkpoints s = w # ws" "length ws = length cs"
    using s c by (cases "st_statistics_checkpoints s") (auto simp: state_ok_def)
  have r': "r = Ok ()" "s' = s\<lparr>st_checkpoints := cs, st_statistics := w, st_statistics_checkpoints := ws,
      st_cache := fold revert_entry c (st_cache s)\<rparr>"
    using r c ws by (simp_all add: revert_to_checkpoint_def)
  have ok: "hm_ok c" and x: "\<And>a e. hm_get c a = Some (Some e) \<Longrightarrow> entry_ok B (st_db s) a e"
    using s c by (auto simp: state_ok_def)
  have V: "cache_view B (st_db s) (fold revert_entry c (st_cache s)) = before_checkpoint B (st_db s) c (top_view B s)"
  proof (rule ext)
    fix a
    show "cache_view B (st_db s) (fold revert_entry c (st_cache s)) a = before_checkpoint B (st_db s) c (top_view B s) a"
      using revert_entry_view [OF s, of "the (hm_get c a)" a] x
      by (cases "hm_get c a") (auto simp: cache_view_def before_checkpoint_def fold_revert_entry [OF ok] top_view_def split: option.splits)
  qed
  have "entry_ok B (st_db s) a e" if "hm_get (fold revert_entry c (st_cache s)) a = Some e" for a e
    using that revert_entry_view [OF s, of "the (hm_get c a)" a] x s
    by (cases "hm_get c a") (auto simp: fold_revert_entry [OF ok] state_ok_def)
  then show ?thesis
    using s c ws r' V by (auto simp: state_ok_def worlds_def top_view_def hm_ok_fold_revert)
qed

end
