(* ===== verification/State_Machine.thy ===== *)
theory State_Machine
  imports State_Contract
begin

text \<open>
  The world state as a machine: its operations, the abstract machine on the stack of worlds, and
  the simulation between them for arbitrary sequences of operations.
\<close>

section \<open>Operations and runs\<close>

datatype state_op =
    OpBalance address_with_space
  | OpNonce address_with_space
  | OpCodeHash address_with_space
  | OpCode address_with_space
  | OpCodeSize address_with_space
  | OpExists address_with_space
  | OpExistsNotNull address_with_space
  | OpStorageAt address_with_space bytes
  | OpSetStorage address_with_space bytes u256
  | OpIncNonce address_with_space u256
  | OpSetNonce address_with_space u256
  | OpInitCode address_with_space bytes
  | OpNewContract address_with_space u256 u256
  | OpRemoveContract address_with_space
  | OpSubBalance address_with_space u256 cleanup_mode
  | OpAddBalance address_with_space u256 cleanup_mode u256
  | OpCheckpoint
  | OpDiscard
  | OpRevert

datatype op_result = RUnit | RWord u256 | RBool bool | RHash "h256 option" | RCode "bytes option" | RSize "usize option"

definition emap :: "('a \<Rightarrow> 'b) \<Rightarrow> ('s, 'e, 'a) eff \<Rightarrow> ('s, 'e, 'b) eff" where
  "emap f m = ebind m (\<lambda>a. eret (f a))"

definition with_mode :: "cleanup_mode \<Rightarrow> ('s \<times> cleanup_mode, 'e, unit) eff \<Rightarrow> ('s, 'e, unit) eff" where
  "with_mode mode m = (\<lambda>s. case m (s, mode) of (r, (s', _)) \<Rightarrow> (r, s'))"

definition state_step :: "'d backend \<Rightarrow> state_op \<Rightarrow> ('d state, db_error, op_result) eff" where
  "state_step B op = (case op of
     OpBalance a \<Rightarrow> emap RWord (state_balance B a)
   | OpNonce a \<Rightarrow> emap RWord (state_nonce B a)
   | OpCodeHash a \<Rightarrow> emap RHash (state_code_hash B a)
   | OpCode a \<Rightarrow> emap RCode (state_code B a)
   | OpCodeSize a \<Rightarrow> emap RSize (state_code_size B a)
   | OpExists a \<Rightarrow> emap RBool (state_exists B a)
   | OpExistsNotNull a \<Rightarrow> emap RBool (exists_and_not_null B a)
   | OpStorageAt a k \<Rightarrow> emap RWord (storage_at B a k)
   | OpSetStorage a k v \<Rightarrow> emap (\<lambda>_. RUnit) (set_storage B a k v)
   | OpIncNonce a n \<Rightarrow> emap (\<lambda>_. RUnit) (inc_nonce B a n)
   | OpSetNonce a n \<Rightarrow> emap (\<lambda>_. RUnit) (set_nonce B a n)
   | OpInitCode a c \<Rightarrow> emap (\<lambda>_. RUnit) (init_code B a c)
   | OpNewContract a b n \<Rightarrow> emap (\<lambda>_. RUnit) (new_contract B a b n None)
   | OpRemoveContract a \<Rightarrow> emap (\<lambda>_. RUnit) (remove_contract B a)
   | OpSubBalance a v mode \<Rightarrow> emap (\<lambda>_. RUnit) (with_mode mode (sub_balance B a v))
   | OpAddBalance a v mode n \<Rightarrow> emap (\<lambda>_. RUnit) (with_mode mode (add_balance B a v n))
   | OpCheckpoint \<Rightarrow> (\<lambda>s. (Ok RUnit, snd (checkpoint s)))
   | OpDiscard \<Rightarrow> (\<lambda>s. (Ok RUnit, discard_checkpoint s))
   | OpRevert \<Rightarrow> emap (\<lambda>_. RUnit) revert_to_checkpoint)"

text \<open>A run stops at a panic; errors are reported and the run goes on.\<close>

fun run_with :: "('op \<Rightarrow> 's \<Rightarrow> ('e, 'r) res \<times> 's) \<Rightarrow> 'op list \<Rightarrow> 's \<Rightarrow> ('e, 'r) res list" where
  "run_with step [] s = []"
| "run_with step (op # ops) s = (case step op s of
     (Panic, _) \<Rightarrow> [Panic]
   | (r, s') \<Rightarrow> r # run_with step ops s')"

section \<open>The abstract machine\<close>

definition on_account ::
  "(account_view option \<Rightarrow> 'r db_result \<times> account_view option) \<Rightarrow> address_with_space \<Rightarrow> world list \<Rightarrow> 'r db_result \<times> world list" where
  "on_account f a ws = (case fst (hd ws) a of
     Ok acc \<Rightarrow> (case f acc of (r, acc') \<Rightarrow> (r, world_update a acc' ws))
   | Err e \<Rightarrow> (Err e, ws)
   | Panic \<Rightarrow> (Panic, ws))"

definition asks :: "(account_view option \<Rightarrow> 'r db_result) \<Rightarrow> account_view option \<Rightarrow> 'r db_result \<times> account_view option" where
  "asks f acc = (f acc, acc)"

definition existing :: "'d backend \<Rightarrow> 'd \<Rightarrow> address_with_space \<Rightarrow> u256 \<Rightarrow> account_view option \<Rightarrow> account_view" where
  "existing B db a n acc = or_default (basic_view B db a n) (\<lambda>av. av) acc"

definition tracks :: "cleanup_mode \<Rightarrow> bool" where
  "tracks mode = (case mode of TrackTouched _ \<Rightarrow> True | _ \<Rightarrow> False)"

definition abs_step :: "'d backend \<Rightarrow> 'd \<Rightarrow> state_op \<Rightarrow> world list \<Rightarrow> op_result db_result \<times> world list" where
  "abs_step B db op ws = (case op of
     OpBalance a \<Rightarrow> on_account (asks (\<lambda>acc. Ok (RWord (or_default 0 av_balance acc)))) a ws
   | OpNonce a \<Rightarrow> on_account (asks (\<lambda>acc. Ok (RWord (or_default 0 av_nonce acc)))) a ws
   | OpCodeHash a \<Rightarrow> on_account (asks (\<lambda>acc. Ok (RHash (map_option av_code_hash acc)))) a ws
   | OpCode a \<Rightarrow> on_account (asks (or_default (Ok (RCode None)) (\<lambda>av. rmap RCode (av_code av)))) a ws
   | OpCodeSize a \<Rightarrow> on_account (asks (or_default (Ok (RSize None))
       (\<lambda>av. rmap (\<lambda>c. RSize (map_option (\<lambda>c. of_nat (length c)) c)) (av_code av)))) a ws
   | OpExists a \<Rightarrow> on_account (asks (\<lambda>acc. Ok (RBool (acc \<noteq> None)))) a ws
   | OpExistsNotNull a \<Rightarrow> on_account (asks (\<lambda>acc. Ok (RBool (or_default False (\<lambda>av. \<not> av_null B av) acc)))) a ws
   | OpStorageAt a k \<Rightarrow> on_account (asks (or_default (Ok (RWord 0)) (\<lambda>av. rmap RWord (av_storage av k)))) a ws
   | OpSetStorage a k v \<Rightarrow> on_account (\<lambda>acc. case acc of
       None \<Rightarrow> (if v = 0 then Ok RUnit else Err (IncompleteDatabase (aws_address a)), None)
     | Some av \<Rightarrow> (case av_storage av k of
         Ok _ \<Rightarrow> (Ok RUnit, Some (av\<lparr>av_storage := (av_storage av)(k := Ok v)\<rparr>))
       | Err e \<Rightarrow> (Err e, acc)
       | Panic \<Rightarrow> (Panic, acc))) a ws
   | OpIncNonce a n \<Rightarrow> on_account (\<lambda>acc. let av = existing B db a n acc in
       if av_nonce av = - 1 then (Panic, acc) else (Ok RUnit, Some (av\<lparr>av_nonce := av_nonce av + 1\<rparr>))) a ws
   | OpSetNonce a n \<Rightarrow> on_account (\<lambda>acc. (Ok RUnit, Some ((existing B db a n acc)\<lparr>av_nonce := n\<rparr>))) a ws
   | OpInitCode a c \<Rightarrow> on_account (\<lambda>acc. case acc of
       None \<Rightarrow> (Err (IncompleteDatabase (aws_address a)), None)
     | Some av \<Rightarrow> (Ok RUnit, Some (av\<lparr>av_code_hash := bk_keccak B c, av_code := Ok (Some c)\<rparr>))) a ws
   | OpNewContract a b n \<Rightarrow> on_account (\<lambda>acc. (Ok RUnit, Some (account_view B db
       (new_contract_account B a b n (or_default False av_invalidated acc) None)))) a ws
   | OpRemoveContract a \<Rightarrow> (Ok RUnit, world_update a (Some (account_view B db (new_removed B a))) ws)
   | OpSubBalance a v mode \<Rightarrow> if v = 0 \<and> \<not> tracks mode then (Ok RUnit, ws) else on_account (\<lambda>acc. case acc of
       None \<Rightarrow> (if v = 0 then Ok RUnit else Err (IncompleteDatabase (aws_address a)), None)
     | Some av \<Rightarrow> if v \<le> av_balance av then (Ok RUnit, Some (av\<lparr>av_balance := av_balance av - v\<rparr>)) else (Panic, acc)) a ws
   | OpAddBalance a v mode n \<Rightarrow> on_account (\<lambda>acc.
       if acc = None \<and> v = 0 \<and> mode \<noteq> ForceCreate then (Ok RUnit, None)
       else let av = existing B db a n acc in
         if unat (av_balance av) + unat v < 2 ^ 256 then (Ok RUnit, Some (av\<lparr>av_balance := av_balance av + v\<rparr>))
         else (Panic, acc)) a ws
   | OpCheckpoint \<Rightarrow> (Ok RUnit, hd ws # ws)
   | OpDiscard \<Rightarrow> (Ok RUnit, hd ws # drop 2 ws)
   | OpRevert \<Rightarrow> (Ok RUnit, if tl ws = [] then ws else tl ws))"

section \<open>Simulation\<close>

definition simulates :: "'d backend \<Rightarrow> 'd state \<Rightarrow> 'r db_result \<Rightarrow> 'd state \<Rightarrow> 'r db_result \<times> world list \<Rightarrow> bool" where
  "simulates B s r s' out \<longleftrightarrow> fst out = r \<and>
     (r \<noteq> Panic \<longrightarrow> state_ok B s' \<and> snd out = worlds B s' \<and> st_db s' = st_db s)"

lemma top_of_worlds [simp]: "fst (hd (worlds B s)) = top_view B s"
  by (rule hd_worlds)

lemma world_update_idem: "top_view B s a = Ok acc \<Longrightarrow> world_update a acc (worlds B s) = worlds B s"
  by (simp add: world_update_def worlds_eq [of B s] fun_upd_idem)

lemma simulates_same:
  "same B s s' \<Longrightarrow> out = (r, worlds B s) \<Longrightarrow> simulates B s r s' out"
  by (simp add: simulates_def same_def)

lemma simulates_asks:
  assumes "state_ok B s" "same B s s'" "r = rbind (top_view B s a) f"
  shows "simulates B s r s' (on_account (asks f) a (worlds B s))"
  using assms top_view_no_panic [OF assms(1), of a]
  by (cases "top_view B s a") (auto simp: on_account_def asks_def simulates_def same_def world_update_idem)

lemma simulates_on_account:
  assumes s: "state_ok B s"
    and err: "\<And>e. top_view B s a = Err e \<Longrightarrow> r = Err e \<and> same B s s'"
    and ok: "\<And>acc. top_view B s a = Ok acc \<Longrightarrow> r = fst (f acc) \<and> (r \<noteq> Panic \<longrightarrow> updates B s a (snd (f acc)) s')"
  shows "simulates B s r s' (on_account f a (worlds B s))"
proof (cases "top_view B s a")
  case (Ok acc)
  with ok [OF Ok] show ?thesis
    by (auto simp: on_account_def simulates_def updates_def split: prod.splits)
qed (use err top_view_no_panic [OF s] in \<open>auto simp: on_account_def simulates_def same_def\<close>)

lemma simulates_updates:
  "updates B s a acc s' \<Longrightarrow> out = (Ok r, world_update a acc (worlds B s)) \<Longrightarrow> simulates B s (Ok r) s' out"
  by (auto simp: simulates_def updates_def)

lemma emap_apply: "emap f m s = (r, s') \<longleftrightarrow> (\<exists>q. m s = (q, s') \<and> r = rmap f q)"
  by (cases "m s"; cases "fst (m s)") (auto simp: emap_def eff_simps)

lemma rmap_rmap [simp]: "rmap f (rmap g r) = rmap (\<lambda>x. f (g x)) r"
  by (cases r) simp_all

lemma rmap_rbind: "rmap f (rbind r g) = rbind r (\<lambda>x. rmap f (g x))"
  by (cases r) simp_all

lemma rmap_as_rbind: "rmap f r = rbind r (\<lambda>x. Ok (f x))"
  by (simp add: rmap_def)

lemma or_default_comp: "(\<lambda>x. rmap f (or_default d g x)) = or_default (rmap f d) (\<lambda>y. rmap f (g y))"
  by (auto simp: fun_eq_iff or_default_def split: option.splits)

lemma read_simulation:
  assumes s: "state_ok B s" and step: "state_step B op s = (r, s')"
    and op: "op \<in> {OpBalance a, OpNonce a, OpCodeHash a, OpCode a, OpCodeSize a, OpExists a, OpExistsNotNull a, OpStorageAt a k}"
  shows "simulates B s r s' (abs_step B (st_db s) op (worlds B s))"
  using op step
  by (auto simp: state_step_def abs_step_def emap_apply rmap_rbind or_default_comp intro!: simulates_asks [OF s]
      dest!: state_balance_spec [OF s] state_nonce_spec [OF s] state_code_hash_spec [OF s] state_code_spec [OF s]
        state_code_size_spec [OF s] state_exists_spec [OF s] exists_and_not_null_spec [OF s] storage_at_spec [OF s])
    (simp_all add: rmap_as_rbind)

lemma set_storage_simulation:
  assumes s: "state_ok B s" and step: "state_step B (OpSetStorage a k v) s = (r, s')"
  shows "simulates B s r s' (abs_step B (st_db s) (OpSetStorage a k v) (worlds B s))"
proof -
  obtain q where q: "set_storage B a k v s = (q, s')" "r = rmap (\<lambda>_. RUnit) q"
    using step by (auto simp: state_step_def emap_apply)
  note spec = set_storage_spec [OF s q(1)]
  show ?thesis
    unfolding abs_step_def state_op.case
  proof (rule simulates_on_account [OF s])
    fix acc
    assume V: "top_view B s a = Ok acc"
    show "r = fst (case acc of
       None \<Rightarrow> (if v = 0 then Ok RUnit else Err (IncompleteDatabase (aws_address a)), None)
     | Some av \<Rightarrow> (case av_storage av k of
         Ok _ \<Rightarrow> (Ok RUnit, Some (av\<lparr>av_storage := (av_storage av)(k := Ok v)\<rparr>))
       | Err e \<Rightarrow> (Err e, acc)
       | Panic \<Rightarrow> (Panic, acc))) \<and> (r \<noteq> Panic \<longrightarrow> updates B s a (snd (case acc of
       None \<Rightarrow> (if v = 0 then Ok RUnit else Err (IncompleteDatabase (aws_address a)), None)
     | Some av \<Rightarrow> (case av_storage av k of
         Ok _ \<Rightarrow> (Ok RUnit, Some (av\<lparr>av_storage := (av_storage av)(k := Ok v)\<rparr>))
       | Err e \<Rightarrow> (Err e, acc)
       | Panic \<Rightarrow> (Panic, acc)))) s')"
      using spec V q(2) same_is_update [OF s _ V]
      by (cases acc) (auto split: res.splits)
  qed (use spec q(2) in auto)
qed

lemma inc_nonce_simulation:
  assumes s: "state_ok B s" and step: "state_step B (OpIncNonce a n) s = (r, s')"
  shows "simulates B s r s' (abs_step B (st_db s) (OpIncNonce a n) (worlds B s))"
proof -
  obtain q where q: "inc_nonce B a n s = (q, s')" "r = rmap (\<lambda>_. RUnit) q"
    using step by (auto simp: state_step_def emap_apply)
  then show ?thesis
    unfolding abs_step_def state_op.case
    using inc_nonce_spec [OF s q(1)] change_error [OF s q(1) [unfolded inc_nonce_def require_or_new_basic_account_def]]
    by (intro simulates_on_account [OF s]) (auto simp: existing_def Let_def split: if_splits)
qed

lemma set_nonce_simulation:
  assumes s: "state_ok B s" and step: "state_step B (OpSetNonce a n) s = (r, s')"
  shows "simulates B s r s' (abs_step B (st_db s) (OpSetNonce a n) (worlds B s))"
proof -
  obtain q where q: "set_nonce B a n s = (q, s')" "r = rmap (\<lambda>_. RUnit) q"
    using step by (auto simp: state_step_def emap_apply)
  then show ?thesis
    unfolding abs_step_def state_op.case
    using set_nonce_spec [OF s q(1)] change_error [OF s q(1) [unfolded set_nonce_def require_or_new_basic_account_def]]
    by (intro simulates_on_account [OF s]) (auto simp: existing_def)
qed

lemma init_code_simulation:
  assumes s: "state_ok B s" and step: "state_step B (OpInitCode a c) s = (r, s')" and c: "length c < 2 ^ 63"
  shows "simulates B s r s' (abs_step B (st_db s) (OpInitCode a c) (worlds B s))"
proof -
  obtain q where q: "init_code B a c s = (q, s')" "r = rmap (\<lambda>_. RUnit) q"
    using step by (auto simp: state_step_def emap_apply)
  then show ?thesis
    unfolding abs_step_def state_op.case
    using init_code_spec [OF s q(1) _ c] change_error [OF s q(1) [unfolded init_code_def require_exists_def]]
      change_missing [OF s q(1) [unfolded init_code_def]] same_is_update [OF s, of s' a None]
    by (intro simulates_on_account [OF s]) (auto split: option.splits)
qed

lemma new_contract_simulation:
  assumes s: "state_ok B s" and step: "state_step B (OpNewContract a b n) s = (r, s')"
  shows "simulates B s r s' (abs_step B (st_db s) (OpNewContract a b n) (worlds B s))"
proof -
  obtain q where q: "new_contract B a b n None s = (q, s')" "r = rmap (\<lambda>_. RUnit) q"
    using step by (auto simp: state_step_def emap_apply)
  then show ?thesis
    unfolding abs_step_def state_op.case
    using new_contract_spec [OF s q(1)]
    by (intro simulates_on_account [OF s]) auto
qed

lemma sub_balance_simulation:
  assumes s: "state_ok B s" and step: "state_step B (OpSubBalance a v mode) s = (r, s')"
  shows "simulates B s r s' (abs_step B (st_db s) (OpSubBalance a v mode) (worlds B s))"
proof -
  obtain q mode' where q: "sub_balance B a v (s, mode) = (q, (s', mode'))" "r = rmap (\<lambda>_. RUnit) q"
    using step by (auto simp: state_step_def emap_apply with_mode_def split: prod.splits)
  obtain x t where x: "state_exists B a s = (x, t)" by fastforce
  obtain y u where y: "require_exists B a False (oa_sub_balance v) s = (y, u)" by fastforce
  have ex: "same B s t" "x = rmap (\<lambda>acc. acc \<noteq> None) (top_view B s a)" using state_exists_spec [OF s x] by auto
  have err: "q = Err e \<and> same B s s'" if "top_view B s a = Err e" "v \<noteq> 0 \<or> tracks mode" for e
    using q x y ex that change_error [OF s y [unfolded require_exists_def] that(1)]
    by (cases "v = 0"; cases mode) (auto simp: sub_balance_def eff_simps tracks_def)
  have none: "q = (if v = 0 then Ok () else Err (IncompleteDatabase (aws_address a))) \<and> same B s s'"
    if "top_view B s a = Ok None" "v \<noteq> 0 \<or> tracks mode"
    using q x y ex that change_missing [OF s y that(1)]
    by (cases "v = 0"; cases mode) (auto simp: sub_balance_def eff_simps tracks_def touch_def)
  have low: "q = Panic" if V: "top_view B s a = Ok (Some av)" and "\<not> v \<le> av_balance av" for av
  proof -
    obtain oa where "account_view B (st_db s) oa = av" "changed_by B s a (oa_sub_balance v) oa y u"
      using change_existing [OF s y V] by metis
    then have "y = Panic" using that by (auto simp: changed_by_def oa_sub_balance_def eff_simps)
    moreover have "v \<noteq> 0" using that by auto
    ultimately show ?thesis using q y by (simp add: sub_balance_def eff_simps)
  qed
  show ?thesis
  proof (cases "v = 0 \<and> \<not> tracks mode")
    case True
    then have "q = Ok () \<and> s' = s" using q by (cases mode) (auto simp: sub_balance_def eff_simps tracks_def)
    then show ?thesis using True q(2) same_refl [OF s] by (auto simp: abs_step_def intro!: simulates_same)
  next
    case False
    then show ?thesis
      unfolding abs_step_def state_op.case if_not_P [OF False]
      using err none low sub_balance_state [OF s q(1)] q(2) same_is_update [OF s, of s' a None]
      by (intro simulates_on_account [OF s]) (auto split: option.splits)
  qed
qed

lemma add_balance_simulation:
  assumes s: "state_ok B s" and step: "state_step B (OpAddBalance a v mode n) s = (r, s')"
  shows "simulates B s r s' (abs_step B (st_db s) (OpAddBalance a v mode n) (worlds B s))"
proof -
  obtain q mode' where q: "add_balance B a v n (s, mode) = (q, (s', mode'))" "r = rmap (\<lambda>_. RUnit) q"
    using step by (auto simp: state_step_def emap_apply with_mode_def split: prod.splits)
  obtain x t where x: "state_exists B a s = (x, t)" by fastforce
  have ex: "same B s t" "x = rmap (\<lambda>acc. acc \<noteq> None) (top_view B s a)" using state_exists_spec [OF s x] by auto
  obtain y u where y: "require_or_new_basic_account B a n (oa_add_balance v) t = (y, u)" by fastforce
  have err: "q = Err e \<and> same B s s'" if "top_view B s a = Err e" for e
    using q x ex that by (auto simp: add_balance_def eff_simps)
  have over: "q = Panic" if V: "top_view B s a = Ok acc" and "\<not> unat (av_balance (existing B (st_db s) a n acc)) + unat v < 2 ^ 256"
    and m: "\<not> (acc = None \<and> v = 0 \<and> mode \<noteq> ForceCreate)" for acc
  proof -
    have db: "st_db t = st_db s" "top_view B t a = Ok acc" using ex V same_view [OF ex(1)] by (simp_all add: same_def)
    obtain oa where "account_view B (st_db t) oa = existing B (st_db s) a n acc" "changed_by B t a (oa_add_balance v) oa y u"
      using change_basic [OF same_ok [OF ex(1)] y db(2)] db(1) by (metis existing_def)
    then have "y = Panic" using that(2) view_select(1) [of B "st_db t" oa]
      by (auto simp: changed_by_def oa_add_balance_def eff_simps u_add_def split: if_splits)
    moreover have "v \<noteq> 0"
    proof
      assume "v = 0"
      with that(2) unat_lt_pow [of "av_balance (existing B (st_db s) a n acc)"] show False by simp
    qed
    ultimately show ?thesis using q x ex V y by (simp add: add_balance_def eff_simps)
  qed
  have none: "q = Ok () \<and> same B s s'" if "top_view B s a = Ok None" "v = 0" "mode \<noteq> ForceCreate"
    using add_balance_state [OF s q(1) that(1) refl] that by (simp add: basic_view_def new_basic_def)
  have fits: "q = Ok () \<and> (if acc = None \<and> v = 0 \<and> mode \<noteq> ForceCreate then same B s s'
      else updates B s a (Some ((existing B (st_db s) a n acc)\<lparr>av_balance := av_balance (existing B (st_db s) a n acc) + v\<rparr>)) s')"
    if "top_view B s a = Ok acc" "unat (av_balance (existing B (st_db s) a n acc)) + unat v < 2 ^ 256" for acc
    by (rule add_balance_state [OF s q(1) that(1) existing_def that(2)])
  show ?thesis
    unfolding abs_step_def state_op.case
    using err over none fits q(2) same_is_update [OF s, of s' a None]
    by (intro simulates_on_account [OF s]) (auto simp: Let_def)
qed

section \<open>Sequences of operations\<close>

definition op_ok :: "state_op \<Rightarrow> bool" where
  "op_ok op = (case op of OpInitCode a c \<Rightarrow> length c < 2 ^ 63 | _ \<Rightarrow> True)"

lemma length_worlds: "state_ok B s \<Longrightarrow> length (worlds B s) = Suc (length (st_checkpoints s))"
proof -
  have "length (views_from B db V cs) = Suc (length cs)" for db V cs by (induction cs arbitrary: V) simp_all
  then show "state_ok B s \<Longrightarrow> ?thesis" by (simp add: worlds_def state_ok_def)
qed

lemma checkpoint_simulation:
  assumes s: "state_ok B s" and step: "state_step B op s = (r, s')" and op: "op \<in> {OpCheckpoint, OpDiscard, OpRevert}"
  shows "simulates B s r s' (abs_step B (st_db s) op (worlds B s))"
proof (cases "st_checkpoints s")
  case Nil
  with length_worlds [OF s] obtain w where w: "worlds B s = [w]" by (auto simp: length_Suc_conv)
  with Nil op step s checkpoint_spec [OF s surjective_pairing] show ?thesis
    by (auto simp: state_step_def abs_step_def simulates_def discard_checkpoint_def revert_to_checkpoint_def emap_apply)
next
  case (Cons c cs)
  with length_worlds [OF s] have "tl (worlds B s) \<noteq> []" by (cases "worlds B s") auto
  with Cons op step s checkpoint_spec [OF s surjective_pairing] discard_checkpoint_spec [OF s Cons]
  show ?thesis
    by (auto simp: state_step_def abs_step_def simulates_def emap_apply dest!: revert_to_checkpoint_spec [OF s Cons])
qed

lemma step_simulation:
  assumes s: "state_ok B s" and op: "op_ok op" and step: "state_step B op s = (r, s')"
  shows "simulates B s r s' (abs_step B (st_db s) op (worlds B s))"
proof (cases op)
  case (OpInitCode a c)
  then show ?thesis using init_code_simulation [OF s] step op by (simp add: op_ok_def)
next
  case (OpRemoveContract a)
  then show ?thesis
    using step remove_contract_spec [OF s, of a] by (auto simp: state_step_def abs_step_def emap_apply intro!: simulates_updates)
qed (use s step read_simulation [OF s] set_storage_simulation [OF s] inc_nonce_simulation [OF s] set_nonce_simulation [OF s]
    new_contract_simulation [OF s] sub_balance_simulation [OF s] add_balance_simulation [OF s] checkpoint_simulation [OF s] in auto)

lemma run_simulation:
  "state_ok B s \<Longrightarrow> list_all op_ok ops \<Longrightarrow>
   run_with (state_step B) ops s = run_with (abs_step B (st_db s)) ops (worlds B s)"
proof (induction ops arbitrary: s)
  case (Cons op ops)
  obtain r s' where step: "state_step B op s = (r, s')" by fastforce
  have sim: "simulates B s r s' (abs_step B (st_db s) op (worlds B s))"
    using step_simulation [OF Cons.prems(1) _ step] Cons.prems(2) by simp
  obtain ws where abs: "abs_step B (st_db s) op (worlds B s) = (r, ws)"
    using sim by (cases "abs_step B (st_db s) op (worlds B s)") (simp add: simulates_def)
  show ?case
  proof (cases "r = Panic")
    case False
    then have "state_ok B s'" "ws = worlds B s'" "st_db s' = st_db s" using sim abs by (simp_all add: simulates_def)
    with Cons.IH [of s'] Cons.prems(2) step abs show ?thesis by (cases r) simp_all
  qed (simp add: step abs)
qed simp

section \<open>Operations between checkpoints\<close>

text \<open>Operations other than the checkpoints change the top world at most.\<close>

definition plain :: "state_op \<Rightarrow> bool" where
  "plain op \<longleftrightarrow> op \<notin> {OpCheckpoint, OpDiscard, OpRevert}"

lemma tl_world_update [simp]: "tl (world_update a av ws) = tl ws"
  by (auto simp: world_update_def split: list.splits)

lemma tl_on_account [simp]: "tl (snd (on_account f a ws)) = tl ws"
  by (auto simp: on_account_def split: res.splits prod.splits)

lemma plain_keeps_lower_worlds: "plain op \<Longrightarrow> tl (snd (abs_step B db op ws)) = tl ws"
  by (cases op) (simp_all add: plain_def abs_step_def)

definition top_only :: "'d backend \<Rightarrow> 'd state \<Rightarrow> 'd state \<Rightarrow> bool" where
  "top_only B s s' \<longleftrightarrow> state_ok B s' \<and> tl (worlds B s') = tl (worlds B s) \<and> st_db s' = st_db s"

lemma top_only_refl: "state_ok B s \<Longrightarrow> top_only B s s"
  by (simp add: top_only_def)

lemma top_only_trans: "top_only B s t \<Longrightarrow> top_only B t u \<Longrightarrow> top_only B s u"
  by (simp add: top_only_def)

lemma top_only_same: "same B s t \<Longrightarrow> top_only B s t"
  by (simp add: top_only_def same_def)

lemma top_only_updates: "updates B s a av t \<Longrightarrow> top_only B s t"
  by (simp add: top_only_def updates_def)

lemma top_only_step:
  assumes "state_ok B s" "op_ok op" "plain op" "state_step B op s = (r, s')" "r \<noteq> Panic"
  shows "top_only B s s'"
proof -
  have "simulates B s r s' (abs_step B (st_db s) op (worlds B s))" by (rule step_simulation [OF assms(1,2,4)])
  then show ?thesis
    using assms(5) plain_keeps_lower_worlds [OF assms(3), of B "st_db s" "worlds B s"] by (auto simp: simulates_def top_only_def)
qed

end
