(* ===== verification/Rlp_Reference.thy ===== *)
theory Rlp_Reference
  imports Rlp
begin

text \<open>
  A concrete codec in place of the RLP crate: an item is a tag, its length in unary and its payload.
  It shows that the laws of the crate can hold and lets the witnesses compute.
\<close>

definition ref_item :: "byte \<Rightarrow> bytes \<Rightarrow> bytes" where
  "ref_item tag payload = tag # replicate (length payload) 1 @ [0] @ payload"

text \<open>The tag and payload of the first item, and what follows it.\<close>

fun ref_split :: "bytes \<Rightarrow> (byte \<times> bytes \<times> bytes) option" where
  "ref_split [] = None"
| "ref_split (tag # bs) =
     (let n = length (takeWhile (\<lambda>b. b = 1) bs) in
      if length bs < 2 * n + 1 then None else Some (tag, take n (drop (n + 1) bs), drop (2 * n + 1) bs))"

definition ref_payload :: "byte \<Rightarrow> bytes \<Rightarrow> (string, bytes) res" where
  "ref_payload tag r = (case ref_split r of
     Some (t, payload, []) \<Rightarrow> if t = tag then Ok payload else Err ''RlpExpectedToBeList''
   | _ \<Rightarrow> Err ''RlpIsTooShort'')"

fun ref_items :: "nat \<Rightarrow> bytes \<Rightarrow> bytes list" where
  "ref_items 0 bs = []"
| "ref_items (Suc n) bs = (case ref_split bs of None \<Rightarrow> [] | Some (tag, payload, rest) \<Rightarrow> ref_item tag payload # ref_items n rest)"

definition ref_iter :: "bytes \<Rightarrow> bytes list" where
  "ref_iter r = (case ref_payload 1 r of Ok payload \<Rightarrow> ref_items (length payload) payload | _ \<Rightarrow> [])"

definition ref_word :: "bytes \<Rightarrow> (string, 'a::len word) res" where
  "ref_word r = rbind (ref_payload 0 r) (\<lambda>payload. Ok (from_be payload))"

definition ref_list :: "bytes list \<Rightarrow> bytes" where
  "ref_list xs = ref_item 1 (concat xs)"

definition ref_at :: "bytes \<Rightarrow> nat \<Rightarrow> (string, bytes) res" where
  "ref_at r i = (let xs = ref_iter r in if i < length xs then Ok (xs ! i) else Err ''RlpIsTooShort'')"

definition ref_crate :: rlp_crate where
  "ref_crate = \<lparr>enc_u8 = (\<lambda>x. ref_item 0 (to_be 1 x)), dec_u8 = ref_word,
     enc_bool = (\<lambda>b. ref_item 0 [if b then 1 else 0]), dec_bool = (\<lambda>r. rbind (ref_payload 0 r) (\<lambda>p. Ok (p = [1]))),
     enc_u32 = (\<lambda>x. ref_item 0 (to_be 4 x)), dec_u32 = ref_word, enc_u64 = (\<lambda>x. ref_item 0 (to_be 8 x)), dec_u64 = ref_word,
     enc_u256 = (\<lambda>x. ref_item 0 (to_be 32 x)), dec_u256 = ref_word, enc_address = (\<lambda>x. ref_item 0 (to_be 20 x)), dec_address = ref_word,
     enc_h256 = (\<lambda>x. ref_item 0 (to_be 32 x)), dec_h256 = ref_word, enc_h512 = (\<lambda>x. ref_item 0 (to_be 64 x)), dec_h512 = ref_word,
     enc_bytes = ref_item 0,
     dec_bytes = (\<lambda>r. rbind (ref_payload 0 r) (\<lambda>p. if length p < 2 ^ 63 then Ok p else Err ''RlpInvalidLength'')),
     enc_option = (\<lambda>x. ref_list (case x of None \<Rightarrow> [] | Some y \<Rightarrow> [y])),
     dec_option = (\<lambda>r. rbind (ref_payload 1 r) (\<lambda>_. case ref_iter r of [] \<Rightarrow> Ok None | [y] \<Rightarrow> Ok (Some y) | _ \<Rightarrow> Err ''RlpIncorrectListLen'')),
     enc_list = ref_list, item_count = (\<lambda>r. rbind (ref_payload 1 r) (\<lambda>_. Ok (length (ref_iter r)))), rlp_at = ref_at, rlp_iter = ref_iter,
     rlp_is_empty = (\<lambda>r. r = ref_item 0 []), payload_total = (\<lambda>r. Ok (length r))\<rparr>"

definition ref_single :: "bytes \<Rightarrow> bool" where
  "ref_single r \<longleftrightarrow> (\<exists>tag payload. r = ref_item tag payload)"

section \<open>Its laws\<close>

lemma ref_split_item: "ref_split (ref_item tag payload @ rest) = Some (tag, payload, rest)"
proof -
  have "takeWhile (\<lambda>b. b = 1) (replicate (length payload) (1 :: byte) @ 0 # payload @ rest) = replicate (length payload) 1"
    by (subst takeWhile_append2) auto
  then show ?thesis by (simp add: ref_item_def Let_def)
qed

lemma ref_payload_item: "ref_payload t (ref_item tag payload) = (if tag = t then Ok payload else Err ''RlpExpectedToBeList'')"
  using ref_split_item [of tag payload "[]"] by (simp add: ref_payload_def)

lemma ref_items_concat: "list_all ref_single xs \<Longrightarrow> length xs \<le> n \<Longrightarrow> ref_items n (concat xs) = xs"
proof (induction xs arbitrary: n)
  case Nil
  then show ?case by (cases n) auto
next
  case (Cons x xs)
  then obtain tag payload m where "x = ref_item tag payload" "n = Suc m" by (cases n) (auto simp: ref_single_def)
  with Cons show ?case by (simp add: ref_split_item)
qed

lemma ref_concat_length: "list_all ref_single xs \<Longrightarrow> length xs \<le> length (concat xs)"
  by (induction xs) (auto simp: ref_single_def ref_item_def)

lemma ref_iter_list: "list_all ref_single xs \<Longrightarrow> ref_iter (ref_list xs) = xs"
  by (simp add: ref_iter_def ref_list_def ref_payload_item ref_items_concat ref_concat_length)

lemma ref_single_item: "ref_single (ref_item t p)" "ref_single (ref_list xs)"
  by (auto simp: ref_single_def ref_list_def)

lemma ref_word_item: "LENGTH('a) \<le> 8 * n \<Longrightarrow> ref_word (ref_item 0 (to_be n (x :: 'a::len word))) = Ok x"
  by (simp add: ref_word_def ref_payload_item from_be_to_be take_bit_word_eq_self)

lemma ref_payload_list: "ref_payload 1 (ref_list xs) = Ok (concat xs)"
  by (simp add: ref_list_def ref_payload_item)

lemma ref_address_not_empty: "ref_item 0 (to_be 20 (x :: address)) \<noteq> ref_item 0 []"
  by (metis append_Nil2 length_0_conv length_to_be option.inject prod.inject ref_split_item zero_neq_numeral)

lemma ref_crate_ok: "rlp_ok ref_crate ref_single"
  unfolding rlp_ok_def
  by (intro conjI allI impI)
    (auto simp: ref_crate_def ref_payload_item ref_iter_list ref_at_def Let_def ref_word_item ref_single_item ref_payload_list
      ref_address_not_empty split: option.splits)

lemma ref_crate_calm: "rlp_calm ref_crate"
  by (auto simp: rlp_calm_def ref_crate_def rbind_Panic_iff ref_payload_def ref_at_def ref_word_def Let_def split: option.splits list.splits)

end
