(* ===== verification/State_Reference.thy ===== *)
theory State_Reference
  imports State_Machine Rlp_Reference
begin

text \<open>
  A concrete backend: the in-memory storage with the reference codec in place of the RLP
  crate and a simple injective-enough digest in place of Keccak-256.  It shows that the
  hypotheses on the backend can hold and lets the witnesses compute.
\<close>

definition ref_enc_account :: "u256 \<times> u256 \<times> h256 \<Rightarrow> bytes" where
  "ref_enc_account x = (case x of (b, n, h) \<Rightarrow> ref_list [ref_item 0 (to_be 32 b), ref_item 0 (to_be 32 n), ref_item 0 (to_be 32 h)])"

definition ref_dec_account :: "bytes \<Rightarrow> (string, u256 \<times> u256 \<times> h256) res" where
  "ref_dec_account raw = rbind (val_at ref_crate ref_word raw 0) (\<lambda>b. rbind (val_at ref_crate ref_word raw 1) (\<lambda>n.
     rbind (val_at ref_crate ref_word raw 2) (\<lambda>h. Ok (b, n, h))))"

definition ref_dec_value :: "bytes \<Rightarrow> (string, u256) res" where
  "ref_dec_value raw = val_at ref_crate ref_word raw 0"

definition ref_rlp :: rlp_ops where
  "ref_rlp = rlp_crate.extend ref_crate \<lparr>enc_evm_account = ref_enc_account, dec_evm_account = ref_dec_account,
     enc_value = (\<lambda>v. ref_list [ref_item 0 (to_be 32 v)]), dec_value = ref_dec_value\<rparr>"

definition ref_keccak :: "bytes \<Rightarrow> h256" where
  "ref_keccak bs = from_be (bs @ [1])"

definition ref_backend :: "in_memory_db backend" where
  "ref_backend = \<lparr>bk_storage = in_memory_ops, bk_rlp = ref_rlp, bk_keccak = ref_keccak, bk_keccak_empty = 1\<rparr>"

definition ref_state :: "in_memory_db \<Rightarrow> in_memory_db state" where
  "ref_state db = \<lparr>st_db = db, st_notify = [], st_cache = [], st_statistics = \<lparr>total_issued = 0\<rparr>,
     st_statistics_checkpoints = [], st_checkpoints = []\<rparr>"

lemma ref_fields:
  "enc_u8 ref_rlp = enc_u8 ref_crate" "dec_u8 ref_rlp = dec_u8 ref_crate" "enc_bool ref_rlp = enc_bool ref_crate" "dec_bool ref_rlp = dec_bool ref_crate"
  "enc_u32 ref_rlp = enc_u32 ref_crate" "dec_u32 ref_rlp = dec_u32 ref_crate" "enc_u64 ref_rlp = enc_u64 ref_crate" "dec_u64 ref_rlp = dec_u64 ref_crate"
  "enc_u256 ref_rlp = enc_u256 ref_crate" "dec_u256 ref_rlp = dec_u256 ref_crate" "enc_address ref_rlp = enc_address ref_crate" "dec_address ref_rlp = dec_address ref_crate"
  "enc_h256 ref_rlp = enc_h256 ref_crate" "dec_h256 ref_rlp = dec_h256 ref_crate" "enc_h512 ref_rlp = enc_h512 ref_crate" "dec_h512 ref_rlp = dec_h512 ref_crate"
  "enc_bytes ref_rlp = enc_bytes ref_crate" "dec_bytes ref_rlp = dec_bytes ref_crate" "enc_option ref_rlp = enc_option ref_crate" "dec_option ref_rlp = dec_option ref_crate"
  "enc_list ref_rlp = enc_list ref_crate" "item_count ref_rlp = item_count ref_crate" "rlp_at ref_rlp = rlp_at ref_crate" "rlp_iter ref_rlp = rlp_iter ref_crate"
  "rlp_is_empty ref_rlp = rlp_is_empty ref_crate" "payload_total ref_rlp = payload_total ref_crate"
  by (simp_all add: ref_rlp_def rlp_crate.defs)

lemma ref_rlp_ok: "rlp_ok ref_rlp ref_single"
  using ref_crate_ok unfolding rlp_ok_def ref_fields .

lemma ref_views: "rlp_at ref_crate = ref_at" "dec_bytes ref_crate raw = rbind (ref_payload 0 raw) (\<lambda>p. if length p < 2 ^ 63 then Ok p else Err ''RlpInvalidLength'')"
  by (simp_all add: ref_crate_def)

lemma ref_rlp_calm: "rlp_calm ref_rlp"
  using ref_crate_calm unfolding rlp_calm_def ref_fields .

lemma ref_val_at_no_panic: "val_at ref_crate ref_word raw i \<noteq> Panic"
  by (auto simp: val_at_def rbind_Panic_iff ref_views ref_at_def ref_word_def ref_payload_def Let_def split: option.splits list.splits)

lemma ref_backend_ok: "backend_ok ref_backend"
proof -
  have "dec_evm_account ref_rlp raw \<noteq> Panic" "dec_value ref_rlp raw \<noteq> Panic" for raw
    by (auto simp: ref_rlp_def rlp_crate.defs ref_dec_account_def ref_dec_value_def rbind_Panic_iff ref_val_at_no_panic)
  moreover have "dec_bytes ref_rlp raw = Ok c \<Longrightarrow> length c < 2 ^ 63" for raw c
    by (auto simp: ref_fields ref_views rbind_Ok_iff split: if_splits)
  ultimately show ?thesis
    using ref_rlp_calm by (simp add: backend_ok_def ref_backend_def in_memory_ops_def in_memory_get_def)
qed

lemma ref_state_ok: "state_ok ref_backend (ref_state db)"
  by (simp add: state_ok_def ref_backend_ok ref_state_def)

lemma state_new_ref: "state_new ref_backend Map.empty = Ok (ref_state Map.empty)"
  by (simp add: state_new_def ref_state_def get_total_issued_tokens_def db_get_def db_get_raw_def ref_backend_def
      in_memory_ops_def in_memory_get_def)

lemma ref_codecs:
  "dec_evm_account (bk_rlp ref_backend) (enc_evm_account (bk_rlp ref_backend) x) = Ok x"
  "dec_value (bk_rlp ref_backend) (enc_value (bk_rlp ref_backend) v) = Ok v"
  "item_count (bk_rlp ref_backend) (enc_evm_account (bk_rlp ref_backend) x) = Ok 3"
proof -
  have singles: "list_all ref_single (map (ref_item 0) xs)" for xs by (simp add: list_all_iff ref_single_item)
  have at: "ref_at (ref_list (map (ref_item 0) xs)) i = Ok (ref_item 0 (xs ! i))" if "i < length xs" for xs i
    using that by (simp add: ref_at_def ref_iter_list [OF singles])
  obtain b n h where x: "x = (b, n, h)" by (cases x)
  note at3 = at [of _ "[to_be 32 b, to_be 32 n, to_be 32 h]"]
  show "dec_evm_account (bk_rlp ref_backend) (enc_evm_account (bk_rlp ref_backend) x) = Ok x"
    using at3 [of 0] at3 [of 1] at3 [of 2]
    by (simp add: x ref_backend_def ref_rlp_def rlp_crate.defs ref_dec_account_def ref_enc_account_def val_at_def ref_views ref_word_item)
  show "dec_value (bk_rlp ref_backend) (enc_value (bk_rlp ref_backend) v) = Ok v"
    using at [of 0 "[to_be 32 v]"]
    by (simp add: ref_backend_def ref_rlp_def rlp_crate.defs ref_dec_value_def val_at_def ref_views ref_word_item)
  show "item_count (bk_rlp ref_backend) (enc_evm_account (bk_rlp ref_backend) x) = Ok 3"
    using singles [of "[to_be 32 b, to_be 32 n, to_be 32 h]"]
    by (simp add: x ref_backend_def ref_rlp_def rlp_crate.defs ref_enc_account_def ref_crate_def ref_payload_list ref_iter_list)
qed

end
