(* ===== verification/Substate.thy ===== *)
theory Substate
  imports World_State
begin

text \<open>
  The bookkeeping of a transaction beside the world state (src/state/substate.rs): the stack of
  call recipients with its counter, and the substate a frame collects; the notifications that
  the observers of src/observer receive.
\<close>

section \<open>The call stack\<close>

record frame_stack_info =
  fsi_stack :: "(address_with_space \<times> bool) list"
  fsi_counter :: "(address_with_space, u32) hash_map"

definition fsi_new :: frame_stack_info where
  "fsi_new = \<lparr>fsi_stack = [], fsi_counter = []\<rparr>"

definition fsi_push :: "address_with_space \<Rightarrow> bool \<Rightarrow> frame_stack_info \<Rightarrow> frame_stack_info" where
  "fsi_push a is_create f = f\<lparr>fsi_stack := (a, is_create) # fsi_stack f,
     fsi_counter := hm_insert a ((case hm_get (fsi_counter f) a of Some n \<Rightarrow> n | None \<Rightarrow> 0) + 1) (fsi_counter f)\<rparr>"

definition fsi_pop :: "(frame_stack_info, 'e, (address_with_space \<times> bool) option) eff" where
  "fsi_pop = (\<lambda>f. case fsi_stack f of
     [] \<Rightarrow> (Ok None, f)
   | (a, is_create) # rest \<Rightarrow>
       (let f' = f\<lparr>fsi_stack := rest\<rparr> in case hm_get (fsi_counter f) a of
          None \<Rightarrow> (Panic, f')
        | Some n \<Rightarrow> (Ok (Some (a, is_create)),
            f'\<lparr>fsi_counter := (if n - 1 = 0 then hm_remove a (fsi_counter f) else hm_insert a (n - 1) (fsi_counter f))\<rparr>)))"

definition fsi_last :: "frame_stack_info \<Rightarrow> address_with_space option" where
  "fsi_last f = (case fsi_stack f of [] \<Rightarrow> None | (a, _) # _ \<Rightarrow> Some a)"

definition fsi_contains_key :: "address_with_space \<Rightarrow> frame_stack_info \<Rightarrow> bool" where
  "fsi_contains_key a f = hm_contains a (fsi_counter f)"

text \<open>The counter counts the occurrences on the stack.\<close>

definition fsi_ok :: "frame_stack_info \<Rightarrow> bool" where
  "fsi_ok f \<longleftrightarrow> length (fsi_stack f) < 2 ^ 32 \<and> (\<forall>a. hm_get (fsi_counter f) a =
     (case count_list (map fst (fsi_stack f)) a of 0 \<Rightarrow> None | n \<Rightarrow> Some (of_nat n)))"

section \<open>Substates\<close>

record log_entry =
  le_address :: address
  le_topics :: "h256 list"
  le_data :: bytes
  le_space :: space

record substate =
  ss_suicides :: "address_with_space set"
  ss_touched :: "address_with_space set"
  ss_logs :: "log_entry list"
  ss_contracts_created :: "address_with_space list"

definition substate_new :: substate where
  "substate_new = \<lparr>ss_suicides = {}, ss_touched = {}, ss_logs = [], ss_contracts_created = []\<rparr>"

definition accrue :: "substate \<Rightarrow> substate \<Rightarrow> substate" where
  "accrue s self = self\<lparr>ss_suicides := ss_suicides self \<union> ss_suicides s, ss_touched := ss_touched self \<union> ss_touched s,
     ss_logs := ss_logs self @ ss_logs s, ss_contracts_created := ss_contracts_created self @ ss_contracts_created s\<rparr>"

definition cleanup_mode_of :: "substate \<Rightarrow> spec \<Rightarrow> cleanup_mode" where
  "cleanup_mode_of ss sp = (case (kill_dust sp \<noteq> DustOff, no_empty sp, kill_empty sp) of
     (False, False, _) \<Rightarrow> ForceCreate
   | (False, True, False) \<Rightarrow> NoEmpty
   | _ \<Rightarrow> TrackTouched (ss_touched ss))"

text \<open>The mode borrows the touched set: what an operation adds to it ends up in the substate.\<close>

definition return_mode :: "cleanup_mode \<Rightarrow> substate \<Rightarrow> substate" where
  "return_mode mode ss = (case mode of TrackTouched t \<Rightarrow> ss\<lparr>ss_touched := t\<rparr> | _ \<Rightarrow> ss)"

section \<open>Lemmas\<close>

lemma fsi_ok_new: "fsi_ok fsi_new"
  by (simp add: fsi_ok_def fsi_new_def)

lemma fsi_contains_iff: "fsi_ok f \<Longrightarrow> fsi_contains_key a f \<longleftrightarrow> a \<in> fst ` set (fsi_stack f)"
  by (auto simp: fsi_ok_def fsi_contains_key_def hm_contains_def count_list_0_iff split: nat.splits)

lemma count_of_nat_inj:
  assumes "length xs < 2 ^ 32"
  shows "(of_nat (count_list xs a) :: u32) = 0 \<longleftrightarrow> count_list xs a = 0"
proof -
  have "count_list xs a < 2 ^ 32" using count_le_length [of xs a] assms by simp
  then show ?thesis by (auto simp: word_of_nat_eq_0_iff dest: dvd_imp_le)
qed

lemma fsi_push_ok:
  assumes "fsi_ok f" "Suc (length (fsi_stack f)) < 2 ^ 32"
  shows "fsi_ok (fsi_push a is_create f)"
  using assms by (auto simp: fsi_ok_def fsi_push_def hm_simps split: nat.splits)

text \<open>Popping never finds the counter empty, and undoes a push.\<close>

lemma fsi_pop_ok:
  assumes ok: "fsi_ok f" and pop: "fsi_pop f = (r, f')"
  shows "r = Ok (case fsi_stack f of [] \<Rightarrow> None | x # _ \<Rightarrow> Some x) \<and> fsi_ok f' \<and> fsi_stack f' = tl (fsi_stack f)"
proof (cases "fsi_stack f")
  case Nil
  with assms show ?thesis by (auto simp: fsi_pop_def)
next
  case (Cons x rest)
  obtain a c where x: "x = (a, c)" by (cases x)
  let ?n = "count_list (map fst rest) a"
  have a: "hm_get (fsi_counter f) a = Some (of_nat (Suc ?n))"
    using ok Cons x by (simp add: fsi_ok_def del: of_nat_Suc)
  have len: "length (map fst rest) < 2 ^ 32" using ok Cons by (simp add: fsi_ok_def)
  have z: "of_nat (Suc ?n) - (1 :: u32) = of_nat ?n" by simp
  have "hm_get (fsi_counter f) b = (case count_list (map fst rest) b of 0 \<Rightarrow> None | n \<Rightarrow> Some (of_nat n))" if "b \<noteq> a" for b
    using ok Cons x that by (auto simp: fsi_ok_def)
  then show ?thesis
    using pop Cons x a len count_of_nat_inj [OF len, of a]
    by (auto simp: fsi_pop_def Let_def fsi_ok_def hm_simps z simp del: of_nat_Suc split: nat.splits)
qed

end
