(* ===== verification/Call_Context.thy ===== *)
theory Call_Context
  imports Vm_Context Substate
begin

text \<open>
  The context a frame runs in (src/call_create_frame/context.rs): the implementation of the
  interface of the interpreter on the world state.  The machine (src/machine.rs) is a record of the
  trait objects it holds; the observer is the list of the notifications it received.
\<close>

section \<open>The machine\<close>

record chain_id_params =
  cid_heights :: "u64 list"
  cid_chain_ids :: "u32 list"

text \<open>
  The heights are sorted and start at zero, so \<open>binary_search\<close> or the index before its insertion
  point is the last height that is not larger.
\<close>

definition get_chain_id :: "chain_id_params \<Rightarrow> u64 \<Rightarrow> ('e, u32) res" where
  "get_chain_id p epoch_number =
     (let n = length (takeWhile (\<lambda>h. h \<le> epoch_number) (cid_heights p)) in
      if n = 0 \<or> length (cid_chain_ids p) < n then Panic else Ok (cid_chain_ids p ! (n - 1)))"

definition new_inner :: "u32 \<Rightarrow> chain_id_params" where
  "new_inner chain_id = \<lparr>cid_heights = [0], cid_chain_ids = [chain_id]\<rparr>"

record builtin =
  bi_cost :: "bytes \<Rightarrow> u256 vm_result"
  bi_execute :: "bytes \<Rightarrow> bytes vm_result"
  bi_activate_at :: u64

definition builtin_is_active :: "builtin \<Rightarrow> u64 \<Rightarrow> bool" where
  "builtin_is_active b at = (bi_activate_at b \<le> at)"

record origin_info =
  oi_address :: address
  oi_original_sender :: address
  oi_gas_price :: u256
  oi_value :: u256

definition origin_info_from :: "action_params \<Rightarrow> origin_info" where
  "origin_info_from p = \<lparr>oi_address = ap_address p, oi_original_sender = ap_original_sender p,
     oi_gas_price = ap_gas_price p, oi_value = action_value_value (ap_value p)\<rparr>"

record frame_context =
  fc_space :: space
  fc_env :: env
  fc_depth :: usize
  fc_is_create :: bool
  fc_origin :: origin_info
  fc_substate :: substate
  fc_spec :: spec
  fc_static_flag :: bool

record finalization_result =
  fin_space :: space
  fin_gas_left :: u256
  fin_apply_state :: bool
  fin_return_data :: return_data

record frame_return = finalization_result +
  fr_create_address :: "address option"
  fr_substate :: "substate option"

datatype address_pocket = Balance address_with_space | MintBurn | GasPayment

datatype observation =
    ObsCall action_params
  | ObsCallResult "frame_return vm_result"
  | ObsCreate action_params
  | ObsCreateResult "frame_return vm_result"
  | ObsTransfer address_pocket address_pocket u256

record 'd exec_context =
  ctx_state :: "'d state"
  ctx_callstack :: frame_stack_info
  ctx_local :: frame_context
  ctx_observer :: "observation list"

text \<open>An internal contract runs on the context and returns or asks for a nested call.\<close>

record ('d, 'r) internal_contract =
  ic_is_active :: "spec \<Rightarrow> bool"
  ic_execute :: "action_params \<Rightarrow> ('d exec_context, vm_error, gas_left + trap_kind \<times> 'r) eff"

record ('d, 'r) machine =
  mc_builtins :: "address \<rightharpoonup> builtin"
  mc_internal_contracts :: "address \<rightharpoonup> ('d, 'r) internal_contract"
  mc_chain_id :: chain_id_params
  mc_resume :: "'r \<Rightarrow> message_call_result + contract_create_result \<Rightarrow> ('d exec_context, vm_error, gas_left) eff"

definition machine_builtin :: "('d, 'r) machine \<Rightarrow> address_with_space \<Rightarrow> u64 \<Rightarrow> builtin option" where
  "machine_builtin M a block_number = (case mc_builtins M (aws_address a) of
     None \<Rightarrow> None | Some b \<Rightarrow> if builtin_is_active b block_number then Some b else None)"

definition contract :: "('d, 'r) machine \<Rightarrow> address_with_space \<Rightarrow> spec \<Rightarrow> ('d, 'r) internal_contract option" where
  "contract M a sp = (case mc_internal_contracts M (aws_address a) of
     None \<Rightarrow> None | Some ic \<Rightarrow> if ic_is_active ic sp then Some ic else None)"

definition INTERNAL_CONTRACT_CODE :: bytes where
  "INTERNAL_CONTRACT_CODE = [0, 0, 0, 0]"

section \<open>Contract addresses\<close>

definition contract_address ::
  "'d backend \<Rightarrow> create_contract_address \<Rightarrow> address_with_space \<Rightarrow> u256 \<Rightarrow> bytes \<Rightarrow> address_with_space \<times> h256 option" where
  "contract_address B scheme sender n c =
     (let h = bk_keccak B c;
          a = (case scheme of
            FromSenderNonce \<Rightarrow> bk_keccak B (enc_list (bk_rlp B) [enc_address (bk_rlp B) (aws_address sender), enc_u256 (bk_rlp B) n])
          | FromSenderSaltAndCodeHash salt \<Rightarrow>
              bk_keccak B ([0xff] @ to_be 20 (aws_address sender) @ to_be 32 salt @ to_be 32 h))
      in (with_space (ucast a) (aws_space sender), Some h))"

definition UNSIGNED_SENDER :: address where
  "UNSIGNED_SENDER = - 1"

section \<open>The context\<close>

definition on_state :: "('d state, 'e, 'a) eff \<Rightarrow> ('d exec_context, 'e, 'a) eff" where
  "on_state = ezoom ctx_state (\<lambda>s c. c\<lparr>ctx_state := s\<rparr>)"

text \<open>\<open>map_err(Into::into)\<close>.\<close>

definition into_vm :: "('s, db_error, 'a) eff \<Rightarrow> ('s, vm_error, 'a) eff" where
  "into_vm m = (\<lambda>s. case m s of (r, s') \<Rightarrow> (from_db_error r, s'))"

text \<open>An operation that takes the cleanup mode of the substate.\<close>

definition on_state_mode :: "('d state \<times> cleanup_mode, 'e, 'a) eff \<Rightarrow> ('d exec_context, 'e, 'a) eff" where
  "on_state_mode m = (\<lambda>c. case m (ctx_state c, cleanup_mode_of (fc_substate (ctx_local c)) (fc_spec (ctx_local c))) of
     (r, (s, mode)) \<Rightarrow> (r, c\<lparr>ctx_state := s,
        ctx_local := (ctx_local c)\<lparr>fc_substate := return_mode mode (fc_substate (ctx_local c))\<rparr>\<rparr>))"

definition upd_substate :: "(substate \<Rightarrow> substate) \<Rightarrow> ('d exec_context, 'e, unit) eff" where
  "upd_substate f = emodify (\<lambda>c. c\<lparr>ctx_local := (ctx_local c)\<lparr>fc_substate := f (fc_substate (ctx_local c))\<rparr>\<rparr>)"

definition observe :: "observation \<Rightarrow> ('d exec_context, 'e, unit) eff" where
  "observe x = emodify (\<lambda>c. c\<lparr>ctx_observer := ctx_observer c @ [x]\<rparr>)"

definition local_get :: "(frame_context \<Rightarrow> 'a) \<Rightarrow> ('d exec_context, 'e, 'a) eff" where
  "local_get f = eget (\<lambda>c. f (ctx_local c))"

definition in_space :: "address \<Rightarrow> frame_context \<Rightarrow> address_with_space" where
  "in_space a l = with_space a (fc_space l)"

definition caller :: "frame_context \<Rightarrow> address_with_space" where
  "caller l = in_space (oi_address (fc_origin l)) l"

definition ctx_storage_at :: "'d backend \<Rightarrow> bytes \<Rightarrow> ('d exec_context, vm_error, u256) eff" where
  "ctx_storage_at B k = ebind (local_get caller) (\<lambda>a. on_state (into_vm (storage_at B a k)))"

definition ctx_set_storage :: "'d backend \<Rightarrow> bytes \<Rightarrow> u256 \<Rightarrow> ('d exec_context, vm_error, unit) eff" where
  "ctx_set_storage B k v = ebind (local_get caller) (\<lambda>a.
     ebind (local_get fc_static_flag) (\<lambda>static.
     if static then efail MutableCallInStaticContext
     else on_state (into_vm (set_storage B a k v))))"

definition ctx_exists :: "'d backend \<Rightarrow> address \<Rightarrow> ('d exec_context, vm_error, bool) eff" where
  "ctx_exists B a = ebind (local_get (in_space a)) (\<lambda>a. on_state (into_vm (state_exists B a)))"

definition ctx_exists_and_not_null :: "'d backend \<Rightarrow> address \<Rightarrow> ('d exec_context, vm_error, bool) eff" where
  "ctx_exists_and_not_null B a = ebind (local_get (in_space a)) (\<lambda>a. on_state (into_vm (exists_and_not_null B a)))"

definition ctx_balance :: "'d backend \<Rightarrow> address \<Rightarrow> ('d exec_context, vm_error, u256) eff" where
  "ctx_balance B a = ebind (local_get (in_space a)) (\<lambda>a. on_state (into_vm (state_balance B a)))"

definition ctx_origin_balance :: "'d backend \<Rightarrow> ('d exec_context, vm_error, u256) eff" where
  "ctx_origin_balance B = ebind (local_get (\<lambda>l. oi_address (fc_origin l))) (\<lambda>a. ctx_balance B a)"

definition ctx_blockhash :: "u256 \<Rightarrow> ('d exec_context, vm_error, h256) eff" where
  "ctx_blockhash number = ebind (local_get id) (\<lambda>l.
     if fc_space l = Ethereum \<and> cip98 (fc_spec l) then
       ebind (elift (u_add number 1)) (\<lambda>n.
       eret (if ucast (env_epoch_height (fc_env l)) = n then env_last_hash (fc_env l) else 0))
     else
       ebind (elift (u_add number 1)) (\<lambda>n.
       eret (if ucast (env_number (fc_env l)) = n then env_last_hash (fc_env l) else 0)))"

definition ctx_create ::
  "'d backend \<Rightarrow> u256 \<Rightarrow> u256 \<Rightarrow> bytes \<Rightarrow> create_contract_address \<Rightarrow>
   ('d exec_context, db_error, contract_create_result + trap_kind) eff" where
  "ctx_create B gas v c scheme =
     ebind (local_get id) (\<lambda>l.
     ebind (on_state (state_nonce B (caller l))) (\<lambda>n.
     ebind (eret (contract_address B scheme (caller l) n c)) (\<lambda>(new_address, h).
     ebind (eret \<lparr>ap_space = fc_space l, ap_code_address = aws_address new_address, ap_code_hash = h,
              ap_address = aws_address new_address, ap_sender = oi_address (fc_origin l),
              ap_original_sender = oi_original_sender (fc_origin l), ap_gas = gas,
              ap_gas_price = oi_gas_price (fc_origin l), ap_value = Transfer v, ap_code = Some c,
              ap_data = None, ap_call_type = CallNone, ap_create_type = from_address_scheme scheme,
              ap_params_type = Embedded\<rparr>) (\<lambda>params.
     ethen (if \<not> fc_static_flag l \<and> (\<not> keep_unsigned_nonce (fc_spec l) \<or> ap_sender params \<noteq> UNSIGNED_SENDER)
            then on_state (inc_nonce B (caller l) (contract_start_nonce (fc_spec l))) else eret ())
     (eret (Inr (TrapCreate params)))))))"

definition ctx_call ::
  "'d backend \<Rightarrow> ('d, 'r) machine \<Rightarrow> u256 \<Rightarrow> address \<Rightarrow> address \<Rightarrow> u256 option \<Rightarrow> bytes \<Rightarrow> address \<Rightarrow> call_type \<Rightarrow>
   ('d exec_context, db_error, message_call_result + trap_kind) eff" where
  "ctx_call B M gas sender_address receive_address v d code_address ct =
     ebind (local_get id) (\<lambda>l.
     ebind (case contract M (in_space code_address l) (fc_spec l) of
         Some ic \<Rightarrow> eret (Some INTERNAL_CONTRACT_CODE, Some (bk_keccak B INTERNAL_CONTRACT_CODE))
       | None \<Rightarrow> ebind (on_state (state_code B (in_space code_address l))) (\<lambda>c.
           ebind (on_state (state_code_hash B (in_space code_address l))) (\<lambda>h. eret (c, h)))) (\<lambda>(c, h).
     eret (Inr (TrapCall \<lparr>ap_space = fc_space l, ap_code_address = code_address, ap_code_hash = h,
       ap_address = receive_address, ap_sender = sender_address,
       ap_original_sender = oi_original_sender (fc_origin l), ap_gas = gas,
       ap_gas_price = oi_gas_price (fc_origin l),
       ap_value = (case v of Some x \<Rightarrow> Transfer x | None \<Rightarrow> Apparent (oi_value (fc_origin l))),
       ap_code = c, ap_data = Some d, ap_call_type = ct, ap_create_type = CreateNone,
       ap_params_type = Separate\<rparr>))))"

definition ctx_extcode :: "'d backend \<Rightarrow> ('d, 'r) machine \<Rightarrow> address \<Rightarrow> ('d exec_context, vm_error, bytes option) eff" where
  "ctx_extcode B M a = ebind (local_get id) (\<lambda>l. case contract M (in_space a l) (fc_spec l) of
     Some ic \<Rightarrow> eret (Some INTERNAL_CONTRACT_CODE)
   | None \<Rightarrow> on_state (into_vm (state_code B (in_space a l))))"

definition ctx_extcodehash :: "'d backend \<Rightarrow> ('d, 'r) machine \<Rightarrow> address \<Rightarrow> ('d exec_context, vm_error, h256 option) eff" where
  "ctx_extcodehash B M a = ebind (local_get id) (\<lambda>l. case contract M (in_space a l) (fc_spec l) of
     Some ic \<Rightarrow> eret (Some (bk_keccak B INTERNAL_CONTRACT_CODE))
   | None \<Rightarrow> on_state (into_vm (state_code_hash B (in_space a l))))"

definition ctx_extcodesize :: "'d backend \<Rightarrow> ('d, 'r) machine \<Rightarrow> address \<Rightarrow> ('d exec_context, vm_error, usize option) eff" where
  "ctx_extcodesize B M a = ebind (local_get id) (\<lambda>l. case contract M (in_space a l) (fc_spec l) of
     Some ic \<Rightarrow> eret (Some (of_nat (length INTERNAL_CONTRACT_CODE)))
   | None \<Rightarrow> on_state (into_vm (state_code_size B (in_space a l))))"

definition ctx_log :: "h256 list \<Rightarrow> bytes \<Rightarrow> ('d exec_context, vm_error, unit) eff" where
  "ctx_log topics d = ebind (local_get id) (\<lambda>l.
     if fc_static_flag l then efail MutableCallInStaticContext
     else upd_substate (\<lambda>ss. ss\<lparr>ss_logs := ss_logs ss @
       [\<lparr>le_address = oi_address (fc_origin l), le_topics = topics, le_data = d, le_space = fc_space l\<rparr>]\<rparr>))"

definition ctx_ret :: "'d backend \<Rightarrow> u256 \<Rightarrow> return_data \<Rightarrow> bool \<Rightarrow> ('d exec_context, vm_error, u256) eff" where
  "ctx_ret B gas rd apply_state = ebind (local_get id) (\<lambda>l.
     let sp = fc_spec l in
     if \<not> fc_is_create l then eret gas
     else if apply_state then
       ebind (elift (u_mul (create_data_gas sp) (case fc_space l of Ethereum \<Rightarrow> evm_gas_ratio sp))) (\<lambda>per_byte.
       ebind (elift (rd_deref rd)) (\<lambda>d.
       ebind (elift (u_mul (of_nat (length d)) (ucast per_byte))) (\<lambda>return_cost.
       if gas < return_cost \<or> unat (create_data_limit sp) < length d then
         (if exceptional_failed_code_deposit sp then efail OutOfGas else eret gas)
       else ethen (on_state (into_vm (init_code B (caller l) d)))
         (elift (u_sub gas return_cost)))))
     else eret gas)"

text \<open>\<open>internal_contract/impls/admin.rs\<close>.\<close>

definition suicide_impl :: "'d backend \<Rightarrow> address_with_space \<Rightarrow> address_with_space \<Rightarrow> u256 \<Rightarrow> ('d exec_context, vm_error, unit) eff" where
  "suicide_impl B contract_addr refund_addr start_nonce =
     ethen (upd_substate (\<lambda>ss. ss\<lparr>ss_suicides := insert contract_addr (ss_suicides ss)\<rparr>))
     (ebind (on_state (into_vm (state_balance B contract_addr))) (\<lambda>bal.
     if refund_addr = contract_addr then
       ethen (observe (ObsTransfer (Balance contract_addr) MintBurn bal))
       (ethen (on_state_mode (into_vm (sub_balance B contract_addr bal)))
       (on_state (into_vm (subtract_total_issued bal))))
     else
       ethen (observe (ObsTransfer (Balance contract_addr) (Balance refund_addr) bal))
       (on_state_mode (into_vm (transfer_balance B contract_addr refund_addr bal start_nonce)))))"

definition ctx_suicide :: "'d backend \<Rightarrow> address \<Rightarrow> u256 \<Rightarrow> ('d exec_context, vm_error, unit) eff" where
  "ctx_suicide B refund_address start_nonce = ebind (local_get id) (\<lambda>l.
     if fc_static_flag l then efail MutableCallInStaticContext
     else suicide_impl B (caller l) (in_space refund_address l) start_nonce)"

definition ctx_chain_id :: "('d, 'r) machine \<Rightarrow> 'd exec_context \<Rightarrow> u64" where
  "ctx_chain_id M c = (case get_chain_id (mc_chain_id M) (env_epoch_height (fc_env (ctx_local c))) of
     Ok v \<Rightarrow> ucast (v :: u32) | Err () \<Rightarrow> 0 | Panic \<Rightarrow> 0)"

definition context_ops :: "'d backend \<Rightarrow> ('d, 'r) machine \<Rightarrow> 'd exec_context vm_context" where
  "context_ops B M = \<lparr>
     cx_storage_at = ctx_storage_at B,
     cx_set_storage = ctx_set_storage B,
     cx_exists = ctx_exists B,
     cx_exists_and_not_null = ctx_exists_and_not_null B,
     cx_origin_balance = ctx_origin_balance B,
     cx_balance = ctx_balance B,
     cx_blockhash = ctx_blockhash,
     cx_create = ctx_create B,
     cx_call = ctx_call B M,
     cx_extcode = ctx_extcode B M,
     cx_extcodehash = ctx_extcodehash B M,
     cx_extcodesize = ctx_extcodesize B M,
     cx_log = ctx_log,
     cx_ret = ctx_ret B,
     cx_suicide = ctx_suicide B,
     cx_spec = (\<lambda>c. fc_spec (ctx_local c)),
     cx_env = (\<lambda>c. fc_env (ctx_local c)),
     cx_chain_id = ctx_chain_id M,
     cx_space = (\<lambda>c. fc_space (ctx_local c)),
     cx_depth = (\<lambda>c. fc_depth (ctx_local c)),
     cx_is_static = (\<lambda>c. fc_static_flag (ctx_local c)),
     cx_trace_next_instruction = (\<lambda>pc i g c. (False, c)),
     cx_trace_prepare_execute = (\<lambda>pc i g mw sw c. c),
     cx_trace_executed = (\<lambda>g st m c. c)\<rparr>"

section \<open>Lemmas\<close>

lemma get_chain_id_new_inner: "get_chain_id (new_inner c) e = Ok c"
  by (simp add: get_chain_id_def new_inner_def)

text \<open>On sorted heights from zero on, the chain id is the one of the last height that has been reached.\<close>

lemma get_chain_id_ok:
  assumes "sorted (cid_heights p)" "cid_heights p \<noteq> []" "hd (cid_heights p) = 0"
    and "length (cid_chain_ids p) = length (cid_heights p)"
  shows "\<exists>i < length (cid_heights p). get_chain_id p e = Ok (cid_chain_ids p ! i) \<and> cid_heights p ! i \<le> e \<and>
    (\<forall>j. i < j \<longrightarrow> j < length (cid_heights p) \<longrightarrow> e < cid_heights p ! j)"
proof -
  let ?h = "cid_heights p"
  let ?n = "length (takeWhile (\<lambda>h. h \<le> e) ?h)"
  have n: "0 < ?n" "?n \<le> length ?h" using assms(2,3) length_takeWhile_le [of "\<lambda>h. h \<le> e" ?h] by (cases ?h; auto)+
  have "?h ! (?n - 1) \<le> e"
    using nth_mem [of "?n - 1" "takeWhile (\<lambda>h. h \<le> e) ?h"] n
    by (auto simp: takeWhile_nth dest: set_takeWhileD)
  moreover have "e < ?h ! j" if "?n - 1 < j" "j < length ?h" for j
  proof -
    have "?n < length ?h" using that by linarith
    then have "\<not> ?h ! ?n \<le> e" by (rule nth_length_takeWhile)
    moreover have "?h ! ?n \<le> ?h ! j" using that assms(1) by (intro sorted_nth_mono) linarith+
    ultimately show ?thesis by simp
  qed
  moreover have "?n - 1 < length ?h" using n by linarith
  ultimately show ?thesis
    using n assms(4) by (intro exI [of _ "?n - 1"]) (auto simp: get_chain_id_def Let_def)
qed

end
