(* ===== verification/Context_Laws.thy ===== *)
theory Context_Laws
  imports Call_Context State_Machine Interpreter_Run
begin

text \<open>
  The context of a frame keeps the contract that the interpreter relies on: no operation panics
  where the contract promises it, the invariant of the world state is kept, and the part of the
  context that is fixed for the frame does not change.
\<close>

section \<open>Views do not panic\<close>

lemma account_view_no_panic:
  assumes "backend_ok B"
  shows "av_code (account_view B db oa) \<noteq> Panic" "av_storage (account_view B db oa) k \<noteq> Panic"
  using assms
  by (auto simp: account_view_def code_view_def storage_view_def rbind_Panic_iff db_get_no_panic split: option.splits if_splits)

lemma top_view_account_no_panic:
  assumes s: "state_ok B s" and v: "top_view B s a = Ok (Some av)"
  shows "av_code av \<noteq> Panic" "av_storage av k \<noteq> Panic"
proof -
  have "backend_ok B" using s by (simp add: state_ok_def)
  moreover obtain oa where "av = account_view B (st_db s) oa"
    using v by (auto simp: top_view_def cache_view_def db_view_def entry_view_def map_option_case split: option.splits)
  ultimately show "av_code av \<noteq> Panic" "av_storage av k \<noteq> Panic" by (simp_all add: account_view_no_panic)
qed

text \<open>Every read of the state leaves it as the client saw it and does not panic.\<close>

definition quiet :: "'d backend \<Rightarrow> ('d state, 'e, 'a) eff \<Rightarrow> bool" where
  "quiet B m \<longleftrightarrow> (\<forall>s r s'. state_ok B s \<longrightarrow> m s = (r, s') \<longrightarrow> same B s s' \<and> r \<noteq> Panic)"

lemma quiet_into_vm: "quiet B m \<Longrightarrow> quiet B (into_vm m)"
  unfolding quiet_def into_vm_def by (auto split: prod.splits) (metis from_db_error.simps(1,2) res.distinct(4,5) res.exhaust)+

lemma quietI:
  assumes "\<And>s r s'. state_ok B s \<Longrightarrow> m s = (r, s') \<Longrightarrow> same B s s' \<and> r = g s" "\<And>s. state_ok B s \<Longrightarrow> g s \<noteq> Panic"
  shows "quiet B m"
  using assms unfolding quiet_def by metis

lemma quiet_reads:
  "quiet B (state_balance B a)" "quiet B (state_nonce B a)" "quiet B (state_code_hash B a)" "quiet B (state_exists B a)"
  "quiet B (exists_and_not_null B a)"
  by (rule quietI [OF state_balance_spec] quietI [OF state_nonce_spec] quietI [OF state_code_hash_spec]
      quietI [OF state_exists_spec] quietI [OF exists_and_not_null_spec]; simp add: top_view_no_panic)+

lemma field_no_panic:
  assumes "state_ok B s" "d \<noteq> Panic" "\<And>av. top_view B s a = Ok (Some av) \<Longrightarrow> f av \<noteq> Panic"
  shows "rbind (top_view B s a) (or_default d f) \<noteq> Panic"
  using assms top_view_no_panic [OF assms(1)] by (auto simp: rbind_Panic_iff or_default_def split: option.splits)

lemma quiet_state_code: "quiet B (state_code B a)"
proof (rule quietI [OF state_code_spec])
  fix s
  assume s: "state_ok B s"
  then show "rbind (top_view B s a) (or_default (Ok None) av_code) \<noteq> Panic"
    by (rule field_no_panic) (simp_all add: top_view_account_no_panic(1) [OF s])
qed

lemma quiet_state_code_size: "quiet B (state_code_size B a)"
proof (rule quietI [OF state_code_size_spec])
  fix s
  assume s: "state_ok B s"
  then show "rbind (top_view B s a)
      (or_default (Ok None) (\<lambda>av. rmap (map_option (\<lambda>c. of_nat (length c))) (av_code av))) \<noteq> Panic"
    by (rule field_no_panic) (simp_all add: top_view_account_no_panic(1) [OF s])
qed

lemma quiet_storage_at: "quiet B (storage_at B a k)"
proof (rule quietI [OF storage_at_spec])
  fix s
  assume s: "state_ok B s"
  then show "rbind (top_view B s a) (or_default (Ok 0) (\<lambda>av. av_storage av k)) \<noteq> Panic"
    by (rule field_no_panic) (simp_all add: top_view_account_no_panic(2) [OF s])
qed

lemma set_storage_no_panic:
  assumes s: "state_ok B s" and r: "set_storage B a k v s = (r, s')"
  shows "r \<noteq> Panic"
proof (cases "top_view B s a")
  case (Ok acc)
  show ?thesis
  proof (cases acc)
    case None
    with Ok set_storage_spec [OF s r] show ?thesis by auto
  next
    case (Some av)
    with Ok set_storage_spec [OF s r] top_view_account_no_panic(2) [OF s, of a av k] show ?thesis
      by (cases "av_storage av k") auto
  qed
qed (use set_storage_spec [OF s r] in auto)

lemma state_code_length:
  assumes s: "state_ok B s" and r: "state_code B a s = (Ok (Some c), s')"
  shows "length c < 2 ^ 63"
  using ensure_account_loaded_spec [OF s reader_ok_reading r [unfolded state_code_def]]
  by (auto simp: read_result_def reading_def account_ok_def split: res.splits option.splits)

section \<open>The invariant of a context\<close>

definition ctx_inv :: "'d backend \<Rightarrow> 'd exec_context \<Rightarrow> bool" where
  "ctx_inv B c \<longleftrightarrow> state_ok B (ctx_state c) \<and> spec_ok (fc_spec (ctx_local c)) \<and>
     contract_start_nonce (fc_spec (ctx_local c)) \<noteq> - 1"

text \<open>
  The additions that \<open>create\<close> and \<open>suicide\<close> make stay in range: the nonce of the running
  contract is not the largest one, and its balance fits on top of any other.
\<close>

definition money :: "view \<Rightarrow> address_with_space \<Rightarrow> (u256 \<times> u256) option db_result" where
  "money V a = rmap (map_option (\<lambda>av. (av_balance av, av_nonce av))) (V a)"

definition ctx_calm :: "'d backend \<Rightarrow> 'd exec_context \<Rightarrow> bool" where
  "ctx_calm B c \<longleftrightarrow> (let V = top_view B (ctx_state c); me = caller (ctx_local c) in
     \<forall>b n. money V me = Ok (Some (b, n)) \<longrightarrow> n \<noteq> - 1 \<and>
       (\<forall>a m. money V a = Ok m \<longrightarrow> a \<noteq> me \<longrightarrow> unat b + unat (or_default 0 fst m) < 2 ^ 256))"

lemma context_ops_select [simp]:
  "cx_spec (context_ops B M) c = fc_spec (ctx_local c)" "cx_env (context_ops B M) c = fc_env (ctx_local c)"
  "cx_space (context_ops B M) c = fc_space (ctx_local c)" "cx_depth (context_ops B M) c = fc_depth (ctx_local c)"
  "cx_is_static (context_ops B M) c = fc_static_flag (ctx_local c)" "cx_chain_id (context_ops B M) = ctx_chain_id M"
  by (simp_all add: context_ops_def)

text \<open>What the fixed part of a context depends on.\<close>

definition fixed_part :: "frame_context \<Rightarrow> frame_context" where
  "fixed_part l = l\<lparr>fc_substate := substate_new\<rparr>"

lemma cx_frame_fixed:
  assumes "fixed_part (ctx_local c') = fixed_part (ctx_local c)"
  shows "cx_frame (context_ops B M) c' = cx_frame (context_ops B M) c \<and> caller (ctx_local c') = caller (ctx_local c)"
proof -
  obtain ss where "ctx_local c' = (ctx_local c)\<lparr>fc_substate := ss\<rparr>"
    using assms unfolding fixed_part_def
    by (metis (no_types, lifting) frame_context.surjective frame_context.update_convs(6) frame_context.select_convs)
  then show ?thesis by (simp add: cx_frame_def ctx_chain_id_def caller_def in_space_def)
qed

section \<open>Operations that leave the state to the client as it was\<close>

text \<open>
  A change that the laws allow: of the top world, of the substate and of the observer, which sees
  internal transfers only.
\<close>

definition is_transfer :: "observation \<Rightarrow> bool" where
  "is_transfer x \<longleftrightarrow> (case x of ObsTransfer _ _ _ \<Rightarrow> True | _ \<Rightarrow> False)"

definition evolves :: "'d backend \<Rightarrow> 'd exec_context \<Rightarrow> 'd exec_context \<Rightarrow> bool" where
  "evolves B c c' \<longleftrightarrow> fixed_part (ctx_local c') = fixed_part (ctx_local c) \<and> top_only B (ctx_state c) (ctx_state c') \<and>
     ctx_callstack c' = ctx_callstack c \<and> (\<exists>xs. ctx_observer c' = ctx_observer c @ xs \<and> list_all is_transfer xs)"

definition within :: "'d backend \<Rightarrow> 'd exec_context \<Rightarrow> 'd exec_context \<Rightarrow> bool" where
  "within B c0 c \<longleftrightarrow> ctx_inv B c \<and> evolves B c0 c"

lemma evolves_trans: "evolves B c d \<Longrightarrow> evolves B d e \<Longrightarrow> evolves B c e"
  unfolding evolves_def by (auto intro: top_only_trans)

lemma evolves_refl: "state_ok B (ctx_state c) \<Longrightarrow> evolves B c c"
  by (simp add: evolves_def top_only_refl)

lemma within_refl: "ctx_inv B c \<Longrightarrow> within B c c"
  by (simp add: within_def evolves_refl ctx_inv_def)

lemma evolves_state: "top_only B (ctx_state c) s \<Longrightarrow> evolves B c (c\<lparr>ctx_state := s\<rparr>)"
  by (simp add: evolves_def)

lemma within_state_ok: "within B c0 c \<Longrightarrow> state_ok B (ctx_state c)"
  by (simp add: within_def ctx_inv_def)

lemma ctx_kept:
  assumes "within B c0 c" "evolves B c c'"
  shows "within B c0 c' \<and> cx_frame (context_ops B M) c' = cx_frame (context_ops B M) c"
proof -
  have f: "fixed_part (ctx_local c') = fixed_part (ctx_local c)" "state_ok B (ctx_state c')"
    using assms(2) by (simp_all add: evolves_def top_only_def)
  have "fc_spec (ctx_local c') = fc_spec (ctx_local c)" using f(1) by (cases "ctx_local c"; cases "ctx_local c'") (simp add: fixed_part_def)
  then show ?thesis
    using assms f cx_frame_fixed [OF f(1), of B M] by (auto simp: within_def ctx_inv_def intro: evolves_trans)
qed

lemma ctx_kept_calm:
  assumes "within B c0 c" "evolves B c c'"
    and "money (top_view B (ctx_state c')) = money (top_view B (ctx_state c))"
  shows "within B c0 c' \<and> cx_view (context_ops B M) (ctx_calm B) c' = cx_view (context_ops B M) (ctx_calm B) c"
proof -
  have "fixed_part (ctx_local c') = fixed_part (ctx_local c)" using assms(2) by (simp add: evolves_def)
  from cx_frame_fixed [OF this, of B M] ctx_kept [OF assms(1,2), of M] assms(3) show ?thesis
    by (simp add: cx_view_def ctx_calm_def Let_def)
qed

lemma money_same: "same B s s' \<Longrightarrow> money (top_view B s') = money (top_view B s)"
  by (simp add: same_view)

lemma keeps_on_state:
  assumes "quiet B m"
  shows "keeps (within B c0) (cx_view (context_ops B M) (ctx_calm B)) (on_state m)"
proof (rule keepsI)
  fix c r c'
  assume c: "within B c0 c" and r: "on_state m c = (r, c')"
  then obtain s' where s': "m (ctx_state c) = (r, s')" "c' = c\<lparr>ctx_state := s'\<rparr>"
    by (auto simp: on_state_def ezoom_def split: prod.splits)
  then have "same B (ctx_state c) s'" "r \<noteq> Panic" using assms within_state_ok [OF c] by (auto simp: quiet_def)
  then show "r \<noteq> Panic \<and> within B c0 c' \<and> cx_view (context_ops B M) (ctx_calm B) c' = cx_view (context_ops B M) (ctx_calm B) c"
    using ctx_kept_calm [OF c, of c' M] s' by (simp add: money_same evolves_state top_only_same)
qed

lemma keeps_local: "(\<And>x. keeps J fr (f x)) \<Longrightarrow> keeps J fr (ebind (local_get g) f)"
  unfolding local_get_def by (rule keeps_ebind) simp_all

lemma keeps_case_option:
  "(\<And>x. keeps J fr (f x)) \<Longrightarrow> keeps J fr n \<Longrightarrow> keeps J fr (case x of None \<Rightarrow> n | Some x \<Rightarrow> f x)"
  by (simp split: option.splits)

lemmas keeps_reads = keeps_on_state [OF quiet_into_vm]

lemma ctx_reads_keep:
  shows "keeps (within B c0) (cx_view (context_ops B M) (ctx_calm B)) (ctx_storage_at B k)"
    and "keeps (within B c0) (cx_view (context_ops B M) (ctx_calm B)) (ctx_exists B a)"
    and "keeps (within B c0) (cx_view (context_ops B M) (ctx_calm B)) (ctx_exists_and_not_null B a)"
    and "keeps (within B c0) (cx_view (context_ops B M) (ctx_calm B)) (ctx_balance B a)"
    and "keeps (within B c0) (cx_view (context_ops B M) (ctx_calm B)) (ctx_origin_balance B)"
    and "keeps (within B c0) (cx_view (context_ops B M) (ctx_calm B)) (ctx_extcode B M a)"
    and "keeps (within B c0) (cx_view (context_ops B M) (ctx_calm B)) (ctx_extcodehash B M a)"
    and "keeps (within B c0) (cx_view (context_ops B M) (ctx_calm B)) (ctx_extcodesize B M a)"
  unfolding ctx_storage_at_def ctx_exists_def ctx_exists_and_not_null_def ctx_balance_def ctx_origin_balance_def
    ctx_extcode_def ctx_extcodehash_def ctx_extcodesize_def
  by (intro keeps_local keeps_reads keeps_case_option keeps_basic quiet_reads quiet_storage_at quiet_state_code
      quiet_state_code_size)+

lemma ctx_set_storage_keeps:
  "keeps (within B c0) (cx_view (context_ops B M) (ctx_calm B)) (ctx_set_storage B k v)"
  unfolding ctx_set_storage_def
proof (intro keeps_local keeps_if keeps_basic)
  fix a
  show "keeps (within B c0) (cx_view (context_ops B M) (ctx_calm B)) (on_state (into_vm (set_storage B a k v)))"
  proof (rule keepsI)
    fix c r c'
    assume c: "within B c0 c" and r: "on_state (into_vm (set_storage B a k v)) c = (r, c')"
    then obtain q s' where s': "set_storage B a k v (ctx_state c) = (q, s')" "r = from_db_error q" "c' = c\<lparr>ctx_state := s'\<rparr>"
      by (auto simp: on_state_def into_vm_def ezoom_def split: prod.splits)
    have s: "state_ok B (ctx_state c)" by (rule within_state_ok [OF c])
    have ok: "top_only B (ctx_state c) s' \<and> money (top_view B s') = money (top_view B (ctx_state c))"
    proof (cases "top_view B (ctx_state c) a")
      case (Ok acc)
      show ?thesis
      proof (cases acc)
        case None
        with Ok set_storage_spec [OF s s'(1)] show ?thesis by (auto simp: money_same top_only_same)
      next
        case (Some av)
        show ?thesis
        proof (cases "av_storage av k")
          case (Ok x)
          with \<open>top_view B (ctx_state c) a = Ok acc\<close> Some set_storage_spec [OF s s'(1)]
          have u: "updates B (ctx_state c) a (Some (av\<lparr>av_storage := (av_storage av)(k := res.Ok v)\<rparr>)) s'" by simp
          show ?thesis
            using top_only_updates [OF u] updates_view [OF u] \<open>top_view B (ctx_state c) a = Ok acc\<close> Some
            by (auto simp: money_def fun_eq_iff)
        qed (use Ok Some set_storage_spec [OF s s'(1)] top_view_account_no_panic(2) [OF s, of a av k] in \<open>auto simp: money_same top_only_same\<close>)
      qed
    qed (use set_storage_spec [OF s s'(1)] in \<open>auto simp: money_same top_only_same\<close>)
    moreover have "r \<noteq> Panic" using set_storage_no_panic [OF s s'(1)] s'(2) by (cases q) simp_all
    ultimately show "r \<noteq> Panic \<and> within B c0 c' \<and> cx_view (context_ops B M) (ctx_calm B) c' = cx_view (context_ops B M) (ctx_calm B) c"
      using ctx_kept_calm [OF c, of c' M] s'(3) by (simp add: evolves_state)
  qed
qed

lemma keeps_upd_substate: "keeps (within B c0) (cx_view (context_ops B M) (ctx_calm B)) (upd_substate f)"
proof (rule keepsI)
  fix c c' :: "'a exec_context" and r
  assume "within B c0 c" "upd_substate f c = (r, c')"
  then show "r \<noteq> Panic \<and> within B c0 c' \<and> cx_view (context_ops B M) (ctx_calm B) c' = cx_view (context_ops B M) (ctx_calm B) c"
    using ctx_kept_calm [of B c0 c c' M] within_state_ok [of B c0 c]
    by (auto simp: upd_substate_def eff_simps evolves_def fixed_part_def top_only_refl)
qed

lemma ctx_log_keeps: "keeps (within B c0) (cx_view (context_ops B M) (ctx_calm B)) (ctx_log topics d)"
  unfolding ctx_log_def by (intro keeps_local keeps_if keeps_basic keeps_upd_substate)

lemma ctx_call_keeps:
  "keeps (within B c0) (cx_view (context_ops B M) (ctx_calm B)) (ctx_call B M gas sender receiver v d code_addr ct)"
  unfolding ctx_call_def
  by (intro keeps_local keeps_ebind keeps_case_option keeps_basic keeps_on_state quiet_reads quiet_state_code)
    (simp split: prod.splits)

lemma ctx_call_result:
  assumes "ctx_inv B c" "ctx_call B M gas sender receiver v d code_addr ct c = (Ok r, c')"
  shows "call_result_ok gas (call_trap gas v d ct) r"
proof (cases "contract M (in_space code_addr (ctx_local c)) (fc_spec (ctx_local c))")
  case (Some ic)
  with assms(2) show ?thesis
    by (auto simp: ctx_call_def local_get_def eff_simps call_trap_def INTERNAL_CONTRACT_CODE_def)
next
  case None
  let ?a = "in_space code_addr (ctx_local c)"
  obtain q s where q: "state_code B ?a (ctx_state c) = (q, s)" by fastforce
  have "length code < 2 ^ 63" if "q = Ok (Some code)" for code
    using state_code_length [of B "ctx_state c" ?a code s] q that assms(1) by (simp add: ctx_inv_def)
  with None assms(2) q show ?thesis
    by (cases q) (auto simp: ctx_call_def local_get_def eff_simps on_state_def call_trap_def split: prod.splits res.splits)
qed

lemma ctx_extcode_length:
  assumes "ctx_inv B c" "ctx_extcode B M a c = (Ok (Some code), c')"
  shows "length code < 2 ^ 63"
proof (cases "contract M (in_space a (ctx_local c)) (fc_spec (ctx_local c))")
  case None
  with assms obtain s' where "state_code B (in_space a (ctx_local c)) (ctx_state c) = (Ok (Some code), s')"
    by (auto simp: ctx_extcode_def local_get_def eff_simps on_state_def into_vm_def split: prod.splits)
      (metis from_db_error.simps res.distinct(1,3) res.exhaust res.inject(1))
  then show ?thesis using assms(1) by (auto simp: ctx_inv_def dest: state_code_length)
qed (use assms in \<open>auto simp: ctx_extcode_def local_get_def eff_simps INTERNAL_CONTRACT_CODE_def\<close>)

lemma ctx_blockhash_wp:
  assumes "within B c0 c"
  shows "wp (n = - 1) (ctx_blockhash n)
    (\<lambda>_ c'. within B c0 c' \<and> cx_view (context_ops B M) (ctx_calm B) c' = cx_view (context_ops B M) (ctx_calm B) c)
    (\<lambda>_ c'. within B c0 c' \<and> cx_view (context_ops B M) (ctx_calm B) c' = cx_view (context_ops B M) (ctx_calm B) c) c"
proof -
  have "n = - 1" if "2 ^ 256 \<le> unat n + 1"
  proof -
    have "unat n = unat (- 1 :: u256)" using that unat_lt_pow [of n] by (simp add: unsigned_minus_1_eq_mask mask_eq_exp_minus_1)
    then show ?thesis by (simp only: word_unat_eq_iff)
  qed
  then show ?thesis using assms by (simp add: ctx_blockhash_def local_get_def wp_simps u_add_def)
qed

section \<open>Operations that change accounts\<close>

lemma sub_balance_ok:
  assumes s: "state_ok B s" and r: "sub_balance B a v (s, mode) = (r, (s', mode'))"
  shows "(r \<noteq> Panic \<longrightarrow> top_only B s s') \<and> (r = Panic \<longrightarrow> (\<exists>av. top_view B s a = Ok (Some av) \<and> av_balance av < v))"
proof -
  have "state_step B (OpSubBalance a v mode) s = (rmap (\<lambda>_. RUnit) r, s')"
    using r by (auto simp: state_step_def emap_apply with_mode_def)
  from sub_balance_simulation [OF s this] top_only_step [OF s _ _ this] show ?thesis
    using top_view_no_panic [OF s, of a]
    by (auto simp: simulates_def plain_def op_ok_def abs_step_def on_account_def not_le split: if_splits res.splits option.splits)
qed

lemma add_balance_ok:
  assumes s: "state_ok B s" and r: "add_balance B a v n (s, mode) = (r, (s', mode'))"
  shows "(r \<noteq> Panic \<longrightarrow> top_only B s s') \<and>
    (r = Panic \<longrightarrow> (\<exists>acc. top_view B s a = Ok acc \<and> 2 ^ 256 \<le> unat (or_default 0 av_balance acc) + unat v))"
proof -
  have "state_step B (OpAddBalance a v mode n) s = (rmap (\<lambda>_. RUnit) r, s')"
    using r by (auto simp: state_step_def emap_apply with_mode_def)
  from add_balance_simulation [OF s this] top_only_step [OF s _ _ this] show ?thesis
    using top_view_no_panic [OF s, of a] unat_lt_pow [of v]
    by (auto simp: simulates_def plain_def op_ok_def abs_step_def on_account_def Let_def existing_def or_default_def basic_view_def new_basic_def
        split: if_splits res.splits option.splits)
qed

lemma inc_nonce_ok:
  assumes s: "state_ok B s" and r: "inc_nonce B a n s = (r, s')"
  shows "(r \<noteq> Panic \<longrightarrow> top_only B s s') \<and>
    (r = Panic \<longrightarrow> (\<exists>acc. top_view B s a = Ok acc \<and> or_default n av_nonce acc = - 1))"
proof -
  have "state_step B (OpIncNonce a n) s = (rmap (\<lambda>_. RUnit) r, s')"
    using r by (auto simp: state_step_def emap_apply)
  from inc_nonce_simulation [OF s this] top_only_step [OF s _ _ this] show ?thesis
    using top_view_no_panic [OF s, of a]
    by (auto simp: simulates_def plain_def op_ok_def abs_step_def on_account_def Let_def existing_def or_default_def basic_view_def new_basic_def
        split: if_splits res.splits option.splits)
qed

lemma ctx_create_wp:
  assumes c: "within B c0 c"
  shows "wp (\<not> ctx_calm B c) (ctx_create B gas v code scheme)
    (\<lambda>r c'. within B c0 c' \<and> cx_frame (context_ops B M) c' = cx_frame (context_ops B M) c \<and>
      create_result_ok gas (create_trap gas v code) r)
    (\<lambda>_ c'. within B c0 c' \<and> cx_frame (context_ops B M) c' = cx_frame (context_ops B M) c) c"
proof -
  let ?me = "caller (ctx_local c)" and ?sp = "fc_spec (ctx_local c)"
  have s: "state_ok B (ctx_state c)" by (rule within_state_ok [OF c])
  have kept: "within B c0 (c\<lparr>ctx_state := t\<rparr>) \<and> cx_frame (context_ops B M) (c\<lparr>ctx_state := t\<rparr>) = cx_frame (context_ops B M) c"
    if "top_only B (ctx_state c) t" for t using ctx_kept [OF c, of "c\<lparr>ctx_state := t\<rparr>" M] that by (simp add: evolves_state)
  obtain q t where q: "state_nonce B ?me (ctx_state c) = (q, t)" by fastforce
  have t: "same B (ctx_state c) t" "q \<noteq> Panic" using quiet_reads(2) [of B ?me] s q by (auto simp: quiet_def)
  obtain y u where y: "inc_nonce B ?me (contract_start_nonce ?sp) t = (y, u)" by fastforce
  have u: "y \<noteq> Panic \<Longrightarrow> top_only B (ctx_state c) u" "y = Panic \<Longrightarrow> \<not> ctx_calm B c"
    using inc_nonce_ok [OF same_ok [OF t(1)] y] same_view [OF t(1)] c top_only_trans [OF top_only_same [OF t(1)]]
    by (auto simp: ctx_calm_def Let_def money_def within_def ctx_inv_def or_default_def split: option.splits)
  have "ctx_create B gas v code scheme c = (r, c') \<Longrightarrow>
      (case r of Ok x \<Rightarrow> create_result_ok gas (create_trap gas v code) x | _ \<Rightarrow> True) \<and>
      (r \<noteq> Panic \<longrightarrow> (\<exists>t'. c' = c\<lparr>ctx_state := t'\<rparr> \<and> top_only B (ctx_state c) t')) \<and> (r = Panic \<longrightarrow> \<not> ctx_calm B c)" for r c'
    using q y t u top_only_same [OF t(1)]
    by (cases q; cases y)
      (auto simp: ctx_create_def local_get_def on_state_def eff_simps create_trap_def split: prod.splits if_splits)
  then show ?thesis
    unfolding wp_def using kept by (auto split: prod.splits res.splits)
qed

lemma into_vm_apply: "into_vm m s = (r, s') \<longleftrightarrow> (\<exists>q. m s = (q, s') \<and> r = from_db_error q)"
  by (auto simp: into_vm_def split: prod.splits)

lemma from_db_error_Panic [simp]: "from_db_error q = Panic \<longleftrightarrow> q = Panic"
  by (cases q) simp_all

lemma subtract_total_issued_top:
  "state_ok B s \<Longrightarrow> top_only B s (snd (subtract_total_issued v s)) \<and> fst (subtract_total_issued v s) = Ok ()"
  by (simp add: subtract_total_issued_def eff_simps state_ok_def top_only_def worlds_eq top_view_def)

lemma on_account_other: "b \<noteq> a \<Longrightarrow> ws \<noteq> [] \<Longrightarrow> fst (hd (snd (on_account f a ws))) b = fst (hd ws) b"
  by (auto simp: on_account_def world_update_def split: res.splits prod.splits list.splits)

text \<open>A payment panics only where the receiver's balance overflows.\<close>

lemma transfer_balance_ok:
  assumes s: "state_ok B s" and r: "transfer_balance B src dst v n (s, mode) = (r, (s', mode'))"
    and ne: "src \<noteq> dst" and bal: "\<And>av. top_view B s src = Ok (Some av) \<Longrightarrow> v \<le> av_balance av"
  shows "(r \<noteq> Panic \<longrightarrow> top_only B s s') \<and>
    (r = Panic \<longrightarrow> (\<exists>acc. top_view B s dst = Ok acc \<and> 2 ^ 256 \<le> unat (or_default 0 av_balance acc) + unat v))"
proof -
  obtain q t m where q: "sub_balance B src v (s, mode) = (q, (t, m))" by (metis prod.exhaust)
  have t: "q \<noteq> Panic" "top_only B s t" using sub_balance_ok [OF s q] bal by auto
  have tok: "state_ok B t" using t(2) by (simp add: top_only_def)
  show ?thesis
  proof (cases q)
    case (Ok x)
    then have r': "add_balance B dst v n (t, m) = (r, (s', mode'))" using r q by (simp add: transfer_balance_def eff_simps)
    have "state_step B (OpSubBalance src v mode) s = (Ok RUnit, t)"
      using q Ok by (auto simp: state_step_def emap_apply with_mode_def)
    from sub_balance_simulation [OF s this] have "worlds B t = snd (abs_step B (st_db s) (OpSubBalance src v mode) (worlds B s))"
      by (simp add: simulates_def)
    then have "fst (hd (worlds B t)) dst = fst (hd (worlds B s)) dst"
      using on_account_other [of dst src "worlds B s"] ne by (auto simp: abs_step_def worlds_eq [of B s])
    then have "top_view B t dst = top_view B s dst" by simp
    then show ?thesis using add_balance_ok [OF tok r'] t(2) top_only_trans by auto
  qed (use r q t in \<open>auto simp: transfer_balance_def eff_simps\<close>)
qed

lemma on_state_mode_run:
  assumes "on_state_mode (into_vm m) c = (r, c')"
  obtains q mode mode' where "m (ctx_state c, mode) = (q, (ctx_state c', mode'))" "r = from_db_error q"
    "top_only B (ctx_state c) (ctx_state c') \<Longrightarrow> evolves B c c'"
  using assms by (auto simp: on_state_mode_def into_vm_apply fixed_part_def evolves_def split: prod.splits)

lemma suicide_burns:
  assumes s: "state_ok B (ctx_state d)" and bal: "\<And>av. top_view B (ctx_state d) me = Ok (Some av) \<Longrightarrow> bal \<le> av_balance av"
    and run: "on_state_mode (into_vm (sub_balance B me bal)) d = (r, d')"
  shows "r \<noteq> Panic \<and> evolves B d d'"
proof (rule on_state_mode_run [OF run])
  fix q mode mode'
  assume q: "sub_balance B me bal (ctx_state d, mode) = (q, (ctx_state d', mode'))" "r = from_db_error q"
    "top_only B (ctx_state d) (ctx_state d') \<Longrightarrow> evolves B d d'"
  then show ?thesis using sub_balance_ok [OF s q(1)] bal by fastforce
qed

lemma suicide_pays:
  assumes s: "state_ok B (ctx_state d)" and bal: "\<And>av. top_view B (ctx_state d) me = Ok (Some av) \<Longrightarrow> bal \<le> av_balance av"
    and ne: "me \<noteq> to" and run: "on_state_mode (into_vm (transfer_balance B me to bal n)) d = (r, d')"
  shows "(r \<noteq> Panic \<longrightarrow> evolves B d d') \<and> (r = Panic \<longrightarrow>
    (\<exists>acc. top_view B (ctx_state d) to = Ok acc \<and> 2 ^ 256 \<le> unat (or_default 0 av_balance acc) + unat bal))"
proof (rule on_state_mode_run [OF run])
  fix q mode mode'
  assume q: "transfer_balance B me to bal n (ctx_state d, mode) = (q, (ctx_state d', mode'))" "r = from_db_error q"
    "top_only B (ctx_state d) (ctx_state d') \<Longrightarrow> evolves B d d'"
  then show ?thesis using transfer_balance_ok [OF s q(1) ne bal] by auto
qed

lemma overflow_not_calm:
  assumes me: "me = caller (ctx_local c)" and ne: "me \<noteq> to" and acc: "top_view B (ctx_state c) to = Ok acc"
    and own: "rmap (or_default 0 av_balance) (top_view B (ctx_state c) me) = Ok bal"
    and over: "2 ^ 256 \<le> unat (or_default 0 av_balance acc) + unat bal"
  shows "\<not> ctx_calm B c"
proof
  assume calm: "ctx_calm B c"
  have "bal \<noteq> 0" using over unat_lt_pow [of "or_default 0 av_balance acc"] by (intro notI) simp
  then obtain av where av: "top_view B (ctx_state c) me = Ok (Some av)" "av_balance av = bal"
    using own by (auto simp: or_default_def split: option.splits)
  let ?m = "map_option (\<lambda>av. (av_balance av, av_nonce av)) acc"
  have "money (top_view B (ctx_state c)) me = Ok (Some (bal, av_nonce av))" "money (top_view B (ctx_state c)) to = Ok ?m"
    using av acc by (simp_all add: money_def)
  then have "unat bal + unat (or_default 0 fst ?m) < 2 ^ 256"
    using calm ne unfolding ctx_calm_def Let_def me [symmetric] by blast
  moreover have "or_default 0 fst ?m = or_default 0 av_balance acc" by (cases acc) simp_all
  ultimately show False using over by simp
qed

lemma on_state_evolves:
  "top_only B (ctx_state c) (snd (m (ctx_state c))) \<Longrightarrow> on_state m c = (r, c') \<Longrightarrow> r = fst (m (ctx_state c)) \<and> evolves B c c'"
  by (auto simp: on_state_def ezoom_def evolves_state split: prod.splits)

lemma suicide_run:
  assumes s: "state_ok B (ctx_state c)" and me: "me = caller (ctx_local c)" and run: "suicide_impl B me to n c = (r, c')"
  shows "(r \<noteq> Panic \<longrightarrow> evolves B c c') \<and> (r = Panic \<longrightarrow> \<not> ctx_calm B c)"
proof -
  let ?c1 = "c\<lparr>ctx_local := (ctx_local c)\<lparr>fc_substate := (fc_substate (ctx_local c))\<lparr>ss_suicides :=
    insert me (ss_suicides (fc_substate (ctx_local c)))\<rparr>\<rparr>\<rparr>"
  obtain q t where q: "state_balance B me (ctx_state c) = (q, t)" by fastforce
  have t: "same B (ctx_state c) t" and qv: "q = rmap (or_default 0 av_balance) (top_view B (ctx_state c) me)"
    using state_balance_spec [OF s q] by auto
  let ?d = "\<lambda>xs. ?c1\<lparr>ctx_state := t, ctx_observer := ctx_observer c @ xs\<rparr>"
  have d: "evolves B c (?d xs)" if "list_all is_transfer xs" for xs
    using that top_only_same [OF t] by (auto simp: evolves_def fixed_part_def)
  have dok: "state_ok B (ctx_state (?d xs))" "top_view B (ctx_state (?d xs)) = top_view B (ctx_state c)" for xs
    using same_ok [OF t] same_view [OF t] by simp_all
  note unfold = suicide_impl_def local_get_def eff_simps upd_substate_def observe_def on_state_def into_vm_def
  show ?thesis
  proof (cases q)
    case (Ok bal)
    then have bal: "bal \<le> av_balance av" if "top_view B (ctx_state (?d xs)) me = Ok (Some av)" for av xs
      using qv that unfolding dok by auto
    show ?thesis
    proof (cases "to = me")
      case True
      let ?x = "ObsTransfer (Balance me) MintBurn bal"
      obtain y d' where y: "on_state_mode (into_vm (sub_balance B me bal)) (?d [?x]) = (y, d')" by fastforce
      have e: "y \<noteq> Panic" "evolves B c d'"
        using suicide_burns [OF dok(1) bal y] d [of "[?x]"] by (auto simp: is_transfer_def intro: evolves_trans)
      then have ok: "state_ok B (ctx_state d')" by (simp add: evolves_def top_only_def)
      have "(r, c') = (case y of Ok _ \<Rightarrow> on_state (into_vm (subtract_total_issued bal)) d' | Err e \<Rightarrow> (Err e, d') | Panic \<Rightarrow> (Panic, d'))"
        using run q Ok True y by (cases y) (auto simp: unfold)
      then show ?thesis
        using e subtract_total_issued_top [OF ok, of bal]
        by (cases y) (auto simp: on_state_def into_vm_def eff_simps split: prod.splits intro: evolves_trans [OF e(2) evolves_state])
    next
      case False
      let ?x = "ObsTransfer (Balance me) (Balance to) bal"
      have y: "on_state_mode (into_vm (transfer_balance B me to bal n)) (?d [?x]) = (r, c')"
        using run q Ok False by (simp add: unfold)
      have "\<not> ctx_calm B c" if "top_view B (ctx_state (?d [?x])) to = Ok acc" "2 ^ 256 \<le> unat (or_default 0 av_balance acc) + unat bal" for acc
        by (rule overflow_not_calm [OF me False [symmetric] _ _ that(2)]) (use that(1) qv Ok dok in simp_all)
      then show ?thesis
        using suicide_pays [OF dok(1) bal False [symmetric] y] d [of "[?x]"] by (auto simp: is_transfer_def intro: evolves_trans)
    qed
  qed (use run q qv d [of "[]"] top_view_no_panic [OF s, of me] in \<open>auto simp: unfold\<close>)
qed

lemma ctx_suicide_wp:
  assumes c: "within B c0 c"
  shows "wp (\<not> ctx_calm B c) (ctx_suicide B a n)
    (\<lambda>_ c'. within B c0 c' \<and> cx_frame (context_ops B M) c' = cx_frame (context_ops B M) c)
    (\<lambda>_ c'. within B c0 c' \<and> cx_frame (context_ops B M) c' = cx_frame (context_ops B M) c) c"
proof -
  have s: "state_ok B (ctx_state c)" by (rule within_state_ok [OF c])
  have "(r \<noteq> Panic \<longrightarrow> evolves B c c') \<and> (r = Panic \<longrightarrow> \<not> ctx_calm B c)" if "ctx_suicide B a n c = (r, c')" for r c'
    using that suicide_run [OF s refl, of "in_space a (ctx_local c)" n r c'] evolves_refl [OF s]
    by (auto simp: ctx_suicide_def local_get_def eff_simps split: if_splits)
  then show ?thesis
    unfolding wp_def using ctx_kept [OF c] by (auto split: prod.splits res.splits)
qed

section \<open>The contract\<close>

interpretation ctx: vm_context_laws "context_ops B M" "within B c0" "ctx_calm B"
  for B :: "'d backend" and M :: "('d, 'r) machine" and c0 :: "'d exec_context"
proof
  show "spec_ok (cx_spec (context_ops B M) c)" if "within B c0 c" for c using that by (simp add: within_def ctx_inv_def)
  show "length code < 2 ^ 63" if "within B c0 c" "cx_extcode (context_ops B M) a c = (Ok (Some code), c')" for c a code c'
    using that ctx_extcode_length [of B c M a code c'] by (simp add: context_ops_def within_def)
  show "call_result_ok g (call_trap g val data ct) r'"
    if "within B c0 c" "cx_call (context_ops B M) g sender receiver val data code_address ct c = (Ok r', c')"
    for c g sender receiver val data code_address ct r' c'
    using that ctx_call_result [of B c M g sender receiver val data code_address ct r' c'] by (simp add: context_ops_def within_def)
qed (simp_all add: context_ops_def ctx_reads_keep [unfolded context_ops_def] ctx_set_storage_keeps [unfolded context_ops_def]
    ctx_blockhash_wp [unfolded context_ops_def] ctx_create_wp [unfolded context_ops_def] ctx_call_keeps [unfolded context_ops_def]
    ctx_log_keeps [unfolded context_ops_def] ctx_suicide_wp [unfolded context_ops_def])

end
