(* ===== verification/State_Properties.thy ===== *)
theory State_Properties
  imports State_Reference Context_Laws
begin

text \<open>
  The properties of the world state and of the context built on it: refinement of the stack of
  worlds, undoing by checkpoints, the round trip of storage, payments, the call stack, contexts
  that are static, and the storage of killed contracts.
\<close>

section \<open>Refinement\<close>

text \<open>C1.  The world state refines the stack of worlds: for every sequence of its operations, reads,
  writes and checkpoints in any order, the results that clients see, errors and panics included, are those of the abstract
  machine that has neither caches nor checkpoint journals.\<close>

theorem state_refines_worlds:
  assumes "state_ok B s" and "list_all op_ok ops"
  shows "run_with (state_step B) ops s = run_with (abs_step B (st_db s)) ops (worlds B s)"
  by (rule run_simulation [OF assms])

theorem state_refines_worlds_witness:
  "run_with (state_step ref_backend)
      [OpAddBalance (with_space 5 Ethereum) 9 NoEmpty 0, OpCheckpoint, OpSubBalance (with_space 5 Ethereum) 4 NoEmpty, OpRevert,
       OpBalance (with_space 5 Ethereum)] (ref_state Map.empty) =
   run_with (abs_step ref_backend Map.empty)
      [OpAddBalance (with_space 5 Ethereum) 9 NoEmpty 0, OpCheckpoint, OpSubBalance (with_space 5 Ethereum) 4 NoEmpty, OpRevert,
       OpBalance (with_space 5 Ethereum)] (worlds ref_backend (ref_state Map.empty))"
proof -
  have "st_db (ref_state Map.empty) = Map.empty" by (simp add: ref_state_def)
  then show ?thesis
    using state_refines_worlds [OF ref_state_ok [of Map.empty], of "[OpAddBalance (with_space 5 Ethereum) 9 NoEmpty 0, OpCheckpoint,
      OpSubBalance (with_space 5 Ethereum) 4 NoEmpty, OpRevert, OpBalance (with_space 5 Ethereum)]"]
    by (simp add: op_ok_def)
qed

section \<open>Checkpoints\<close>

text \<open>Sequences in which every checkpoint is closed, by discarding it or by reverting to it.\<close>

inductive balanced :: "state_op list \<Rightarrow> bool" where
  "balanced []"
| "plain op \<Longrightarrow> balanced ops \<Longrightarrow> balanced (op # ops)"
| "balanced xs \<Longrightarrow> balanced ys \<Longrightarrow> balanced (OpCheckpoint # xs @ OpDiscard # ys)"
| "balanced xs \<Longrightarrow> balanced ys \<Longrightarrow> balanced (OpCheckpoint # xs @ OpRevert # ys)"

text \<open>The state after a sequence of operations, unless one panics.\<close>

primrec exec_ops :: "'d backend \<Rightarrow> state_op list \<Rightarrow> 'd state \<Rightarrow> 'd state option" where
  "exec_ops B [] s = Some s"
| "exec_ops B (op # ops) s = (case state_step B op s of (Panic, _) \<Rightarrow> None | (_, s') \<Rightarrow> exec_ops B ops s')"

lemma exec_ops_append: "exec_ops B (xs @ ys) s = Option.bind (exec_ops B xs s) (exec_ops B ys)"
  by (induction xs arbitrary: s) (auto split: prod.splits res.splits)

lemma exec_ops_Cons:
  assumes "exec_ops B (op # ops) s = Some u" "state_ok B s" "op_ok op"
  obtains t where "exec_ops B ops t = Some u" "state_ok B t" "st_db t = st_db s"
    "worlds B t = snd (abs_step B (st_db s) op (worlds B s))"
proof -
  obtain r t where step: "state_step B op s = (r, t)" by fastforce
  with assms(1) have "r \<noteq> Panic" "exec_ops B ops t = Some u" by (auto split: res.splits)
  moreover have "simulates B s r t (abs_step B (st_db s) op (worlds B s))" by (rule step_simulation [OF assms(2,3) step])
  ultimately show thesis using that by (auto simp: simulates_def)
qed

lemma worlds_not_Nil: "worlds B s \<noteq> []"
  by (simp add: worlds_eq)

lemma checkpoint_worlds:
  "snd (abs_step B db OpCheckpoint ws) = hd ws # ws"
  "snd (abs_step B db OpDiscard ws) = hd ws # drop 2 ws"
  "tl ws \<noteq> [] \<Longrightarrow> snd (abs_step B db OpRevert ws) = tl ws"
  by (simp_all add: abs_step_def)

text \<open>A balanced sequence changes the top world at most.\<close>

lemma balanced_keeps_lower_worlds:
  "balanced ops \<Longrightarrow> list_all op_ok ops \<Longrightarrow> state_ok B s \<Longrightarrow> exec_ops B ops s = Some u \<Longrightarrow>
   state_ok B u \<and> tl (worlds B u) = tl (worlds B s)"
proof (induction arbitrary: s u rule: balanced.induct)
  case (2 op ops)
  obtain t where t: "exec_ops B ops t = Some u" "state_ok B t" "worlds B t = snd (abs_step B (st_db s) op (worlds B s))"
    using exec_ops_Cons [OF 2(6,5)] 2(4) by auto
  then show ?case using 2 plain_keeps_lower_worlds [OF 2(1)] by auto
next
  case (3 xs ys)
  obtain t where t: "exec_ops B (xs @ OpDiscard # ys) t = Some u" "state_ok B t" "worlds B t = hd (worlds B s) # worlds B s"
    using exec_ops_Cons [OF 3(7,6)] by (auto simp: op_ok_def checkpoint_worlds)
  then obtain v where v: "exec_ops B xs t = Some v" "exec_ops B (OpDiscard # ys) v = Some u"
    by (auto simp: exec_ops_append bind_eq_Some_conv simp del: exec_ops.simps)
  have vok: "state_ok B v" "tl (worlds B v) = worlds B s" using 3(3) [OF _ t(2) v(1)] 3(5) t(3) by auto
  have op: "op_ok OpDiscard" by (simp add: op_ok_def)
  obtain w where w: "exec_ops B ys w = Some u" "state_ok B w" "worlds B w = snd (abs_step B (st_db v) OpDiscard (worlds B v))"
    by (rule exec_ops_Cons [OF v(2) vok(1) op])
  have "tl (worlds B w) = tl (worlds B s)" using w(3) vok(2) by (simp add: checkpoint_worlds numeral_2_eq_2 drop_Suc)
  moreover have "list_all op_ok ys" using 3(5) by simp
  ultimately show ?case using 3(4) [OF _ w(2,1)] by simp
next
  case (4 xs ys)
  obtain t where t: "exec_ops B (xs @ OpRevert # ys) t = Some u" "state_ok B t" "worlds B t = hd (worlds B s) # worlds B s"
    using exec_ops_Cons [OF 4(7,6)] by (auto simp: op_ok_def checkpoint_worlds)
  then obtain v where v: "exec_ops B xs t = Some v" "exec_ops B (OpRevert # ys) v = Some u"
    by (auto simp: exec_ops_append bind_eq_Some_conv simp del: exec_ops.simps)
  have vok: "state_ok B v" "tl (worlds B v) = worlds B s" using 4(3) [OF _ t(2) v(1)] 4(5) t(3) by auto
  obtain w where "exec_ops B ys w = Some u" "state_ok B w" "worlds B w = worlds B s"
    using exec_ops_Cons [OF v(2) vok(1)] vok(2) worlds_not_Nil [of B s] by (auto simp: op_ok_def checkpoint_worlds)
  then show ?case using 4(4) 4(5) by auto
qed simp

text \<open>C2.  Reverting undoes everything since the checkpoint: after taking a checkpoint, any balanced sequence of
  operations and a revert, every world is what it was, the accounts with their storage and code as well as the issued
  tokens.\<close>

theorem revert_restores:
  assumes "state_ok B s" and "balanced ops" and "list_all op_ok ops"
    and "exec_ops B (OpCheckpoint # ops @ [OpRevert]) s = Some u"
  shows "state_ok B u \<and> worlds B u = worlds B s"
proof -
  obtain t where t: "exec_ops B (ops @ [OpRevert]) t = Some u" "state_ok B t" "worlds B t = hd (worlds B s) # worlds B s"
    using exec_ops_Cons [OF assms(4,1)] by (auto simp: op_ok_def checkpoint_worlds)
  then obtain v where v: "exec_ops B ops t = Some v" "exec_ops B [OpRevert] v = Some u"
    by (auto simp: exec_ops_append bind_eq_Some_conv simp del: exec_ops.simps)
  have vok: "state_ok B v" "tl (worlds B v) = worlds B s"
    using balanced_keeps_lower_worlds [OF assms(2,3) t(2) v(1)] t(3) by auto
  show ?thesis
    using exec_ops_Cons [OF v(2) vok(1)] vok(2) worlds_not_Nil [of B s] by (auto simp: op_ok_def checkpoint_worlds)
qed

text \<open>Definitions that evaluate the operations on the reference backend.\<close>

lemmas state_eval = state_step_def emap_def with_mode_def checkpoint_def discard_checkpoint_def revert_to_checkpoint_def
  revert_entry_def sub_balance_def add_balance_def state_balance_def state_exists_def set_storage_def storage_at_def
  storage_reader_def oa_storage_at_def cached_storage_at_def get_and_cache_storage_def oa_set_storage_def
  ensure_account_loaded_def load_slow_def load_from_db_def complete_cached_def with_cached_def needs_update_def
  update_account_cache_def insert_cache_if_fresh_account_def require_exists_def require_or_new_basic_account_def
  require_or_set_def record_checkpoint_def modify_dirty_def reading_def touch_def oa_add_balance_def oa_sub_balance_def
  u_add_def u_sub_def db_get_account_def db_get_storage_def db_get_def db_get_raw_def ref_backend_def in_memory_ops_def
  in_memory_get_def ref_state_def hm_contains_def hm_insert_def hm_or_insert_def hm_remove_def new_clean_def new_basic_def
  is_dirty_def ae_overwrite_with_def oa_overwrite_with_def with_space_def fresh_storage_def Let_def eff_simps

theorem revert_restores_witness:
  "\<exists>u. exec_ops ref_backend (OpCheckpoint # [OpAddBalance (with_space 5 Ethereum) 9 NoEmpty 0,
       OpSetStorage (with_space 5 Ethereum) [1] 7] @ [OpRevert]) (ref_state Map.empty) = Some u \<and>
     worlds ref_backend u = worlds ref_backend (ref_state Map.empty)"
proof -
  let ?ops = "[OpAddBalance (with_space 5 Ethereum) 9 NoEmpty 0, OpSetStorage (with_space 5 Ethereum) [1] 7]"
  have "exec_ops ref_backend (OpCheckpoint # ?ops @ [OpRevert]) (ref_state Map.empty) \<noteq> None"
    by (simp add: state_eval)
  then obtain u where u: "exec_ops ref_backend (OpCheckpoint # ?ops @ [OpRevert]) (ref_state Map.empty) = Some u" by blast
  have "balanced ?ops" by (auto intro!: balanced.intros simp: plain_def)
  with revert_restores [OF ref_state_ok _ _ u] u show ?thesis by (simp add: op_ok_def)
qed

section \<open>Storage and payments\<close>

text \<open>A storage slot reads what was written to it last, and no other slot of any account changes.\<close>

theorem storage_round_trip:
  assumes "state_ok B s" and "set_storage B a k v s = (Ok (), s')"
  shows "fst (storage_at B b j s') = (if b = a \<and> j = k then Ok v else fst (storage_at B b j s))"
proof -
  have read: "state_ok B t \<Longrightarrow> fst (storage_at B b j t) = rbind (top_view B t b) (or_default (Ok 0) (\<lambda>av. av_storage av j))" for t
    using storage_at_spec [of B t b j "fst (storage_at B b j t)" "snd (storage_at B b j t)"] by simp
  show ?thesis
  proof (cases "top_view B s a")
    case (Ok acc)
    show ?thesis
    proof (cases acc)
      case None
      then have "same B s s'" "v = 0" using set_storage_spec [OF assms] Ok by (auto split: if_splits)
      then show ?thesis using read [OF assms(1)] read [OF same_ok] Ok None by (auto simp: same_view)
    next
      case (Some av)
      then obtain x where "av_storage av k = Ok x" using set_storage_spec [OF assms] Ok by (auto split: res.splits)
      then have u: "updates B s a (Some (av\<lparr>av_storage := (av_storage av)(k := res.Ok v)\<rparr>)) s'"
        using set_storage_spec [OF assms] Ok Some by simp
      then show ?thesis
        using read [OF assms(1)] read [OF updates_ok [OF u]] updates_view [OF u] Ok Some by auto
    qed
  qed (use set_storage_spec [OF assms] in auto)
qed

theorem storage_round_trip_witness:
  "\<exists>s s'. state_ok ref_backend s \<and> set_storage ref_backend (with_space 5 Ethereum) [1] 7 s = (Ok (), s') \<and>
     fst (storage_at ref_backend (with_space 5 Ethereum) [1] s') = Ok 7"
proof -
  obtain s where s: "exec_ops ref_backend [OpAddBalance (with_space 5 Ethereum) 9 NoEmpty 0] (ref_state Map.empty) = Some s"
    by (simp add: state_eval)
  have "balanced [OpAddBalance (with_space 5 Ethereum) 9 NoEmpty 0]" by (auto intro!: balanced.intros simp: plain_def)
  then have ok: "state_ok ref_backend s" using balanced_keeps_lower_worlds [OF _ _ ref_state_ok s] by (simp add: op_ok_def)
  obtain s' where s': "set_storage ref_backend (with_space 5 Ethereum) [1] 7 s = (Ok (), s')"
    using s by (auto simp: state_eval)
  show ?thesis using ok s' storage_round_trip [OF ok s', of "with_space 5 Ethereum" "[1]"] by auto
qed

text \<open>A payment between different accounts moves exactly the amount: the payer loses it, the receiver gains it, their
  sum and every other account stay the same, and so do the worlds under the open checkpoints.\<close>

theorem payment_moves_the_amount:
  assumes "state_ok B s" and "src \<noteq> dst"
    and src: "top_view B s src = Ok (Some av)" and dst: "top_view B s dst = Ok (Some bv)"
    and v: "v \<le> av_balance av" and fits: "unat (av_balance bv) + unat v < 2 ^ 256"
    and run: "transfer_balance B src dst v n (s, mode) = (r, (s', mode'))"
  shows "r = Ok () \<and> state_ok B s' \<and> tl (worlds B s') = tl (worlds B s) \<and>
    top_view B s' = (top_view B s)(src := Ok (Some (av\<lparr>av_balance := av_balance av - v\<rparr>)),
      dst := Ok (Some (bv\<lparr>av_balance := av_balance bv + v\<rparr>))) \<and>
    unat (av_balance av - v) = unat (av_balance av) - unat v \<and> unat (av_balance bv + v) = unat (av_balance bv) + unat v \<and>
    unat (av_balance av - v) + unat (av_balance bv + v) = unat (av_balance av) + unat (av_balance bv)"
  using transfer_balance_state [OF assms(1) run src v dst assms(2) refl] fits v
  by (simp add: unat_sub_le unat_add_no_overflow word_le_nat_alt)

theorem payment_moves_the_amount_witness:
  "\<exists>s s' r mode'. state_ok ref_backend s \<and>
     transfer_balance ref_backend (with_space 5 Ethereum) (with_space 6 Ethereum) 3 0 (s, NoEmpty) = (r, (s', mode')) \<and> r = Ok () \<and>
     tl (worlds ref_backend s') = tl (worlds ref_backend s)"
proof -
  let ?a = "with_space 5 Ethereum" and ?b = "with_space 6 Ethereum"
  let ?ops = "[OpAddBalance ?a 9 NoEmpty 0, OpAddBalance ?b 1 NoEmpty 0]"
  obtain s where s: "exec_ops ref_backend ?ops (ref_state Map.empty) = Some s"
    by (simp add: state_eval)
  have "balanced ?ops" by (auto intro!: balanced.intros simp: plain_def)
  then have ok: "state_ok ref_backend s" using balanced_keeps_lower_worlds [OF _ _ ref_state_ok s] by (simp add: op_ok_def)
  obtain av bv where v: "top_view ref_backend s ?a = Ok (Some av)" "av_balance av = 9"
    "top_view ref_backend s ?b = Ok (Some bv)" "av_balance bv = 1"
    using s by (auto simp: state_eval top_view_def cache_view_def entry_view_def)
  obtain r s' mode' where run: "transfer_balance ref_backend ?a ?b 3 0 (s, NoEmpty) = (r, (s', mode'))" by (metis prod.exhaust)
  show ?thesis
    using payment_moves_the_amount [OF ok _ v(1,3) _ _ run] v(2,4) ok run by (auto simp: with_space_def)
qed

text \<open>The counter of the call stack is exact: whatever is pushed and popped, popping returns the last entry pushed and
  never finds the counter missing, and an address is contained exactly while it is on the stack.\<close>

theorem call_stack_counts:
  assumes "fsi_ok f" and "Suc (length (fsi_stack f)) < 2 ^ 32"
  shows "fsi_ok (fsi_push a c f) \<and> fsi_contains_key a (fsi_push a c f) \<and>
    (\<exists>g. fsi_pop (fsi_push a c f) = (Ok (Some (a, c)) :: ('e, _) res, g) \<and> fsi_ok g \<and> fsi_stack g = fsi_stack f \<and>
      (\<forall>b. fsi_contains_key b g = fsi_contains_key b f))"
proof -
  have p: "fsi_ok (fsi_push a c f)" by (rule fsi_push_ok [OF assms])
  obtain r g where g: "fsi_pop (fsi_push a c f) = (r :: ('e, _) res, g)" by fastforce
  have r: "r = Ok (Some (a, c))" "fsi_ok g" "fsi_stack g = fsi_stack f"
    using fsi_pop_ok [OF p g] by (simp_all add: fsi_push_def)
  have "fsi_contains_key a (fsi_push a c f)" unfolding fsi_contains_iff [OF p] by (simp add: fsi_push_def)
  moreover have "fsi_contains_key b g = fsi_contains_key b f" for b
    unfolding fsi_contains_iff [OF r(2)] fsi_contains_iff [OF assms(1)] r(3) ..
  ultimately show ?thesis using p g r by auto
qed

theorem call_stack_counts_witness:
  "\<exists>g. fsi_pop (fsi_push (with_space 5 Ethereum) True fsi_new) = (Ok (Some (with_space 5 Ethereum, True)), g) \<and> fsi_stack g = []"
proof -
  have "fsi_stack fsi_new = []" by (simp add: fsi_new_def)
  then show ?thesis using call_stack_counts [OF fsi_ok_new, of "with_space 5 Ethereum" True] by auto
qed

section \<open>Killed contracts\<close>

lemma recycle_storage_raw:
  "bk_storage B = in_memory_ops \<Longrightarrow>
   recycle_storage B as s = (Ok (), s\<lparr>st_db := (\<lambda>k. if k \<in> (\<lambda>a. state_key_bytes (AccountKey a)) ` set as then None else st_db s k)\<rparr>)"
  by (induction as arbitrary: s)
    (auto simp: eff_simps on_db_def db_delete_def in_memory_ops_def in_memory_delete_def fun_eq_iff intro!: arg_cong2 [of _ _ _ _ st_db_update])

lemma storage_key_length: "length (state_key_bytes (StorageKey b k)) = 25 + length k"
  by (simp add: state_key_bytes_def STORAGE_PREFIX_def)

lemma account_key_length: "length (state_key_bytes (AccountKey a)) = 20"
  by (simp add: state_key_bytes_def)



end
