(* ===== verification/Context_Reference.thy ===== *)
theory Context_Reference
  imports State_Reference Context_Laws Lru_Reference
begin

text \<open>
  A concrete machine, environment and context over the in-memory backend, on which the properties
  of contexts, frames and transactions are shown to apply.
\<close>

definition ref_transitions :: transitions_block_number where
  "ref_transitions = \<lparr>tn_cip43a = 0, tn_cip43b = 0, tn_cip62 = 0, tn_cip64 = 0, tn_cip71 = 0, tn_cip78a = 0, tn_cip78b = 0,
     tn_cip90b = 0, tn_cip92 = 0, tn_cip94 = 0, tn_cip97 = 0, tn_cip98 = 0, tn_cip105 = 0, tn_cip_sigma_fix = 0\<rparr>"

definition ref_spec :: spec where
  "ref_spec = new_spec_from_common_params ref_transitions 7"

definition ref_env :: env where
  "ref_env = \<lparr>env_number = 7, env_author = 1, env_timestamp = 100, env_difficulty = 1, env_gas_limit = 1000000,
     env_last_hash = 3, env_accumulated_gas_used = 0, env_epoch_height = 5\<rparr>"

definition ref_machine :: "('d, 'r) machine" where
  "ref_machine = \<lparr>mc_builtins = Map.empty, mc_internal_contracts = Map.empty, mc_chain_id = new_inner 71,
     mc_resume = (\<lambda>_ _. epanic)\<rparr>"

definition ref_externals :: "alru externals" where
  "ref_externals = \<lparr>ext_lru = alru_ops, keccak = ref_keccak, keccak_empty = 1\<rparr>"

definition ref_context :: "bool \<Rightarrow> bool \<Rightarrow> in_memory_db exec_context" where
  "ref_context is_create is_static = \<lparr>ctx_state = ref_state Map.empty, ctx_callstack = fsi_new,
     ctx_local = \<lparr>fc_space = Ethereum, fc_env = ref_env, fc_depth = 0, fc_is_create = is_create,
       fc_origin = \<lparr>oi_address = 9, oi_original_sender = 8, oi_gas_price = 1, oi_value = 0\<rparr>,
       fc_substate = substate_new, fc_spec = ref_spec, fc_static_flag = is_static\<rparr>,
     ctx_observer = []\<rparr>"

text \<open>A call with given code and gas.\<close>

definition ref_call :: "bytes \<Rightarrow> u256 \<Rightarrow> action_params" where
  "ref_call c gas = \<lparr>ap_space = Ethereum, ap_code_address = 9, ap_code_hash = None, ap_address = 9, ap_sender = 8,
     ap_original_sender = 8, ap_gas = gas, ap_gas_price = 1, ap_value = Transfer 0, ap_code = Some c, ap_data = None,
     ap_call_type = Call, ap_create_type = CreateNone, ap_params_type = Separate\<rparr>"

lemma ref_spec_ok: "spec_ok ref_spec"
  unfolding ref_spec_def by (rule spec_ok_new)

lemma ref_spec_start_nonce: "contract_start_nonce ref_spec \<noteq> - 1"
  by (simp add: ref_spec_def new_spec_from_common_params_def genesis_spec_def)

lemma ref_context_inv: "ctx_inv ref_backend (ref_context is_create is_static)"
  using ref_spec_ok ref_spec_start_nonce by (simp add: ctx_inv_def ref_context_def ref_state_ok)

lemma ref_context_select [simp]:
  "ctx_state (ref_context is_create is_static) = ref_state Map.empty"
  "fc_spec (ctx_local (ref_context is_create is_static)) = ref_spec"
  "fc_is_create (ctx_local (ref_context is_create is_static)) = is_create"
  "fc_static_flag (ctx_local (ref_context is_create is_static)) = is_static"
  "caller (ctx_local (ref_context is_create is_static)) = with_space 9 Ethereum"
  by (simp_all add: ref_context_def caller_def in_space_def)

lemma ref_lru: "lru_laws (ext_lru ref_externals) alru_map"
  by (simp add: ref_externals_def alru_laws)

text \<open>An interpreter that starts on given code in the reference context.\<close>

lemma ref_start:
  assumes "c \<noteq> []" "length c < 2 ^ 63" "unat gas < 2 ^ 64"
  shows "\<exists>v :: usize interp. interpreter_new (ref_call c gas) = Ok v \<and> interp_ok ref_spec v \<and> gas_total v = unat gas \<and>
    it_code v = c"
  using interpreter_new_ok [of "ref_call c gas" c ref_spec] assms
  by (auto simp: ref_call_def)

end
