(* ===== verification/Context_Properties.thy ===== *)
theory Context_Properties
  imports Context_Reference
begin

text \<open>
  The interpreter on the context of the chain: a run returns and gives back at most the gas it
  had, a run in a static context changes nothing, and what a create pays for its code.
\<close>

section \<open>Static contexts\<close>

text \<open>
  What a static context keeps beside the invariant: the worlds, the substate with its logs
  and suicides, the call stack and what the observer saw.
\<close>

definition static_inv :: "'d backend \<Rightarrow> 'd exec_context \<Rightarrow> 'd exec_context \<Rightarrow> bool" where
  "static_inv B c0 c \<longleftrightarrow> ctx_inv B c \<and> fc_static_flag (ctx_local c) \<and>
     worlds B (ctx_state c) = worlds B (ctx_state c0) \<and> ctx_local c = ctx_local c0 \<and>
     ctx_callstack c = ctx_callstack c0 \<and> ctx_observer c = ctx_observer c0"

lemma static_frame:
  "static_inv B c0 c \<Longrightarrow> static_inv B c0 c' \<Longrightarrow>
   cx_view (context_ops B M) (\<lambda>_. True) c' = cx_view (context_ops B M) (\<lambda>_. True) c"
  by (simp add: cx_view_def cx_frame_def static_inv_def ctx_chain_id_def)

lemma keeps_static:
  assumes "\<And>c r c'. static_inv B c0 c \<Longrightarrow> m c = (r, c') \<Longrightarrow> r \<noteq> Panic \<and> static_inv B c0 c'"
  shows "keeps (static_inv B c0) (cx_view (context_ops B M) (\<lambda>_. True)) m"
  by (rule keepsI) (use assms static_frame in blast)

lemma static_same:
  assumes "static_inv B c0 c" "same B (ctx_state c) s"
  shows "static_inv B c0 (c\<lparr>ctx_state := s\<rparr>)"
  using assms by (auto simp: static_inv_def ctx_inv_def same_def)

lemma keeps_static_on_state:
  assumes "quiet B m"
  shows "keeps (static_inv B c0) (cx_view (context_ops B M) (\<lambda>_. True)) (on_state m)"
proof (rule keeps_static)
  fix c r c'
  assume c: "static_inv B c0 c" and r: "on_state m c = (r, c')"
  then obtain s' where s': "m (ctx_state c) = (r, s')" "c' = c\<lparr>ctx_state := s'\<rparr>"
    by (auto simp: on_state_def ezoom_def split: prod.splits)
  then have "same B (ctx_state c) s'" "r \<noteq> Panic"
    using assms c by (auto simp: quiet_def static_inv_def ctx_inv_def)
  then show "r \<noteq> Panic \<and> static_inv B c0 c'" using static_same [OF c] s' by simp
qed

lemmas static_reads = keeps_static_on_state [OF quiet_into_vm]

lemma static_reads_keep:
  shows "keeps (static_inv B c0) (cx_view (context_ops B M) (\<lambda>_. True)) (ctx_storage_at B k)"
    and "keeps (static_inv B c0) (cx_view (context_ops B M) (\<lambda>_. True)) (ctx_exists B a)"
    and "keeps (static_inv B c0) (cx_view (context_ops B M) (\<lambda>_. True)) (ctx_exists_and_not_null B a)"
    and "keeps (static_inv B c0) (cx_view (context_ops B M) (\<lambda>_. True)) (ctx_balance B a)"
    and "keeps (static_inv B c0) (cx_view (context_ops B M) (\<lambda>_. True)) (ctx_origin_balance B)"
    and "keeps (static_inv B c0) (cx_view (context_ops B M) (\<lambda>_. True)) (ctx_extcode B M a)"
    and "keeps (static_inv B c0) (cx_view (context_ops B M) (\<lambda>_. True)) (ctx_extcodehash B M a)"
    and "keeps (static_inv B c0) (cx_view (context_ops B M) (\<lambda>_. True)) (ctx_extcodesize B M a)"
  unfolding ctx_storage_at_def ctx_exists_def ctx_exists_and_not_null_def ctx_balance_def ctx_origin_balance_def
    ctx_extcode_def ctx_extcodehash_def ctx_extcodesize_def
  by (intro keeps_local static_reads keeps_case_option keeps_basic quiet_reads quiet_storage_at quiet_state_code
      quiet_state_code_size)+

text \<open>The operations that write fail at once.\<close>

lemma static_writes_fail:
  assumes "fc_static_flag (ctx_local c)"
  shows "ctx_set_storage B k v c = (Err MutableCallInStaticContext, c)"
    and "ctx_log topics d c = (Err MutableCallInStaticContext, c)"
    and "ctx_suicide B a n c = (Err MutableCallInStaticContext, c)"
  using assms by (simp_all add: ctx_set_storage_def ctx_log_def ctx_suicide_def local_get_def eff_simps)

lemma static_writes_keep:
  shows "keeps (static_inv B c0) (cx_view (context_ops B M) (\<lambda>_. True)) (ctx_set_storage B k v)"
    and "keeps (static_inv B c0) (cx_view (context_ops B M) (\<lambda>_. True)) (ctx_log topics d)"
    and "keeps (static_inv B c0) (cx_view (context_ops B M) (\<lambda>_. True)) (ctx_suicide B a n)"
  by (rule keeps_static, auto simp: static_inv_def static_writes_fail)+

lemma static_call_keeps:
  "keeps (static_inv B c0) (cx_view (context_ops B M) (\<lambda>_. True)) (ctx_call B M gas sender receiver v d code_addr ct)"
  unfolding ctx_call_def
  by (intro keeps_local keeps_ebind keeps_case_option keeps_basic keeps_static_on_state quiet_reads quiet_state_code)
    (simp split: prod.splits)

lemma static_create_keeps:
  assumes c: "static_inv B c0 c" and r: "ctx_create B gas v code scheme c = (r, c')"
  shows "r \<noteq> Panic \<and> static_inv B c0 c' \<and> (\<forall>x. r = Ok x \<longrightarrow> create_result_ok gas (create_trap gas v code) x)"
proof -
  let ?me = "caller (ctx_local c)"
  have s: "state_ok B (ctx_state c)" "fc_static_flag (ctx_local c)" using c by (auto simp: static_inv_def ctx_inv_def)
  obtain q t where q: "state_nonce B ?me (ctx_state c) = (q, t)" by fastforce
  have t: "same B (ctx_state c) t" "q \<noteq> Panic" using quiet_reads(2) [of B ?me] s q by (auto simp: quiet_def)
  show ?thesis
    using r q t s static_same [OF c t(1)]
    by (cases q) (auto simp: ctx_create_def local_get_def on_state_def eff_simps create_trap_def split: prod.splits)
qed

lemma static_blockhash_wp:
  assumes "static_inv B c0 c"
  shows "wp (n = - 1) (ctx_blockhash n) (\<lambda>_ c'. c' = c) (\<lambda>_ c'. c' = c) c"
proof -
  have "wp (n = - 1) (ctx_blockhash n) (\<lambda>_ _. True) (\<lambda>_ _. True) c"
    by (rule wp_mono [OF ctx_blockhash_wp [OF within_refl]]) (use assms in \<open>auto simp: static_inv_def\<close>)
  then show ?thesis
    by (auto simp: ctx_blockhash_def local_get_def wp_simps split: res.splits if_splits)
qed

interpretation static: vm_context_laws "context_ops B M" "static_inv B c0" "\<lambda>_. True"
  for B :: "'d backend" and M :: "('d, 'r) machine" and c0 :: "'d exec_context"
proof
  show "spec_ok (cx_spec (context_ops B M) c)" if "static_inv B c0 c" for c using that by (auto simp: static_inv_def ctx_inv_def)
  show "length code < 2 ^ 63" if "static_inv B c0 c" "cx_extcode (context_ops B M) a c = (Ok (Some code), c')" for c a code c'
    using that ctx_extcode_length [of B c M a code c'] by (simp add: context_ops_def static_inv_def)
  show "call_result_ok g (call_trap g val data ct) r'"
    if "static_inv B c0 c" "cx_call (context_ops B M) g sender receiver val data code_address ct c = (Ok r', c')"
    for c g sender receiver val data code_address ct r' c'
    using that ctx_call_result [of B c M g sender receiver val data code_address ct r' c'] by (simp add: context_ops_def static_inv_def)
  show "wp (n = - 1) (cx_blockhash (context_ops B M) n)
      (\<lambda>_ c'. static_inv B c0 c' \<and> cx_view (context_ops B M) (\<lambda>_. True) c' = cx_view (context_ops B M) (\<lambda>_. True) c)
      (\<lambda>_ c'. static_inv B c0 c' \<and> cx_view (context_ops B M) (\<lambda>_. True) c' = cx_view (context_ops B M) (\<lambda>_. True) c) c"
    if "static_inv B c0 c" for n c
    using wp_mono [OF static_blockhash_wp [OF that]] that by (simp add: context_ops_def)
  show "wp (\<not> True) (cx_create (context_ops B M) g v code scheme)
      (\<lambda>r c'. static_inv B c0 c' \<and> cx_frame (context_ops B M) c' = cx_frame (context_ops B M) c \<and> create_result_ok g (create_trap g v code) r)
      (\<lambda>_ c'. static_inv B c0 c' \<and> cx_frame (context_ops B M) c' = cx_frame (context_ops B M) c) c"
    if "static_inv B c0 c" for c g v code scheme
    using static_create_keeps [OF that, of g v code scheme] static_frame [OF that, of _ M]
    unfolding wp_def by (auto simp: context_ops_def cx_view_def split: prod.splits res.splits)
  show "wp (\<not> True) (cx_suicide (context_ops B M) a n)
      (\<lambda>_ c'. static_inv B c0 c' \<and> cx_frame (context_ops B M) c' = cx_frame (context_ops B M) c)
      (\<lambda>_ c'. static_inv B c0 c' \<and> cx_frame (context_ops B M) c' = cx_frame (context_ops B M) c) c"
    if "static_inv B c0 c" for c a n
    using that static_writes_fail(3) [of c B a n] by (auto simp: context_ops_def static_inv_def wp_def)
qed (simp_all add: context_ops_def static_reads_keep [unfolded context_ops_def] static_writes_keep [unfolded context_ops_def]
    static_call_keeps [unfolded context_ops_def])

section \<open>Runs\<close>



text \<open>C18.  Static contexts are read-only: whatever code runs, up to its end or to the nested call it asks for, the worlds, the
  logs, suicides and touched accounts of the substate, the call stack and the observer stay as they were.\<close>

theorem static_run_changes_nothing:
  fixes s :: "(usize, 'l, 'd exec_context) vm_state" and M :: "('d, 'r) machine"
  assumes "lru_laws (ext_lru X) R" and "ctx_inv B (ctx s)" and "cache_ok (ext_lru X) R (\<lambda>_ _. True) (shared s)"
    and "interp_ok (fc_spec (ctx_local (ctx s))) (vm s)"
    and "fc_static_flag (ctx_local (ctx s))" and "exec X (context_ops B M) s = Some (Ok r, s')"
  shows "worlds B (ctx_state (ctx s')) = worlds B (ctx_state (ctx s)) \<and> ctx_local (ctx s') = ctx_local (ctx s) \<and>
    ctx_callstack (ctx s') = ctx_callstack (ctx s) \<and> ctx_observer (ctx s') = ctx_observer (ctx s)"
proof -
  have "static_inv B (ctx s) (ctx s) \<and> cache_ok (ext_lru X) R (\<lambda>_ _. True) (shared s) \<and> hash_known (\<lambda>_ _. True) (vm s) \<and>
      interp_ok (cx_spec (context_ops B M) (ctx s)) (vm s)" using assms by (simp add: static_inv_def hash_known_def)
  from static.exec_returns [OF assms(1), unfolded static.machine_ok_def, OF this] assms(6)
  have "static_inv B (ctx s) (ctx s')" by (auto simp: static.run_post_def static.abides_def)
  then show ?thesis by (simp add: static_inv_def)
qed

theorem static_run_changes_nothing_witness:
  "\<exists>(v :: usize interp) r s'. interpreter_new (ref_call [PUSH1, 3, DUP1, SSTORE] 50000) = Ok v \<and>
     exec ref_externals (context_ops ref_backend (ref_machine :: (in_memory_db, unit) machine))
       \<lparr>vm = v, shared = shared_cache_default alru_ops, ctx = ref_context False True\<rparr> = Some (Ok r, s') \<and>
     worlds ref_backend (ctx_state (ctx s')) = worlds ref_backend (ref_state Map.empty)"
proof -
  obtain v :: "usize interp" where v: "interpreter_new (ref_call [PUSH1, 3, DUP1, SSTORE] 50000) = Ok v"
    "interp_ok ref_spec v" "it_code v = [PUSH1, 3, DUP1, SSTORE]"
    using ref_start [of "[PUSH1, 3, DUP1, SSTORE]" 50000] by auto
  let ?s = "\<lparr>vm = v, shared = shared_cache_default alru_ops, ctx = ref_context False True\<rparr>"
  let ?V = "context_ops ref_backend (ref_machine :: (in_memory_db, unit) machine)"
  have c: "cache_ok (ext_lru ref_externals) alru_map (\<lambda>_ _. True) (shared ?s)" by (simp add: ref_externals_def alru_empty_ok)
  have start: "static_inv ref_backend (ctx ?s) (ctx ?s) \<and> cache_ok (ext_lru ref_externals) alru_map (\<lambda>_ _. True) (shared ?s) \<and>
      hash_known (\<lambda>_ _. True) (vm ?s) \<and> interp_ok (cx_spec ?V (ctx ?s)) (vm ?s)"
    using v c by (simp add: static_inv_def ref_context_inv hash_known_def)
  obtain r s' where r: "exec ref_externals ?V ?s = Some (Ok r, s')"
    by (rule static.exec_returns_Ok [OF ref_lru, unfolded static.machine_ok_def, OF start]) (simp add: v(3) static.panic_ops_def)
  show ?thesis
    using static_run_changes_nothing [OF ref_lru _ c _ _ r] v r by (auto simp: ref_context_inv)
qed

section \<open>Code deposits\<close>

text \<open>C35.  What a create pays for its code: with code of at most 49152 bytes and enough gas it installs the code at the new
  address and keeps the gas less 200 times the ratio for every byte; otherwise it fails with OutOfGas and installs nothing.\<close>

theorem code_deposit:
  assumes "fc_is_create (ctx_local c)" and "fc_spec (ctx_local c) = new_spec_from_common_params tn number"
    and "rd_ok rd" and "rd_deref rd = (Ok d :: bytes vm_result)"
  shows "ctx_ret B gas rd True c =
    (if length d \<le> 49152 \<and> 400 * length d \<le> unat gas
     then (case init_code B (caller (ctx_local c)) d (ctx_state c) of
        (Ok _, t) \<Rightarrow> (Ok (gas - of_nat (400 * length d)), c\<lparr>ctx_state := t\<rparr>)
      | (Err e, t) \<Rightarrow> (Err (StateDbError e), c\<lparr>ctx_state := t\<rparr>)
      | (Panic, t) \<Rightarrow> (Panic, c\<lparr>ctx_state := t\<rparr>))
     else (Err OutOfGas, c))"
proof -
  let ?n = "length d"
  have d: "?n < 2 ^ 63" using assms(3,4) by (auto simp: rd_deref_Ok rd_ok_def)
  have n: "unat (of_nat ?n :: u256) = ?n" by (rule unat_of_nat_small) (use d in simp)
  have m: "unat (of_nat (400 * ?n) :: u256) = 400 * ?n" by (rule unat_of_nat_small) (use d in simp)
  have cost: "u_mul (of_nat ?n :: u256) (ucast (400 :: usize)) = (Ok (of_nat (400 * ?n)) :: u256 vm_result)"
    using d by (simp add: u_mul_def n mult.commute)
  have sp: "create_data_gas (fc_spec (ctx_local c)) = 200" "create_data_limit (fc_spec (ctx_local c)) = 49152"
    "evm_gas_ratio (fc_spec (ctx_local c)) = 2" "exceptional_failed_code_deposit (fc_spec (ctx_local c))"
    by (simp_all add: assms(2) new_spec_from_common_params_def genesis_spec_def)
  have byte: "u_mul (200 :: usize) 2 = (Ok 400 :: usize vm_result)" by (simp add: u_mul_def)
  define k :: u256 where "k = of_nat (400 * ?n)"
  have less: "gas < k \<longleftrightarrow> unat gas < 400 * ?n" by (simp add: word_less_nat_alt m k_def del: of_nat_mult)
  have sp2: "fc_space (ctx_local c) = Ethereum" by (cases "fc_space (ctx_local c)")
  have "ctx_ret B gas rd True c =
     (if gas < k \<or> 49152 < ?n then (Err OutOfGas, c)
      else ethen (on_state (into_vm (init_code B (caller (ctx_local c)) d))) (elift (u_sub gas k)) c)"
    using assms(1,4) cost unfolding k_def [symmetric]
    by (simp add: ctx_ret_def local_get_def eff_simps sp sp2 byte Let_def)
  then show ?thesis
    unfolding k_def [symmetric]
    by (cases "init_code B (caller (ctx_local c)) d (ctx_state c)"; cases "fst (init_code B (caller (ctx_local c)) d (ctx_state c))")
      (auto simp: less not_less not_le eff_simps on_state_def into_vm_def u_sub_def)
qed

theorem code_deposit_witness:
  "fst (ctx_ret ref_backend 1000 \<lparr>rd_mem = [1, 2, 3, 4, 5], rd_offset = 1, rd_size = 3\<rparr> True (ref_context True False)) = Err OutOfGas"
proof -
  have "rd_deref \<lparr>rd_mem = [1, 2, 3, 4, 5], rd_offset = 1, rd_size = 3\<rparr> = (Ok [2, 3, 4] :: bytes vm_result)"
    by (simp add: rd_deref_def slice_def)
  then show ?thesis
    using code_deposit [of "ref_context True False" ref_transitions 7 "\<lparr>rd_mem = [1, 2, 3, 4, 5], rd_offset = 1, rd_size = 3\<rparr>"
      "[2, 3, 4]" ref_backend 1000] by (simp add: ref_spec_def rd_ok_def)
qed

end
