(* ===== verification/Frame.thy ===== *)
theory Frame
  imports Call_Context Interpreter
begin

text \<open>
  The frames of a call or create (src/call_create_frame/frame.rs, result.rs, executive.rs,
  src/evm/factory.rs and the trait \<open>Finalize\<close> of src/evm/evm.rs): how a frame is set up, run,
  resumed and settled.  A frame runs on the state, the call stack, the observer and the shared
  cache of the machine.
\<close>

section \<open>Effects that may run forever\<close>

text \<open>An interpreter loop may diverge; \<open>None\<close> is a run that does not return.\<close>

type_synonym ('s, 'e, 'a) prog = "'s \<Rightarrow> (('e, 'a) res \<times> 's) option"

definition total :: "('s, 'e, 'a) eff \<Rightarrow> ('s, 'e, 'a) prog" where
  "total m = (\<lambda>s. Some (m s))"

definition pbind :: "('s, 'e, 'a) prog \<Rightarrow> ('a \<Rightarrow> ('s, 'e, 'b) prog) \<Rightarrow> ('s, 'e, 'b) prog" where
  "pbind m f = (\<lambda>s. case m s of
     None \<Rightarrow> None
   | Some (Ok a, s') \<Rightarrow> f a s'
   | Some (Err e, s') \<Rightarrow> Some (Err e, s')
   | Some (Panic, s') \<Rightarrow> Some (Panic, s'))"

text \<open>An error as a value, for results that are inspected and not propagated.\<close>

definition attempt :: "('s, 'e, 'a) eff \<Rightarrow> ('s, 'f, ('e, 'a) res) eff" where
  "attempt m = (\<lambda>s. case m s of (Panic, s') \<Rightarrow> (Panic, s') | (r, s') \<Rightarrow> (Ok r, s'))"

section \<open>Data\<close>

record ('d, 'l) frame_env =
  fe_state :: "'d state"
  fe_callstack :: frame_stack_info
  fe_observer :: "observation list"
  fe_cache :: "'l memory_lru_cache"

text \<open>Return points: a suspended interpreter, or what an internal contract has left.\<close>

datatype 'r resume = ResumeUsize "usize interp" | ResumeU256 "u256 interp" | ResumeInternal 'r

datatype ('d, 'r) frame_kind =
    KTransfer
  | KCallBuiltin builtin
  | KCallInternalContract "('d, 'r) internal_contract"
  | KExecCall
  | KExecCreate

datatype 'r frame_status =
    Input action_params
  | Running
  | StatusResumeCall "'r resume"
  | StatusResumeCreate "'r resume"
  | StatusDone

record ('d, 'r) frame =
  cf_context :: frame_context
  cf_status :: "'r frame_status"
  cf_create_address :: "address option"
  cf_kind :: "('d, 'r) frame_kind"

text \<open>What is executed in a frame, and what comes out of it.\<close>

datatype ('d, 'r) executable =
    NoopExec u256
  | BuiltinExec builtin action_params
  | InternalContractExec "('d, 'r) internal_contract" action_params
  | InterpreterUsize "usize interp"
  | InterpreterU256 "u256 interp"
  | ResumedInternal 'r "message_call_result + contract_create_result"

datatype 'r exec_output =
    ExecReturn "gas_left vm_result"
  | ExecTrap trap_kind "'r resume"

datatype ('d, 'r) frame_trap_result =
    FrameReturns "frame_return vm_result"
  | FrameTraps trap_kind "('d, 'r) frame"

section \<open>Results\<close>

definition frame_return_new :: "finalization_result \<Rightarrow> address option \<Rightarrow> substate option \<Rightarrow> frame_return" where
  "frame_return_new r create_address ss = \<lparr>fin_space = fin_space r, fin_gas_left = fin_gas_left r,
     fin_apply_state = fin_apply_state r, fin_return_data = fin_return_data r,
     fr_create_address = create_address, fr_substate = ss\<rparr>"

definition into_finalization_result :: "frame_return \<Rightarrow> finalization_result" where
  "into_finalization_result r = \<lparr>fin_space = fin_space r, fin_gas_left = fin_gas_left r,
     fin_apply_state = fin_apply_state r, fin_return_data = fin_return_data r\<rparr>"

text \<open>The substate moves out of the result into the parent.\<close>

definition accrue_substate :: "substate \<Rightarrow> frame_return vm_result \<Rightarrow> substate \<times> frame_return vm_result" where
  "accrue_substate parent result = (case result of
     Ok fr \<Rightarrow> (case fr_substate fr of
         Some ss \<Rightarrow> (accrue ss parent, Ok (fr\<lparr>fr_substate := None\<rparr>))
       | None \<Rightarrow> (parent, result))
   | _ \<Rightarrow> (parent, result))"

definition into_message_call_result :: "frame_return vm_result \<Rightarrow> ('e, message_call_result) res" where
  "into_message_call_result result = (case result of
     Ok fr \<Rightarrow> Ok (if fin_apply_state fr then CallSuccess (fin_gas_left fr) (fin_return_data fr)
                  else CallReverted (fin_gas_left fr) (fin_return_data fr))
   | Err e \<Rightarrow> Ok (CallFailed e)
   | Panic \<Rightarrow> Panic)"

definition into_contract_create_result :: "frame_return vm_result \<Rightarrow> ('e, contract_create_result) res" where
  "into_contract_create_result result = (case result of
     Ok fr \<Rightarrow> if fin_apply_state fr then (case fr_create_address fr of
           Some a \<Rightarrow> Ok (Created (with_space a (fin_space fr)) (fin_gas_left fr))
         | None \<Rightarrow> Panic)
       else Ok (CreateReverted (fin_gas_left fr) (fin_return_data fr))
   | Err e \<Rightarrow> Ok (CreateFailed e)
   | Panic \<Rightarrow> Panic)"

text \<open>\<open>Finalize for Result<GasLeft>\<close>, on the context of the frame.\<close>

definition finalize :: "'d backend \<Rightarrow> gas_left vm_result \<Rightarrow> ('d exec_context, vm_error, finalization_result) eff" where
  "finalize B result = ebind (local_get fc_space) (\<lambda>sc. case result of
     Ok (Known gas_left) \<Rightarrow> eret \<lparr>fin_space = sc, fin_gas_left = gas_left, fin_apply_state = True, fin_return_data = rd_empty\<rparr>
   | Ok (NeedsReturn gas_left d apply_state) \<Rightarrow>
       ebind (ctx_ret B gas_left d apply_state) (\<lambda>gas_left.
       eret \<lparr>fin_space = sc, fin_gas_left = gas_left, fin_apply_state = apply_state, fin_return_data = d\<rparr>)
   | Err e \<Rightarrow> efail e
   | Panic \<Rightarrow> epanic)"

section \<open>Setting up frames\<close>

definition frame_context_new ::
  "space \<Rightarrow> env \<Rightarrow> spec \<Rightarrow> usize \<Rightarrow> origin_info \<Rightarrow> substate \<Rightarrow> bool \<Rightarrow> bool \<Rightarrow> frame_context" where
  "frame_context_new sc e sp depth origin ss is_create static = \<lparr>fc_space = sc, fc_env = e, fc_depth = depth,
     fc_is_create = is_create, fc_origin = origin, fc_substate = ss, fc_spec = sp, fc_static_flag = static\<rparr>"

definition new_call_raw ::
  "('d, 'r) machine \<Rightarrow> action_params \<Rightarrow> env \<Rightarrow> spec \<Rightarrow> usize \<Rightarrow> bool \<Rightarrow> ('d, 'r) frame" where
  "new_call_raw M params e sp depth parent_static_flag =
     (let static = (parent_static_flag \<or> ap_call_type params = StaticCall);
          code_address = with_space (ap_code_address params) (ap_space params);
          kind = (case machine_builtin M code_address (env_number e) of
              Some b \<Rightarrow> KCallBuiltin b
            | None \<Rightarrow> (case contract M code_address sp of
                Some ic \<Rightarrow> KCallInternalContract ic
              | None \<Rightarrow> if ap_code params \<noteq> None then KExecCall else KTransfer))
      in \<lparr>cf_context = frame_context_new (ap_space params) e sp depth (origin_info_from params) substate_new False static,
          cf_status = Input params, cf_create_address = None, cf_kind = kind\<rparr>)"

definition new_create_raw :: "action_params \<Rightarrow> env \<Rightarrow> spec \<Rightarrow> usize \<Rightarrow> bool \<Rightarrow> ('d, 'r) frame" where
  "new_create_raw params e sp depth static =
     \<lparr>cf_context = frame_context_new (ap_space params) e sp depth (origin_info_from params) substate_new True static,
      cf_status = Input params, cf_create_address = Some (ap_code_address params), cf_kind = KExecCreate\<rparr>"

text \<open>The callee for a trap, with the frame that waits for it.\<close>

definition from_trap_error ::
  "('d, 'r) machine \<Rightarrow> trap_kind \<Rightarrow> ('d, 'r) frame \<Rightarrow> ('e, ('d, 'r) frame \<times> ('d, 'r) frame) res" where
  "from_trap_error M t parent =
     (let l = cf_context parent in
      rbind (u_add (fc_depth l) 1) (\<lambda>depth. case t of
        TrapCall params \<Rightarrow> Ok (new_call_raw M params (fc_env l) (fc_spec l) depth (fc_static_flag l), parent)
      | TrapCreate params \<Rightarrow> Ok (new_create_raw params (fc_env l) (fc_spec l) depth (fc_static_flag l), parent)))"

section \<open>Executables\<close>

text \<open>\<open>Factory::create\<close>: the gas decides on the width of the gas counters.\<close>

definition factory_create :: "action_params \<Rightarrow> (db_error, ('d, 'r) executable) res" where
  "factory_create params =
     (if can_fit_in_usize (ap_gas params)
      then (case interpreter_new params of Ok v \<Rightarrow> Ok (InterpreterUsize v) | _ \<Rightarrow> Panic)
      else (case interpreter_new params of Ok v \<Rightarrow> Ok (InterpreterU256 v) | _ \<Rightarrow> Panic))"

definition builtin_exec :: "builtin \<Rightarrow> action_params \<Rightarrow> gas_left vm_result" where
  "builtin_exec b params =
     (let d = (case ap_data params of Some d \<Rightarrow> d | None \<Rightarrow> []) in
      rbind (bi_cost b d) (\<lambda>cost.
      if cost \<le> ap_gas params then
        rbind (bi_execute b d) (\<lambda>out. Ok (NeedsReturn (ap_gas params - cost) (rd_new out 0 (length out)) True))
      else Err OutOfGas))"

text \<open>Running an interpreter, with the return point it leaves when it traps.\<close>

definition run_interpreter ::
  "'l externals \<Rightarrow> 'd backend \<Rightarrow> ('d, 'r) machine \<Rightarrow> ('g::len word interp \<Rightarrow> 'r resume) \<Rightarrow> 'g word interp \<Rightarrow>
   ('d exec_context \<times> 'l memory_lru_cache, db_error, 'r exec_output) prog" where
  "run_interpreter X B M k v = (\<lambda>(c, l). case exec X (context_ops B M) \<lparr>vm = v, shared = l, ctx = c\<rparr> of
     None \<Rightarrow> None
   | Some (r, s') \<Rightarrow> Some (case r of
        Ok (Return g) \<Rightarrow> Ok (ExecReturn g)
      | Ok (SubCallCreate t v') \<Rightarrow> Ok (ExecTrap t (k v'))
      | Err e \<Rightarrow> Ok (ExecReturn (Err e))
      | Panic \<Rightarrow> Panic, ctx s', shared s'))"

definition exec_executable ::
  "'l externals \<Rightarrow> 'd backend \<Rightarrow> ('d, 'r) machine \<Rightarrow> ('d, 'r) executable \<Rightarrow>
   ('d exec_context \<times> 'l memory_lru_cache, db_error, 'r exec_output) prog" where
  "exec_executable X B M e = (case e of
     NoopExec gas \<Rightarrow> total (eret (ExecReturn (Ok (Known gas))))
   | BuiltinExec b params \<Rightarrow> total (case builtin_exec b params of Panic \<Rightarrow> epanic | r \<Rightarrow> eret (ExecReturn r))
   | InternalContractExec ic params \<Rightarrow>
       if ap_call_type params \<noteq> Call \<and> ap_call_type params \<noteq> StaticCall
       then total (eret (ExecReturn (Err (InternalContract ''Incorrect call type.''))))
       else total (\<lambda>(c, l). case ic_execute ic params c of
            (Ok (Inl g), c') \<Rightarrow> (Ok (ExecReturn (Ok g)), (c', l))
          | (Ok (Inr (t, r)), c') \<Rightarrow> (Ok (ExecTrap t (ResumeInternal r)), (c', l))
          | (Err e, c') \<Rightarrow> (Ok (ExecReturn (Err e)), (c', l))
          | (Panic, c') \<Rightarrow> (Panic, (c', l)))
   | InterpreterUsize v \<Rightarrow> run_interpreter X B M ResumeUsize v
   | InterpreterU256 v \<Rightarrow> run_interpreter X B M ResumeU256 v
   | ResumedInternal r res \<Rightarrow> total (\<lambda>(c, l). case mc_resume M r res c of
        (Ok g, c') \<Rightarrow> (Ok (ExecReturn (Ok g)), (c', l))
      | (Err e, c') \<Rightarrow> (Ok (ExecReturn (Err e)), (c', l))
      | (Panic, c') \<Rightarrow> (Panic, (c', l))))"

definition resume_after_call :: "'r resume \<Rightarrow> message_call_result \<Rightarrow> (db_error, ('d, 'r) executable) res" where
  "resume_after_call k result = (case k of
     ResumeUsize v \<Rightarrow> (case resume_call v result of Ok v' \<Rightarrow> Ok (InterpreterUsize v') | _ \<Rightarrow> Panic)
   | ResumeU256 v \<Rightarrow> (case resume_call v result of Ok v' \<Rightarrow> Ok (InterpreterU256 v') | _ \<Rightarrow> Panic)
   | ResumeInternal r \<Rightarrow> Ok (ResumedInternal r (Inl result)))"

definition resume_after_create :: "'r resume \<Rightarrow> contract_create_result \<Rightarrow> (db_error, ('d, 'r) executable) res" where
  "resume_after_create k result = (case k of
     ResumeUsize v \<Rightarrow> (case resume_create v result of Ok v' \<Rightarrow> Ok (InterpreterUsize v') | _ \<Rightarrow> Panic)
   | ResumeU256 v \<Rightarrow> (case resume_create v result of Ok v' \<Rightarrow> Ok (InterpreterU256 v') | _ \<Rightarrow> Panic)
   | ResumeInternal r \<Rightarrow> Ok (ResumedInternal r (Inr result)))"

section \<open>The context of a frame\<close>

definition activate :: "frame_context \<Rightarrow> ('d, 'l) frame_env \<Rightarrow> 'd exec_context" where
  "activate l s = \<lparr>ctx_state = fe_state s, ctx_callstack = fe_callstack s, ctx_local = l, ctx_observer = fe_observer s\<rparr>"

definition deactivate :: "'d exec_context \<Rightarrow> ('d, 'l) frame_env \<Rightarrow> ('d, 'l) frame_env" where
  "deactivate c s = s\<lparr>fe_state := ctx_state c, fe_callstack := ctx_callstack c, fe_observer := ctx_observer c\<rparr>"

definition in_context ::
  "('d exec_context, 'e, 'a) eff \<Rightarrow> ('d, 'r) frame \<Rightarrow> (('d, 'l) frame_env, 'e, 'a \<times> ('d, 'r) frame) eff" where
  "in_context m f = (\<lambda>s. case m (activate (cf_context f) s) of
     (r, c) \<Rightarrow> (rbind r (\<lambda>a. Ok (a, f\<lparr>cf_context := ctx_local c\<rparr>)), deactivate c s))"

definition run_in_context ::
  "'l externals \<Rightarrow> 'd backend \<Rightarrow> ('d, 'r) machine \<Rightarrow> ('d, 'r) executable \<Rightarrow> ('d, 'r) frame \<Rightarrow>
   (('d, 'l) frame_env, db_error, 'r exec_output \<times> ('d, 'r) frame) prog" where
  "run_in_context X B M e f = (\<lambda>s. case exec_executable X B M e (activate (cf_context f) s, fe_cache s) of
     None \<Rightarrow> None
   | Some (r, (c, l)) \<Rightarrow> Some (rbind r (\<lambda>out. Ok (out, f\<lparr>cf_context := ctx_local c\<rparr>)), (deactivate c s)\<lparr>fe_cache := l\<rparr>))"

definition fe_observe :: "observation \<Rightarrow> (('d, 'l) frame_env, 'e, unit) eff" where
  "fe_observe x = emodify (\<lambda>s. s\<lparr>fe_observer := fe_observer s @ [x]\<rparr>)"

definition on_fe_state :: "('d state, 'e, 'a) eff \<Rightarrow> (('d, 'l) frame_env, 'e, 'a) eff" where
  "on_fe_state = ezoom fe_state (\<lambda>t s. s\<lparr>fe_state := t\<rparr>)"

definition on_callstack :: "(frame_stack_info, 'e, 'a) eff \<Rightarrow> (('d, 'l) frame_env, 'e, 'a) eff" where
  "on_callstack = ezoom fe_callstack (\<lambda>t s. s\<lparr>fe_callstack := t\<rparr>)"

section \<open>Running frames\<close>

definition check_static_flag :: "action_params \<Rightarrow> bool \<Rightarrow> bool \<Rightarrow> unit vm_result" where
  "check_static_flag params static_flag is_create =
     (if is_create then (if static_flag then Err MutableCallInStaticContext else Ok ())
      else if static_flag \<and> (ap_call_type params = StaticCall \<or> ap_call_type params = Call) \<and>
              0 < action_value_value (ap_value params)
           then Err MutableCallInStaticContext
           else Ok ())"

definition transfer_exec_balance :: "'d backend \<Rightarrow> action_params \<Rightarrow> u256 \<Rightarrow> ('d exec_context, db_error, unit) eff" where
  "transfer_exec_balance B params start_nonce =
     (let sender = with_space (ap_sender params) (ap_space params);
          receiver = with_space (ap_address params) (ap_space params)
      in case ap_value params of
         Transfer val \<Rightarrow> on_state_mode (transfer_balance B sender receiver val start_nonce)
       | Apparent _ \<Rightarrow> eret ())"

definition STORAGE_LAYOUT_REGULAR_V0 :: storage_layout where
  "STORAGE_LAYOUT_REGULAR_V0 = Regular 0"

definition transfer_exec_balance_and_init_contract ::
  "'d backend \<Rightarrow> action_params \<Rightarrow> storage_layout option \<Rightarrow> ('d exec_context, db_error, unit) eff" where
  "transfer_exec_balance_and_init_contract B params layout =
     (let sender = with_space (ap_sender params) (ap_space params);
          receiver = with_space (ap_address params) (ap_space params)
      in case ap_value params of
         Transfer val \<Rightarrow>
           ebind (on_state (state_balance B receiver)) (\<lambda>prev_balance.
           ethen (on_state_mode (sub_balance B sender val))
           (on_state (new_contract B receiver (saturating_add val prev_balance) 1 layout)))
       | Apparent _ \<Rightarrow> epanic)"

definition settle :: "bool \<Rightarrow> ('d, 'r) frame \<Rightarrow> (('d, 'l) frame_env, 'e, substate option) eff" where
  "settle apply_state f =
     (if apply_state then
        ethen (on_fe_state (emodify discard_checkpoint))
        (eret (Some (case cf_create_address f of
            Some a \<Rightarrow> (fc_substate (cf_context f))\<lparr>ss_contracts_created :=
              ss_contracts_created (fc_substate (cf_context f)) @ [with_space a (fc_space (cf_context f))]\<rparr>
          | None \<Rightarrow> fc_substate (cf_context f))))
      else ethen (on_fe_state revert_to_checkpoint) (eret None))"

definition process_return ::
  "'d backend \<Rightarrow> gas_left vm_result \<Rightarrow> ('d, 'r) frame \<Rightarrow> (('d, 'l) frame_env, db_error, frame_return vm_result) eff" where
  "process_return B result f =
     ebind (in_context (attempt (finalize B result)) f) (\<lambda>(finalized_result, f).
     ebind (elift (separate_out_db_error finalized_result)) (\<lambda>finalized_result.
     ebind (settle (case finalized_result of Ok r \<Rightarrow> fin_apply_state r | _ \<Rightarrow> False) f) (\<lambda>maybe_substate.
     ebind (eret (rbind finalized_result (\<lambda>r. Ok (frame_return_new r (cf_create_address f) maybe_substate)))) (\<lambda>executive_result.
     ethen (fe_observe (if fc_is_create (cf_context f) then ObsCreateResult executive_result else ObsCallResult executive_result))
     (ethen (on_callstack fsi_pop) (eret executive_result))))))"

definition process_trap :: "trap_kind \<Rightarrow> 'r resume \<Rightarrow> ('d, 'r) frame \<Rightarrow> ('d, 'r) frame_trap_result" where
  "process_trap t k f = (case t of
     TrapCall p \<Rightarrow> FrameTraps t (f\<lparr>cf_status := StatusResumeCall k\<rparr>)
   | TrapCreate p \<Rightarrow> FrameTraps t (f\<lparr>cf_status := StatusResumeCreate k\<rparr>))"

definition process_output ::
  "'d backend \<Rightarrow> 'r exec_output \<Rightarrow> ('d, 'r) frame \<Rightarrow> (('d, 'l) frame_env, db_error, ('d, 'r) frame_trap_result) eff" where
  "process_output B out f = (case out of
     ExecReturn result \<Rightarrow> ebind (process_return B result f) (\<lambda>r. eret (FrameReturns r))
   | ExecTrap t k \<Rightarrow> eret (process_trap t k f))"

text \<open>Before the code runs: checks, the notification, the checkpoint, the call stack and the value.\<close>

definition frame_prepare ::
  "'d backend \<Rightarrow> ('d, 'r) frame \<Rightarrow> (('d, 'l) frame_env, db_error, action_params \<times> ('d, 'r) frame) eff" where
  "frame_prepare B f = (case cf_status f of
     Input params \<Rightarrow>
       (let is_create = (cf_create_address f \<noteq> None); l = cf_context f in
        if is_create \<noteq> fc_is_create l then epanic
        else if check_static_flag params (fc_static_flag l) is_create \<noteq> Ok () then epanic
        else
          ethen (fe_observe (if is_create then ObsCreate params else ObsCall params))
          (ethen (on_fe_state (emodify (\<lambda>s. snd (checkpoint s))))
          (ethen (on_callstack (emodify (fsi_push (caller l) is_create)))
          (ebind (in_context (if is_create
             then transfer_exec_balance_and_init_contract B params (Some STORAGE_LAYOUT_REGULAR_V0)
             else transfer_exec_balance B params (account_start_nonce (fc_spec l))) (f\<lparr>cf_status := Running\<rparr>)) (\<lambda>(_, f).
          eret (params, f))))))
   | _ \<Rightarrow> epanic)"

definition frame_executable :: "action_params \<Rightarrow> ('d, 'r) frame \<Rightarrow> (db_error, ('d, 'r) executable) res" where
  "frame_executable params f = (case cf_kind f of
     KTransfer \<Rightarrow> Ok (NoopExec (ap_gas params))
   | KCallBuiltin b \<Rightarrow> Ok (BuiltinExec b params)
   | KCallInternalContract ic \<Rightarrow> Ok (InternalContractExec ic params)
   | KExecCall \<Rightarrow> factory_create params
   | KExecCreate \<Rightarrow> factory_create params)"

text \<open>Running an executable and processing what comes out.\<close>

definition run_frame ::
  "'l externals \<Rightarrow> 'd backend \<Rightarrow> ('d, 'r) machine \<Rightarrow> ('d, 'r) executable \<Rightarrow> ('d, 'r) frame \<Rightarrow>
   (('d, 'l) frame_env, db_error, ('d, 'r) frame_trap_result) prog" where
  "run_frame X B M e f = pbind (run_in_context X B M e f) (\<lambda>(out, f). total (process_output B out f))"

definition frame_exec ::
  "'l externals \<Rightarrow> 'd backend \<Rightarrow> ('d, 'r) machine \<Rightarrow> ('d, 'r) frame \<Rightarrow>
   (('d, 'l) frame_env, db_error, ('d, 'r) frame_trap_result) prog" where
  "frame_exec X B M f =
     pbind (total (frame_prepare B f)) (\<lambda>(params, f).
     pbind (total (elift (frame_executable params f))) (\<lambda>e.
     run_frame X B M e f))"

definition frame_resumable ::
  "('d, 'r) frame \<Rightarrow> frame_return vm_result \<Rightarrow> (db_error, ('d, 'r) executable \<times> ('d, 'r) frame) res" where
  "frame_resumable f result =
     (case accrue_substate (fc_substate (cf_context f)) result of (ss, result) \<Rightarrow>
      let f' = f\<lparr>cf_status := Running, cf_context := (cf_context f)\<lparr>fc_substate := ss\<rparr>\<rparr> in
      rbind (case cf_status f of
          StatusResumeCreate k \<Rightarrow> rbind (into_contract_create_result result) (resume_after_create k)
        | StatusResumeCall k \<Rightarrow> rbind (into_message_call_result result) (resume_after_call k)
        | _ \<Rightarrow> Panic) (\<lambda>e. Ok (e, f')))"

definition frame_resume ::
  "'l externals \<Rightarrow> 'd backend \<Rightarrow> ('d, 'r) machine \<Rightarrow> ('d, 'r) frame \<Rightarrow> frame_return vm_result \<Rightarrow>
   (('d, 'l) frame_env, db_error, ('d, 'r) frame_trap_result) prog" where
  "frame_resume X B M f result =
     pbind (total (elift (frame_resumable f result))) (\<lambda>(e, f'). run_frame X B M e f')"

end
