(* ===== verification/Frame_Laws.thy ===== *)
theory Frame_Laws
  imports Frame Context_Laws
begin

text \<open>
  What a frame does to its environment: it returns, it changes nothing below its own checkpoint,
  it hands back at most the gas it was given, and a frame that does not apply its state leaves
  the worlds as they were when it started.  Panics of the source stay possible outcomes here.
\<close>

section \<open>Total correctness of programs that may diverge\<close>

definition pwp :: "('s, 'e, 'a) prog \<Rightarrow> ('a \<Rightarrow> 's \<Rightarrow> bool) \<Rightarrow> ('e \<Rightarrow> 's \<Rightarrow> bool) \<Rightarrow> 's \<Rightarrow> bool" where
  "pwp m Q E s = (case m s of
     None \<Rightarrow> False
   | Some (Ok a, s') \<Rightarrow> Q a s'
   | Some (Err e, s') \<Rightarrow> E e s'
   | Some (Panic, s') \<Rightarrow> True)"

lemma pwp_total [wp_simps]: "pwp (total m) Q E s = wp True m Q E s"
  by (simp add: pwp_def total_def wp_def split: prod.splits res.splits)

lemma pwp_pbind [wp_simps]: "pwp (pbind m f) Q E s = pwp m (\<lambda>a. pwp (f a) Q E) E s"
  by (simp add: pwp_def pbind_def split: option.splits prod.splits res.splits)

lemma pwp_mono: "pwp m Q E s \<Longrightarrow> (\<And>a t. Q a t \<Longrightarrow> Q' a t) \<Longrightarrow> (\<And>e t. E e t \<Longrightarrow> E' e t) \<Longrightarrow> pwp m Q' E' s"
  by (auto simp: pwp_def split: option.splits prod.splits res.splits)

lemma pwp_returns: "pwp m Q E s \<Longrightarrow> \<exists>r t. m s = Some (r, t)"
  by (auto simp: pwp_def split: option.splits)

lemma pwp_OkD: "pwp m Q E s \<Longrightarrow> m s = Some (Ok a, t) \<Longrightarrow> Q a t"
  by (simp add: pwp_def)

lemma wp_attempt [wp_simps]:
  "wp p (attempt m) Q E s = wp p m (\<lambda>a. Q (Ok a)) (\<lambda>e. Q (Err e)) s"
  by (simp add: wp_def attempt_def split: prod.splits res.splits)

lemma wp_in_context [wp_simps]:
  "wp p (in_context m f) Q E s = wp p m (\<lambda>a c. Q (a, f\<lparr>cf_context := ctx_local c\<rparr>) (deactivate c s))
     (\<lambda>e c. E e (deactivate c s)) (activate (cf_context f) s)"
  by (simp add: wp_def in_context_def split: prod.splits res.splits)

lemma wp_on_fe [wp_simps]:
  "wp p (on_fe_state m) Q E s = wp p m (\<lambda>a t. Q a (s\<lparr>fe_state := t\<rparr>)) (\<lambda>e t. E e (s\<lparr>fe_state := t\<rparr>)) (fe_state s)"
  "wp p (on_callstack n) Q' E' s = wp p n (\<lambda>a t. Q' a (s\<lparr>fe_callstack := t\<rparr>)) (\<lambda>e t. E' e (s\<lparr>fe_callstack := t\<rparr>)) (fe_callstack s)"
  by (simp_all add: on_fe_state_def on_callstack_def wp_ezoom)

lemma wp_fe_observe [wp_simps]: "wp p (fe_observe x) Q E s = Q () (s\<lparr>fe_observer := fe_observer s @ [x]\<rparr>)"
  by (simp add: fe_observe_def wp_simps)

lemma wp_all: "(\<And>r t. m s = (r, t) \<Longrightarrow> r \<noteq> Panic \<Longrightarrow> case r of Ok a \<Rightarrow> Q a t | Err e \<Rightarrow> E e t | Panic \<Rightarrow> True) \<Longrightarrow> wp True m Q E s"
  by (cases "m s"; cases "fst (m s)") (force simp: wp_def)+

section \<open>Effects of a context\<close>

lemma ctx_inv_activate:
  "ctx_inv B (activate l s) \<longleftrightarrow> state_ok B (fe_state s) \<and> spec_ok (fc_spec l) \<and> contract_start_nonce (fc_spec l) \<noteq> - 1"
  by (simp add: ctx_inv_def activate_def)

lemma fixed_part_field:
  assumes "fixed_part l' = fixed_part l"
  shows "fc_spec l' = fc_spec l" "fc_is_create l' = fc_is_create l" "fc_static_flag l' = fc_static_flag l" "fc_space l' = fc_space l"
    "fc_depth l' = fc_depth l" "fc_env l' = fc_env l" "fc_origin l' = fc_origin l"
  using assms by (cases l; cases l'; simp add: fixed_part_def)+

lemma evolves_inv: "ctx_inv B c \<Longrightarrow> evolves B c c' \<Longrightarrow> ctx_inv B c'"
  by (auto simp: evolves_def top_only_def ctx_inv_def dest: fixed_part_field)

lemma within_evolves: "within B c c' \<Longrightarrow> evolves B c c'"
  by (simp add: within_def)

lemma wp_on_state_top:
  assumes "\<And>r t. m (ctx_state c) = (r, t) \<Longrightarrow> r \<noteq> Panic \<Longrightarrow> top_only B (ctx_state c) t"
  shows "wp True (on_state m) (\<lambda>_ c'. evolves B c c') (\<lambda>_ c'. evolves B c c') c"
  using assms by (intro wp_all) (auto simp: on_state_def ezoom_def evolves_state split: prod.splits res.splits)

lemma wp_on_state_mode_top:
  assumes "\<And>mode r t mode'. m (ctx_state c, mode) = (r, (t, mode')) \<Longrightarrow> r \<noteq> Panic \<Longrightarrow> top_only B (ctx_state c) t"
  shows "wp True (on_state_mode m) (\<lambda>_ c'. evolves B c c') (\<lambda>_ c'. evolves B c c') c"
  using assms by (intro wp_all) (auto simp: on_state_mode_def evolves_def fixed_part_def split: prod.splits res.splits)

lemma sub_balance_top:
  assumes "state_ok B s" "sub_balance B a v (s, mode) = (r, (t, mode'))" "r \<noteq> Panic"
  shows "top_only B s t"
  using sub_balance_ok [OF assms(1,2)] assms(3) by simp

lemma transfer_balance_top:
  assumes s: "state_ok B s" and run: "transfer_balance B src dst v n (s, mode) = (r, (t, mode'))" and ok: "r \<noteq> Panic"
  shows "top_only B s t"
proof -
  obtain q u m where q: "sub_balance B src v (s, mode) = (q, (u, m))" by (metis prod.exhaust)
  have u: "q \<noteq> Panic" using run q ok by (auto simp: transfer_balance_def eff_simps split: res.splits)
  then have top: "top_only B s u" by (rule sub_balance_top [OF s q])
  then have "state_ok B u" by (simp add: top_only_def)
  show ?thesis
  proof (cases q)
    case (Ok x)
    then have "add_balance B dst v n (u, m) = (r, (t, mode'))" using run q by (simp add: transfer_balance_def eff_simps)
    with add_balance_ok [OF \<open>state_ok B u\<close> this] ok show ?thesis using top_only_trans [OF top] by auto
  qed (use run q top u in \<open>auto simp: transfer_balance_def eff_simps\<close>)
qed

lemma new_contract_top:
  assumes s: "state_ok B s" and r: "new_contract B a bal n l s = (r, t)"
  shows "top_only B s t"
  using new_contract_spec [OF s r] top_view_no_panic [OF s, of a]
  by (auto split: res.splits intro: top_only_updates top_only_same)

lemma init_code_top:
  assumes s: "state_ok B s" and r: "init_code B a d s = (r, t)" and d: "length d < 2 ^ 63" and ok: "r \<noteq> Panic"
  shows "top_only B s t"
proof (rule top_only_step [OF s])
  show "state_step B (OpInitCode a d) s = (rmap (\<lambda>_. RUnit) r, t)" using r by (auto simp: state_step_def emap_apply)
qed (use d ok in \<open>auto simp: op_ok_def plain_def\<close>)

lemma wp_evolves_bind:
  assumes "wp True m (\<lambda>_ c'. evolves B c c') (\<lambda>_ c'. evolves B c c') c"
    and "\<And>a c'. evolves B c c' \<Longrightarrow> wp True (f a) (\<lambda>_ c''. evolves B c' c'') (\<lambda>_ c''. evolves B c' c'') c'"
  shows "wp True (ebind m f) (\<lambda>_ c'. evolves B c c') (\<lambda>_ c'. evolves B c c') c"
  unfolding wp_ebind
  by (rule wp_mono [OF assms(1)]) (auto intro: wp_mono [OF assms(2)] evolves_trans)

lemma transfer_exec_balance_wp:
  assumes "state_ok B (ctx_state c)"
  shows "wp True (transfer_exec_balance B params n) (\<lambda>_ c'. evolves B c c') (\<lambda>_ c'. evolves B c c') c"
  using assms
  by (auto simp: transfer_exec_balance_def wp_simps evolves_refl Let_def split: action_value.splits
      intro!: wp_on_state_mode_top transfer_balance_top)

lemma transfer_exec_balance_and_init_contract_wp:
  assumes c: "state_ok B (ctx_state c)"
  shows "wp True (transfer_exec_balance_and_init_contract B params l) (\<lambda>_ c'. evolves B c c') (\<lambda>_ c'. evolves B c c') c"
proof (cases "ap_value params")
  case (Transfer v)
  let ?s = "with_space (ap_sender params) (ap_space params)" and ?r = "with_space (ap_address params) (ap_space params)"
  have bal: "wp True (on_state (state_balance B ?r)) (\<lambda>_ c'. evolves B c c') (\<lambda>_ c'. evolves B c c') c"
    using c quiet_reads(1) [of B ?r] by (intro wp_on_state_top) (auto simp: quiet_def intro: top_only_same)
  have sub: "wp True (on_state_mode (sub_balance B ?s v)) (\<lambda>_ c''. evolves B c' c'') (\<lambda>_ c''. evolves B c' c'') c'"
    if "evolves B c c'" for c'
    using that by (intro wp_on_state_mode_top) (auto simp: evolves_def top_only_def [of B "ctx_state c"] intro: sub_balance_top)
  have new: "wp True (on_state (new_contract B ?r b n l)) (\<lambda>_ c''. evolves B c' c'') (\<lambda>_ c''. evolves B c' c'') c'"
    if "evolves B d c'" for b n c' d
    using that by (intro wp_on_state_top) (auto simp: evolves_def top_only_def [of B "ctx_state d"] intro: new_contract_top)
  show ?thesis
    unfolding transfer_exec_balance_and_init_contract_def Let_def Transfer action_value.case
    by (intro wp_evolves_bind bal sub new) assumption+
qed (simp_all add: transfer_exec_balance_and_init_contract_def wp_simps)

text \<open>Finishing a frame's code: a create pays for its code, everything else keeps its gas.\<close>

lemma ctx_ret_wp:
  assumes c: "state_ok B (ctx_state c)" and rd: "rd_ok rd"
  shows "wp True (ctx_ret B gas rd b) (\<lambda>g c'. evolves B c c' \<and> unat g \<le> unat gas) (\<lambda>_ c'. evolves B c c') c"
proof -
  obtain d where d: "rd_deref rd = (Ok d :: bytes vm_result)" "length d < 2 ^ 63"
    using rd by (auto simp: rd_deref_Ok rd_ok_def)
  have init: "wp True (on_state (into_vm (init_code B a d))) (\<lambda>_ c'. evolves B c c') (\<lambda>_ c'. evolves B c c') c" for a
    using c d(2) by (intro wp_on_state_top) (auto simp: into_vm_apply intro: init_code_top)
  have pay: "wp True (elift (u_sub gas k)) (\<lambda>g c'. evolves B c c' \<and> unat g \<le> unat gas) (\<lambda>_ c'. evolves B c c') c'"
    if "evolves B c c'" for c' k
    using that by (auto simp: wp_simps u_sub_def unat_sub_le not_less word_le_nat_alt split: res.splits)
  note keep = evolves_refl [OF c]
  show ?thesis
    using keep
    by (auto simp: ctx_ret_def local_get_def Let_def wp_simps d(1) split: res.splits space.splits
        intro!: wp_mono [OF init] pay)
qed

section \<open>Executables\<close>

text \<open>The gas a run hands back, and the gas of the result of a nested frame.\<close>

definition left_ok :: "nat \<Rightarrow> gas_left \<Rightarrow> bool" where
  "left_ok g r = (case r of Known h \<Rightarrow> unat h \<le> g | NeedsReturn h rd _ \<Rightarrow> unat h \<le> g \<and> rd_ok rd)"

definition answer_gas :: "message_call_result + contract_create_result \<Rightarrow> nat" where
  "answer_gas r = (case r of
     Inl (CallSuccess g _) \<Rightarrow> unat g | Inl (CallReverted g _) \<Rightarrow> unat g | Inl (CallFailed _) \<Rightarrow> 0
   | Inr (Created _ g) \<Rightarrow> unat g | Inr (CreateReverted g _) \<Rightarrow> unat g | Inr (CreateFailed _) \<Rightarrow> 0)"

definition answer_fits :: "message_call_result + contract_create_result \<Rightarrow> bool" where
  "answer_fits r = (case r of
     Inl (CallSuccess _ rd) \<Rightarrow> rd_ok rd | Inl (CallReverted _ rd) \<Rightarrow> rd_ok rd
   | Inr (CreateReverted _ rd) \<Rightarrow> rd_ok rd | _ \<Rightarrow> True)"

text \<open>
  What the trait objects of the machine promise.  A builtin returns data that fits a frame.  An
  internal contract changes the context as an instruction does, hands back at most the gas it was
  given, and keeps \<open>held\<close> of it while it waits for a nested frame, which costs something.
\<close>

definition builtin_laws :: "('d, 'r) machine \<Rightarrow> bool" where
  "builtin_laws M \<longleftrightarrow> (\<forall>a b d cost out. mc_builtins M a = Some b \<longrightarrow> length d < 2 ^ 63 \<longrightarrow> bi_cost b d = Ok cost \<longrightarrow> unat cost < 2 ^ 64 \<longrightarrow>
     bi_execute b d = Ok out \<longrightarrow> length out < 2 ^ 63)"

definition internal_laws :: "'d backend \<Rightarrow> ('d, 'r) machine \<Rightarrow> ('r \<Rightarrow> nat) \<Rightarrow> bool" where
  "internal_laws B M held \<longleftrightarrow>
     (\<forall>a ic p c. mc_internal_contracts M a = Some ic \<longrightarrow> params_fit p \<longrightarrow> ctx_inv B c \<longrightarrow>
        wp True (ic_execute ic p) (\<lambda>out c'. evolves B c c' \<and> (case out of
            Inl g \<Rightarrow> left_ok (unat (ap_gas p)) g
          | Inr (t, r) \<Rightarrow> trap_allowed (fc_static_flag (ctx_local c)) t \<and> held r + trap_gas t < unat (ap_gas p)))
          (\<lambda>_ c'. evolves B c c') c) \<and>
     (\<forall>r res c. answer_fits res \<longrightarrow> ctx_inv B c \<longrightarrow>
        wp True (mc_resume M r res) (\<lambda>g c'. evolves B c c' \<and> left_ok (held r + answer_gas res) g) (\<lambda>_ c'. evolves B c c') c)"

primrec resume_held :: "('r \<Rightarrow> nat) \<Rightarrow> 'r resume \<Rightarrow> nat" where
  "resume_held held (ResumeUsize v) = gas_now v"
| "resume_held held (ResumeU256 v) = 0"
| "resume_held held (ResumeInternal r) = held r"

text \<open>A return point that waits for the frame of a trap.\<close>

primrec waits :: "spec \<Rightarrow> trap_kind \<Rightarrow> 'r resume \<Rightarrow> bool" where
  "waits sp t (ResumeUsize v) = suspended sp t v"
| "waits sp t (ResumeU256 v) = False"
| "waits sp t (ResumeInternal r) = True"

definition exec_ready :: "('d, 'r) machine \<Rightarrow> ('r \<Rightarrow> nat) \<Rightarrow> spec \<Rightarrow> nat \<Rightarrow> ('d, 'r) executable \<Rightarrow> bool" where
  "exec_ready M held sp g e = (case e of
     NoopExec gas \<Rightarrow> unat gas \<le> g
   | BuiltinExec b p \<Rightarrow> unat (ap_gas p) \<le> g \<and> unat (ap_gas p) < 2 ^ 64 \<and> params_fit p \<and> b \<in> ran (mc_builtins M)
   | InternalContractExec ic p \<Rightarrow> unat (ap_gas p) \<le> g \<and> params_fit p \<and> ic \<in> ran (mc_internal_contracts M)
   | InterpreterUsize v \<Rightarrow> gas_total v \<le> g \<and> (interp_ok sp v \<or> it_code v = [] \<and> \<not> it_done v)
   | InterpreterU256 v \<Rightarrow> False
   | ResumedInternal r res \<Rightarrow> held r + answer_gas res \<le> g \<and> answer_fits res)"

definition out_ok :: "('r \<Rightarrow> nat) \<Rightarrow> spec \<Rightarrow> bool \<Rightarrow> nat \<Rightarrow> 'r exec_output \<Rightarrow> bool" where
  "out_ok held sp static g out = (case out of
     ExecReturn (Ok r) \<Rightarrow> left_ok g r
   | ExecReturn _ \<Rightarrow> True
   | ExecTrap t k \<Rightarrow> trap_allowed static t \<and> waits sp t k \<and> resume_held held k + trap_gas t < g)"

lemma left_ok_mono: "left_ok g r \<Longrightarrow> g \<le> h \<Longrightarrow> left_ok h r"
  by (auto simp: left_ok_def split: gas_left.splits)

lemma builtin_exec_left:
  assumes "builtin_laws M" "mc_builtins M a = Some b" "params_fit p" "unat (ap_gas p) < 2 ^ 64" "builtin_exec b p = Ok r"
  shows "left_ok (unat (ap_gas p)) r"
proof -
  let ?d = "case ap_data p of Some d \<Rightarrow> d | None \<Rightarrow> []"
  obtain cost out where out: "bi_cost b ?d = Ok cost" "bi_execute b ?d = Ok out" "cost \<le> ap_gas p"
    "r = NeedsReturn (ap_gas p - cost) (rd_new out 0 (length out)) True"
    using assms(5) unfolding builtin_exec_def Let_def by (auto simp: rbind_Ok_iff split: if_splits)
  have "length ?d < 2 ^ 63" "unat cost < 2 ^ 64" using assms(3,4) out(3) by (auto simp: params_fit_def word_le_nat_alt split: option.splits)
  then have "length out < 2 ^ 63" using assms(1,2) out(1,2) by (auto simp: builtin_laws_def)
  then show ?thesis using out(3,4) by (simp add: left_ok_def rd_ok_def rd_new_def unat_sub_le)
qed

text \<open>A machine without code returns its gas at once.\<close>

lemma exec_no_code:
  assumes "it_code (vm s) = []" "\<not> it_done (vm s)"
  shows "\<exists>r s'. exec X V s = Some (Ok (Return r), s') \<and> ctx s' = ctx s \<and> shared s' = shared s \<and>
    (\<forall>g. r = Ok g \<longrightarrow> left_ok (gas_now (vm s)) g) \<and> r \<noteq> Panic"
proof (cases "it_gasometer (vm s)")
  case None
  then show ?thesis
    using assms by (subst exec.simps) (auto simp: step_def get_vm_def upd_vm_def mark_done_def eff_simps)
next
  case (Some gm)
  then show ?thesis
    using assms by (subst exec.simps)
      (auto simp: step_def get_vm_def upd_vm_def mark_done_def eff_simps left_ok_def gas_now_def unat_as_u256)
qed

definition exec_post ::
  "'l externals \<Rightarrow> ('l \<Rightarrow> h256 \<rightharpoonup> cache_item) \<Rightarrow> 'd backend \<Rightarrow> ('r \<Rightarrow> nat) \<Rightarrow> nat \<Rightarrow> 'd exec_context \<Rightarrow>
   'r exec_output \<Rightarrow> 'd exec_context \<times> 'l memory_lru_cache \<Rightarrow> bool" where
  "exec_post X R B held g c out = (\<lambda>(c', l'). evolves B c c' \<and> cache_ok (ext_lru X) R (\<lambda>_ _. True) l' \<and>
     out_ok held (fc_spec (ctx_local c)) (fc_static_flag (ctx_local c)) g out)"

lemma run_interpreter_wp:
  fixes M :: "('d, 'r) machine"
  assumes L: "lru_laws (ext_lru X) R" and c: "ctx_inv B c" and l: "cache_ok (ext_lru X) R (\<lambda>_ _. True) l"
    and v: "gas_total v \<le> g" "interp_ok (fc_spec (ctx_local c)) v \<or> it_code v = [] \<and> \<not> it_done v"
  shows "pwp (run_interpreter X B M ResumeUsize v) (exec_post X R B held g c) (\<lambda>_ _. False) (c, l)"
proof (cases "it_code v = [] \<and> \<not> it_done v")
  case True
  have "gas_now v \<le> g" using v(1) by (simp add: gas_total_def)
  moreover obtain r s' where "exec X (context_ops B M) \<lparr>vm = v, shared = l, ctx = c\<rparr> = Some (Ok (Return r), s')" "ctx s' = c" "shared s' = l"
    "\<forall>h. r = Ok h \<longrightarrow> left_ok (gas_now v) h"
    using exec_no_code [of "\<lparr>vm = v, shared = l, ctx = c\<rparr>" X "context_ops B M"] True by auto
  ultimately show ?thesis
    using l c by (auto simp: pwp_def run_interpreter_def exec_post_def out_ok_def evolves_refl ctx_inv_def
        intro: left_ok_mono split: res.splits)
next
  case False
  let ?s = "\<lparr>vm = v, shared = l, ctx = c\<rparr>"
  have "within B c (ctx ?s) \<and> cache_ok (ext_lru X) R (\<lambda>_ _. True) (shared ?s) \<and> hash_known (\<lambda>_ _. True) (vm ?s) \<and>
      interp_ok (cx_spec (context_ops B M) (ctx ?s)) (vm ?s)" using c l v False by (auto simp: within_refl hash_known_def)
  from ctx.exec_returns [OF L, unfolded ctx.machine_ok_def, OF this]
  obtain r s' where r: "exec X (context_ops B M) ?s = Some (r, s')"
    "case r of Ok q \<Rightarrow> ctx.run_post TYPE('r) B M c X R (\<lambda>_ _. True) ?s q s' | Err e \<Rightarrow> False | Panic \<Rightarrow> set (it_code (vm ?s)) \<inter> ctx.panic_ops \<noteq> {}"
    by blast
  show ?thesis
    using r v(1)
    by (auto simp: pwp_def run_interpreter_def exec_post_def out_ok_def ctx.run_post_def ctx.abides_def within_def
        ctx.step_result_def ctx.trap_post_def left_ok_def split: res.splits exec_trap_result.splits gas_left.splits)
qed

lemma exec_executable_wp:
  fixes M :: "('d, 'r) machine"
  assumes L: "lru_laws (ext_lru X) R" and b: "builtin_laws M" and i: "internal_laws B M held"
    and c: "ctx_inv B c" and l: "cache_ok (ext_lru X) R (\<lambda>_ _. True) l"
    and e: "exec_ready M held (fc_spec (ctx_local c)) g e"
  shows "pwp (exec_executable X B M e) (exec_post X R B held g c) (\<lambda>_ _. False) (c, l)"
proof -
  have stay: "evolves B c c" using c by (simp add: evolves_refl ctx_inv_def)
  note unfold = exec_executable_def exec_ready_def exec_post_def out_ok_def wp_simps stay l
  show ?thesis
  proof (cases e)
    case (NoopExec gas)
    with e show ?thesis by (simp add: unfold left_ok_def)
  next
    case (BuiltinExec bi p)
    then obtain a where "mc_builtins M a = Some bi" "unat (ap_gas p) \<le> g" "params_fit p" "unat (ap_gas p) < 2 ^ 64"
      using e by (auto simp: unfold ran_def)
    then have "left_ok g r" if "builtin_exec bi p = Ok r" for r using builtin_exec_left [OF b _ _ _ that] by (auto intro: left_ok_mono)
    with BuiltinExec show ?thesis by (cases "builtin_exec bi p") (auto simp: unfold)
  next
    case (InternalContractExec ic p)
    then obtain a where a: "mc_internal_contracts M a = Some ic" "unat (ap_gas p) \<le> g" "params_fit p" using e by (auto simp: unfold ran_def)
    obtain r c' where r: "ic_execute ic p c = (r, c')" by fastforce
    have "wp True (ic_execute ic p) (\<lambda>out c'. evolves B c c' \<and> (case out of
            Inl g \<Rightarrow> left_ok (unat (ap_gas p)) g
          | Inr (t, r) \<Rightarrow> trap_allowed (fc_static_flag (ctx_local c)) t \<and> held r + trap_gas t < unat (ap_gas p)))
          (\<lambda>_ c'. evolves B c c') c"
      using i a(1,3) c by (simp add: internal_laws_def)
    with r a(2) InternalContractExec show ?thesis
      by (auto simp: wp_def pwp_def total_def eret_def unfold split: res.splits sum.splits intro: left_ok_mono)
  next
    case (ResumedInternal r res)
    obtain q c' where q: "mc_resume M r res c = (q, c')" by fastforce
    have "wp True (mc_resume M r res) (\<lambda>g c'. evolves B c c' \<and> left_ok (held r + answer_gas res) g) (\<lambda>_ c'. evolves B c c') c"
      using i c e ResumedInternal by (simp add: internal_laws_def unfold)
    with q e ResumedInternal show ?thesis
      by (auto simp: wp_def unfold split: res.splits intro: left_ok_mono)
  next
    case (InterpreterUsize v)
    with e run_interpreter_wp [OF L c l, of v g M held] show ?thesis by (simp add: exec_executable_def exec_ready_def)
  next
    case (InterpreterU256 v)
    with e show ?thesis by (simp add: exec_ready_def)
  qed
qed

end
