(* ===== verification/Frame_Runs.thy ===== *)
theory Frame_Runs
  imports Frame_Laws
begin

text \<open>
  One frame at a time: running, resuming and settling a frame, in terms of the worlds of the
  state, the call stack and the notifications.  A frame that is done has closed its own checkpoint
  and its own entry of the call stack, and has sent its result to the observer; a frame that waits
  has left all three open.
\<close>

section \<open>The environment of the frames\<close>

text \<open>The kinds of the frames that an observer believes to be open; \<open>None\<close> when results do not match the notified frames.\<close>

fun observe_frames :: "observation \<Rightarrow> bool list option \<Rightarrow> bool list option" where
  "observe_frames (ObsCall p) (Some ks) = Some (False # ks)"
| "observe_frames (ObsCreate p) (Some ks) = Some (True # ks)"
| "observe_frames (ObsCallResult r) (Some (False # ks)) = Some ks"
| "observe_frames (ObsCreateResult r) (Some (True # ks)) = Some ks"
| "observe_frames (ObsTransfer a b v) ks = ks"
| "observe_frames _ _ = None"

definition open_frames :: "observation list \<Rightarrow> bool list option" where
  "open_frames xs = fold observe_frames xs (Some [])"

text \<open>Results that the observers can convert: the return data is in range, and a create that succeeded knows its address.\<close>

definition result_fits :: "bool \<Rightarrow> frame_return vm_result \<Rightarrow> bool" where
  "result_fits is_create r = (case r of
     Ok fr \<Rightarrow> rd_ok (fin_return_data fr) \<and> (is_create \<and> fin_apply_state fr \<longrightarrow> fr_create_address fr \<noteq> None)
   | Err e \<Rightarrow> True
   | Panic \<Rightarrow> False)"

definition obs_fits :: "observation \<Rightarrow> bool" where
  "obs_fits x = (case x of ObsCallResult r \<Rightarrow> result_fits False r | ObsCreateResult r \<Rightarrow> result_fits True r | _ \<Rightarrow> True)"

definition env_ok :: "'l externals \<Rightarrow> ('l \<Rightarrow> h256 \<rightharpoonup> cache_item) \<Rightarrow> 'd backend \<Rightarrow> ('d, 'l) frame_env \<Rightarrow> bool" where
  "env_ok X R B s \<longleftrightarrow> state_ok B (fe_state s) \<and> cache_ok (ext_lru X) R (\<lambda>_ _. True) (fe_cache s) \<and>
     open_frames (fe_observer s) = Some (map snd (fsi_stack (fe_callstack s))) \<and> list_all obs_fits (fe_observer s)"

definition schedule_ok :: "frame_context \<Rightarrow> bool" where
  "schedule_ok l \<longleftrightarrow> spec_ok (fc_spec l) \<and> contract_start_nonce (fc_spec l) \<noteq> - 1"

definition frame_ok :: "('d, 'r) frame \<Rightarrow> bool" where
  "frame_ok f \<longleftrightarrow> schedule_ok (cf_context f) \<and> (fc_is_create (cf_context f) \<longrightarrow> cf_create_address f \<noteq> None)"

abbreviation fe_worlds :: "'d backend \<Rightarrow> ('d, 'l) frame_env \<Rightarrow> world list" where
  "fe_worlds B s \<equiv> worlds B (fe_state s)"

abbreviation fe_calls :: "('d, 'l) frame_env \<Rightarrow> (address_with_space \<times> bool) list" where
  "fe_calls s \<equiv> fsi_stack (fe_callstack s)"

text \<open>The result of a frame that started on the worlds \<open>W\<close> and the call stack \<open>S\<close> with gas \<open>g\<close>.\<close>

definition return_ok :: "nat \<Rightarrow> frame_return vm_result \<Rightarrow> bool" where
  "return_ok g q = (case q of
     Ok fr \<Rightarrow> unat (fin_gas_left fr) \<le> g \<and> rd_ok (fin_return_data fr) \<and> (fr_substate fr = None \<longleftrightarrow> \<not> fin_apply_state fr)
   | Err e \<Rightarrow> True
   | Panic \<Rightarrow> False)"

definition applied :: "frame_return vm_result \<Rightarrow> bool" where
  "applied q = (case q of Ok fr \<Rightarrow> fin_apply_state fr | _ \<Rightarrow> False)"

definition closed :: "'d backend \<Rightarrow> world list \<Rightarrow> (address_with_space \<times> bool) list \<Rightarrow> bool \<Rightarrow> ('d, 'l) frame_env \<Rightarrow> bool" where
  "closed B W S b s \<longleftrightarrow> fe_calls s = S \<and> (if b then tl (fe_worlds B s) = tl W else fe_worlds B s = W)"

definition opened :: "'d backend \<Rightarrow> world list \<Rightarrow> (address_with_space \<times> bool) list \<Rightarrow> bool \<Rightarrow> ('d, 'l) frame_env \<Rightarrow> bool" where
  "opened B W S is_create s \<longleftrightarrow> W \<noteq> [] \<and> tl (fe_worlds B s) = W \<and> (\<exists>a. fe_calls s = (a, is_create) # S)"

section \<open>Settling a frame\<close>

lemma open_frames_snoc: "open_frames (xs @ [x]) = observe_frames x (open_frames xs)"
  by (simp add: open_frames_def)

lemma open_frames_transfers: "list_all is_transfer ys \<Longrightarrow> open_frames (xs @ ys) = open_frames xs"
proof (induction ys rule: rev_induct)
  case (snoc y ys)
  then show ?case by (cases y) (auto simp: is_transfer_def open_frames_snoc append_assoc [symmetric] simp del: append_assoc)
qed simp

lemma transfers_fit: "list_all is_transfer xs \<Longrightarrow> list_all obs_fits xs"
  by (auto simp: list_all_iff is_transfer_def obs_fits_def split: observation.splits)

text \<open>What a context does leaves the environment intact.\<close>

lemma evolves_env:
  assumes "env_ok X R B s" "evolves B (activate l s) c" "cache_ok (ext_lru X) R (\<lambda>_ _. True) k"
  shows "env_ok X R B ((deactivate c s)\<lparr>fe_cache := k\<rparr>)"
    and "tl (fe_worlds B (deactivate c s)) = tl (fe_worlds B s)" and "fe_calls (deactivate c s) = fe_calls s"
    and "st_db (fe_state (deactivate c s)) = st_db (fe_state s)"
  using assms by (auto simp: env_ok_def evolves_def activate_def deactivate_def top_only_def open_frames_transfers transfers_fit)

lemma worlds_nonempty: "state_ok B s \<Longrightarrow> tl (worlds B s) \<noteq> [] \<Longrightarrow> \<exists>c cs. st_checkpoints s = c # cs"
  using length_worlds [of B s] by (cases "st_checkpoints s"; cases "worlds B s") auto

lemma revert_wp:
  assumes "state_ok B s" "st_checkpoints s = c # cs"
  shows "wp p revert_to_checkpoint (\<lambda>_ t. state_ok B t \<and> st_db t = st_db s \<and> worlds B t = tl (worlds B s)) E s"
  unfolding wp_def by (auto split: prod.splits dest!: revert_to_checkpoint_spec [OF assms])

lemma settle_wp:
  assumes s: "env_ok X R B s" and o: "opened B W S k s"
  shows "wp True (settle b f) (\<lambda>ss s'. env_ok X R B s' \<and> fe_calls s' = fe_calls s \<and> st_db (fe_state s') = st_db (fe_state s) \<and>
    (ss = None \<longleftrightarrow> \<not> b) \<and> (if b then tl (fe_worlds B s') = tl W else fe_worlds B s' = W)) (\<lambda>_ _. True) s"
proof -
  have ok: "state_ok B (fe_state s)" using s by (simp add: env_ok_def)
  obtain c cs where c: "st_checkpoints (fe_state s) = c # cs"
    using worlds_nonempty [OF ok] o by (auto simp: opened_def)
  note d = discard_checkpoint_spec [OF ok c]
  have "drop 2 (fe_worlds B s) = tl W" using o by (auto simp: opened_def numeral_2_eq_2 drop_Suc)
  with s d o show ?thesis
    by (auto simp: settle_def wp_simps env_ok_def opened_def split: option.splits intro!: wp_mono [OF revert_wp [OF ok c]])
qed

lemma finalize_wp:
  assumes c: "state_ok B (ctx_state c)" and r: "\<And>h. result = Ok h \<Longrightarrow> left_ok g h"
  shows "wp True (finalize B result) (\<lambda>fin c'. evolves B c c' \<and> unat (fin_gas_left fin) \<le> g \<and> rd_ok (fin_return_data fin))
    (\<lambda>_ c'. evolves B c c') c"
proof -
  have ret: "wp True (ctx_ret B h rd b) (\<lambda>k c'. evolves B c c' \<and> unat k \<le> g \<and> rd_ok rd) (\<lambda>_ c'. evolves B c c') c"
    if "result = Ok (NeedsReturn h rd b)" for h rd b
    using r [OF that] by (intro wp_mono [OF ctx_ret_wp [OF c]]) (auto simp: left_ok_def)
  show ?thesis
    using r ret evolves_refl [OF c]
    by (auto simp: finalize_def local_get_def wp_simps left_ok_def rd_ok_def rd_empty_def split: res.splits gas_left.splits
        intro: wp_mono [OF ret])
qed

lemma fsi_pop_wp: "wp True fsi_pop (\<lambda>_ f'. fsi_stack f' = tl (fsi_stack f)) E f"
  by (auto simp: wp_def fsi_pop_def Let_def split: list.splits option.splits)

text \<open>The result of a frame that started on the worlds \<open>W\<close>, the call stack \<open>S\<close> and the database \<open>db\<close> with gas \<open>g\<close>.\<close>

definition frame_done ::
  "'l externals \<Rightarrow> ('l \<Rightarrow> h256 \<rightharpoonup> cache_item) \<Rightarrow> 'd backend \<Rightarrow> 'd \<Rightarrow> world list \<Rightarrow> (address_with_space \<times> bool) list \<Rightarrow> nat \<Rightarrow>
   frame_return vm_result \<Rightarrow> ('d, 'l) frame_env \<Rightarrow> bool" where
  "frame_done X R B db W S g q s \<longleftrightarrow> env_ok X R B s \<and> st_db (fe_state s) = db \<and> closed B W S (applied q) s \<and> return_ok g q"

lemma close_frame_wp:
  assumes "env_ok X R B t" "fe_calls t = (a, k) # S" "st_db (fe_state t) = db" "return_ok g q" "result_fits k q"
    "if applied q then tl (fe_worlds B t) = tl W else fe_worlds B t = W"
  shows "wp True (ethen (fe_observe (if k then ObsCreateResult q else ObsCallResult q)) (ethen (on_callstack fsi_pop) (eret q)))
    (frame_done X R B db W S g) E t"
  using assms
  by (cases k) (auto simp: wp_simps frame_done_def closed_def env_ok_def open_frames_snoc obs_fits_def intro!: wp_mono [OF fsi_pop_wp])

lemma settle_frame_wp:
  assumes t: "env_ok X R B t" "opened B W S (fc_is_create (cf_context f)) t" and f: "frame_ok f"
    and q: "q \<noteq> Panic" "\<And>fin. q = Ok fin \<Longrightarrow> unat (fin_gas_left fin) \<le> g \<and> rd_ok (fin_return_data fin)"
  shows "wp True (ebind (settle (case q of Ok r \<Rightarrow> fin_apply_state r | _ \<Rightarrow> False) f) (\<lambda>maybe_substate.
     ebind (eret (rbind q (\<lambda>r. Ok (frame_return_new r (cf_create_address f) maybe_substate)))) (\<lambda>executive_result.
     ethen (fe_observe (if fc_is_create (cf_context f) then ObsCreateResult executive_result else ObsCallResult executive_result))
     (ethen (on_callstack fsi_pop) (eret executive_result)))))
    (frame_done X R B (st_db (fe_state t)) W S g) (\<lambda>_ _. True) t"
proof -
  obtain a where a: "fe_calls t = (a, fc_is_create (cf_context f)) # S" using t(2) by (auto simp: opened_def)
  show ?thesis
    unfolding wp_ebind wp_basic
  proof (rule wp_mono [OF settle_wp [OF t]], elim conjE, rule close_frame_wp [unfolded wp_ebind wp_basic])
    fix ss :: "substate option" and u
    assume u: "env_ok X R B u" "fe_calls u = fe_calls t" "st_db (fe_state u) = st_db (fe_state t)"
      and b: "(ss = None) = (\<not> (case q of Ok r \<Rightarrow> fin_apply_state r | _ \<Rightarrow> False))"
        "if case q of Ok r \<Rightarrow> fin_apply_state r | _ \<Rightarrow> False then tl (fe_worlds B u) = tl W else fe_worlds B u = W"
    let ?q = "rbind q (\<lambda>r. Ok (frame_return_new r (cf_create_address f) ss))"
    show "result_fits (fc_is_create (cf_context f)) ?q"
      using q f by (cases q) (auto simp: result_fits_def frame_return_new_def frame_ok_def)
    show "return_ok g ?q" "if applied ?q then tl (fe_worlds B u) = tl W else fe_worlds B u = W"
      using q b by (cases q; simp add: return_ok_def applied_def frame_return_new_def)+
    show "env_ok X R B u" "fe_calls u = (a, fc_is_create (cf_context f)) # S" "st_db (fe_state u) = st_db (fe_state t)"
      using u a by simp_all
  qed simp
qed

lemma process_return_wp:
  fixes s :: "('d, 'l) frame_env" and f :: "('d, 'r) frame"
  assumes s: "env_ok X R B s" and o: "opened B W S (fc_is_create (cf_context f)) s" and f: "frame_ok f"
    and r: "\<And>h. result = Ok h \<Longrightarrow> left_ok g h"
  shows "wp True (process_return B result f) (frame_done X R B (st_db (fe_state s)) W S g) (\<lambda>_ _. True) s"
proof -
  let ?c = "activate (cf_context f) s"
  have ok: "state_ok B (ctx_state ?c)" and cache: "cache_ok (ext_lru X) R (\<lambda>_ _. True) (fe_cache s)"
    using s by (simp_all add: env_ok_def activate_def)
  have rest: "wp True (ebind (elift (separate_out_db_error q)) (\<lambda>finalized_result.
      ebind (settle (case finalized_result of Ok r \<Rightarrow> fin_apply_state r | _ \<Rightarrow> False) f') (\<lambda>maybe_substate.
      ebind (eret (rbind finalized_result (\<lambda>r. Ok (frame_return_new r (cf_create_address f') maybe_substate)))) (\<lambda>executive_result.
      ethen (fe_observe (if fc_is_create (cf_context f') then ObsCreateResult executive_result else ObsCallResult executive_result))
      (ethen (on_callstack fsi_pop) (eret executive_result))))))
      (frame_done X R B (st_db (fe_state s)) W S g) (\<lambda>_ _. True) (deactivate c' s)"
    if c': "evolves B ?c c'" and f': "f' = f\<lparr>cf_context := ctx_local c'\<rparr>" and q: "q \<noteq> Panic"
      "\<And>fin. q = Ok fin \<Longrightarrow> unat (fin_gas_left fin) \<le> g \<and> rd_ok (fin_return_data fin)" for c' q f'
  proof -
    have fixed: "fixed_part (cf_context f') = fixed_part (cf_context f)" using c' f' by (simp add: evolves_def activate_def)
    have "frame_ok f'" using f f' fixed_part_field [OF fixed] by (simp add: frame_ok_def schedule_ok_def)
    have "fc_is_create (cf_context f') = fc_is_create (cf_context f)" by (rule fixed_part_field [OF fixed])
    with evolves_env [OF s c' cache] o
    have "env_ok X R B (deactivate c' s)" "opened B W S (fc_is_create (cf_context f')) (deactivate c' s)"
      "st_db (fe_state (deactivate c' s)) = st_db (fe_state s)"
      by (simp_all add: opened_def deactivate_def)
    with settle_frame_wp [of X R B "deactivate c' s" W S f' q g] q \<open>frame_ok f'\<close> show ?thesis
      unfolding wp_ebind wp_elift by (cases q) (auto simp: separate_out_db_error_def split: vm_error.splits)
  qed
  show ?thesis
    unfolding process_return_def
    by (subst wp_ebind, subst wp_in_context, subst wp_attempt, rule wp_mono [OF finalize_wp [OF ok r]], unfold prod.case)
      (assumption | rule rest; auto)+
qed

section \<open>Running a frame\<close>

definition frame_held :: "('r \<Rightarrow> nat) \<Rightarrow> ('d, 'r) frame \<Rightarrow> nat" where
  "frame_held held f = (case cf_status f of
     StatusResumeCall k \<Rightarrow> resume_held held k | StatusResumeCreate k \<Rightarrow> resume_held held k | _ \<Rightarrow> 0)"

text \<open>A frame that waits for the frame of the trap \<open>t\<close>.\<close>

definition frame_waiting :: "trap_kind \<Rightarrow> ('d, 'r) frame \<Rightarrow> bool" where
  "frame_waiting t f \<longleftrightarrow> frame_ok f \<and> trap_allowed (fc_static_flag (cf_context f)) t \<and>
     (\<exists>k. cf_status f = (case t of TrapCall _ \<Rightarrow> StatusResumeCall k | TrapCreate _ \<Rightarrow> StatusResumeCreate k) \<and>
        waits (fc_spec (cf_context f)) t k)"

definition frame_post ::
  "'l externals \<Rightarrow> ('l \<Rightarrow> h256 \<rightharpoonup> cache_item) \<Rightarrow> 'd backend \<Rightarrow> ('r \<Rightarrow> nat) \<Rightarrow> 'd \<Rightarrow> world list \<Rightarrow>
   (address_with_space \<times> bool) list \<Rightarrow> nat \<Rightarrow> ('d, 'r) frame_trap_result \<Rightarrow> ('d, 'l) frame_env \<Rightarrow> bool" where
  "frame_post X R B held db W S g r s = (case r of
     FrameReturns q \<Rightarrow> frame_done X R B db W S g q s
   | FrameTraps t f \<Rightarrow> env_ok X R B s \<and> st_db (fe_state s) = db \<and> opened B W S (fc_is_create (cf_context f)) s \<and>
       frame_waiting t f \<and> frame_held held f + trap_gas t < g)"

lemma process_output_wp:
  assumes s: "env_ok X R B s" and o: "opened B W S (fc_is_create (cf_context f)) s" and l: "frame_ok f"
    and out: "out_ok held (fc_spec (cf_context f)) (fc_static_flag (cf_context f)) g out"
  shows "wp True (process_output B out f) (frame_post X R B held (st_db (fe_state s)) W S g) (\<lambda>_ _. True) s"
proof (cases out)
  case (ExecReturn r)
  with out have "\<And>h. r = Ok h \<Longrightarrow> left_ok g h" by (simp add: out_ok_def)
  from wp_mono [OF process_return_wp [OF s o l this]] ExecReturn show ?thesis
    by (simp add: process_output_def wp_simps frame_post_def)
next
  case (ExecTrap t k)
  with assms show ?thesis
    by (cases t) (auto simp: process_output_def process_trap_def wp_simps frame_post_def frame_waiting_def frame_held_def out_ok_def frame_ok_def)
qed

text \<open>The assumptions on everything outside the frames.\<close>

definition outside_laws ::
  "'l externals \<Rightarrow> ('l \<Rightarrow> h256 \<rightharpoonup> cache_item) \<Rightarrow> 'd backend \<Rightarrow> ('d, 'r) machine \<Rightarrow> ('r \<Rightarrow> nat) \<Rightarrow> bool" where
  "outside_laws X R B M held \<longleftrightarrow> lru_laws (ext_lru X) R \<and> builtin_laws M \<and> internal_laws B M held"

lemma pwp_run_in_context:
  "pwp (run_in_context X B M e f) Q E s = pwp (exec_executable X B M e)
     (\<lambda>out (c, l). Q (out, f\<lparr>cf_context := ctx_local c\<rparr>) ((deactivate c s)\<lparr>fe_cache := l\<rparr>))
     (\<lambda>x (c, l). E x ((deactivate c s)\<lparr>fe_cache := l\<rparr>)) (activate (cf_context f) s, fe_cache s)"
  by (simp add: pwp_def run_in_context_def split: option.splits prod.splits res.splits)

lemma run_frame_wp:
  assumes L: "outside_laws X R B M held"
    and s: "env_ok X R B s" and o: "opened B W S (fc_is_create (cf_context f)) s" and l: "frame_ok f"
    and e: "exec_ready M held (fc_spec (cf_context f)) g e"
  shows "pwp (run_frame X B M e f) (frame_post X R B held (st_db (fe_state s)) W S g) (\<lambda>_ _. True) s"
proof -
  let ?c = "activate (cf_context f) s"
  have c: "ctx_inv B ?c" using s l by (simp add: ctx_inv_activate env_ok_def frame_ok_def schedule_ok_def)
  have cache: "cache_ok (ext_lru X) R (\<lambda>_ _. True) (fe_cache s)" using s by (simp add: env_ok_def)
  have L': "lru_laws (ext_lru X) R" "builtin_laws M" "internal_laws B M held" using L by (simp_all add: outside_laws_def)
  have "exec_ready M held (fc_spec (ctx_local ?c)) g e" using e by (simp add: activate_def)
  note run = exec_executable_wp [OF L' c cache this]
  have "wp True (process_output B out f') (frame_post X R B held (st_db (fe_state s)) W S g) (\<lambda>_ _. True) s'"
    if post: "exec_post X R B held g ?c out (c', k)" and f': "f' = f\<lparr>cf_context := ctx_local c'\<rparr>"
      and s': "s' = (deactivate c' s)\<lparr>fe_cache := k\<rparr>" for out c' k s' f'
  proof -
    have ev: "evolves B ?c c'" "cache_ok (ext_lru X) R (\<lambda>_ _. True) k"
      and out: "out_ok held (fc_spec (cf_context f)) (fc_static_flag (cf_context f)) g out"
      using post by (simp_all add: exec_post_def activate_def)
    have "fixed_part (ctx_local c') = fixed_part (cf_context f)" using ev(1) by (simp add: evolves_def activate_def)
    note same = fixed_part_field [OF this]
    note env = evolves_env [OF s ev]
    have "opened B W S (fc_is_create (cf_context f')) s'"
      using o env same by (simp add: opened_def f' s')
    then show ?thesis
      using process_output_wp [of X R B s' W S f' held g out] env l out same by (simp add: f' s' frame_ok_def schedule_ok_def)
  qed
  then show ?thesis
    unfolding run_frame_def pwp_pbind pwp_run_in_context by (intro pwp_mono [OF run]) (auto simp: wp_simps)
qed

text \<open>A frame that is about to start with gas \<open>g\<close>: what it runs belongs to the machine and the gas fits a \<open>usize\<close>.\<close>

definition frame_start :: "('d, 'r) machine \<Rightarrow> nat \<Rightarrow> ('d, 'r) frame \<Rightarrow> bool" where
  "frame_start M g f \<longleftrightarrow> schedule_ok (cf_context f) \<and> g < 2 ^ 64 \<and>
     (\<exists>p. cf_status f = Input p \<and> unat (ap_gas p) = g \<and> params_fit p \<and> (case cf_kind f of
        KTransfer \<Rightarrow> True
      | KCallBuiltin b \<Rightarrow> b \<in> ran (mc_builtins M)
      | KCallInternalContract ic \<Rightarrow> ic \<in> ran (mc_internal_contracts M)
      | _ \<Rightarrow> ap_code p \<noteq> None))"

lemma factory_create_ready:
  assumes "ap_code p = Some code" "params_fit p" "unat (ap_gas p) < 2 ^ 64"
  shows "\<exists>e. factory_create p = Ok e \<and> exec_ready M held sp (unat (ap_gas p)) e"
proof -
  have fit: "can_fit_in_usize (ap_gas p)"
    using gas_fits [OF assms(3)] by (auto simp: can_fit_in_usize_iff from_u256_usize_eq)
  show ?thesis
  proof (cases "code = []")
    case True
    obtain g :: usize where "from_u256 (ap_gas p) = Ok g" "unat g = unat (ap_gas p)" using gas_fits [OF assms(3)] by blast
    with True assms fit show ?thesis
      by (auto simp: factory_create_def interpreter_new_def expect_some_def interpreter_params_from_def exec_ready_def
          gas_total_def gas_now_def gasometer_new_def)
  next
    case False
    have "length code < 2 ^ 63" "\<And>d. ap_data p = Some d \<Longrightarrow> length d < 2 ^ 63" using assms by (auto simp: params_fit_def)
    from interpreter_new_ok [OF assms(1) False this assms(3), of sp] fit show ?thesis
      by (auto simp: factory_create_def exec_ready_def)
  qed
qed

lemma frame_executable_ready:
  assumes "frame_start M g f" "cf_status f = Input p" "cf_kind f' = cf_kind f"
  shows "\<exists>e. frame_executable p f' = Ok e \<and> exec_ready M held sp g e"
  using assms factory_create_ready [of p _ M held sp]
  by (auto simp: frame_start_def frame_executable_def exec_ready_def split: frame_kind.splits)

lemma frame_prepare_wp:
  fixes f :: "('d, 'r) frame" and s :: "('d, 'l) frame_env"
  assumes s: "env_ok X R B s" and f: "cf_status f = Input p"
  shows "wp True (frame_prepare B f) (\<lambda>(q, f') s'. q = p \<and> env_ok X R B s' \<and> st_db (fe_state s') = st_db (fe_state s) \<and>
     opened B (fe_worlds B s) (fe_calls s) (fc_is_create (cf_context f')) s' \<and> cf_kind f' = cf_kind f \<and>
     (fc_is_create (cf_context f') \<longrightarrow> cf_create_address f' \<noteq> None) \<and>
     fixed_part (cf_context f') = fixed_part (cf_context f)) (\<lambda>_ _. True) s"
proof -
  define k where "k = (cf_create_address f \<noteq> None)"
  define t where "t = s\<lparr>fe_observer := fe_observer s @ [if k then ObsCreate p else ObsCall p],
    fe_state := snd (checkpoint (fe_state s)), fe_callstack := fsi_push (caller (cf_context f)) k (fe_callstack s)\<rparr>"
  have ok: "state_ok B (fe_state s)" using s by (simp add: env_ok_def)
  have t: "env_ok X R B t" "st_db (fe_state t) = st_db (fe_state s)" "opened B (fe_worlds B s) (fe_calls s) k t"
    using s checkpoint_spec [OF ok surjective_pairing]
    by (auto simp: env_ok_def t_def opened_def open_frames_snoc fsi_push_def worlds_eq obs_fits_def)
  have c: "state_ok B (ctx_state (activate (cf_context f) t))" and cache: "cache_ok (ext_lru X) R (\<lambda>_ _. True) (fe_cache t)"
    using t by (simp_all add: env_ok_def activate_def)
  have after: "env_ok X R B (deactivate c' t) \<and> st_db (fe_state (deactivate c' t)) = st_db (fe_state s) \<and>
      opened B (fe_worlds B s) (fe_calls s) (fc_is_create (ctx_local c')) (deactivate c' t) \<and>
      fixed_part (ctx_local c') = fixed_part (cf_context f) \<and> fc_is_create (ctx_local c') = k"
    if "evolves B (activate (cf_context f) t) c'" "k = fc_is_create (cf_context f)" for c'
    using that t evolves_env [OF t(1) that(1) cache]
    by (auto simp: opened_def deactivate_def evolves_def activate_def dest: fixed_part_field)
  show ?thesis
  proof (cases "cf_create_address f")
    case None
    then have t_eq: "t = s\<lparr>fe_observer := fe_observer s @ [ObsCall p], fe_state := snd (checkpoint (fe_state s)),
        fe_callstack := fsi_push (caller (cf_context f)) False (fe_callstack s)\<rparr>" and k: "\<not> k" by (simp_all add: t_def k_def)
    show ?thesis
      using f k None after
      by (auto simp: frame_prepare_def Let_def wp_simps t_eq [symmetric] intro!: wp_mono [OF transfer_exec_balance_wp [OF c]])
  next
    case (Some a)
    then have t_eq: "t = s\<lparr>fe_observer := fe_observer s @ [ObsCreate p], fe_state := snd (checkpoint (fe_state s)),
        fe_callstack := fsi_push (caller (cf_context f)) True (fe_callstack s)\<rparr>" and k: k by (simp_all add: t_def k_def)
    show ?thesis
      using f k Some after
      by (auto simp: frame_prepare_def Let_def wp_simps t_eq [symmetric] intro!: wp_mono [OF transfer_exec_balance_and_init_contract_wp [OF c]])
  qed
qed

lemma frame_exec_wp:
  fixes f :: "('d, 'r) frame" and s :: "('d, 'l) frame_env"
  assumes L: "outside_laws X R B M held" and s: "env_ok X R B s" and f: "frame_start M g f"
  shows "pwp (frame_exec X B M f) (frame_post X R B held (st_db (fe_state s)) (fe_worlds B s) (fe_calls s) g) (\<lambda>_ _. True) s"
proof -
  obtain p where p: "cf_status f = Input p" using f by (auto simp: frame_start_def)
  show ?thesis
    unfolding frame_exec_def pwp_pbind pwp_total
  proof (rule wp_mono [OF frame_prepare_wp [OF s p]], clarify, unfold prod.case pwp_pbind pwp_total wp_elift)
    fix f' :: "('d, 'r) frame" and s'
    assume s': "env_ok X R B s'" "st_db (fe_state s') = st_db (fe_state s)"
      "opened B (fe_worlds B s) (fe_calls s) (fc_is_create (cf_context f')) s'"
      and create: "fc_is_create (cf_context f') \<longrightarrow> cf_create_address f' \<noteq> None"
      and f': "cf_kind f' = cf_kind f" "fixed_part (cf_context f') = fixed_part (cf_context f)"
    obtain e where e: "frame_executable p f' = Ok e" "exec_ready M held (fc_spec (cf_context f')) g e"
      using frame_executable_ready [OF f p f'(1)] by blast
    have "frame_ok f'" using f create fixed_part_field [OF f'(2)] by (simp add: frame_start_def frame_ok_def schedule_ok_def)
    from run_frame_wp [OF L s'(1,3) this e(2)] e(1) s'(2)
    show "case frame_executable p f' of
        Ok a \<Rightarrow> pwp (run_frame X B M a f') (frame_post X R B held (st_db (fe_state s)) (fe_worlds B s) (fe_calls s) g) (\<lambda>_ _. True) s'
      | Err e \<Rightarrow> True | Panic \<Rightarrow> True"
      by simp
  qed simp
qed

section \<open>Resuming a frame\<close>

definition return_gas :: "frame_return vm_result \<Rightarrow> nat" where
  "return_gas q = (case q of Ok fr \<Rightarrow> unat (fin_gas_left fr) | _ \<Rightarrow> 0)"

lemma suspended_less:
  "suspended sp (TrapCall q) v \<Longrightarrow> unat h \<le> unat (ap_gas q) \<Longrightarrow> suspended sp (TrapCall (q\<lparr>ap_gas := h\<rparr>)) v"
  "suspended sp (TrapCreate q) v \<Longrightarrow> unat h \<le> unat (ap_gas q) \<Longrightarrow> suspended sp (TrapCreate (q\<lparr>ap_gas := h\<rparr>)) v"
  by (auto simp: suspended_def)

lemma resume_after_call_ready:
  assumes w: "waits sp (TrapCall p) k" and r: "answer_fits (Inl r)" "answer_gas (Inl r) \<le> unat (ap_gas p)"
  shows "\<exists>e. resume_after_call k r = Ok e \<and> exec_ready M held sp (resume_held held k + answer_gas (Inl r)) e"
proof (cases k)
  case (ResumeUsize v)
  obtain h where h: "unat (h :: u256) = answer_gas (Inl r)" "unat h \<le> unat (ap_gas p)" "call_returns h r"
    using r by (cases r) (force simp: answer_gas_def answer_fits_def call_returns_def intro: that [of 0])+
  have "suspended sp (TrapCall (p\<lparr>ap_gas := h\<rparr>)) v" using w ResumeUsize h(2) by (simp add: suspended_less)
  from resume_call_ok [OF this, of r] h show ?thesis
    by (auto simp: resume_after_call_def ResumeUsize exec_ready_def)
qed (use assms in \<open>auto simp: resume_after_call_def exec_ready_def\<close>)

lemma resume_after_create_ready:
  assumes w: "waits sp (TrapCreate p) k" and r: "answer_fits (Inr r)" "answer_gas (Inr r) \<le> unat (ap_gas p)"
  shows "\<exists>e. resume_after_create k r = Ok e \<and> exec_ready M held sp (resume_held held k + answer_gas (Inr r)) e"
proof (cases k)
  case (ResumeUsize v)
  have sc: "aws_space a = it_space v" for a by (cases "aws_space a"; cases "it_space v") simp
  obtain h where h: "unat (h :: u256) = answer_gas (Inr r)" "unat h \<le> unat (ap_gas p)" "create_returns (it_space v) h r"
    using r sc by (cases r) (force simp: answer_gas_def answer_fits_def create_returns_def intro: that [of 0])+
  have "suspended sp (TrapCreate (p\<lparr>ap_gas := h\<rparr>)) v" using w ResumeUsize h(2) by (simp add: suspended_less)
  from resume_create_ok [OF this, of r] h show ?thesis
    by (auto simp: resume_after_create_def ResumeUsize exec_ready_def)
qed (use assms in \<open>auto simp: resume_after_create_def exec_ready_def\<close>)

text \<open>The substate of the callee joins that of the caller, which otherwise stays as it waited.\<close>

lemma accrue_substate_return:
  assumes "accrue_substate parent q = (ss, q')"
  shows "return_gas q' = return_gas q" "q' = Panic \<longleftrightarrow> q = Panic"
    "return_ok g q \<Longrightarrow> \<forall>fr. q' = Ok fr \<longrightarrow> rd_ok (fin_return_data fr) \<and> unat (fin_gas_left fr) \<le> g"
  using assms by (auto simp: accrue_substate_def return_gas_def return_ok_def split: res.splits option.splits)

lemma frame_resumable_ready:
  fixes f :: "('d, 'r) frame"
  assumes f: "frame_waiting t f" and q: "return_ok (trap_gas t) q" and r: "frame_resumable f q = Ok (e, f')"
  shows "exec_ready M held (fc_spec (cf_context f')) (frame_held held f + return_gas q) e"
    and "fixed_part (cf_context f') = fixed_part (cf_context f)" and "cf_create_address f' = cf_create_address f"
proof -
  obtain ss q' where acc: "accrue_substate (fc_substate (cf_context f)) q = (ss, q')" by fastforce
  note q' = accrue_substate_return [OF acc]
  have f': "f' = f\<lparr>cf_status := Running, cf_context := (cf_context f)\<lparr>fc_substate := ss\<rparr>\<rparr>"
    using r acc by (auto simp: frame_resumable_def rbind_Ok_iff)
  then show "fixed_part (cf_context f') = fixed_part (cf_context f)" "cf_create_address f' = cf_create_address f"
    by (simp_all add: fixed_part_def)
  have "fc_spec (cf_context f') = fc_spec (cf_context f)" using f' by simp
  moreover have "exec_ready M held (fc_spec (cf_context f)) (frame_held held f + return_gas q) e"
  proof (cases t)
    case (TrapCall p)
    then obtain k where k: "cf_status f = StatusResumeCall k" "waits (fc_spec (cf_context f)) (TrapCall p) k"
      using f by (auto simp: frame_waiting_def)
    then obtain m where m: "into_message_call_result q' = (Ok m :: (db_error, _) res)" "resume_after_call k m = Ok e"
      using r acc by (auto simp: frame_resumable_def rbind_Ok_iff)
    have "answer_fits (Inl m) \<and> answer_gas (Inl m) \<le> unat (ap_gas p) \<and> answer_gas (Inl m) = return_gas q"
      using m(1) q'(3) [OF q] TrapCall unfolding q'(1) [symmetric]
      by (auto simp: into_message_call_result_def answer_fits_def answer_gas_def return_gas_def split: res.splits if_splits)
    with resume_after_call_ready [OF k(2), of m M held] m(2) k(1) show ?thesis by (auto simp: frame_held_def)
  next
    case (TrapCreate p)
    then obtain k where k: "cf_status f = StatusResumeCreate k" "waits (fc_spec (cf_context f)) (TrapCreate p) k"
      using f by (auto simp: frame_waiting_def)
    then obtain m where m: "into_contract_create_result q' = (Ok m :: (db_error, _) res)" "resume_after_create k m = Ok e"
      using r acc by (auto simp: frame_resumable_def rbind_Ok_iff)
    have "answer_fits (Inr m) \<and> answer_gas (Inr m) \<le> unat (ap_gas p) \<and> answer_gas (Inr m) = return_gas q"
      using m(1) q'(3) [OF q] TrapCreate unfolding q'(1) [symmetric]
      by (auto simp: into_contract_create_result_def answer_fits_def answer_gas_def return_gas_def split: res.splits if_splits option.splits)
    with resume_after_create_ready [OF k(2), of m M held] m(2) k(1) show ?thesis by (auto simp: frame_held_def)
  qed
  ultimately show "exec_ready M held (fc_spec (cf_context f')) (frame_held held f + return_gas q) e" by simp
qed

lemma frame_resume_wp:
  assumes L: "outside_laws X R B M held" and s: "env_ok X R B s" and f: "frame_waiting t f" and q: "return_ok (trap_gas t) q"
    and o: "opened B W S (fc_is_create (cf_context f)) s"
  shows "pwp (frame_resume X B M f q) (frame_post X R B held (st_db (fe_state s)) W S (frame_held held f + return_gas q)) (\<lambda>_ _. True) s"
proof -
  have "pwp (run_frame X B M e f') (frame_post X R B held (st_db (fe_state s)) W S (frame_held held f + return_gas q)) (\<lambda>_ _. True) s"
    if r: "frame_resumable f q = Ok (e, f')" for e f'
  proof -
    note ready = frame_resumable_ready(1) [OF f q r, where M = M and held = held] frame_resumable_ready(2,3) [OF f q r]
    have "frame_ok f'" "opened B W S (fc_is_create (cf_context f')) s"
      using f o ready(3) fixed_part_field [OF ready(2)] by (simp_all add: frame_waiting_def frame_ok_def schedule_ok_def)
    from run_frame_wp [OF L s this(2,1) ready(1)] show ?thesis .
  qed
  then show ?thesis by (simp add: frame_resume_def pwp_pbind pwp_total wp_elift split: res.splits)
qed

end
