(* ===== verification/Frame_Stack.thy ===== *)
theory Frame_Stack
  imports Frame
begin

text \<open>
  The stack of frames of a transaction (src/call_create_frame/stack.rs): frames that wait for
  the result of a nested frame, and the loop that runs the top frame, pushes callees and resumes
  callers until the outermost frame returns.
\<close>

record frame_stack_output =
  fso_result :: "finalization_result vm_result"
  fso_substate :: substate
  fso_base_gas_required :: u64

definition stack_process_return :: "substate \<Rightarrow> u64 \<Rightarrow> frame_return vm_result \<Rightarrow> frame_stack_output" where
  "stack_process_return tx_substate base_gas result =
     (case accrue_substate tx_substate result of (ss, result) \<Rightarrow>
      \<lparr>fso_result = rbind result (\<lambda>r. Ok (into_finalization_result r)), fso_substate = ss, fso_base_gas_required = base_gas\<rparr>)"

text \<open>One turn of the loop: the next result with the frames that wait, or the result of the outermost frame.\<close>

definition stack_step ::
  "'l externals \<Rightarrow> 'd backend \<Rightarrow> ('d, 'r) machine \<Rightarrow> ('d, 'r) frame list \<Rightarrow> ('d, 'r) frame_trap_result \<Rightarrow>
   (('d, 'l) frame_env, db_error, frame_return vm_result + ('d, 'r) frame list \<times> ('d, 'r) frame_trap_result) prog" where
  "stack_step X B M frames last_res = (case last_res of
     FrameReturns result \<Rightarrow> (case frames of
         [] \<Rightarrow> total (eret (Inl result))
       | parent # rest \<Rightarrow> pbind (frame_resume X B M parent result) (\<lambda>res. total (eret (Inr (rest, res)))))
   | FrameTraps t parent \<Rightarrow>
       pbind (total (elift (from_trap_error M t parent))) (\<lambda>(callee, caller).
       pbind (frame_exec X B M callee) (\<lambda>res. total (eret (Inr (caller # frames, res))))))"

partial_function (option) exec_frames ::
  "'l externals \<Rightarrow> 'd backend \<Rightarrow> ('d, 'r) machine \<Rightarrow> ('d, 'r) frame list \<Rightarrow> ('d, 'r) frame_trap_result \<Rightarrow>
   (('d, 'l) frame_env, db_error, frame_return vm_result) prog" where
  "exec_frames X B M frames last_res s = (case stack_step X B M frames last_res s of
     None \<Rightarrow> None
   | Some (r, s') \<Rightarrow> (case r of
       Ok (Inl result) \<Rightarrow> Some (Ok result, s')
     | Ok (Inr (frames', last_res')) \<Rightarrow> exec_frames X B M frames' last_res' s'
     | Err e \<Rightarrow> Some (Err e, s')
     | Panic \<Rightarrow> Some (Panic, s')))"

definition frame_stack_exec ::
  "'l externals \<Rightarrow> 'd backend \<Rightarrow> ('d, 'r) machine \<Rightarrow> substate \<Rightarrow> u64 \<Rightarrow> ('d, 'r) frame \<Rightarrow>
   (('d, 'l) frame_env, db_error, frame_stack_output) prog" where
  "frame_stack_exec X B M tx_substate base_gas top_frame =
     pbind (frame_exec X B M top_frame) (\<lambda>last_res.
     pbind (exec_frames X B M [] last_res) (\<lambda>result.
     total (eret (stack_process_return tx_substate base_gas result))))"

end
