(* ===== verification/Stack_Laws.thy ===== *)
theory Stack_Laws
  imports Frame_Runs Frame_Stack
begin

text \<open>
  The stack of frames: the frames that wait form a chain in which each holds back some of its gas
  and has handed the rest to the next one.  The loop ends, because every turn either burns gas or
  closes a frame, and it ends with the worlds and the call stack it started on.
\<close>

section \<open>Chains of waiting frames\<close>

text \<open>
  \<open>chain held G W\<^sub>0 S\<^sub>0 fs b W S\<close>: the frames \<open>fs\<close> wait for a frame that may hand back \<open>b\<close> gas and that
  started on the worlds \<open>W\<close> and the call stack \<open>S\<close>; the outermost started on \<open>W\<^sub>0\<close> and \<open>S\<^sub>0\<close> with gas \<open>G\<close>.
\<close>

inductive chain ::
  "('r \<Rightarrow> nat) \<Rightarrow> nat \<Rightarrow> world list \<Rightarrow> (address_with_space \<times> bool) list \<Rightarrow>
   ('d, 'r) frame list \<Rightarrow> nat \<Rightarrow> world list \<Rightarrow> (address_with_space \<times> bool) list \<Rightarrow> bool"
  for held G W\<^sub>0 S\<^sub>0 where
  chain_Nil: "b \<le> G \<Longrightarrow> chain held G W\<^sub>0 S\<^sub>0 [] b W\<^sub>0 S\<^sub>0"
| chain_Cons: "frame_waiting t f \<Longrightarrow> b \<le> trap_gas t \<Longrightarrow> W \<noteq> [] \<Longrightarrow> chain held G W\<^sub>0 S\<^sub>0 fs (frame_held held f + trap_gas t) W S \<Longrightarrow>
    chain held G W\<^sub>0 S\<^sub>0 (f # fs) b (w # W) ((a, fc_is_create (cf_context f)) # S)"

inductive_cases chain_NilE: "chain held G W\<^sub>0 S\<^sub>0 [] b W S"
inductive_cases chain_ConsE: "chain held G W\<^sub>0 S\<^sub>0 (f # fs) b W S"

lemma chain_mono: "chain held G W\<^sub>0 S\<^sub>0 fs b W S \<Longrightarrow> b' \<le> b \<Longrightarrow> chain held G W\<^sub>0 S\<^sub>0 fs b' W S"
  by (induction arbitrary: b' rule: chain.induct) (auto intro: chain.intros)

lemma chain_bound: "chain held G W\<^sub>0 S\<^sub>0 fs b W S \<Longrightarrow> b \<le> G"
  by (induction rule: chain.induct) auto

definition conf_ok ::
  "'l externals \<Rightarrow> ('l \<Rightarrow> h256 \<rightharpoonup> cache_item) \<Rightarrow> 'd backend \<Rightarrow> ('r \<Rightarrow> nat) \<Rightarrow> 'd \<Rightarrow> nat \<Rightarrow> world list \<Rightarrow>
   (address_with_space \<times> bool) list \<Rightarrow> ('d, 'r) frame list \<Rightarrow> ('d, 'r) frame_trap_result \<Rightarrow> ('d, 'l) frame_env \<Rightarrow> bool" where
  "conf_ok X R B held db G W\<^sub>0 S\<^sub>0 fs r s \<longleftrightarrow>
     (\<exists>b W S. chain held G W\<^sub>0 S\<^sub>0 fs b W S \<and> frame_post X R B held db W S b r s)"

text \<open>The gas in a configuration, and the measure of the loop.\<close>

definition result_gas :: "('r \<Rightarrow> nat) \<Rightarrow> ('d, 'r) frame_trap_result \<Rightarrow> nat" where
  "result_gas held r = (case r of FrameReturns q \<Rightarrow> return_gas q | FrameTraps t f \<Rightarrow> frame_held held f + trap_gas t)"

definition conf_gas :: "('r \<Rightarrow> nat) \<Rightarrow> ('d, 'r) frame list \<Rightarrow> ('d, 'r) frame_trap_result \<Rightarrow> nat" where
  "conf_gas held fs r = sum_list (map (frame_held held) fs) + result_gas held r"

definition conf_size :: "('d, 'r) frame list \<Rightarrow> ('d, 'r) frame_trap_result \<Rightarrow> nat" where
  "conf_size fs r = 2 * length fs + (case r of FrameReturns q \<Rightarrow> 0 | FrameTraps t f \<Rightarrow> 3)"

definition conf_less :: "('r \<Rightarrow> nat) \<Rightarrow> (('d, 'r) frame list \<times> ('d, 'r) frame_trap_result) rel" where
  "conf_less held = measures [\<lambda>(fs, r). conf_gas held fs r, \<lambda>(fs, r). conf_size fs r]"

lemma conf_less_wf: "wf (conf_less held)"
  by (simp add: conf_less_def)

lemma frame_post_gas: "frame_post X R B held db W S b r s \<Longrightarrow> result_gas held r \<le> b \<and> (\<forall>t f. r = FrameTraps t f \<longrightarrow> result_gas held r < b)"
  by (auto simp: frame_post_def result_gas_def frame_done_def return_ok_def return_gas_def split: frame_trap_result.splits res.splits)

lemma conf_less_return:
  assumes "frame_post X R B held db W S (frame_held held f + return_gas q) r s"
  shows "((fs, r), (f # fs, FrameReturns q)) \<in> conf_less held"
  using frame_post_gas [OF assms]
  by (cases r) (auto simp: conf_less_def conf_gas_def conf_size_def result_gas_def)

lemma conf_less_trap:
  assumes "frame_post X R B held db W S (trap_gas t) r s"
  shows "((f # fs, r), (fs, FrameTraps t f)) \<in> conf_less held"
  using frame_post_gas [OF assms]
  by (cases r) (auto simp: conf_less_def conf_gas_def conf_size_def result_gas_def)

section \<open>One turn of the loop\<close>

lemma callee_start:
  assumes w: "frame_waiting t f" and g: "trap_gas t < 2 ^ 64" and c: "from_trap_error M t f = Ok (callee, waiter)"
  shows "frame_start M (trap_gas t) callee \<and> waiter = f"
proof -
  have "schedule_ok (cf_context f)" "trap_allowed (fc_static_flag (cf_context f)) t" using w by (auto simp: frame_waiting_def frame_ok_def)
  with c g show ?thesis
    by (cases t) (auto simp: from_trap_error_def Let_def rbind_Ok_iff new_call_raw_def new_create_raw_def frame_context_new_def
        frame_start_def schedule_ok_def trap_allowed_def machine_builtin_def contract_def ran_def split: option.splits if_splits)
qed

lemma stack_step_wp:
  assumes L: "outside_laws X R B M held" and G: "G < 2 ^ 64" and ok: "conf_ok X R B held db G W\<^sub>0 S\<^sub>0 fs r s"
  shows "pwp (stack_step X B M fs r) (\<lambda>out s'. case out of
      Inl q \<Rightarrow> frame_done X R B db W\<^sub>0 S\<^sub>0 G q s'
    | Inr (fs', r') \<Rightarrow> conf_ok X R B held db G W\<^sub>0 S\<^sub>0 fs' r' s' \<and> ((fs', r'), (fs, r)) \<in> conf_less held) (\<lambda>_ _. True) s"
proof -
  obtain b W S where ch: "chain held G W\<^sub>0 S\<^sub>0 fs b W S" and post: "frame_post X R B held db W S b r s"
    using ok by (auto simp: conf_ok_def)
  show ?thesis
  proof (cases r)
    case (FrameTraps t f)
    then have s: "env_ok X R B s" "st_db (fe_state s) = db" and o: "opened B W S (fc_is_create (cf_context f)) s"
      and f: "frame_waiting t f" "frame_held held f + trap_gas t < b" using post by (simp_all add: frame_post_def)
    have g: "trap_gas t < 2 ^ 64" using f(2) chain_bound [OF ch] G by simp
    obtain w a where w: "fe_worlds B s = w # W" "W \<noteq> []" "fe_calls s = (a, fc_is_create (cf_context f)) # S"
      using o by (cases "fe_worlds B s") (auto simp: opened_def)
    have ch': "chain held G W\<^sub>0 S\<^sub>0 (f # fs) (trap_gas t) (fe_worlds B s) (fe_calls s)"
      unfolding w by (rule chain_Cons [OF f(1) order_refl w(2)]) (use chain_mono [OF ch] f(2) in simp)
    have "pwp (frame_exec X B M callee) (\<lambda>res s'. conf_ok X R B held db G W\<^sub>0 S\<^sub>0 (f # fs) res s' \<and>
        ((f # fs, res), (fs, FrameTraps t f)) \<in> conf_less held) (\<lambda>_ _. True) s" "waiter = f"
      if "from_trap_error M t f = (Ok (callee, waiter) :: (db_error, _) res)" for callee waiter
    proof -
      have "frame_start M (trap_gas t) callee" and "waiter = f" using callee_start [OF f(1) g that] by simp_all
      then show "waiter = f" by simp
      note run = frame_exec_wp [OF L s(1) \<open>frame_start M (trap_gas t) callee\<close>]
      show "pwp (frame_exec X B M callee) (\<lambda>res s'. conf_ok X R B held db G W\<^sub>0 S\<^sub>0 (f # fs) res s' \<and>
          ((f # fs, res), (fs, FrameTraps t f)) \<in> conf_less held) (\<lambda>_ _. True) s"
      proof (rule pwp_mono [OF run])
        fix res s'
        assume "frame_post X R B held (st_db (fe_state s)) (fe_worlds B s) (fe_calls s) (trap_gas t) res s'"
        with ch' conf_less_trap [OF this, of f fs] show "conf_ok X R B held db G W\<^sub>0 S\<^sub>0 (f # fs) res s' \<and>
            ((f # fs, res), (fs, FrameTraps t f)) \<in> conf_less held"
          unfolding conf_ok_def s(2) by blast
      qed
    qed
    then show ?thesis
      by (auto simp: stack_step_def FrameTraps wp_simps split: res.splits elim!: pwp_mono)
  next
    case (FrameReturns q)
    then have q: "frame_done X R B db W S b q s" using post by (simp add: frame_post_def)
    show ?thesis
    proof (cases fs)
      case Nil
      with ch q have "frame_done X R B db W\<^sub>0 S\<^sub>0 G q s"
        by (auto simp: frame_done_def return_ok_def split: res.splits elim: chain_NilE)
      then show ?thesis by (simp add: stack_step_def FrameReturns Nil wp_simps)
    next
      case (Cons f rest)
      then obtain t w W' a S' where t: "frame_waiting t f" "b \<le> trap_gas t" "W = w # W'" "W' \<noteq> []"
        "S = (a, fc_is_create (cf_context f)) # S'" "chain held G W\<^sub>0 S\<^sub>0 rest (frame_held held f + trap_gas t) W' S'"
        using ch by (auto elim: chain_ConsE)
      have o: "opened B W' S' (fc_is_create (cf_context f)) s"
        using q t(3-5) by (auto simp: frame_done_def closed_def opened_def split: if_splits)
      have s: "env_ok X R B s" "st_db (fe_state s) = db" and g: "return_ok (trap_gas t) q" "return_gas q \<le> trap_gas t"
        using q t(2) by (auto simp: frame_done_def return_ok_def return_gas_def split: res.splits)
      have "chain held G W\<^sub>0 S\<^sub>0 rest (frame_held held f + return_gas q) W' S'" using chain_mono [OF t(6)] g(2) by simp
      note ch' = this
      have "pwp (frame_resume X B M f q) (\<lambda>res s'. conf_ok X R B held db G W\<^sub>0 S\<^sub>0 rest res s' \<and>
          ((rest, res), (f # rest, FrameReturns q)) \<in> conf_less held) (\<lambda>_ _. True) s"
      proof (rule pwp_mono [OF frame_resume_wp [OF L s(1) t(1) g(1) o]])
        fix res s'
        assume "frame_post X R B held (st_db (fe_state s)) W' S' (frame_held held f + return_gas q) res s'"
        with ch' conf_less_return [OF this, of rest] show "conf_ok X R B held db G W\<^sub>0 S\<^sub>0 rest res s' \<and>
            ((rest, res), (f # rest, FrameReturns q)) \<in> conf_less held"
          unfolding conf_ok_def s(2) by blast
      qed
      then show ?thesis by (auto simp: stack_step_def FrameReturns Cons wp_simps elim!: pwp_mono)
    qed
  qed
qed

section \<open>The loop\<close>

lemma exec_frames_wp:
  fixes s :: "('d, 'l) frame_env" and fs :: "('d, 'r) frame list"
  assumes L: "outside_laws X R B M held" and G: "G < 2 ^ 64"
  shows "conf_ok X R B held db G W\<^sub>0 S\<^sub>0 fs r s \<Longrightarrow>
    pwp (exec_frames X B M fs r) (frame_done X R B db W\<^sub>0 S\<^sub>0 G) (\<lambda>_ _. True) s"
proof (induction "(fs, r)" arbitrary: fs r s rule: wf_induct_rule [OF conf_less_wf [of held]])
  case (1 fs r s)
  note step = stack_step_wp [OF L G 1(2)]
  have again: "pwp (exec_frames X B M fs' r') (frame_done X R B db W\<^sub>0 S\<^sub>0 G) (\<lambda>_ _. True) s'"
    if "stack_step X B M fs r s = Some (Ok (Inr (fs', r')), s')" for fs' r' s'
    using pwp_OkD [OF step that] 1(1) by simp
  have last: "frame_done X R B db W\<^sub>0 S\<^sub>0 G q s'" if "stack_step X B M fs r s = Some (Ok (Inl q), s')" for q s'
    using pwp_OkD [OF step that] by simp
  show ?case
    unfolding pwp_def exec_frames.simps [of X B M fs r s]
    using again last pwp_returns [OF step]
    by (auto simp: pwp_def split: option.splits prod.splits res.splits sum.splits)
qed

lemma frame_stack_exec_wp:
  assumes L: "outside_laws X R B M held" and s: "env_ok X R B s" and f: "frame_start M G f"
  shows "pwp (frame_stack_exec X B M ss base f) (\<lambda>out s'. \<exists>q. out = stack_process_return ss base q \<and>
    frame_done X R B (st_db (fe_state s)) (fe_worlds B s) (fe_calls s) G q s') (\<lambda>_ _. True) s"
proof -
  have G: "G < 2 ^ 64" using f by (simp add: frame_start_def)
  show ?thesis
    unfolding frame_stack_exec_def pwp_pbind
  proof (rule pwp_mono [OF frame_exec_wp [OF L s f]])
    fix r t
    assume "frame_post X R B held (st_db (fe_state s)) (fe_worlds B s) (fe_calls s) G r t"
    then have "conf_ok X R B held (st_db (fe_state s)) G (fe_worlds B s) (fe_calls s) [] r t"
      unfolding conf_ok_def by (blast intro: chain_Nil)
    from exec_frames_wp [OF L G this]
    show "pwp (exec_frames X B M [] r) (\<lambda>a. pwp (total (eret (stack_process_return ss base a)))
        (\<lambda>out s'. \<exists>q. out = stack_process_return ss base q \<and>
           frame_done X R B (st_db (fe_state s)) (fe_worlds B s) (fe_calls s) G q s') (\<lambda>_ _. True)) (\<lambda>_ _. True) t"
      by (rule pwp_mono) (auto simp: wp_simps)
  qed simp
qed

end
