(* ===== verification/Frame_Properties.thy ===== *)
theory Frame_Properties
  imports Stack_Laws Context_Reference
begin

text \<open>
  Properties of a whole tree of calls and creates, from its outermost frame to its result, with a
  concrete machine on which they apply.
\<close>

section \<open>A reference environment\<close>

definition ref_frame_env :: "(in_memory_db, alru) frame_env" where
  "ref_frame_env = \<lparr>fe_state = ref_state Map.empty, fe_callstack = fsi_new, fe_observer = [],
     fe_cache = shared_cache_default alru_ops\<rparr>"

definition ref_frame :: "bytes option \<Rightarrow> u256 \<Rightarrow> (in_memory_db, unit) frame" where
  "ref_frame c gas = new_call_raw ref_machine ((ref_call [] gas)\<lparr>ap_code := c\<rparr>) ref_env ref_spec 0 False"

lemma ref_outside: "outside_laws ref_externals alru_map ref_backend (ref_machine :: (in_memory_db, unit) machine) (\<lambda>_. 0)"
  using ref_lru by (simp add: outside_laws_def builtin_laws_def internal_laws_def ref_machine_def wp_simps)

lemma ref_env_ok: "env_ok ref_externals alru_map ref_backend ref_frame_env"
  by (simp add: env_ok_def ref_frame_env_def ref_state_ok ref_externals_def alru_empty_ok open_frames_def fsi_new_def)

lemma ref_frame_start:
  assumes "unat gas < 2 ^ 64" "\<And>d. c = Some d \<Longrightarrow> length d < 2 ^ 63"
  shows "frame_start ref_machine (unat gas) (ref_frame c gas)"
  using assms ref_spec_ok ref_spec_start_nonce
  by (auto simp: frame_start_def ref_frame_def new_call_raw_def Let_def ref_machine_def machine_builtin_def contract_def
      frame_context_new_def schedule_ok_def params_fit_def ref_call_def)

text \<open>A delegated call to a builtin that costs more gas than there is.\<close>

definition ref_builtin :: builtin where
  "ref_builtin = \<lparr>bi_cost = (\<lambda>_. Ok 60000), bi_execute = (\<lambda>_. Ok []), bi_activate_at = 0\<rparr>"

definition ref_builtin_machine :: "(in_memory_db, unit) machine" where
  "ref_builtin_machine = ref_machine\<lparr>mc_builtins := [9 \<mapsto> ref_builtin]\<rparr>"

definition ref_delegate :: "(in_memory_db, unit) frame" where
  "ref_delegate = new_call_raw ref_builtin_machine
     ((ref_call [] 50000)\<lparr>ap_code := None, ap_value := Apparent 3, ap_call_type := DelegateCall\<rparr>) ref_env ref_spec 0 False"

lemma ref_builtin_outside: "outside_laws ref_externals alru_map ref_backend ref_builtin_machine (\<lambda>_. 0)"
  using ref_lru by (auto simp: outside_laws_def builtin_laws_def internal_laws_def ref_machine_def ref_builtin_machine_def ref_builtin_def wp_simps split: if_splits)

lemma ref_delegate_start: "frame_start ref_builtin_machine 50000 ref_delegate"
  using ref_spec_ok ref_spec_start_nonce
  by (auto simp: frame_start_def ref_delegate_def new_call_raw_def Let_def ref_machine_def ref_builtin_machine_def machine_builtin_def
      builtin_is_active_def ref_builtin_def frame_context_new_def schedule_ok_def params_fit_def ref_call_def ran_def with_space_def)

lemma ref_delegate_run:
  "\<exists>s'. frame_stack_exec ref_externals ref_backend ref_builtin_machine substate_new 21000 ref_delegate ref_frame_env =
     Some (Ok \<lparr>fso_result = Err OutOfGas, fso_substate = substate_new, fso_base_gas_required = 21000\<rparr>, s')"
  by (simp add: frame_stack_exec_def frame_exec_def frame_prepare_def ref_delegate_def new_call_raw_def pbind_def total_def
      ref_builtin_machine_def ref_machine_def machine_builtin_def builtin_is_active_def ref_builtin_def Let_def
      frame_context_new_def ref_call_def check_static_flag_def fe_observe_def on_fe_state_def on_callstack_def eff_simps ezoom_def
      in_context_def transfer_exec_balance_def frame_executable_def run_frame_def run_in_context_def exec_executable_def builtin_exec_def
      process_output_def process_return_def attempt_def finalize_def local_get_def separate_out_db_error_def settle_def
      fsi_pop_def fsi_push_def with_space_def checkpoint_def revert_to_checkpoint_def ref_frame_env_def fsi_new_def ref_state_def
      hm_simps activate_def deactivate_def exec_frames.simps stack_step_def stack_process_return_def accrue_substate_def)

text \<open>A static call to an internal contract that passes 1000 gas on to a nested call.\<close>

definition ref_trap :: action_params where
  "ref_trap = (ref_call [] 1000)\<lparr>ap_code := None, ap_code_address := 7, ap_address := 7\<rparr>"

definition ref_internal_machine :: "(in_memory_db, unit) machine" where
  "ref_internal_machine = ref_machine\<lparr>mc_internal_contracts := [9 \<mapsto> \<lparr>ic_is_active = (\<lambda>_. True),
     ic_execute = (\<lambda>p. if unat (ap_gas p) \<le> 1000 then efail OutOfGas else eret (Inr (TrapCall ref_trap, ())))\<rparr>]\<rparr>"

definition ref_internal :: "(in_memory_db, unit) frame" where
  "ref_internal = new_call_raw ref_internal_machine
     ((ref_call [] 50000)\<lparr>ap_code := None, ap_value := Apparent 0, ap_call_type := StaticCall\<rparr>) ref_env ref_spec 0 False"

lemma ref_internal_outside: "outside_laws ref_externals alru_map ref_backend ref_internal_machine (\<lambda>_. 0)"
  using ref_lru
  by (auto simp: outside_laws_def builtin_laws_def internal_laws_def ref_machine_def ref_internal_machine_def wp_simps ref_trap_def ref_call_def
      trap_allowed_def params_fit_def ctx_inv_def evolves_refl split: if_splits)

lemma ref_internal_start: "frame_start ref_internal_machine 50000 ref_internal"
  using ref_spec_ok ref_spec_start_nonce
  by (auto simp: frame_start_def ref_internal_def new_call_raw_def Let_def ref_machine_def ref_internal_machine_def machine_builtin_def
      contract_def frame_context_new_def schedule_ok_def params_fit_def ref_call_def ran_def with_space_def)

lemma ref_internal_run:
  "\<exists>parent s'. frame_exec ref_externals ref_backend ref_internal_machine ref_internal ref_frame_env =
     Some (Ok (FrameTraps (TrapCall ref_trap) parent), s') \<and> fc_depth (cf_context parent) = 0 \<and> fc_static_flag (cf_context parent)"
  by (simp add: frame_exec_def frame_prepare_def ref_internal_def new_call_raw_def pbind_def total_def
      ref_internal_machine_def ref_machine_def machine_builtin_def contract_def Let_def
      frame_context_new_def ref_call_def check_static_flag_def fe_observe_def on_fe_state_def on_callstack_def eff_simps ezoom_def
      in_context_def transfer_exec_balance_def frame_executable_def run_frame_def run_in_context_def exec_executable_def
      process_output_def process_trap_def with_space_def checkpoint_def ref_frame_env_def fsi_new_def activate_def deactivate_def)

lemma new_frame_select [simp]:
  "cf_status (new_call_raw M p e sp d static) = Input p" "cf_create_address (new_call_raw M p e sp d static) = None"
  "cf_status (new_create_raw p e sp d static) = Input p" "cf_create_address (new_create_raw p e sp d static) = Some (ap_code_address p)"
  "fc_is_create (cf_context (new_call_raw M p e sp d static)) = False" "fc_is_create (cf_context (new_create_raw p e sp d static)) = True"
  "fc_static_flag (cf_context (new_call_raw M p e sp d static)) = (static \<or> ap_call_type p = StaticCall)"
  "fc_static_flag (cf_context (new_create_raw p e sp d static)) = static"
  by (simp_all add: new_call_raw_def new_create_raw_def frame_context_new_def Let_def)

section \<open>Properties\<close>



text \<open>C7.  Calls are atomic: when the outermost frame fails or reverts, all worlds, the current one included, and the substate
  of the transaction are as before the frame; when it succeeds, the worlds under the open checkpoints are.  The call stack and the
  database are as before in both cases.\<close>

theorem frame_stack_atomic:
  assumes "outside_laws X R B M held" and "env_ok X R B s" and "frame_start M G f"
    and "frame_stack_exec X B M ss base f s = Some (Ok out, s')"
  shows "fsi_stack (fe_callstack s') = fsi_stack (fe_callstack s) \<and> st_db (fe_state s') = st_db (fe_state s) \<and>
    (case fso_result out of
       Ok fin \<Rightarrow> if fin_apply_state fin then tl (worlds B (fe_state s')) = tl (worlds B (fe_state s))
                 else worlds B (fe_state s') = worlds B (fe_state s) \<and> fso_substate out = ss
     | Err e \<Rightarrow> worlds B (fe_state s') = worlds B (fe_state s) \<and> fso_substate out = ss
     | Panic \<Rightarrow> False)"
proof -
  obtain q where q: "out = stack_process_return ss base q"
    and d: "frame_done X R B (st_db (fe_state s)) (fe_worlds B s) (fe_calls s) G q s'"
    using pwp_OkD [OF frame_stack_exec_wp [OF assms(1-3)] assms(4)] by blast
  show ?thesis
  proof (cases q)
    case (Ok fr)
    with q d show ?thesis
      by (cases "fr_substate fr")
        (auto simp: frame_done_def return_ok_def closed_def applied_def stack_process_return_def accrue_substate_def into_finalization_result_def)
  qed (use q d in \<open>auto simp: frame_done_def return_ok_def closed_def applied_def stack_process_return_def accrue_substate_def\<close>)
qed

theorem frame_stack_atomic_witness:
  "\<exists>s'. frame_stack_exec ref_externals ref_backend ref_builtin_machine substate_new 21000 ref_delegate ref_frame_env =
     Some (Ok \<lparr>fso_result = Err OutOfGas, fso_substate = substate_new, fso_base_gas_required = 21000\<rparr>, s') \<and>
     worlds ref_backend (fe_state s') = worlds ref_backend (fe_state ref_frame_env)"
proof -
  obtain s' where run: "frame_stack_exec ref_externals ref_backend ref_builtin_machine substate_new 21000 ref_delegate ref_frame_env =
     Some (Ok \<lparr>fso_result = Err OutOfGas, fso_substate = substate_new, fso_base_gas_required = 21000\<rparr>, s')"
    using ref_delegate_run by blast
  with frame_stack_atomic [OF ref_builtin_outside ref_env_ok ref_delegate_start run] show ?thesis by auto
qed

text \<open>C8.  Observers see well-nested frames: over the whole run of a transaction every notified call or create gets exactly one
  result of its kind, and the frames that are open before the run are the ones open after it.\<close>

theorem observations_well_nested:
  assumes "outside_laws X R B M held" and "env_ok X R B s" and "frame_start M G f"
    and "frame_stack_exec X B M ss base f s = Some (Ok out, s')"
  shows "open_frames (fe_observer s') = open_frames (fe_observer s)"
proof -
  have "env_ok X R B s'" "fe_calls s' = fe_calls s"
    using pwp_OkD [OF frame_stack_exec_wp [OF assms(1-3)] assms(4)] by (auto simp: frame_done_def closed_def)
  with assms(2) show ?thesis by (simp add: env_ok_def)
qed

theorem observations_well_nested_witness:
  "\<exists>out s'. frame_stack_exec ref_externals ref_backend ref_builtin_machine substate_new 21000 ref_delegate ref_frame_env =
     Some (Ok out, s') \<and> open_frames (fe_observer s') = Some []"
proof -
  obtain out s' where run: "frame_stack_exec ref_externals ref_backend ref_builtin_machine substate_new 21000 ref_delegate ref_frame_env =
     Some (Ok out, s')" using ref_delegate_run by blast
  with observations_well_nested [OF ref_builtin_outside ref_env_ok ref_delegate_start run] show ?thesis
    by (auto simp: ref_frame_env_def open_frames_def)
qed



end
