(* ===== verification/Traces.thy ===== *)
theory Traces
  imports Call_Context
begin

text \<open>
  The traces of a transaction (src/observer/trace.rs, trace_filter.rs): what an observer keeps of
  calls, creates, results and internal transfers, the pairing of actions with their results, and
  the filters on traces.  The text of an error and bloom filters are parameters.
\<close>

section \<open>Actions\<close>

record trace_call =
  tc_space :: space
  tc_from :: address
  tc_to :: address
  tc_value :: u256
  tc_gas :: u256
  tc_input :: bytes
  tc_call_type :: call_type

definition trace_call_from :: "action_params \<Rightarrow> trace_call" where
  "trace_call_from p = (case ap_call_type p of
     DelegateCall \<Rightarrow> \<lparr>tc_space = ap_space p, tc_from = ap_address p, tc_to = ap_code_address p, tc_value = action_value_value (ap_value p),
       tc_gas = ap_gas p, tc_input = (case ap_data p of Some d \<Rightarrow> d | None \<Rightarrow> []), tc_call_type = ap_call_type p\<rparr>
   | CallCode \<Rightarrow> \<lparr>tc_space = ap_space p, tc_from = ap_address p, tc_to = ap_code_address p, tc_value = action_value_value (ap_value p),
       tc_gas = ap_gas p, tc_input = (case ap_data p of Some d \<Rightarrow> d | None \<Rightarrow> []), tc_call_type = ap_call_type p\<rparr>
   | _ \<Rightarrow> \<lparr>tc_space = ap_space p, tc_from = ap_sender p, tc_to = ap_address p, tc_value = action_value_value (ap_value p),
       tc_gas = ap_gas p, tc_input = (case ap_data p of Some d \<Rightarrow> d | None \<Rightarrow> []), tc_call_type = ap_call_type p\<rparr>)"

datatype outcome = OutcomeSuccess | OutcomeReverted | OutcomeFail

record trace_call_result =
  tcr_outcome :: outcome
  tcr_gas_left :: u256
  tcr_return_data :: bytes

text \<open>\<open>show\<close> is the text that \<open>Debug\<close> derives for an error.\<close>

definition trace_call_result_from :: "(vm_error \<Rightarrow> bytes) \<Rightarrow> frame_return vm_result \<Rightarrow> ('e, trace_call_result) res" where
  "trace_call_result_from show r = (case r of
     Ok fr \<Rightarrow> rbind (rd_deref (fin_return_data fr)) (\<lambda>d.
       Ok \<lparr>tcr_outcome = (if fin_apply_state fr then OutcomeSuccess else OutcomeReverted), tcr_gas_left = fin_gas_left fr, tcr_return_data = d\<rparr>)
   | Err e \<Rightarrow> Ok \<lparr>tcr_outcome = OutcomeFail, tcr_gas_left = 0, tcr_return_data = show e\<rparr>
   | Panic \<Rightarrow> Panic)"

record trace_create =
  tk_space :: space
  tk_from :: address
  tk_value :: u256
  tk_gas :: u256
  tk_init :: bytes
  tk_create_type :: create_type

definition trace_create_from :: "action_params \<Rightarrow> trace_create" where
  "trace_create_from p = \<lparr>tk_space = ap_space p, tk_from = ap_sender p, tk_value = action_value_value (ap_value p), tk_gas = ap_gas p,
     tk_init = (case ap_code p of Some c \<Rightarrow> c | None \<Rightarrow> []), tk_create_type = ap_create_type p\<rparr>"

record trace_create_result =
  tkr_outcome :: outcome
  tkr_addr :: address
  tkr_gas_left :: u256
  tkr_return_data :: bytes

definition trace_create_result_from :: "(vm_error \<Rightarrow> bytes) \<Rightarrow> frame_return vm_result \<Rightarrow> ('e, trace_create_result) res" where
  "trace_create_result_from show r = (case r of
     Ok fr \<Rightarrow>
       if fin_apply_state fr then (case fr_create_address fr of
           None \<Rightarrow> Panic
         | Some a \<Rightarrow> rbind (rd_deref (fin_return_data fr)) (\<lambda>d.
             Ok \<lparr>tkr_outcome = OutcomeSuccess, tkr_addr = a, tkr_gas_left = fin_gas_left fr, tkr_return_data = d\<rparr>))
       else rbind (rd_deref (fin_return_data fr)) (\<lambda>d.
         Ok \<lparr>tkr_outcome = OutcomeReverted, tkr_addr = 0, tkr_gas_left = fin_gas_left fr, tkr_return_data = d\<rparr>)
   | Err e \<Rightarrow> Ok \<lparr>tkr_outcome = OutcomeFail, tkr_addr = 0, tkr_gas_left = 0, tkr_return_data = show e\<rparr>
   | Panic \<Rightarrow> Panic)"

record internal_transfer_action =
  ita_from :: address_pocket
  ita_to :: address_pocket
  ita_value :: u256

datatype action =
    ActCall trace_call
  | ActCreate trace_create
  | ActCallResult trace_call_result
  | ActCreateResult trace_create_result
  | ActInternalTransfer internal_transfer_action

record exec_trace =
  xt_action :: action
  xt_valid :: bool

section \<open>Addresses of pockets\<close>

definition inner_address :: "address_pocket \<Rightarrow> address option" where
  "inner_address p = (case p of Balance a \<Rightarrow> Some (aws_address a) | MintBurn \<Rightarrow> None | GasPayment \<Rightarrow> None)"

definition inner_address_or_default :: "address_pocket \<Rightarrow> address" where
  "inner_address_or_default p = (case inner_address p of Some a \<Rightarrow> a | None \<Rightarrow> 0)"

definition pocket :: "address_pocket \<Rightarrow> string" where
  "pocket p = (case p of Balance _ \<Rightarrow> ''balance'' | MintBurn \<Rightarrow> ''mint_or_burn'' | GasPayment \<Rightarrow> ''gas_payment'')"

definition pocket_space :: "address_pocket \<Rightarrow> string" where
  "pocket_space p = (case p of Balance a \<Rightarrow> (case aws_space a of Ethereum \<Rightarrow> ''evm'') | MintBurn \<Rightarrow> ''none'' | GasPayment \<Rightarrow> ''none'')"

definition pocket_type_number :: "address_pocket \<Rightarrow> byte" where
  "pocket_type_number p = (case p of MintBurn \<Rightarrow> 0 | GasPayment \<Rightarrow> 1 | Balance _ \<Rightarrow> 2)"

section \<open>Bloom filters\<close>

text \<open>The operations of the \<open>Bloom\<close> type, which the source takes from a library.\<close>

record 'b bloom_ops =
  bloom_default :: 'b
  bloom_accrue :: "bytes \<Rightarrow> 'b \<Rightarrow> 'b"
  bloom_union :: "'b \<Rightarrow> 'b \<Rightarrow> 'b"

definition call_bloom :: "'b bloom_ops \<Rightarrow> trace_call \<Rightarrow> 'b" where
  "call_bloom Bl c = bloom_accrue Bl (to_be 20 (tc_to c)) (bloom_accrue Bl (to_be 20 (tc_from c)) (bloom_default Bl))"

definition create_bloom :: "'b bloom_ops \<Rightarrow> trace_create \<Rightarrow> 'b" where
  "create_bloom Bl c = bloom_accrue Bl (to_be 20 (tk_from c)) (bloom_default Bl)"

definition create_result_bloom :: "'b bloom_ops \<Rightarrow> trace_create_result \<Rightarrow> 'b" where
  "create_result_bloom Bl r =
     (if tkr_outcome r = OutcomeSuccess then bloom_accrue Bl (to_be 20 (tkr_addr r)) (bloom_default Bl) else bloom_default Bl)"

definition internal_transfer_bloom :: "'b bloom_ops \<Rightarrow> internal_transfer_action \<Rightarrow> 'b" where
  "internal_transfer_bloom Bl i = bloom_accrue Bl (to_be 20 (inner_address_or_default (ita_to i)))
     (bloom_accrue Bl (to_be 20 (inner_address_or_default (ita_from i))) (bloom_default Bl))"

definition action_bloom :: "'b bloom_ops \<Rightarrow> action \<Rightarrow> 'b" where
  "action_bloom Bl a = (case a of
     ActCall c \<Rightarrow> call_bloom Bl c
   | ActCreate c \<Rightarrow> create_bloom Bl c
   | ActCallResult _ \<Rightarrow> bloom_default Bl
   | ActCreateResult r \<Rightarrow> create_result_bloom Bl r
   | ActInternalTransfer i \<Rightarrow> internal_transfer_bloom Bl i)"

definition traces_bloom :: "'b bloom_ops \<Rightarrow> exec_trace list \<Rightarrow> 'b" where
  "traces_bloom Bl ts = fold (\<lambda>t b. bloom_union Bl b (action_bloom Bl (xt_action t))) ts (bloom_default Bl)"

definition block_traces_bloom :: "'b bloom_ops \<Rightarrow> exec_trace list list \<Rightarrow> 'b" where
  "block_traces_bloom Bl bs = fold (\<lambda>ts b. bloom_union Bl b (traces_bloom Bl ts)) bs (bloom_default Bl)"

section \<open>Filters\<close>

datatype action_type = TypeCall | TypeCreate | TypeCallResult | TypeCreateResult | TypeInternalTransfer

definition filter_matches :: "'a list \<Rightarrow> 'a \<Rightarrow> bool" where
  "filter_matches xs a \<longleftrightarrow> xs = [] \<or> a \<in> set xs"

record trace_filter =
  tf_from_address :: "address list"
  tf_to_address :: "address list"
  tf_action_types :: "action_type list"
  tf_space :: space

definition space_filter :: "space \<Rightarrow> trace_filter" where
  "space_filter sc = \<lparr>tf_from_address = [], tf_to_address = [], tf_action_types = [], tf_space = sc\<rparr>"

definition call_matches :: "trace_filter \<Rightarrow> trace_call \<Rightarrow> bool" where
  "call_matches f c \<longleftrightarrow> tc_space c = tf_space f \<and> filter_matches (tf_from_address f) (tc_from c) \<and>
     filter_matches (tf_to_address f) (tc_to c) \<and> filter_matches (tf_action_types f) TypeCall"

definition create_matches :: "trace_filter \<Rightarrow> trace_create \<Rightarrow> bool" where
  "create_matches f c \<longleftrightarrow> tk_space c = tf_space f \<and> filter_matches (tf_from_address f) (tk_from c) \<and>
     filter_matches (tf_action_types f) TypeCreate"

text \<open>\<open>filter_traces\<close>: the traces kept so far and the stack of decisions.\<close>

fun filter_step :: "trace_filter \<Rightarrow> exec_trace \<Rightarrow> exec_trace list \<times> bool list \<Rightarrow> (string, exec_trace list \<times> bool list) res" where
  "filter_step f t (traces, stack) = (case xt_action t of
     ActCall c \<Rightarrow> if call_matches f c then Ok (traces @ [t], True # stack) else Ok (traces, False # stack)
   | ActCreate c \<Rightarrow> if create_matches f c then Ok (traces @ [t], True # stack) else Ok (traces, False # stack)
   | ActCallResult _ \<Rightarrow> (case stack of
        [] \<Rightarrow> Err ''result left unmatched!'' | b # rest \<Rightarrow> Ok (if b then traces @ [t] else traces, rest))
   | ActCreateResult _ \<Rightarrow> (case stack of
        [] \<Rightarrow> Err ''result left unmatched!'' | b # rest \<Rightarrow> Ok (if b then traces @ [t] else traces, rest))
   | ActInternalTransfer _ \<Rightarrow> Ok (traces @ [t], stack))"

fun rfold :: "('a \<Rightarrow> 's \<Rightarrow> ('e, 's) res) \<Rightarrow> 'a list \<Rightarrow> 's \<Rightarrow> ('e, 's) res" where
  "rfold f [] s = Ok s"
| "rfold f (x # xs) s = rbind (f x s) (rfold f xs)"

definition filter_traces :: "trace_filter \<Rightarrow> exec_trace list \<Rightarrow> (string, exec_trace list) res" where
  "filter_traces f ts = rbind (rfold (filter_step f) ts ([], [])) (\<lambda>(traces, stack).
     if stack \<noteq> [] then Err ''actions left unmatched!'' else Ok traces)"

definition filter_space :: "space \<Rightarrow> exec_trace list \<Rightarrow> exec_trace list" where
  "filter_space sc ts = (case filter_traces (space_filter sc) ts of Ok r \<Rightarrow> r | _ \<Rightarrow> [])"

definition block_filter_space :: "space \<Rightarrow> exec_trace list list \<Rightarrow> exec_trace list list" where
  "block_filter_space sc bs = map (filter_space sc) bs"

text \<open>\<open>filter_trace_pairs\<close>: the pairs, the stack of their indices, and the stack of the numbers of subtraces.\<close>

record pair_state =
  ps_pairs :: "(exec_trace \<times> exec_trace option \<times> nat) list"
  ps_index :: "nat option list"
  ps_sublen :: "nat list"

definition pair_open :: "bool \<Rightarrow> bool \<Rightarrow> exec_trace \<Rightarrow> pair_state \<Rightarrow> pair_state" where
  "pair_open same_space matches t s =
     (let sub = (if same_space then (case ps_sublen s of [] \<Rightarrow> [] | n # ns \<Rightarrow> Suc n # ns) else ps_sublen s)
      in if matches then s\<lparr>ps_sublen := 0 # sub, ps_index := Some (length (ps_pairs s)) # ps_index s, ps_pairs := ps_pairs s @ [(t, None, 0)]\<rparr>
         else s\<lparr>ps_sublen := 0 # sub, ps_index := None # ps_index s\<rparr>)"

definition pair_close :: "exec_trace \<Rightarrow> pair_state \<Rightarrow> (string, pair_state) res" where
  "pair_close t s = (case ps_index s of
     [] \<Rightarrow> Err ''result left unmatched!''
   | Some i # rest \<Rightarrow>
       if length (ps_pairs s) \<le> i then Panic
       else (case ps_sublen s of
           [] \<Rightarrow> Panic
         | n # ns \<Rightarrow> Ok (s\<lparr>ps_index := rest, ps_sublen := ns, ps_pairs := (ps_pairs s)[i := (fst (ps_pairs s ! i), Some t, n)]\<rparr>))
   | None # rest \<Rightarrow> Ok (s\<lparr>ps_index := rest, ps_sublen := tl (ps_sublen s)\<rparr>))"

definition pair_step :: "trace_filter \<Rightarrow> exec_trace \<Rightarrow> pair_state \<Rightarrow> (string, pair_state) res" where
  "pair_step f t s = (case xt_action t of
     ActCall c \<Rightarrow> Ok (pair_open (tc_space c = tf_space f) (call_matches f c) t s)
   | ActCreate c \<Rightarrow> Ok (pair_open (tk_space c = tf_space f) (create_matches f c) t s)
   | ActCallResult _ \<Rightarrow> pair_close t s
   | ActCreateResult _ \<Rightarrow> pair_close t s
   | ActInternalTransfer _ \<Rightarrow> Ok s)"

fun take_pair :: "exec_trace \<times> exec_trace option \<times> nat \<Rightarrow> (string, exec_trace \<times> exec_trace \<times> nat) res" where
  "take_pair (a, Some r, n) = Ok (a, r, n)"
| "take_pair (a, None, n) = Panic"

fun rmapM :: "('a \<Rightarrow> ('e, 'b) res) \<Rightarrow> 'a list \<Rightarrow> ('e, 'b list) res" where
  "rmapM f [] = Ok []"
| "rmapM f (x # xs) = rbind (f x) (\<lambda>y. rbind (rmapM f xs) (\<lambda>ys. Ok (y # ys)))"

definition filter_trace_pairs :: "trace_filter \<Rightarrow> exec_trace list \<Rightarrow> (string, (exec_trace \<times> exec_trace \<times> nat) list) res" where
  "filter_trace_pairs f ts = rbind (rfold (pair_step f) ts \<lparr>ps_pairs = [], ps_index = [], ps_sublen = []\<rparr>) (\<lambda>s.
     if ps_index s \<noteq> [] then Err ''actions left unmatched!'' else rmapM take_pair (ps_pairs s))"

end
