(* ===== verification/Observers.thy ===== *)
theory Observers
  imports Traces
begin

text \<open>
  The observers of a transaction (src/observer): the tracer that marks which actions stay valid
  (tracer.rs), the estimator of the gas limit (gasman.rs), the two of them together
  (multi_observers.rs), and the analysis of an error from the traces (error_unwind.rs).  Each
  consumes the notifications of the frames one by one and may panic on them.
\<close>

section \<open>The tracer\<close>

record checkpoint_log =
  cl_data :: "nat list"
  cl_checkpoints :: "nat list"

definition cl_push :: "nat \<Rightarrow> checkpoint_log \<Rightarrow> checkpoint_log" where
  "cl_push i l = l\<lparr>cl_data := cl_data l @ [i]\<rparr>"

definition cl_checkpoint :: "checkpoint_log \<Rightarrow> checkpoint_log" where
  "cl_checkpoint l = l\<lparr>cl_checkpoints := length (cl_data l) # cl_checkpoints l\<rparr>"

definition cl_revert_checkpoint :: "checkpoint_log \<Rightarrow> ('e, checkpoint_log) res" where
  "cl_revert_checkpoint l = (case cl_checkpoints l of
     [] \<Rightarrow> Panic | start # rest \<Rightarrow> Ok (l\<lparr>cl_checkpoints := rest, cl_data := take start (cl_data l)\<rparr>))"

definition cl_discard_checkpoint :: "checkpoint_log \<Rightarrow> ('e, checkpoint_log) res" where
  "cl_discard_checkpoint l = (case cl_checkpoints l of [] \<Rightarrow> Panic | _ # rest \<Rightarrow> Ok (l\<lparr>cl_checkpoints := rest\<rparr>))"

record executive_tracer =
  et_traces :: "action list"
  et_valid_indices :: checkpoint_log

definition executive_tracer_default :: executive_tracer where
  "executive_tracer_default = \<lparr>et_traces = [], et_valid_indices = \<lparr>cl_data = [], cl_checkpoints = []\<rparr>\<rparr>"

definition trace_internal_transfer :: "address_pocket \<Rightarrow> address_pocket \<Rightarrow> u256 \<Rightarrow> executive_tracer \<Rightarrow> executive_tracer" where
  "trace_internal_transfer from to v t = t\<lparr>et_valid_indices := cl_push (length (et_traces t)) (et_valid_indices t),
     et_traces := et_traces t @ [ActInternalTransfer \<lparr>ita_from = from, ita_to = to, ita_value = v\<rparr>]\<rparr>"

definition record_start :: "action \<Rightarrow> executive_tracer \<Rightarrow> executive_tracer" where
  "record_start a t = t\<lparr>et_valid_indices := cl_push (length (et_traces t)) (cl_checkpoint (et_valid_indices t)),
     et_traces := et_traces t @ [a]\<rparr>"

definition record_end :: "action \<Rightarrow> frame_return vm_result \<Rightarrow> executive_tracer \<Rightarrow> ('e, executive_tracer) res" where
  "record_end a r t =
     (let success = (case r of Ok fr \<Rightarrow> fin_apply_state fr | _ \<Rightarrow> False);
          l = cl_push (length (et_traces t)) (et_valid_indices t)
      in rbind (if success then cl_discard_checkpoint l else cl_revert_checkpoint l) (\<lambda>l'.
         Ok (t\<lparr>et_valid_indices := l', et_traces := et_traces t @ [a]\<rparr>)))"

definition record_call :: "action_params \<Rightarrow> executive_tracer \<Rightarrow> executive_tracer" where
  "record_call p = record_start (ActCall (trace_call_from p))"

definition record_create :: "action_params \<Rightarrow> executive_tracer \<Rightarrow> executive_tracer" where
  "record_create p = record_start (ActCreate (trace_create_from p))"

definition record_call_result :: "(vm_error \<Rightarrow> bytes) \<Rightarrow> frame_return vm_result \<Rightarrow> executive_tracer \<Rightarrow> ('e, executive_tracer) res" where
  "record_call_result show r t = rbind (trace_call_result_from show r) (\<lambda>a. record_end (ActCallResult a) r t)"

definition record_create_result :: "(vm_error \<Rightarrow> bytes) \<Rightarrow> frame_return vm_result \<Rightarrow> executive_tracer \<Rightarrow> ('e, executive_tracer) res" where
  "record_create_result show r t = rbind (trace_create_result_from show r) (\<lambda>a. record_end (ActCreateResult a) r t)"

definition tracer_observe :: "(vm_error \<Rightarrow> bytes) \<Rightarrow> observation \<Rightarrow> executive_tracer \<Rightarrow> ('e, executive_tracer) res" where
  "tracer_observe show x t = (case x of
     ObsCall p \<Rightarrow> Ok (record_call p t)
   | ObsCallResult r \<Rightarrow> record_call_result show r t
   | ObsCreate p \<Rightarrow> Ok (record_create p t)
   | ObsCreateResult r \<Rightarrow> record_create_result show r t
   | ObsTransfer from to v \<Rightarrow> Ok (trace_internal_transfer from to v t))"

text \<open>\<open>drain\<close>: an index that is out of range panics.\<close>

definition mark_valid :: "nat \<Rightarrow> bool list \<Rightarrow> ('e, bool list) res" where
  "mark_valid i v = (if i < length v then Ok (v[i := True]) else Panic)"

definition drain :: "executive_tracer \<Rightarrow> ('e, exec_trace list) res" where
  "drain t = rbind (rfold mark_valid (cl_data (et_valid_indices t)) (replicate (length (et_traces t)) False)) (\<lambda>validity.
     Ok (map (\<lambda>(a, v). \<lparr>xt_action = a, xt_valid = v\<rparr>) (zip (et_traces t) validity)))"

section \<open>Estimating the gas limit\<close>

definition CROSS_SPACE_GAS_RATIO :: u64 where
  "CROSS_SPACE_GAS_RATIO = 10"

definition CROSS_SPACE_CONTRACT_ADDRESS :: address where
  "CROSS_SPACE_CONTRACT_ADDRESS = 0x0888000000000000000000000000000000000006"

definition EVM_RATIO :: "u64 \<times> u64" where
  "EVM_RATIO = (64, 63)"

definition CROSS_SPACE_RATIO :: "u64 \<times> u64" where
  "CROSS_SPACE_RATIO = (CROSS_SPACE_GAS_RATIO, 1)"

record executive_level =
  el_init_gas :: u256
  el_gas_cost_in_subcall :: u256
  el_gas_limit_for_subcall :: u256
  el_cross_space_internal :: bool

definition level_gas_cost :: "executive_level \<Rightarrow> u256 \<Rightarrow> u256" where
  "level_gas_cost l gas_left = saturating_sub (el_init_gas l) gas_left"

definition gas_cost_this_level :: "executive_level \<Rightarrow> u256 \<Rightarrow> u256" where
  "gas_cost_this_level l gas_left = saturating_sub (level_gas_cost l gas_left) (el_gas_cost_in_subcall l)"

definition minimum_init_gas :: "executive_level \<Rightarrow> u256 \<Rightarrow> u64 \<times> u64 \<Rightarrow> ('e, u256) res" where
  "minimum_init_gas l gas_left ratio = (case ratio of (numerator, denominator) \<Rightarrow>
     rbind (u_mul (el_gas_limit_for_subcall l) (ucast numerator)) (\<lambda>m.
     rbind (u_add m (ucast denominator)) (\<lambda>m.
     rbind (u_sub m 1) (\<lambda>m.
     if denominator = 0 then Panic else u_add (gas_cost_this_level l gas_left) (m div ucast denominator)))))"

record gas_man =
  gm_gas_limit :: u256
  gm_gas_record :: "executive_level list"

definition gas_man_default :: gas_man where
  "gas_man_default = \<lparr>gm_gas_limit = 0, gm_gas_record = []\<rparr>"

definition gas_required :: "gas_man \<Rightarrow> u256" where
  "gas_required g = gm_gas_limit g"

definition record_call_create :: "u256 \<Rightarrow> bool \<Rightarrow> gas_man \<Rightarrow> gas_man" where
  "record_call_create gas_pass_in cross g = g\<lparr>gm_gas_record :=
     \<lparr>el_init_gas = gas_pass_in, el_gas_cost_in_subcall = 0, el_gas_limit_for_subcall = 0, el_cross_space_internal = cross\<rparr> # gm_gas_record g\<rparr>"

definition record_return :: "u256 \<Rightarrow> gas_man \<Rightarrow> ('e, gas_man) res" where
  "record_return gas_left g = (case gm_gas_record g of
     [] \<Rightarrow> Panic
   | child # rest \<Rightarrow>
       (let ratio = (if el_cross_space_internal child then CROSS_SPACE_RATIO else EVM_RATIO) in
        case rest of
          parent # levels \<Rightarrow>
            rbind (u_add (el_gas_cost_in_subcall parent) (level_gas_cost child gas_left)) (\<lambda>cost.
            rbind (minimum_init_gas child gas_left ratio) (\<lambda>m.
            rbind (u_add (el_gas_limit_for_subcall parent) m) (\<lambda>limit.
            Ok (g\<lparr>gm_gas_record := parent\<lparr>el_gas_cost_in_subcall := cost, el_gas_limit_for_subcall := limit\<rparr> # levels\<rparr>))))
        | [] \<Rightarrow> rbind (minimum_init_gas child gas_left ratio) (\<lambda>m. Ok (g\<lparr>gm_gas_record := [], gm_gas_limit := m\<rparr>))))"

definition result_gas_left :: "frame_return vm_result \<Rightarrow> u256" where
  "result_gas_left r = (case r of Ok fr \<Rightarrow> fin_gas_left fr | _ \<Rightarrow> 0)"

definition gas_man_observe :: "observation \<Rightarrow> gas_man \<Rightarrow> ('e, gas_man) res" where
  "gas_man_observe x g = (case x of
     ObsCall p \<Rightarrow> Ok (record_call_create (ap_gas p) (ap_code_address p = CROSS_SPACE_CONTRACT_ADDRESS) g)
   | ObsCallResult r \<Rightarrow> record_return (result_gas_left r) g
   | ObsCreate p \<Rightarrow> Ok (record_call_create (ap_gas p) False g)
   | ObsCreateResult r \<Rightarrow> record_return (result_gas_left r) g
   | ObsTransfer _ _ _ \<Rightarrow> Ok g)"

section \<open>All observers\<close>

record multi_observers =
  mo_tracer :: "executive_tracer option"
  mo_gas_man :: "gas_man option"

definition with_tracing :: multi_observers where
  "with_tracing = \<lparr>mo_tracer = Some executive_tracer_default, mo_gas_man = None\<rparr>"

definition with_no_tracing :: multi_observers where
  "with_no_tracing = \<lparr>mo_tracer = None, mo_gas_man = None\<rparr>"

definition virtual_call :: multi_observers where
  "virtual_call = \<lparr>mo_tracer = Some executive_tracer_default, mo_gas_man = Some gas_man_default\<rparr>"

text \<open>\<open>as_vm_observe\<close>: the tracer first, then the estimator.\<close>

definition multi_observe :: "(vm_error \<Rightarrow> bytes) \<Rightarrow> observation \<Rightarrow> multi_observers \<Rightarrow> ('e, multi_observers) res" where
  "multi_observe show x m =
     rbind (case mo_tracer m of None \<Rightarrow> Ok None | Some t \<Rightarrow> rbind (tracer_observe show x t) (\<lambda>t. Ok (Some t))) (\<lambda>t.
     rbind (case mo_gas_man m of None \<Rightarrow> Ok None | Some g \<Rightarrow> rbind (gas_man_observe x g) (\<lambda>g. Ok (Some g))) (\<lambda>g.
     Ok \<lparr>mo_tracer = t, mo_gas_man = g\<rparr>))"

definition observe_all :: "(vm_error \<Rightarrow> bytes) \<Rightarrow> observation list \<Rightarrow> multi_observers \<Rightarrow> ('e, multi_observers) res" where
  "observe_all show xs = rfold (multi_observe show) xs"

section \<open>The error of a transaction\<close>

text \<open>
  \<open>revert_reason_decode\<close> (src/execution/executed.rs): \<open>decode\<close> is the ABI decoder of strings, which
  are their UTF-8 bytes here.  Cutting a string inside a character panics.
\<close>

definition is_char_boundary :: "bytes \<Rightarrow> nat \<Rightarrow> bool" where
  "is_char_boundary s i \<longleftrightarrow> i = 0 \<or> i = length s \<or> i < length s \<and> \<not> (0x80 \<le> s ! i \<and> s ! i < 0xC0)"

definition MAX_REASON_LENGTH :: nat where
  "MAX_REASON_LENGTH = 50"

definition revert_reason_decode :: "(bytes \<Rightarrow> bytes option) \<Rightarrow> bytes \<Rightarrow> ('e, bytes) res" where
  "revert_reason_decode decode output =
     (let result = (if length output < 4 then None
        else if take 4 output \<noteq> [8, 195, 121, 160] then None
        else decode (drop 4 output))
      in case result of
        None \<Rightarrow> Ok []
      | Some s \<Rightarrow> if length s < MAX_REASON_LENGTH then Ok s
          else if is_char_boundary s MAX_REASON_LENGTH then Ok (take MAX_REASON_LENGTH s @ [46, 46, 46])
          else Panic)"

record error_unwind =
  eu_callstack :: "address list"
  eu_errors :: "(address \<times> bytes) list"

definition error_unwind_default :: error_unwind where
  "error_unwind_default = \<lparr>eu_callstack = [], eu_errors = []\<rparr>"

text \<open>The bytes of the text \<open>Vm reverted.\<close> and a blank.\<close>

definition VM_REVERTED :: bytes where
  "VM_REVERTED = [86, 109, 32, 114, 101, 118, 101, 114, 116, 101, 100, 46, 32]"

text \<open>\<open>utf8\<close> tells whether bytes are valid UTF-8.\<close>

definition error_message ::
  "(bytes \<Rightarrow> bytes option) \<Rightarrow> (bytes \<Rightarrow> bool) \<Rightarrow> outcome \<Rightarrow> bytes \<Rightarrow> ('e, bytes option) res" where
  "error_message decode utf8 oc return_data = (case oc of
     OutcomeSuccess \<Rightarrow> Ok None
   | OutcomeReverted \<Rightarrow> rbind (revert_reason_decode decode return_data) (\<lambda>s. Ok (Some (VM_REVERTED @ s)))
   | OutcomeFail \<Rightarrow> if utf8 return_data then Ok (Some return_data) else Panic)"

definition accept_result :: "address \<Rightarrow> bytes option \<Rightarrow> error_unwind \<Rightarrow> error_unwind" where
  "accept_result a m e = (case m of Some s \<Rightarrow> e\<lparr>eu_errors := eu_errors e @ [(a, s)]\<rparr> | None \<Rightarrow> e\<lparr>eu_errors := []\<rparr>)"

definition unwind_step ::
  "(bytes \<Rightarrow> bytes option) \<Rightarrow> (bytes \<Rightarrow> bool) \<Rightarrow> exec_trace \<Rightarrow> error_unwind \<Rightarrow> ('e, error_unwind) res" where
  "unwind_step decode utf8 t e = (case xt_action t of
     ActCall c \<Rightarrow> Ok (e\<lparr>eu_callstack := tc_to c # eu_callstack e, eu_errors := []\<rparr>)
   | ActCreate c \<Rightarrow> Ok (e\<lparr>eu_errors := []\<rparr>)
   | ActCallResult r \<Rightarrow> (case eu_callstack e of
       [] \<Rightarrow> Panic
     | a # rest \<Rightarrow> rbind (error_message decode utf8 (tcr_outcome r) (tcr_return_data r)) (\<lambda>m.
         Ok (accept_result a m (e\<lparr>eu_callstack := rest\<rparr>))))
   | ActCreateResult r \<Rightarrow> rbind (error_message decode utf8 (tkr_outcome r) (tkr_return_data r)) (\<lambda>m. Ok (accept_result (tkr_addr r) m e))
   | ActInternalTransfer _ \<Rightarrow> Ok e)"

definition from_traces :: "(bytes \<Rightarrow> bytes option) \<Rightarrow> (bytes \<Rightarrow> bool) \<Rightarrow> exec_trace list \<Rightarrow> ('e, error_unwind) res" where
  "from_traces decode utf8 ts = rfold (unwind_step decode utf8) ts error_unwind_default"

end
