(* ===== verification/Observer_Laws.thy ===== *)
theory Observer_Laws
  imports Observers Frame_Runs
begin

text \<open>
  The notifications of a run as a forest: every call and create encloses the notifications of the
  frames it started.  What the observers make of them is stated by recursion over that forest.
\<close>

section \<open>Forests of frames\<close>

datatype call_tree =
    Transferred address_pocket address_pocket u256
  | Framed bool action_params "call_tree list" "frame_return vm_result"

definition start_obs :: "bool \<Rightarrow> action_params \<Rightarrow> observation" where
  "start_obs k p = (if k then ObsCreate p else ObsCall p)"

definition end_obs :: "bool \<Rightarrow> frame_return vm_result \<Rightarrow> observation" where
  "end_obs k r = (if k then ObsCreateResult r else ObsCallResult r)"

primrec notifications :: "call_tree \<Rightarrow> observation list" where
  "notifications (Transferred a b v) = [ObsTransfer a b v]"
| "notifications (Framed k p ns r) = start_obs k p # concat (map notifications ns) @ [end_obs k r]"

abbreviation forest_notifications :: "call_tree list \<Rightarrow> observation list" where
  "forest_notifications ns \<equiv> concat (map notifications ns)"

primrec tree_fits :: "call_tree \<Rightarrow> bool" where
  "tree_fits (Transferred a b v) \<longleftrightarrow> True"
| "tree_fits (Framed k p ns r) \<longleftrightarrow> result_fits k r \<and> list_all tree_fits ns"

text \<open>Notifications with frames still open: the finished trees of the base and of every open frame.\<close>

fun shape :: "call_tree list \<Rightarrow> (bool \<times> action_params \<times> call_tree list) list \<Rightarrow> observation list" where
  "shape base [] = forest_notifications base"
| "shape base ((k, p, ns) # st) = shape base st @ start_obs k p # forest_notifications ns"

lemma shape_grow: "\<exists>base' st'. map fst st' = map fst st \<and> shape base st @ notifications n = shape base' st'"
proof (cases st)
  case Nil
  then have "map fst [] = map fst st \<and> shape base st @ notifications n = shape (base @ [n]) []" by simp
  then show ?thesis by blast
next
  case (Cons x rest)
  obtain k p ns where x: "x = (k, p, ns)" by (cases x)
  then have "map fst ((k, p, ns @ [n]) # rest) = map fst st \<and> shape base st @ notifications n = shape base ((k, p, ns @ [n]) # rest)"
    using Cons by simp
  then show ?thesis by blast
qed

lemma observe_frames_cases:
  assumes "observe_frames x ks = Some ks'"
  obtains (transfer) a b v where "x = ObsTransfer a b v" "ks = Some ks'"
    | (start) k p ks0 where "x = start_obs k p" "ks = Some ks0" "ks' = k # ks0"
    | (end_of) k r where "x = end_obs k r" "ks = Some (k # ks')"
  using assms that(2) [of False] that(2) [of True] that(3) [of False] that(3) [of True] that(1)
  by (cases "(x, ks)" rule: observe_frames.cases) (auto simp: start_obs_def end_obs_def)

text \<open>Notifications that are well nested are a forest.\<close>

lemma open_frames_shape: "open_frames xs = Some ks \<Longrightarrow> \<exists>base st. map fst st = ks \<and> xs = shape base st"
proof (induction xs arbitrary: ks rule: rev_induct)
  case Nil
  then have "map fst [] = ks \<and> [] = shape [] []" by (simp add: open_frames_def)
  then show ?case by blast
next
  case (snoc x xs)
  from snoc.prems have "observe_frames x (open_frames xs) = Some ks" by (simp add: open_frames_snoc)
  then show ?case
  proof (cases rule: observe_frames_cases)
    case (transfer a b v)
    with snoc.IH obtain base st where "map fst st = ks" "xs = shape base st" by blast
    with shape_grow [of st base "Transferred a b v"] transfer show ?thesis by auto
  next
    case (start k p ks0)
    with snoc.IH obtain base st where "map fst st = ks0" "xs = shape base st" by blast
    with start have "map fst ((k, p, []) # st) = ks \<and> xs @ [x] = shape base ((k, p, []) # st)" by simp
    then show ?thesis by blast
  next
    case (end_of k r)
    from snoc.IH [OF end_of(2)] obtain base st where st: "map fst st = k # ks" "xs = shape base st" by (elim exE conjE)
    then obtain p ns rest where "st = (k, p, ns) # rest" by (cases st) auto
    with st end_of shape_grow [of rest base "Framed k p ns r"] show ?thesis by auto
  qed
qed

lemma well_nested_forest: "open_frames xs = Some [] \<Longrightarrow> \<exists>ns. xs = forest_notifications ns"
  using open_frames_shape [of xs "[]"] by auto

lemma notifications_fit: "list_all obs_fits (notifications n) \<longleftrightarrow> tree_fits n"
  by (induction n) (auto simp: obs_fits_def start_obs_def end_obs_def list_all_iff)

lemma forest_fits: "list_all obs_fits (forest_notifications ns) \<longleftrightarrow> list_all tree_fits ns"
  by (induction ns) (auto simp: notifications_fit list_all_append)

lemma rbind_assoc: "rbind (rbind r f) g = rbind r (\<lambda>a. rbind (f a) g)"
  by (cases r) simp_all

lemma rbind_cong: "r = r' \<Longrightarrow> (\<And>a. f a = g a) \<Longrightarrow> rbind r f = rbind r' g"
  by (cases r') simp_all

lemma rfold_append: "rfold f (xs @ ys) s = rbind (rfold f xs s) (rfold f ys)"
  by (induction xs arbitrary: s) (simp_all add: rbind_assoc cong: rbind_cong)

section \<open>The tracer\<close>

definition start_action :: "bool \<Rightarrow> action_params \<Rightarrow> action" where
  "start_action k p = (if k then ActCreate (trace_create_from p) else ActCall (trace_call_from p))"

definition end_action :: "(vm_error \<Rightarrow> bytes) \<Rightarrow> bool \<Rightarrow> frame_return vm_result \<Rightarrow> ('e, action) res" where
  "end_action show k r = (if k then rbind (trace_create_result_from show r) (\<lambda>a. Ok (ActCreateResult a))
     else rbind (trace_call_result_from show r) (\<lambda>a. Ok (ActCallResult a)))"

text \<open>The action of a result that converts.\<close>

definition end_action_of :: "(vm_error \<Rightarrow> bytes) \<Rightarrow> bool \<Rightarrow> frame_return vm_result \<Rightarrow> action" where
  "end_action_of show k r = (case (end_action show k r :: (unit, action) res) of Ok a \<Rightarrow> a | _ \<Rightarrow> ActCallResult \<lparr>tcr_outcome = OutcomeFail, tcr_gas_left = 0, tcr_return_data = []\<rparr>)"

definition succeeded :: "frame_return vm_result \<Rightarrow> bool" where
  "succeeded r = (case r of Ok fr \<Rightarrow> fin_apply_state fr | _ \<Rightarrow> False)"

lemma end_action_Ok: "result_fits k r \<Longrightarrow> end_action show k r = Ok (end_action_of show k r)"
  by (cases r) (auto simp: result_fits_def end_action_def end_action_of_def trace_call_result_from_def trace_create_result_from_def
      rd_deref_Ok rbind_Ok_iff split: option.splits)

text \<open>The traces of a tree; an action is valid when its own frame and all frames around it succeeded.\<close>

primrec trace_of :: "(vm_error \<Rightarrow> bytes) \<Rightarrow> bool \<Rightarrow> call_tree \<Rightarrow> exec_trace list" where
  "trace_of show ok (Transferred a b v) =
     [\<lparr>xt_action = ActInternalTransfer \<lparr>ita_from = a, ita_to = b, ita_value = v\<rparr>, xt_valid = ok\<rparr>]"
| "trace_of show ok (Framed k p ns r) =
     \<lparr>xt_action = start_action k p, xt_valid = ok \<and> succeeded r\<rparr> # concat (map (trace_of show (ok \<and> succeeded r)) ns)
     @ [\<lparr>xt_action = end_action_of show k r, xt_valid = ok \<and> succeeded r\<rparr>]"

definition valid_from :: "nat \<Rightarrow> exec_trace list \<Rightarrow> nat list" where
  "valid_from n ts = map fst (filter (\<lambda>(i, t). xt_valid t) (enumerate n ts))"

lemma valid_from_simps [simp]:
  "valid_from n [] = []"
  "valid_from n (t # ts) = (if xt_valid t then n # valid_from (Suc n) ts else valid_from (Suc n) ts)"
  "valid_from n (ts @ us) = valid_from n ts @ valid_from (n + length ts) us"
  by (simp_all add: valid_from_def enumerate_append_eq)

lemma map_concat_actions:
  assumes "\<And>n. n \<in> set ns \<Longrightarrow> map xt_action (f n) = map xt_action (g n)"
  shows "map xt_action (concat (map f ns)) = map xt_action (concat (map g ns))"
  using assms by (induction ns) auto

lemma trace_of_actions: "map xt_action (trace_of show ok n) = map xt_action (trace_of show True n)"
proof (induction n arbitrary: ok)
  case (Framed k p ns r)
  have "map xt_action (concat (map (trace_of show b) ns)) = map xt_action (concat (map (trace_of show True) ns))" for b
    by (rule map_concat_actions) (rule Framed)
  from this [of "ok \<and> succeeded r"] this [of "succeeded r"] show ?case by simp
qed simp

lemma trace_of_length: "length (concat (map (trace_of show ok) ns)) = length (concat (map (trace_of show True) ns))"
  using map_concat_actions [of ns "trace_of show ok" "trace_of show True"] trace_of_actions by (metis length_map)

lemma trace_of_invalid: "valid_from i (trace_of show False n) = []"
proof (induction n arbitrary: i)
  case (Framed k p ns r)
  then have "valid_from i (concat (map (trace_of show False) ns)) = []" for i
    by (induction ns arbitrary: i) auto
  then show ?case by simp
qed simp

text \<open>A tracer that has seen more traces.\<close>

definition grow :: "executive_tracer \<Rightarrow> exec_trace list \<Rightarrow> executive_tracer" where
  "grow t ts = t\<lparr>et_traces := et_traces t @ map xt_action ts, et_valid_indices := (et_valid_indices t)\<lparr>cl_data :=
     cl_data (et_valid_indices t) @ valid_from (length (et_traces t)) ts\<rparr>\<rparr>"

lemma grow_Nil [simp]: "grow t [] = t"
  by (simp add: grow_def)

lemma grow_append: "grow (grow t xs) ys = grow t (xs @ ys)"
  by (simp add: grow_def)

lemma tracer_start: "tracer_observe show (start_obs k p) t = Ok (record_start (start_action k p) t)"
  by (simp add: tracer_observe_def start_obs_def start_action_def record_call_def record_create_def)

lemma tracer_end: "tracer_observe show (end_obs k r) t = rbind (end_action show k r) (\<lambda>a. record_end a r t)"
  by (simp add: tracer_observe_def end_obs_def end_action_def record_call_result_def record_create_result_def rbind_assoc)

lemma tracer_forest:
  assumes "\<And>n t. n \<in> set ns \<Longrightarrow> tree_fits n \<Longrightarrow> rfold (tracer_observe show) (notifications n) t = (Ok (grow t (trace_of show True n)) :: ('e, _) res)"
    and "list_all tree_fits ns"
  shows "rfold (tracer_observe show) (forest_notifications ns) t = (Ok (grow t (concat (map (trace_of show True) ns))) :: ('e, _) res)"
  using assms by (induction ns arbitrary: t) (simp_all add: rfold_append grow_append)

lemma tracer_tree:
  "tree_fits n \<Longrightarrow> rfold (tracer_observe show) (notifications n) t = Ok (grow t (trace_of show True n))"
proof (induction n arbitrary: t)
  case (Transferred a b v)
  show ?case by (simp add: tracer_observe_def trace_internal_transfer_def grow_def cl_push_def)
next
  case (Framed k p ns r)
  have fits: "list_all tree_fits ns" "result_fits k r" using Framed.prems by simp_all
  note inner = tracer_forest [OF Framed.IH fits(1)]
  note unfold = tracer_start tracer_end rfold_append inner end_action_Ok [OF fits(2)] record_start_def record_end_def grow_def
    cl_push_def cl_checkpoint_def cl_discard_checkpoint_def cl_revert_checkpoint_def
  show ?case
  proof (cases "succeeded r")
    case True
    then show ?thesis by (simp add: unfold succeeded_def)
  next
    case False
    have "map xt_action (concat (map (trace_of show False) ns)) = map xt_action (concat (map (trace_of show True) ns))"
      by (rule map_concat_actions) (rule trace_of_actions)
    moreover have "valid_from i (concat (map (trace_of show False) ns)) = []" for i
      by (induction ns arbitrary: i) (simp_all add: trace_of_invalid)
    ultimately show ?thesis using False by (simp add: unfold succeeded_def)
  qed
qed

lemma mark_valid_from:
  "rfold mark_valid (valid_from (length vs) ts) (vs @ replicate (length ts) False) = Ok (vs @ map xt_valid ts)"
proof (induction ts arbitrary: vs)
  case (Cons t ts)
  from Cons.IH [of "vs @ [xt_valid t]"] show ?case
    by (auto simp: mark_valid_def list_update_append)
qed simp

lemma drain_grow: "drain (grow executive_tracer_default ts) = Ok ts"
proof -
  have "map (\<lambda>(a, v). \<lparr>xt_action = a, xt_valid = v\<rparr>) (zip (map xt_action ts) (map xt_valid ts)) = ts" by (induction ts) simp_all
  then show ?thesis by (simp add: drain_def grow_def executive_tracer_default_def mark_valid_from [of "[]", simplified])
qed

section \<open>Pairs of actions and results\<close>

definition frame_matches :: "trace_filter \<Rightarrow> bool \<Rightarrow> action_params \<Rightarrow> bool" where
  "frame_matches f k p = (if k then create_matches f (trace_create_from p) else call_matches f (trace_call_from p))"

definition is_frame :: "call_tree \<Rightarrow> bool" where
  "is_frame n = (case n of Framed _ _ _ _ \<Rightarrow> True | _ \<Rightarrow> False)"

text \<open>The pairs of a forest in the order of the actions, each with the number of frames it started itself.\<close>

primrec pairs_of :: "(vm_error \<Rightarrow> bytes) \<Rightarrow> trace_filter \<Rightarrow> bool \<Rightarrow> call_tree \<Rightarrow> (exec_trace \<times> exec_trace \<times> nat) list" where
  "pairs_of show f ok (Transferred a b v) = []"
| "pairs_of show f ok (Framed k p ns r) =
     (if frame_matches f k p then
        [(\<lparr>xt_action = start_action k p, xt_valid = ok \<and> succeeded r\<rparr>,
          \<lparr>xt_action = end_action_of show k r, xt_valid = ok \<and> succeeded r\<rparr>, length (filter is_frame ns))] else [])
     @ concat (map (pairs_of show f (ok \<and> succeeded r)) ns)"

definition pair_grow :: "(exec_trace \<times> exec_trace \<times> nat) list \<Rightarrow> nat \<Rightarrow> pair_state \<Rightarrow> pair_state" where
  "pair_grow ps n s = s\<lparr>ps_pairs := ps_pairs s @ map (\<lambda>(a, r, k). (a, Some r, k)) ps,
     ps_sublen := (case ps_sublen s of [] \<Rightarrow> [] | m # ms \<Rightarrow> (m + n) # ms)\<rparr>"

lemma pair_grow_grow: "pair_grow qs m (pair_grow ps n s) = pair_grow (ps @ qs) (n + m) s"
  by (simp add: pair_grow_def split: list.splits)

lemma pair_grow_Nil [simp]: "pair_grow [] 0 s = s"
  by (cases s) (simp add: pair_grow_def split: list.splits)

lemma end_action_cases:
  obtains a where "end_action_of show k r = ActCallResult a" | a where "end_action_of show k r = ActCreateResult a"
  by (cases "end_action show k r :: (unit, action) res") (auto simp: end_action_of_def end_action_def rbind_Ok_iff split: if_splits)

lemma pair_step_start:
  "pair_step f \<lparr>xt_action = start_action k p, xt_valid = v\<rparr> s = Ok (pair_open True (frame_matches f k p) \<lparr>xt_action = start_action k p, xt_valid = v\<rparr> s)"
proof -
  have "sc = sc'" for sc sc' :: space by (cases sc; cases sc') simp
  then have "(tc_space (trace_call_from p) = tf_space f) = True" "(tk_space (trace_create_from p) = tf_space f) = True" by blast+
  then show ?thesis by (simp add: pair_step_def start_action_def frame_matches_def)
qed

lemma pair_step_end: "pair_step f \<lparr>xt_action = end_action_of show k r, xt_valid = v\<rparr> = pair_close \<lparr>xt_action = end_action_of show k r, xt_valid = v\<rparr>"
  by (rule end_action_cases [of "show" k r]) (simp_all add: pair_step_def fun_eq_iff)

lemma pair_forest:
  assumes "\<And>n ok s. n \<in> set ns \<Longrightarrow> rfold (pair_step f) (trace_of show ok n) s = Ok (pair_grow (pairs_of show f ok n) (if is_frame n then 1 else 0) s)"
  shows "rfold (pair_step f) (concat (map (trace_of show ok) ns)) s =
    Ok (pair_grow (concat (map (pairs_of show f ok) ns)) (length (filter is_frame ns)) s)"
  using assms by (induction ns arbitrary: s) (simp_all add: rfold_append pair_grow_grow)

lemma pair_tree:
  "rfold (pair_step f) (trace_of show ok n) s = Ok (pair_grow (pairs_of show f ok n) (if is_frame n then 1 else 0) s)"
proof (induction n arbitrary: ok s)
  case (Transferred a b v)
  show ?case by (simp add: pair_step_def is_frame_def)
next
  case (Framed k p ns r)
  note inner = pair_forest [OF Framed.IH]
  show ?case
    by (auto simp: rfold_append inner pair_step_start pair_step_end pair_open_def pair_close_def pair_grow_def is_frame_def Let_def
        list_update_append nth_append split: list.splits)
qed

lemma filter_pairs_forest:
  "filter_trace_pairs f (concat (map (trace_of show ok) ns)) = Ok (concat (map (pairs_of show f ok) ns))"
proof -
  have "rmapM take_pair (map (\<lambda>(a, r, k). (a, Some r, k)) ps) = Ok ps" for ps by (induction ps) auto
  then show ?thesis by (simp add: filter_trace_pairs_def pair_forest [OF pair_tree] pair_grow_def)
qed

section \<open>The error of a forest\<close>

definition end_message ::
  "(bytes \<Rightarrow> bytes option) \<Rightarrow> (bytes \<Rightarrow> bool) \<Rightarrow> action \<Rightarrow> ('e, bytes option) res" where
  "end_message decode utf8 a = (case a of
     ActCallResult r \<Rightarrow> error_message decode utf8 (tcr_outcome r) (tcr_return_data r)
   | ActCreateResult r \<Rightarrow> error_message decode utf8 (tkr_outcome r) (tkr_return_data r)
   | _ \<Rightarrow> Ok None)"

definition blamed :: "action_params \<Rightarrow> action \<Rightarrow> address" where
  "blamed p a = (case a of ActCreateResult r \<Rightarrow> tkr_addr r | _ \<Rightarrow> tc_to (trace_call_from p))"

text \<open>
  The errors after a tree, given those before it.  A frame that succeeds leaves none; a frame that fails
  adds its own to the errors that its last frame left, and forgets what happened before it started.
\<close>

primrec errors_of ::
  "(bytes \<Rightarrow> bytes option) \<Rightarrow> (bytes \<Rightarrow> bool) \<Rightarrow> (vm_error \<Rightarrow> bytes) \<Rightarrow> call_tree \<Rightarrow>
   (address \<times> bytes) list \<Rightarrow> ('e, (address \<times> bytes) list) res" where
  "errors_of decode utf8 show (Transferred a b v) es = Ok es"
| "errors_of decode utf8 show (Framed k p ns r) es =
     rbind (rfold id (map (errors_of decode utf8 show) ns) []) (\<lambda>inner.
     rbind (end_message decode utf8 (end_action_of show k r)) (\<lambda>m.
     Ok (case m of None \<Rightarrow> [] | Some s \<Rightarrow> inner @ [(blamed p (end_action_of show k r), s)])))"

lemma end_action_kind:
  "result_fits k r \<Longrightarrow> if k then \<exists>a. end_action_of show k r = ActCreateResult a else \<exists>a. end_action_of show k r = ActCallResult a"
  using end_action_Ok [of k r "show"] by (auto simp: end_action_def rbind_Ok_iff dest!: sym [of "ActCallResult _"] sym [of "ActCreateResult _"] split: if_splits)

lemma unwind_frame_start:
  "unwind_step decode utf8 \<lparr>xt_action = start_action k p, xt_valid = v\<rparr> \<lparr>eu_callstack = st, eu_errors = es\<rparr> =
   Ok \<lparr>eu_callstack = (if k then st else tc_to (trace_call_from p) # st), eu_errors = []\<rparr>"
  by (simp add: unwind_step_def start_action_def)

lemma unwind_frame_end:
  assumes "result_fits k r"
  shows "unwind_step decode utf8 \<lparr>xt_action = end_action_of show k r, xt_valid = v\<rparr>
      \<lparr>eu_callstack = (if k then st else tc_to (trace_call_from p) # st), eu_errors = es\<rparr> =
    rbind (end_message decode utf8 (end_action_of show k r)) (\<lambda>m.
    Ok \<lparr>eu_callstack = st, eu_errors = (case m of None \<Rightarrow> [] | Some s \<Rightarrow> es @ [(blamed p (end_action_of show k r), s)])\<rparr>)"
  using end_action_kind [OF assms, of "show"]
  by (auto simp: unwind_step_def end_message_def blamed_def accept_result_def split: if_splits option.splits intro!: rbind_cong)

lemma unwind_forest:
  assumes "\<And>n ok es st. n \<in> set ns \<Longrightarrow> tree_fits n \<Longrightarrow>
      rfold (unwind_step decode utf8) (trace_of show ok n) \<lparr>eu_callstack = st, eu_errors = es\<rparr> =
      (rbind (errors_of decode utf8 show n es) (\<lambda>es. Ok \<lparr>eu_callstack = st, eu_errors = es\<rparr>) :: ('e, _) res)"
    and "list_all tree_fits ns"
  shows "rfold (unwind_step decode utf8) (concat (map (trace_of show ok) ns)) \<lparr>eu_callstack = st, eu_errors = es\<rparr> =
    (rbind (rfold id (map (errors_of decode utf8 show) ns) es) (\<lambda>es. Ok \<lparr>eu_callstack = st, eu_errors = es\<rparr>) :: ('e, _) res)"
  using assms
proof (induction ns arbitrary: es)
  case (Cons n ns)
  then show ?case by (simp add: rfold_append rbind_assoc cong: rbind_cong)
qed simp

lemma unwind_tree:
  "tree_fits n \<Longrightarrow> rfold (unwind_step decode utf8) (trace_of show ok n) \<lparr>eu_callstack = st, eu_errors = es\<rparr> =
   rbind (errors_of decode utf8 show n es) (\<lambda>es. Ok \<lparr>eu_callstack = st, eu_errors = es\<rparr>)"
proof (induction n arbitrary: ok es st)
  case (Transferred a b v)
  show ?case by (simp add: unwind_step_def)
next
  case (Framed k p ns r)
  have fits: "list_all tree_fits ns" "result_fits k r" using Framed.prems by simp_all
  note inner = unwind_forest [OF Framed.IH fits(1)]
  show ?case
    by (simp add: rfold_append unwind_frame_start inner rbind_assoc unwind_frame_end [OF fits(2)] cong: rbind_cong)
qed

section \<open>Enough gas for nested frames\<close>

lemma all_but_one_64th:
  fixes s :: nat
  defines "q \<equiv> (s * 64 + 63 - 1) div 63"
  shows "s \<le> q - q div 64"
proof -
  have "s * 64 \<le> q * 63" unfolding q_def by simp
  then show ?thesis by linarith
qed

end
