(* ===== verification/Observer_Properties.thy ===== *)
theory Observer_Properties
  imports Observer_Laws Frame_Properties
begin

text \<open>
  Properties of the observers: which traces a transaction leaves and which of them are valid, the
  pairs of actions and results, the error that is reported, and the gas limit that is estimated.
\<close>

text \<open>C12.  The tracer never panics on a transaction, and its traces are those of the forest of frames that ran: one action and one
  result per frame in the order of the run, marked valid exactly when the frame and every frame around it succeeded.\<close>

theorem transaction_traces:
  assumes "outside_laws X R B M held" and "env_ok X R B s" and "frame_start M G f" and "fsi_stack (fe_callstack s) = []"
    and "frame_stack_exec X B M ss base f s = Some (Ok out, s')"
  shows "\<exists>ns t. fe_observer s' = concat (map notifications ns) \<and>
     rfold (tracer_observe show) (fe_observer s') executive_tracer_default = (Ok t :: (unit, _) res) \<and>
     drain t = (Ok (concat (map (trace_of show True) ns)) :: (unit, _) res)"
proof -
  have s': "env_ok X R B s'" "fe_calls s' = []"
    using pwp_OkD [OF frame_stack_exec_wp [OF assms(1-3)] assms(5)] assms(4) by (auto simp: frame_done_def closed_def)
  then obtain ns where ns: "fe_observer s' = forest_notifications ns"
    using well_nested_forest [of "fe_observer s'"] by (auto simp: env_ok_def)
  then have "list_all tree_fits ns" using s'(1) forest_fits [of ns] by (simp add: env_ok_def)
  from tracer_forest [OF tracer_tree this] ns drain_grow show ?thesis by metis
qed

theorem transaction_traces_witness:
  "\<exists>out s' ns. frame_stack_exec ref_externals ref_backend ref_builtin_machine substate_new 21000 ref_delegate ref_frame_env =
     Some (Ok out, s') \<and> fe_observer s' = concat (map notifications ns)"
proof -
  obtain out s' where run: "frame_stack_exec ref_externals ref_backend ref_builtin_machine substate_new 21000 ref_delegate ref_frame_env =
     Some (Ok out, s')" using ref_delegate_run by blast
  have "fsi_stack (fe_callstack ref_frame_env) = []" by (simp add: ref_frame_env_def fsi_new_def)
  from transaction_traces [OF ref_builtin_outside ref_env_ok ref_delegate_start this run, of "\<lambda>_. []"] run show ?thesis by blast
qed

text \<open>C13.  Traces pair up: for the traces of any forest of frames and any filter, every action that matches comes with the result
  of its own frame and the number of frames it started directly, in the order of the actions, and no error is raised.\<close>

theorem trace_pairs_exact:
  "filter_trace_pairs f (concat (map (trace_of show ok) ns)) = Ok (concat (map (pairs_of show f ok) ns))"
  by (rule filter_pairs_forest)

text \<open>C15.  The reported error is the chain of failed frames: what the analysis of the traces of a forest reports is what the last
  frame leaves, which is nothing when it succeeded, and otherwise its own error after the errors its last nested frame left.\<close>

theorem error_chain:
  assumes "list_all tree_fits ns"
  shows "from_traces decode utf8 (concat (map (trace_of show ok) ns)) =
    rbind (rfold id (map (errors_of decode utf8 show) ns) []) (\<lambda>es. Ok \<lparr>eu_callstack = [], eu_errors = es\<rparr>)"
  unfolding from_traces_def error_unwind_default_def by (rule unwind_forest [OF unwind_tree assms])

theorem error_chain_witness:
  "from_traces (\<lambda>_. None) (\<lambda>_. True) (concat (map (trace_of (\<lambda>_. [1]) True)
     [Framed False (ref_call [] 7) [Framed False (ref_call [] 5) [] (Err OutOfGas)] (Err OutOfBounds)])) =
   (Ok \<lparr>eu_callstack = [], eu_errors = [(9, [1]), (9, [1])]\<rparr> :: (unit, error_unwind) res)"
  by (subst error_chain)
    (simp_all add: result_fits_def end_message_def end_action_of_def end_action_def trace_call_result_from_def error_message_def blamed_def
      trace_call_from_def ref_call_def)



end
