(* ===== verification/Executor.thy ===== *)
theory Executor
  imports Frame_Stack Observers
begin

text \<open>
  Transactions (src/execution): checking and charging a transaction, running its frames, refunding
  gas and killing contracts (executor.rs), the results (executed.rs), the options (options.rs) and
  virtual runs for estimates (estimate.rs).  The order in which a hash set is iterated and the
  random sender of a virtual run are parameters; \<open>show\<close> is the text of an error in traces.
\<close>

section \<open>Data\<close>

datatype tx_action = TxCreate | TxCall address

record transaction_info =
  tx_sender :: address_with_space
  tx_nonce :: u256
  tx_gas_limit :: u256
  tx_gas_price :: u256
  tx_data :: bytes
  tx_action :: tx_action
  tx_value :: u256

record check_settings =
  cs_charge_gas :: bool
  cs_real_execution :: bool

record transact_options =
  to_observer :: multi_observers
  to_check_settings :: check_settings

record estimate_request =
  er_has_sender :: bool
  er_has_gas_limit :: bool
  er_has_gas_price :: bool
  er_has_nonce :: bool
  er_has_storage_limit :: bool

record executed =
  ex_gas_used :: u256
  ex_fee :: u256
  ex_gas_charged :: u256
  ex_logs :: "log_entry list"
  ex_contracts_created :: "address_with_space list"
  ex_output :: bytes
  ex_trace :: "exec_trace list"
  ex_estimated_gas_limit :: "u256 option"

datatype to_repack_error = InvalidNonce u256 u256 | SenderDoesNotExist

datatype tx_drop_error = OldNonce u256 u256 | NotEnoughBaseGas u64 u64

datatype execution_error = NotEnoughCash u512 u512 u256 | VmError vm_error

datatype execution_outcome =
    NotExecutedDrop tx_drop_error
  | NotExecutedToReconsiderPacking to_repack_error
  | ExecutionErrorBumpNonce execution_error executed
  | Finished executed

definition successfully_executed :: "execution_outcome \<Rightarrow> executed option" where
  "successfully_executed out = (case out of Finished e \<Rightarrow> Some e | _ \<Rightarrow> None)"

definition not_enough_balance_fee_charged :: "transaction_info \<Rightarrow> u256 \<Rightarrow> exec_trace list \<Rightarrow> executed" where
  "not_enough_balance_fee_charged tx fee trace = \<lparr>ex_gas_used = tx_gas_limit tx, ex_fee = fee,
     ex_gas_charged = (if tx_gas_price tx = 0 then 0 else fee div tx_gas_price tx), ex_logs = [], ex_contracts_created = [],
     ex_output = [], ex_trace = trace, ex_estimated_gas_limit = None\<rparr>"

definition execution_error_fully_charged :: "transaction_info \<Rightarrow> exec_trace list \<Rightarrow> executed" where
  "execution_error_fully_charged tx trace = \<lparr>ex_gas_used = tx_gas_limit tx, ex_fee = saturating_mul (tx_gas_limit tx) (tx_gas_price tx),
     ex_gas_charged = tx_gas_limit tx, ex_logs = [], ex_contracts_created = [], ex_output = [], ex_trace = trace,
     ex_estimated_gas_limit = None\<rparr>"

section \<open>Options\<close>

definition er_recheck_gas_fee :: "estimate_request \<Rightarrow> bool" where
  "er_recheck_gas_fee r \<longleftrightarrow> er_has_sender r \<and> er_has_gas_price r"

definition er_charge_gas :: "estimate_request \<Rightarrow> bool" where
  "er_charge_gas r \<longleftrightarrow> er_has_sender r \<and> er_has_gas_limit r \<and> er_has_gas_price r"

definition all_checks :: check_settings where
  "all_checks = \<lparr>cs_charge_gas = True, cs_real_execution = True\<rparr>"

definition from_estimate_request :: "estimate_request \<Rightarrow> check_settings" where
  "from_estimate_request r = \<lparr>cs_charge_gas = er_charge_gas r, cs_real_execution = False\<rparr>"

definition exec_with_tracing :: transact_options where
  "exec_with_tracing = \<lparr>to_observer = with_tracing, to_check_settings = all_checks\<rparr>"

definition exec_with_no_tracing :: transact_options where
  "exec_with_no_tracing = \<lparr>to_observer = with_no_tracing, to_check_settings = all_checks\<rparr>"

definition estimate_first_pass :: "estimate_request \<Rightarrow> transact_options" where
  "estimate_first_pass r = \<lparr>to_observer = virtual_call, to_check_settings = from_estimate_request r\<rparr>"

section \<open>The executor\<close>

record ('d, 'r, 'l) tx_executor =
  te_externals :: "'l externals"
  te_backend :: "'d backend"
  te_machine :: "('d, 'r) machine"
  te_env :: env
  te_spec :: spec
  te_show :: "vm_error \<Rightarrow> bytes"
  te_set_order :: "address_with_space set \<Rightarrow> address_with_space list"

definition gas_required_for :: "bool \<Rightarrow> bytes \<Rightarrow> spec \<Rightarrow> ('e, u64) res" where
  "gas_required_for is_create d sp =
     rfold (\<lambda>b g. u_add g (if b = 0 then tx_data_zero_gas sp else tx_data_non_zero_gas sp)) d (if is_create then tx_create_gas sp else tx_gas sp)"

text \<open>Changing a balance with the cleanup mode of a substate.\<close>

definition with_substate ::
  "('d state \<times> cleanup_mode, db_error, unit) eff \<Rightarrow> spec \<Rightarrow> substate \<Rightarrow> (('d, 'l) frame_env, db_error, substate) eff" where
  "with_substate m sp ss = (\<lambda>s. case m (fe_state s, cleanup_mode_of ss sp) of
     (r, (st, mode)) \<Rightarrow> (rbind r (\<lambda>_. Ok (return_mode mode ss)), s\<lparr>fe_state := st\<rparr>))"

text \<open>The traces of everything observed so far, and the estimate of the gas limit.\<close>

definition observers_now :: "(vm_error \<Rightarrow> bytes) \<Rightarrow> multi_observers \<Rightarrow> (('d, 'l) frame_env, 'e, multi_observers) eff" where
  "observers_now show m = ebind (eget fe_observer) (\<lambda>xs. elift (observe_all show xs m))"

definition drain_traces :: "(vm_error \<Rightarrow> bytes) \<Rightarrow> multi_observers \<Rightarrow> (('d, 'l) frame_env, 'e, exec_trace list) eff" where
  "drain_traces show m = ebind (observers_now show m) (\<lambda>m'. case mo_tracer m' of None \<Rightarrow> eret [] | Some t \<Rightarrow> elift (drain t))"

definition gas_cost_of :: "transaction_info \<Rightarrow> check_settings \<Rightarrow> u512" where
  "gas_cost_of tx cs = (if cs_charge_gas cs then ucast (tx_gas_limit tx) * ucast (tx_gas_price tx) else 0)"

definition try_into_u256 :: "u512 \<Rightarrow> ('e, u256) res" where
  "try_into_u256 v = (if unat v < 2 ^ 256 then Ok (ucast v) else Panic)"

text \<open>The sender cannot pay: the nonce goes up and what is there is taken.\<close>

definition charge_poor_sender ::
  "('d, 'r, 'l) tx_executor \<Rightarrow> transaction_info \<Rightarrow> transact_options \<Rightarrow> u512 \<Rightarrow> u512 \<Rightarrow> u512 \<Rightarrow>
   (('d, 'l) frame_env, db_error, execution_outcome) eff" where
  "charge_poor_sender T tx opts cost sender_balance total_cost =
     (let B = te_backend T; sp = te_spec T; sender = tx_sender tx in
      ebind (elift (try_into_u256 (min cost sender_balance))) (\<lambda>actual_gas_cost.
      ebind (on_fe_state (state_exists B sender)) (\<lambda>ex.
      if \<not> ex \<and> cs_real_execution (to_check_settings opts)
      then eret (NotExecutedToReconsiderPacking SenderDoesNotExist)
      else
        ethen (on_fe_state (inc_nonce B sender (account_start_nonce sp)))
        (ebind (with_substate (sub_balance B sender actual_gas_cost) sp substate_new) (\<lambda>_.
        ethen (fe_observe (ObsTransfer (Balance (with_space (aws_address sender) Ethereum)) GasPayment actual_gas_cost))
        (ebind (drain_traces (te_show T) (to_observer opts)) (\<lambda>trace.
        eret (ExecutionErrorBumpNonce (NotEnoughCash total_cost sender_balance actual_gas_cost)
          (not_enough_balance_fee_charged tx actual_gas_cost trace)))))))))"

text \<open>The outermost frame of a transaction.\<close>

definition tx_frame ::
  "('d, 'r, 'l) tx_executor \<Rightarrow> transaction_info \<Rightarrow> u256 \<Rightarrow> u256 \<Rightarrow> (('d, 'l) frame_env, db_error, ('d, 'r) frame) eff" where
  "tx_frame T tx init_gas nonce = (let B = te_backend T; sender = tx_sender tx in
     case tx_action tx of
       TxCreate \<Rightarrow>
         (case contract_address B FromSenderNonce sender nonce (tx_data tx) of (new_address, _) \<Rightarrow>
          eret (new_create_raw \<lparr>ap_space = aws_space sender, ap_code_address = aws_address new_address, ap_code_hash = None,
            ap_address = aws_address new_address, ap_sender = aws_address sender, ap_original_sender = aws_address sender,
            ap_gas = init_gas, ap_gas_price = tx_gas_price tx, ap_value = Transfer (tx_value tx), ap_code = Some (tx_data tx), ap_data = None,
            ap_call_type = CallNone, ap_create_type = Create1, ap_params_type = Embedded\<rparr> (te_env T) (te_spec T) 0 False))
     | TxCall address \<Rightarrow>
         (let a = with_space address (aws_space sender) in
          ebind (on_fe_state (state_code B a)) (\<lambda>c.
          ebind (on_fe_state (state_code_hash B a)) (\<lambda>h.
          eret (new_call_raw (te_machine T) \<lparr>ap_space = aws_space sender, ap_code_address = address, ap_code_hash = h,
            ap_address = address, ap_sender = aws_address sender, ap_original_sender = aws_address sender,
            ap_gas = init_gas, ap_gas_price = tx_gas_price tx, ap_value = Transfer (tx_value tx), ap_code = c, ap_data = Some (tx_data tx),
            ap_call_type = Call, ap_create_type = CreateNone, ap_params_type = Separate\<rparr> (te_env T) (te_spec T) 0 False)))))"

section \<open>Before the frames run\<close>

datatype ('d, 'r) pre_check_result =
    PreCheckPass "('d, 'r) frame" substate u64
  | PreCheckFail execution_outcome

text \<open>Charging a sender that can pay, and setting up the outermost frame.\<close>

definition charge_sender ::
  "('d, 'r, 'l) tx_executor \<Rightarrow> transaction_info \<Rightarrow> u512 \<Rightarrow> u256 \<Rightarrow> u64 \<Rightarrow>
   (('d, 'l) frame_env, db_error, ('d, 'r) pre_check_result) eff" where
  "charge_sender T tx cost nonce base_gas_required =
     (let B = te_backend T; sp = te_spec T; sender = tx_sender tx in
      ethen (on_fe_state (inc_nonce B sender (account_start_nonce sp)))
      (ebind (elift (try_into_u256 cost)) (\<lambda>cost.
      ethen (fe_observe (ObsTransfer (Balance (with_space (aws_address sender) Ethereum)) GasPayment cost))
      (ebind (with_substate (sub_balance B sender cost) sp substate_new) (\<lambda>tx_substate.
      ebind (elift (u_sub (tx_gas_limit tx) (ucast base_gas_required))) (\<lambda>init_gas.
      ebind (tx_frame T tx init_gas nonce) (\<lambda>top_frame.
      eret (PreCheckPass top_frame tx_substate base_gas_required))))))))"

definition transact_preprocessing ::
  "('d, 'r, 'l) tx_executor \<Rightarrow> transaction_info \<Rightarrow> transact_options \<Rightarrow>
   (('d, 'l) frame_env, db_error, ('d, 'r) pre_check_result) eff" where
  "transact_preprocessing T tx opts =
     (let B = te_backend T; sp = te_spec T; sender = tx_sender tx in
      ebind (on_fe_state (state_nonce B sender)) (\<lambda>nonce.
      if tx_nonce tx < nonce then eret (PreCheckFail (NotExecutedDrop (OldNonce nonce (tx_nonce tx))))
      else if nonce < tx_nonce tx then eret (PreCheckFail (NotExecutedToReconsiderPacking (InvalidNonce nonce (tx_nonce tx))))
      else
        ebind (elift (gas_required_for (tx_action tx = TxCreate) (tx_data tx) sp)) (\<lambda>base_gas_required.
        if tx_gas_limit tx < ucast base_gas_required then
          ebind (elift (if unat (tx_gas_limit tx) < 2 ^ 64 then Ok (ucast (tx_gas_limit tx)) else Panic)) (\<lambda>actual.
          eret (PreCheckFail (NotExecutedDrop (NotEnoughBaseGas base_gas_required actual))))
        else
          ebind (on_fe_state (state_balance B sender)) (\<lambda>balance.
          let cost = gas_cost_of tx (to_check_settings opts); sender_balance = ucast balance in
          ebind (elift (u_add (ucast (tx_value tx)) cost)) (\<lambda>total_cost.
          if sender_balance < total_cost then
            ebind (charge_poor_sender T tx opts cost sender_balance total_cost) (\<lambda>out. eret (PreCheckFail out))
          else charge_sender T tx cost nonce base_gas_required)))))"

section \<open>After the frames ran\<close>

text \<open>What is charged, the fee and the refund: at least three quarters of the gas limit are charged.\<close>

definition gas_settlement :: "transaction_info \<Rightarrow> u256 \<Rightarrow> ('e, u256 \<times> u256 \<times> u256 \<times> u256) res" where
  "gas_settlement tx gas_left =
     rbind (u_sub (tx_gas_limit tx) gas_left) (\<lambda>gas_used.
     rbind (u_add gas_left gas_left) (\<lambda>twice.
     rbind (u_add twice gas_left) (\<lambda>thrice.
     if gas_used \<le> thrice then
       (let gas_refunded = drop_bit 2 (tx_gas_limit tx) in
        rbind (u_sub (tx_gas_limit tx) gas_refunded) (\<lambda>gas_charged.
        Ok (gas_used, gas_charged, saturating_mul gas_charged (tx_gas_price tx), saturating_mul gas_refunded (tx_gas_price tx))))
     else Ok (gas_used, gas_used, saturating_mul gas_used (tx_gas_price tx), saturating_mul gas_left (tx_gas_price tx)))))"

fun kill_loop :: "'d backend \<Rightarrow> address_with_space list \<Rightarrow> (('d, 'l) frame_env, db_error, unit) eff" where
  "kill_loop B [] = eret ()"
| "kill_loop B (a # rest) =
     ebind (on_fe_state (state_balance B a)) (\<lambda>contract_balance.
     ethen (fe_observe (ObsTransfer (Balance a) MintBurn contract_balance))
     (ethen (on_fe_state (remove_contract B a))
     (ethen (on_fe_state (subtract_total_issued contract_balance))
     (kill_loop B rest))))"

definition kill_process :: "('d, 'r, 'l) tx_executor \<Rightarrow> address_with_space set \<Rightarrow> (('d, 'l) frame_env, db_error, substate) eff" where
  "kill_process T suicides = ethen (kill_loop (te_backend T) (te_set_order T suicides)) (eret substate_new)"

definition estimated_gas_limit :: "multi_observers \<Rightarrow> u64 \<Rightarrow> ('e, u256 option) res" where
  "estimated_gas_limit m base_gas_required = (case mo_gas_man m of
     None \<Rightarrow> Ok None
   | Some g \<Rightarrow> rbind (u_mul (gas_required g) 7) (\<lambda>x. rbind (u_add (x div 6) (ucast base_gas_required)) (\<lambda>y. Ok (Some y))))"

text \<open>The outcome reported for the result of the frames.\<close>

definition tx_outcome ::
  "('d, 'r, 'l) tx_executor \<Rightarrow> transaction_info \<Rightarrow> transact_options \<Rightarrow> finalization_result vm_result \<Rightarrow> (exec_trace list \<Rightarrow> executed) \<Rightarrow>
   (('d, 'l) frame_env, db_error, execution_outcome) eff" where
  "tx_outcome T tx opts result executed = (case result of
     Err e \<Rightarrow> (case e of
        StateDbError d \<Rightarrow> efail d
      | _ \<Rightarrow> ebind (drain_traces (te_show T) (to_observer opts)) (\<lambda>trace.
          eret (ExecutionErrorBumpNonce (VmError e) (execution_error_fully_charged tx trace))))
   | Panic \<Rightarrow> epanic
   | Ok r \<Rightarrow> ebind (drain_traces (te_show T) (to_observer opts)) (\<lambda>trace.
       if fin_apply_state r then eret (Finished (executed trace))
       else eret (ExecutionErrorBumpNonce (VmError Reverted) (executed trace))))"

definition transact_postprocessing ::
  "('d, 'r, 'l) tx_executor \<Rightarrow> transaction_info \<Rightarrow> transact_options \<Rightarrow> frame_stack_output \<Rightarrow>
   (('d, 'l) frame_env, db_error, execution_outcome) eff" where
  "transact_postprocessing T tx opts output =
     (let B = te_backend T; sp = te_spec T; result = fso_result output in
      ebind (elift (case result of Ok r \<Rightarrow> rd_deref (fin_return_data r) | _ \<Rightarrow> Ok [])) (\<lambda>out.
      ebind (observers_now (te_show T) (to_observer opts)) (\<lambda>m.
      ebind (elift (estimated_gas_limit m (fso_base_gas_required output))) (\<lambda>estimated.
      ebind (elift (gas_settlement tx (case result of Ok r \<Rightarrow> fin_gas_left r | _ \<Rightarrow> 0))) (\<lambda>(gas_used, gas_charged, fees_value, refund_value).
      ethen (fe_observe (ObsTransfer GasPayment (Balance (tx_sender tx)) refund_value))
      (ebind (with_substate (add_balance B (tx_sender tx) refund_value (account_start_nonce sp)) sp (fso_substate output)) (\<lambda>ss.
      ebind (kill_process T (ss_suicides ss)) (\<lambda>subsubstate.
      let ss = accrue subsubstate ss in
      tx_outcome T tx opts result (\<lambda>trace. \<lparr>ex_gas_used = gas_used, ex_fee = fees_value, ex_gas_charged = gas_charged, ex_logs = ss_logs ss,
        ex_contracts_created = ss_contracts_created ss, ex_output = out, ex_trace = trace, ex_estimated_gas_limit = estimated\<rparr>)))))))))"

section \<open>Transactions\<close>

text \<open>The call stack and the observer are new for every transaction.\<close>

definition transact ::
  "('d, 'r, 'l) tx_executor \<Rightarrow> transaction_info \<Rightarrow> transact_options \<Rightarrow>
   (('d, 'l) frame_env, db_error, execution_outcome) prog" where
  "transact T tx opts =
     pbind (total (emodify (\<lambda>s. s\<lparr>fe_callstack := fsi_new, fe_observer := []\<rparr>))) (\<lambda>_.
     pbind (total (transact_preprocessing T tx opts)) (\<lambda>checked. case checked of
        PreCheckFail out \<Rightarrow> total (eret out)
      | PreCheckPass top_frame tx_substate base_gas_required \<Rightarrow>
          pbind (frame_stack_exec (te_externals T) (te_backend T) (te_machine T) tx_substate base_gas_required top_frame) (\<lambda>output.
          total (transact_postprocessing T tx opts output))))"

definition ONE_CFX_IN_DRIP :: u64 where
  "ONE_CFX_IN_DRIP = 1000000000000000000"

text \<open>A virtual run on behalf of a request; the random address is used when there is no sender.\<close>

definition virtual_sender ::
  "('d, 'r, 'l) tx_executor \<Rightarrow> address \<Rightarrow> estimate_request \<Rightarrow> transaction_info \<Rightarrow> (('d, 'l) frame_env, db_error, transaction_info) eff" where
  "virtual_sender T random request tx =
     (if \<not> er_has_sender request then
        (let tx = tx\<lparr>tx_sender := with_space random Ethereum\<rparr>; B = te_backend T in
         ebind (elift (u_mul 1000000000 (ucast ONE_CFX_IN_DRIP))) (\<lambda>bonus.
         let balance_inc = min (saturating_add (tx_value tx) bonus) (2 ^ 128) in
         ethen (on_fe_state (\<lambda>s. case add_balance B (tx_sender tx) balance_inc (account_start_nonce (te_spec T)) (s, NoEmpty) of (r, (s', _)) \<Rightarrow> (r, s')))
         (ethen (on_fe_state (add_total_issued balance_inc)) (eret tx))))
      else eret tx)"

definition virtual_nonce ::
  "('d, 'r, 'l) tx_executor \<Rightarrow> estimate_request \<Rightarrow> transaction_info \<Rightarrow> (('d, 'l) frame_env, db_error, transaction_info) eff" where
  "virtual_nonce T request tx =
     (if er_has_nonce request then ethen (on_fe_state (set_nonce (te_backend T) (tx_sender tx) (tx_nonce tx))) (eret tx)
      else ebind (on_fe_state (state_nonce (te_backend T) (tx_sender tx))) (\<lambda>n. eret (tx\<lparr>tx_nonce := n\<rparr>)))"

text \<open>The result that is reported for a virtual run that finished.\<close>

definition revise_executed :: "estimate_request \<Rightarrow> transaction_info \<Rightarrow> executed \<Rightarrow> ('e, executed) res" where
  "revise_executed request tx e =
     (if er_has_gas_limit request then Ok e
      else case ex_estimated_gas_limit e of
          None \<Rightarrow> Panic
        | Some l \<Rightarrow> rbind (u_sub l (l div 4)) (\<lambda>c.
            let charged = max c (ex_gas_used e) in
            Ok (e\<lparr>ex_gas_charged := charged, ex_fee := saturating_mul charged (tx_gas_price tx)\<rparr>)))"

definition recheck_balance :: "estimate_request \<Rightarrow> transaction_info \<Rightarrow> u256 \<Rightarrow> executed \<Rightarrow> ('e, execution_outcome) res" where
  "recheck_balance request tx balance e =
     (if er_has_sender request then
        rbind (if er_recheck_gas_fee request then (case ex_estimated_gas_limit e of
            None \<Rightarrow> Panic | Some l \<Rightarrow> Ok (saturating_mul l (tx_gas_price tx))) else Ok 0) (\<lambda>gas_fee.
        let value_and_fee = saturating_add (tx_value tx) gas_fee in
        if balance < value_and_fee
        then Ok (ExecutionErrorBumpNonce (NotEnoughCash (ucast value_and_fee) (ucast balance) (min balance gas_fee)) e)
        else if er_has_storage_limit request then Panic else Ok (Finished e))
      else if er_has_storage_limit request then Panic else Ok (Finished e))"

definition transact_virtual ::
  "('d, 'r, 'l) tx_executor \<Rightarrow> address \<Rightarrow> transaction_info \<Rightarrow> estimate_request \<Rightarrow>
   (('d, 'l) frame_env, db_error, execution_outcome) prog" where
  "transact_virtual T random tx request =
     pbind (total (virtual_sender T random request tx)) (\<lambda>tx.
     pbind (total (virtual_nonce T request tx)) (\<lambda>tx.
     pbind (total (on_fe_state (state_balance (te_backend T) (tx_sender tx)))) (\<lambda>balance.
     pbind (total (on_fe_state (emodify (\<lambda>s. snd (checkpoint s))))) (\<lambda>_.
     pbind (transact T tx (estimate_first_pass request)) (\<lambda>out. case out of
        Finished e \<Rightarrow>
          pbind (total (on_fe_state revert_to_checkpoint)) (\<lambda>_.
          pbind (total (elift (revise_executed request tx e))) (\<lambda>e.
          total (elift (recheck_balance request tx balance e))))
      | _ \<Rightarrow> total (eret out))))))"

end
