(* ===== verification/Executor_Laws.thy ===== *)
theory Executor_Laws
  imports Executor Stack_Laws
begin

text \<open>
  What checking, charging and settling a transaction do to the worlds: before the frames run only
  the nonce and the balance of the sender change, and after a failed run only the refund is added.
\<close>

section \<open>Effects on the state\<close>

lemma env_ok_state: "env_ok X R B s \<Longrightarrow> state_ok B t \<Longrightarrow> env_ok X R B (s\<lparr>fe_state := t\<rparr>)"
  by (simp add: env_ok_def)

lemma env_ok_transfer: "env_ok X R B s \<Longrightarrow> env_ok X R B (s\<lparr>fe_observer := fe_observer s @ [ObsTransfer a b v]\<rparr>)"
  by (simp add: env_ok_def open_frames_snoc obs_fits_def)

lemma wp_with_substate [wp_simps]:
  "wp p (with_substate m sp ss) Q E s = wp p m (\<lambda>_ (t, mode). Q (return_mode mode ss) (s\<lparr>fe_state := t\<rparr>))
     (\<lambda>e (t, mode). E e (s\<lparr>fe_state := t\<rparr>)) (fe_state s, cleanup_mode_of ss sp)"
  by (simp add: wp_def with_substate_def split: prod.splits res.splits)

lemma wp_quiet:
  assumes "quiet B m" "state_ok B (fe_state s)"
    and "\<And>a t. m (fe_state s) = (Ok a, t) \<Longrightarrow> same B (fe_state s) t \<Longrightarrow> Q a (s\<lparr>fe_state := t\<rparr>)"
  shows "wp p (on_fe_state m) Q (\<lambda>_ _. True) s"
  unfolding wp_on_fe(1) using assms by (auto simp: wp_def quiet_def split: prod.splits res.splits)

lemma return_mode_same [simp]:
  "ss_suicides (return_mode mode ss) = ss_suicides ss" "ss_logs (return_mode mode ss) = ss_logs ss"
  "ss_contracts_created (return_mode mode ss) = ss_contracts_created ss"
  by (simp_all add: return_mode_def split: cleanup_mode.splits)

text \<open>Effects in which nothing below the top world changes.\<close>

definition kept :: "'l externals \<Rightarrow> ('l \<Rightarrow> h256 \<rightharpoonup> cache_item) \<Rightarrow> 'd backend \<Rightarrow> ('d, 'l) frame_env \<Rightarrow> ('d, 'l) frame_env \<Rightarrow> bool" where
  "kept X R B s s' \<longleftrightarrow> env_ok X R B s' \<and> fe_calls s' = fe_calls s \<and> top_only B (fe_state s) (fe_state s')"

lemma kept_refl: "env_ok X R B s \<Longrightarrow> kept X R B s s"
  by (simp add: kept_def env_ok_def top_only_refl)

lemma kept_state: "kept X R B s u \<Longrightarrow> top_only B (fe_state u) t \<Longrightarrow> kept X R B s (u\<lparr>fe_state := t\<rparr>)"
  by (auto simp: kept_def env_ok_state top_only_def)

lemma kept_transfer: "kept X R B s u \<Longrightarrow> kept X R B s (u\<lparr>fe_observer := fe_observer u @ [ObsTransfer a b v]\<rparr>)"
  by (simp add: kept_def env_ok_transfer)

lemma kept_ok: "kept X R B s u \<Longrightarrow> state_ok B (fe_state u)"
  by (simp add: kept_def env_ok_def)

lemma wp_kept_state:
  assumes "kept X R B s u" and "\<And>r t. m (fe_state u) = (r, t) \<Longrightarrow> r \<noteq> Panic \<Longrightarrow> top_only B (fe_state u) t"
    and "\<And>a t. kept X R B s (u\<lparr>fe_state := t\<rparr>) \<Longrightarrow> m (fe_state u) = (Ok a, t) \<Longrightarrow> Q a (u\<lparr>fe_state := t\<rparr>)"
  shows "wp True (on_fe_state m) Q (\<lambda>_ _. True) u"
  unfolding wp_on_fe(1) using assms kept_state [OF assms(1)] by (auto simp: wp_def split: prod.splits res.splits)

lemma wp_kept_substate:
  assumes "kept X R B s u" and "\<And>r t mode'. m (fe_state u, cleanup_mode_of ss sp) = (r, (t, mode')) \<Longrightarrow> r \<noteq> Panic \<Longrightarrow> top_only B (fe_state u) t"
    and "\<And>ss' t mode'. kept X R B s (u\<lparr>fe_state := t\<rparr>) \<Longrightarrow> m (fe_state u, cleanup_mode_of ss sp) = (Ok (), (t, mode')) \<Longrightarrow>
      ss' = return_mode mode' ss \<Longrightarrow> Q ss' (u\<lparr>fe_state := t\<rparr>)"
  shows "wp True (with_substate m sp ss) Q (\<lambda>_ _. True) u"
  unfolding wp_with_substate using assms kept_state [OF assms(1)] by (auto simp: wp_def split: prod.splits res.splits)

section \<open>Before the frames run\<close>

text \<open>What is known of the executor and the transaction.\<close>

definition tx_ok :: "('d, 'r, 'l) tx_executor \<Rightarrow> ('l \<Rightarrow> h256 \<rightharpoonup> cache_item) \<Rightarrow> ('r \<Rightarrow> nat) \<Rightarrow> transaction_info \<Rightarrow> bool" where
  "tx_ok T R held tx \<longleftrightarrow> outside_laws (te_externals T) R (te_backend T) (te_machine T) held \<and> spec_ok (te_spec T) \<and>
     contract_start_nonce (te_spec T) \<noteq> - 1 \<and> (\<forall>S. finite S \<longrightarrow> set (te_set_order T S) = S) \<and>
     unat (tx_gas_limit tx) < 2 ^ 64 \<and> length (tx_data tx) < 2 ^ 63"

lemma top_only_quiet: "quiet B m \<Longrightarrow> state_ok B s \<Longrightarrow> m s = (r, t) \<Longrightarrow> top_only B s t"
  by (auto simp: quiet_def intro: top_only_same)

lemma inc_nonce_top: "state_ok B s \<Longrightarrow> inc_nonce B a n s = (r, t) \<Longrightarrow> r \<noteq> Panic \<Longrightarrow> top_only B s t"
  using inc_nonce_ok by blast

lemma add_balance_top: "state_ok B s \<Longrightarrow> add_balance B a v n (s, mode) = (r, (t, mode')) \<Longrightarrow> r \<noteq> Panic \<Longrightarrow> top_only B s t"
  using add_balance_ok by blast

lemma wp_kept_read:
  assumes "quiet B m" "kept X R B s u"
    and "\<And>a t. kept X R B s (u\<lparr>fe_state := t\<rparr>) \<Longrightarrow> m (fe_state u) = (Ok a, t) \<Longrightarrow> same B (fe_state u) t \<Longrightarrow> Q a (u\<lparr>fe_state := t\<rparr>)"
  shows "wp p (on_fe_state m) Q (\<lambda>_ _. True) u"
proof (rule wp_quiet [OF assms(1) kept_ok [OF assms(2)]])
  fix a t
  assume "m (fe_state u) = (Ok a, t)" "same B (fe_state u) t"
  then show "Q a (u\<lparr>fe_state := t\<rparr>)" using assms(3) kept_state [OF assms(2) top_only_same] by blast
qed

lemma tx_frame_wp:
  fixes T :: "('d, 'r, 'l) tx_executor"
  assumes T: "tx_ok T R held tx" and u: "kept X R (te_backend T) s u" and g: "init_gas \<le> tx_gas_limit tx"
  shows "wp True (tx_frame T tx init_gas nonce) (\<lambda>f t. kept X R (te_backend T) s t \<and> same (te_backend T) (fe_state u) (fe_state t) \<and>
    frame_start (te_machine T) (unat init_gas) f) (\<lambda>_ _. True) u"
proof -
  let ?B = "te_backend T"
  have gas: "unat init_gas < 2 ^ 64" using T g by (simp add: tx_ok_def word_le_nat_alt)
  note start = frame_start_def schedule_ok_def params_fit_def frame_context_new_def
  show ?thesis
  proof (cases "tx_action tx")
    case TxCreate
    show ?thesis
      using T gas u kept_ok [OF u]
      by (auto simp: tx_frame_def TxCreate wp_simps Let_def same_refl start new_create_raw_def tx_ok_def split: prod.splits)
  next
    case (TxCall a)
    let ?a = "with_space a (aws_space (tx_sender tx))"
    show ?thesis
      unfolding tx_frame_def TxCall Let_def tx_action.case wp_ebind
    proof (rule wp_kept_read [OF quiet_state_code u])
      fix c t
      assume t: "kept X R ?B s (u\<lparr>fe_state := t\<rparr>)" "state_code ?B ?a (fe_state u) = (Ok c, t)" "same ?B (fe_state u) t"
      have c: "\<And>d. c = Some d \<Longrightarrow> length d < 2 ^ 63" using state_code_length [OF kept_ok [OF u]] t(2) by blast
      show "wp True (on_fe_state (state_code_hash ?B ?a)) (\<lambda>h. wp True (eret (new_call_raw (te_machine T)
          \<lparr>ap_space = aws_space (tx_sender tx), ap_code_address = a, ap_code_hash = h, ap_address = a, ap_sender = aws_address (tx_sender tx),
           ap_original_sender = aws_address (tx_sender tx), ap_gas = init_gas, ap_gas_price = tx_gas_price tx,
           ap_value = Transfer (tx_value tx), ap_code = c, ap_data = Some (tx_data tx), ap_call_type = Call, ap_create_type = CreateNone,
           ap_params_type = Separate\<rparr> (te_env T) (te_spec T) 0 False))
          (\<lambda>f t. kept X R ?B s t \<and> same ?B (fe_state u) (fe_state t) \<and> frame_start (te_machine T) (unat init_gas) f) (\<lambda>_ _. True))
          (\<lambda>_ _. True) (u\<lparr>fe_state := t\<rparr>)"
        by (rule wp_kept_read [OF quiet_reads(3) t(1)])
          (use T gas c t(3) in \<open>auto simp: wp_simps start new_call_raw_def Let_def tx_ok_def machine_builtin_def contract_def ran_def
            intro: same_trans split: option.splits if_splits\<close>)
    qed
  qed
qed

text \<open>The account of the sender once the nonce is up and the gas is paid for.\<close>

definition charged :: "account_view \<Rightarrow> u256 \<Rightarrow> account_view" where
  "charged av c = av\<lparr>av_nonce := av_nonce av + 1, av_balance := av_balance av - c\<rparr>"

definition account_or_new :: "'d backend \<Rightarrow> 'd \<Rightarrow> spec \<Rightarrow> address_with_space \<Rightarrow> account_view option \<Rightarrow> account_view" where
  "account_or_new B db sp a acc = or_default (basic_view B db a (account_start_nonce sp)) (\<lambda>av. av) acc"

lemma world_update_twice: "world_update a y (world_update a x ws) = world_update a y ws"
  by (simp add: world_update_def split: list.splits prod.splits)

lemma updates_twice: "updates B s a x t \<Longrightarrow> updates B t a y u \<Longrightarrow> updates B s a y u"
  by (simp add: updates_def world_update_twice)

lemma updates_then_same: "updates B s a x t \<Longrightarrow> same B t u \<Longrightarrow> updates B s a x u"
  by (simp add: updates_def same_def)

definition pass_post ::
  "('d, 'r, 'l) tx_executor \<Rightarrow> ('l \<Rightarrow> h256 \<rightharpoonup> cache_item) \<Rightarrow> transaction_info \<Rightarrow> u256 \<Rightarrow> account_view \<Rightarrow>
   ('d, 'l) frame_env \<Rightarrow> ('d, 'r) pre_check_result \<Rightarrow> ('d, 'l) frame_env \<Rightarrow> bool" where
  "pass_post T R tx c av s r t \<longleftrightarrow> (\<exists>f ss base. r = PreCheckPass f ss base \<and> kept (te_externals T) R (te_backend T) s t \<and>
     unat base \<le> unat (tx_gas_limit tx) \<and> frame_start (te_machine T) (unat (tx_gas_limit tx) - unat base) f \<and>
     ss_suicides ss = {} \<and> ss_logs ss = [] \<and> ss_contracts_created ss = [] \<and>
     updates (te_backend T) (fe_state s) (tx_sender tx) (Some (charged av c)) (fe_state t))"

lemma charge_sender_wp:
  fixes T :: "('d, 'r, 'l) tx_executor"
  assumes T: "tx_ok T R held tx" and u: "kept (te_externals T) R (te_backend T) s u" "same (te_backend T) (fe_state s) (fe_state u)"
    and V: "top_view (te_backend T) (fe_state s) (tx_sender tx) = Ok acc"
    and av: "av = account_or_new (te_backend T) (st_db (fe_state s)) (te_spec T) (tx_sender tx) acc"
    and c: "unat cost \<le> unat (av_balance av)" and g: "\<not> tx_gas_limit tx < ucast base"
  shows "wp True (charge_sender T tx cost nonce base) (pass_post T R tx (ucast cost) av s) (\<lambda>_ _. True) u"
proof -
  let ?B = "te_backend T" and ?a = "tx_sender tx" and ?sp = "te_spec T" and ?X = "te_externals T"
  have Vu: "top_view ?B (fe_state u) ?a = Ok acc" "st_db (fe_state u) = st_db (fe_state s)"
    using V u(2) same_view [OF u(2)] by (simp_all add: same_def)
  have small: "unat (ucast cost :: u256) = unat cost" "try_into_u256 cost = Ok (ucast cost)"
    using c unat_lt_pow [of "av_balance av"] by (simp_all add: try_into_u256_def unsigned_ucast_eq take_bit_nat_eq_self)
  have base: "unat base \<le> unat (tx_gas_limit tx)" "unat (ucast base :: u256) = unat base"
    using g by (simp_all add: word_less_nat_alt not_less unat_ucast_up)
  show ?thesis
    unfolding charge_sender_def Let_def wp_ebind
  proof (rule wp_kept_state [OF u(1) inc_nonce_top [OF kept_ok [OF u(1)]]], assumption, assumption)
    fix x t
    assume t: "kept ?X R ?B s (u\<lparr>fe_state := t\<rparr>)" and run: "inc_nonce ?B ?a (account_start_nonce ?sp) (fe_state u) = (Ok x, t)"
    have t': "updates ?B (fe_state u) ?a (Some (av\<lparr>av_nonce := av_nonce av + 1\<rparr>)) t"
      using inc_nonce_spec [OF kept_ok [OF u(1)] run Vu(1) refl] Vu(2) av by (auto simp: account_or_new_def split: if_splits)
    let ?t = "u\<lparr>fe_state := t, fe_observer := fe_observer u @ [ObsTransfer (Balance (with_space (aws_address ?a) Ethereum)) GasPayment (ucast cost)]\<rparr>"
    have kt: "kept ?X R ?B s ?t" using kept_transfer [OF t] by simp
    have "wp True (with_substate (sub_balance ?B ?a (ucast cost)) ?sp substate_new) (\<lambda>ss. wp True (elift (u_sub (tx_gas_limit tx) (ucast base)))
        (\<lambda>g. wp True (tx_frame T tx g nonce) (\<lambda>f. wp True (eret (PreCheckPass f ss base)) (pass_post T R tx (ucast cost) av s) (\<lambda>_ _. True))
        (\<lambda>_ _. True)) (\<lambda>_ _. True)) (\<lambda>_ _. True) ?t"
    proof (rule wp_kept_substate [OF kt])
      fix r t2 mode'
      assume "sub_balance ?B ?a (ucast cost) (fe_state ?t, cleanup_mode_of substate_new ?sp) = (r, (t2, mode'))" "r \<noteq> Panic"
      then show "top_only ?B (fe_state ?t) t2" using sub_balance_top kept_ok [OF kt] by blast
    next
      fix ss t2 mode'
      assume k2: "kept ?X R ?B s (?t\<lparr>fe_state := t2\<rparr>)" and ss: "ss = return_mode mode' substate_new"
        and sub: "sub_balance ?B ?a (ucast cost) (fe_state ?t, cleanup_mode_of substate_new ?sp) = (Ok (), (t2, mode'))"
      have "top_view ?B (fe_state ?t) ?a = Ok (Some (av\<lparr>av_nonce := av_nonce av + 1\<rparr>))" using updates_view [OF t'] by simp
      from sub_balance_state [OF kept_ok [OF kt] sub this] c small(1)
      have "updates ?B (fe_state ?t) ?a (Some (charged av (ucast cost))) t2" by (simp add: word_le_nat_alt charged_def)
      then have w: "updates ?B (fe_state s) ?a (Some (charged av (ucast cost))) t2"
        using updates_twice [OF t'] same_updates [OF u(2)] by simp
      have left: "tx_gas_limit tx - ucast base \<le> tx_gas_limit tx" "unat (tx_gas_limit tx - ucast base) = unat (tx_gas_limit tx) - unat base"
        using g base by (simp_all add: not_less unat_sub_le word_sub_le)
      have "wp True (tx_frame T tx (tx_gas_limit tx - ucast base) nonce)
          (\<lambda>f. wp True (eret (PreCheckPass f ss base)) (pass_post T R tx (ucast cost) av s) (\<lambda>_ _. True)) (\<lambda>_ _. True) (?t\<lparr>fe_state := t2\<rparr>)"
      proof (rule wp_mono [OF tx_frame_wp [OF T k2 left(1)]])
        fix f v
        assume "kept ?X R ?B s v \<and> same ?B (fe_state (?t\<lparr>fe_state := t2\<rparr>)) (fe_state v) \<and>
          frame_start (te_machine T) (unat (tx_gas_limit tx - ucast base)) f"
        then show "wp True (eret (PreCheckPass f ss base)) (pass_post T R tx (ucast cost) av s) (\<lambda>_ _. True) v"
          using base left(2) updates_then_same [OF w] by (simp add: wp_simps pass_post_def ss substate_new_def)
      qed simp
      then show "wp True (elift (u_sub (tx_gas_limit tx) (ucast base))) (\<lambda>g. wp True (tx_frame T tx g nonce)
          (\<lambda>f. wp True (eret (PreCheckPass f ss base)) (pass_post T R tx (ucast cost) av s) (\<lambda>_ _. True)) (\<lambda>_ _. True)) (\<lambda>_ _. True) (?t\<lparr>fe_state := t2\<rparr>)"
        using g by (simp add: wp_elift u_sub_def)
    qed
    then show "wp True (elift (try_into_u256 cost)) (\<lambda>paid. wp True (fe_observe (ObsTransfer (Balance (with_space (aws_address ?a) Ethereum)) GasPayment paid))
        (\<lambda>_. wp True (with_substate (sub_balance ?B ?a paid) ?sp substate_new) (\<lambda>ss. wp True (elift (u_sub (tx_gas_limit tx) (ucast base)))
        (\<lambda>g. wp True (tx_frame T tx g nonce) (\<lambda>f. wp True (eret (PreCheckPass f ss base)) (pass_post T R tx (ucast cost) av s) (\<lambda>_ _. True))
        (\<lambda>_ _. True)) (\<lambda>_ _. True)) (\<lambda>_ _. True)) (\<lambda>_ _. True)) (\<lambda>_ _. True) (u\<lparr>fe_state := t\<rparr>)"
      by (simp add: wp_elift small(2) wp_fe_observe)
  qed
qed

text \<open>What the checks leave: a transaction that is not executed changes nothing, one that cannot be paid for only the sender.\<close>

definition check_post ::
  "('d, 'r, 'l) tx_executor \<Rightarrow> ('l \<Rightarrow> h256 \<rightharpoonup> cache_item) \<Rightarrow> transaction_info \<Rightarrow> transact_options \<Rightarrow>
   ('d, 'l) frame_env \<Rightarrow> ('d, 'r) pre_check_result \<Rightarrow> ('d, 'l) frame_env \<Rightarrow> bool" where
  "check_post T R tx opts s r t \<longleftrightarrow> kept (te_externals T) R (te_backend T) s t \<and>
     (\<exists>acc av. top_view (te_backend T) (fe_state s) (tx_sender tx) = Ok acc \<and>
        av = account_or_new (te_backend T) (st_db (fe_state s)) (te_spec T) (tx_sender tx) acc \<and>
        (case r of
           PreCheckPass _ _ _ \<Rightarrow> unat (gas_cost_of tx (to_check_settings opts)) + unat (tx_value tx) \<le> unat (av_balance av) \<and>
             tx_nonce tx = or_default 0 av_nonce acc \<and> pass_post T R tx (ucast (gas_cost_of tx (to_check_settings opts))) av s r t
         | PreCheckFail (NotExecutedDrop _) \<Rightarrow> same (te_backend T) (fe_state s) (fe_state t)
         | PreCheckFail (NotExecutedToReconsiderPacking _) \<Rightarrow> same (te_backend T) (fe_state s) (fe_state t)
         | PreCheckFail (ExecutionErrorBumpNonce (NotEnoughCash _ _ paid) x) \<Rightarrow> paid = ex_fee x \<and>
             updates (te_backend T) (fe_state s) (tx_sender tx) (Some (charged av paid)) (fe_state t)
         | PreCheckFail _ \<Rightarrow> False))"

lemma observers_now_wp: "(\<And>m. Q m s) \<Longrightarrow> wp True (observers_now show0 m) Q (\<lambda>_ _. True) s"
  by (simp add: observers_now_def wp_simps split: res.splits)

lemma drain_traces_wp: "(\<And>m. Q m s) \<Longrightarrow> wp True (drain_traces show0 m) Q (\<lambda>_ _. True) s"
  by (auto simp: drain_traces_def observers_now_def wp_simps split: res.splits option.splits)

lemma charge_poor_sender_wp:
  fixes T :: "('d, 'r, 'l) tx_executor"
  assumes u: "kept (te_externals T) R (te_backend T) s u" "same (te_backend T) (fe_state s) (fe_state u)"
    and V: "top_view (te_backend T) (fe_state s) (tx_sender tx) = Ok acc"
    and av: "av = account_or_new (te_backend T) (st_db (fe_state s)) (te_spec T) (tx_sender tx) acc"
  shows "wp True (charge_poor_sender T tx opts cost (ucast (av_balance av)) total_cost) (\<lambda>out. check_post T R tx opts s (PreCheckFail out)) (\<lambda>_ _. True) u"
proof -
  let ?B = "te_backend T" and ?a = "tx_sender tx" and ?sp = "te_spec T" and ?X = "te_externals T"
  define v :: u256 where "v = ucast (min cost (ucast (av_balance av)))"
  have le: "unat (min cost (ucast (av_balance av))) \<le> unat (av_balance av)"
    using unat_ucast_up [of "av_balance av", where ?'b = 512] by (simp add: min_def word_le_nat_alt)
  then have v: "v \<le> av_balance av" "try_into_u256 (min cost (ucast (av_balance av))) = Ok v"
    using unat_lt_pow [of "av_balance av"]
    by (simp_all add: try_into_u256_def v_def word_le_nat_alt unsigned_ucast_eq take_bit_nat_eq_self)
  show ?thesis
    unfolding charge_poor_sender_def Let_def wp_ebind wp_elift v(2) res.case
  proof (rule wp_kept_read [OF quiet_reads(4) u(1)])
    fix ex t
    assume t: "kept ?X R ?B s (u\<lparr>fe_state := t\<rparr>)" "same ?B (fe_state u) t"
    have st: "same ?B (fe_state s) t" using u(2) t(2) by (rule same_trans)
    have Vt: "top_view ?B t ?a = Ok acc" "st_db t = st_db (fe_state s)" using V st same_view [OF st] by (simp_all add: same_def)
    let ?k = "\<lambda>_ :: unit. wp True (with_substate (sub_balance ?B ?a v) ?sp substate_new) (\<lambda>_. wp True (fe_observe (ObsTransfer
        (Balance (with_space (aws_address ?a) Ethereum)) GasPayment v)) (\<lambda>_. wp True (drain_traces (te_show T) (to_observer opts))
        (\<lambda>tr. wp True (eret (ExecutionErrorBumpNonce (NotEnoughCash total_cost (ucast (av_balance av)) v) (not_enough_balance_fee_charged tx v tr)))
          (\<lambda>out. check_post T R tx opts s (PreCheckFail out)) (\<lambda>(_ :: db_error) _. True)) (\<lambda>(_ :: db_error) _. True)) (\<lambda>(_ :: db_error) _. True)) (\<lambda>(_ :: db_error) _. True)"
    have "wp True (on_fe_state (inc_nonce ?B ?a (account_start_nonce ?sp))) ?k (\<lambda>_ _. True) (u\<lparr>fe_state := t\<rparr>)"
    proof (rule wp_kept_state [OF t(1) inc_nonce_top [OF kept_ok [OF t(1)]]], assumption, assumption)
      fix x t2
      assume t2: "kept ?X R ?B s (u\<lparr>fe_state := t, fe_state := t2\<rparr>)"
        and run: "inc_nonce ?B ?a (account_start_nonce ?sp) (fe_state (u\<lparr>fe_state := t\<rparr>)) = (Ok x, t2)"
      have t2': "updates ?B t ?a (Some (av\<lparr>av_nonce := av_nonce av + 1\<rparr>)) t2"
        using inc_nonce_spec [OF kept_ok [OF t(1)] run _ refl] Vt av by (auto simp: account_or_new_def split: if_splits)
      show "?k x (u\<lparr>fe_state := t, fe_state := t2\<rparr>)"
      proof (rule wp_kept_substate [OF t2])
        fix r t3 mode'
        assume "sub_balance ?B ?a v (fe_state (u\<lparr>fe_state := t, fe_state := t2\<rparr>), cleanup_mode_of substate_new ?sp) = (r, (t3, mode'))" "r \<noteq> Panic"
        then show "top_only ?B (fe_state (u\<lparr>fe_state := t, fe_state := t2\<rparr>)) t3" using sub_balance_top kept_ok [OF t2] by blast
      next
        fix ss t3 mode'
        let ?u = "u\<lparr>fe_state := t, fe_state := t2\<rparr>"
        assume k3: "kept ?X R ?B s (?u\<lparr>fe_state := t3\<rparr>)"
          and sub: "sub_balance ?B ?a v (fe_state ?u, cleanup_mode_of substate_new ?sp) = (Ok (), (t3, mode'))"
        have "top_view ?B (fe_state ?u) ?a = Ok (Some (av\<lparr>av_nonce := av_nonce av + 1\<rparr>))" using updates_view [OF t2'] by simp
        from sub_balance_state [OF kept_ok [OF t2] sub this] v(1)
        have "updates ?B t2 ?a (Some (charged av v)) t3" by (simp add: charged_def)
        then have w: "updates ?B (fe_state s) ?a (Some (charged av v)) t3"
          using updates_twice [OF t2'] same_updates [OF st] by simp
        show "wp True (fe_observe (ObsTransfer (Balance (with_space (aws_address ?a) Ethereum)) GasPayment v))
            (\<lambda>_. wp True (drain_traces (te_show T) (to_observer opts))
            (\<lambda>tr. wp True (eret (ExecutionErrorBumpNonce (NotEnoughCash total_cost (ucast (av_balance av)) v) (not_enough_balance_fee_charged tx v tr)))
            (\<lambda>out. check_post T R tx opts s (PreCheckFail out)) (\<lambda>_ _. True)) (\<lambda>_ _. True)) (\<lambda>_ _. True) (?u\<lparr>fe_state := t3\<rparr>)"
          using kept_transfer [OF k3] w V av
          by (auto simp: wp_fe_observe wp_basic check_post_def not_enough_balance_fee_charged_def intro!: drain_traces_wp)
      qed
    qed
    moreover have "check_post T R tx opts s (PreCheckFail (NotExecutedToReconsiderPacking SenderDoesNotExist)) (u\<lparr>fe_state := t\<rparr>)"
      using t st V av by (auto simp: check_post_def)
    ultimately show "wp True (if \<not> ex \<and> cs_real_execution (to_check_settings opts) then eret (NotExecutedToReconsiderPacking SenderDoesNotExist)
        else ebind (on_fe_state (inc_nonce ?B ?a (account_start_nonce ?sp))) (\<lambda>_. ebind (with_substate (sub_balance ?B ?a v) ?sp substate_new)
        (\<lambda>_. ebind (fe_observe (ObsTransfer (Balance (with_space (aws_address ?a) Ethereum)) GasPayment v)) (\<lambda>_.
        ebind (drain_traces (te_show T) (to_observer opts)) (\<lambda>tr. eret (ExecutionErrorBumpNonce (NotEnoughCash total_cost (ucast (av_balance av)) v)
        (not_enough_balance_fee_charged tx v tr))))))) (\<lambda>out. check_post T R tx opts s (PreCheckFail out)) (\<lambda>_ _. True) (u\<lparr>fe_state := t\<rparr>)"
      unfolding wp_ebind [abs_def] wp_if by (simp add: wp_basic)
  qed
qed

lemma gas_cost_unat:
  "unat (gas_cost_of tx cs) = (if cs_charge_gas cs then unat (tx_gas_limit tx) * unat (tx_gas_price tx) else 0)"
  "unat (gas_cost_of tx cs) < 2 ^ 512 - 2 ^ 256"
proof -
  have "unat (tx_gas_limit tx) * unat (tx_gas_price tx) \<le> (2 ^ 256 - 1) * (2 ^ 256 - 1)"
    using unat_lt_pow [of "tx_gas_limit tx"] unat_lt_pow [of "tx_gas_price tx"] by (intro mult_mono) simp_all
  then have le: "unat (tx_gas_limit tx) * unat (tx_gas_price tx) < 2 ^ 512 - 2 ^ 256" by (rule order_le_less_trans) simp
  have "unat (ucast (tx_gas_limit tx) * ucast (tx_gas_price tx) :: u512) = unat (tx_gas_limit tx) * unat (tx_gas_price tx)"
    using le by (subst unat_mult_no_overflow) (simp_all add: unat_ucast_up)
  with le show "unat (gas_cost_of tx cs) = (if cs_charge_gas cs then unat (tx_gas_limit tx) * unat (tx_gas_price tx) else 0)"
    "unat (gas_cost_of tx cs) < 2 ^ 512 - 2 ^ 256"
    by (simp_all add: gas_cost_of_def)
qed

lemma total_cost:
  fixes v :: u256
  shows "\<exists>total. u_add (ucast v) (gas_cost_of tx cs) = (Ok total :: ('e, u512) res) \<and> unat total = unat v + unat (gas_cost_of tx cs)"
proof -
  have "unat (ucast v :: u512) + unat (gas_cost_of tx cs) < 2 ^ 512"
    using gas_cost_unat(2) [of tx cs] unat_lt_pow [of v] by (simp add: unat_ucast_up)
  then show ?thesis by (simp add: u_add_def unat_add_no_overflow unat_ucast_up)
qed

lemma wp_nonce_checks:
  fixes n m :: u256
  assumes "\<And>b. n = m \<Longrightarrow> wp True (k b) Q (\<lambda>_ _. True) u" "Q old u" "Q bad u"
  shows "wp True (if n < m then eret old else if m < n then eret bad else ebind (elift g) k) Q (\<lambda>_ _. True) u"
  using assms by (cases g) (auto simp: wp_simps)

lemma transact_preprocessing_wp:
  fixes T :: "('d, 'r, 'l) tx_executor"
  assumes T: "tx_ok T R held tx" and s: "env_ok (te_externals T) R (te_backend T) s"
  shows "wp True (transact_preprocessing T tx opts) (check_post T R tx opts s) (\<lambda>_ _. True) s"
proof -
  let ?B = "te_backend T" and ?a = "tx_sender tx" and ?X = "te_externals T" and ?cost = "gas_cost_of tx (to_check_settings opts)"
  note ok = kept_refl [OF s]
  show ?thesis
    unfolding transact_preprocessing_def Let_def
  proof (subst wp_ebind, rule wp_kept_read [OF quiet_reads(2) ok])
    fix nonce t
    assume t: "kept ?X R ?B s (s\<lparr>fe_state := t\<rparr>)" "same ?B (fe_state s) t" and run: "state_nonce ?B ?a (fe_state s) = (Ok nonce, t)"
    obtain acc where acc: "top_view ?B (fe_state s) ?a = Ok acc" "nonce = or_default 0 av_nonce acc"
      using state_nonce_spec [OF kept_ok [OF ok] run, THEN conjunct2, symmetric] by auto
    define av where "av = account_or_new ?B (st_db (fe_state s)) (te_spec T) ?a acc"
    have drop: "check_post T R tx opts s (PreCheckFail (NotExecutedDrop e)) (s\<lparr>fe_state := t\<rparr>)"
      "check_post T R tx opts s (PreCheckFail (NotExecutedToReconsiderPacking e')) (s\<lparr>fe_state := t\<rparr>)" for e e'
      using t acc by (auto simp: check_post_def)
    let ?rest = "\<lambda>base. ebind (on_fe_state (state_balance ?B ?a)) (\<lambda>balance. ebind (elift (u_add (ucast (tx_value tx)) ?cost)) (\<lambda>total_cost.
      if ucast balance < total_cost then ebind (charge_poor_sender T tx opts ?cost (ucast balance) total_cost) (\<lambda>out. eret (PreCheckFail out))
      else charge_sender T tx ?cost nonce base))"
    have rest: "wp True (?rest base) (check_post T R tx opts s) (\<lambda>_ _. True) (s\<lparr>fe_state := t\<rparr>)"
      if base: "\<not> tx_gas_limit tx < ucast base" and nonce: "tx_nonce tx = nonce" for base :: u64
    proof (subst wp_ebind, rule wp_kept_read [OF quiet_reads(1) t(1)])
      fix bal t2
      let ?u = "s\<lparr>fe_state := t, fe_state := t2\<rparr>"
      assume t2: "kept ?X R ?B s ?u" "same ?B (fe_state (s\<lparr>fe_state := t\<rparr>)) t2"
        and run: "state_balance ?B ?a (fe_state (s\<lparr>fe_state := t\<rparr>)) = (Ok bal, t2)"
      have st2: "same ?B (fe_state s) (fe_state ?u)" using same_trans [OF t(2)] t2(2) by simp
      have bal: "bal = av_balance av"
        using state_balance_spec [OF kept_ok [OF t(1)] run, THEN conjunct2, symmetric] acc(1) same_view [OF t(2)]
        by (auto simp: av_def account_or_new_def basic_view_def new_basic_def account_view_def or_default_def split: option.splits)
      obtain total_cost where total_cost: "u_add (ucast (tx_value tx)) ?cost = (Ok total_cost :: (db_error, _) res)"
        "unat total_cost = unat (tx_value tx) + unat ?cost"
        using total_cost by blast
      have "wp True (charge_sender T tx ?cost nonce base) (check_post T R tx opts s) (\<lambda>_ _. True) ?u" if "\<not> ucast bal < total_cost"
      proof -
        have le: "unat ?cost + unat (tx_value tx) \<le> unat (av_balance av)"
          using that total_cost(2) bal by (simp add: word_less_nat_alt unat_ucast_up)
        then have c: "unat ?cost \<le> unat (av_balance av)" by simp
        show ?thesis
        proof (rule wp_mono [OF charge_sender_wp [OF T t2(1) st2 acc(1) av_def c base, of nonce]])
          fix r v
          assume "pass_post T R tx (ucast ?cost) av s r v"
          then show "check_post T R tx opts s r v"
            using le acc nonce av_def by (auto simp: check_post_def pass_post_def)
        qed simp
      qed
      moreover have "wp True (charge_poor_sender T tx opts ?cost (ucast bal) total_cost)
          (\<lambda>out. check_post T R tx opts s (PreCheckFail out)) (\<lambda>_ _. True) ?u"
        unfolding bal by (rule charge_poor_sender_wp [OF t2(1) st2 acc(1) av_def])
      ultimately show "wp True (ebind (elift (u_add (ucast (tx_value tx)) ?cost)) (\<lambda>total_cost. if ucast bal < total_cost
          then ebind (charge_poor_sender T tx opts ?cost (ucast bal) total_cost) (\<lambda>out. eret (PreCheckFail out))
          else charge_sender T tx ?cost nonce base)) (check_post T R tx opts s) (\<lambda>_ _. True) ?u"
        by (simp add: wp_elift total_cost(1) wp_if wp_ebind wp_basic(1) [abs_def])
    qed
    have "wp True (if tx_gas_limit tx < ucast base then ebind (elift (if unat (tx_gas_limit tx) < 2 ^ 64 then Ok (ucast (tx_gas_limit tx)) else Panic))
          (\<lambda>actual. eret (PreCheckFail (NotExecutedDrop (NotEnoughBaseGas base actual)))) else ?rest base) (check_post T R tx opts s) (\<lambda>_ _. True) (s\<lparr>fe_state := t\<rparr>)"
      if "tx_nonce tx = nonce" for base
      using rest [OF _ that, of base] drop(1) by (cases "tx_gas_limit tx < ucast base") (simp_all add: wp_ebind wp_elift wp_basic split: res.splits)
    note checked = this
    show "wp True (if tx_nonce tx < nonce then eret (PreCheckFail (NotExecutedDrop (OldNonce nonce (tx_nonce tx))))
        else if nonce < tx_nonce tx then eret (PreCheckFail (NotExecutedToReconsiderPacking (InvalidNonce nonce (tx_nonce tx))))
        else ebind (elift (gas_required_for (tx_action tx = TxCreate) (tx_data tx) (te_spec T))) (\<lambda>base.
          if tx_gas_limit tx < ucast base then ebind (elift (if unat (tx_gas_limit tx) < 2 ^ 64 then Ok (ucast (tx_gas_limit tx)) else Panic))
            (\<lambda>actual. eret (PreCheckFail (NotExecutedDrop (NotEnoughBaseGas base actual)))) else ?rest base))
        (check_post T R tx opts s) (\<lambda>_ _. True) (s\<lparr>fe_state := t\<rparr>)"
      by (rule wp_nonce_checks) (rule checked, assumption, rule drop(1), rule drop(2))
  qed
qed

section \<open>After the frames ran\<close>

lemma saturating_mul_unat: "unat a * unat b < 2 ^ LENGTH('a) \<Longrightarrow> unat (saturating_mul a b :: 'a::len word) = unat a * unat b"
  by (simp add: saturating_mul_def unat_mult_no_overflow)

text \<open>Three quarters of the gas limit are charged at least; what is charged and what is refunded make up the gas limit.\<close>

lemma gas_settlement_spec:
  assumes g: "unat (tx_gas_limit tx) < 2 ^ 254" and le: "unat gas_left \<le> unat (tx_gas_limit tx)"
  obtains used paid fee refund refunded where "gas_settlement tx gas_left = (Ok (used, paid, fee, refund) :: ('e, _) res)"
    "unat used = unat (tx_gas_limit tx) - unat gas_left"
    "unat paid = max (unat used) (unat (tx_gas_limit tx) - unat (tx_gas_limit tx) div 4)"
    "unat paid + unat refunded = unat (tx_gas_limit tx)"
    "fee = saturating_mul paid (tx_gas_price tx)" "refund = saturating_mul refunded (tx_gas_price tx)"
proof -
  let ?g = "tx_gas_limit tx"
  define used where "used = ?g - gas_left"
  have used: "u_sub ?g gas_left = (Ok used :: ('e, _) res)" "unat used = unat ?g - unat gas_left"
    using le by (simp_all add: u_sub_def used_def word_less_nat_alt unat_sub_le word_le_nat_alt)
  have small: "unat gas_left * 3 < 2 ^ 256" using g le by simp
  have two: "unat (gas_left + gas_left) = 2 * unat gas_left" using small by (subst unat_add_no_overflow) simp_all
  have three: "unat (gas_left + gas_left + gas_left) = 3 * unat gas_left" using small two by (subst unat_add_no_overflow) simp_all
  have sums: "u_add gas_left gas_left = (Ok (gas_left + gas_left) :: ('e, _) res)"
    "u_add (gas_left + gas_left) gas_left = (Ok (gas_left + gas_left + gas_left) :: ('e, _) res)"
    using small two by (simp_all add: u_add_def)
  have quarter: "unat (drop_bit 2 ?g) = unat ?g div 4" by (simp add: drop_bit_eq_div unat_div_distrib)
  have "drop_bit 2 ?g \<le> ?g" using quarter by (simp add: word_le_nat_alt)
  then have rest: "u_sub ?g (drop_bit 2 ?g) = (Ok (?g - drop_bit 2 ?g) :: ('e, _) res)" "unat (?g - drop_bit 2 ?g) = unat ?g - unat ?g div 4"
    using quarter by (simp_all add: u_sub_def unat_sub_le)
  show ?thesis
  proof (cases "used \<le> gas_left + gas_left + gas_left")
    case True
    then have "unat used \<le> 3 * unat gas_left" using three by (simp add: word_le_nat_alt)
    then have "unat used \<le> unat ?g - unat ?g div 4" using used(2) le by linarith
    with True show ?thesis
      using used rest sums quarter
      by (intro that [of used "?g - drop_bit 2 ?g" "saturating_mul (?g - drop_bit 2 ?g) (tx_gas_price tx)"
          "saturating_mul (drop_bit 2 ?g) (tx_gas_price tx)" "drop_bit 2 ?g"])
        (simp_all add: gas_settlement_def Let_def)
  next
    case False
    then have "unat used > 3 * unat gas_left" using three by (simp add: word_le_nat_alt)
    then have "unat used \<ge> unat ?g - unat ?g div 4" using used(2) le by linarith
    with False show ?thesis
      using used sums le
      by (intro that [of used used "saturating_mul used (tx_gas_price tx)" "saturating_mul gas_left (tx_gas_price tx)" gas_left])
        (simp_all add: gas_settlement_def Let_def)
  qed
qed

lemma remove_contract_top: "state_ok B s \<Longrightarrow> remove_contract B a s = (r, t) \<Longrightarrow> r \<noteq> Panic \<Longrightarrow> top_only B s t"
  using remove_contract_spec [of B s a r t] by (auto intro: top_only_updates)

lemma subtract_top: "state_ok B s \<Longrightarrow> subtract_total_issued v s = (r, t) \<Longrightarrow> r \<noteq> Panic \<Longrightarrow> top_only B s t"
  using subtract_total_issued_top [of B s v] by simp

lemma kill_loop_wp:
  "kept X R B s u \<Longrightarrow> wp True (kill_loop B as) (\<lambda>_. kept X R B s) (\<lambda>_ _. True) u"
proof (induction "as" arbitrary: u)
  case (Cons a rest)
  show ?case
    unfolding kill_loop.simps
  proof (subst wp_ebind, rule wp_kept_read [OF quiet_reads(1) Cons.prems])
    fix bal t
    assume "kept X R B s (u\<lparr>fe_state := t\<rparr>)"
    note k = kept_transfer [OF this, of "Balance a" MintBurn bal]
    let ?u = "u\<lparr>fe_state := t, fe_observer := fe_observer (u\<lparr>fe_state := t\<rparr>) @ [ObsTransfer (Balance a) MintBurn bal]\<rparr>"
    have "wp True (ethen (on_fe_state (subtract_total_issued bal)) (kill_loop B rest)) (\<lambda>_. kept X R B s) (\<lambda>_ _. True) (?u\<lparr>fe_state := t2\<rparr>)"
      if k2: "kept X R B s (?u\<lparr>fe_state := t2\<rparr>)" for t2
      by (subst wp_ebind, rule wp_kept_state [OF k2 subtract_top [OF kept_ok [OF k2]]], assumption, assumption, rule Cons.IH)
    then show "wp True (ethen (fe_observe (ObsTransfer (Balance a) MintBurn bal)) (ethen (on_fe_state (remove_contract B a))
        (ethen (on_fe_state (subtract_total_issued bal)) (kill_loop B rest)))) (\<lambda>_. kept X R B s) (\<lambda>_ _. True) (u\<lparr>fe_state := t\<rparr>)"
      unfolding wp_ebind [of True "fe_observe _"] wp_fe_observe wp_ebind [of True "on_fe_state (remove_contract B a)"]
      by (intro wp_kept_state [OF k remove_contract_top [OF kept_ok [OF k]]])
  qed
qed (simp add: wp_basic)

text \<open>What a transaction whose frames ran returns, by the output of the frames and the fee.\<close>

definition gas_left_of :: "frame_stack_output \<Rightarrow> u256" where
  "gas_left_of out = (case fso_result out of Ok r \<Rightarrow> fin_gas_left r | _ \<Rightarrow> 0)"

definition outcome_of :: "transaction_info \<Rightarrow> frame_stack_output \<Rightarrow> u256 \<Rightarrow> u256 \<Rightarrow> u256 \<Rightarrow> execution_outcome \<Rightarrow> bool" where
  "outcome_of tx out used paid fee res = (case fso_result out of
     Ok r \<Rightarrow> \<exists>x. ex_gas_used x = used \<and> ex_gas_charged x = paid \<and> ex_fee x = fee \<and>
       res = (if fin_apply_state r then Finished x else ExecutionErrorBumpNonce (VmError Reverted) x)
   | Err e \<Rightarrow> \<exists>tr. res = ExecutionErrorBumpNonce (VmError e) (execution_error_fully_charged tx tr)
   | Panic \<Rightarrow> False)"

definition settled ::
  "('d, 'r, 'l) tx_executor \<Rightarrow> transaction_info \<Rightarrow> frame_stack_output \<Rightarrow> 'd state \<Rightarrow> execution_outcome \<Rightarrow> 'd state \<Rightarrow> bool" where
  "settled T tx out st res st' \<longleftrightarrow> (\<exists>used paid fee refund t mode mode'.
     gas_settlement tx (gas_left_of out) = (Ok (used, paid, fee, refund) :: (db_error, _) res) \<and> outcome_of tx out used paid fee res \<and>
     add_balance (te_backend T) (tx_sender tx) refund (account_start_nonce (te_spec T)) (st, mode) = (Ok (), (t, mode')) \<and>
     (ss_suicides (fso_substate out) = {} \<longrightarrow> st' = t))"

lemma kill_process_wp:
  assumes order: "\<And>S. finite S \<Longrightarrow> set (te_set_order T S) = S" and u: "kept X R (te_backend T) s u"
  shows "wp True (kill_process T dead) (\<lambda>_ v. kept X R (te_backend T) s v \<and> (dead = {} \<longrightarrow> fe_state v = fe_state u)) (\<lambda>_ _. True) u"
proof (cases "dead = {}")
  case True
  with order [of "{}"] have "te_set_order T dead = []" by simp
  with True u show ?thesis by (simp add: kill_process_def wp_simps)
next
  case False
  then show ?thesis
    using wp_mono [OF kill_loop_wp [OF u, of "te_set_order T dead"]] by (simp add: kill_process_def wp_ebind wp_basic)
qed

lemma tx_outcome_wp:
  assumes "\<And>tr. ex_gas_used (ex tr) = used \<and> ex_gas_charged (ex tr) = paid \<and> ex_fee (ex tr) = fee"
  shows "wp True (tx_outcome T tx opts (fso_result out) ex) (\<lambda>res u'. u' = u \<and> outcome_of tx out used paid fee res) (\<lambda>_ _. True) u"
  using assms by (auto simp: tx_outcome_def outcome_of_def wp_ebind wp_basic intro!: drain_traces_wp split: res.splits vm_error.splits)

lemma wp_elift_any: "(\<And>a. r = Ok a \<Longrightarrow> Q a u) \<Longrightarrow> wp True (elift r) Q (\<lambda>_ _. True) u"
  by (cases r) (simp_all add: wp_elift)

lemma transact_postprocessing_wp:
  fixes T :: "('d, 'r, 'l) tx_executor"
  assumes order: "\<And>S. finite S \<Longrightarrow> set (te_set_order T S) = S" and u: "kept X R (te_backend T) s u"
  shows "wp True (transact_postprocessing T tx opts out)
    (\<lambda>res v. kept X R (te_backend T) s v \<and> settled T tx out (fe_state u) res (fe_state v)) (\<lambda>_ _. True) u"
  unfolding transact_postprocessing_def Let_def
proof (subst wp_ebind, rule wp_elift_any, subst wp_ebind, rule observers_now_wp, subst wp_ebind, rule wp_elift_any, subst wp_ebind, rule wp_elift_any)
  let ?B = "te_backend T"
  fix bs :: bytes and m :: multi_observers and estimated and g
  assume g: "gas_settlement tx (case fso_result out of Ok r \<Rightarrow> fin_gas_left r | _ \<Rightarrow> 0) = (Ok g :: (db_error, _) res)"
  obtain used paid fee refund where parts: "g = (used, paid, fee, refund)" by (cases g)
  let ?ex = "\<lambda>ss subsub tr. \<lparr>ex_gas_used = used, ex_fee = fee, ex_gas_charged = paid, ex_logs = ss_logs (accrue subsub ss),
    ex_contracts_created = ss_contracts_created (accrue subsub ss), ex_output = bs, ex_trace = tr, ex_estimated_gas_limit = estimated\<rparr>"
  let ?finish = "\<lambda>ss subsub. tx_outcome T tx opts (fso_result out) (?ex ss subsub)"
  let ?Q = "\<lambda>res v. kept X R ?B s v \<and> settled T tx out (fe_state u) res (fe_state v)"
  note k = kept_transfer [OF u, of GasPayment "Balance (tx_sender tx)" refund]
  let ?u = "u\<lparr>fe_observer := fe_observer u @ [ObsTransfer GasPayment (Balance (tx_sender tx)) refund]\<rparr>"
  have "wp True (ebind (with_substate (add_balance ?B (tx_sender tx) refund (account_start_nonce (te_spec T))) (te_spec T) (fso_substate out))
      (\<lambda>ss. ebind (kill_process T (ss_suicides ss)) (?finish ss))) ?Q (\<lambda>_ _. True) ?u"
  proof (subst wp_ebind, rule wp_kept_substate [OF k])
    fix r t mode'
    assume "add_balance ?B (tx_sender tx) refund (account_start_nonce (te_spec T)) (fe_state ?u, cleanup_mode_of (fso_substate out) (te_spec T)) = (r, (t, mode'))"
      "r \<noteq> Panic"
    then show "top_only ?B (fe_state ?u) t" using add_balance_top kept_ok [OF k] by blast
  next
    fix ss t mode'
    assume k2: "kept X R ?B s (?u\<lparr>fe_state := t\<rparr>)" and ss: "ss = return_mode mode' (fso_substate out)"
      and add: "add_balance ?B (tx_sender tx) refund (account_start_nonce (te_spec T)) (fe_state ?u, cleanup_mode_of (fso_substate out) (te_spec T)) = (Ok (), (t, mode'))"
    show "wp True (ebind (kill_process T (ss_suicides ss)) (?finish ss)) ?Q (\<lambda>_ _. True) (?u\<lparr>fe_state := t\<rparr>)"
    proof (subst wp_ebind, rule wp_mono [OF kill_process_wp [OF order k2]], assumption)
      fix subsub v
      assume v: "kept X R ?B s v \<and> (ss_suicides ss = {} \<longrightarrow> fe_state v = fe_state (?u\<lparr>fe_state := t\<rparr>))"
      show "wp True (?finish ss subsub) ?Q (\<lambda>_ _. True) v"
        by (rule wp_mono [OF tx_outcome_wp [of _ used paid fee]]) (use v add g parts ss in \<open>auto simp: settled_def gas_left_of_def\<close>)
    qed simp
  qed
  then show "wp True (case g of (used, paid, fee, refund) \<Rightarrow>
      ethen (fe_observe (ObsTransfer GasPayment (Balance (tx_sender tx)) refund))
      (ebind (with_substate (add_balance ?B (tx_sender tx) refund (account_start_nonce (te_spec T))) (te_spec T) (fso_substate out)) (\<lambda>ss.
      ebind (kill_process T (ss_suicides ss)) (\<lambda>subsub. tx_outcome T tx opts (fso_result out) (\<lambda>tr. \<lparr>ex_gas_used = used, ex_fee = fee,
        ex_gas_charged = paid, ex_logs = ss_logs (accrue subsub ss), ex_contracts_created = ss_contracts_created (accrue subsub ss), ex_output = bs,
        ex_trace = tr, ex_estimated_gas_limit = estimated\<rparr>))))) ?Q (\<lambda>_ _. True) u"
    unfolding parts prod.case wp_ebind [of True "fe_observe _"] wp_fe_observe Let_def .
qed

text \<open>After a failed run the refund leaves the sender with the fee paid and nothing else.\<close>

lemma failed_settlement:
  assumes st: "state_ok (te_backend T) st" and V: "top_view (te_backend T) st (tx_sender tx) = Ok (Some (charged av (ucast cost)))"
    and S: "settled T tx out st (ExecutionErrorBumpNonce err x) st'" "ss_suicides (fso_substate out) = {}"
    and gas: "unat (tx_gas_limit tx) < 2 ^ 64" "unat (gas_left_of out) \<le> unat (tx_gas_limit tx)"
    and cost: "unat (cost :: u512) = unat (tx_gas_limit tx) * unat (tx_gas_price tx)" "unat cost \<le> unat (av_balance av)"
  shows "updates (te_backend T) st (tx_sender tx) (Some (charged av (ex_fee x))) st'"
proof -
  let ?g = "tx_gas_limit tx" and ?p = "tx_gas_price tx"
  have "unat ?g < 2 ^ 254" using gas(1) by simp
  then obtain used paid fee refund refunded where G: "gas_settlement tx (gas_left_of out) = (Ok (used, paid, fee, refund) :: (db_error, _) res)"
    and used: "unat used = unat ?g - unat (gas_left_of out)" and paid: "unat paid = max (unat used) (unat ?g - unat ?g div 4)"
    and sum: "unat paid + unat refunded = unat ?g" and fr: "fee = saturating_mul paid ?p" "refund = saturating_mul refunded ?p"
    using gas_settlement_spec gas(2) by metis
  obtain mode mode' where add: "add_balance (te_backend T) (tx_sender tx) refund (account_start_nonce (te_spec T)) (st, mode) = (Ok (), (st', mode'))"
    and out: "outcome_of tx out used paid fee (ExecutionErrorBumpNonce err x)"
    using S G by (auto simp: settled_def)
  have lt: "unat cost < 2 ^ 256" using cost(2) unat_lt_pow [of "av_balance av"] by simp
  have "(unat paid + unat refunded) * unat ?p = unat cost" using sum cost(1) by simp
  then have nat: "unat fee = unat paid * unat ?p" "unat refund = unat refunded * unat ?p" "unat fee + unat refund = unat cost"
    using lt by (simp_all add: fr saturating_mul_unat add_mult_distrib)
  have c: "unat (ucast cost :: u256) = unat cost" using lt by (simp add: unsigned_ucast_eq take_bit_nat_eq_self)
  have word: "ucast cost = fee + refund"
    using nat(3) lt c unat_add_no_overflow [of fee refund] by (simp add: word_unat_eq_iff)
  have fee: "fee = ex_fee x"
  proof (cases "fso_result out")
    case (Err e)
    then have "paid = ?g" using paid used by (simp add: gas_left_of_def word_unat_eq_iff)
    with Err out show ?thesis by (auto simp: outcome_of_def fr execution_error_fully_charged_def)
  qed (use out in \<open>auto simp: outcome_of_def split: if_splits\<close>)
  have le: "ucast cost \<le> av_balance av" using cost(2) c by (simp add: word_le_nat_alt)
  have "unat (av_balance (charged av (ucast cost))) + unat refund < 2 ^ 256"
    using nat(3) cost(2) c unat_lt_pow [of "av_balance av"] unat_sub_le [OF le] by (simp add: charged_def)
  from add_balance_state [OF st add V refl] this
  show ?thesis by (simp add: or_default_def charged_def word fee)
qed

text \<open>The whole transaction.\<close>

definition transact_post ::
  "('d, 'r, 'l) tx_executor \<Rightarrow> transaction_info \<Rightarrow> transact_options \<Rightarrow> 'd state \<Rightarrow> execution_outcome \<Rightarrow> 'd state \<Rightarrow> bool" where
  "transact_post T tx opts st res st' \<longleftrightarrow> (\<exists>acc av. top_view (te_backend T) st (tx_sender tx) = Ok acc \<and>
     av = account_or_new (te_backend T) (st_db st) (te_spec T) (tx_sender tx) acc \<and>
     (case res of
        ExecutionErrorBumpNonce err x \<Rightarrow> cs_charge_gas (to_check_settings opts) \<longrightarrow>
          updates (te_backend T) st (tx_sender tx) (Some (charged av (ex_fee x))) st'
      | Finished x \<Rightarrow> tx_nonce tx = or_default 0 av_nonce acc \<and>
          unat (ex_gas_charged x) = max (unat (ex_gas_used x)) (unat (tx_gas_limit tx) - unat (tx_gas_limit tx) div 4) \<and>
          unat (ex_gas_used x) \<le> unat (tx_gas_limit tx) \<and> ex_fee x = saturating_mul (ex_gas_charged x) (tx_gas_price tx)
      | _ \<Rightarrow> same (te_backend T) st st'))"

lemma settled_finished:
  assumes "settled T tx out st (Finished x) st'" and "unat (tx_gas_limit tx) < 2 ^ 64" and "unat (gas_left_of out) \<le> unat (tx_gas_limit tx)"
  shows "unat (ex_gas_charged x) = max (unat (ex_gas_used x)) (unat (tx_gas_limit tx) - unat (tx_gas_limit tx) div 4) \<and>
    unat (ex_gas_used x) \<le> unat (tx_gas_limit tx) \<and> ex_fee x = saturating_mul (ex_gas_charged x) (tx_gas_price tx)"
proof -
  have g: "unat (tx_gas_limit tx) < 2 ^ 254" using assms(2) by simp
  show ?thesis
    by (rule gas_settlement_spec [OF g assms(3), where ?'e = db_error])
      (use assms(1) in \<open>auto simp: settled_def outcome_of_def split: res.splits if_splits\<close>)
qed

lemma frame_done_kept:
  assumes t: "kept X R B s t" and d: "frame_done X R B (st_db (fe_state t)) (fe_worlds B t) (fe_calls t) G q v"
  shows "kept X R B s v" "\<not> applied q \<Longrightarrow> same B (fe_state t) (fe_state v)"
  using t d by (auto simp: kept_def frame_done_def closed_def env_ok_def top_only_def same_def split: if_splits)

lemma stack_output:
  assumes "frame_done X R B db W S G q v" "out = stack_process_return ss base q"
  shows "unat (gas_left_of out) \<le> G" "\<not> applied q \<Longrightarrow> fso_substate out = ss"
    "settled T tx out st res st' \<Longrightarrow> case res of Finished _ \<Rightarrow> applied q | ExecutionErrorBumpNonce _ _ \<Rightarrow> \<not> applied q | _ \<Rightarrow> False"
  using assms by (auto simp: frame_done_def return_ok_def stack_process_return_def accrue_substate_def gas_left_of_def applied_def
      settled_def outcome_of_def into_finalization_result_def split: res.splits option.splits if_splits)

lemma frames_and_settlement_wp:
  fixes T :: "('d, 'r, 'l) tx_executor"
  assumes T: "tx_ok T R held tx" and C: "check_post T R tx opts s (PreCheckPass f ss base) t"
  shows "pwp (pbind (frame_stack_exec (te_externals T) (te_backend T) (te_machine T) ss base f) (\<lambda>out. total (transact_postprocessing T tx opts out)))
    (\<lambda>res v. kept (te_externals T) R (te_backend T) s v \<and> transact_post T tx opts (fe_state s) res (fe_state v)) (\<lambda>_ _. True) t"
proof -
  let ?B = "te_backend T" and ?X = "te_externals T" and ?cost = "gas_cost_of tx (to_check_settings opts)"
  obtain acc av where acc: "top_view ?B (fe_state s) (tx_sender tx) = Ok acc" "av = account_or_new ?B (st_db (fe_state s)) (te_spec T) (tx_sender tx) acc"
    and cost: "unat ?cost + unat (tx_value tx) \<le> unat (av_balance av)" and nonce: "tx_nonce tx = or_default 0 av_nonce acc"
    and t: "kept ?X R ?B s t" and base: "unat base \<le> unat (tx_gas_limit tx)"
    and f: "frame_start (te_machine T) (unat (tx_gas_limit tx) - unat base) f" and ss: "ss_suicides ss = {}"
    and up: "updates ?B (fe_state s) (tx_sender tx) (Some (charged av (ucast ?cost))) (fe_state t)"
    using C by (auto simp: check_post_def pass_post_def)
  have L: "outside_laws ?X R ?B (te_machine T) held" and order: "\<And>S. finite S \<Longrightarrow> set (te_set_order T S) = S"
    and gas: "unat (tx_gas_limit tx) < 2 ^ 64"
    using T by (auto simp: tx_ok_def)
  have env: "env_ok ?X R ?B t" using t by (simp add: kept_def)
  show ?thesis
    unfolding pwp_pbind
  proof (rule pwp_mono [OF frame_stack_exec_wp [OF L env f]])
    fix out v
    assume "\<exists>q. out = stack_process_return ss base q \<and> frame_done ?X R ?B (st_db (fe_state t)) (fe_worlds ?B t) (fe_calls t)
      (unat (tx_gas_limit tx) - unat base) q v"
    then obtain q where q: "out = stack_process_return ss base q"
      and d: "frame_done ?X R ?B (st_db (fe_state t)) (fe_worlds ?B t) (fe_calls t) (unat (tx_gas_limit tx) - unat base) q v"
      by blast
    note v = frame_done_kept [OF t d] and O = stack_output [OF d q]
    have left: "unat (gas_left_of out) \<le> unat (tx_gas_limit tx)" using O(1) by simp
    show "pwp (total (transact_postprocessing T tx opts out))
        (\<lambda>res v. kept ?X R ?B s v \<and> transact_post T tx opts (fe_state s) res (fe_state v)) (\<lambda>_ _. True) v"
      unfolding pwp_total
    proof (rule wp_mono [OF transact_postprocessing_wp [OF order v(1)]], assumption)
      fix res w
      assume w: "kept ?X R ?B s w \<and> settled T tx out (fe_state v) res (fe_state w)"
      have "transact_post T tx opts (fe_state s) res (fe_state w)"
      proof (cases res)
        case (Finished x)
        with w settled_finished [OF _ gas left] acc nonce show ?thesis by (auto simp: transact_post_def)
      next
        case (ExecutionErrorBumpNonce err x)
        then have na: "\<not> applied q" using w O(3) by fastforce
        have "updates ?B (fe_state s) (tx_sender tx) (Some (charged av (ex_fee x))) (fe_state w)" if "cs_charge_gas (to_check_settings opts)"
        proof -
          have up': "updates ?B (fe_state s) (tx_sender tx) (Some (charged av (ucast ?cost))) (fe_state v)"
            using updates_then_same [OF up v(2) [OF na]] .
          then have V: "top_view ?B (fe_state v) (tx_sender tx) = Ok (Some (charged av (ucast ?cost)))" by (simp add: updates_view)
          have "updates ?B (fe_state v) (tx_sender tx) (Some (charged av (ex_fee x))) (fe_state w)"
            using failed_settlement [OF kept_ok [OF v(1)] V _ _ gas left] w ExecutionErrorBumpNonce O(2) [OF na] ss gas_cost_unat(1) that cost by auto
          with up' show ?thesis by (rule updates_twice)
        qed
        with acc ExecutionErrorBumpNonce show ?thesis by (auto simp: transact_post_def)
      qed (use w O(3) in fastforce)+
      with w show "kept ?X R ?B s w \<and> transact_post T tx opts (fe_state s) res (fe_state w)" by simp
    qed simp
  qed simp
qed

lemma check_fail_post:
  "check_post T R tx opts s (PreCheckFail out) t \<Longrightarrow>
    kept (te_externals T) R (te_backend T) s t \<and> transact_post T tx opts (fe_state s) out (fe_state t)"
proof (cases out)
  case (ExecutionErrorBumpNonce err x)
  then show "check_post T R tx opts s (PreCheckFail out) t \<Longrightarrow> ?thesis" by (cases err) (auto simp: check_post_def transact_post_def)
qed (auto simp: check_post_def transact_post_def)

lemma transact_wp:
  fixes T :: "('d, 'r, 'l) tx_executor"
  assumes T: "tx_ok T R held tx" and s: "env_ok (te_externals T) R (te_backend T) (s\<lparr>fe_callstack := fsi_new, fe_observer := []\<rparr>)"
  shows "pwp (transact T tx opts) (\<lambda>res v. kept (te_externals T) R (te_backend T) (s\<lparr>fe_callstack := fsi_new, fe_observer := []\<rparr>) v \<and>
    transact_post T tx opts (fe_state s) res (fe_state v)) (\<lambda>_ _. True) s"
proof -
  let ?s = "s\<lparr>fe_callstack := fsi_new, fe_observer := []\<rparr>"
  let ?Q = "\<lambda>res v. kept (te_externals T) R (te_backend T) ?s v \<and> transact_post T tx opts (fe_state ?s) res (fe_state v)"
  have "pwp (pbind (total (transact_preprocessing T tx opts)) (\<lambda>checked. case checked of
        PreCheckFail out \<Rightarrow> total (eret out)
      | PreCheckPass top_frame tx_substate base_gas_required \<Rightarrow>
          pbind (frame_stack_exec (te_externals T) (te_backend T) (te_machine T) tx_substate base_gas_required top_frame) (\<lambda>output.
          total (transact_postprocessing T tx opts output)))) ?Q (\<lambda>_ _. True) ?s"
    unfolding pwp_pbind [of "total (transact_preprocessing T tx opts)"] pwp_total
  proof (rule wp_mono [OF transact_preprocessing_wp [OF T s]])
    fix r t
    assume C: "check_post T R tx opts ?s r t"
    show "pwp (case r of
        PreCheckFail out \<Rightarrow> total (eret out)
      | PreCheckPass top_frame tx_substate base_gas_required \<Rightarrow>
          pbind (frame_stack_exec (te_externals T) (te_backend T) (te_machine T) tx_substate base_gas_required top_frame) (\<lambda>output.
          total (transact_postprocessing T tx opts output))) ?Q (\<lambda>_ _. True) t"
    proof (cases r)
      case (PreCheckPass f ss base)
      then show ?thesis using frames_and_settlement_wp [OF T C [unfolded PreCheckPass]] by simp
    next
      case (PreCheckFail out)
      with C show ?thesis using check_fail_post by (fastforce simp: pwp_total wp_basic)
    qed
  qed simp
  then show ?thesis by (simp add: transact_def pwp_pbind [of "total (emodify _)"] pwp_total wp_simps)
qed

section \<open>Virtual runs\<close>

text \<open>The environment as a transaction starts on it.\<close>

abbreviation cleared :: "('d, 'l) frame_env \<Rightarrow> ('d, 'l) frame_env" where
  "cleared s \<equiv> s\<lparr>fe_callstack := fsi_new, fe_observer := []\<rparr>"

lemma env_ok_cleared: "env_ok X R B (cleared s) \<Longrightarrow> state_ok B t \<Longrightarrow> env_ok X R B (cleared (s\<lparr>fe_state := t\<rparr>))"
  by (simp add: env_ok_def)

lemma wp_state_read:
  assumes "quiet B m" "state_ok B s" "\<And>a t. same B s t \<Longrightarrow> Q a t"
  shows "wp True m Q (\<lambda>_ _. True) s"
  using assms by (auto simp: wp_def quiet_def split: prod.splits res.splits)

definition virtual_post :: "'d backend \<Rightarrow> 'd state \<Rightarrow> execution_outcome \<Rightarrow> 'd state \<Rightarrow> bool" where
  "virtual_post B st out st' \<longleftrightarrow> (case out of
     Finished _ \<Rightarrow> state_ok B st' \<and> worlds B st' = worlds B st
   | ExecutionErrorBumpNonce (NotEnoughCash _ _ _) _ \<Rightarrow> state_ok B st'
   | _ \<Rightarrow> state_ok B st' \<and> tl (worlds B st') = worlds B st)"

lemma virtual_result_wp:
  assumes v: "state_ok B (fe_state v)" "tl (worlds B (fe_state v)) = worlds B st" "st_checkpoints (fe_state v) \<noteq> []"
  shows "pwp (case out of
        Finished e \<Rightarrow>
          pbind (total (on_fe_state revert_to_checkpoint)) (\<lambda>_.
          pbind (total (elift (revise_executed request tx e))) (\<lambda>e.
          total (elift (recheck_balance request tx balance e))))
      | _ \<Rightarrow> total (eret out)) (\<lambda>res w. virtual_post B st res (fe_state w)) (\<lambda>(_ :: db_error) _. True) v"
proof -
  obtain c cs where c: "st_checkpoints (fe_state v) = c # cs" using v(3) by (cases "st_checkpoints (fe_state v)") auto
  have check: "virtual_post B st res t" if "recheck_balance request tx balance e = (Ok res :: (db_error, _) res)" "state_ok B t" "worlds B t = worlds B st" for e t res
    using that by (auto simp: recheck_balance_def virtual_post_def Let_def rbind_Ok_iff split: if_splits)
  show ?thesis
  proof (cases out)
    case (Finished e)
    show ?thesis
      unfolding Finished execution_outcome.case
    proof (subst pwp_pbind, subst pwp_total, subst wp_on_fe(1), rule wp_mono [OF revert_wp [OF v(1) c]])
      fix x t
      assume "state_ok B t \<and> st_db t = st_db (fe_state v) \<and> worlds B t = tl (worlds B (fe_state v))"
      then show "pwp (pbind (total (elift (revise_executed request tx e))) (\<lambda>e. total (elift (recheck_balance request tx balance e))))
          (\<lambda>res w. virtual_post B st res (fe_state w)) (\<lambda>(_ :: db_error) _. True) (v\<lparr>fe_state := t\<rparr>)"
        using v(2) check by (auto simp: pwp_pbind pwp_total wp_elift split: res.splits)
    qed simp
  next
    case (ExecutionErrorBumpNonce err x)
    with v show ?thesis by (cases err) (simp_all add: pwp_total wp_basic virtual_post_def)
  qed (use v in \<open>simp_all add: pwp_total wp_basic virtual_post_def\<close>)
qed

lemma transact_virtual_wp:
  fixes T :: "('d, 'r, 'l) tx_executor"
  assumes T: "tx_ok T R held tx" and s: "env_ok (te_externals T) R (te_backend T) (cleared s)"
    and req: "er_has_sender request" "\<not> er_has_nonce request"
  shows "pwp (transact_virtual T random tx request) (\<lambda>out v. virtual_post (te_backend T) (fe_state s) out (fe_state v)) (\<lambda>_ _. True) s"
proof -
  let ?B = "te_backend T" and ?X = "te_externals T"
  have ok: "state_ok ?B (fe_state s)" using s by (simp add: env_ok_def)
  have run: "pwp (transact T (tx\<lparr>tx_nonce := n\<rparr>) opts) (\<lambda>_ v. state_ok ?B (fe_state v) \<and> tl (worlds ?B (fe_state v)) = worlds ?B (fe_state s) \<and>
      st_checkpoints (fe_state v) \<noteq> []) (\<lambda>_ _. True) (s\<lparr>fe_state := snd (checkpoint t)\<rparr>)" if t: "same ?B (fe_state s) t" for t n opts
  proof -
    have c: "state_ok ?B (snd (checkpoint t))" "tl (worlds ?B (snd (checkpoint t))) = worlds ?B (fe_state s)"
      using checkpoint_spec [OF same_ok [OF t] surjective_pairing] t by (simp_all add: same_def)
    have "tx_ok T R held (tx\<lparr>tx_nonce := n\<rparr>)" using T by (simp add: tx_ok_def)
    note run = transact_wp [OF this env_ok_cleared [OF s c(1)]]
    show ?thesis
    proof (rule pwp_mono [OF run])
      fix out v
      assume "kept ?X R ?B (cleared (s\<lparr>fe_state := snd (checkpoint t)\<rparr>)) v \<and>
        transact_post T (tx\<lparr>tx_nonce := n\<rparr>) opts (fe_state (s\<lparr>fe_state := snd (checkpoint t)\<rparr>)) out (fe_state v)"
      then have v: "state_ok ?B (fe_state v)" "tl (worlds ?B (fe_state v)) = worlds ?B (fe_state s)"
        using c by (auto simp: kept_def top_only_def)
      moreover have "st_checkpoints (fe_state v) \<noteq> []"
        using length_worlds [OF v(1)] length_worlds [OF ok] v(2) by (cases "worlds ?B (fe_state v)") auto
      ultimately show "state_ok ?B (fe_state v) \<and> tl (worlds ?B (fe_state v)) = worlds ?B (fe_state s) \<and> st_checkpoints (fe_state v) \<noteq> []"
        by simp
    qed simp
  qed
  let ?k = "\<lambda>n balance t. pwp (transact T (tx\<lparr>tx_nonce := n\<rparr>) (estimate_first_pass request)) (\<lambda>out. pwp (case out of
        Finished e \<Rightarrow>
          pbind (total (on_fe_state revert_to_checkpoint)) (\<lambda>_.
          pbind (total (elift (revise_executed request (tx\<lparr>tx_nonce := n\<rparr>) e))) (\<lambda>e.
          total (elift (recheck_balance request (tx\<lparr>tx_nonce := n\<rparr>) balance e))))
      | _ \<Rightarrow> total (eret out)) (\<lambda>res w. virtual_post ?B (fe_state s) res (fe_state w)) (\<lambda>(_ :: db_error) _. True)) (\<lambda>_ _. True) (s\<lparr>fe_state := snd (checkpoint t)\<rparr>)"
  have "?k n balance t" if "same ?B (fe_state s) t" for n balance t
    by (rule pwp_mono [OF run [OF that]]) (auto intro!: virtual_result_wp)
  then have "wp True (state_nonce ?B (tx_sender tx)) (\<lambda>n. wp True (state_balance ?B (tx_sender tx)) (?k n) (\<lambda>_ _. True)) (\<lambda>_ _. True) (fe_state s)"
    by (intro wp_state_read [OF quiet_reads(2) ok] wp_state_read [OF quiet_reads(1) same_ok]) (auto intro: same_trans)
  then show ?thesis
    using req unfolding transact_virtual_def virtual_sender_def virtual_nonce_def
    by (simp add: pwp_pbind pwp_total wp_basic wp_ebind wp_on_fe(1) wp_emodify)
qed

end
