(* ===== verification/Executor_Properties.thy ===== *)
theory Executor_Properties
  imports Executor_Laws Observer_Properties State_Properties
begin

text \<open>
  Properties of whole transactions, from the checks to the settlement, with a concrete executor on
  which they apply.
\<close>

section \<open>A reference executor\<close>

definition ref_set_order :: "address_with_space set \<Rightarrow> address_with_space list" where
  "ref_set_order S = map (\<lambda>a. with_space a Ethereum) (sorted_list_of_set (aws_address ` S))"

definition ref_executor :: "(in_memory_db, unit) machine \<Rightarrow> (in_memory_db, unit, alru) tx_executor" where
  "ref_executor M = \<lparr>te_externals = ref_externals, te_backend = ref_backend, te_machine = M, te_env = ref_env, te_spec = ref_spec,
     te_show = (\<lambda>_. []), te_set_order = ref_set_order\<rparr>"

definition ref_tx :: transaction_info where
  "ref_tx = \<lparr>tx_sender = with_space 8 Ethereum, tx_nonce = 0, tx_gas_limit = 50000, tx_gas_price = 2, tx_data = [1, 0],
     tx_action = TxCall 9, tx_value = 0\<rparr>"

definition ref_rich_env :: "(in_memory_db, alru) frame_env" where
  "ref_rich_env = ref_frame_env\<lparr>fe_state := (ref_state Map.empty)\<lparr>st_cache := [(with_space 8 Ethereum,
     new_dirty (Some (new_basic ref_backend (with_space 8 Ethereum) 1000000 0)))]\<rparr>\<rparr>"

lemma ref_set_order: "finite S \<Longrightarrow> set (ref_set_order S) = S"
proof -
  have "with_space (aws_address a) Ethereum = a" for a by (cases a; cases "aws_space a") (simp add: with_space_def)
  then show "finite S \<Longrightarrow> ?thesis" by (simp add: ref_set_order_def image_image)
qed

lemma ref_tx_ok: 
  assumes "outside_laws ref_externals alru_map ref_backend M (\<lambda>_. 0)"
  shows "tx_ok (ref_executor M) alru_map (\<lambda>_. 0) ref_tx"
  using assms ref_spec_ok ref_spec_start_nonce by (simp add: tx_ok_def ref_executor_def ref_tx_def ref_set_order)

lemma ref_rich_ok: "state_ok ref_backend (fe_state ref_rich_env)"
  by (simp add: ref_rich_env_def state_ok_def ref_backend_ok ref_state_def entry_ok_def new_dirty_def is_dirty_def hm_ok_def account_ok_def new_basic_def)

lemma ref_rich_env_ok: "env_ok ref_externals alru_map ref_backend (ref_rich_env\<lparr>fe_callstack := fsi_new, fe_observer := []\<rparr>)"
  using ref_env_ok ref_rich_ok by (simp add: env_ok_def ref_rich_env_def ref_frame_env_def)


lemmas transact_eval = transact_def transact_preprocessing_def pbind_def total_def ref_executor_def ref_tx_def ref_rich_env_def
  ref_frame_env_def on_fe_state_def ezoom_def state_nonce_def state_eval rfold.simps gas_required_for_def gas_cost_of_def exec_with_no_tracing_def all_checks_def
  charge_sender_def inc_nonce_def try_into_u256_def with_substate_def fe_observe_def tx_frame_def new_dirty_def ref_spec_def new_spec_from_common_params_def
  ref_transitions_def genesis_spec_def oa_inc_nonce_def state_code_def state_code_hash_def cleanup_mode_of_def return_mode_def

lemmas frames_eval =
  frame_stack_exec_def frame_exec_def frame_prepare_def new_call_raw_def ref_builtin_machine_def ref_machine_def
  machine_builtin_def builtin_is_active_def ref_builtin_def frame_context_new_def check_static_flag_def on_callstack_def
  in_context_def transfer_exec_balance_def frame_executable_def run_frame_def run_in_context_def exec_executable_def
  builtin_exec_def process_output_def process_return_def attempt_def finalize_def local_get_def separate_out_db_error_def
  settle_def fsi_pop_def fsi_push_def fsi_new_def hm_simps activate_def deactivate_def exec_frames.simps stack_step_def
  stack_process_return_def accrue_substate_def transact_postprocessing_def observers_now_def observe_all_def
  estimated_gas_limit_def gas_settlement_def kill_process_def ref_set_order_def substate_new_def accrue_def tx_outcome_def
  drain_traces_def execution_error_fully_charged_def saturating_mul_def with_no_tracing_def transfer_balance_def on_state_mode_def
  into_vm_def multi_observe_def ctx_ret_def rd_new_def rd_deref_def slice_def into_finalization_result_def frame_return_new_def

lemma ref_failed_run:
  "\<exists>x s'. transact (ref_executor ref_builtin_machine) ref_tx exec_with_no_tracing ref_rich_env =
     Some (Ok (ExecutionErrorBumpNonce (VmError OutOfGas) x), s') \<and> ex_fee x = 100000"
  by (simp add: transact_eval frames_eval)

section \<open>Properties\<close>



text \<open>C5.  A transaction whose execution fails, reverts or cannot be paid for changes one account only: the nonce of the
  sender goes up by one and the reported fee is taken from its balance; whatever the code did is undone and the unused gas is
  refunded to the last unit.\<close>

theorem failed_transaction_only_pays:
  assumes "tx_ok T R held tx" and "env_ok (te_externals T) R (te_backend T) (s\<lparr>fe_callstack := fsi_new, fe_observer := []\<rparr>)"
    and "cs_charge_gas (to_check_settings opts)" and "transact T tx opts s = Some (Ok (ExecutionErrorBumpNonce err x), s')"
  shows "\<exists>acc. top_view (te_backend T) (fe_state s) (tx_sender tx) = Ok acc \<and>
    worlds (te_backend T) (fe_state s') = world_update (tx_sender tx)
      (Some (charged (account_or_new (te_backend T) (st_db (fe_state s)) (te_spec T) (tx_sender tx) acc) (ex_fee x)))
      (worlds (te_backend T) (fe_state s))"
  using pwp_OkD [OF transact_wp [OF assms(1,2)] assms(4)] assms(3) by (auto simp: transact_post_def updates_def)

theorem failed_transaction_only_pays_witness:
  "\<exists>x s'. transact (ref_executor ref_builtin_machine) ref_tx exec_with_no_tracing ref_rich_env =
     Some (Ok (ExecutionErrorBumpNonce (VmError OutOfGas) x), s') \<and> ex_fee x = 100000 \<and>
     (\<exists>acc. worlds ref_backend (fe_state s') = world_update (with_space 8 Ethereum)
       (Some (charged (account_or_new ref_backend Map.empty ref_spec (with_space 8 Ethereum) acc) 100000)) (worlds ref_backend (fe_state ref_rich_env)))"
proof -
  obtain x s' where run: "transact (ref_executor ref_builtin_machine) ref_tx exec_with_no_tracing ref_rich_env =
     Some (Ok (ExecutionErrorBumpNonce (VmError OutOfGas) x), s')" "ex_fee x = 100000"
    using ref_failed_run by blast
  have "cs_charge_gas (to_check_settings exec_with_no_tracing)" by (simp add: exec_with_no_tracing_def all_checks_def)
  from failed_transaction_only_pays [OF ref_tx_ok [OF ref_builtin_outside] _ this run(1)] run ref_rich_env_ok
  show ?thesis by (auto simp: ref_executor_def ref_tx_def ref_rich_env_def ref_state_def)
qed

text \<open>C11.  A transaction that is not executed, because its nonce is too low or too high, its gas limit does not cover the base
  cost or its sender does not exist, changes no account in any world.\<close>

theorem not_executed_changes_nothing:
  assumes "tx_ok T R held tx" and "env_ok (te_externals T) R (te_backend T) (s\<lparr>fe_callstack := fsi_new, fe_observer := []\<rparr>)"
    and "transact T tx opts s = Some (Ok out, s')" and "(\<exists>e. out = NotExecutedDrop e) \<or> (\<exists>e. out = NotExecutedToReconsiderPacking e)"
  shows "worlds (te_backend T) (fe_state s') = worlds (te_backend T) (fe_state s)"
  using pwp_OkD [OF transact_wp [OF assms(1,2)] assms(3)] assms(4) by (auto simp: transact_post_def same_def)

lemma ref_nonce_run:
  "\<exists>s'. transact (ref_executor ref_machine) (ref_tx\<lparr>tx_nonce := 4\<rparr>) exec_with_no_tracing ref_rich_env =
     Some (Ok (NotExecutedToReconsiderPacking (InvalidNonce 0 4)), s')"
  by (simp add: transact_eval)

theorem not_executed_changes_nothing_witness:
  "\<exists>s'. transact (ref_executor ref_machine) (ref_tx\<lparr>tx_nonce := 4\<rparr>) exec_with_no_tracing ref_rich_env =
     Some (Ok (NotExecutedToReconsiderPacking (InvalidNonce 0 4)), s') \<and>
     worlds ref_backend (fe_state s') = worlds ref_backend (fe_state ref_rich_env)"
proof -
  obtain s' where run: "transact (ref_executor ref_machine) (ref_tx\<lparr>tx_nonce := 4\<rparr>) exec_with_no_tracing ref_rich_env =
     Some (Ok (NotExecutedToReconsiderPacking (InvalidNonce 0 4)), s')"
    using ref_nonce_run by blast
  have ok: "tx_ok (ref_executor ref_machine) alru_map (\<lambda>_. 0) (ref_tx\<lparr>tx_nonce := 4\<rparr>)"
    using ref_tx_ok [OF ref_outside] by (simp add: tx_ok_def)
  from not_executed_changes_nothing [OF ok _ run] run ref_rich_env_ok show ?thesis by (auto simp: ref_executor_def)
qed

text \<open>C10.  What a finished transaction pays: at least three quarters of the gas limit, all the gas that was used and never more
  than the gas limit; its nonce was the sender's.\<close>

theorem finished_transaction_fee:
  assumes "tx_ok T R held tx" and "env_ok (te_externals T) R (te_backend T) (s\<lparr>fe_callstack := fsi_new, fe_observer := []\<rparr>)"
    and "transact T tx opts s = Some (Ok (Finished x), s')"
  shows "unat (ex_gas_charged x) = max (unat (ex_gas_used x)) (unat (tx_gas_limit tx) - unat (tx_gas_limit tx) div 4) \<and>
    ex_gas_charged x \<le> tx_gas_limit tx \<and> ex_fee x = saturating_mul (ex_gas_charged x) (tx_gas_price tx) \<and>
    (\<exists>acc. top_view (te_backend T) (fe_state s) (tx_sender tx) = Ok acc \<and> tx_nonce tx = or_default 0 av_nonce acc)"
  using pwp_OkD [OF transact_wp [OF assms(1,2)] assms(3)] by (auto simp: transact_post_def word_le_nat_alt)

lemma ref_finished_run:
  "\<exists>x s'. transact (ref_executor ref_builtin_machine) (ref_tx\<lparr>tx_gas_limit := 90000\<rparr>) exec_with_no_tracing ref_rich_env =
     Some (Ok (Finished x), s') \<and> ex_gas_charged x = 81072"
  by (simp add: transact_eval frames_eval)

theorem finished_transaction_fee_witness:
  "\<exists>x s'. transact (ref_executor ref_builtin_machine) (ref_tx\<lparr>tx_gas_limit := 90000\<rparr>) exec_with_no_tracing ref_rich_env =
     Some (Ok (Finished x), s') \<and> ex_gas_charged x = 81072 \<and> ex_fee x = 162144"
proof -
  obtain x s' where run: "transact (ref_executor ref_builtin_machine) (ref_tx\<lparr>tx_gas_limit := 90000\<rparr>) exec_with_no_tracing ref_rich_env =
     Some (Ok (Finished x), s')" "ex_gas_charged x = 81072"
    using ref_finished_run by blast
  have ok: "tx_ok (ref_executor ref_builtin_machine) alru_map (\<lambda>_. 0) (ref_tx\<lparr>tx_gas_limit := 90000\<rparr>)"
    using ref_tx_ok [OF ref_builtin_outside] by (simp add: tx_ok_def)
  from finished_transaction_fee [OF ok _ run(1)] run ref_rich_env_ok
  show ?thesis by (auto simp: ref_executor_def ref_tx_def saturating_mul_def)
qed


definition ref_request :: estimate_request where
  "ref_request = \<lparr>er_has_sender = True, er_has_gas_limit = True, er_has_gas_price = True, er_has_nonce = False, er_has_storage_limit = False\<rparr>"

lemma ref_virtual_run:
  "\<exists>x s'. transact_virtual (ref_executor ref_builtin_machine) 0 ref_tx ref_request ref_rich_env =
     Some (Ok (ExecutionErrorBumpNonce (VmError OutOfGas) x), s')"
  by (simp add: transact_virtual_def virtual_sender_def virtual_nonce_def ref_request_def estimate_first_pass_def from_estimate_request_def
      virtual_call_def er_charge_gas_def gas_man_default_def gas_man_observe_def record_call_create_def record_return_def minimum_init_gas_def
      level_gas_cost_def gas_cost_this_level_def gas_required_def result_gas_left_def saturating_sub_def u_mul_def EVM_RATIO_def executive_tracer_default_def
      tracer_observe_def trace_internal_transfer_def cl_push_def cl_checkpoint_def record_call_def record_start_def record_call_result_def
      record_end_def cl_revert_checkpoint_def trace_call_from_def trace_call_result_from_def drain_def mark_valid_def CROSS_SPACE_CONTRACT_ADDRESS_def
      transact_eval frames_eval)


end
