(* ===== verification/Solidity_Abi.thy ===== *)
theory Solidity_Abi
  imports Vm_Types
begin

text \<open>
  The Solidity call data format (utils/solidity-abi): the trait \<open>ABIVariable\<close> as a record of its
  constants and methods, its instances for words, addresses, booleans, byte strings, strings,
  vectors and arrays, and the encoding of argument lists with heads and tails.  Encoding may panic
  on the assertions of the writer; decoding returns the error text.
\<close>

section \<open>Writing and reading lists\<close>

record linked_bytes =
  lb_length :: nat
  lb_data :: "bytes list"

definition padded_big_endian :: "nat \<Rightarrow> bytes" where
  "padded_big_endian n = to_be 32 (of_nat n :: u256)"

definition lb_new :: linked_bytes where
  "lb_new = \<lparr>lb_length = 0, lb_data = []\<rparr>"

definition lb_from_bytes :: "bytes \<Rightarrow> linked_bytes" where
  "lb_from_bytes bs = \<lparr>lb_length = length bs, lb_data = [bs]\<rparr>"

definition lb_append :: "linked_bytes \<Rightarrow> linked_bytes \<Rightarrow> linked_bytes" where
  "lb_append a b = \<lparr>lb_length = lb_length a + lb_length b, lb_data = lb_data a @ lb_data b\<rparr>"

definition lb_to_vec :: "linked_bytes \<Rightarrow> bytes" where
  "lb_to_vec a = concat (lb_data a)"

record 'a abi_variable =
  BASIC_TYPE :: bool
  STATIC_LENGTH :: "nat option"
  from_abi :: "bytes \<Rightarrow> (string, 'a) res"
  to_abi :: "'a \<Rightarrow> (string, linked_bytes) res"
  to_packed_abi :: "'a \<Rightarrow> linked_bytes"

definition abi_require :: "bool \<Rightarrow> string \<Rightarrow> (string, unit) res" where
  "abi_require claim desc = (if \<not> claim then Err desc else Ok ())"

text \<open>An iterator over bytes is the bytes that are left.\<close>

definition pull_slice :: "bytes \<Rightarrow> nat \<Rightarrow> string \<Rightarrow> (string, bytes \<times> bytes) res" where
  "pull_slice iter n err_desc = rbind (abi_require (n \<le> length iter) err_desc) (\<lambda>_. Ok (take n iter, drop n iter))"

definition read_abi_list :: "'a abi_variable \<Rightarrow> bytes \<Rightarrow> bytes \<Rightarrow> (string, 'a \<times> bytes) res" where
  "read_abi_list V data p =
     rbind (case STATIC_LENGTH V of
         Some len \<Rightarrow> pull_slice p len ''Incomplete static input parameter''
       | None \<Rightarrow>
           rbind (pull_slice p 32 ''Incomplete location for dynamic input parameter'') (\<lambda>(l, p').
           let location = (from_be l :: u256) in
           rbind (abi_require (unat location < length data) ''Location out of bounds'') (\<lambda>_.
           if 2 ^ 64 \<le> unat location then Panic else Ok (drop (unat location) data, p'))))
       (\<lambda>(slice, p'). rbind (from_abi V slice) (\<lambda>x. Ok (x, p')))"

record abi_list_writer =
  lw_heads_length :: nat
  lw_heads :: linked_bytes
  lw_tails :: linked_bytes

definition with_heads_length :: "nat \<Rightarrow> abi_list_writer" where
  "with_heads_length n = \<lparr>lw_heads_length = n, lw_heads = lb_new, lw_tails = lb_new\<rparr>"

definition write_down :: "'a abi_variable \<Rightarrow> 'a \<Rightarrow> abi_list_writer \<Rightarrow> (string, abi_list_writer) res" where
  "write_down V x w = rbind (to_abi V x) (\<lambda>encoded.
     case STATIC_LENGTH V of
       Some len \<Rightarrow> if lb_length encoded \<noteq> len then Panic else Ok (w\<lparr>lw_heads := lb_append (lw_heads w) encoded\<rparr>)
     | None \<Rightarrow> Ok (w\<lparr>lw_heads := lb_append (lw_heads w) (lb_from_bytes (padded_big_endian (lb_length (lw_tails w) + lw_heads_length w))),
         lw_tails := lb_append (lw_tails w) encoded\<rparr>))"

definition into_linked_bytes :: "abi_list_writer \<Rightarrow> (string, linked_bytes) res" where
  "into_linked_bytes w = (if lb_length (lw_heads w) \<noteq> lw_heads_length w then Panic else Ok (lb_append (lw_heads w) (lw_tails w)))"

definition head_length :: "'a abi_variable \<Rightarrow> nat" where
  "head_length V = (case STATIC_LENGTH V of Some n \<Rightarrow> n | None \<Rightarrow> 32)"

section \<open>Words, addresses and booleans\<close>

definition word_from_abi :: "nat \<Rightarrow> bytes \<Rightarrow> (string, 'w::len word) res" where
  "word_from_abi BYTES data = rbind (abi_require (length data = 32) ''Invalid call data length'') (\<lambda>_. Ok (from_be (drop (32 - BYTES) data)))"

definition address_abi :: "address abi_variable" where
  "address_abi = \<lparr>BASIC_TYPE = True, STATIC_LENGTH = Some 32, from_abi = word_from_abi 20,
     to_abi = (\<lambda>a. Ok (lb_from_bytes (replicate 12 0 @ to_be 20 a))), to_packed_abi = (\<lambda>a. lb_from_bytes (to_be 20 a))\<rparr>"

definition u256_abi :: "u256 abi_variable" where
  "u256_abi = \<lparr>BASIC_TYPE = True, STATIC_LENGTH = Some 32, from_abi = word_from_abi 32,
     to_abi = (\<lambda>v. Ok (lb_from_bytes (to_be 32 v))), to_packed_abi = (\<lambda>v. lb_from_bytes (to_be 32 v))\<rparr>"

text \<open>The fixed-width integers \<open>U8\<close>, \<open>u16\<close>, \<open>u32\<close>, \<open>u64\<close> and \<open>u128\<close>.\<close>

definition uint_abi :: "'w::len word abi_variable" where
  "uint_abi = (let BYTES = LENGTH('w) div 8 in
     \<lparr>BASIC_TYPE = True, STATIC_LENGTH = Some 32, from_abi = word_from_abi BYTES,
      to_abi = (\<lambda>v. Ok (lb_from_bytes (replicate (32 - BYTES) 0 @ to_be BYTES v))), to_packed_abi = (\<lambda>v. lb_from_bytes (to_be BYTES v))\<rparr>)"

definition bool_abi :: "bool abi_variable" where
  "bool_abi = \<lparr>BASIC_TYPE = True, STATIC_LENGTH = Some 32,
     from_abi = (\<lambda>data. rbind (abi_require (length data = 32) ''Invalid call data length'') (\<lambda>_. Ok (data ! 31 \<noteq> 0))),
     to_abi = (\<lambda>b. Ok (lb_from_bytes (replicate 31 0 @ [if b then 1 else 0]))), to_packed_abi = (\<lambda>b. lb_from_bytes [if b then 1 else 0])\<rparr>"

section \<open>Byte strings\<close>

definition bytes_from_abi :: "bytes \<Rightarrow> (string, bytes) res" where
  "bytes_from_abi data = rbind (pull_slice data 32 ''Incomplete length for byte array'') (\<lambda>(l, data_without_length).
     let expected_length = (from_be l :: u256) in
     if length data_without_length < unat expected_length then Err ''Invalid length in byte array''
     else Ok (take (unat expected_length) data_without_length))"

definition bytes_to_abi :: "bytes \<Rightarrow> linked_bytes" where
  "bytes_to_abi bs = lb_from_bytes (padded_big_endian (length bs) @ bs @ replicate (31 - (length bs + 31) mod 32) 0)"

definition bytes_abi :: "bytes abi_variable" where
  "bytes_abi = \<lparr>BASIC_TYPE = False, STATIC_LENGTH = None, from_abi = bytes_from_abi, to_abi = (\<lambda>bs. Ok (bytes_to_abi bs)),
     to_packed_abi = lb_from_bytes\<rparr>"

text \<open>\<open>[u8; N]\<close> for 2 to 32 bytes.\<close>

definition fixed_bytes_from_abi :: "nat \<Rightarrow> bytes \<Rightarrow> (string, bytes) res" where
  "fixed_bytes_from_abi N data = (if length data < N then Err ''Invalid length in byte array'' else Ok (take N data))"

definition fixed_bytes_abi :: "nat \<Rightarrow> bytes abi_variable" where
  "fixed_bytes_abi N = \<lparr>BASIC_TYPE = True, STATIC_LENGTH = Some 32, from_abi = fixed_bytes_from_abi N,
     to_abi = (\<lambda>bs. Ok (lb_from_bytes (bs @ replicate (32 - N) 0))), to_packed_abi = lb_from_bytes\<rparr>"

definition h256_abi :: "h256 abi_variable" where
  "h256_abi = \<lparr>BASIC_TYPE = BASIC_TYPE (fixed_bytes_abi 32), STATIC_LENGTH = STATIC_LENGTH (fixed_bytes_abi 32),
     from_abi = (\<lambda>data. rbind (from_abi (fixed_bytes_abi 32) data) (\<lambda>bs. Ok (from_be bs))),
     to_abi = (\<lambda>h. to_abi (fixed_bytes_abi 32) (to_be 32 h)), to_packed_abi = (\<lambda>h. to_packed_abi (fixed_bytes_abi 32) (to_be 32 h))\<rparr>"

text \<open>\<open>str::from_utf8\<close>: the well-formed byte sequences of the Unicode standard.\<close>

definition in_range :: "byte \<Rightarrow> byte \<Rightarrow> byte \<Rightarrow> bool" where
  "in_range lo hi b \<longleftrightarrow> lo \<le> b \<and> b \<le> hi"

definition second_ok :: "byte \<Rightarrow> byte \<Rightarrow> bool" where
  "second_ok b0 b1 \<longleftrightarrow> in_range (if b0 = 0xE0 then 0xA0 else if b0 = 0xF0 then 0x90 else 0x80)
     (if b0 = 0xED then 0x9F else if b0 = 0xF4 then 0x8F else 0xBF) b1"

fun utf8_valid :: "bytes \<Rightarrow> bool" where
  "utf8_valid [] = True"
| "utf8_valid (b0 # rest) =
     (if b0 < 0x80 then utf8_valid rest
      else if in_range 0xC2 0xDF b0 then (case rest of b1 # r \<Rightarrow> second_ok b0 b1 \<and> utf8_valid r | _ \<Rightarrow> False)
      else if in_range 0xE0 0xEF b0 then (case rest of b1 # b2 # r \<Rightarrow> second_ok b0 b1 \<and> in_range 0x80 0xBF b2 \<and> utf8_valid r | _ \<Rightarrow> False)
      else if in_range 0xF0 0xF4 b0 then (case rest of
          b1 # b2 # b3 # r \<Rightarrow> second_ok b0 b1 \<and> in_range 0x80 0xBF b2 \<and> in_range 0x80 0xBF b3 \<and> utf8_valid r
        | _ \<Rightarrow> False)
      else False)"

text \<open>A \<open>String\<close> is its bytes.\<close>

definition string_abi :: "bytes abi_variable" where
  "string_abi = \<lparr>BASIC_TYPE = False, STATIC_LENGTH = None,
     from_abi = (\<lambda>data. rbind (from_abi bytes_abi data) (\<lambda>bs. if utf8_valid bs then Ok bs else Err ''Utf8 decoding error'')),
     to_abi = to_abi bytes_abi, to_packed_abi = to_packed_abi bytes_abi\<rparr>"

section \<open>Vectors and arrays\<close>

fun read_items :: "'a abi_variable \<Rightarrow> bytes \<Rightarrow> nat \<Rightarrow> bytes \<Rightarrow> (string, 'a list) res" where
  "read_items V data 0 p = Ok []"
| "read_items V data (Suc n) p = rbind (read_abi_list V data p) (\<lambda>(x, p'). rbind (read_items V data n p') (\<lambda>xs. Ok (x # xs)))"

fun write_items :: "'a abi_variable \<Rightarrow> 'a list \<Rightarrow> abi_list_writer \<Rightarrow> (string, abi_list_writer) res" where
  "write_items V [] w = Ok w"
| "write_items V (x # xs) w = rbind (write_down V x w) (write_items V xs)"

definition items_to_abi :: "'a abi_variable \<Rightarrow> 'a list \<Rightarrow> (string, linked_bytes) res" where
  "items_to_abi V xs = rbind (write_items V xs (with_heads_length (head_length V * length xs))) into_linked_bytes"

definition vec_from_abi :: "'a abi_variable \<Rightarrow> bytes \<Rightarrow> (string, 'a list) res" where
  "vec_from_abi V data = rbind (pull_slice data 32 ''Incomplete length for dynamic input parameter'') (\<lambda>(l, data_without_length).
     read_items V data_without_length (unat (from_be l :: u256)) data_without_length)"

definition vec_abi :: "'a abi_variable \<Rightarrow> 'a list abi_variable" where
  "vec_abi V = \<lparr>BASIC_TYPE = False, STATIC_LENGTH = None, from_abi = vec_from_abi V,
     to_abi = (\<lambda>xs. rbind (items_to_abi V xs) (\<lambda>items. Ok (lb_append (lb_from_bytes (padded_big_endian (length xs))) items))),
     to_packed_abi = (\<lambda>xs. fold (\<lambda>x record. lb_append record (to_packed_abi V x)) xs lb_new)\<rparr>"

definition array_abi :: "'a abi_variable \<Rightarrow> nat \<Rightarrow> 'a list abi_variable" where
  "array_abi V N = \<lparr>BASIC_TYPE = False, STATIC_LENGTH = map_option (\<lambda>n. n * N) (STATIC_LENGTH V),
     from_abi = (\<lambda>data. read_items V data N data), to_abi = items_to_abi V,
     to_packed_abi = (\<lambda>xs. fold (\<lambda>x record. lb_append record (to_packed_abi V x)) xs lb_new)\<rparr>"

section \<open>Argument lists\<close>

definition abi_decode :: "'a abi_variable \<Rightarrow> bytes \<Rightarrow> (string, 'a) res" where
  "abi_decode V data = rbind (read_abi_list V data data) (\<lambda>(x, _). Ok x)"

definition abi_encode :: "'a abi_variable \<Rightarrow> 'a \<Rightarrow> (string, bytes) res" where
  "abi_encode V x = rbind (write_down V x (with_heads_length (head_length V))) (\<lambda>w. rbind (into_linked_bytes w) (\<lambda>lb. Ok (lb_to_vec lb)))"

definition abi_packed_encode :: "'a abi_variable \<Rightarrow> 'a \<Rightarrow> bytes" where
  "abi_packed_encode V x = lb_to_vec (to_packed_abi V x)"

text \<open>\<open>H256::from_slice\<close> panics on any other length than 32.\<close>

definition indexed_event_encode :: "(bytes \<Rightarrow> h256) \<Rightarrow> 'a abi_variable \<Rightarrow> 'a \<Rightarrow> (string, h256) res" where
  "indexed_event_encode kec V x = (if BASIC_TYPE V then
       rbind (to_abi V x) (\<lambda>lb. if length (lb_to_vec lb) = 32 then Ok (from_be (lb_to_vec lb)) else Panic)
     else Ok (kec (abi_packed_encode V x)))"

text \<open>Tuples of two and three arguments; the macro makes the ones of four and five the same way.\<close>

definition abi_decode2 :: "'a abi_variable \<Rightarrow> 'b abi_variable \<Rightarrow> bytes \<Rightarrow> (string, 'a \<times> 'b) res" where
  "abi_decode2 A B data = rbind (read_abi_list A data data) (\<lambda>(a, p). rbind (read_abi_list B data p) (\<lambda>(b, _). Ok (a, b)))"

definition abi_encode2 :: "'a abi_variable \<Rightarrow> 'b abi_variable \<Rightarrow> 'a \<times> 'b \<Rightarrow> (string, bytes) res" where
  "abi_encode2 A B = (\<lambda>(a, b).
     rbind (write_down A a (with_heads_length (head_length A + head_length B))) (\<lambda>w.
     rbind (write_down B b w) (\<lambda>w. rbind (into_linked_bytes w) (\<lambda>lb. Ok (lb_to_vec lb)))))"

definition abi_decode3 :: "'a abi_variable \<Rightarrow> 'b abi_variable \<Rightarrow> 'c abi_variable \<Rightarrow> bytes \<Rightarrow> (string, 'a \<times> 'b \<times> 'c) res" where
  "abi_decode3 A B C data = rbind (read_abi_list A data data) (\<lambda>(a, p). rbind (read_abi_list B data p) (\<lambda>(b, p).
     rbind (read_abi_list C data p) (\<lambda>(c, _). Ok (a, b, c))))"

definition abi_encode3 :: "'a abi_variable \<Rightarrow> 'b abi_variable \<Rightarrow> 'c abi_variable \<Rightarrow> 'a \<times> 'b \<times> 'c \<Rightarrow> (string, bytes) res" where
  "abi_encode3 A B C = (\<lambda>(a, b, c).
     rbind (write_down A a (with_heads_length (head_length A + head_length B + head_length C))) (\<lambda>w.
     rbind (write_down B b w) (\<lambda>w. rbind (write_down C c w) (\<lambda>w. rbind (into_linked_bytes w) (\<lambda>lb. Ok (lb_to_vec lb))))))"

end
