(* ===== verification/Abi_Laws.thy ===== *)
theory Abi_Laws
  imports Solidity_Abi
begin

text \<open>
  The contract of \<open>ABIVariable\<close> as a locale, what it gives the lists that are written with heads
  and tails, and that every instance of the trait keeps it.
\<close>

section \<open>Bytes in pieces\<close>

definition lb_ok :: "linked_bytes \<Rightarrow> bool" where
  "lb_ok a \<longleftrightarrow> lb_length a = length (lb_to_vec a)"

lemma lb_simps [simp]:
  "lb_ok lb_new" "lb_to_vec lb_new = []" "lb_length lb_new = 0" "lb_ok (lb_from_bytes bs)" "lb_to_vec (lb_from_bytes bs) = bs"
  "lb_length (lb_from_bytes bs) = length bs" "lb_ok a \<Longrightarrow> lb_ok b \<Longrightarrow> lb_ok (lb_append a b)"
  "lb_to_vec (lb_append a b) = lb_to_vec a @ lb_to_vec b" "lb_length (lb_append a b) = lb_length a + lb_length b"
  by (simp_all add: lb_ok_def lb_to_vec_def lb_new_def lb_from_bytes_def lb_append_def)

lemma length_padded [simp]: "length (padded_big_endian n) = 32"
  by (simp add: padded_big_endian_def)

lemma from_be_padded: "n < 2 ^ 64 \<Longrightarrow> unat (from_be (padded_big_endian n) :: u256) = n"
  by (simp add: padded_big_endian_def from_be_to_be take_bit_word_eq_self unat_of_nat)

lemma pull_slice_Ok [simp]: "pull_slice (a @ b) (length a) e = Ok (a, b)"
  by (simp add: pull_slice_def abi_require_def)

lemma pull_slice_32 [simp]: "length a = 32 \<Longrightarrow> pull_slice (a @ b) 32 e = Ok (a, b)"
  using pull_slice_Ok [of a b e] by simp

text \<open>The data a writer may end up with: its heads and its tails so far, each continued.\<close>

definition completes :: "abi_list_writer \<Rightarrow> bytes \<Rightarrow> bool" where
  "completes w D \<longleftrightarrow> (\<exists>hs ts. D = lb_to_vec (lw_heads w) @ hs @ lb_to_vec (lw_tails w) @ ts \<and>
     length (lb_to_vec (lw_heads w) @ hs) = lw_heads_length w)"

definition writer_ok :: "abi_list_writer \<Rightarrow> bool" where
  "writer_ok w \<longleftrightarrow> lb_ok (lw_heads w) \<and> lb_ok (lw_tails w)"

definition pointer :: "abi_list_writer \<Rightarrow> bytes \<Rightarrow> bytes" where
  "pointer w D = drop (lb_length (lw_heads w)) D"

lemma writer_start [simp]:
  "writer_ok (with_heads_length n)" "pointer (with_heads_length n) D = D" "lw_heads_length (with_heads_length n) = n"
  "lb_length (lw_heads (with_heads_length n)) = 0" "lw_tails (with_heads_length n) = lb_new"
  by (simp_all add: writer_ok_def pointer_def with_heads_length_def)

text \<open>A writer that has filled its heads ends, and any data that starts with its result completes it.\<close>

lemma writer_end:
  assumes "writer_ok w" "lb_length (lw_heads w) = lw_heads_length w"
  shows "into_linked_bytes w = Ok (lb_append (lw_heads w) (lw_tails w)) \<and> lb_ok (lb_append (lw_heads w) (lw_tails w)) \<and>
    completes w (lb_to_vec (lb_append (lw_heads w) (lw_tails w)) @ rest)"
  using assms by (auto simp: into_linked_bytes_def writer_ok_def completes_def lb_ok_def intro!: exI [of _ "[]"])

text \<open>What is written down is read back from whatever data the writer ends up with.\<close>

definition advances :: "'a abi_variable \<Rightarrow> 'a \<Rightarrow> abi_list_writer \<Rightarrow> abi_list_writer \<Rightarrow> bool" where
  "advances V x w w' \<longleftrightarrow> writer_ok w' \<and> lw_heads_length w' = lw_heads_length w \<and>
     lb_length (lw_heads w') = lb_length (lw_heads w) + head_length V \<and> (STATIC_LENGTH V \<noteq> None \<longrightarrow> lw_tails w' = lw_tails w) \<and>
     (\<forall>D. completes w' D \<longrightarrow> completes w D \<and> (length D < 2 ^ 64 \<longrightarrow> read_abi_list V D (pointer w D) = Ok (x, pointer w' D)))"

section \<open>The contract\<close>

text \<open>
  The values in \<open>ok\<close> encode; a value of static length to exactly that many bytes; decoding gives
  the value back, for a dynamic one also when more bytes follow.
\<close>

locale abi_codec =
  fixes V :: "'a abi_variable" and ok :: "'a \<Rightarrow> bool"
  assumes encodes: "ok x \<Longrightarrow> \<exists>lb. to_abi V x = Ok lb \<and> lb_ok lb \<and>
      (case STATIC_LENGTH V of Some n \<Rightarrow> lb_length lb = n | None \<Rightarrow> 0 < lb_length lb)"
    and decodes: "ok x \<Longrightarrow> to_abi V x = Ok lb \<Longrightarrow> STATIC_LENGTH V \<noteq> None \<longrightarrow> rest = [] \<Longrightarrow>
      length (lb_to_vec lb @ rest) < 2 ^ 64 \<Longrightarrow> from_abi V (lb_to_vec lb @ rest) = Ok x"
    and no_panic: "length data < 2 ^ 64 \<Longrightarrow> from_abi V data \<noteq> Panic"
begin

lemma read_no_panic:
  assumes "length data < 2 ^ 64" "length p < 2 ^ 64"
  shows "read_abi_list V data p \<noteq> Panic"
  using assms no_panic
  by (auto simp: read_abi_list_def pull_slice_def abi_require_def rbind_Panic_iff Let_def split: option.splits if_splits)

lemma read_pointer: "read_abi_list V data p = Ok (x, p') \<Longrightarrow> length p = head_length V + length p'"
  by (auto simp: read_abi_list_def pull_slice_def abi_require_def rbind_Ok_iff Let_def head_length_def split: option.splits if_splits)

lemma read_items_no_panic: "length data < 2 ^ 64 \<Longrightarrow> length p < 2 ^ 64 \<Longrightarrow> read_items V data n p \<noteq> Panic"
proof (induction n arbitrary: p)
  case (Suc n)
  have "read_items V data n p' \<noteq> Panic" if "read_abi_list V data p = Ok (x, p')" for x p'
    using Suc.IH [OF Suc.prems(1), of p'] Suc.prems(2) read_pointer [OF that] by simp
  then show ?case using read_no_panic [OF Suc.prems] by (auto simp: rbind_Panic_iff)
qed simp

lemma read_items_length: "read_items V data n p = Ok xs \<Longrightarrow> length xs = n \<and> head_length V * n \<le> length p"
  by (induction n arbitrary: p xs) (fastforce simp: rbind_Ok_iff dest: read_pointer)+

lemma write_static:
  assumes x: "ok x" and w: "writer_ok w" and n: "STATIC_LENGTH V = Some n"
  shows "\<exists>w'. write_down V x w = Ok w' \<and> advances V x w w'"
proof -
  obtain lb where lb: "to_abi V x = Ok lb" "lb_ok lb" "lb_length lb = n" using encodes [OF x] n by auto
  let ?w = "w\<lparr>lw_heads := lb_append (lw_heads w) lb\<rparr>"
  have "completes w D \<and> (length D < 2 ^ 64 \<longrightarrow> read_abi_list V D (pointer w D) = Ok (x, pointer ?w D))" if D: "completes ?w D" for D
  proof -
    obtain hs ts where eq: "D = lb_to_vec (lw_heads w) @ lb_to_vec lb @ hs @ lb_to_vec (lw_tails w) @ ts"
      and len: "length (lb_to_vec (lw_heads w) @ lb_to_vec lb @ hs) = lw_heads_length w"
      using D by (auto simp: completes_def)
    have p: "pointer w D = lb_to_vec lb @ hs @ lb_to_vec (lw_tails w) @ ts" "pointer ?w D = hs @ lb_to_vec (lw_tails w) @ ts"
      using w lb(2) eq by (simp_all add: pointer_def writer_ok_def lb_ok_def)
    have nl: "n = length (lb_to_vec lb)" using lb(2,3) by (simp add: lb_ok_def)
    have "length D < 2 ^ 64 \<Longrightarrow> from_abi V (lb_to_vec lb) = Ok x" using decodes [OF x lb(1), of "[]"] eq by simp
    with n p nl have "length D < 2 ^ 64 \<longrightarrow> read_abi_list V D (pointer w D) = Ok (x, pointer ?w D)" by (simp add: read_abi_list_def)
    moreover have "completes w D" unfolding completes_def using eq len by (intro exI [of _ "lb_to_vec lb @ hs"] exI [of _ ts]) simp
    ultimately show ?thesis by simp
  qed
  then show ?thesis using lb w n by (auto simp: write_down_def advances_def writer_ok_def head_length_def)
qed

lemma write_dynamic:
  assumes x: "ok x" and w: "writer_ok w" and n: "STATIC_LENGTH V = None"
  shows "\<exists>w'. write_down V x w = Ok w' \<and> advances V x w w'"
proof -
  obtain lb where lb: "to_abi V x = Ok lb" "lb_ok lb" "0 < lb_length lb" using encodes [OF x] n by auto
  let ?loc = "lb_length (lw_tails w) + lw_heads_length w" and ?h = "lb_to_vec (lw_heads w)" and ?t = "lb_to_vec (lw_tails w)"
  let ?w = "w\<lparr>lw_heads := lb_append (lw_heads w) (lb_from_bytes (padded_big_endian ?loc)), lw_tails := lb_append (lw_tails w) lb\<rparr>"
  have "completes w D \<and> (length D < 2 ^ 64 \<longrightarrow> read_abi_list V D (pointer w D) = Ok (x, pointer ?w D))" if D: "completes ?w D" for D
  proof -
    obtain hs ts where eq: "D = ?h @ padded_big_endian ?loc @ hs @ ?t @ lb_to_vec lb @ ts"
      and len: "length (?h @ padded_big_endian ?loc @ hs) = lw_heads_length w"
      using D by (auto simp: completes_def)
    have p: "pointer w D = padded_big_endian ?loc @ hs @ ?t @ lb_to_vec lb @ ts" "pointer ?w D = hs @ ?t @ lb_to_vec lb @ ts"
      using w lb(2) eq by (simp_all add: pointer_def writer_ok_def lb_ok_def)
    have lt: "?loc < length D" using lb(2,3) w eq len by (cases "lb_to_vec lb") (simp_all add: lb_ok_def writer_ok_def)
    have "drop ?loc D = lb_to_vec lb @ ts" using w eq len by (simp add: writer_ok_def lb_ok_def)
    then have "length D < 2 ^ 64 \<Longrightarrow> from_abi V (drop ?loc D) = Ok x" using decodes [OF x lb(1), of ts] n eq by simp
    with n p lt have "length D < 2 ^ 64 \<longrightarrow> read_abi_list V D (pointer w D) = Ok (x, pointer ?w D)"
      by (auto simp: read_abi_list_def from_be_padded abi_require_def)
    moreover have "completes w D"
      unfolding completes_def using eq len by (intro exI [of _ "padded_big_endian ?loc @ hs"] exI [of _ "lb_to_vec lb @ ts"]) simp
    ultimately show ?thesis by simp
  qed
  then show ?thesis using lb w n by (auto simp: write_down_def advances_def writer_ok_def head_length_def)
qed

lemma write_down_advances: "ok x \<Longrightarrow> writer_ok w \<Longrightarrow> \<exists>w'. write_down V x w = Ok w' \<and> advances V x w w'"
  using write_static write_dynamic by (cases "STATIC_LENGTH V") auto

lemma write_items_advances:
  assumes "list_all ok xs" "writer_ok w"
  shows "\<exists>w'. write_items V xs w = Ok w' \<and> writer_ok w' \<and> lw_heads_length w' = lw_heads_length w \<and>
    lb_length (lw_heads w') = lb_length (lw_heads w) + head_length V * length xs \<and> (STATIC_LENGTH V \<noteq> None \<longrightarrow> lw_tails w' = lw_tails w) \<and>
    (\<forall>D. completes w' D \<longrightarrow> completes w D \<and> (length D < 2 ^ 64 \<longrightarrow> read_items V D (length xs) (pointer w D) = Ok xs))"
  using assms
proof (induction xs arbitrary: w)
  case (Cons x xs)
  then obtain w1 where w1: "write_down V x w = Ok w1" "advances V x w w1" using write_down_advances by fastforce
  then have ok1: "writer_ok w1" by (simp add: advances_def)
  from Cons.IH [OF _ ok1] Cons.prems(1)
  obtain w2 where w2: "write_items V xs w1 = Ok w2" "writer_ok w2" "lw_heads_length w2 = lw_heads_length w1"
    "lb_length (lw_heads w2) = lb_length (lw_heads w1) + head_length V * length xs" "STATIC_LENGTH V \<noteq> None \<longrightarrow> lw_tails w2 = lw_tails w1"
    "\<And>D. completes w2 D \<Longrightarrow> completes w1 D \<and> (length D < 2 ^ 64 \<longrightarrow> read_items V D (length xs) (pointer w1 D) = Ok xs)"
    by auto
  show ?case
    using w1 w2 by (intro exI [of _ w2]) (auto simp: advances_def)
qed simp

lemma items_Ok:
  assumes "list_all ok xs"
  shows "\<exists>lb. items_to_abi V xs = Ok lb \<and> lb_ok lb \<and> head_length V * length xs \<le> lb_length lb \<and>
    (STATIC_LENGTH V \<noteq> None \<longrightarrow> lb_length lb = head_length V * length xs) \<and>
    (\<forall>rest. length (lb_to_vec lb @ rest) < 2 ^ 64 \<longrightarrow> read_items V (lb_to_vec lb @ rest) (length xs) (lb_to_vec lb @ rest) = Ok xs)"
proof -
  let ?w = "with_heads_length (head_length V * length xs)"
  obtain w where w: "write_items V xs ?w = Ok w" "writer_ok w" "lw_heads_length w = head_length V * length xs"
    "lb_length (lw_heads w) = head_length V * length xs" "STATIC_LENGTH V \<noteq> None \<longrightarrow> lw_tails w = lb_new"
    "\<And>D. completes w D \<Longrightarrow> length D < 2 ^ 64 \<Longrightarrow> read_items V D (length xs) D = Ok xs"
    using write_items_advances [OF assms, of ?w] by auto
  note e = writer_end [OF w(2)]
  show ?thesis
    using w e by (intro exI [of _ "lb_append (lw_heads w) (lw_tails w)"]) (auto simp: items_to_abi_def)
qed

end

lemma abi_codec_vec:
  assumes "abi_codec V ok"
  shows "abi_codec (vec_abi V) (\<lambda>xs. list_all ok xs \<and> length xs < 2 ^ 64)"
proof
  fix xs
  assume xs: "list_all ok xs \<and> length xs < 2 ^ 64"
  obtain lb where lb: "items_to_abi V xs = Ok lb" "lb_ok lb"
    "\<And>rest. length (lb_to_vec lb @ rest) < 2 ^ 64 \<Longrightarrow> read_items V (lb_to_vec lb @ rest) (length xs) (lb_to_vec lb @ rest) = Ok xs"
    using abi_codec.items_Ok [OF assms] xs by blast
  show "\<exists>lb. to_abi (vec_abi V) xs = Ok lb \<and> lb_ok lb \<and> (case STATIC_LENGTH (vec_abi V) of Some n \<Rightarrow> lb_length lb = n | None \<Rightarrow> 0 < lb_length lb)"
    using lb by (simp add: vec_abi_def)
  fix out rest
  assume "to_abi (vec_abi V) xs = Ok out" and len: "length (lb_to_vec out @ rest) < 2 ^ 64"
  then have out: "lb_to_vec out = padded_big_endian (length xs) @ lb_to_vec lb" using lb(1) by (auto simp: vec_abi_def)
  show "from_abi (vec_abi V) (lb_to_vec out @ rest) = Ok xs"
    using lb(3) [of rest] len xs unfolding out by (simp add: vec_abi_def vec_from_abi_def from_be_padded)
next
  show "length data < 2 ^ 64 \<Longrightarrow> from_abi (vec_abi V) data \<noteq> Panic" for data
    using abi_codec.read_items_no_panic [OF assms]
    by (auto simp: vec_abi_def vec_from_abi_def pull_slice_def abi_require_def rbind_Panic_iff split: if_splits)
qed

lemma abi_codec_array:
  assumes "abi_codec V ok" and N: "STATIC_LENGTH V = None \<longrightarrow> 0 < N"
  shows "abi_codec (array_abi V N) (\<lambda>xs. list_all ok xs \<and> length xs = N)"
proof
  fix xs
  assume xs: "list_all ok xs \<and> length xs = N"
  obtain lb where lb: "items_to_abi V xs = Ok lb" "lb_ok lb" "head_length V * length xs \<le> lb_length lb"
    "STATIC_LENGTH V \<noteq> None \<longrightarrow> lb_length lb = head_length V * length xs"
    "\<And>rest. length (lb_to_vec lb @ rest) < 2 ^ 64 \<Longrightarrow> read_items V (lb_to_vec lb @ rest) (length xs) (lb_to_vec lb @ rest) = Ok xs"
    using abi_codec.items_Ok [OF assms(1)] xs by blast
  show "\<exists>lb. to_abi (array_abi V N) xs = Ok lb \<and> lb_ok lb \<and> (case STATIC_LENGTH (array_abi V N) of Some n \<Rightarrow> lb_length lb = n | None \<Rightarrow> 0 < lb_length lb)"
    using lb N xs by (cases "STATIC_LENGTH V") (auto simp: array_abi_def head_length_def)
  show "from_abi (array_abi V N) (lb_to_vec out @ rest) = Ok xs"
    if "to_abi (array_abi V N) xs = Ok out" "length (lb_to_vec out @ rest) < 2 ^ 64" for out rest
    using that lb(1,5) xs by (simp add: array_abi_def)
next
  show "length data < 2 ^ 64 \<Longrightarrow> from_abi (array_abi V N) data \<noteq> Panic" for data
    using abi_codec.read_items_no_panic [OF assms(1)] by (simp add: array_abi_def)
qed

section \<open>The instances\<close>

lemma word_round_trip:
  assumes "8 * n = LENGTH('w)" "n \<le> 32" "length pad = 32 - n"
  shows "word_from_abi n (pad @ to_be n (w :: 'w::len word)) = Ok w"
  using assms by (simp add: word_from_abi_def abi_require_def from_be_to_be take_bit_word_eq_self)

lemma word_no_panic: "word_from_abi n data \<noteq> Panic"
  by (simp add: word_from_abi_def abi_require_def)

lemma bytes_no_panic: "bytes_from_abi data \<noteq> Panic"
  by (auto simp: bytes_from_abi_def pull_slice_def abi_require_def rbind_Panic_iff Let_def)

interpretation address: abi_codec address_abi "\<lambda>_. True"
  by unfold_locales (auto simp: address_abi_def word_round_trip word_no_panic Let_def)

interpretation u256: abi_codec u256_abi "\<lambda>_. True"
  using word_round_trip [of 32 "[]", where ?'w = 256] by unfold_locales (auto simp: u256_abi_def word_no_panic)

interpretation bool: abi_codec bool_abi "\<lambda>_. True"
  by unfold_locales (auto simp: bool_abi_def abi_require_def nth_append split: if_splits)

interpretation u64: abi_codec "uint_abi :: u64 abi_variable" "\<lambda>_. True"
  by unfold_locales (auto simp: uint_abi_def word_round_trip word_no_panic Let_def)

interpretation bytes: abi_codec bytes_abi "\<lambda>bs. length bs < 2 ^ 64"
  by unfold_locales (auto simp: bytes_abi_def bytes_to_abi_def bytes_from_abi_def from_be_padded bytes_no_panic [unfolded bytes_from_abi_def])

interpretation string: abi_codec string_abi "\<lambda>bs. length bs < 2 ^ 64 \<and> utf8_valid bs"
  using bytes.encodes bytes.decodes by unfold_locales (auto simp: string_abi_def bytes_abi_def bytes_no_panic rbind_Panic_iff split: if_splits)

lemma abi_codec_fixed_bytes: "N \<le> 32 \<Longrightarrow> abi_codec (fixed_bytes_abi N) (\<lambda>bs. length bs = N)"
  by unfold_locales (auto simp: fixed_bytes_abi_def fixed_bytes_from_abi_def)

interpretation h256: abi_codec h256_abi "\<lambda>_. True"
  using abi_codec_fixed_bytes [of 32]
  by unfold_locales (auto simp: h256_abi_def fixed_bytes_abi_def fixed_bytes_from_abi_def from_be_to_be take_bit_word_eq_self)

interpretation vec: abi_codec "vec_abi bytes_abi" "\<lambda>xs. list_all (\<lambda>bs. length bs < 2 ^ 64) xs \<and> length xs < 2 ^ 64"
  by (rule abi_codec_vec) (rule bytes.abi_codec_axioms)

end
