(* ===== verification/Abi_Properties.thy ===== *)
theory Abi_Properties
  imports Abi_Laws
begin

text \<open>Properties of the encoding of call arguments, for any argument types that keep the contract.\<close>

lemma arguments_written:
  assumes "abi_codec A okA" "abi_codec B okB" "abi_codec C okC" "okA a" "okB b" "okC c"
  obtains w1 w2 w3 where "write_down A a (with_heads_length (head_length A + head_length B + head_length C)) = Ok w1"
    "write_down B b w1 = Ok w2" "write_down C c w2 = Ok w3"
    "advances A a (with_heads_length (head_length A + head_length B + head_length C)) w1" "advances B b w1 w2" "advances C c w2 w3"
proof -
  let ?w = "with_heads_length (head_length A + head_length B + head_length C)"
  obtain w1 where w1: "write_down A a ?w = Ok w1" "advances A a ?w w1"
    using abi_codec.write_down_advances [OF assms(1,4), of ?w] by auto
  then obtain w2 where w2: "write_down B b w1 = Ok w2" "advances B b w1 w2"
    using abi_codec.write_down_advances [OF assms(2,5), of w1] by (auto simp: advances_def)
  then obtain w3 where "write_down C c w2 = Ok w3" "advances C c w2 w3"
    using abi_codec.write_down_advances [OF assms(3,6), of w2] by (auto simp: advances_def)
  with w1 w2 show ?thesis by (blast intro: that)
qed

text \<open>C33.  Arguments survive the trip through call data: encoding values of any three types of the interface, nested vectors and
  arrays included, never hits the assertions of the writer, and decoding gives the values back, whatever bytes follow.\<close>

theorem arguments_round_trip:
  assumes "abi_codec A okA" and "abi_codec B okB" and "abi_codec C okC" and "okA a" and "okB b" and "okC c"
  shows "\<exists>bs. abi_encode3 A B C (a, b, c) = Ok bs \<and>
    (\<forall>rest. length (bs @ rest) < 2 ^ 64 \<longrightarrow> abi_decode3 A B C (bs @ rest) = Ok (a, b, c))"
proof -
  obtain w1 w2 w3 where w: "write_down A a (with_heads_length (head_length A + head_length B + head_length C)) = Ok w1"
    "write_down B b w1 = Ok w2" "write_down C c w2 = Ok w3"
    and s: "advances A a (with_heads_length (head_length A + head_length B + head_length C)) w1" "advances B b w1 w2" "advances C c w2 w3"
    by (rule arguments_written [OF assms])
  let ?lb = "lb_append (lw_heads w3) (lw_tails w3)"
  have e: "into_linked_bytes w3 = Ok ?lb" "completes w3 (lb_to_vec ?lb @ rest)" for rest
    using writer_end [of w3] s by (auto simp: advances_def)
  have "abi_decode3 A B C (lb_to_vec ?lb @ rest) = Ok (a, b, c)" if "length (lb_to_vec ?lb @ rest) < 2 ^ 64" for rest
    using s that e(2) [of rest] by (auto simp: advances_def abi_decode3_def)
  with w e(1) show ?thesis by (simp add: abi_encode3_def)
qed

theorem arguments_round_trip_witness:
  "\<exists>bs. abi_encode3 address_abi (vec_abi (vec_abi string_abi)) (array_abi u256_abi 2) (7, [[[0x61, 0xC3, 0xA9], []], []], [3, 4]) = Ok bs \<and>
     (length bs < 2 ^ 64 \<longrightarrow> abi_decode3 address_abi (vec_abi (vec_abi string_abi)) (array_abi u256_abi 2) bs = Ok (7, [[[0x61, 0xC3, 0xA9], []], []], [3, 4]))"
proof -
  have strings: "list_all (\<lambda>xs. list_all (\<lambda>bs. length bs < 2 ^ 64 \<and> utf8_valid bs) xs \<and> length xs < 2 ^ 64) [[[0x61, 0xC3, 0xA9], []], []] \<and>
      length [[[0x61, 0xC3, 0xA9 :: byte], []], []] < 2 ^ 64"
    by (simp add: in_range_def second_ok_def)
  have "abi_codec (array_abi u256_abi 2) (\<lambda>xs. list_all (\<lambda>_. True) xs \<and> length xs = 2)"
    by (rule abi_codec_array [OF u256.abi_codec_axioms]) simp
  from arguments_round_trip [OF address.abi_codec_axioms abi_codec_vec [OF abi_codec_vec [OF string.abi_codec_axioms]] this TrueI strings, of "[3, 4]" 7]
  obtain bs where "abi_encode3 address_abi (vec_abi (vec_abi string_abi)) (array_abi u256_abi 2) (7, [[[0x61, 0xC3, 0xA9], []], []], [3, 4]) = Ok bs"
    "\<forall>rest. length (bs @ rest) < 2 ^ 64 \<longrightarrow>
      abi_decode3 address_abi (vec_abi (vec_abi string_abi)) (array_abi u256_abi 2) (bs @ rest) = Ok (7, [[[0x61, 0xC3, 0xA9], []], []], [3, 4])"
    by auto
  then show ?thesis by (auto dest: spec [of _ "[]"])
qed

text \<open>C34.  Call data from anyone is decoded or rejected with an error: decoding never panics, and a vector is returned only when the
  data holds the heads of all its elements, so the length a caller claims cannot make the decoder allocate more than it was sent.\<close>

theorem decoding_is_bounded:
  assumes "abi_codec V ok" and "length data < 2 ^ 64"
  shows "abi_decode (vec_abi V) data \<noteq> Panic \<and>
    (\<forall>xs. from_abi (vec_abi V) data = Ok xs \<longrightarrow> 32 + head_length V * length xs \<le> length data)"
proof
  show "abi_decode (vec_abi V) data \<noteq> Panic"
    using abi_codec.read_no_panic [OF abi_codec_vec [OF assms(1)] assms(2,2)] by (auto simp: abi_decode_def rbind_Panic_iff)
  show "\<forall>xs. from_abi (vec_abi V) data = Ok xs \<longrightarrow> 32 + head_length V * length xs \<le> length data"
    using abi_codec.read_items_length [OF assms(1)]
    by (fastforce simp: vec_abi_def vec_from_abi_def rbind_Ok_iff pull_slice_def abi_require_def split: if_splits)
qed

theorem decoding_is_bounded_witness:
  "abi_decode (vec_abi u256_abi) (to_be 32 (32 :: u256) @ to_be 32 (2 ^ 200 :: u256)) \<noteq> Panic"
  using decoding_is_bounded [OF u256.abi_codec_axioms, of "to_be 32 (32 :: u256) @ to_be 32 (2 ^ 200 :: u256)"] by simp

end
