(* ===== verification/Internal_Contracts.thy ===== *)
theory Internal_Contracts
  imports Solidity_Abi Executor
begin

text \<open>
  The framework of the internal contracts (src/internal_contract/components): contracts written in
  Rust that are called through the Solidity call data format.  A function of a contract is a record
  of its codecs, its price and its work; a function table maps selectors to functions, and a contract
  dispatches on the first four bytes of the call data.
\<close>

section \<open>Storage layout\<close>

definition mapping_slot :: "'d backend \<Rightarrow> u256 \<Rightarrow> u256 \<Rightarrow> u256" where
  "mapping_slot B base index = bk_keccak B (to_be 32 index @ to_be 32 base)"

definition dynamic_slot :: "'d backend \<Rightarrow> u256 \<Rightarrow> u256" where
  "dynamic_slot B base = bk_keccak B (to_be 32 base)"

definition array_slot :: "u256 \<Rightarrow> usize \<Rightarrow> usize \<Rightarrow> ('e, u256) res" where
  "array_slot base index element_size = rbind (u_mul index element_size) (\<lambda>x. u_add base (ucast x))"

definition vector_slot :: "'d backend \<Rightarrow> u256 \<Rightarrow> usize \<Rightarrow> usize \<Rightarrow> ('e, u256) res" where
  "vector_slot B base index element_size = array_slot (dynamic_slot B base) index element_size"

definition base_slot :: "'d backend \<Rightarrow> address \<Rightarrow> u256" where
  "base_slot B a = bk_keccak B (replicate 12 0 @ to_be 20 a)"

section \<open>Errors, selectors and the context\<close>

definition from_abi_error :: "(string, 'a) res \<Rightarrow> 'a vm_result" where
  "from_abi_error r = (case r of Ok a \<Rightarrow> Ok a | Err e \<Rightarrow> Err (InternalContract (''ABI decode error: '' @ e)) | Panic \<Rightarrow> Panic)"

text \<open>A vector of 2^63 bytes and more cannot be allocated.\<close>

definition encoded :: "(string, bytes) res \<Rightarrow> bytes vm_result" where
  "encoded r = (case r of Ok bs \<Rightarrow> if length bs < 2 ^ 63 then Ok bs else Panic | _ \<Rightarrow> Panic)"

definition signature :: "'d backend \<Rightarrow> string \<Rightarrow> h256" where
  "signature B name_and_params = bk_keccak B (map of_char name_and_params)"

definition function_sig :: "'d backend \<Rightarrow> string \<Rightarrow> bytes" where
  "function_sig B name_and_params = take 4 (to_be 32 (signature B name_and_params))"

text \<open>\<open>InternalRefContext::log\<close>, \<open>set_storage\<close> and \<open>storage_at\<close>.\<close>

definition internal_log :: "action_params \<Rightarrow> h256 list \<Rightarrow> bytes \<Rightarrow> ('d exec_context, vm_error, unit) eff" where
  "internal_log params topics d = ebind (local_get fc_static_flag) (\<lambda>static.
     if static then efail MutableCallInStaticContext
     else upd_substate (\<lambda>ss. ss\<lparr>ss_logs := ss_logs ss @
       [\<lparr>le_address = ap_address params, le_topics = topics, le_data = d, le_space = ap_space params\<rparr>]\<rparr>))"

definition internal_set_storage :: "'d backend \<Rightarrow> action_params \<Rightarrow> bytes \<Rightarrow> u256 \<Rightarrow> ('d exec_context, vm_error, unit) eff" where
  "internal_set_storage B params k v = on_state (into_vm (set_storage B (with_space (ap_address params) (ap_space params)) k v))"

definition internal_storage_at :: "'d backend \<Rightarrow> action_params \<Rightarrow> bytes \<Rightarrow> ('d exec_context, db_error, u256) eff" where
  "internal_storage_at B params k = on_state (storage_at B (with_space (ap_address params) (ap_space params)) k)"

text \<open>\<open>SolidityEventTrait::log\<close>: the encodings of the indexed and of the other arguments are given.\<close>

definition event_log :: "'d backend \<Rightarrow> string \<Rightarrow> (string, h256 list) res \<Rightarrow> (string, bytes) res \<Rightarrow> action_params \<Rightarrow> ('d exec_context, vm_error, unit) eff" where
  "event_log B interface indexed non_indexed params =
     ebind (elift (case indexed of Ok ts \<Rightarrow> Ok ts | _ \<Rightarrow> Panic)) (\<lambda>ts.
     ebind (elift (encoded non_indexed)) (\<lambda>d.
     internal_log params (signature B interface # ts) d))"

section \<open>Functions\<close>

record ('i, 'o, 'd, 'r) solidity_function =
  sf_name_and_params :: string
  sf_payable :: bool
  sf_has_write_op :: bool
  sf_decode :: "bytes \<Rightarrow> (string, 'i) res"
  sf_encode :: "'o \<Rightarrow> (string, bytes) res"
  sf_upfront_gas_payment :: "'i \<Rightarrow> action_params \<Rightarrow> ('d exec_context, vm_error, u256) eff"
  sf_execute_inner :: "'i \<Rightarrow> action_params \<Rightarrow> u256 \<Rightarrow> ('d exec_context, vm_error, 'o + trap_kind \<times> 'r) eff"

definition pre_execution_check :: "('i, 'o, 'd, 'r) solidity_function \<Rightarrow> action_params \<Rightarrow> unit vm_result" where
  "pre_execution_check F params =
     (if \<not> sf_payable F \<and> action_value_value (ap_value params) \<noteq> 0
      then Err (InternalContract ''should not transfer balance to Staking contract'')
      else if sf_has_write_op F \<and> ap_call_type params = StaticCall then Err MutableCallInStaticContext
      else Ok ())"

definition preprocessing :: "('i, 'o, 'd, 'r) solidity_function \<Rightarrow> bytes \<Rightarrow> action_params \<Rightarrow> ('d exec_context, vm_error, 'i \<times> u256) eff" where
  "preprocessing F input params =
     ethen (elift (pre_execution_check F params))
     (ebind (elift (from_abi_error (sf_decode F input))) (\<lambda>solidity_params.
     ebind (sf_upfront_gas_payment F solidity_params params) (\<lambda>cost.
     if ap_gas params < cost then efail OutOfGas else eret (solidity_params, cost))))"

definition function_return :: "('i, 'o, 'd, 'r) solidity_function \<Rightarrow> u256 \<Rightarrow> 'o \<Rightarrow> spec \<Rightarrow> gas_left vm_result" where
  "function_return F gas_left output sp =
     rbind (encoded (sf_encode F output)) (\<lambda>output.
     rbind (u_mul (of_nat ((length output + 31) div 32)) (memory_gas sp)) (\<lambda>x.
     let return_cost = ucast x in
     if gas_left < return_cost then Err OutOfGas
     else Ok (NeedsReturn (gas_left - return_cost) (rd_new output 0 (length output)) True)))"

definition function_execute ::
  "('i, 'o, 'd, 'r) solidity_function \<Rightarrow> bytes \<Rightarrow> action_params \<Rightarrow> ('d exec_context, vm_error, gas_left + trap_kind \<times> 'r) eff" where
  "function_execute F input params =
     ebind (preprocessing F input params) (\<lambda>(solidity_params, cost).
     ebind (elift (u_sub (ap_gas params) cost)) (\<lambda>gas_left.
     ebind (sf_execute_inner F solidity_params params gas_left) (\<lambda>result. case result of
       Inl output \<Rightarrow> ebind (local_get fc_spec) (\<lambda>sp. ebind (elift (function_return F gas_left output sp)) (\<lambda>g. eret (Inl g)))
     | Inr trap \<Rightarrow> eret (Inr trap))))"

text \<open>\<open>SimpleExecutionTrait\<close>: work without nested calls.\<close>

definition simple_execution ::
  "('i \<Rightarrow> action_params \<Rightarrow> ('d exec_context, vm_error, 'o) eff) \<Rightarrow> 'i \<Rightarrow> action_params \<Rightarrow> u256 \<Rightarrow>
   ('d exec_context, vm_error, 'o + trap_kind \<times> 'r) eff" where
  "simple_execution f i params gas_left = ebind (f i params) (\<lambda>o'. eret (Inl o'))"

text \<open>The \<open>gas\<close> argument of \<open>impl_function_type\<close>: a price that only depends on the cost schedule.\<close>

definition spec_gas :: "(spec \<Rightarrow> ('e, usize) res) \<Rightarrow> 'i \<Rightarrow> action_params \<Rightarrow> ('d exec_context, 'e, u256) eff" where
  "spec_gas f i params = ebind (local_get fc_spec) (\<lambda>sp. ebind (elift (f sp)) (\<lambda>x. eret (ucast x)))"

section \<open>Contracts\<close>

text \<open>A table entry: the trait object \<open>SolidityFunctionTrait\<close>.\<close>

record ('d, 'r) table_function =
  tf_is_active :: "spec \<Rightarrow> bool"
  tf_execute :: "bytes \<Rightarrow> action_params \<Rightarrow> ('d exec_context, vm_error, gas_left + trap_kind \<times> 'r) eff"

definition table_insert ::
  "'d backend \<Rightarrow> (spec \<Rightarrow> bool) \<Rightarrow> ('i, 'o, 'd, 'r) solidity_function \<Rightarrow> (bytes \<rightharpoonup> ('d, 'r) table_function) \<Rightarrow>
   (bytes \<rightharpoonup> ('d, 'r) table_function)" where
  "table_insert B is_active F table =
     table(function_sig B (sf_name_and_params F) \<mapsto> \<lparr>tf_is_active = is_active, tf_execute = function_execute F\<rparr>)"

definition load_solidity_fn :: "bytes option \<Rightarrow> (bytes \<rightharpoonup> ('d, 'r) table_function) \<Rightarrow> spec \<Rightarrow> (('d, 'r) table_function \<times> bytes) vm_result" where
  "load_solidity_fn d func_table sp =
     rbind (from_abi_error (case d of Some c \<Rightarrow> Ok c | None \<Rightarrow> Err ''None call data'')) (\<lambda>call_data.
     if length call_data < 4 then from_abi_error (Err ''Incomplete function signature'')
     else case func_table (take 4 call_data) of
         None \<Rightarrow> Err (InternalContract ''unsupported function'')
       | Some f \<Rightarrow> if tf_is_active f sp then Ok (f, drop 4 call_data) else Err (InternalContract ''unsupported function''))"

definition contract_execute :: "(bytes \<rightharpoonup> ('d, 'r) table_function) \<Rightarrow> action_params \<Rightarrow> ('d exec_context, vm_error, gas_left + trap_kind \<times> 'r) eff" where
  "contract_execute func_table params =
     ebind (local_get fc_spec) (\<lambda>sp.
     ebind (elift (load_solidity_fn (ap_data params) func_table sp)) (\<lambda>(f, call_params).
     tf_execute f call_params params))"

text \<open>What \<open>make_solidity_contract\<close> makes: the address, the block to initialise it and the contract.\<close>

record ('d, 'r) solidity_contract =
  sc_address :: address
  sc_initialize_block :: "transitions_block_number \<Rightarrow> u64"
  sc_contract :: "('d, 'r) internal_contract"

definition make_solidity_contract ::
  "address \<Rightarrow> (bytes \<rightharpoonup> ('d, 'r) table_function) \<Rightarrow> (transitions_block_number \<Rightarrow> u64) \<Rightarrow> (spec \<Rightarrow> bool) \<Rightarrow> ('d, 'r) solidity_contract" where
  "make_solidity_contract a table initialize is_active =
     \<lparr>sc_address = a, sc_initialize_block = initialize, sc_contract = \<lparr>ic_is_active = is_active, ic_execute = contract_execute table\<rparr>\<rparr>"

definition placeholder :: "address \<Rightarrow> ('d, 'r) solidity_contract" where
  "placeholder a = make_solidity_contract a Map.empty (\<lambda>_. - 1) (\<lambda>_. False)"

section \<open>The map of internal contracts\<close>

record ('d, 'r) internal_contract_map =
  im_builtin :: "address \<rightharpoonup> ('d, 'r) internal_contract"
  im_activation_info :: "u64 \<rightharpoonup> address list"

definition map_insert_contract ::
  "bool \<Rightarrow> transitions_block_number \<Rightarrow> ('d, 'r) solidity_contract \<Rightarrow> ('d, 'r) internal_contract_map \<Rightarrow> ('d, 'r) internal_contract_map" where
  "map_insert_contract early tn c m =
     (let transition_block = (if early then 0 else sc_initialize_block c tn) in
      \<lparr>im_builtin = (im_builtin m)(sc_address c \<mapsto> sc_contract c),
       im_activation_info = (im_activation_info m)(transition_block \<mapsto>
         (case im_activation_info m transition_block of None \<Rightarrow> [] | Some v \<Rightarrow> v) @ [sc_address c])\<rparr>)"

text \<open>Contracts are taken from the end of the list.\<close>

definition internal_contract_map_new ::
  "('d, 'r) solidity_contract list \<Rightarrow> bool \<Rightarrow> transitions_block_number \<Rightarrow> ('d, 'r) internal_contract_map" where
  "internal_contract_map_new contracts early tn =
     fold (map_insert_contract early tn) (rev contracts) \<lparr>im_builtin = Map.empty, im_activation_info = Map.empty\<rparr>"

definition initialized_at :: "('d, 'r) internal_contract_map \<Rightarrow> u64 \<Rightarrow> address list" where
  "initialized_at m number = (case im_activation_info m number of None \<Rightarrow> [] | Some v \<Rightarrow> v)"

definition initialized_at_genesis :: "('d, 'r) internal_contract_map \<Rightarrow> address list" where
  "initialized_at_genesis m = initialized_at m 0"

end
