(* ===== verification/Cross_Space.thy ===== *)
theory Cross_Space
  imports Internal_Contracts
begin

text \<open>
  The internal contracts of the chain (src/internal_contract/contracts and impls): the context
  contract, the cross-space contract with its calls into and withdrawals from mapped accounts, and
  the reserved addresses.  The state a call waits in, \<open>Resume\<close>, is the resumption of the machine.
\<close>

section \<open>Prices\<close>

definition cross_log_gas :: "spec \<Rightarrow> usize \<Rightarrow> usize \<Rightarrow> ('e, usize) res" where
  "cross_log_gas sp topics log_data_length =
     rbind (u_mul topics (log_topic_gas sp)) (\<lambda>t. rbind (u_add (log_gas sp) t) (\<lambda>x.
     rbind (u_mul (log_data_gas sp) log_data_length) (\<lambda>d. u_add x d)))"

text \<open>A sum of \<open>U256\<close> with machine integers.\<close>

definition u256_sum :: "u256 \<Rightarrow> usize list \<Rightarrow> ('e, u256) res" where
  "u256_sum x ys = rfold (\<lambda>y acc. u_add acc (ucast y)) ys x"

definition cross_create_gas :: "bytes \<Rightarrow> spec \<Rightarrow> ('e, u256) res" where
  "cross_create_gas code sp =
     rbind (gas_required_for True code sp) (\<lambda>g.
     rbind (u_add g (tx_gas sp)) (\<lambda>transaction_gas.
     rbind (u_mul (sha3_gas sp) 2) (\<lambda>address_mapping_gas.
     rbind (cross_log_gas sp 3 (of_nat (32 * 4 + (length code + 31) div 32 * 32))) (\<lambda>create_log_gas.
     rbind (cross_log_gas sp 1 32) (\<lambda>return_log_gas.
     u256_sum (ucast (create_gas sp)) [transaction_gas, address_mapping_gas, create_log_gas, return_log_gas])))))"

definition cross_call_gas :: "'d backend \<Rightarrow> address \<Rightarrow> action_params \<Rightarrow> bytes \<Rightarrow> ('d exec_context, vm_error, u256) eff" where
  "cross_call_gas B receiver params d =
     ebind (local_get fc_spec) (\<lambda>sp.
     ebind (elift (rbind (gas_required_for False d sp) (\<lambda>g. u_add g (tx_gas sp)))) (\<lambda>transaction_gas.
     ebind (on_state (into_vm (exists_and_not_null B (with_space receiver Ethereum)))) (\<lambda>exists.
     ebind (elift (if \<not> exists then u_mul (call_new_account_gas sp) (evm_gas_ratio sp) else Ok 0)) (\<lambda>new_account_gas.
     let transfer_gas = (if 0 < action_value_value (ap_value params) then call_value_transfer_gas sp else 0) in
     ebind (elift (u256_sum (ucast (call_gas sp)) [new_account_gas, transfer_gas])) (\<lambda>call_gas.
     ebind (elift (u_mul (sha3_gas sp) 2)) (\<lambda>address_mapping_gas.
     ebind (elift (cross_log_gas sp 3 (of_nat (32 * 4 + (length d + 31) div 32 * 32)))) (\<lambda>call_log_gas.
     ebind (elift (cross_log_gas sp 1 32)) (\<lambda>return_log_gas.
     elift (u256_sum call_gas [transaction_gas, address_mapping_gas, call_log_gas, return_log_gas])))))))))"

definition static_call_gas :: "spec \<Rightarrow> ('e, u256) res" where
  "static_call_gas sp = rbind (u_mul (sha3_gas sp) 2) (\<lambda>address_mapping_gas. u256_sum (ucast (call_gas sp)) [address_mapping_gas])"

definition withdraw_gas :: "spec \<Rightarrow> ('e, u256) res" where
  "withdraw_gas sp =
     rbind (u_mul (log_topic_gas sp) 3) (\<lambda>t. rbind (u_add (log_gas sp) t) (\<lambda>x.
     rbind (u_mul (log_data_gas sp) 32) (\<lambda>d. rbind (u_mul d 2) (\<lambda>d. rbind (u_add x d) (\<lambda>log_gas.
     u256_sum (ucast (call_value_transfer_gas sp)) [tx_gas sp, sha3_gas sp, log_gas])))))"

section \<open>Resuming after a nested frame\<close>

record cross_resume =
  rs_params :: action_params
  rs_gas_retained :: u256

record pass_result =
  pr_resume :: cross_resume
  pr_gas_left :: u256
  pr_return_data :: "return_data vm_result"
  pr_apply_state :: bool

text \<open>\<open>address.address.0.abi_encode()\<close> and \<open>data.to_vec().abi_encode()\<close> as return data.\<close>

definition encoded_return_data :: "(string, bytes) res \<Rightarrow> return_data vm_result" where
  "encoded_return_data r = rbind (encoded r) (\<lambda>bs. Ok (rd_new bs 0 (length bs)))"

definition cross_resume_create :: "cross_resume \<Rightarrow> contract_create_result \<Rightarrow> pass_result vm_result" where
  "cross_resume_create self result = (case result of
     Created a gas_left \<Rightarrow> rbind (encoded_return_data (abi_encode (fixed_bytes_abi 20) (to_be 20 (aws_address a)))) (\<lambda>d.
       Ok \<lparr>pr_resume = self, pr_gas_left = gas_left, pr_return_data = Ok d, pr_apply_state = True\<rparr>)
   | CreateFailed err \<Rightarrow> Ok \<lparr>pr_resume = self, pr_gas_left = 0, pr_return_data = Err err, pr_apply_state = False\<rparr>
   | CreateReverted gas_left d \<Rightarrow> Ok \<lparr>pr_resume = self, pr_gas_left = gas_left, pr_return_data = Ok d, pr_apply_state = False\<rparr>)"

definition cross_resume_call :: "cross_resume \<Rightarrow> message_call_result \<Rightarrow> pass_result vm_result" where
  "cross_resume_call self result = (case result of
     CallSuccess gas_left d \<Rightarrow> rbind (rd_deref d) (\<lambda>bs. rbind (encoded_return_data (abi_encode bytes_abi bs)) (\<lambda>d.
       Ok \<lparr>pr_resume = self, pr_gas_left = gas_left, pr_return_data = Ok d, pr_apply_state = True\<rparr>))
   | CallFailed err \<Rightarrow> Ok \<lparr>pr_resume = self, pr_gas_left = 0, pr_return_data = Err err, pr_apply_state = False\<rparr>
   | CallReverted gas_left d \<Rightarrow> Ok \<lparr>pr_resume = self, pr_gas_left = gas_left, pr_return_data = Ok d, pr_apply_state = False\<rparr>)"

text \<open>\<open>PassResult::exec\<close>.  The event is logged outside of static contexts only, so its \<open>expect\<close> holds.\<close>

definition pass_return :: "pass_result \<Rightarrow> spec \<Rightarrow> gas_left vm_result" where
  "pass_return p sp = rbind (pr_return_data p) (\<lambda>d.
     rbind (rd_len d) (\<lambda>n. rbind (u_mul (of_nat ((n + 31) div 32)) (memory_gas sp)) (\<lambda>x.
     let return_cost = ucast x in
     rbind (u_add (pr_gas_left p) (rs_gas_retained (pr_resume p))) (\<lambda>gas_left.
     if gas_left < return_cost then Err OutOfGas
     else Ok (NeedsReturn (gas_left - return_cost) d (pr_apply_state p))))))"

definition pass_exec :: "'d backend \<Rightarrow> pass_result \<Rightarrow> ('d exec_context, vm_error, gas_left) eff" where
  "pass_exec B p =
     ebind (local_get id) (\<lambda>l.
     ethen (if fc_static_flag l then eret ()
       else event_log B ''Outcome(bool)'' (Ok []) (abi_encode bool_abi (pr_apply_state p)) (rs_params (pr_resume p)))
     (elift (pass_return p (fc_spec l))))"

definition cross_space_resume ::
  "'d backend \<Rightarrow> cross_resume \<Rightarrow> message_call_result + contract_create_result \<Rightarrow> ('d exec_context, vm_error, gas_left) eff" where
  "cross_space_resume B r result =
     ebind (elift (case result of Inl m \<Rightarrow> cross_resume_call r m | Inr c \<Rightarrow> cross_resume_create r c)) (pass_exec B)"

section \<open>Calls and creates\<close>

definition evm_map :: "'d backend \<Rightarrow> address \<Rightarrow> address_with_space" where
  "evm_map B a = with_space (ucast (bk_keccak B (to_be 20 a))) Ethereum"

definition cross_process_trap :: "('s, 'e, trap_kind \<times> 'r) eff \<Rightarrow> ('s, 'e, 'o + trap_kind \<times> 'r) eff" where
  "cross_process_trap m = ebind m (\<lambda>t. eret (Inr t))"

text \<open>The gas for the nested frame and the gas that is kept back.\<close>

definition split_gas :: "u256 \<Rightarrow> u256 \<Rightarrow> spec \<Rightarrow> ('e, u256 \<times> u256) res" where
  "split_gas gas_left v sp =
     (let part = gas_left div ucast CROSS_SPACE_GAS_RATIO in
      rbind (u_add part (if 0 < v then ucast (call_stipend sp) else 0)) (\<lambda>call_gas.
      rbind (u_sub gas_left part) (\<lambda>reserved_gas. Ok (call_gas, reserved_gas))))"

text \<open>The value goes from the contract to the mapped account of the sender first.\<close>

definition fund_mapped_sender :: "'d backend \<Rightarrow> action_params \<Rightarrow> ('d exec_context, vm_error, unit) eff" where
  "fund_mapped_sender B params =
     ebind (local_get fc_spec) (\<lambda>sp.
     ethen (on_state_mode (into_vm (transfer_balance B (with_space (ap_address params) Ethereum) (evm_map B (ap_sender params))
       (action_value_value (ap_value params)) (account_start_nonce sp))))
     (observe (ObsTransfer (Balance (with_space (ap_address params) Ethereum)) (Balance (evm_map B (ap_sender params)))
       (action_value_value (ap_value params)))))"

definition bytes20_topic :: "'d backend \<Rightarrow> address \<Rightarrow> (string, h256) res" where
  "bytes20_topic B a = indexed_event_encode (bk_keccak B) (fixed_bytes_abi 20) (to_be 20 a)"

definition topics2 :: "(string, h256) res \<Rightarrow> (string, h256) res \<Rightarrow> (string, h256 list) res" where
  "topics2 a b = rbind a (\<lambda>x. rbind b (\<lambda>y. Ok [x, y]))"

definition call_to_evmcore ::
  "'d backend \<Rightarrow> address \<Rightarrow> bytes \<Rightarrow> call_type \<Rightarrow> action_params \<Rightarrow> u256 \<Rightarrow> ('d exec_context, vm_error, trap_kind \<times> cross_resume) eff" where
  "call_to_evmcore B receiver d ct params gas_left =
     ebind (local_get id) (\<lambda>l.
     if max_depth (fc_spec l) \<le> fc_depth l then efail (InternalContract ''Exceed Depth'') else
     let v = action_value_value (ap_value params); mapped_sender = evm_map B (ap_sender params);
         mapped_origin = evm_map B (ap_original_sender params); a = with_space receiver Ethereum in
     ebind (elift (split_gas gas_left v (fc_spec l))) (\<lambda>(call_gas, reserved_gas).
     ethen (fund_mapped_sender B params)
     (ebind (on_state (into_vm (state_code B a))) (\<lambda>c.
     ebind (on_state (into_vm (state_code_hash B a))) (\<lambda>h.
     ethen (if ct = Call then
         ebind (on_state (into_vm (state_nonce B mapped_sender))) (\<lambda>n.
         ethen (on_state (into_vm (inc_nonce B mapped_sender (account_start_nonce (fc_spec l)))))
         (event_log B ''Call(bytes20,bytes20,uint256,uint256,bytes)''
           (topics2 (bytes20_topic B (aws_address mapped_sender)) (bytes20_topic B (aws_address a)))
           (abi_encode3 u256_abi u256_abi bytes_abi (v, n, d)) params))
       else eret ())
     (eret (TrapCall \<lparr>ap_space = Ethereum, ap_code_address = aws_address a, ap_code_hash = h, ap_address = aws_address a,
         ap_sender = aws_address mapped_sender, ap_original_sender = aws_address mapped_origin, ap_gas = call_gas,
         ap_gas_price = ap_gas_price params, ap_value = Transfer v, ap_code = c, ap_data = Some d, ap_call_type = ct,
         ap_create_type = CreateNone, ap_params_type = Separate\<rparr>,
       \<lparr>rs_params = params, rs_gas_retained = reserved_gas\<rparr>)))))))"

definition create_to_evmcore ::
  "'d backend \<Rightarrow> bytes \<Rightarrow> h256 option \<Rightarrow> action_params \<Rightarrow> u256 \<Rightarrow> ('d exec_context, vm_error, trap_kind \<times> cross_resume) eff" where
  "create_to_evmcore B init salt params gas_left =
     ebind (local_get id) (\<lambda>l.
     if max_depth (fc_spec l) \<le> fc_depth l then efail (InternalContract ''Exceed Depth'') else
     let v = action_value_value (ap_value params); mapped_sender = evm_map B (ap_sender params);
         mapped_origin = evm_map B (ap_original_sender params) in
     ebind (elift (split_gas gas_left v (fc_spec l))) (\<lambda>(call_gas, reserved_gas).
     ethen (fund_mapped_sender B params)
     (let (scheme, create_type) = (case salt of None \<Rightarrow> (FromSenderNonce, Create1) | Some s \<Rightarrow> (FromSenderSaltAndCodeHash s, Create2)) in
     ebind (on_state (into_vm (state_nonce B mapped_sender))) (\<lambda>n0.
     let (a, h) = contract_address B scheme mapped_sender n0 init in
     ebind (on_state (into_vm (state_nonce B mapped_sender))) (\<lambda>n.
     ethen (on_state (into_vm (inc_nonce B mapped_sender (account_start_nonce (fc_spec l)))))
     (ethen (event_log B ''Create(bytes20,bytes20,uint256,uint256,bytes)''
         (topics2 (bytes20_topic B (aws_address mapped_sender)) (bytes20_topic B (aws_address a)))
         (abi_encode3 u256_abi u256_abi bytes_abi (v, n, init)) params)
     (eret (TrapCreate \<lparr>ap_space = Ethereum, ap_code_address = aws_address a, ap_code_hash = h, ap_address = aws_address a,
         ap_sender = aws_address mapped_sender, ap_original_sender = aws_address mapped_origin, ap_gas = call_gas,
         ap_gas_price = ap_gas_price params, ap_value = Transfer v, ap_code = Some init, ap_data = None, ap_call_type = CallNone,
         ap_create_type = create_type, ap_params_type = Embedded\<rparr>,
       \<lparr>rs_params = params, rs_gas_retained = reserved_gas\<rparr>))))))))"

definition withdraw_from_evmcore :: "'d backend \<Rightarrow> address \<Rightarrow> u256 \<Rightarrow> action_params \<Rightarrow> ('d exec_context, vm_error, unit) eff" where
  "withdraw_from_evmcore B sender v params =
     ebind (local_get fc_spec) (\<lambda>sp.
     let mapped_address = evm_map B sender in
     ebind (on_state (into_vm (state_balance B mapped_address))) (\<lambda>balance.
     if balance < v then efail (InternalContract ''Not enough balance for withdrawing from mapped address'') else
     ethen (on_state_mode (into_vm (transfer_balance B mapped_address (with_space sender Ethereum) v (account_start_nonce sp))))
     (ethen (observe (ObsTransfer (Balance mapped_address) (Balance (with_space sender Ethereum)) v))
     (ebind (on_state (into_vm (state_nonce B mapped_address))) (\<lambda>n.
     ethen (on_state (into_vm (inc_nonce B mapped_address (account_start_nonce sp))))
     (event_log B ''Withdraw(bytes20,address,uint256,uint256)''
       (topics2 (bytes20_topic B (aws_address mapped_address)) (indexed_event_encode (bk_keccak B) address_abi sender))
       (abi_encode2 u256_abi u256_abi (v, n)) params))))))"

definition mapped_balance :: "'d backend \<Rightarrow> address \<Rightarrow> ('d exec_context, vm_error, u256) eff" where
  "mapped_balance B a = on_state (into_vm (state_balance B (evm_map B a)))"

definition mapped_nonce :: "'d backend \<Rightarrow> address \<Rightarrow> ('d exec_context, vm_error, u256) eff" where
  "mapped_nonce B a = on_state (into_vm (state_nonce B (evm_map B a)))"

section \<open>EIP-1820\<close>

definition hex_digit :: "char \<Rightarrow> byte" where
  "hex_digit c = (let k = of_char c in if k < 58 then k - 48 else k - 87)"

fun from_hex :: "string \<Rightarrow> bytes" where
  "from_hex (x # y # s) = (16 * hex_digit x + hex_digit y) # from_hex s"
| "from_hex _ = []"

definition EIP1820_ADDRESS :: address where
  "EIP1820_ADDRESS = 0x1820a4b7618bde71dce8cdc73aab6c95905fad24"

definition HEX_BYTE_CODE :: string where
  "HEX_BYTE_CODE = concat
     [''608060405234801561001057600080fd5b50600436106100a5576000357c010000000000000000000000000000000000000000000000000000000090048063a4'',
      ''1e7d5111610078578063a41e7d51146101d4578063aabbb8ca1461020a578063b705676514610236578063f712f3e814610280576100a5565b806329965a1d14'',
      ''6100aa5780633d584063146100e25780635df8122f1461012457806365ba36c114610152575b600080fd5b6100e0600480360360608110156100c057600080fd'',
      ''5b50600160a060020a038135811691602081013591604090910135166102b6565b005b610108600480360360208110156100f857600080fd5b5035600160a060'',
      ''020a0316610570565b60408051600160a060020a039092168252519081900360200190f35b6100e06004803603604081101561013a57600080fd5b50600160a0'',
      ''60020a03813581169160200135166105bc565b6101c26004803603602081101561016857600080fd5b8101906020810181356401000000008111156101835760'',
      ''0080fd5b82018360208201111561019557600080fd5b803590602001918460018302840111640100000000831117156101b757600080fd5b5090925090506106'',
      ''b3565b60408051918252519081900360200190f35b6100e0600480360360408110156101ea57600080fd5b508035600160a060020a03169060200135600160e0'',
      ''60020a0319166106ee565b6101086004803603604081101561022057600080fd5b50600160a060020a038135169060200135610778565b61026c600480360360'',
      ''4081101561024c57600080fd5b508035600160a060020a03169060200135600160e060020a0319166107ef565b604080519115158252519081900360200190f3'',
      ''5b61026c6004803603604081101561029657600080fd5b508035600160a060020a03169060200135600160e060020a0319166108aa565b6000600160a060020a'',
      ''038416156102cd57836102cf565b335b9050336102db82610570565b600160a060020a031614610339576040805160e560020a62461bcd028152602060048201'',
      ''52600f60248201527f4e6f7420746865206d616e616765720000000000000000000000000000000000604482015290519081900360640190fd5b610342836109'',
      ''2a565b15610397576040805160e560020a62461bcd02815260206004820152601a60248201527f4d757374206e6f7420626520616e2045524331363520686173'',
      ''68000000000000604482015290519081900360640190fd5b600160a060020a038216158015906103b85750600160a060020a0382163314155b156104ff576040'',
      ''5160200180807f455243313832305f4143434550545f4d4147494300000000000000000000000081525060140190506040516020818303038152906040528051'',
      ''906020012082600160a060020a031663249cb3fa85846040518363ffffffff167c01000000000000000000000000000000000000000000000000000000000281'',
      ''526004018083815260200182600160a060020a0316600160a060020a031681526020019250505060206040518083038186803b15801561047e57600080fd5b50'',
      ''5afa158015610492573d6000803e3d6000fd5b505050506040513d60208110156104a857600080fd5b5051146104ff576040805160e560020a62461bcd028152'',
      ''60206004820181905260248201527f446f6573206e6f7420696d706c656d656e742074686520696e74657266616365604482015290519081900360640190fd5b'',
      ''600160a060020a03818116600081815260208181526040808320888452909152808220805473ffffffffffffffffffffffffffffffffffffffff191694871694'',
      ''85179055518692917f93baa6efbd2244243bfee6ce4cfdd1d04fc4c0e9a786abd3a41313bd352db15391a450505050565b600160a060020a0381811660009081'',
      ''5260016020526040812054909116151561059a5750806105b7565b50600160a060020a03808216600090815260016020526040902054165b919050565b336105'',
      ''c683610570565b600160a060020a031614610624576040805160e560020a62461bcd02815260206004820152600f60248201527f4e6f7420746865206d616e61'',
      ''6765720000000000000000000000000000000000604482015290519081900360640190fd5b81600160a060020a031681600160a060020a031614610643578061'',
      ''0646565b60005b600160a060020a03838116600081815260016020526040808220805473ffffffffffffffffffffffffffffffffffffffff1916958516959095'',
      ''1790945592519184169290917f605c2dbf762e5f7d60a546d42e7205dcb1b011ebc62a61736a57c9089d3a43509190a35050565b600082826040516020018083'',
      ''838082843780830192505050925050506040516020818303038152906040528051906020012090505b92915050565b6106f882826107ef565b61070357600061'',
      ''0705565b815b600160a060020a03928316600081815260208181526040808320600160e060020a031996909616808452958252808320805473ffffffffffffff'',
      ''ffffffffffffffffffffffffff19169590971694909417909555908152600284528181209281529190925220805460ff19166001179055565b600080600160a0'',
      ''60020a038416156107905783610792565b335b905061079d8361092a565b156107c357826107ad82826108aa565b6107b85760006107ba565b815b9250505061'',
      ''06e8565b600160a060020a0390811660009081526020818152604080832086845290915290205416905092915050565b6000808061081d857f01ffc9a7000000'',
      ''0000000000000000000000000000000000000000000000000061094c565b909250905081158061082d575080155b1561083d576000925050506106e8565b6108'',
      ''4f85600160e060020a031961094c565b909250905081158061086057508015155b15610870576000925050506106e8565b61087a858561094c565b9092509050'',
      ''60018214801561088f5750806001145b1561089f576001925050506106e8565b506000949350505050565b600160a060020a0382166000908152600260209081'',
      ''526040808320600160e060020a03198516845290915281205460ff1615156108f2576108eb83836107ef565b90506106e8565b50600160a060020a0380831660'',
      ''0081815260208181526040808320600160e060020a0319871684529091529020549091161492915050565b7bffffffffffffffffffffffffffffffffffffffff'',
      ''ffffffffffffffff161590565b6040517f01ffc9a700000000000000000000000000000000000000000000000000000000808252600482018390526000918291'',
      ''9060208160248189617530fa90519096909550935050505056fea165627a7a72305820377f4a2d4301ede9949f163f319021a6e9c687c292a5e2b2c4734c126b'',
      ''524e6c0029'']"

definition deploy_eip1820 :: "'d backend \<Rightarrow> ('d exec_context, vm_error, unit) eff" where
  "deploy_eip1820 B =
     (let a = with_space EIP1820_ADDRESS Ethereum in
      ebind (on_state (into_vm (is_contract_with_code B a))) (\<lambda>deployed.
      if deployed then efail (InternalContract ''eip-1820 contract has been deployed.'') else
      ethen (on_state (into_vm (new_contract B a 0 1 (Some STORAGE_LAYOUT_REGULAR_V0))))
      (ethen (on_state (into_vm (init_code B a (from_hex HEX_BYTE_CODE))))
      (upd_substate (\<lambda>ss. ss\<lparr>ss_contracts_created := ss_contracts_created ss @ [a]\<rparr>)))))"

section \<open>The functions of the cross-space contract\<close>

type_synonym ('i, 'o, 'd) cross_function = "('i, 'o, 'd, cross_resume) solidity_function"

definition no_arguments :: "bytes \<Rightarrow> (string, unit) res" where
  "no_arguments _ = Ok ()"

definition no_result :: "unit \<Rightarrow> (string, bytes) res" where
  "no_result _ = Ok []"

definition CreateToEVM :: "'d backend \<Rightarrow> (bytes, bytes, 'd) cross_function" where
  "CreateToEVM B = \<lparr>sf_name_and_params = ''createEVM(bytes)'', sf_payable = True, sf_has_write_op = True,
     sf_decode = abi_decode bytes_abi, sf_encode = abi_encode (fixed_bytes_abi 20),
     sf_upfront_gas_payment = (\<lambda>init params. ebind (local_get fc_spec) (\<lambda>sp. elift (cross_create_gas init sp))),
     sf_execute_inner = (\<lambda>init params gas_left. cross_process_trap (create_to_evmcore B init None params gas_left))\<rparr>"

definition TransferToEVM :: "'d backend \<Rightarrow> (bytes, bytes, 'd) cross_function" where
  "TransferToEVM B = \<lparr>sf_name_and_params = ''transferEVM(bytes20)'', sf_payable = True, sf_has_write_op = True,
     sf_decode = abi_decode (fixed_bytes_abi 20), sf_encode = abi_encode bytes_abi,
     sf_upfront_gas_payment = (\<lambda>receiver params. cross_call_gas B (from_be receiver) params []),
     sf_execute_inner = (\<lambda>to params gas_left. cross_process_trap (call_to_evmcore B (from_be to) [] Call params gas_left))\<rparr>"

definition CallToEVM :: "'d backend \<Rightarrow> (bytes \<times> bytes, bytes, 'd) cross_function" where
  "CallToEVM B = \<lparr>sf_name_and_params = ''callEVM(bytes20,bytes)'', sf_payable = True, sf_has_write_op = True,
     sf_decode = abi_decode2 (fixed_bytes_abi 20) bytes_abi, sf_encode = abi_encode bytes_abi,
     sf_upfront_gas_payment = (\<lambda>(receiver, d) params. cross_call_gas B (from_be receiver) params d),
     sf_execute_inner = (\<lambda>(to, d) params gas_left. cross_process_trap (call_to_evmcore B (from_be to) d Call params gas_left))\<rparr>"

definition StaticCallToEVM :: "'d backend \<Rightarrow> (bytes \<times> bytes, bytes, 'd) cross_function" where
  "StaticCallToEVM B = \<lparr>sf_name_and_params = ''staticCallEVM(bytes20,bytes)'', sf_payable = False, sf_has_write_op = False,
     sf_decode = abi_decode2 (fixed_bytes_abi 20) bytes_abi, sf_encode = abi_encode bytes_abi,
     sf_upfront_gas_payment = (\<lambda>_ params. ebind (local_get fc_spec) (\<lambda>sp. elift (static_call_gas sp))),
     sf_execute_inner = (\<lambda>(to, d) params gas_left. cross_process_trap (call_to_evmcore B (from_be to) d StaticCall params gas_left))\<rparr>"

definition Withdraw :: "'d backend \<Rightarrow> (u256, unit, 'd) cross_function" where
  "Withdraw B = \<lparr>sf_name_and_params = ''withdrawFromMapped(uint256)'', sf_payable = False, sf_has_write_op = True,
     sf_decode = abi_decode u256_abi, sf_encode = no_result,
     sf_upfront_gas_payment = (\<lambda>_ params. ebind (local_get fc_spec) (\<lambda>sp. elift (withdraw_gas sp))),
     sf_execute_inner = simple_execution (\<lambda>v params. withdraw_from_evmcore B (ap_sender params) v params)\<rparr>"

definition mapped_query_gas :: "spec \<Rightarrow> usize vm_result" where
  "mapped_query_gas sp = u_add (balance_gas sp) (sha3_gas sp)"

definition MappedBalance :: "'d backend \<Rightarrow> (address, u256, 'd) cross_function" where
  "MappedBalance B = \<lparr>sf_name_and_params = ''mappedBalance(address)'', sf_payable = False, sf_has_write_op = False,
     sf_decode = abi_decode address_abi, sf_encode = abi_encode u256_abi,
     sf_upfront_gas_payment = spec_gas mapped_query_gas, sf_execute_inner = simple_execution (\<lambda>a _. mapped_balance B a)\<rparr>"

definition MappedNonce :: "'d backend \<Rightarrow> (address, u256, 'd) cross_function" where
  "MappedNonce B = \<lparr>sf_name_and_params = ''mappedNonce(address)'', sf_payable = False, sf_has_write_op = False,
     sf_decode = abi_decode address_abi, sf_encode = abi_encode u256_abi,
     sf_upfront_gas_payment = spec_gas mapped_query_gas, sf_execute_inner = simple_execution (\<lambda>a _. mapped_nonce B a)\<rparr>"

definition DeployEip1820 :: "'d backend \<Rightarrow> (unit, unit, 'd) cross_function" where
  "DeployEip1820 B = \<lparr>sf_name_and_params = ''deployEip1820()'', sf_payable = False, sf_has_write_op = True,
     sf_decode = no_arguments, sf_encode = no_result,
     sf_upfront_gas_payment = spec_gas (\<lambda>sp. Ok (eip1820_gas sp)), sf_execute_inner = simple_execution (\<lambda>_ _. deploy_eip1820 B)\<rparr>"

definition cross_space_table :: "'d backend \<Rightarrow> bytes \<rightharpoonup> ('d, cross_resume) table_function" where
  "cross_space_table B =
     (table_insert B cip90 (DeployEip1820 B) (table_insert B cip90 (MappedNonce B) (table_insert B cip90 (MappedBalance B)
     (table_insert B cip90 (Withdraw B) (table_insert B cip90 (StaticCallToEVM B) (table_insert B cip90 (CallToEVM B)
     (table_insert B cip90 (TransferToEVM B) (table_insert B cip90 (CreateToEVM B) Map.empty))))))))"

section \<open>The context contract\<close>

definition base_tier_gas :: "spec \<Rightarrow> usize vm_result" where
  "base_tier_gas sp = (if tier_idx Base < length (tier_step_gas sp) then Ok (tier_step_gas sp ! tier_idx Base) else Panic)"

definition context_query :: "string \<Rightarrow> (env \<Rightarrow> u256) \<Rightarrow> (unit, u256, 'd) cross_function" where
  "context_query name answer = \<lparr>sf_name_and_params = name, sf_payable = False, sf_has_write_op = False,
     sf_decode = no_arguments, sf_encode = abi_encode u256_abi,
     sf_upfront_gas_payment = spec_gas base_tier_gas,
     sf_execute_inner = simple_execution (\<lambda>_ _. local_get (\<lambda>l. answer (fc_env l)))\<rparr>"

definition EpochNumber :: "(unit, u256, 'd) cross_function" where
  "EpochNumber = context_query ''epochNumber()'' (\<lambda>e. ucast (env_epoch_height e))"

definition PoSHeight :: "(unit, u256, 'd) cross_function" where
  "PoSHeight = context_query ''posHeight()'' (\<lambda>_. 0)"

definition FinalizedEpoch :: "(unit, u256, 'd) cross_function" where
  "FinalizedEpoch = context_query ''finalizedEpochNumber()'' (\<lambda>_. 0)"

definition context_table :: "'d backend \<Rightarrow> bytes \<rightharpoonup> ('d, cross_resume) table_function" where
  "context_table B = table_insert B cip64 FinalizedEpoch (table_insert B cip64 PoSHeight (table_insert B cip64 EpochNumber Map.empty))"

section \<open>All contracts\<close>

definition CONTEXT_CONTRACT_ADDRESS :: address where
  "CONTEXT_CONTRACT_ADDRESS = 0x0888000000000000000000000000000000000004"

definition RESERVED3 :: address where
  "RESERVED3 = 0x0888000000000000000000000000000000000003"

definition RESERVED8 :: address where
  "RESERVED8 = 0x0888000000000000000000000000000000000008"

definition RESERVED9 :: address where
  "RESERVED9 = 0x0888000000000000000000000000000000000009"

definition RESERVED11 :: address where
  "RESERVED11 = 0x088800000000000000000000000000000000000b"

definition all_internal_contracts :: "'d backend \<Rightarrow> ('d, cross_resume) solidity_contract list" where
  "all_internal_contracts B =
     [make_solidity_contract CONTEXT_CONTRACT_ADDRESS (context_table B) tn_cip64 cip64,
      make_solidity_contract CROSS_SPACE_CONTRACT_ADDRESS (cross_space_table B) tn_cip90b cip90,
      make_solidity_contract SYSTEM_STORAGE_ADDRESS Map.empty tn_cip94 cip94,
      placeholder RESERVED3, placeholder RESERVED8, placeholder RESERVED9, placeholder RESERVED11]"

end
