(* ===== verification/Internal_Laws.thy ===== *)
theory Internal_Laws
  imports Cross_Space Frame_Laws
begin

text \<open>
  The internal contracts keep the contract that the frames rely on: they change the context as an
  instruction does, hand back at most the gas they were given, and a nested call or create costs
  more than the stipend it adds.  The laws of one function are a locale; each function of the chain
  is an interpretation, and a table of such functions makes a lawful contract.
\<close>

section \<open>Effects on the context\<close>

definition gives :: "'d backend \<Rightarrow> 'd exec_context \<Rightarrow> ('d exec_context, 'e, 'a) eff \<Rightarrow> ('a \<Rightarrow> bool) \<Rightarrow> bool" where
  "gives B c m P \<longleftrightarrow> (state_ok B (ctx_state c) \<longrightarrow> wp True m (\<lambda>a c'. evolves B c c' \<and> P a) (\<lambda>_ c'. evolves B c c') c)"

lemma evolves_ok: "evolves B c c' \<Longrightarrow> state_ok B (ctx_state c')"
  by (simp add: evolves_def top_only_def)

lemma evolves_local:
  assumes "evolves B c c'"
  shows "fc_spec (ctx_local c') = fc_spec (ctx_local c)" "fc_static_flag (ctx_local c') = fc_static_flag (ctx_local c)"
  using assms fixed_part_field [of "ctx_local c'" "ctx_local c"] by (simp_all add: evolves_def)

lemma gives_bind:
  assumes "gives B c m R" "\<And>a c'. R a \<Longrightarrow> evolves B c c' \<Longrightarrow> gives B c' (f a) P"
  shows "gives B c (ebind m f) P"
  unfolding gives_def wp_ebind
proof
  assume s: "state_ok B (ctx_state c)"
  show "wp True m (\<lambda>a. wp True (f a) (\<lambda>b c'. evolves B c c' \<and> P b) (\<lambda>_ c'. evolves B c c')) (\<lambda>_ c'. evolves B c c') c"
  proof (rule wp_mono [OF assms(1) [unfolded gives_def, rule_format, OF s]])
    fix a c'
    assume a: "evolves B c c' \<and> R a"
    then have "wp True (f a) (\<lambda>b c''. evolves B c' c'' \<and> P b) (\<lambda>_ c''. evolves B c' c'') c'"
      using assms(2) evolves_ok unfolding gives_def by blast
    then show "wp True (f a) (\<lambda>b c'. evolves B c c' \<and> P b) (\<lambda>_ c'. evolves B c c') c'"
      by (rule wp_mono) (use a evolves_trans in blast)+
  qed simp_all
qed

lemma gives_then: "gives B c m (\<lambda>_. True) \<Longrightarrow> (\<And>a c'. evolves B c c' \<Longrightarrow> gives B c' (f a) P) \<Longrightarrow> gives B c (ebind m f) P"
  by (rule gives_bind)

lemma gives_mono: "gives B c m R \<Longrightarrow> (\<And>a. R a \<Longrightarrow> P a) \<Longrightarrow> gives B c m P"
  unfolding gives_def by (blast intro: wp_mono)

lemma gives_basic:
  "P a \<Longrightarrow> gives B c (eret a) P" "gives B c (efail e) P" "(\<And>a. r = Ok a \<Longrightarrow> P a) \<Longrightarrow> gives B c (elift r) P"
  by (auto simp: gives_def wp_simps evolves_refl split: res.splits)

lemma gives_local: "gives B c (f (g (ctx_local c))) P \<Longrightarrow> gives B c (ebind (local_get g) f) P"
  by (simp add: gives_def local_get_def wp_simps)

lemma gives_if: "(b \<Longrightarrow> gives B c m P) \<Longrightarrow> (\<not> b \<Longrightarrow> gives B c n P) \<Longrightarrow> gives B c (if b then m else n) P"
  by simp

lemma gives_elift: "(\<And>a c'. r = Ok a \<Longrightarrow> evolves B c c' \<Longrightarrow> gives B c' (f a) P) \<Longrightarrow> gives B c (ebind (elift r) f) P"
  by (rule gives_bind [OF gives_basic(3) [where P = "\<lambda>a. r = Ok a"]])

lemma gives_quiet: "quiet B m \<Longrightarrow> gives B c (on_state (into_vm m)) (\<lambda>_. True)"
  unfolding gives_def
  by (intro impI, simp, rule wp_on_state_top) (auto simp: quiet_def into_vm_apply intro: top_only_same)

lemma gives_code: "gives B c (on_state (into_vm (state_code B a))) (\<lambda>x. \<forall>d. x = Some d \<longrightarrow> length d < 2 ^ 63)"
  unfolding gives_def
proof
  assume s: "state_ok B (ctx_state c)"
  obtain r t where r: "state_code B a (ctx_state c) = (r, t)" by fastforce
  have "same B (ctx_state c) t" using quiet_state_code [of B a] s r by (auto simp: quiet_def)
  then show "wp True (on_state (into_vm (state_code B a))) (\<lambda>x c'. evolves B c c' \<and> (\<forall>d. x = Some d \<longrightarrow> length d < 2 ^ 63)) (\<lambda>_ c'. evolves B c c') c"
    using state_code_length [OF s, of a _ t] r
    by (cases r) (auto simp: wp_def on_state_def ezoom_def into_vm_def evolves_state top_only_same)
qed

lemma gives_inc_nonce: "gives B c (on_state (into_vm (inc_nonce B a n))) (\<lambda>_. True)"
  unfolding gives_def by (intro impI, simp, rule wp_on_state_top) (use inc_nonce_ok in \<open>fastforce simp: into_vm_apply\<close>)

lemma gives_transfer: "gives B c (on_state_mode (into_vm (transfer_balance B src dst v n))) (\<lambda>_. True)"
  unfolding gives_def by (intro impI, simp, rule wp_on_state_mode_top) (auto simp: into_vm_apply intro: transfer_balance_top)

lemma gives_new_contract: "gives B c (on_state (into_vm (new_contract B a b n l))) (\<lambda>_. True)"
  unfolding gives_def by (intro impI, simp, rule wp_on_state_top) (auto simp: into_vm_apply intro: new_contract_top)

lemma gives_init_code: "length d < 2 ^ 63 \<Longrightarrow> gives B c (on_state (into_vm (init_code B a d))) (\<lambda>_. True)"
  unfolding gives_def by (intro impI, simp, rule wp_on_state_top) (auto simp: into_vm_apply intro: init_code_top)

lemma gives_local_changes:
  "gives B c (upd_substate f) (\<lambda>_. True)" "is_transfer x \<Longrightarrow> gives B c (observe x) (\<lambda>_. True)"
  by (auto simp: gives_def upd_substate_def observe_def wp_simps evolves_def fixed_part_def top_only_refl)

text \<open>An event is logged outside of static contexts only.\<close>

lemma gives_event: "gives B c (event_log B' i ts d p) (\<lambda>_. \<not> fc_static_flag (ctx_local c))"
  unfolding event_log_def internal_log_def
  by (intro gives_bind [OF gives_basic(3) [where P = "\<lambda>_. True"]] gives_local gives_if gives_basic(2) gives_mono [OF gives_local_changes(1)])
    (auto simp: evolves_local)

section \<open>The laws of a function\<close>

definition cross_held :: "cross_resume \<Rightarrow> nat" where
  "cross_held r = unat (rs_gas_retained r)"

text \<open>What a frame expects of the outcome of an internal contract.\<close>

definition outcome_ok :: "('r \<Rightarrow> nat) \<Rightarrow> bool \<Rightarrow> nat \<Rightarrow> gas_left + trap_kind \<times> 'r \<Rightarrow> bool" where
  "outcome_ok held static gas out = (case out of
     Inl g \<Rightarrow> left_ok gas g
   | Inr (t, r) \<Rightarrow> trap_allowed static t \<and> held r + trap_gas t < gas)"

text \<open>
  The price is computed and the work is done without leaving the context, and a trap after paying
  the price asks for less gas than there was.
\<close>

locale solidity_function_laws =
  fixes B :: "'d backend" and F :: "('i, 'o, 'd, 'r) solidity_function" and held :: "'r \<Rightarrow> nat" and price :: "spec \<Rightarrow> action_params \<Rightarrow> nat"
  assumes upfront: "gives B c (sf_upfront_gas_payment F i p) (\<lambda>cost. spec_ok (fc_spec (ctx_local c)) \<longrightarrow> price (fc_spec (ctx_local c)) p \<le> unat cost)"
    and inner: "pre_execution_check F p = Ok () \<Longrightarrow> sf_decode F input = Ok i \<Longrightarrow> length input < 2 ^ 63 \<Longrightarrow> spec_ok (fc_spec (ctx_local c)) \<Longrightarrow>
      gives B c (sf_execute_inner F i p g) (\<lambda>out. case out of Inl _ \<Rightarrow> True
        | Inr (t, r) \<Rightarrow> trap_allowed (fc_static_flag (ctx_local c)) t \<and> held r + trap_gas t < unat g + price (fc_spec (ctx_local c)) p)"
begin

lemma preprocessing_gives:
  assumes "spec_ok (fc_spec (ctx_local c))"
  shows "gives B c (preprocessing F input p) (\<lambda>(i, cost). pre_execution_check F p = Ok () \<and> sf_decode F input = Ok i \<and> cost \<le> ap_gas p \<and>
    price (fc_spec (ctx_local c)) p \<le> unat cost)"
  unfolding preprocessing_def
  using assms by (intro gives_elift gives_bind [OF upfront] gives_if gives_basic)
    (auto simp: evolves_local not_less from_abi_error_def split: res.splits)

lemma function_return_gives:
  assumes out: "case out of Inl _ \<Rightarrow> True | Inr (t, r) \<Rightarrow> trap_allowed static t \<and> held r + trap_gas t < gas" and g: "unat g \<le> gas"
  shows "gives B c (case out of
      Inl output \<Rightarrow> ebind (local_get fc_spec) (\<lambda>sp. ebind (elift (function_return F g output sp)) (\<lambda>g. eret (Inl g)))
    | Inr trap \<Rightarrow> eret (Inr trap)) (outcome_ok held static gas)"
proof (cases out)
  case (Inl o')
  have "outcome_ok held static gas (Inl h)" if "function_return F g o' sp = Ok h" for h sp
    using that g by (auto simp: function_return_def rbind_Ok_iff encoded_def outcome_ok_def left_ok_def rd_ok_def rd_new_def unat_sub_le not_less Let_def
        split: if_splits res.splits)
  with Inl show ?thesis by (auto intro!: gives_local gives_elift gives_basic)
qed (use out in \<open>auto simp: outcome_ok_def intro!: gives_basic\<close>)

lemma function_execute_gives:
  assumes input: "length input < 2 ^ 63" and sp: "spec_ok (fc_spec (ctx_local c))"
  shows "gives B c (function_execute F input p) (outcome_ok held (fc_static_flag (ctx_local c)) (unat (ap_gas p)))"
  unfolding function_execute_def
proof (rule gives_bind [OF preprocessing_gives [OF sp]], clarify)
  fix i cost c1
  assume e: "evolves B c c1" and pre: "pre_execution_check F p = Ok ()" "sf_decode F input = Ok i" "cost \<le> ap_gas p"
    "price (fc_spec (ctx_local c)) p \<le> unat cost"
  show "gives B c1 (ebind (elift (u_sub (ap_gas p) cost)) (\<lambda>g. ebind (sf_execute_inner F i p g) (\<lambda>result. case result of
      Inl output \<Rightarrow> ebind (local_get fc_spec) (\<lambda>sp. ebind (elift (function_return F g output sp)) (\<lambda>g. eret (Inl g)))
    | Inr trap \<Rightarrow> eret (Inr trap)))) (outcome_ok held (fc_static_flag (ctx_local c)) (unat (ap_gas p)))"
  proof (rule gives_elift)
    fix g c2
    assume "u_sub (ap_gas p) cost = Ok g" and e2: "evolves B c1 c2"
    then have g: "unat g + unat cost = unat (ap_gas p)" using pre(3) by (simp add: u_sub_Ok_iff unat_sub_le word_le_nat_alt)
    have loc: "fc_spec (ctx_local c2) = fc_spec (ctx_local c)" "fc_static_flag (ctx_local c2) = fc_static_flag (ctx_local c)"
      using e e2 by (simp_all add: evolves_local)
    show "gives B c2 (ebind (sf_execute_inner F i p g) (\<lambda>result. case result of
        Inl output \<Rightarrow> ebind (local_get fc_spec) (\<lambda>sp. ebind (elift (function_return F g output sp)) (\<lambda>g. eret (Inl g)))
      | Inr trap \<Rightarrow> eret (Inr trap))) (outcome_ok held (fc_static_flag (ctx_local c)) (unat (ap_gas p)))"
      using g pre(4) by (intro gives_bind [OF inner [OF pre(1,2) input]] function_return_gives) (auto simp: loc sp split: sum.splits)
  qed
qed

end

section \<open>Tables of functions\<close>

definition table_lawful :: "'d backend \<Rightarrow> ('r \<Rightarrow> nat) \<Rightarrow> (bytes \<rightharpoonup> ('d, 'r) table_function) \<Rightarrow> bool" where
  "table_lawful B held table \<longleftrightarrow> (\<forall>k f input p c. table k = Some f \<longrightarrow> length input < 2 ^ 63 \<longrightarrow> spec_ok (fc_spec (ctx_local c)) \<longrightarrow>
     gives B c (tf_execute f input p) (outcome_ok held (fc_static_flag (ctx_local c)) (unat (ap_gas p))))"

lemma table_lawful_empty: "table_lawful B held Map.empty"
  by (simp add: table_lawful_def)

lemma table_lawful_insert:
  "solidity_function_laws B F held price \<Longrightarrow> table_lawful B held table \<Longrightarrow> table_lawful B held (table_insert B' active F table)"
  using solidity_function_laws.function_execute_gives by (fastforce simp: table_lawful_def table_insert_def split: if_splits)

lemma contract_execute_gives:
  assumes t: "table_lawful B held table" and p: "params_fit p" and sp: "spec_ok (fc_spec (ctx_local c))"
  shows "gives B c (contract_execute table p) (outcome_ok held (fc_static_flag (ctx_local c)) (unat (ap_gas p)))"
  unfolding contract_execute_def
proof (rule gives_local, rule gives_bind [OF gives_basic(3) [where P = "\<lambda>(f, input). (\<exists>k. table k = Some f) \<and> length input < 2 ^ 63"]])
  show "case a of (f, input) \<Rightarrow> (\<exists>k. table k = Some f) \<and> length input < 2 ^ 63" if "load_solidity_fn (ap_data p) table (fc_spec (ctx_local c)) = Ok a" for a
    using that p by (auto simp: load_solidity_fn_def rbind_Ok_iff from_abi_error_def params_fit_def split: option.splits if_splits)
  fix a :: "('a, 'b) table_function \<times> bytes" and c1
  assume "case a of (f, input) \<Rightarrow> (\<exists>k. table k = Some f) \<and> length input < 2 ^ 63" and e: "evolves B c c1"
  then obtain k f input where a: "a = (f, input)" "table k = Some f" "length input < 2 ^ 63" by (cases a) auto
  have "spec_ok (fc_spec (ctx_local c1))" using sp evolves_local [OF e] by simp
  then have "gives B c1 (tf_execute f input p) (outcome_ok held (fc_static_flag (ctx_local c1)) (unat (ap_gas p)))"
    using t a(2,3) unfolding table_lawful_def by blast
  then show "gives B c1 (case a of (f, call_params) \<Rightarrow> tf_execute f call_params p) (outcome_ok held (fc_static_flag (ctx_local c)) (unat (ap_gas p)))"
    using a(1) evolves_local [OF e] by simp
qed

section \<open>Prices and the split of the gas\<close>

lemma u256_sum_Ok: "u256_sum x ys = (Ok c :: ('e, u256) res) \<Longrightarrow> unat c = unat x + sum_list (map unat ys)"
proof (induction ys arbitrary: x)
  case (Cons y ys)
  then have "2 ^ 256 > unat x + unat (ucast y :: u256)" "u256_sum (x + ucast y) ys = (Ok c :: ('e, u256) res)"
    by (auto simp: u256_sum_def rbind_Ok_iff u_add_Ok_iff)
  with Cons.IH show ?case by (auto simp: unat_add_no_overflow unat_ucast_up)
qed (simp add: u256_sum_def)

lemma split_gas_Ok:
  assumes "split_gas g v sp = Ok (cg, reserved)"
  shows "unat reserved + unat cg = unat g + (if 0 < v then unat (call_stipend sp) else 0)"
proof -
  let ?part = "g div ucast CROSS_SPACE_GAS_RATIO" and ?s = "if 0 < v then ucast (call_stipend sp) else 0 :: u256"
  have "unat ?part \<le> unat g" by (simp add: unat_div)
  then have "cg = ?part + ?s" "reserved = g - ?part" "unat ?part + unat ?s < 2 ^ 256" "?part \<le> g"
    using assms by (auto simp: split_gas_def Let_def rbind_Ok_iff u_add_def u_sub_def word_le_nat_alt split: if_splits)
  moreover have "unat ?s = (if 0 < v then unat (call_stipend sp) else 0)" by (simp add: unat_ucast_up)
  ultimately show ?thesis using \<open>unat ?part \<le> unat g\<close> by (simp add: unat_add_no_overflow unat_sub_le)
qed

lemma cross_create_gas_price: "cross_create_gas code sp = Ok c \<Longrightarrow> unat (create_gas sp) \<le> unat c"
  by (auto simp: cross_create_gas_def rbind_Ok_iff dest!: u256_sum_Ok simp: unat_ucast_up)

lemma static_call_gas_price: "static_call_gas sp = Ok c \<Longrightarrow> unat (call_gas sp) \<le> unat c"
  by (auto simp: static_call_gas_def rbind_Ok_iff dest!: u256_sum_Ok simp: unat_ucast_up)

definition call_price :: "spec \<Rightarrow> action_params \<Rightarrow> nat" where
  "call_price sp p = unat (call_gas sp) + (if 0 < action_value_value (ap_value p) then unat (call_value_transfer_gas sp) else 0)"

lemma cross_call_gas_gives: "gives B c (cross_call_gas B a p d) (\<lambda>cost. call_price (fc_spec (ctx_local c)) p \<le> unat cost)"
proof -
  let ?sp = "fc_spec (ctx_local c)"
  have price: "call_price ?sp p \<le> unat cost"
    if "u256_sum (ucast (call_gas ?sp)) [x, if 0 < action_value_value (ap_value p) then call_value_transfer_gas ?sp else 0] = Ok g"
      "u256_sum g ys = Ok cost" for x g ys cost
    using u256_sum_Ok [OF that(1)] u256_sum_Ok [OF that(2)] by (simp add: call_price_def unat_ucast_up split: if_splits)
  show ?thesis
    unfolding cross_call_gas_def Let_def
    by (intro gives_local gives_elift gives_then [OF gives_quiet [OF quiet_reads(5)]] gives_basic(3)) (rule price)
qed

section \<open>Calls and creates of the cross-space contract\<close>

definition stipend :: "spec \<Rightarrow> action_params \<Rightarrow> nat" where
  "stipend sp p = (if 0 < action_value_value (ap_value p) then unat (call_stipend sp) else 0)"

lemma fund_mapped_sender_gives: "gives B c (fund_mapped_sender B p) (\<lambda>_. True)"
  unfolding fund_mapped_sender_def
  by (intro gives_local gives_then [OF gives_transfer] gives_local_changes) (simp add: is_transfer_def)

lemma call_to_evmcore_gives:
  assumes "length d < 2 ^ 63" "ct = Call \<or> ct = StaticCall \<and> action_value_value (ap_value p) = 0"
  shows "gives B c (call_to_evmcore B a d ct p g) (\<lambda>(t, r). trap_allowed (fc_static_flag (ctx_local c)) t \<and>
    cross_held r + trap_gas t = unat g + stipend (fc_spec (ctx_local c)) p)"
proof -
  let ?l = "ctx_local c"
  have log: "gives B c2 (if ct = Call then ebind (on_state (into_vm (state_nonce B m))) (\<lambda>n.
      ethen (on_state (into_vm (inc_nonce B m k))) (event_log B i ts (ds n) p)) else eret ()) (\<lambda>_. ct = Call \<longrightarrow> \<not> fc_static_flag ?l)"
    if "fc_static_flag (ctx_local c2) = fc_static_flag ?l" for c2 m k i ts ds
    using that
    by (intro gives_if gives_then [OF gives_quiet [OF quiet_reads(2)]] gives_then [OF gives_inc_nonce] gives_mono [OF gives_event] gives_basic)
      (auto simp: evolves_local)
  have ret: "gives B c2 (eret (TrapCall q, \<lparr>rs_params = p, rs_gas_retained = rg\<rparr>))
      (\<lambda>(t, r). trap_allowed (fc_static_flag ?l) t \<and> cross_held r + trap_gas t = unat g + stipend (fc_spec ?l) p)"
    if "split_gas g (action_value_value (ap_value p)) (fc_spec ?l) = Ok (ap_gas q, rg)" "ap_data q = Some d" "ap_call_type q = ct"
      "\<forall>x. ap_code q = Some x \<longrightarrow> length x < 2 ^ 63" "ap_value q = Transfer (action_value_value (ap_value p))" "ct = Call \<longrightarrow> \<not> fc_static_flag ?l" for c2 q rg
    using that assms split_gas_Ok [OF that(1)] by (intro gives_basic) (auto simp: trap_allowed_def params_fit_def cross_held_def stipend_def)
  show ?thesis
    unfolding call_to_evmcore_def Let_def
    by (intro gives_local gives_if gives_basic(2) gives_elift, clarify,
        intro gives_then [OF fund_mapped_sender_gives] gives_bind [OF gives_code] gives_then [OF gives_quiet [OF quiet_reads(3)]] gives_bind [OF log] ret)
      (auto simp: evolves_local)
qed

lemma create_to_evmcore_gives:
  assumes "length init < 2 ^ 63"
  shows "gives B c (create_to_evmcore B init salt p g) (\<lambda>(t, r). trap_allowed (fc_static_flag (ctx_local c)) t \<and>
    cross_held r + trap_gas t = unat g + stipend (fc_spec (ctx_local c)) p)"
proof -
  let ?l = "ctx_local c"
  have ret: "gives B c2 (eret (TrapCreate q, \<lparr>rs_params = p, rs_gas_retained = rg\<rparr>))
      (\<lambda>(t, r). trap_allowed (fc_static_flag ?l) t \<and> cross_held r + trap_gas t = unat g + stipend (fc_spec ?l) p)"
    if "split_gas g (action_value_value (ap_value p)) (fc_spec ?l) = Ok (ap_gas q, rg)" "ap_code q = Some init" "ap_data q = None"
      "ap_value q = Transfer v" "\<not> fc_static_flag ?l" for c2 q rg v
    using that assms split_gas_Ok [OF that(1)] by (intro gives_basic) (auto simp: trap_allowed_def params_fit_def cross_held_def stipend_def)
  show ?thesis
    unfolding create_to_evmcore_def Let_def
    by (intro gives_local gives_if gives_basic(2) gives_elift, clarify, split prod.split, intro allI impI,
        intro gives_then [OF fund_mapped_sender_gives] gives_then [OF gives_quiet [OF quiet_reads(2)]], split prod.split,
        intro allI impI gives_then [OF gives_quiet [OF quiet_reads(2)]] gives_then [OF gives_inc_nonce] gives_bind [OF gives_event] ret)
      (auto simp: evolves_local)
qed

section \<open>The functions of the chain\<close>

lemma read_bytes_length: "read_abi_list bytes_abi d p = Ok (x, q) \<Longrightarrow> length x \<le> length d"
  by (auto simp: read_abi_list_def bytes_abi_def bytes_from_abi_def rbind_Ok_iff pull_slice_def Let_def split: if_splits)

lemma decoded_lengths:
  "abi_decode bytes_abi d = Ok x \<Longrightarrow> length x \<le> length d"
  "abi_decode2 V bytes_abi d = Ok (a, x) \<Longrightarrow> length x \<le> length d"
  by (auto simp: abi_decode_def abi_decode2_def rbind_Ok_iff dest: read_bytes_length)

lemma spec_prices:
  assumes "spec_ok sp"
  shows "stipend sp p < unat (create_gas sp)" "stipend sp p < call_price sp p" "0 < unat (call_gas sp)"
  using assms by (auto simp: spec_ok_def stipend_def call_price_def word_less_nat_alt)

text \<open>Work without nested calls and prices that only depend on the cost schedule.\<close>

lemma gives_simple: "(\<And>c. gives B c (f i p) (\<lambda>_. True)) \<Longrightarrow> gives B c (simple_execution f i p g) (\<lambda>out. case out of Inl _ \<Rightarrow> True | Inr (t, r) \<Rightarrow> R t r)"
  unfolding simple_execution_def by (intro gives_then gives_basic) simp_all

lemma gives_spec_gas: "gives B c (spec_gas f i p) (\<lambda>_. True)"
  unfolding spec_gas_def by (intro gives_local gives_elift gives_basic) simp

lemma length_from_hex: "length (from_hex s) \<le> length s"
  by (induction s rule: from_hex.induct) simp_all

lemma byte_code_fits: "length (from_hex HEX_BYTE_CODE) < 2 ^ 63"
proof -
  have "length HEX_BYTE_CODE < 2 ^ 13" by (simp add: HEX_BYTE_CODE_def)
  then show ?thesis using length_from_hex [of HEX_BYTE_CODE] by simp
qed

lemma quiet_is_contract_with_code: "quiet B (is_contract_with_code B a)"
  by (rule quietI [OF is_contract_with_code_spec]; simp add: top_view_no_panic)

lemma deploy_eip1820_gives: "gives B c (deploy_eip1820 B) (\<lambda>_. True)"
  unfolding deploy_eip1820_def Let_def
  by (intro gives_then [OF gives_quiet [OF quiet_is_contract_with_code]] gives_if gives_basic gives_then [OF gives_new_contract]
      gives_then [OF gives_init_code] gives_local_changes byte_code_fits)

lemma withdraw_from_evmcore_gives: "gives B c (withdraw_from_evmcore B a v p) (\<lambda>_. True)"
  unfolding withdraw_from_evmcore_def Let_def
  by (intro gives_local gives_then [OF gives_quiet [OF quiet_reads(1)]] gives_if gives_basic gives_then [OF gives_transfer]
      gives_then [OF gives_local_changes(2)] gives_then [OF gives_quiet [OF quiet_reads(2)]] gives_then [OF gives_inc_nonce] gives_mono [OF gives_event])
    (simp_all add: is_transfer_def)

text \<open>A trap that adds less than the price to the gas it was given.\<close>

lemma gives_process_trap:
  assumes "gives B c m (\<lambda>(t, r). trap_allowed static t \<and> cross_held r + trap_gas t = g + st)" "st < k"
  shows "gives B c (cross_process_trap m) (\<lambda>out. case out of Inl _ \<Rightarrow> True | Inr (t, r) \<Rightarrow> trap_allowed static t \<and> cross_held r + trap_gas t < g + k)"
  unfolding cross_process_trap_def using assms(2) by (intro gives_bind [OF assms(1)] gives_basic) auto

interpretation create_evm: solidity_function_laws B "CreateToEVM B" cross_held "\<lambda>sp _. unat (create_gas sp)" for B
proof
  fix c :: "'a exec_context" and i p
  show "gives B c (sf_upfront_gas_payment (CreateToEVM B) i p)
      (\<lambda>cost. spec_ok (fc_spec (ctx_local c)) \<longrightarrow> unat (create_gas (fc_spec (ctx_local c))) \<le> unat cost)"
    by (auto simp: CreateToEVM_def intro!: gives_local gives_basic cross_create_gas_price)
next
  fix p input i g and c :: "'a exec_context"
  assume "sf_decode (CreateToEVM B) input = Ok i" "length input < 2 ^ 63" "spec_ok (fc_spec (ctx_local c))"
  then show "gives B c (sf_execute_inner (CreateToEVM B) i p g) (\<lambda>out. case out of Inl _ \<Rightarrow> True
      | Inr (t, r) \<Rightarrow> trap_allowed (fc_static_flag (ctx_local c)) t \<and> cross_held r + trap_gas t < unat g + unat (create_gas (fc_spec (ctx_local c))))"
    by (auto simp: CreateToEVM_def intro!: gives_process_trap [OF create_to_evmcore_gives] spec_prices dest: decoded_lengths)
qed

lemma call_inner_gives:
  assumes "length d < 2 ^ 63" "ct = Call \<or> ct = StaticCall \<and> action_value_value (ap_value p) = 0" "stipend (fc_spec (ctx_local c)) p < k"
  shows "gives B c (cross_process_trap (call_to_evmcore B a d ct p g)) (\<lambda>out. case out of Inl _ \<Rightarrow> True
      | Inr (t, r) \<Rightarrow> trap_allowed (fc_static_flag (ctx_local c)) t \<and> cross_held r + trap_gas t < unat g + k)"
  by (intro gives_process_trap [OF call_to_evmcore_gives] assms)

interpretation transfer_evm: solidity_function_laws B "TransferToEVM B" cross_held call_price for B
  by unfold_locales
    (auto simp: TransferToEVM_def intro!: gives_mono [OF cross_call_gas_gives] call_inner_gives spec_prices)

interpretation call_evm: solidity_function_laws B "CallToEVM B" cross_held call_price for B
  by unfold_locales
    (auto simp: CallToEVM_def intro!: gives_mono [OF cross_call_gas_gives] call_inner_gives spec_prices dest: decoded_lengths)

interpretation static_call_evm: solidity_function_laws B "StaticCallToEVM B" cross_held "\<lambda>sp _. unat (call_gas sp)" for B
proof
  fix c :: "'a exec_context" and i p
  show "gives B c (sf_upfront_gas_payment (StaticCallToEVM B) i p)
      (\<lambda>cost. spec_ok (fc_spec (ctx_local c)) \<longrightarrow> unat (call_gas (fc_spec (ctx_local c))) \<le> unat cost)"
    by (auto simp: StaticCallToEVM_def intro!: gives_local gives_basic static_call_gas_price)
next
  fix p input i g and c :: "'a exec_context"
  assume "pre_execution_check (StaticCallToEVM B) p = Ok ()" "sf_decode (StaticCallToEVM B) input = Ok i" "length input < 2 ^ 63"
    "spec_ok (fc_spec (ctx_local c))"
  then show "gives B c (sf_execute_inner (StaticCallToEVM B) i p g) (\<lambda>out. case out of Inl _ \<Rightarrow> True
      | Inr (t, r) \<Rightarrow> trap_allowed (fc_static_flag (ctx_local c)) t \<and> cross_held r + trap_gas t < unat g + unat (call_gas (fc_spec (ctx_local c))))"
    by (cases i) (auto simp: StaticCallToEVM_def pre_execution_check_def stipend_def split: if_splits intro!: call_inner_gives spec_prices dest: decoded_lengths)
qed

interpretation withdraw: solidity_function_laws B "Withdraw B" cross_held "\<lambda>_ _. 0" for B
  by unfold_locales
    (auto simp: Withdraw_def intro!: gives_local gives_basic gives_simple withdraw_from_evmcore_gives)

interpretation mapped_balance_fn: solidity_function_laws B "MappedBalance B" cross_held "\<lambda>_ _. 0" for B
  by unfold_locales
    (auto simp: MappedBalance_def mapped_balance_def intro!: gives_mono [OF gives_spec_gas] gives_simple gives_quiet quiet_reads)

interpretation mapped_nonce_fn: solidity_function_laws B "MappedNonce B" cross_held "\<lambda>_ _. 0" for B
  by unfold_locales
    (auto simp: MappedNonce_def mapped_nonce_def intro!: gives_mono [OF gives_spec_gas] gives_simple gives_quiet quiet_reads)

interpretation deploy: solidity_function_laws B "DeployEip1820 B" cross_held "\<lambda>_ _. 0" for B
  by unfold_locales
    (auto simp: DeployEip1820_def intro!: gives_mono [OF gives_spec_gas] gives_simple deploy_eip1820_gives)

lemma gives_local_get: "gives B c (local_get f) (\<lambda>_. True)"
  by (simp add: gives_def local_get_def wp_simps evolves_refl)

interpretation query: solidity_function_laws B "context_query name answer" cross_held "\<lambda>_ _. 0" for B name answer
  by unfold_locales
    (auto simp: context_query_def intro!: gives_mono [OF gives_spec_gas] gives_simple gives_local_get)

section \<open>The contracts of the chain\<close>

lemma cross_space_lawful: "table_lawful B cross_held (cross_space_table B)"
  unfolding cross_space_table_def
  by (intro table_lawful_empty table_lawful_insert [OF create_evm.solidity_function_laws_axioms] table_lawful_insert [OF transfer_evm.solidity_function_laws_axioms]
      table_lawful_insert [OF call_evm.solidity_function_laws_axioms] table_lawful_insert [OF static_call_evm.solidity_function_laws_axioms] table_lawful_insert [OF withdraw.solidity_function_laws_axioms]
      table_lawful_insert [OF mapped_balance_fn.solidity_function_laws_axioms] table_lawful_insert [OF mapped_nonce_fn.solidity_function_laws_axioms] table_lawful_insert [OF deploy.solidity_function_laws_axioms])

lemma context_lawful: "table_lawful B cross_held (context_table B)"
  unfolding context_table_def EpochNumber_def PoSHeight_def FinalizedEpoch_def
  by (intro table_lawful_empty table_lawful_insert [OF query.solidity_function_laws_axioms])

text \<open>Resuming: what the nested frame left and what was kept back, less the price of the data.\<close>

lemma pass_return_left:
  assumes "pass_return q sp = Ok g" "\<And>d. pr_return_data q = Ok d \<Longrightarrow> rd_ok d"
  shows "left_ok (cross_held (pr_resume q) + unat (pr_gas_left q)) g"
proof -
  obtain d s and x :: usize where d: "pr_return_data q = Ok d" "u_add (pr_gas_left q) (rs_gas_retained (pr_resume q)) = (Ok s :: u256 vm_result)"
      "\<not> s < ucast x" "g = NeedsReturn (s - ucast x) d (pr_apply_state q)"
    using assms(1) by (auto simp: pass_return_def rbind_Ok_iff Let_def split: if_splits)
  then show ?thesis
    using assms(2) by (auto simp: u_add_Ok_iff left_ok_def cross_held_def unat_add_no_overflow unat_sub_le not_less)
qed

lemma pass_exec_gives:
  assumes "\<And>d. pr_return_data q = Ok d \<Longrightarrow> rd_ok d"
  shows "gives B c (pass_exec B q) (left_ok (cross_held (pr_resume q) + unat (pr_gas_left q)))"
  unfolding pass_exec_def
  by (intro gives_local gives_then gives_if gives_basic gives_mono [OF gives_event] pass_return_left assms) (simp_all add: assms)

lemma encoded_return_data_ok: "encoded_return_data r = Ok d \<Longrightarrow> rd_ok d"
  by (auto simp: encoded_return_data_def encoded_def rbind_Ok_iff rd_ok_def rd_new_def split: res.splits if_splits)

lemma cross_space_resume_gives:
  assumes "answer_fits res"
  shows "gives B c (cross_space_resume B r res) (left_ok (cross_held r + answer_gas res))"
proof -
  have "(\<forall>d. pr_return_data q = Ok d \<longrightarrow> rd_ok d) \<and> pr_resume q = r \<and> unat (pr_gas_left q) = answer_gas res"
    if "(case res of Inl m \<Rightarrow> cross_resume_call r m | Inr k \<Rightarrow> cross_resume_create r k) = Ok q" for q
    using that assms
    by (auto simp: cross_resume_call_def cross_resume_create_def rbind_Ok_iff answer_fits_def answer_gas_def encoded_return_data_ok
        split: sum.splits message_call_result.splits contract_create_result.splits)
  then show ?thesis
    unfolding cross_space_resume_def by (intro gives_elift) (metis pass_exec_gives)
qed

lemma internal_map_lawful:
  assumes "list_all (\<lambda>sc. \<exists>t. ic_execute (sc_contract sc) = contract_execute t \<and> table_lawful B held t) contracts"
    and "im_builtin (internal_contract_map_new contracts early tn) a = Some ic"
  shows "\<exists>t. ic_execute ic = contract_execute t \<and> table_lawful B held t"
proof -
  have "im_builtin (fold (map_insert_contract early tn) cs m) a = Some ic \<Longrightarrow> list_all (\<lambda>sc. P (sc_contract sc)) cs \<Longrightarrow>
      (\<And>b k. im_builtin m b = Some k \<Longrightarrow> P k) \<Longrightarrow> P ic" for cs m P
  proof (induction cs arbitrary: m)
    case (Cons sc cs)
    then show ?case
      by (auto intro!: Cons.IH [of "map_insert_contract early tn sc m"] simp: map_insert_contract_def Let_def split: if_splits)
  qed auto
  from this [of "rev contracts" "\<lparr>im_builtin = Map.empty, im_activation_info = Map.empty\<rparr>" "\<lambda>ic. \<exists>t. ic_execute ic = contract_execute t \<and> table_lawful B held t"] assms
  show ?thesis by (simp add: internal_contract_map_new_def)
qed

lemma all_internal_lawful:
  "list_all (\<lambda>sc. \<exists>t. ic_execute (sc_contract sc) = contract_execute t \<and> table_lawful B cross_held t) (all_internal_contracts B)"
  using cross_space_lawful context_lawful table_lawful_empty
  by (fastforce simp: all_internal_contracts_def make_solidity_contract_def placeholder_def)

end
