(* ===== verification/Keys.thy ===== *)
theory Keys
  imports Rlp
begin

text \<open>
  Signatures and key pairs (utils/cfxkey: signature.rs, keypair.rs, error.rs).  The crate
  secp256k1 is a parameter; its keys and signatures are opaque byte strings, and its documented laws
  are the predicate \<open>secp_laws\<close>.  A public key is its 64 bytes, a signature the 65 bytes of r, s and v.
\<close>

section \<open>Errors and the crate\<close>

datatype key_error = InvalidSecret | InvalidPublic | InvalidAddress | InvalidSignature | InvalidMessage | KeyIo string | KeyCustom string

datatype secp_error = SecpInvalidMessage | SecpInvalidPublicKey | SecpInvalidSecretKey | SecpIncorrectSignature | SecpOther

record secp_ops =
  secret_key_from_slice :: "bytes \<Rightarrow> secp_error + bytes"
  public_key_from_slice :: "bytes \<Rightarrow> secp_error + bytes"
  public_key_from_secret_key :: "bytes \<Rightarrow> secp_error + bytes"
  serialize_uncompressed :: "bytes \<Rightarrow> bytes"
  recovery_id_from_i32 :: "byte \<Rightarrow> secp_error + byte"
  recoverable_from_compact :: "bytes \<Rightarrow> byte \<Rightarrow> secp_error + bytes"
  serialize_compact :: "bytes \<Rightarrow> byte \<times> bytes"
  to_standard :: "bytes \<Rightarrow> bytes"
  sign_recoverable :: "h256 \<Rightarrow> bytes \<Rightarrow> secp_error + bytes"
  secp_recover :: "h256 \<Rightarrow> bytes \<Rightarrow> secp_error + bytes"
  secp_verify :: "h256 \<Rightarrow> bytes \<Rightarrow> bytes \<Rightarrow> secp_error + unit"

fun from_secp_error :: "secp_error \<Rightarrow> key_error" where
  "from_secp_error SecpInvalidMessage = InvalidMessage"
| "from_secp_error SecpInvalidPublicKey = InvalidPublic"
| "from_secp_error SecpInvalidSecretKey = InvalidSecret"
| "from_secp_error _ = InvalidSignature"

definition from_secp :: "secp_error + 'a \<Rightarrow> (key_error, 'a) res" where
  "from_secp r = (case r of Inl e \<Rightarrow> Err (from_secp_error e) | Inr a \<Rightarrow> Ok a)"

section \<open>Signatures\<close>

definition sig_r :: "bytes \<Rightarrow> bytes" where
  "sig_r sig = take 32 sig"

definition sig_s :: "bytes \<Rightarrow> bytes" where
  "sig_s sig = take 32 (drop 32 sig)"

definition sig_v :: "bytes \<Rightarrow> byte" where
  "sig_v sig = sig ! 64"

definition signature_default :: bytes where
  "signature_default = replicate 65 0"

definition into_electrum :: "bytes \<Rightarrow> ('e, bytes) res" where
  "into_electrum sig = rbind (u_add (sig ! 64) 27) (\<lambda>v. Ok (sig[64 := v]))"

definition from_electrum :: "bytes \<Rightarrow> bytes" where
  "from_electrum d = (if length d \<noteq> 65 \<or> d ! 64 < 27 then signature_default else d[64 := d ! 64 - 27])"

definition from_rsv :: "h256 \<Rightarrow> h256 \<Rightarrow> byte \<Rightarrow> bytes" where
  "from_rsv r s v = to_be 32 r @ to_be 32 s @ [v]"

definition is_low_s :: "bytes \<Rightarrow> bool" where
  "is_low_s sig \<longleftrightarrow> (from_be (sig_s sig) :: h256) \<le> 0x7FFFFFFFFFFFFFFFFFFFFFFFFFFFFFFF5D576E7357A4501DDFE92F46681B20A0"

definition signature_is_valid :: "bytes \<Rightarrow> bool" where
  "signature_is_valid sig =
     (let mask = 0xfffffffffffffffffffffffffffffffebaaedce6af48a03bbfd25e8cd0364141;
          r = (from_be (sig_r sig) :: h256); s = (from_be (sig_s sig) :: h256) in
      sig_v sig \<le> 1 \<and> r < mask \<and> 1 \<le> r \<and> s < mask \<and> 1 \<le> s)"

definition public_to_address :: "(bytes \<Rightarrow> h256) \<Rightarrow> bytes \<Rightarrow> address" where
  "public_to_address K public = from_be (drop 12 (to_be 32 (K public)))"

definition key_sign :: "secp_ops \<Rightarrow> h256 \<Rightarrow> h256 \<Rightarrow> (key_error, bytes) res" where
  "key_sign S secret message =
     rbind (from_secp (secret_key_from_slice S (to_be 32 secret))) (\<lambda>sec.
     rbind (from_secp (sign_recoverable S message sec)) (\<lambda>s.
     case serialize_compact S s of (rec_id, d) \<Rightarrow> Ok (take 64 d @ [rec_id])))"

text \<open>The recoverable signature of the 65 bytes, shared by recovery and verification.\<close>

definition recoverable :: "secp_ops \<Rightarrow> bytes \<Rightarrow> (key_error, bytes) res" where
  "recoverable S sig = rbind (from_secp (recovery_id_from_i32 S (sig ! 64))) (\<lambda>id. from_secp (recoverable_from_compact S (take 64 sig) id))"

definition recover :: "secp_ops \<Rightarrow> bytes \<Rightarrow> h256 \<Rightarrow> (key_error, bytes) res" where
  "recover S sig message =
     rbind (recoverable S sig) (\<lambda>rsig. rbind (from_secp (secp_recover S message rsig)) (\<lambda>pubkey.
     Ok (take 64 (drop 1 (serialize_uncompressed S pubkey)))))"

definition verify_public :: "secp_ops \<Rightarrow> bytes \<Rightarrow> bytes \<Rightarrow> h256 \<Rightarrow> (key_error, bool) res" where
  "verify_public S public sig message =
     rbind (recoverable S sig) (\<lambda>rsig. rbind (from_secp (public_key_from_slice S (4 # public))) (\<lambda>publ.
     case secp_verify S message (to_standard S rsig) publ of
       Inr _ \<Rightarrow> Ok True
     | Inl SecpIncorrectSignature \<Rightarrow> Ok False
     | Inl e \<Rightarrow> Err (from_secp_error e)))"

definition verify_address :: "secp_ops \<Rightarrow> (bytes \<Rightarrow> h256) \<Rightarrow> address \<Rightarrow> bytes \<Rightarrow> h256 \<Rightarrow> (key_error, bool) res" where
  "verify_address S K a sig message = rbind (recover S sig message) (\<lambda>public. Ok (a = public_to_address K public))"

section \<open>Key pairs\<close>

record key_pair =
  kp_secret :: h256
  kp_public :: bytes

definition from_secret :: "secp_ops \<Rightarrow> h256 \<Rightarrow> (key_error, key_pair) res" where
  "from_secret S secret =
     rbind (from_secp (secret_key_from_slice S (to_be 32 secret))) (\<lambda>s.
     rbind (from_secp (public_key_from_secret_key S s)) (\<lambda>pub_key.
     Ok \<lparr>kp_secret = secret, kp_public = take 64 (drop 1 (serialize_uncompressed S pub_key))\<rparr>))"

definition kp_address :: "(bytes \<Rightarrow> h256) \<Rightarrow> key_pair \<Rightarrow> address" where
  "kp_address K kp = public_to_address K (kp_public kp)"

section \<open>Laws\<close>

text \<open>
  What the crate documents: a valid secret key signs every message, and the signature survives its compact form, recovers the public key
  of the secret key and verifies under it; an uncompressed public key is 65 bytes that start with 4 and reads back.
\<close>

definition secp_laws :: "secp_ops \<Rightarrow> bool" where
  "secp_laws S \<longleftrightarrow> (\<forall>d sk m. secret_key_from_slice S d = Inr sk \<longrightarrow>
     (\<exists>sig pk v c. sign_recoverable S m sk = Inr sig \<and> public_key_from_secret_key S sk = Inr pk \<and> serialize_compact S sig = (v, c) \<and>
        length c = 64 \<and> recovery_id_from_i32 S v = Inr v \<and> recoverable_from_compact S c v = Inr sig \<and>
        secp_recover S m sig = Inr pk \<and> secp_verify S m (to_standard S sig) pk = Inr () \<and>
        length (serialize_uncompressed S pk) = 65 \<and> hd (serialize_uncompressed S pk) = 4 \<and>
        public_key_from_slice S (serialize_uncompressed S pk) = Inr pk))"

lemma recover_no_panic [simp]: "recover S sig m \<noteq> Panic" "verify_public S p sig m \<noteq> Panic"
  by (auto simp: recover_def verify_public_def recoverable_def from_secp_def rbind_Panic_iff split: sum.splits secp_error.splits)

text \<open>A signature names its key: it recovers the public key of the pair and verifies under it.\<close>

lemma sign_gives:
  assumes S: "secp_laws S" and kp: "from_secret S secret = Ok kp"
  shows "\<exists>sig. key_sign S secret m = Ok sig \<and> length sig = 65 \<and> length (kp_public kp) = 64 \<and> recover S sig m = Ok (kp_public kp) \<and>
    verify_public S (kp_public kp) sig m = Ok True"
proof -
  obtain sk where sk: "secret_key_from_slice S (to_be 32 secret) = Inr sk"
    using kp by (auto simp: from_secret_def from_secp_def split: sum.splits)
  then obtain sig pk v c where l: "sign_recoverable S m sk = Inr sig" "public_key_from_secret_key S sk = Inr pk" "serialize_compact S sig = (v, c)"
      "length c = 64" "recovery_id_from_i32 S v = Inr v" "recoverable_from_compact S c v = Inr sig" "secp_recover S m sig = Inr pk"
      "secp_verify S m (to_standard S sig) pk = Inr ()" "length (serialize_uncompressed S pk) = 65" "hd (serialize_uncompressed S pk) = 4"
      "public_key_from_slice S (serialize_uncompressed S pk) = Inr pk"
    using S unfolding secp_laws_def by blast
  have "kp_public kp = drop 1 (serialize_uncompressed S pk)" using kp sk l(2,9) by (auto simp: from_secret_def from_secp_def)
  moreover have "4 # drop 1 (serialize_uncompressed S pk) = serialize_uncompressed S pk" using l(9,10) by (cases "serialize_uncompressed S pk") auto
  ultimately show ?thesis
    using sk l by (simp add: key_sign_def recover_def verify_public_def recoverable_def from_secp_def nth_append)
qed

lemma electrum_round_trip: "length sig = 65 \<Longrightarrow> unat (sig ! 64) < 229 \<Longrightarrow> rbind (into_electrum sig) (\<lambda>d. Ok (from_electrum d)) = Ok sig"
proof -
  assume l: "length sig = 65" "unat (sig ! 64) < 229"
  then have "\<not> sig ! 64 + 27 < 27" by (simp add: word_less_nat_alt unat_word_ariths)
  then show ?thesis using l by (simp add: into_electrum_def u_add_def from_electrum_def)
qed

end
