(* ===== verification/Builtins.thy ===== *)
theory Builtins
  imports Call_Context Keys
begin

text \<open>
  The builtin contracts (src/builtin): their prices and what they compute.  The digests, signature
  recovery and curve arithmetic of third-party crates, and \<open>BytesRef::write\<close> on the growing output
  buffer, are parameters.  \<open>BigUint\<close> is a natural number.
\<close>

section \<open>Parameters\<close>

record crypto_ops =
  co_write :: "bytes \<Rightarrow> nat \<Rightarrow> bytes \<Rightarrow> bytes"
  co_sha256 :: "bytes \<Rightarrow> bytes"
  co_ripemd160 :: "bytes \<Rightarrow> bytes"
  co_keccak :: "bytes \<Rightarrow> h256"
  co_secp :: secp_ops

text \<open>The crate \<open>bn\<close>: field elements from 32 bytes, points from coordinates, and their operations.\<close>

record ('fq, 'fr, 'fq2, 'g1, 'g2, 'gt) bn_ops =
  fq_from_slice :: "bytes \<Rightarrow> 'fq option"
  fq_is_zero :: "'fq \<Rightarrow> bool"
  fq_to_big_endian :: "'fq \<Rightarrow> bytes"
  fr_from_slice :: "bytes \<Rightarrow> 'fr option"
  fq2_new :: "'fq \<Rightarrow> 'fq \<Rightarrow> 'fq2"
  fq2_is_zero :: "'fq2 \<Rightarrow> bool"
  g1_zero :: 'g1
  g1_affine :: "'fq \<Rightarrow> 'fq \<Rightarrow> 'g1 option"
  g1_add :: "'g1 \<Rightarrow> 'g1 \<Rightarrow> 'g1"
  g1_mul :: "'g1 \<Rightarrow> 'fr \<Rightarrow> 'g1"
  g1_coordinates :: "'g1 \<Rightarrow> ('fq \<times> 'fq) option"
  g2_zero :: 'g2
  g2_affine :: "'fq2 \<Rightarrow> 'fq2 \<Rightarrow> 'g2 option"
  gt_one :: 'gt
  gt_mul :: "'gt \<Rightarrow> 'gt \<Rightarrow> 'gt"
  bn_pairing :: "'g1 \<Rightarrow> 'g2 \<Rightarrow> 'gt"

section \<open>Reading input\<close>

text \<open>\<open>read_exact\<close> on input that is extended with zeros: what was read and what is left.\<close>

definition read_exact :: "nat \<Rightarrow> bytes \<Rightarrow> bytes \<times> bytes" where
  "read_exact n r = (take n r @ replicate (n - length r) 0, drop n r)"

definition be_value :: "bytes \<Rightarrow> nat" where
  "be_value bs = foldl (\<lambda>acc b. acc * 256 + unat b) 0 bs"

fun be_digits :: "nat \<Rightarrow> bytes" where
  "be_digits n = (if n = 0 then [] else be_digits (n div 256) @ [of_nat (n mod 256)])"

declare be_digits.simps [simp del]

definition to_bytes_be :: "nat \<Rightarrow> bytes" where
  "to_bytes_be n = (if n = 0 then [0] else be_digits n)"

section \<open>Prices\<close>

definition linear_cost :: "usize \<Rightarrow> usize \<Rightarrow> bytes \<Rightarrow> u256 vm_result" where
  "linear_cost base word input = rbind (u_mul (ucast word) (of_nat ((length input + 31) div 32))) (\<lambda>x. u_add (ucast base) x)"

definition pairing_cost :: "usize \<Rightarrow> usize \<Rightarrow> bytes \<Rightarrow> u256 vm_result" where
  "pairing_cost base pair input = rbind (u_mul (ucast pair) (of_nat (length input div 192))) (\<lambda>x. u_add (ucast base) x)"

definition adjusted_exp_len :: "u64 \<Rightarrow> u256 \<Rightarrow> u64 vm_result" where
  "adjusted_exp_len len exp_low =
     (let bit_index = (if exp_low = 0 then 0 else of_nat (bits exp_low - 1)) in
      if len \<le> 32 then Ok bit_index
      else rbind (u_sub len 32) (\<lambda>x. rbind (u_mul 8 x) (\<lambda>x. u_add x bit_index)))"

definition mult_complexity :: "u64 \<Rightarrow> u64 vm_result" where
  "mult_complexity x = rbind (u_mul x x) (\<lambda>xx.
     if x \<le> 64 then Ok xx
     else if x \<le> 1024 then rbind (u_mul 96 x) (\<lambda>y. rbind (u_add (xx div 4) y) (\<lambda>z. u_sub z 3072))
     else rbind (u_mul 480 x) (\<lambda>y. rbind (u_add (xx div 16) y) (\<lambda>z. u_sub z 199680)))"

definition MAX_MODEXP_LEN :: u256 where
  "MAX_MODEXP_LEN = 2147483647"

definition modexp_cost :: "usize \<Rightarrow> bytes \<Rightarrow> u256 vm_result" where
  "modexp_cost divisor input =
     (let (b, r1) = read_exact 32 input; (e, r2) = read_exact 32 r1; (m, _) = read_exact 32 r2;
          base_len = (from_be b :: u256); exp_len = (from_be e :: u256); mod_len = (from_be m :: u256) in
      if mod_len = 0 \<and> base_len = 0 then Ok 0
      else if MAX_MODEXP_LEN < base_len \<or> MAX_MODEXP_LEN < mod_len \<or> MAX_MODEXP_LEN < exp_len then Ok (- 1)
      else
        let base_len = low_u64 base_len; exp_len = low_u64 exp_len; mod_len = low_u64 mod_len; m = max mod_len base_len in
        rbind (u_add base_len 96) (\<lambda>start.
        let exp_low = (if length input \<le> unat start then 0
          else from_be (fst (read_exact (min (unat exp_len) 32) (drop (unat start) input)))) in
        rbind (adjusted_exp_len exp_len exp_low) (\<lambda>adjusted.
        rbind (mult_complexity m) (\<lambda>complexity.
        case overflowing_mul complexity (max adjusted 1) of (gas, overflow) \<Rightarrow>
          if overflow then Ok (- 1)
          else if divisor = 0 then Panic else Ok (ucast (gas div divisor))))))"

definition blake2f_cost :: "u64 \<Rightarrow> bytes \<Rightarrow> u256 vm_result" where
  "blake2f_cost gas_per_round input =
     (if length input < 4 then Ok 0
      else rbind (u_mul gas_per_round (ucast (from_be (take 4 input) :: u32))) (\<lambda>x. Ok (ucast x)))"

section \<open>Digests and signatures\<close>

definition identity_execute :: "crypto_ops \<Rightarrow> bytes \<Rightarrow> bytes vm_result" where
  "identity_execute C input = Ok (co_write C [] 0 input)"

definition recovery_bit :: "bytes \<Rightarrow> byte option" where
  "recovery_bit v =
     (if take 31 v = replicate 31 0 \<and> v ! 31 \<in> {0, 1} then Some (v ! 31)
      else if take 31 v = replicate 31 0 \<and> v ! 31 \<in> {27, 28} then Some (v ! 31 - 27)
      else None)"

definition ecrecover_execute :: "crypto_ops \<Rightarrow> bytes \<Rightarrow> bytes vm_result" where
  "ecrecover_execute C i =
     (let input = fst (read_exact 128 i); hash = (from_be (take 32 input) :: h256); v = take 32 (drop 32 input);
          r = (from_be (take 32 (drop 64 input)) :: h256); s = (from_be (drop 96 input) :: h256) in
      case recovery_bit v of
        None \<Rightarrow> Ok []
      | Some rec \<Rightarrow>
          let sig = from_rsv r s rec in
          if signature_is_valid sig then
            (case recover (co_secp C) sig hash of
               Ok p \<Rightarrow> Ok (co_write C (co_write C [] 0 (replicate 12 0)) 12 (to_be 20 (public_to_address (co_keccak C) p)))
             | Err e \<Rightarrow> Ok []
             | Panic \<Rightarrow> Panic)
          else Ok [])"

definition sha256_execute :: "crypto_ops \<Rightarrow> bytes \<Rightarrow> bytes vm_result" where
  "sha256_execute C input = Ok (co_write C [] 0 (co_sha256 C input))"

definition ripemd160_execute :: "crypto_ops \<Rightarrow> bytes \<Rightarrow> bytes vm_result" where
  "ripemd160_execute C input = Ok (co_write C (co_write C [] 0 (replicate 12 0)) 12 (co_ripemd160 C input))"

section \<open>Modular exponentiation\<close>

text \<open>One byte of the exponent, from its highest bit.\<close>

definition modexp_digit :: "nat \<Rightarrow> nat \<Rightarrow> byte \<Rightarrow> nat \<Rightarrow> nat" where
  "modexp_digit base modulus digit result =
     fold (\<lambda>i result. let result = result * result mod modulus in if bit digit i then result * base mod modulus else result)
       (rev [0..<8]) result"

definition modexp :: "nat \<Rightarrow> bytes \<Rightarrow> nat \<Rightarrow> nat" where
  "modexp base exp modulus =
     (if modulus \<le> 1 then 0
      else let exp = dropWhile (\<lambda>d. d = 0) exp in
      if exp = [] then 1
      else if base = 0 then 0
      else let base = base mod modulus in
      if base = 0 then 0
      else fold (modexp_digit base modulus) exp 1)"

text \<open>The lengths as \<open>execute\<close> reads them: the low 64 bits.\<close>

definition modexp_lengths :: "bytes \<Rightarrow> nat \<times> nat \<times> nat \<times> bytes" where
  "modexp_lengths input =
     (let (b, r1) = read_exact 32 input; (e, r2) = read_exact 32 r1; (m, r3) = read_exact 32 r2 in
      (unat (from_be (drop 24 b) :: u64), unat (from_be (drop 24 e) :: u64), unat (from_be (drop 24 m) :: u64), r3))"

text \<open>A vector of 2^63 bytes and more cannot be allocated.\<close>

definition modexp_execute :: "crypto_ops \<Rightarrow> bytes \<Rightarrow> bytes vm_result" where
  "modexp_execute C input = (case modexp_lengths input of (base_len, exp_len, mod_len, reader) \<Rightarrow>
     rbind (if base_len = 0 \<and> mod_len = 0 then Ok 0
       else if 2 ^ 63 \<le> max mod_len (max base_len exp_len) then Panic
       else
         let (b, r1) = read_exact base_len reader; (e, r2) = read_exact exp_len r1; (m, _) = read_exact mod_len r2 in
         Ok (modexp (be_value b) e (be_value m))) (\<lambda>r.
     let bs = to_bytes_be r in
     if length bs \<le> mod_len then Ok (co_write C [] (mod_len - length bs) bs) else Ok []))"

section \<open>The curve bn128\<close>

definition or_builtin_error :: "'a option \<Rightarrow> string \<Rightarrow> 'a vm_result" where
  "or_builtin_error x msg = (case x of Some a \<Rightarrow> Ok a | None \<Rightarrow> Err (BuiltIn msg))"

definition read_fr :: "('fq, 'fr, 'fq2, 'g1, 'g2, 'gt) bn_ops \<Rightarrow> bytes \<Rightarrow> ('fr \<times> bytes) vm_result" where
  "read_fr N reader = (case read_exact 32 reader of (buf, r) \<Rightarrow>
     rbind (or_builtin_error (fr_from_slice N buf) ''Invalid field element'') (\<lambda>x. Ok (x, r)))"

definition read_point :: "('fq, 'fr, 'fq2, 'g1, 'g2, 'gt) bn_ops \<Rightarrow> bytes \<Rightarrow> ('g1 \<times> bytes) vm_result" where
  "read_point N reader = (case read_exact 32 reader of (bx, r1) \<Rightarrow>
     rbind (or_builtin_error (fq_from_slice N bx) ''Invalid point x coordinate'') (\<lambda>px.
     case read_exact 32 r1 of (by_, r2) \<Rightarrow>
     rbind (or_builtin_error (fq_from_slice N by_) ''Invalid point y coordinate'') (\<lambda>py.
     if fq_is_zero N px \<and> fq_is_zero N py then Ok (g1_zero N, r2)
     else rbind (or_builtin_error (g1_affine N px py) ''Invalid curve point'') (\<lambda>p. Ok (p, r2)))))"

text \<open>The coordinates of a point, or zeros for the point at infinity.\<close>

definition point_bytes :: "('fq, 'fr, 'fq2, 'g1, 'g2, 'gt) bn_ops \<Rightarrow> 'g1 \<Rightarrow> bytes" where
  "point_bytes N p = (case g1_coordinates N p of
     Some (x, y) \<Rightarrow> fq_to_big_endian N x @ fq_to_big_endian N y
   | None \<Rightarrow> replicate 64 0)"

definition bn128_add_execute :: "crypto_ops \<Rightarrow> ('fq, 'fr, 'fq2, 'g1, 'g2, 'gt) bn_ops \<Rightarrow> bytes \<Rightarrow> bytes vm_result" where
  "bn128_add_execute C N input =
     rbind (read_point N input) (\<lambda>(p1, r). rbind (read_point N r) (\<lambda>(p2, _). Ok (co_write C [] 0 (point_bytes N (g1_add N p1 p2)))))"

definition bn128_mul_execute :: "crypto_ops \<Rightarrow> ('fq, 'fr, 'fq2, 'g1, 'g2, 'gt) bn_ops \<Rightarrow> bytes \<Rightarrow> bytes vm_result" where
  "bn128_mul_execute C N input =
     rbind (read_point N input) (\<lambda>(p, r). rbind (read_fr N r) (\<lambda>(fr, _). Ok (co_write C [] 0 (point_bytes N (g1_mul N p fr)))))"

definition pairing_element :: "('fq, 'fr, 'fq2, 'g1, 'g2, 'gt) bn_ops \<Rightarrow> bytes \<Rightarrow> ('g1 \<times> 'g2) vm_result" where
  "pairing_element N d =
     (let coordinate = (\<lambda>k. fq_from_slice N (take 32 (drop (32 * k) d))) in
      rbind (or_builtin_error (coordinate 0) ''Invalid a argument x coordinate'') (\<lambda>a_x.
      rbind (or_builtin_error (coordinate 1) ''Invalid a argument y coordinate'') (\<lambda>a_y.
      rbind (or_builtin_error (coordinate 2) ''Invalid b argument imaginary coeff x coordinate'') (\<lambda>b_a_y.
      rbind (or_builtin_error (coordinate 3) ''Invalid b argument imaginary coeff y coordinate'') (\<lambda>b_a_x.
      rbind (or_builtin_error (coordinate 4) ''Invalid b argument real coeff x coordinate'') (\<lambda>b_b_y.
      rbind (or_builtin_error (coordinate 5) ''Invalid b argument real coeff y coordinate'') (\<lambda>b_b_x.
      let b_a = fq2_new N b_a_x b_a_y; b_b = fq2_new N b_b_x b_b_y in
      rbind (if fq2_is_zero N b_a \<and> fq2_is_zero N b_b then Ok (g2_zero N)
        else or_builtin_error (g2_affine N b_a b_b) ''Invalid b argument - not on curve'') (\<lambda>b.
      rbind (if fq_is_zero N a_x \<and> fq_is_zero N a_y then Ok (g1_zero N)
        else or_builtin_error (g1_affine N a_x a_y) ''Invalid a argument - not on curve'') (\<lambda>a.
      Ok (a, b))))))))))"

fun pairing_elements :: "('fq, 'fr, 'fq2, 'g1, 'g2, 'gt) bn_ops \<Rightarrow> nat \<Rightarrow> bytes \<Rightarrow> ('g1 \<times> 'g2) list vm_result" where
  "pairing_elements N 0 d = Ok []"
| "pairing_elements N (Suc n) d = rbind (pairing_element N (take 192 d)) (\<lambda>x. rbind (pairing_elements N n (drop 192 d)) (\<lambda>xs. Ok (x # xs)))"

definition bn128_pairing_execute :: "crypto_ops \<Rightarrow> ('fq, 'fr, 'fq2, 'g1, 'g2, 'gt) bn_ops \<Rightarrow> bytes \<Rightarrow> bytes vm_result" where
  "bn128_pairing_execute C N input =
     (if length input mod 192 \<noteq> 0 then Err (BuiltIn ''Invalid input length, must be multiple of 192 (3 * (32*2))'')
      else rbind (if input = [] then Ok (1 :: u256)
        else rbind (pairing_elements N (length input div 192) input) (\<lambda>vals.
          Ok (if fold (\<lambda>(a, b) s. gt_mul N s (bn_pairing N a b)) vals (gt_one N) = gt_one N then 1 else 0)))
      (\<lambda>ret_val. Ok (co_write C [] 0 (to_be 32 ret_val))))"

end
