(* ===== verification/Blake2f.thy ===== *)
theory Blake2f
  imports Builtins
begin

text \<open>
  The compression function of BLAKE2b (src/builtin/blake2f.rs) and the builtin contract on top of
  it.  Every index is in range by construction of the tables.
\<close>

definition BLAKE_SIGMA :: "nat list list" where
  "BLAKE_SIGMA =
    [[0, 1, 2, 3, 4, 5, 6, 7, 8, 9, 10, 11, 12, 13, 14, 15],
     [14, 10, 4, 8, 9, 15, 13, 6, 1, 12, 0, 2, 11, 7, 5, 3],
     [11, 8, 12, 0, 5, 2, 15, 13, 10, 14, 3, 6, 7, 1, 9, 4],
     [7, 9, 3, 1, 13, 12, 11, 14, 2, 6, 5, 10, 4, 0, 15, 8],
     [9, 0, 5, 7, 2, 4, 10, 15, 14, 1, 11, 12, 6, 8, 3, 13],
     [2, 12, 6, 10, 0, 11, 8, 3, 4, 13, 7, 5, 15, 14, 1, 9],
     [12, 5, 1, 15, 14, 13, 4, 10, 0, 7, 6, 3, 9, 2, 8, 11],
     [13, 11, 7, 14, 12, 1, 3, 9, 5, 0, 15, 4, 8, 6, 2, 10],
     [6, 15, 14, 9, 11, 3, 0, 8, 12, 2, 13, 7, 1, 4, 10, 5],
     [10, 2, 8, 4, 7, 6, 1, 5, 15, 11, 9, 14, 3, 12, 13, 0]]"

definition BLAKE_IV :: "u64 list" where
  "BLAKE_IV = [0x6a09e667f3bcc908, 0xbb67ae8584caa73b, 0x3c6ef372fe94f82b, 0xa54ff53a5f1d36f1,
         0x510e527fade682d1, 0x9b05688c2b3e6c1f, 0x1f83d9abfb41bd6b, 0x5be0cd19137e2179]"

unbundle bit_operations_syntax

text \<open>The mixing function, one assignment after the other.\<close>

definition blake_g :: "nat \<Rightarrow> nat \<Rightarrow> nat \<Rightarrow> nat \<Rightarrow> u64 \<Rightarrow> u64 \<Rightarrow> u64 list \<Rightarrow> u64 list" where
  "blake_g a b c d x y v =
     (let v = v[a := v ! a + v ! b + x];
          v = v[d := word_rotr 32 (v ! d XOR v ! a)];
          v = v[c := v ! c + v ! d];
          v = v[b := word_rotr 24 (v ! b XOR v ! c)];
          v = v[a := v ! a + v ! b + y];
          v = v[d := word_rotr 16 (v ! d XOR v ! a)];
          v = v[c := v ! c + v ! d]
      in v[b := word_rotr 63 (v ! b XOR v ! c)])"

definition blake_round :: "u64 list \<Rightarrow> nat list \<Rightarrow> u64 list \<Rightarrow> u64 list" where
  "blake_round m s v =
     (let v = blake_g 0 4 8 12 (m ! (s ! 0)) (m ! (s ! 1)) v;
          v = blake_g 1 5 9 13 (m ! (s ! 2)) (m ! (s ! 3)) v;
          v = blake_g 2 6 10 14 (m ! (s ! 4)) (m ! (s ! 5)) v;
          v = blake_g 3 7 11 15 (m ! (s ! 6)) (m ! (s ! 7)) v;
          v = blake_g 0 5 10 15 (m ! (s ! 8)) (m ! (s ! 9)) v;
          v = blake_g 1 6 11 12 (m ! (s ! 10)) (m ! (s ! 11)) v;
          v = blake_g 2 7 8 13 (m ! (s ! 12)) (m ! (s ! 13)) v
      in blake_g 3 4 9 14 (m ! (s ! 14)) (m ! (s ! 15)) v)"

definition blake_init :: "u64 list \<Rightarrow> u64 \<times> u64 \<Rightarrow> bool \<Rightarrow> u64 list" where
  "blake_init h t f =
     (let v = h @ BLAKE_IV; v = v[12 := v ! 12 XOR fst t]; v = v[13 := v ! 13 XOR snd t]
      in if f then v[14 := NOT (v ! 14)] else v)"

definition compress :: "u64 list \<Rightarrow> u64 list \<Rightarrow> u64 \<times> u64 \<Rightarrow> bool \<Rightarrow> nat \<Rightarrow> u64 list" where
  "compress h m t f rounds =
     (let v = fold (\<lambda>i v. blake_round m (BLAKE_SIGMA ! (i mod 10)) v) [0..<rounds] (blake_init h t f)
      in map (\<lambda>i. h ! i XOR (v ! i XOR v ! (i + 8))) [0..<8])"

definition read_u64_le :: "bytes \<Rightarrow> u64" where
  "read_u64_le bs = from_be (rev bs)"

definition read_words :: "nat \<Rightarrow> bytes \<Rightarrow> u64 list" where
  "read_words n bs = map (\<lambda>i. read_u64_le (take 8 (drop (8 * i) bs))) [0..<n]"

definition blake2f_execute :: "crypto_ops \<Rightarrow> bytes \<Rightarrow> bytes vm_result" where
  "blake2f_execute C input =
     (if length input \<noteq> 213 then Err (BuiltIn ''input length for Blake2 F precompile should be exactly 213 bytes'')
      else
        let rounds = (from_be (take 4 input) :: u32); h = read_words 8 (drop 4 input); m = read_words 16 (drop 68 input);
            t = (read_u64_le (take 8 (drop 196 input)), read_u64_le (take 8 (drop 204 input))) in
        rbind (if last input = 1 then Ok True else if last input = 0 then Ok False
          else Err (BuiltIn ''incorrect final block indicator flag'')) (\<lambda>f.
        Ok (co_write C [] 0 (concat (map (\<lambda>w. rev (to_be 8 w)) (compress h m t f (unat rounds)))))))"

end
