(* ===== verification/Builtin_Laws.thy ===== *)
theory Builtin_Laws
  imports Blake2f
begin

text \<open>
  What the builtin contracts compute: modular exponentiation is the power, its price bounds the
  lengths it works on, and the rounds of BLAKE2b are bijections on the working vector.
\<close>

unbundle bit_operations_syntax

section \<open>The rounds of BLAKE2b\<close>

text \<open>Injective maps of vectors that keep the length; each assignment of the mixing function is one.\<close>

definition endo :: "nat \<Rightarrow> (u64 list \<Rightarrow> u64 list) \<Rightarrow> bool" where
  "endo n f \<longleftrightarrow> inj_on f {v. length v = n} \<and> (\<forall>v. length v = n \<longrightarrow> length (f v) = n)"

lemma endo_comp: "endo n f \<Longrightarrow> endo n g \<Longrightarrow> endo n (\<lambda>v. f (g v))"
  unfolding endo_def inj_on_def by blast

lemma endo_Let: "endo n u \<Longrightarrow> endo n g \<Longrightarrow> endo n (\<lambda>v. Let (u v) g)"
  unfolding Let_def by (rule endo_comp)

lemma endo_update:
  assumes ij: "i < n" "j < n" "i \<noteq> j" and F: "\<And>z. inj (\<lambda>x. F x z)"
  shows "endo n (\<lambda>v. v[i := F (v ! i) (v ! j)])"
  unfolding endo_def
proof
  show "inj_on (\<lambda>v. v[i := F (v ! i) (v ! j)]) {v. length v = n}"
  proof (rule inj_onI)
    fix v w :: "u64 list"
    assume len: "v \<in> {v. length v = n}" "w \<in> {v. length v = n}" and eq: "v[i := F (v ! i) (v ! j)] = w[i := F (w ! i) (w ! j)]"
    have other: "v ! k = w ! k" if "k \<noteq> i" for k using arg_cong [OF eq, of "\<lambda>l. l ! k"] that by simp
    have "F (v ! i) (v ! j) = F (w ! i) (w ! j)" using arg_cong [OF eq, of "\<lambda>l. l ! i"] ij(1) len by simp
    then have "v ! i = w ! i" using other [OF ij(3) [symmetric]] injD [OF F] by metis
    with other show "v = w" by (intro nth_equalityI) (use len in auto, metis)
  qed
qed simp

lemma rotr_cancel: "word_rotr n x = word_rotr n y \<longleftrightarrow> x = (y :: 'a::len word)"
  by (metis word_rot_gal)

lemma xor_cancel: "x XOR z = y XOR z \<longleftrightarrow> x = (y :: 'a::len word)"
  by (metis xor.assoc xor_self_eq xor.right_neutral)

lemma endo_blake_g:
  assumes "distinct [a, b, c, d]" "{a, b, c, d} \<subseteq> {..<n}"
  shows "endo n (blake_g a b c d x y)"
proof -
  have add2: "endo n (\<lambda>v. v[a := v ! a + v ! b + z])" for z
    using assms by (intro endo_update [where F = "\<lambda>p q. p + q + z"]) (auto intro: injI)
  have rot: "endo n (\<lambda>v. v[d := word_rotr k (v ! d XOR v ! a)])" "endo n (\<lambda>v. v[b := word_rotr k (v ! b XOR v ! c)])" for k
    using assms by (intro endo_update [where F = "\<lambda>p q. word_rotr k (p XOR q)"]; auto intro!: injI simp: rotr_cancel xor_cancel)+
  have add: "endo n (\<lambda>v. v[c := v ! c + v ! d])"
    using assms by (intro endo_update [where F = "\<lambda>p q. p + q"]) (auto intro: injI)
  show ?thesis unfolding blake_g_def by (intro endo_Let add2 rot add)
qed

lemma endo_round: "endo 16 (blake_round m s)"
  unfolding blake_round_def by (intro endo_Let endo_blake_g) auto

lemma endo_fold: "(\<And>i. endo n (f i)) \<Longrightarrow> endo n (fold f is)"
proof (induction "is")
  case Nil
  then show ?case by (simp add: endo_def)
next
  case (Cons i "is")
  then show ?case using endo_comp [of n "fold f is" "f i"] by (simp add: comp_def)
qed

lemma endo_bij: "endo n f \<Longrightarrow> bij_betw f {v. length v = n} {v. length v = n}"
proof -
  assume f: "endo n f"
  have "finite {v :: u64 list. length v = n}" using finite_lists_length_eq [of "UNIV :: u64 set" n] by simp
  then have "f ` {v. length v = n} = {v. length v = n}" using f by (intro endo_inj_surj) (auto simp: endo_def)
  with f show ?thesis by (simp add: endo_def bij_betw_def)
qed

section \<open>Modular exponentiation\<close>

text \<open>The value of the bits of a byte that were consumed, from the highest.\<close>

lemma be_value_snoc: "be_value (bs @ [b]) = be_value bs * 256 + unat b"
  by (simp add: be_value_def)

lemma modexp_bits:
  fixes base modulus result :: nat
  assumes "result = base ^ e mod modulus"
  shows "fold (\<lambda>i result. let result = result * result mod modulus in if bit digit i then result * base mod modulus else result) (rev [0..<n]) result =
    base ^ (e * 2 ^ n + take_bit n (unat (digit :: byte))) mod modulus"
  using assms
proof (induction n arbitrary: result e)
  case (Suc n)
  let ?b = "of_bool (bit digit n) :: nat"
  have step: "(let result = result * result mod modulus in if bit digit n then result * base mod modulus else result) = base ^ (2 * e + ?b) mod modulus"
  proof -
    have sq: "base ^ e mod modulus * (base ^ e mod modulus) mod modulus = base ^ (e + e) mod modulus" by (simp add: mod_mult_eq power_add)
    have two: "2 * e = e + e" by simp
    show ?thesis unfolding Suc.prems Let_def sq two by (simp add: mod_mult_left_eq mod_mult_right_eq mult.commute [of base])
  qed
  have tb: "take_bit (Suc n) (unat digit) = 2 ^ n * ?b + take_bit n (unat digit)"
    by (simp add: take_bit_Suc_from_most bit_unsigned_iff)
  show ?case
    using Suc.IH [OF step] by (simp add: tb algebra_simps)
qed simp

lemma modexp_digit_power: "result = base ^ e mod modulus \<Longrightarrow> modexp_digit base modulus digit result = base ^ (e * 256 + unat digit) mod modulus"
proof -
  assume "result = base ^ e mod modulus"
  moreover have "take_bit 8 (unat digit) = unat digit" by (simp add: take_bit_nat_eq_self unat_lt_pow [of digit, simplified])
  ultimately show ?thesis using modexp_bits [of result base e modulus digit 8] by (simp add: modexp_digit_def)
qed

lemma modexp_fold: "result = base ^ e mod modulus \<Longrightarrow>
  fold (modexp_digit base modulus) ds result = base ^ (e * 256 ^ length ds + be_value ds) mod modulus"
proof (induction ds rule: rev_induct)
  case (snoc d ds)
  then have "fold (modexp_digit base modulus) ds result = base ^ (e * 256 ^ length ds + be_value ds) mod modulus" by simp
  from modexp_digit_power [OF this] show ?case by (simp add: be_value_snoc algebra_simps)
qed (simp add: be_value_def)

lemma be_value_dropWhile: "be_value (dropWhile (\<lambda>d. d = 0) bs) = be_value bs"
  by (induction bs) (simp_all add: be_value_def)

lemma be_value_pos: "be_value bs = 0 \<longleftrightarrow> (\<forall>b\<in>set bs. b = 0)"
  by (induction bs rule: rev_induct) (auto simp: be_value_snoc unat_eq_0 be_value_def [of "[]"])

lemma modexp_power: "modexp base exp modulus = (if modulus \<le> 1 then 0 else base ^ be_value exp mod modulus)"
proof (cases "modulus \<le> 1")
  case False
  let ?e = "dropWhile (\<lambda>d. d = 0) exp"
  have v: "be_value exp = be_value ?e" by (simp add: be_value_dropWhile)
  have pos: "?e \<noteq> [] \<Longrightarrow> be_value exp > 0" using be_value_pos [of exp] by (auto simp: dropWhile_eq_Nil_conv)
  have "base ^ be_value exp mod modulus = (base mod modulus) ^ be_value exp mod modulus" by (simp add: power_mod)
  moreover have "fold (modexp_digit (base mod modulus) modulus) ?e 1 = (base mod modulus) ^ be_value exp mod modulus"
    using modexp_fold [of 1 "base mod modulus" 0 modulus ?e] False v by simp
  ultimately have run: "fold (modexp_digit (base mod modulus) modulus) ?e 1 = base ^ be_value exp mod modulus" by simp
  show ?thesis
  proof (cases "?e = []")
    case True
    then have "be_value exp = 0" unfolding v by (simp only: be_value_def foldl_Nil)
    with True False show ?thesis by (simp add: modexp_def)
  next
    case nz: False
    have "base ^ be_value exp mod modulus = 0" if "base mod modulus = 0"
      using that pos [OF nz] by (metis power_mod zero_power mod_0)
    with nz False run show ?thesis by (auto simp: modexp_def Let_def)
  qed
qed (simp add: modexp_def)

lemma be_value_bound: "be_value bs < 256 ^ length bs"
proof (induction bs rule: rev_induct)
  case (snoc b bs)
  have "unat b < 256" using unat_lt_pow [of b] by simp
  with snoc show ?case by (simp add: be_value_snoc)
qed (simp add: be_value_def)

lemma be_value_digits: "be_value (be_digits n) = n"
proof (induction n rule: be_digits.induct)
  case (1 n)
  show ?case
  proof (cases "n = 0")
    case False
    then show ?thesis
      using 1 by (subst be_digits.simps) (simp add: be_value_snoc unat_of_nat)
  qed (simp add: be_digits.simps be_value_def)
qed

lemma length_be_digits: "n < 256 ^ k \<Longrightarrow> length (be_digits n) \<le> k"
proof (induction k arbitrary: n)
  case (Suc k)
  then have "n div 256 < 256 ^ k" by (simp add: less_mult_imp_div_less mult.commute)
  with Suc.IH show ?case by (subst be_digits.simps) simp
qed (simp add: be_digits.simps)

section \<open>Lengths and prices\<close>

lemma length_read_exact [simp]: "length (fst (read_exact n r)) = n"
  by (simp add: read_exact_def)

lemma be_value_append: "be_value (xs @ ys) = be_value xs * 256 ^ length ys + be_value ys"
proof (induction ys rule: rev_induct)
  case (snoc y ys)
  then show ?case using be_value_snoc [of "xs @ ys" y] be_value_snoc [of ys y] by (simp add: algebra_simps)
qed (simp add: be_value_def)

lemma unat_from_be: "unat (from_be bs :: 'a::len word) = be_value bs mod 2 ^ LENGTH('a)"
proof -
  have "from_be bs = (of_nat (be_value bs) :: 'a word)"
  proof (induction bs rule: rev_induct)
    case (snoc b bs)
    have "ucast b = (of_nat (unat b) :: 'a word)" by simp
    with snoc show ?case by (simp add: be_value_snoc from_be_snoc)
  qed (simp add: be_value_def)
  then show ?thesis by (simp add: unat_of_nat)
qed

text \<open>The low 64 bits of a length are the length when it is below 2^64.\<close>

lemma low_64_bits:
  assumes "length bs = 32" "unat (from_be bs :: u256) < 2 ^ 64"
  shows "unat (from_be (drop 24 bs) :: u64) = unat (from_be bs :: u256)"
proof -
  have b: "be_value bs < 256 ^ 32" "be_value (drop 24 bs) < 256 ^ 8"
    using be_value_bound [of bs] be_value_bound [of "drop 24 bs"] assms(1) by simp_all
  then have small: "be_value bs < 2 ^ 64" using assms(2) by (simp add: unat_from_be)
  have "be_value bs = be_value (take 24 bs) * 2 ^ 64 + be_value (drop 24 bs)"
    using be_value_append [of "take 24 bs" "drop 24 bs"] assms(1) by simp
  with small have "be_value bs = be_value (drop 24 bs)" by (cases "be_value (take 24 bs)") simp_all
  with b small show ?thesis by (simp add: unat_from_be)
qed

end
