(* ===== verification/Chain_Params.thy ===== *)
theory Chain_Params
  imports Call_Context
begin

text \<open>
  The parameters of the chain: the chain ids by epoch (utils/internal-common/src/chain_id.rs) with
  their configuration, and the common parameters (src/spec/spec.rs).  The parser of TOML text is a
  third-party crate; its result is given.
\<close>

section \<open>Chain ids\<close>

text \<open>\<open>binary_search(..).unwrap_or_else(|x| x - 1)\<close> on sorted heights; the subtraction panics in front of the first.\<close>

definition height_index :: "u64 list \<Rightarrow> u64 \<Rightarrow> ('e, nat) res" where
  "height_index heights epoch_number =
     (let n = length (takeWhile (\<lambda>h. h \<le> epoch_number) heights) in if n = 0 then Panic else Ok (n - 1))"

definition chain_id_matches :: "chain_id_params \<Rightarrow> chain_id_params \<Rightarrow> u64 \<Rightarrow> ('e, bool) res" where
  "chain_id_matches self other peer_epoch_number =
     (let min_len = min (length (cid_heights self)) (length (cid_heights other)) in
      rbind (slice (cid_heights other) 0 min_len) (\<lambda>oh. rbind (slice (cid_heights self) 0 min_len) (\<lambda>sh.
      rbind (if oh = sh then rbind (slice (cid_chain_ids other) 0 min_len) (\<lambda>oc. rbind (slice (cid_chain_ids self) 0 min_len) (\<lambda>sc. Ok (oc = sc)))
        else Ok False) (\<lambda>sub_array_check.
      if sub_array_check then rbind (height_index (cid_heights self) peer_epoch_number) (\<lambda>index. Ok (index < min_len))
      else Ok False))))"

definition from_deprecated :: "u32 \<Rightarrow> chain_id_params" where
  "from_deprecated chain_id = \<lparr>cid_heights = [0], cid_chain_ids = [chain_id]\<rparr>"

text \<open>What the configuration looks like once it is parsed; other values are of no interest.\<close>

datatype toml = TomlTable "(string \<times> toml) list" | TomlArray "toml list" | TomlInteger int | TomlOther

text \<open>One element of \<open>height_to_chain_ids\<close>.  A pair that does not hold two integers is skipped without an error.\<close>

definition parse_element :: "toml \<Rightarrow> chain_id_params \<times> int set \<Rightarrow> (string, chain_id_params \<times> int set) res" where
  "parse_element element = (\<lambda>(parsed, used_chain_ids). case element of
     TomlArray pair \<Rightarrow>
       if length pair \<noteq> 2 then Err ''Invalid ChainIdParams config format: height_to_chain_ids elements is not [height, chain_id]''
       else (case pair of
         [TomlInteger height, TomlInteger chain_id] \<Rightarrow>
           if height < 0 then Err ''Invalid ChainIdParams config format: height must be positive''
           else if chain_id \<in> used_chain_ids then Err ''Invalid ChainIdParams config format: chain_id must be pairwise different''
           else if chain_id < 0 \<or> 2 ^ 32 - 1 < chain_id then Err ''Invalid ChainIdParams config format: chain_id out of range for u32''
           else Ok (\<lparr>cid_heights = cid_heights parsed @ [of_int height], cid_chain_ids = cid_chain_ids parsed @ [of_int chain_id]\<rparr>,
             insert chain_id used_chain_ids)
       | _ \<Rightarrow> Ok (parsed, used_chain_ids))
   | _ \<Rightarrow> Err ''Invalid ChainIdParams config format: height_to_chain_ids elements is not [height, chain_id]'')"

fun parse_elements :: "toml list \<Rightarrow> chain_id_params \<times> int set \<Rightarrow> (string, chain_id_params \<times> int set) res" where
  "parse_elements [] s = Ok s"
| "parse_elements (x # xs) s = rbind (parse_element x s) (parse_elements xs)"

definition parse_config :: "(string, toml) res \<Rightarrow> (string, chain_id_params) res" where
  "parse_config config = rbind config (\<lambda>v. case v of
     TomlTable table \<Rightarrow> (case map_of table ''height_to_chain_ids'' of
       Some (TomlArray array) \<Rightarrow>
         if array = [] then Err ''Invalid ChainIdParams config format: height_to_chain_ids is empty''
         else rbind (parse_elements array (\<lparr>cid_heights = [], cid_chain_ids = []\<rparr>, {})) (\<lambda>(parsed, _).
           if cid_heights parsed = [] then Panic
           else if hd (cid_heights parsed) \<noteq> 0 then Err ''Invalid ChainIdParams config format: height must start from 0''
           else Ok parsed)
     | Some _ \<Rightarrow> Err ''Invalid ChainIdParams config format: height_to_chain_ids is not an array''
     | None \<Rightarrow> Err ''Invalid ChainIdParams config format: height_to_chain_ids not found'')
   | _ \<Rightarrow> Err ''Invalid ChainIdParams config format: not a table'')"

section \<open>Common parameters\<close>

record transitions_epoch_height =
  th_cip40 :: u64
  th_cip76 :: u64
  th_cip86 :: u64
  th_cip90a :: u64
  th_cip94 :: u64

text \<open>Of the pair of chain ids only the one of the Ethereum space is kept.\<close>

record common_params =
  cp_account_start_nonce :: u256
  cp_maximum_extra_data_size :: usize
  cp_network_id :: u64
  cp_chain_id :: chain_id_params
  cp_min_gas_limit :: u256
  cp_gas_limit_bound_divisor :: u256
  cp_max_transaction_size :: usize
  cp_evm_transaction_gas_ratio :: u64
  cp_early_set_internal_contracts_states :: bool
  cp_transition_numbers :: transitions_block_number
  cp_transition_heights :: transitions_epoch_height

definition common_params_default :: common_params where
  "common_params_default = \<lparr>cp_account_start_nonce = 0, cp_maximum_extra_data_size = 0x20, cp_network_id = 1, cp_chain_id = new_inner 1,
     cp_min_gas_limit = 10000000, cp_gas_limit_bound_divisor = 0x400, cp_max_transaction_size = 300 * 1024, cp_evm_transaction_gas_ratio = 2,
     cp_early_set_internal_contracts_states = False,
     cp_transition_numbers = \<lparr>tn_cip43a = 0, tn_cip43b = 0, tn_cip62 = 0, tn_cip64 = 0, tn_cip71 = 0, tn_cip78a = 0, tn_cip78b = 0,
       tn_cip90b = 0, tn_cip92 = 0, tn_cip94 = 0, tn_cip97 = 0, tn_cip98 = 0, tn_cip105 = 0, tn_cip_sigma_fix = 0\<rparr>,
     cp_transition_heights = \<lparr>th_cip40 = 0, th_cip76 = 0, th_cip86 = 0, th_cip90a = 0, th_cip94 = 0\<rparr>\<rparr>"

definition common_params_spec :: "common_params \<Rightarrow> u64 \<Rightarrow> spec" where
  "common_params_spec p number = new_spec_from_common_params (cp_transition_numbers p) number"

end
