(* ===== verification/Chain_Machine.thy ===== *)
theory Chain_Machine
  imports Blake2f Cross_Space Chain_Params
begin

text \<open>
  The machine of the chain (src/machine.rs): which builtin stands at which address, with which price
  and from which block on, and the internal contracts beside them.
\<close>

datatype builtin_name = Ecrecover | Sha256 | Ripemd160 | Identity | Modexp | AltBn128Add | AltBn128Mul | AltBn128Pairing | Blake2F

definition builtin_factory :: "crypto_ops \<Rightarrow> ('fq, 'fr, 'fq2, 'g1, 'g2, 'gt) bn_ops \<Rightarrow> builtin_name \<Rightarrow> bytes \<Rightarrow> bytes vm_result" where
  "builtin_factory C N name = (case name of
     Identity \<Rightarrow> identity_execute C
   | Ecrecover \<Rightarrow> ecrecover_execute C
   | Sha256 \<Rightarrow> sha256_execute C
   | Ripemd160 \<Rightarrow> ripemd160_execute C
   | Modexp \<Rightarrow> modexp_execute C
   | AltBn128Add \<Rightarrow> bn128_add_execute C N
   | AltBn128Mul \<Rightarrow> bn128_mul_execute C N
   | AltBn128Pairing \<Rightarrow> bn128_pairing_execute C N
   | Blake2F \<Rightarrow> blake2f_execute C)"

definition builtin_new :: "(bytes \<Rightarrow> u256 vm_result) \<Rightarrow> (bytes \<Rightarrow> bytes vm_result) \<Rightarrow> u64 \<Rightarrow> builtin" where
  "builtin_new pricer native activate_at = \<lparr>bi_cost = pricer, bi_execute = native, bi_activate_at = activate_at\<rparr>"

definition new_builtin_map ::
  "crypto_ops \<Rightarrow> ('fq, 'fr, 'fq2, 'g1, 'g2, 'gt) bn_ops \<Rightarrow> transitions_block_number \<Rightarrow> address \<rightharpoonup> builtin" where
  "new_builtin_map C N tn =
    [1 \<mapsto> builtin_new (linear_cost 3000 0) (builtin_factory C N Ecrecover) 0,
     2 \<mapsto> builtin_new (linear_cost 60 12) (builtin_factory C N Sha256) 0,
     3 \<mapsto> builtin_new (linear_cost 600 120) (builtin_factory C N Ripemd160) 0,
     4 \<mapsto> builtin_new (linear_cost 15 3) (builtin_factory C N Identity) 0,
     5 \<mapsto> builtin_new (modexp_cost 20) (builtin_factory C N Modexp) (tn_cip62 tn),
     6 \<mapsto> builtin_new (linear_cost 500 0) (builtin_factory C N AltBn128Add) (tn_cip62 tn),
     7 \<mapsto> builtin_new (linear_cost 40000 0) (builtin_factory C N AltBn128Mul) (tn_cip62 tn),
     8 \<mapsto> builtin_new (pairing_cost 100000 80000) (builtin_factory C N AltBn128Pairing) (tn_cip62 tn),
     9 \<mapsto> builtin_new (blake2f_cost 1) (builtin_factory C N Blake2F) (tn_cip92 tn)]"

text \<open>\<open>Machine::spec\<close>: the rules that were attached, if any, change the cost schedule last.\<close>

definition machine_spec :: "common_params \<Rightarrow> (spec \<Rightarrow> u64 \<Rightarrow> spec) option \<Rightarrow> u64 \<Rightarrow> spec" where
  "machine_spec params spec_rules number =
     (let sp = common_params_spec params number in case spec_rules of Some rules \<Rightarrow> rules sp number | None \<Rightarrow> sp)"

text \<open>Machines without and with builtins.  What resumes an internal contract is its own \<open>Resume\<close>.\<close>

definition new_machine :: "'d backend \<Rightarrow> common_params \<Rightarrow> ('d, cross_resume) machine" where
  "new_machine B params = \<lparr>mc_builtins = Map.empty, mc_internal_contracts = Map.empty, mc_chain_id = cp_chain_id params,
     mc_resume = cross_space_resume B\<rparr>"

definition new_machine_with_builtin ::
  "crypto_ops \<Rightarrow> ('fq, 'fr, 'fq2, 'g1, 'g2, 'gt) bn_ops \<Rightarrow> 'd backend \<Rightarrow> common_params \<Rightarrow> ('d, cross_resume) machine" where
  "new_machine_with_builtin C N B params =
     \<lparr>mc_builtins = new_builtin_map C N (cp_transition_numbers params),
      mc_internal_contracts = im_builtin (internal_contract_map_new (all_internal_contracts B)
        (cp_early_set_internal_contracts_states params) (cp_transition_numbers params)),
      mc_chain_id = cp_chain_id params, mc_resume = cross_space_resume B\<rparr>"

end
