(* ===== verification/Builtin_Properties.thy ===== *)
theory Builtin_Properties
  imports Builtin_Laws Chain_Machine Executor_Properties
begin

text \<open>Properties of the builtin contracts and of the machine of the chain that holds them.\<close>

section \<open>Prices\<close>

lemma mult_complexity_Ok:
  assumes "unat x < 2 ^ 31"
  shows "\<exists>c. mult_complexity x = Ok c"
proof -
  have sq: "unat x * unat x < 2 ^ 62" using mult_strict_mono' [OF assms assms] by simp
  have xx: "u_mul x x = (Ok (x * x) :: (vm_error, _) res)" "unat (x * x) = unat x * unat x"
    using sq by (simp_all add: u_mul_def unat_mult_no_overflow)
  have lin: "u_mul k x = (Ok (k * x) :: (vm_error, _) res)" "unat (k * x) = unat k * unat x" if "unat k \<le> 480" for k :: u64
  proof -
    have "unat k * unat x \<le> 480 * 2 ^ 31" using that assms by (intro mult_mono) simp_all
    then show "u_mul k x = (Ok (k * x) :: (vm_error, _) res)" "unat (k * x) = unat k * unat x"
      by (simp_all add: u_mul_def unat_mult_no_overflow)
  qed
  have step: "\<exists>c. rbind (u_add (x * x div d) (k * x)) (\<lambda>z. u_sub z s) = (Ok c :: (vm_error, _) res)"
    if "unat k \<le> 480" "unat s \<le> unat k * unat x" "d \<noteq> 0" for k d s :: u64
  proof -
    have "unat (x * x div d) \<le> unat x * unat x" using xx(2) by (simp add: unat_div)
    then have sum: "unat (x * x div d) + unat (k * x) < 2 ^ 64"
      using sq lin(2) [OF that(1)] that(1) assms mult_mono [of "unat k" 480 "unat x" "2 ^ 31"] by simp
    then have "s \<le> x * x div d + k * x"
      using that(2) lin(2) [OF that(1)] by (simp add: word_le_nat_alt unat_add_no_overflow)
    with sum show ?thesis by (simp add: u_add_def u_sub_def not_less)
  qed
  consider "x \<le> 64" | "64 < x" "x \<le> 1024" | "1024 < x" by force
  then show ?thesis
  proof cases
    case 2
    then have "unat x > 64" by (simp add: word_less_nat_alt)
    with 2 step [of 96 3072 4] show ?thesis by (simp add: mult_complexity_def xx lin)
  next
    case 3
    then have "unat x > 1024" "\<not> x \<le> 1024" "\<not> x \<le> 64" by (simp_all add: word_less_nat_alt word_le_nat_alt)
    with 3 step [of 480 199680 16] show ?thesis by (simp add: mult_complexity_def xx lin)
  qed (simp add: mult_complexity_def xx)
qed

lemma adjusted_exp_len_Ok:
  assumes "unat len < 2 ^ 31"
  shows "\<exists>c. adjusted_exp_len len e = Ok c"
proof (cases "len \<le> 32")
  case False
  have b: "bits e \<le> 256" by (simp add: bits_def) (metis length_dropWhile_le length_map length_rev length_upt minus_nat.diff_0)
  have s: "unat (len - 32) = unat len - 32" using False by (simp add: unat_sub_le)
  have m: "unat (8 * (len - 32)) = 8 * (unat len - 32)" using assms s by (subst unat_mult_no_overflow) simp_all
  have "unat (of_nat (bits e - 1) :: u64) = bits e - 1" using b by (simp add: unat_of_nat)
  with False assms b s m show ?thesis
    by (auto simp: adjusted_exp_len_def Let_def u_sub_def u_mul_def u_add_def)
qed (simp add: adjusted_exp_len_def Let_def)

lemma modexp_cost_Ok:
  assumes "divisor \<noteq> 0"
  shows "\<exists>c. modexp_cost divisor input = Ok c"
proof -
  obtain b r1 where 1: "read_exact 32 input = (b, r1)" by fastforce
  obtain e r2 where 2: "read_exact 32 r1 = (e, r2)" by fastforce
  obtain m r3 where 3: "read_exact 32 r2 = (m, r3)" by fastforce
  have low: "unat (low_u64 v) < 2 ^ 31" if "\<not> MAX_MODEXP_LEN < v" for v
  proof -
    have "unat v \<le> 2147483647" using that by (simp add: MAX_MODEXP_LEN_def word_less_nat_alt)
    then show ?thesis by (simp add: low_u64_def unsigned_ucast_eq take_bit_nat_eq_self)
  qed
  show ?thesis
  proof (cases "MAX_MODEXP_LEN < (from_be b :: u256) \<or> MAX_MODEXP_LEN < (from_be m :: u256) \<or> MAX_MODEXP_LEN < (from_be e :: u256)")
    case False
    then have l: "unat (low_u64 (from_be b :: u256)) < 2 ^ 31" "unat (low_u64 (from_be m :: u256)) < 2 ^ 31" "unat (low_u64 (from_be e :: u256)) < 2 ^ 31"
      using low by blast+
    then have max: "unat (max (low_u64 (from_be m :: u256)) (low_u64 (from_be b :: u256))) < 2 ^ 31" by (simp add: max_def)
    obtain c where c: "mult_complexity (max (low_u64 (from_be m :: u256)) (low_u64 (from_be b :: u256))) = Ok c"
      using mult_complexity_Ok [OF max] by blast
    obtain adj where adj: "\<And>x. adjusted_exp_len (low_u64 (from_be e :: u256)) x = Ok (adj x)"
      using adjusted_exp_len_Ok [OF l(3)] by metis
    show ?thesis
      using l(1) c adj assms 1 2 3
      by (simp add: modexp_cost_def Let_def u_add_def split: prod.splits)
  qed (simp add: modexp_cost_def Let_def 1 2 3)
qed

text \<open>What is paid for is what is worked on.\<close>

lemma modexp_priced_lengths:
  assumes "modexp_cost divisor input = Ok c" "c \<noteq> - 1" "modexp_lengths input = (base_len, exp_len, mod_len, r)"
  shows "base_len = 0 \<and> mod_len = 0 \<or> base_len < 2 ^ 31 \<and> exp_len < 2 ^ 31 \<and> mod_len < 2 ^ 31"
proof -
  obtain b r1 where 1: "read_exact 32 input = (b, r1)" by fastforce
  obtain e r2 where 2: "read_exact 32 r1 = (e, r2)" by fastforce
  obtain m r3 where 3: "read_exact 32 r2 = (m, r3)" by fastforce
  have len: "length b = 32" "length e = 32" "length m = 32"
    using length_read_exact [of 32 input] length_read_exact [of 32 r1] length_read_exact [of 32 r2] 1 2 3 by simp_all
  have lens: "base_len = unat (from_be (drop 24 b) :: u64)" "exp_len = unat (from_be (drop 24 e) :: u64)" "mod_len = unat (from_be (drop 24 m) :: u64)"
    using assms(3) 1 2 3 by (simp_all add: modexp_lengths_def)
  have low: "unat (from_be (drop 24 x) :: u64) < 2 ^ 31" if "length x = 32" "\<not> MAX_MODEXP_LEN < (from_be x :: u256)" for x
  proof -
    have "unat (from_be x :: u256) \<le> 2147483647" using that(2) by (simp add: MAX_MODEXP_LEN_def word_less_nat_alt)
    then show ?thesis using low_64_bits [OF that(1)] by simp
  qed
  show ?thesis
  proof (cases "(from_be m :: u256) = 0 \<and> (from_be b :: u256) = 0")
    case True
    then have "unat (from_be (drop 24 m) :: u64) = 0" "unat (from_be (drop 24 b) :: u64) = 0"
      using low_64_bits [OF len(3)] low_64_bits [OF len(1)] by simp_all
    then show ?thesis by (simp add: lens)
  next
    case False
    then have "\<not> MAX_MODEXP_LEN < (from_be b :: u256)" "\<not> MAX_MODEXP_LEN < (from_be m :: u256)" "\<not> MAX_MODEXP_LEN < (from_be e :: u256)"
      using assms(1,2) 1 2 3 by (auto simp: modexp_cost_def Let_def split: if_splits)
    then show ?thesis using low len lens by blast
  qed
qed

section \<open>The outputs\<close>

text \<open>What the crates promise: the output buffer grows with zeros up to the offset of a write, digests and coordinates have fixed lengths.\<close>

definition crypto_laws :: "crypto_ops \<Rightarrow> ('fq, 'fr, 'fq2, 'g1, 'g2, 'gt) bn_ops \<Rightarrow> bool" where
  "crypto_laws C N \<longleftrightarrow> (\<forall>out off bs. length out \<le> off \<longrightarrow> co_write C out off bs = out @ replicate (off - length out) 0 @ bs) \<and>
     (\<forall>d. length (co_sha256 C d) = 32) \<and> (\<forall>d. length (co_ripemd160 C d) = 20) \<and> (\<forall>x. length (fq_to_big_endian N x) = 32)"

lemma be_value_zeros: "be_value (replicate k 0 @ bs) = be_value bs"
proof -
  have "be_value (replicate k 0) = 0" using be_value_pos [of "replicate k 0"] by auto
  then show ?thesis by (simp add: be_value_append)
qed

lemma modexp_output:
  assumes w: "crypto_laws C N" and lens: "modexp_lengths input = (base_len, exp_len, mod_len, r)"
    and fit: "base_len = 0 \<and> mod_len = 0 \<or> base_len < 2 ^ 63 \<and> exp_len < 2 ^ 63 \<and> mod_len < 2 ^ 63"
    and nums: "read_exact base_len r = (b, r1)" "read_exact exp_len r1 = (e, r2)" "read_exact mod_len r2 = (m, r3)"
  shows "\<exists>out. modexp_execute C input = Ok out \<and> length out = mod_len \<and> be_value out = modexp (be_value b) e (be_value m)"
proof -
  have lm: "length m = mod_len" using length_read_exact [of mod_len r2] nums(3) by simp
  let ?r = "modexp (be_value b) e (be_value m)" and ?bs = "to_bytes_be (modexp (be_value b) e (be_value m))"
  have small: "?r < max 1 (be_value m)" by (simp add: modexp_power)
  show ?thesis
  proof (cases "mod_len = 0")
    case True
    then have "be_value m = 0" using lm by (simp add: be_value_def)
    then have z: "?r = 0" by (simp add: modexp_power)
    have "modexp_execute C input = Ok []" using True fit lens nums z by (auto simp: modexp_execute_def to_bytes_be_def)
    then show ?thesis using True z by (simp add: be_value_def)
  next
    case False
    have "be_value m < 256 ^ mod_len" using be_value_bound [of m] lm by simp
    then have "?r < 256 ^ mod_len" using small by (simp add: max_def split: if_splits)
    then have len: "length ?bs \<le> mod_len" using False length_be_digits [of ?r mod_len] by (simp add: to_bytes_be_def)
    have v: "be_value ?bs = ?r" by (simp add: to_bytes_be_def be_value_digits) (simp add: be_value_def)
    have "modexp_execute C input = Ok (replicate (mod_len - length ?bs) 0 @ ?bs)"
      using False fit lens nums len w by (auto simp: modexp_execute_def crypto_laws_def Let_def)
    then show ?thesis using len v by (simp add: be_value_zeros)
  qed
qed

text \<open>C31.  The modular exponentiation builtin returns base to the exponent modulo the modulus, in as many bytes as the modulus has, for
  every input whose price is not the maximum; what the price let through is never too long to be worked on.\<close>

theorem modexp_contract:
  assumes "crypto_laws C N" and "modexp_cost divisor input = Ok c" and "c \<noteq> - 1"
    and "modexp_lengths input = (base_len, exp_len, mod_len, r)"
    and "read_exact base_len r = (b, r1)" and "read_exact exp_len r1 = (e, r2)" and "read_exact mod_len r2 = (m, r3)"
  shows "\<exists>out. modexp_execute C input = Ok out \<and> length out = mod_len \<and> mod_len < 2 ^ 31 \<and>
    be_value out = (if be_value m \<le> 1 then 0 else be_value b ^ be_value e mod be_value m)"
proof -
  have p: "base_len = 0 \<and> mod_len = 0 \<or> base_len < 2 ^ 31 \<and> exp_len < 2 ^ 31 \<and> mod_len < 2 ^ 31"
    by (rule modexp_priced_lengths [OF assms(2-4)])
  then have "base_len = 0 \<and> mod_len = 0 \<or> base_len < 2 ^ 63 \<and> exp_len < 2 ^ 63 \<and> mod_len < 2 ^ 63" by auto
  from modexp_output [OF assms(1,4) this assms(5-7)] p show ?thesis by (auto simp: modexp_power)
qed

section \<open>Every builtin of the chain\<close>

lemma write_empty: "crypto_laws C N \<Longrightarrow> co_write C [] 0 bs = bs"
  by (simp add: crypto_laws_def)

lemma write_padded: "crypto_laws C N \<Longrightarrow> co_write C (replicate 12 0) 12 bs = replicate 12 0 @ bs"
  by (simp add: crypto_laws_def)

lemmas crypto_lengths = write_empty write_padded

lemma linear_cost_Ok:
  assumes "length d < 2 ^ 63" "unat base < 2 ^ 32" "unat word < 2 ^ 32"
  shows "linear_cost base word d \<noteq> Panic" "pairing_cost base word d \<noteq> Panic"
proof -
  have "u_add (ucast base) (ucast word * of_nat n) \<noteq> (Panic :: u256 vm_result)" "u_mul (ucast word) (of_nat n) = (Ok (ucast word * of_nat n) :: u256 vm_result)"
    if "n < 2 ^ 63" for n
  proof -
    have n: "unat (of_nat n :: u256) = n" using that by (simp add: unat_of_nat)
    have w: "unat (ucast word :: u256) = unat word" "unat (ucast base :: u256) = unat base"
      using assms(2,3) by (simp_all add: unsigned_ucast_eq take_bit_nat_eq_self)
    have m: "unat word * n < 2 ^ 95" using mult_strict_mono' [OF assms(3) that] by simp
    then show "u_mul (ucast word) (of_nat n) = (Ok (ucast word * of_nat n) :: u256 vm_result)" by (simp add: u_mul_def n w)
    have "unat (ucast word * of_nat n :: u256) = unat word * n" using m n w by (simp add: unat_mult_no_overflow)
    then show "u_add (ucast base) (ucast word * of_nat n) \<noteq> (Panic :: u256 vm_result)" using m w assms(2) by (simp add: u_add_def)
  qed
  from this [of "(length d + 31) div 32"] this [of "length d div 192"] assms(1)
  show "linear_cost base word d \<noteq> Panic" "pairing_cost base word d \<noteq> Panic" by (simp_all add: linear_cost_def pairing_cost_def)
qed

definition output_fits :: "bytes vm_result \<Rightarrow> bool" where
  "output_fits r \<longleftrightarrow> r \<noteq> Panic \<and> (\<forall>out. r = Ok out \<longrightarrow> length out < 2 ^ 63)"

lemma output_fits_simps [simp]: "output_fits (Ok out) \<longleftrightarrow> length out < 2 ^ 63" "output_fits (Err e)" "\<not> output_fits Panic"
  by (simp_all add: output_fits_def)

lemma output_fits_bind: "r \<noteq> Panic \<Longrightarrow> (\<And>a. output_fits (f a)) \<Longrightarrow> output_fits (rbind r f)"
  by (cases r) simp_all
lemma bn_read_no_panic: "or_builtin_error x msg \<noteq> Panic" "read_fr N d \<noteq> Panic" "read_point N d \<noteq> Panic"
proof -
  show o: "or_builtin_error x msg \<noteq> Panic" for x :: "'x option" and msg by (simp add: or_builtin_error_def split: option.splits)
  show "read_fr N d \<noteq> Panic" by (simp add: read_fr_def o rbind_Panic_iff split: prod.splits)
  show "read_point N d \<noteq> Panic" by (simp add: read_point_def o rbind_Panic_iff split: prod.splits)
qed

lemma pairing_no_panic: "pairing_elements N n d \<noteq> Panic"
proof (induction n arbitrary: d)
  case (Suc n)
  have "pairing_element N x \<noteq> Panic" for x by (simp add: pairing_element_def Let_def bn_read_no_panic rbind_Panic_iff)
  with Suc show ?case by (simp add: rbind_Panic_iff)
qed simp

lemma length_compress: "length (compress h m t f rounds) = 8"
  by (simp add: compress_def Let_def del: upt_rec_numeral)

lemma length_words: "length (concat (map (\<lambda>w :: u64. rev (to_be 8 w)) ws)) = 8 * length ws"
  by (induction ws) simp_all

lemma builtin_outputs:
  assumes L: "crypto_laws C N" and d: "length d < 2 ^ 63" and m: "name = Modexp \<Longrightarrow> modexp_cost k d = Ok c \<and> c \<noteq> - 1"
  shows "output_fits (builtin_factory C N name d)"
proof (cases name)
  case Ecrecover
  then show ?thesis by (auto simp: builtin_factory_def ecrecover_execute_def Let_def crypto_lengths [OF L] split: option.splits res.splits)
next
  case Ripemd160
  then show ?thesis using L by (simp add: builtin_factory_def ripemd160_execute_def crypto_lengths [OF L]) (simp add: crypto_laws_def)
next
  case Sha256
  then show ?thesis using L by (simp add: builtin_factory_def sha256_execute_def crypto_lengths [OF L]) (simp add: crypto_laws_def)
next
  case Identity
  then show ?thesis using d by (simp add: builtin_factory_def identity_execute_def crypto_lengths [OF L])
next
  case Modexp
  obtain base_len exp_len mod_len r where l: "modexp_lengths d = (base_len, exp_len, mod_len, r)" using prod_cases4 by blast
  have p: "base_len = 0 \<and> mod_len = 0 \<or> base_len < 2 ^ 31 \<and> exp_len < 2 ^ 31 \<and> mod_len < 2 ^ 31"
    using m [OF Modexp] modexp_priced_lengths l by blast
  then have "base_len = 0 \<and> mod_len = 0 \<or> base_len < 2 ^ 63 \<and> exp_len < 2 ^ 63 \<and> mod_len < 2 ^ 63" by auto
  note result = modexp_output [OF L l this]
  obtain b r1 where 1: "read_exact base_len r = (b, r1)" by fastforce
  obtain e r2 where 2: "read_exact exp_len r1 = (e, r2)" by fastforce
  obtain n r3 where 3: "read_exact mod_len r2 = (n, r3)" by fastforce
  from result [OF 1 2 3] p show ?thesis by (auto simp: builtin_factory_def Modexp)
next
  case Blake2F
  then show ?thesis
    by (simp add: builtin_factory_def blake2f_execute_def Let_def crypto_lengths [OF L] length_compress length_words)
next
  case AltBn128Pairing
  then show ?thesis
    by (auto simp: builtin_factory_def bn128_pairing_execute_def crypto_lengths [OF L] rbind_Panic_iff pairing_no_panic intro!: output_fits_bind)
next
  case AltBn128Add
  have "length (point_bytes N p) = 64" for p using L by (simp add: point_bytes_def crypto_laws_def split: option.splits)
  then show ?thesis
    using AltBn128Add by (auto simp: builtin_factory_def bn128_add_execute_def crypto_lengths [OF L] bn_read_no_panic intro!: output_fits_bind)
next
  case AltBn128Mul
  have "length (point_bytes N p) = 64" for p using L by (simp add: point_bytes_def crypto_laws_def split: option.splits)
  then show ?thesis
    using AltBn128Mul by (auto simp: builtin_factory_def bn128_mul_execute_def crypto_lengths [OF L] bn_read_no_panic intro!: output_fits_bind)
qed

text \<open>An entry of the table: a factory name with a price that cannot overflow.\<close>

definition priced_entry :: "crypto_ops \<Rightarrow> ('fq, 'fr, 'fq2, 'g1, 'g2, 'gt) bn_ops \<Rightarrow> bytes \<Rightarrow> builtin \<Rightarrow> bool" where
  "priced_entry C N d b \<longleftrightarrow> bi_cost b d \<noteq> Panic \<and>
     (\<exists>name. bi_execute b = builtin_factory C N name \<and> (name = Modexp \<longrightarrow> bi_cost b = modexp_cost 20))"

lemma priced_entry_new: "cost d \<noteq> Panic \<Longrightarrow> (name = Modexp \<Longrightarrow> cost = modexp_cost 20) \<Longrightarrow> priced_entry C N d (builtin_new cost (builtin_factory C N name) t)"
  by (auto simp: priced_entry_def builtin_new_def)

definition all_entries :: "('v \<Rightarrow> bool) \<Rightarrow> ('k \<rightharpoonup> 'v) \<Rightarrow> bool" where
  "all_entries P m \<longleftrightarrow> (\<forall>a b. m a = Some b \<longrightarrow> P b)"

lemma all_entries_upd: "all_entries P m \<Longrightarrow> P x \<Longrightarrow> all_entries P (m(k \<mapsto> x))" "all_entries P Map.empty"
  by (simp_all add: all_entries_def)

lemma new_builtin_map_priced:
  assumes "new_builtin_map C N tn a = Some b" "length d < 2 ^ 63"
  shows "priced_entry C N d b"
proof -
  have m: "modexp_cost 20 d \<noteq> Panic" using modexp_cost_Ok [of 20 d] by auto
  have bl: "blake2f_cost 1 d \<noteq> Panic"
    using unat_lt_pow [of "from_be (take 4 d) :: u32"]
    by (simp add: blake2f_cost_def u_mul_def rbind_Panic_iff unsigned_ucast_eq take_bit_nat_eq_self)
  note costs = m bl linear_cost_Ok [OF assms(2)]
  have "all_entries (priced_entry C N d) (new_builtin_map C N tn)"
    unfolding new_builtin_map_def by (intro all_entries_upd priced_entry_new) (simp_all add: costs)
  then show ?thesis using assms(1) by (simp add: all_entries_def)
qed

lemma chain_builtin_outputs:
  assumes "crypto_laws C N" "new_builtin_map C N tn a = Some b" "length d < 2 ^ 63" "bi_cost b d = Ok c" "unat c < 2 ^ 64"
  shows "output_fits (bi_execute b d)"
proof -
  have "unat (- 1 :: u256) = 2 ^ 256 - 1" by (simp add: unsigned_minus_1_eq_mask mask_eq_exp_minus_1)
  then have "c \<noteq> - 1" using assms(5) by auto
  then show ?thesis using assms(4) new_builtin_map_priced [OF assms(2,3)] builtin_outputs [OF assms(1,3)] unfolding priced_entry_def by metis
qed

lemma chain_builtin_laws: "crypto_laws C N \<Longrightarrow> builtin_laws (new_machine_with_builtin C N B params)"
  using chain_builtin_outputs by (fastforce simp: builtin_laws_def new_machine_with_builtin_def output_fits_def)

text \<open>C32.  No builtin of the chain's machine panics: not in its price and not in its work, whatever the call data, as long as the gas of
  the call is below 2^64; what it returns leaves no more gas than the call had and its output is an addressable slice.\<close>

theorem chain_builtins_safe:
  assumes "crypto_laws C N" and "mc_builtins (new_machine_with_builtin C N B params) a = Some b"
    and "params_fit p" and "unat (ap_gas p) < 2 ^ 64"
  shows "builtin_exec b p \<noteq> Panic \<and> (\<forall>r. builtin_exec b p = Ok r \<longrightarrow> left_ok (unat (ap_gas p)) r)"
proof -
  let ?d = "case ap_data p of Some d \<Rightarrow> d | None \<Rightarrow> []"
  have d: "length ?d < 2 ^ 63" using assms(3) by (auto simp: params_fit_def split: option.splits)
  have b: "new_builtin_map C N (cp_transition_numbers params) a = Some b" using assms(2) by (simp add: new_machine_with_builtin_def)
  have "bi_cost b ?d \<noteq> Panic" using new_builtin_map_priced [OF b d] by (simp add: priced_entry_def)
  moreover have "bi_execute b ?d \<noteq> Panic" if "bi_cost b ?d = Ok c" "c \<le> ap_gas p" for c
    using chain_builtin_outputs [OF assms(1) b d that(1)] that(2) assms(4) by (auto simp: word_le_nat_alt)
  ultimately have "builtin_exec b p \<noteq> Panic" by (auto simp: builtin_exec_def Let_def rbind_Panic_iff split: if_splits)
  then show ?thesis using builtin_exec_left [OF chain_builtin_laws [OF assms(1)] assms(2-4)] by blast
qed

text \<open>The rounds of BLAKE2b lose nothing: any number of them, in any order of the permutations, is a bijection on working vectors of
  sixteen words, for every message block.\<close>

theorem blake_rounds_bijective:
  "bij_betw (fold (\<lambda>i v. blake_round m (BLAKE_SIGMA ! (i mod 10)) v) is) {v. length v = 16} {v. length v = 16}"
  by (intro endo_bij endo_fold endo_round)

section \<open>Reference parameters\<close>

text \<open>Keys are their own secrets, and a signature is the key that made it, twice.\<close>

definition ref_secp :: secp_ops where
  "ref_secp = \<lparr>secret_key_from_slice = (\<lambda>d. if length d = 32 \<and> d \<noteq> replicate 32 0 then Inr d else Inl SecpInvalidSecretKey),
     public_key_from_slice = (\<lambda>d. if length d = 65 \<and> hd d = 4 then Inr (take 32 (drop 1 d)) else Inl SecpInvalidPublicKey),
     public_key_from_secret_key = Inr, serialize_uncompressed = (\<lambda>k. 4 # take 64 (k @ replicate 64 0)),
     recovery_id_from_i32 = (\<lambda>v. if v < 4 then Inr v else Inl SecpOther), recoverable_from_compact = (\<lambda>c v. Inr (take 32 c)),
     serialize_compact = (\<lambda>k. (0, k @ k)), to_standard = (\<lambda>k. k), sign_recoverable = (\<lambda>m. Inr),
     secp_recover = (\<lambda>m. Inr), secp_verify = (\<lambda>m k p. if k = p then Inr () else Inl SecpIncorrectSignature)\<rparr>"

lemma ref_secp_laws: "secp_laws ref_secp"
  by (auto simp: secp_laws_def ref_secp_def)

definition ref_crypto :: crypto_ops where
  "ref_crypto = \<lparr>co_write = (\<lambda>out off bs. take off (out @ replicate (off - length out) 0) @ bs @ drop (off + length bs) out),
     co_sha256 = (\<lambda>d. take 32 (d @ replicate 32 0)), co_ripemd160 = (\<lambda>d. take 20 (d @ replicate 20 0)), co_keccak = ref_keccak,
     co_secp = ref_secp\<rparr>"

definition ref_bn :: "(u256, u256, u256, unit, unit, unit) bn_ops" where
  "ref_bn = \<lparr>fq_from_slice = (\<lambda>bs. Some (from_be bs)), fq_is_zero = (\<lambda>x. x = 0), fq_to_big_endian = to_be 32, fr_from_slice = (\<lambda>bs. Some (from_be bs)),
     fq2_new = (\<lambda>x _. x), fq2_is_zero = (\<lambda>x. x = 0), g1_zero = (), g1_affine = (\<lambda>_ _. None), g1_add = (\<lambda>_ _. ()), g1_mul = (\<lambda>_ _. ()),
     g1_coordinates = (\<lambda>_. None), g2_zero = (), g2_affine = (\<lambda>_ _. None), gt_one = (), gt_mul = (\<lambda>_ _. ()), bn_pairing = (\<lambda>_ _. ())\<rparr>"

lemma ref_crypto_laws: "crypto_laws ref_crypto ref_bn"
  by (auto simp: crypto_laws_def ref_crypto_def ref_bn_def)

definition ref_one :: bytes where
  "ref_one = replicate 31 0 @ [1]"

definition ref_modexp_input :: bytes where
  "ref_modexp_input = ref_one @ ref_one @ ref_one @ [3, 5, 7]"

lemma read_exact_append [simp]: "length a = n \<Longrightarrow> read_exact n (a @ b) = (a, b)"
  by (simp add: read_exact_def)

lemma ref_one [simp]: "length ref_one = 32" "from_be ref_one = (1 :: u256)" "from_be (drop 24 ref_one) = (1 :: u64)"
proof -
  have "be_value (replicate k 0 @ [1]) = 1" for k by (simp add: be_value_zeros) (simp add: be_value_def)
  then show "from_be ref_one = (1 :: u256)" "from_be (drop 24 ref_one) = (1 :: u64)"
    by (simp_all add: ref_one_def word_unat_eq_iff unat_from_be)
qed (simp add: ref_one_def)

lemma ref_modexp:
  "modexp_cost 20 ref_modexp_input = Ok 0" "modexp_lengths ref_modexp_input = (1, 1, 1, [3, 5, 7])"
  "read_exact 1 [3, 5, 7] = ([3], [5, 7])" "read_exact 1 [5, 7] = ([5], [7])" "read_exact 1 [7] = ([7], [])"
proof -
  have "bits 5 = 3" by code_simp
  then have adj: "adjusted_exp_len 1 5 = Ok 2" by (simp add: adjusted_exp_len_def)
  have mult: "mult_complexity 1 = Ok 1" by (simp add: mult_complexity_def u_mul_def)
  have over: "overflowing_mul 1 (2 :: u64) = (2, False)" by (simp add: overflowing_mul_def)
  have low: "low_u64 1 = 1" by (simp add: low_u64_def)
  have e: "from_be [5 :: byte] = (5 :: u256)" by (simp add: word_unat_eq_iff unat_from_be be_value_def)
  have add: "u_add (1 :: u64) 96 = (Ok 97 :: u64 vm_result)" by (simp add: u_add_def)
  have d: "drop 97 ref_modexp_input = [5, 7]" "length ref_modexp_input = 99" by (simp_all add: ref_modexp_input_def)
  have r: "read_exact 32 ref_modexp_input = (ref_one, ref_one @ ref_one @ [3, 5, 7])" by (simp add: ref_modexp_input_def)
  have x: "read_exact (Suc 0) [5 :: byte, 7] = ([5], [7])" by (simp add: read_exact_def)
  show "modexp_cost 20 ref_modexp_input = Ok 0"
    by (simp add: modexp_cost_def r d x Let_def MAX_MODEXP_LEN_def low add e adj mult over)
qed (simp_all add: modexp_lengths_def ref_modexp_input_def read_exact_def)

theorem modexp_contract_witness:
  "\<exists>out. modexp_execute ref_crypto ref_modexp_input = Ok out \<and> length out = 1 \<and> be_value out = 5"
  using modexp_contract [OF ref_crypto_laws ref_modexp(1) _ ref_modexp(2-5)] by (auto simp: be_value_def)

text \<open>The machine of the chain with every builtin active, called at address 5.\<close>

definition ref_chain :: "(in_memory_db, cross_resume) machine" where
  "ref_chain = new_machine_with_builtin ref_crypto ref_bn ref_backend common_params_default"

definition ref_modexp_call :: action_params where
  "ref_modexp_call = (ref_call [] 1000)\<lparr>ap_data := Some ref_modexp_input\<rparr>"

theorem chain_builtins_safe_witness:
  "\<exists>b. mc_builtins ref_chain 5 = Some b \<and> builtin_exec b ref_modexp_call \<noteq> Panic \<and>
     (\<forall>r. builtin_exec b ref_modexp_call = Ok r \<longrightarrow> left_ok (unat (ap_gas ref_modexp_call)) r)"
proof -
  obtain b where b: "mc_builtins ref_chain 5 = Some b" by (simp add: ref_chain_def new_machine_with_builtin_def new_builtin_map_def)
  have "params_fit ref_modexp_call" "unat (ap_gas ref_modexp_call) < 2 ^ 64"
    by (simp_all add: params_fit_def ref_modexp_call_def ref_call_def ref_modexp_input_def)
  with chain_builtins_safe [OF ref_crypto_laws b [unfolded ref_chain_def]] b show ?thesis by blast
qed

end
