(* ===== verification/Internal_Properties.thy ===== *)
theory Internal_Properties
  imports Internal_Laws Builtin_Properties
begin

text \<open>
  Properties of the internal contracts, and of whole transactions on the machine of the chain with
  all its builtins and internal contracts.
\<close>

section \<open>The machine of the chain\<close>

lemma chain_internal_laws: "internal_laws B (new_machine_with_builtin C N B params) cross_held"
  unfolding internal_laws_def
proof (intro conjI allI impI)
  fix a ic p c
  assume ic: "mc_internal_contracts (new_machine_with_builtin C N B params) a = Some ic" and p: "params_fit p" and c: "ctx_inv B c"
  from ic obtain t where "ic_execute ic = contract_execute t" "table_lawful B cross_held t"
    unfolding new_machine_with_builtin_def machine.simps by (blast dest: internal_map_lawful [OF all_internal_lawful])
  with contract_execute_gives [of B cross_held t p c] p c
  have "gives B c (ic_execute ic p) (outcome_ok cross_held (fc_static_flag (ctx_local c)) (unat (ap_gas p)))" by (simp add: ctx_inv_def)
  with c show "wp True (ic_execute ic p) (\<lambda>out c'. evolves B c c' \<and> (case out of Inl g \<Rightarrow> left_ok (unat (ap_gas p)) g
      | Inr (t, r) \<Rightarrow> trap_allowed (fc_static_flag (ctx_local c)) t \<and> cross_held r + trap_gas t < unat (ap_gas p))) (\<lambda>_ c'. evolves B c c') c"
    by (simp add: gives_def outcome_ok_def ctx_inv_def)
next
  fix r res c
  assume "answer_fits res" "ctx_inv B c"
  then show "wp True (mc_resume (new_machine_with_builtin C N B params) r res) (\<lambda>g c'. evolves B c c' \<and> left_ok (cross_held r + answer_gas res) g)
      (\<lambda>_ c'. evolves B c c') c"
    using cross_space_resume_gives [of res B c r] by (simp add: gives_def ctx_inv_def new_machine_with_builtin_def)
qed

lemma chain_outside:
  "crypto_laws C N \<Longrightarrow> lru_laws (ext_lru X) R \<Longrightarrow> outside_laws X R B (new_machine_with_builtin C N B params) cross_held"
  by (simp add: outside_laws_def chain_builtin_laws chain_internal_laws)


definition ref_chain_executor :: "(in_memory_db, cross_resume, alru) tx_executor" where
  "ref_chain_executor = \<lparr>te_externals = ref_externals, te_backend = ref_backend, te_machine = ref_chain, te_env = ref_env,
     te_spec = machine_spec common_params_default None 7, te_show = (\<lambda>_. []), te_set_order = ref_set_order\<rparr>"


section \<open>Withdrawing from a mapped account\<close>

lemma on_state_Ok: "m (ctx_state c) = (Ok a, t) \<Longrightarrow> on_state (into_vm m) c = (Ok a, c\<lparr>ctx_state := t\<rparr>)"
  by (simp add: on_state_def ezoom_def into_vm_def)

lemma topic_Ok:
  "bytes20_topic B a = Ok (from_be (to_be 20 a @ replicate 12 0))" "indexed_event_encode k address_abi a = Ok (from_be (replicate 12 0 @ to_be 20 a))"
  by (simp_all add: bytes20_topic_def indexed_event_encode_def fixed_bytes_abi_def address_abi_def lb_to_vec_def lb_from_bytes_def)

lemma encode_amounts: "abi_encode2 u256_abi u256_abi (v, n) = Ok (to_be 32 v @ to_be 32 n)"
  by (simp add: abi_encode2_def u256_abi_def write_down_def with_heads_length_def head_length_def lb_from_bytes_def lb_new_def lb_append_def
      into_linked_bytes_def lb_to_vec_def)

text \<open>The log entry of a withdrawal.\<close>

definition withdrawal_log :: "'d backend \<Rightarrow> action_params \<Rightarrow> address \<Rightarrow> u256 \<Rightarrow> u256 \<Rightarrow> log_entry" where
  "withdrawal_log B p sender v n = \<lparr>le_address = ap_address p,
     le_topics = [signature B ''Withdraw(bytes20,address,uint256,uint256)'',
       from_be (to_be 20 (aws_address (evm_map B sender)) @ replicate 12 0), from_be (replicate 12 0 @ to_be 20 sender)],
     le_data = to_be 32 v @ to_be 32 n, le_space = ap_space p\<rparr>"

lemma withdrawal_event:
  assumes "\<not> fc_static_flag (ctx_local c)"
  shows "event_log B ''Withdraw(bytes20,address,uint256,uint256)''
      (topics2 (bytes20_topic B (aws_address (evm_map B sender))) (indexed_event_encode (bk_keccak B) address_abi sender))
      (abi_encode2 u256_abi u256_abi (v, n)) p c =
    upd_substate (\<lambda>ss. ss\<lparr>ss_logs := ss_logs ss @ [withdrawal_log B p sender v n]\<rparr>) c"
  using assms
  by (simp add: event_log_def topics2_def topic_Ok encode_amounts encoded_def internal_log_def local_get_def eff_simps withdrawal_log_def)

lemma on_state_mode_Ok:
  assumes "\<And>mode. \<exists>t mode'. m (ctx_state c, mode) = (Ok a, (t, mode')) \<and> P t"
  shows "\<exists>t ss. on_state_mode (into_vm m) c = (Ok a, c\<lparr>ctx_state := t, ctx_local := (ctx_local c)\<lparr>fc_substate := ss\<rparr>\<rparr>) \<and> P t \<and>
    ss_logs ss = ss_logs (fc_substate (ctx_local c))"
proof -
  obtain t mode' where "m (ctx_state c, cleanup_mode_of (fc_substate (ctx_local c)) (fc_spec (ctx_local c))) = (Ok a, (t, mode'))" "P t"
    using assms by blast
  moreover have "ss_logs (return_mode mode' ss) = ss_logs ss" for ss by (simp add: return_mode_def split: cleanup_mode.splits)
  ultimately show ?thesis by (intro exI [of _ t] exI [of _ "return_mode mode' (fc_substate (ctx_local c))"]) (simp add: on_state_mode_def into_vm_def)
qed

text \<open>C22.  A withdrawal moves exactly the amount from the mapped account of the sender to the sender, raises the nonce of the mapped
  account, logs one event and touches nothing else; a sender whose mapped account does not hold the amount gets an error and no account
  changes.\<close>

theorem withdrawal_moves_the_amount:
  fixes B :: "'d backend" and sender :: address
  defines "m \<equiv> evm_map B sender" and "to \<equiv> with_space sender Ethereum"
  assumes s: "state_ok B (ctx_state c)" and static: "\<not> fc_static_flag (ctx_local c)" and ne: "m \<noteq> to"
    and mv: "top_view B (ctx_state c) m = Ok (Some av)" and tv: "top_view B (ctx_state c) to = Ok (Some bv)"
    and fits: "unat (av_balance bv) + unat v < 2 ^ 256" and nonce: "av_nonce av \<noteq> - 1"
    and run: "withdraw_from_evmcore B sender v p c = (r, c')"
  shows "if v \<le> av_balance av then
      r = Ok () \<and> state_ok B (ctx_state c') \<and> tl (worlds B (ctx_state c')) = tl (worlds B (ctx_state c)) \<and>
      top_view B (ctx_state c') = (top_view B (ctx_state c))(
        m := Ok (Some (av\<lparr>av_balance := av_balance av - v, av_nonce := av_nonce av + 1\<rparr>)),
        to := Ok (Some (bv\<lparr>av_balance := av_balance bv + v\<rparr>))) \<and>
      ss_logs (fc_substate (ctx_local c')) = ss_logs (fc_substate (ctx_local c)) @ [withdrawal_log B p sender v (av_nonce av)]
    else r = Err (InternalContract ''Not enough balance for withdrawing from mapped address'') \<and>
      worlds B (ctx_state c') = worlds B (ctx_state c) \<and> ctx_local c' = ctx_local c"
proof -
  obtain q t1 where q: "state_balance B m (ctx_state c) = (q, t1)" by fastforce
  have t1: "same B (ctx_state c) t1" "q = Ok (av_balance av)" using state_balance_spec [OF s q] mv by auto
  have 1: "on_state (into_vm (state_balance B m)) c = (Ok (av_balance av), c\<lparr>ctx_state := t1\<rparr>)" using q t1(2) by (intro on_state_Ok) simp
  note unfold = withdraw_from_evmcore_def local_get_def eff_simps Let_def m_def [symmetric]
  show ?thesis
  proof (cases "v \<le> av_balance av")
    case False
    then show ?thesis using run 1 t1(1) by (auto simp: unfold not_le same_def)
  next
    case True
    let ?n = "account_start_nonce (fc_spec (ctx_local c))" and ?w = "av\<lparr>av_balance := av_balance av - v\<rparr>"
    have view: "top_view B t1 = top_view B (ctx_state c)" "state_ok B t1" using same_view [OF t1(1)] same_ok [OF t1(1)] by auto
    let ?P = "\<lambda>t. state_ok B t \<and> tl (worlds B t) = tl (worlds B t1) \<and>
      top_view B t = (top_view B t1)(m := Ok (Some ?w), to := Ok (Some (bv\<lparr>av_balance := av_balance bv + v\<rparr>)))"
    have "\<exists>t mode'. transfer_balance B m to v ?n (t1, mode) = (Ok (), (t, mode')) \<and> ?P t" for mode
    proof -
      obtain x t mode' where x: "transfer_balance B m to v ?n (t1, mode) = (x, (t, mode'))" by (metis prod.exhaust)
      show ?thesis using transfer_balance_state [OF view(2) x, of av "Some bv"] view mv tv True ne fits x by simp
    qed
    from on_state_mode_Ok [of "transfer_balance B m to v ?n" "c\<lparr>ctx_state := t1\<rparr>" "()" ?P] this
    obtain t2 ss where 2: "on_state_mode (into_vm (transfer_balance B m to v ?n)) (c\<lparr>ctx_state := t1\<rparr>) =
        (Ok (), c\<lparr>ctx_state := t2, ctx_local := (ctx_local c)\<lparr>fc_substate := ss\<rparr>\<rparr>)" "?P t2"
        "ss_logs ss = ss_logs (fc_substate (ctx_local c))" by auto
    obtain x t3 where x: "state_nonce B m t2 = (x, t3)" by fastforce
    have t3: "same B t2 t3" "x = Ok (av_nonce av)" using state_nonce_spec [OF _ x] 2(2) ne by auto
    obtain y t4 where y: "inc_nonce B m ?n t3 = (y, t4)" by fastforce
    have mv3: "top_view B t3 m = Ok (Some ?w)" using same_view [OF t3(1)] 2(2) ne by simp
    have t4: "y = Ok ()" "updates B t3 m (Some (?w\<lparr>av_nonce := av_nonce av + 1\<rparr>)) t4"
      using inc_nonce_spec [OF same_ok [OF t3(1)] y mv3 refl] nonce by auto
    note 3 = on_state_Ok [where m = "state_nonce B m"] on_state_Ok [where m = "inc_nonce B m ?n"]
    have c': "r = Ok ()" "ctx_state c' = t4" "ss_logs (fc_substate (ctx_local c')) = ss_logs ss @ [withdrawal_log B p sender v (av_nonce av)]"
      using run 1 2(1) [unfolded to_def] True [unfolded not_less [symmetric]] x t3(2) y t4(1) static withdrawal_event [of _ B sender v "av_nonce av" p]
      by (auto simp: unfold 3 observe_def upd_substate_def)
    have "top_view B t4 = (top_view B (ctx_state c))(m := Ok (Some (?w\<lparr>av_nonce := av_nonce av + 1\<rparr>)), to := Ok (Some (bv\<lparr>av_balance := av_balance bv + v\<rparr>)))"
      using updates_view [OF t4(2)] same_view [OF t3(1)] 2(2) view(1) ne by (auto simp: fun_eq_iff)
    moreover have "state_ok B t4" "tl (worlds B t4) = tl (worlds B (ctx_state c))"
      using top_only_updates [OF t4(2)] t3(1) t1(1) 2(2) by (auto simp: top_only_def same_def)
    ultimately show ?thesis using True c' 2(3) by simp
  qed
qed

lemma ref_mapped: "evm_map ref_backend 8 = with_space 2049 Ethereum"
proof -
  have "from_be (to_be 20 (8 :: address)) = (8 :: u256)" by code_simp
  then show ?thesis by (simp add: evm_map_def ref_backend_def ref_keccak_def from_be_snoc)
qed

theorem withdrawal_moves_the_amount_witness:
  "\<exists>c r c'. withdraw_from_evmcore ref_backend 8 3 (ref_call [] 50000) c = (r, c') \<and> r = Ok () \<and>
     (\<exists>av. top_view ref_backend (ctx_state c') (with_space 2049 Ethereum) = Ok (Some av) \<and> av_balance av = 6)"
proof -
  let ?a = "with_space 2049 Ethereum" and ?b = "with_space 8 Ethereum"
  let ?ops = "[OpAddBalance ?a 9 NoEmpty 0, OpAddBalance ?b 1 NoEmpty 0]"
  obtain s where s: "exec_ops ref_backend ?ops (ref_state Map.empty) = Some s"
    by (simp add: state_eval)
  have "balanced ?ops" by (auto intro!: balanced.intros simp: plain_def)
  then have ok: "state_ok ref_backend s" using balanced_keeps_lower_worlds [OF _ _ ref_state_ok s] by (simp add: op_ok_def)
  obtain av bv where v: "top_view ref_backend s ?a = Ok (Some av)" "av_balance av = 9" "av_nonce av = 0"
    "top_view ref_backend s ?b = Ok (Some bv)" "av_balance bv = 1"
    using s by (auto simp: state_eval top_view_def cache_view_def entry_view_def)
  let ?c = "(ref_context False False)\<lparr>ctx_state := s\<rparr>"
  obtain r c' where run: "withdraw_from_evmcore ref_backend 8 3 (ref_call [] 50000) ?c = (r, c')" by fastforce
  have "if 3 \<le> av_balance av then r = Ok () \<and> state_ok ref_backend (ctx_state c') \<and> tl (worlds ref_backend (ctx_state c')) = tl (worlds ref_backend (ctx_state ?c)) \<and>
      top_view ref_backend (ctx_state c') = (top_view ref_backend (ctx_state ?c))(
        ?a := Ok (Some (av\<lparr>av_balance := av_balance av - 3, av_nonce := av_nonce av + 1\<rparr>)),
        ?b := Ok (Some (bv\<lparr>av_balance := av_balance bv + 3\<rparr>))) \<and>
      ss_logs (fc_substate (ctx_local c')) = ss_logs (fc_substate (ctx_local ?c)) @ [withdrawal_log ref_backend (ref_call [] 50000) 8 3 (av_nonce av)]
    else r = Err (InternalContract ''Not enough balance for withdrawing from mapped address'') \<and>
      worlds ref_backend (ctx_state c') = worlds ref_backend (ctx_state ?c) \<and> ctx_local c' = ctx_local ?c"
    using withdrawal_moves_the_amount [of ref_backend ?c 8 av bv 3 "ref_call [] 50000" r c', unfolded ref_mapped] ok v run
    by (simp add: with_space_def)
  then show ?thesis using run v by (intro exI [of _ ?c] exI [of _ r] exI [of _ c']) (simp add: with_space_def)
qed

section \<open>Deploying EIP-1820\<close>

text \<open>C23.  The guard of a write function looks at the type of its own call only.  Deploying the EIP-1820 contract logs nothing, so where
  a static frame further up forbids changes, a plain call to it still succeeds and installs the contract, with its code and nonce one.\<close>

theorem deploy_ignores_static_ancestors:
  fixes B :: "'d backend"
  defines "a \<equiv> with_space EIP1820_ADDRESS Ethereum"
  assumes s: "state_ok B (ctx_state c)" and static: "fc_static_flag (ctx_local c)"
    and p: "ap_call_type p = Call" "action_value_value (ap_value p) = 0" "ucast (eip1820_gas (fc_spec (ctx_local c))) \<le> ap_gas p"
    and new: "top_view B (ctx_state c) a = Ok None"
  shows "\<exists>c' av. function_execute (DeployEip1820 B) input p c =
      (Ok (Inl (NeedsReturn (ap_gas p - ucast (eip1820_gas (fc_spec (ctx_local c)))) (rd_new [] 0 0) True)), c') \<and>
    top_view B (ctx_state c') = (top_view B (ctx_state c))(a := Ok (Some av)) \<and>
    av_code av = Ok (Some (from_hex HEX_BYTE_CODE)) \<and> av_nonce av = 1 \<and> av_balance av = 0"
proof -
  obtain q t1 where q: "is_contract_with_code B a (ctx_state c) = (q, t1)" by fastforce
  have t1: "same B (ctx_state c) t1" "q = Ok False" using is_contract_with_code_spec [OF s q] new by auto
  have v1: "top_view B t1 a = Ok None" "state_ok B t1" using same_view [OF t1(1)] same_ok [OF t1(1)] new by auto
  obtain x t2 where x: "new_contract B a 0 1 (Some STORAGE_LAYOUT_REGULAR_V0) t1 = (x, t2)" by fastforce
  let ?w = "account_view B (st_db t1) (new_contract_account B a 0 1 False (Some STORAGE_LAYOUT_REGULAR_V0))"
  have t2: "x = Ok ()" "updates B t1 a (Some ?w) t2" using new_contract_spec [OF v1(2) x] v1(1) by auto
  obtain y t3 where y: "init_code B a (from_hex HEX_BYTE_CODE) t2 = (y, t3)" by fastforce
  have "top_view B t2 a = Ok (Some ?w)" using updates_view [OF t2(2)] by simp
  then have t3: "y = Ok ()" "updates B t2 a (Some (?w\<lparr>av_code_hash := bk_keccak B (from_hex HEX_BYTE_CODE), av_code := Ok (Some (from_hex HEX_BYTE_CODE))\<rparr>)) t3"
    using init_code_spec [OF updates_ok [OF t2(2)] y _ byte_code_fits] by auto
  have runs: "on_state (into_vm (is_contract_with_code B a)) c = (Ok False, c\<lparr>ctx_state := t1\<rparr>)"
    "on_state (into_vm (new_contract B a 0 1 (Some STORAGE_LAYOUT_REGULAR_V0))) (c\<lparr>ctx_state := t1\<rparr>) = (Ok (), c\<lparr>ctx_state := t2\<rparr>)"
    "on_state (into_vm (init_code B a (from_hex HEX_BYTE_CODE))) (c\<lparr>ctx_state := t2\<rparr>) = (Ok (), c\<lparr>ctx_state := t3\<rparr>)"
    using q t1(2) x t2(1) y t3(1) by (simp_all add: on_state_Ok)
  let ?c' = "snd ((upd_substate (\<lambda>ss. ss\<lparr>ss_contracts_created := ss_contracts_created ss @ [a]\<rparr>) :: ('d exec_context, vm_error, unit) eff)
    (c\<lparr>ctx_state := t3\<rparr>))"
  have "function_execute (DeployEip1820 B) input p c =
      (Ok (Inl (NeedsReturn (ap_gas p - ucast (eip1820_gas (fc_spec (ctx_local c)))) (rd_new [] 0 0) True)), ?c')"
    unfolding function_execute_def preprocessing_def eff_simps
    using p runs
    by (simp add: DeployEip1820_def pre_execution_check_def from_abi_error_def no_arguments_def spec_gas_def simple_execution_def deploy_eip1820_def
        local_get_def eff_simps a_def [symmetric] upd_substate_def u_sub_def not_less [symmetric] Let_def function_return_def no_result_def
        encoded_def u_mul_def)
  moreover have "top_view B (ctx_state ?c') = (top_view B (ctx_state c))(a := Ok (Some (?w\<lparr>av_code_hash := bk_keccak B (from_hex HEX_BYTE_CODE),
      av_code := Ok (Some (from_hex HEX_BYTE_CODE))\<rparr>)))"
    using updates_view [OF t3(2)] updates_view [OF t2(2)] same_view [OF t1(1)] by (simp add: upd_substate_def eff_simps)
  ultimately show ?thesis by (intro exI [of _ ?c'] exI conjI) (auto simp: account_view_def new_contract_account_def)
qed

theorem deploy_ignores_static_ancestors_witness:
  "\<exists>c' av. function_execute (DeployEip1820 ref_backend) [] (ref_call [] 2000000) (ref_context False True) =
      (Ok (Inl (NeedsReturn 500000 (rd_new [] 0 0) True)), c') \<and>
    top_view ref_backend (ctx_state c') (with_space EIP1820_ADDRESS Ethereum) = Ok (Some av) \<and> av_nonce av = 1"
proof -
  have gas: "eip1820_gas (fc_spec (ctx_local (ref_context False True))) = 1500000"
    by (simp add: ref_spec_def new_spec_from_common_params_def genesis_spec_def)
  have new: "top_view ref_backend (ctx_state (ref_context False True)) (with_space EIP1820_ADDRESS Ethereum) = Ok None"
    by (simp add: state_eval top_view_def cache_view_def db_view_def)
  from deploy_ignores_static_ancestors [of ref_backend "ref_context False True" "ref_call [] 2000000" "[]", unfolded gas] new
  obtain c' av where "function_execute (DeployEip1820 ref_backend) [] (ref_call [] 2000000) (ref_context False True) =
      (Ok (Inl (NeedsReturn 500000 (rd_new [] 0 0) True)), c')"
    "top_view ref_backend (ctx_state c') = (top_view ref_backend (ctx_state (ref_context False True)))(with_space EIP1820_ADDRESS Ethereum := Ok (Some av))"
    "av_nonce av = 1"
    by (auto simp: ref_state_ok ref_call_def)
  then show ?thesis by auto
qed

end
