(* ===== verification/Chain_Properties.thy ===== *)
theory Chain_Properties
  imports Chain_Params
begin

text \<open>
  Chain ids of two peers: what a parsed configuration guarantees, and when the check between peers
  accepts (utils/internal-common/src/chain_id.rs).
\<close>

section \<open>Parsed configurations\<close>

text \<open>The ids gathered so far are pairwise different and are the ones marked as used.\<close>

definition ids_gathered :: "chain_id_params \<times> int set \<Rightarrow> bool" where
  "ids_gathered = (\<lambda>(p, used). length (cid_chain_ids p) = length (cid_heights p) \<and> distinct (cid_chain_ids p) \<and>
     used = uint ` set (cid_chain_ids p))"

lemma parse_element_gathers:
  assumes "ids_gathered s" "parse_element x s = Ok s'"
  shows "ids_gathered s'"
proof -
  have u: "uint (of_int c :: u32) = c" if "\<not> c < 0" "\<not> 4294967295 < c" for c
    using that by (simp add: uint_word_of_int take_bit_int_eq_self_iff flip: take_bit_eq_mod)
  then have "(of_int c :: u32) \<notin> set ids" if "\<not> c < 0" "\<not> 4294967295 < c" "c \<notin> uint ` set ids" for c ids
    using that by (metis imageI)
  then show ?thesis
    using assms u by (auto simp: parse_element_def ids_gathered_def split: toml.splits list.splits if_splits prod.splits)
qed

lemma parse_elements_gathers: "parse_elements xs s = Ok s' \<Longrightarrow> ids_gathered s \<Longrightarrow> ids_gathered s'"
proof (induction xs arbitrary: s)
  case (Cons x xs)
  then show ?case by (cases "parse_element x s") (auto dest: parse_element_gathers)
qed simp

text \<open>A configuration that is accepted starts at height zero and has pairwise different ids, one for each height.\<close>

lemma parse_config_gives:
  assumes "parse_config t = Ok p"
  shows "cid_heights p \<noteq> []" "hd (cid_heights p) = 0" "length (cid_chain_ids p) = length (cid_heights p)" "distinct (cid_chain_ids p)"
proof -
  obtain v where t: "t = Ok v" using assms by (cases t) (auto simp: parse_config_def)
  obtain table where v: "v = TomlTable table" using assms t by (cases v) (auto simp: parse_config_def)
  obtain array where a: "map_of table ''height_to_chain_ids'' = Some (TomlArray array)"
    using assms by (auto simp: parse_config_def t v split: option.split_asm toml.split_asm)
  obtain xs used where p: "parse_elements xs (\<lparr>cid_heights = [], cid_chain_ids = []\<rparr>, {}) = Ok (p, used)"
    "cid_heights p \<noteq> []" "hd (cid_heights p) = 0"
    using assms by (auto simp: parse_config_def t v a rbind_Ok_iff split: if_split_asm)
  have "ids_gathered (p, used)" using parse_elements_gathers [OF p(1)] by (simp add: ids_gathered_def)
  then show "cid_heights p \<noteq> []" "hd (cid_heights p) = 0" "length (cid_chain_ids p) = length (cid_heights p)" "distinct (cid_chain_ids p)"
    using p by (simp_all add: ids_gathered_def)
qed

section \<open>Peers\<close>

lemma length_takeWhile_take: "length (takeWhile P (take n xs)) = min n (length (takeWhile P xs))"
  by (induction xs arbitrary: n) (auto simp: take_Cons split: nat.splits)

lemma take_eq_iff: "m \<le> length xs \<Longrightarrow> m \<le> length ys \<Longrightarrow> take m xs = take m ys \<longleftrightarrow> (\<forall>i < m. xs ! i = ys ! i)"
  by (auto simp: list_eq_iff_nth_eq min_absorb2)

text \<open>The number of heights that have been reached.\<close>

abbreviation reached :: "chain_id_params \<Rightarrow> u64 \<Rightarrow> nat" where
  "reached p e \<equiv> length (takeWhile (\<lambda>h. h \<le> e) (cid_heights p))"

lemma reached_bounds:
  assumes "cid_heights p \<noteq> []" "hd (cid_heights p) = 0"
  shows "0 < reached p e" "reached p e \<le> length (cid_heights p)"
  using assms by (cases "cid_heights p"; auto simp: length_takeWhile_le le_SucI)+

lemma reached_shorter:
  assumes "length (cid_heights q) \<le> length (cid_heights p)" "\<forall>i < length (cid_heights q). cid_heights p ! i = cid_heights q ! i"
  shows "reached q e = min (length (cid_heights q)) (reached p e)"
proof -
  have "cid_heights q = take (length (cid_heights q)) (cid_heights p)" using assms by (auto simp: list_eq_iff_nth_eq min_absorb2)
  then show ?thesis by (metis length_takeWhile_take)
qed

lemma reached_mono: "x \<le> e \<Longrightarrow> reached p x \<le> reached p e"
proof -
  assume "x \<le> e"
  then have "length (takeWhile (\<lambda>h. h \<le> x) hs) \<le> length (takeWhile (\<lambda>h. h \<le> e) hs)" for hs :: "u64 list" by (induction hs) auto
  then show ?thesis .
qed

lemma reached_before: "n < length (cid_heights q) \<Longrightarrow> x < cid_heights q ! n \<Longrightarrow> reached q x \<le> n"
proof (rule ccontr)
  assume *: "n < length (cid_heights q)" "x < cid_heights q ! n" "\<not> reached q x \<le> n"
  then have "takeWhile (\<lambda>h. h \<le> x) (cid_heights q) ! n \<le> x" using nth_mem set_takeWhileD by (metis not_le)
  with * show False by (simp add: takeWhile_nth)
qed

text \<open>A map that is an initial part of another one agrees with it exactly as long as the epoch stays within the part.\<close>

lemma initial_part_agrees:
  assumes p: "parse_config t = Ok p" and q: "parse_config u = Ok q" and le: "length (cid_heights q) \<le> length (cid_heights p)"
    and eq: "\<forall>i < length (cid_heights q). cid_heights p ! i = cid_heights q ! i \<and> cid_chain_ids p ! i = cid_chain_ids q ! i"
  shows "get_chain_id p x = (get_chain_id q x :: (vm_error, u32) res) \<longleftrightarrow> reached p x \<le> length (cid_heights q)"
proof -
  let ?n = "length (cid_heights q)"
  note gp = parse_config_gives [OF p] and gq = parse_config_gives [OF q]
  note rp = reached_bounds [OF gp(1,2), of x] and rq = reached_bounds [OF gq(1,2), of x]
  have short: "reached q x = min ?n (reached p x)" using reached_shorter [OF le] eq by simp
  have "get_chain_id p x = (get_chain_id q x :: (vm_error, u32) res) \<longleftrightarrow> cid_chain_ids p ! (reached p x - 1) = cid_chain_ids q ! (reached q x - 1)"
    using rp rq gp(3) gq(3) by (simp add: get_chain_id_def Let_def)
  also have "cid_chain_ids q ! (reached q x - 1) = cid_chain_ids p ! (reached q x - 1)"
  proof -
    have "reached q x - 1 < ?n" using rq by linarith
    then show ?thesis using eq by simp
  qed
  also have "cid_chain_ids p ! (reached p x - 1) = cid_chain_ids p ! (reached q x - 1) \<longleftrightarrow> reached p x - 1 = reached q x - 1"
  proof -
    have "reached p x - 1 < length (cid_chain_ids p)" "reached q x - 1 < length (cid_chain_ids p)" using rp rq le gp(3) by linarith+
    then show ?thesis using gp(4) by (simp add: nth_eq_iff_index_eq)
  qed
  also have "\<dots> \<longleftrightarrow> reached p x \<le> ?n" using short rp rq by linarith
  finally show ?thesis .
qed


definition ref_heights :: "(int \<times> int) list \<Rightarrow> (string, toml) res" where
  "ref_heights xs = Ok (TomlTable [(''height_to_chain_ids'', TomlArray (map (\<lambda>(h, c). TomlArray [TomlInteger h, TomlInteger c]) xs))])"


end
