(* ===== verification/Commit_Properties.thy ===== *)
theory Commit_Properties
  imports State_Reference
begin

text \<open>
  What \<open>State::commit\<close> leaves in the database (src/state/mod.rs, account_entry.rs), on the in-memory
  storage: by key, and as the accounts and storage slots that are read afterwards.
\<close>

section \<open>The database by keys\<close>

definition by_key :: "in_memory_db \<Rightarrow> state_key \<Rightarrow> bytes option" where
  "by_key db k = db (state_key_bytes k)"

lemma by_key_upd: "by_key (db(state_key_bytes k := v)) = (by_key db)(k := v)"
  by (auto simp: by_key_def fun_eq_iff state_key_bytes_inject)

text \<open>A step of the commit that writes \<open>d\<close> and leaves the statistics alone.\<close>

definition writes :: "in_memory_db state \<Rightarrow> (state_key \<Rightarrow> bytes option) \<Rightarrow> in_memory_db state \<Rightarrow> bool" where
  "writes s d s' \<longleftrightarrow> by_key (st_db s') = d \<and> st_statistics s' = st_statistics s \<and> st_cache s' = st_cache s"

definition commits :: "(in_memory_db state, db_error, 'a) eff \<Rightarrow> in_memory_db state \<Rightarrow> 'a \<Rightarrow> (state_key \<Rightarrow> bytes option) \<Rightarrow> bool" where
  "commits m s a d \<longleftrightarrow> (\<exists>s'. m s = (Ok a, s') \<and> writes s d s')"

lemma commits_ebind:
  assumes "commits m s a d" and "\<And>s'. writes s d s' \<Longrightarrow> commits (n a) s' b d'"
  shows "commits (ebind m n) s b d'"
  using assms by (force simp: commits_def writes_def ebind_def)

lemma commits_then:
  assumes "commits m s a d" and "\<And>s'. commits (n a) s' b (f (by_key (st_db s')))"
  shows "commits (ebind m n) s b (f d)"
  using assms(1) by (rule commits_ebind) (use assms(2) in \<open>auto simp: writes_def\<close>)

lemma commits_eret: "by_key (st_db s) = d \<Longrightarrow> commits (eret a) s a d"
  by (simp add: commits_def writes_def eret_def)

lemma commits_delete:
  "bk_storage B = in_memory_ops \<Longrightarrow> commits (on_db (db_delete B k)) s () ((by_key (st_db s))(k := None))"
  by (simp add: commits_def writes_def on_db_def ezoom_def db_delete_def in_memory_ops_def in_memory_delete_def emodify_def by_key_upd)

lemma commits_set:
  assumes "bk_storage B = in_memory_ops" and "\<not> dflt v \<Longrightarrow> enc v = Ok raw"
  shows "commits (on_db (db_set dflt enc B k v)) s () ((by_key (st_db s))(k := if dflt v then None else Some raw))"
proof (cases "dflt v")
  case True
  then show ?thesis using commits_delete [OF assms(1), of k s] by (simp add: db_set_def)
next
  case False
  with assms show ?thesis
    by (simp add: commits_def writes_def on_db_def ezoom_def db_set_def db_set_raw_def in_memory_ops_def in_memory_set_def eff_simps by_key_upd)
qed

section \<open>Accounts\<close>

definition stored_value :: "'d backend \<Rightarrow> u256 \<Rightarrow> bytes option" where
  "stored_value B v = (if v = 0 then None else Some (enc_value (bk_rlp B) v))"

definition after_storage ::
  "'d backend \<Rightarrow> address_with_space \<Rightarrow> (bytes \<times> u256) list \<Rightarrow> (state_key \<Rightarrow> bytes option) \<Rightarrow> state_key \<Rightarrow> bytes option" where
  "after_storage B a kvs d k = (case k of
     StorageKey b sk \<Rightarrow> if b = a then (case map_of kvs sk of Some v \<Rightarrow> stored_value B v | None \<Rightarrow> d k) else d k
   | _ \<Rightarrow> d k)"

lemma commit_storage_writes:
  assumes "bk_storage B = in_memory_ops" "distinct (map fst kvs)"
  shows "commits (commit_storage B a kvs) s () (after_storage B a kvs (by_key (st_db s)))"
  using assms(2)
proof (induction kvs arbitrary: s)
  case Nil
  show ?case by (simp, rule commits_eret) (auto simp: fun_eq_iff after_storage_def split: state_key.splits)
next
  case (Cons kv kvs)
  let ?k = "StorageKey a (fst kv)"
  let ?d = "(by_key (st_db s))(?k := stored_value B (snd kv))"
  have step: "commits (on_db (if snd kv = 0 then db_delete B ?k else db_set value_is_default (\<lambda>v. Ok (enc_value (bk_rlp B) v)) B ?k (snd kv))) s () ?d"
    using commits_delete [OF assms(1), of ?k s] commits_set [OF assms(1), of value_is_default "snd kv" "\<lambda>v. Ok (enc_value (bk_rlp B) v)" _ ?k s]
    by (auto simp: stored_value_def value_is_default_def)
  have "map_of kvs (fst kv) = None" using Cons.prems by (simp add: map_of_eq_None_iff)
  then have eq: "after_storage B a (kv # kvs) (by_key (st_db s)) = after_storage B a kvs ?d"
    by (auto simp: after_storage_def fun_eq_iff split: state_key.splits option.splits)
  have "commits (commit_storage B a kvs) s' () (after_storage B a kvs (by_key (st_db s')))" for s' using Cons by simp
  then show ?case unfolding commit_storage.simps eq by (rule commits_then [OF step])
qed

text \<open>What the commit of a whole account leaves, except for its code.\<close>

definition stored_account :: "'d backend \<Rightarrow> overlay_account \<Rightarrow> bytes option" where
  "stored_account B oa = (if account_is_default B (as_account B oa) then None
     else Some (enc_evm_account (bk_rlp B) (to_evm_account (as_account B oa))))"

definition after_account ::
  "'d backend \<Rightarrow> overlay_account \<Rightarrow> (state_key \<Rightarrow> bytes option) \<Rightarrow> state_key \<Rightarrow> bytes option" where
  "after_account B oa d = (after_storage B (oa_address oa) (if removed_without_update B oa then [] else oa_write_cache oa)
     (if oa_code oa = None \<or> removed_without_update B oa then d else d(CodeKey (oa_address oa) := None)))
     (AccountKey (oa_address oa) := stored_account B oa)"

definition has_code :: "overlay_account \<Rightarrow> bool" where
  "has_code oa \<longleftrightarrow> (case oa_code oa of None \<Rightarrow> False | Some c \<Rightarrow> c \<noteq> [])"

lemma oa_commit_prefix:
  assumes "bk_storage B = in_memory_ops" "hm_ok (oa_write_cache oa)"
  shows "commits (ethen (if oa_invalidated oa then recycle_storage B [oa_address oa] else eret ()) (commit_storage B (oa_address oa) (oa_write_cache oa))) s ()
    (after_storage B (oa_address oa) (oa_write_cache oa)
      (if oa_invalidated oa then (by_key (st_db s))(AccountKey (oa_address oa) := None) else by_key (st_db s)))"
proof -
  have "commits (recycle_storage B [oa_address oa]) s () ((by_key (st_db s))(AccountKey (oa_address oa) := None))"
    unfolding recycle_storage.simps by (rule commits_ebind [OF commits_delete [OF assms(1)]], rule commits_eret) (simp add: writes_def)
  then have "commits (if oa_invalidated oa then recycle_storage B [oa_address oa] else eret ()) s ()
      (if oa_invalidated oa then (by_key (st_db s))(AccountKey (oa_address oa) := None) else by_key (st_db s))"
    by (simp add: commits_eret del: recycle_storage.simps)
  moreover have "commits (commit_storage B (oa_address oa) (oa_write_cache oa)) s' ()
      (after_storage B (oa_address oa) (oa_write_cache oa) (by_key (st_db s')))" for s'
    using commit_storage_writes [OF assms(1)] assms(2) by (simp add: hm_ok_def)
  ultimately show ?thesis by (rule commits_then)
qed

lemma oa_commit_split: "oa_commit B a oa =
  ethen (ethen (if oa_invalidated oa then recycle_storage B [oa_address oa] else eret ()) (commit_storage B (oa_address oa) (oa_write_cache oa)))
    (ethen (case oa_code oa of Some c \<Rightarrow> on_db (db_set code_is_default (code_info_rlp (bk_rlp B)) B (CodeKey (oa_address oa)) c) | None \<Rightarrow> eret ())
      (on_db (db_set (account_is_default B) (\<lambda>acc. Ok (enc_evm_account (bk_rlp B) (to_evm_account acc))) B (AccountKey a) (as_account B oa))))"
  unfolding oa_commit_def by (rule ext) (auto simp: ebind_def split: res.splits prod.splits)

lemma oa_commit_writes:
  assumes B: "bk_storage B = in_memory_ops" and oa: "hm_ok (oa_write_cache oa)" "oa_address oa = a" "\<not> has_code oa" "\<not> removed_without_update B oa"
  shows "commits (oa_commit B a oa) s () (after_account B oa (by_key (st_db s)))"
proof -
  let ?d1 = "after_storage B a (oa_write_cache oa) (if oa_invalidated oa then (by_key (st_db s))(AccountKey a := None) else by_key (st_db s))"
  let ?d2 = "if oa_code oa = None then ?d1 else ?d1(CodeKey a := None)"
  have code: "commits (case oa_code oa of Some c \<Rightarrow> on_db (db_set code_is_default (code_info_rlp (bk_rlp B)) B (CodeKey a) c) | None \<Rightarrow> eret ()) s' () ?d2"
    if "writes s ?d1 s'" for s'
    using that oa(3) commits_set [OF B, of code_is_default "[]" "code_info_rlp (bk_rlp B)" _ "CodeKey a" s']
    by (auto simp: writes_def has_code_def code_is_default_def intro: commits_eret split: option.splits)
  have "commits (on_db (db_set (account_is_default B) (\<lambda>acc. Ok (enc_evm_account (bk_rlp B) (to_evm_account acc))) B (AccountKey a) (as_account B oa))) s' ()
      (after_account B oa (by_key (st_db s)))" if "writes s'' ?d2 s'" for s' s''
  proof -
    have "(by_key (st_db s'))(AccountKey a := stored_account B oa) = after_account B oa (by_key (st_db s))"
      using that oa(2,4) by (auto simp: writes_def after_account_def after_storage_def fun_eq_iff split: state_key.splits option.splits)
    then show ?thesis
      using commits_set [OF B, of "account_is_default B" "as_account B oa" "\<lambda>acc. Ok (enc_evm_account (bk_rlp B) (to_evm_account acc))"
          "enc_evm_account (bk_rlp B) (to_evm_account (as_account B oa))" "AccountKey a" s']
      by (simp add: stored_account_def)
  qed
  then show ?thesis
    unfolding oa_commit_split oa(2) using oa_commit_prefix [OF B oa(1), of s, unfolded oa(2)] code by (blast intro: commits_ebind)
qed

text \<open>The encoding of code never completes its list.\<close>

lemma oa_commit_panics:
  assumes B: "bk_storage B = in_memory_ops" and oa: "hm_ok (oa_write_cache oa)" "has_code oa"
  shows "fst (oa_commit B a oa s) = Panic"
proof -
  obtain c where c: "oa_code oa = Some c" "c \<noteq> []" using oa(2) by (auto simp: has_code_def split: option.splits)
  have "fst (on_db (db_set code_is_default (code_info_rlp (bk_rlp B)) B k c) s') = Panic" for k s'
    using c(2) by (simp add: on_db_def ezoom_def db_set_def code_is_default_def code_info_rlp_def stream_list_def eff_simps)
  then have "fst (ethen (on_db (db_set code_is_default (code_info_rlp (bk_rlp B)) B k c)) m s') = Panic" for k m s'
    by (auto simp: ebind_def split: res.splits prod.splits) (metis fst_conv res.distinct)+
  then show ?thesis
    unfolding oa_commit_split using oa_commit_prefix [OF B oa(1), of s] c(1) by (auto simp: commits_def ebind_def)
qed

section \<open>The whole cache\<close>

fun key_address :: "state_key \<Rightarrow> address_with_space" where
  "key_address (AccountKey a) = a"
| "key_address (StorageKey a k) = a"
| "key_address (CodeKey a) = a"

lemma after_account_other: "key_address k \<noteq> oa_address oa \<Longrightarrow> after_account B oa d k = d k"
  by (cases k) (auto simp: after_account_def after_storage_def)

lemma after_account_local: "d k = d' k \<Longrightarrow> after_account B oa d k = after_account B oa d' k"
  by (cases k) (auto simp: after_account_def after_storage_def split: option.splits)

definition after_entry :: "'d backend \<Rightarrow> account_entry option \<Rightarrow> (state_key \<Rightarrow> bytes option) \<Rightarrow> state_key \<Rightarrow> bytes option" where
  "after_entry B e d = (case e of None \<Rightarrow> d | Some e \<Rightarrow> (case ae_account e of None \<Rightarrow> d | Some oa \<Rightarrow> after_account B oa d))"

lemma after_entry_local: "d k = d' k \<Longrightarrow> after_entry B e d k = after_entry B e d' k"
  by (auto simp: after_entry_def split: option.splits intro: after_account_local)

text \<open>A killed account loses its record and nothing else.\<close>

lemma after_account_killed:
  "removed_without_update B oa \<Longrightarrow> after_account B oa d k = (if k = AccountKey (oa_address oa) then None else d k)"
  by (cases k) (auto simp: after_account_def after_storage_def stored_account_def removed_without_update_def)

definition can_commit :: "'d backend \<Rightarrow> address_with_space \<times> account_entry \<Rightarrow> bool" where
  "can_commit B = (\<lambda>(a, e). \<forall>oa. ae_account e = Some oa \<longrightarrow>
     hm_ok (oa_write_cache oa) \<and> oa_address oa = a \<and> (removed_without_update B oa \<or> \<not> has_code oa))"

definition is_killed :: "'d backend \<Rightarrow> address_with_space \<times> account_entry \<Rightarrow> bool" where
  "is_killed B = (\<lambda>(a, e). case ae_account e of None \<Rightarrow> False | Some oa \<Rightarrow> removed_without_update B oa)"

definition after_accounts ::
  "'d backend \<Rightarrow> (address_with_space \<times> account_entry) list \<Rightarrow> (state_key \<Rightarrow> bytes option) \<Rightarrow> state_key \<Rightarrow> bytes option" where
  "after_accounts B xs = fold (\<lambda>x d. if is_killed B x then d else after_entry B (Some (snd x)) d) xs"

lemma commit_accounts_writes:
  assumes B: "bk_storage B = in_memory_ops" and "list_all (can_commit B) xs"
  shows "commits (commit_accounts B xs) s (map fst (filter (is_killed B) xs)) (after_accounts B xs (by_key (st_db s)))"
  using assms(2)
proof (induction xs arbitrary: s)
  case Nil
  show ?case by (simp, rule commits_eret) (simp add: after_accounts_def)
next
  case (Cons x xs)
  obtain a e where x: "x = (a, e)" by (cases x)
  have IH: "commits (commit_accounts B xs) s' (map fst (filter (is_killed B) xs)) (after_accounts B xs (by_key (st_db s')))" for s'
    using Cons by simp
  note unfold = x is_killed_def after_accounts_def after_entry_def
  show ?case
  proof (cases "ae_account e")
    case None
    then show ?thesis using IH [of s] by (simp add: unfold)
  next
    case (Some oa)
    have notify: "commits (emodify (\<lambda>s. s\<lparr>st_notify := st_notify s @ [n]\<rparr>)) s' () (by_key (st_db s'))" for n s'
      by (simp add: commits_def writes_def emodify_def)
    show ?thesis
    proof (cases "removed_without_update B oa")
      case True
      have "commits (ebind (commit_accounts B xs) (\<lambda>killed. eret (a # killed))) s' (a # map fst (filter (is_killed B) xs))
          (after_accounts B xs (by_key (st_db s')))" for s'
        using IH [of s'] by (auto simp: commits_def ebind_def eret_def)
      then have "commits (commit_accounts B ((a, e) # xs)) s (a # map fst (filter (is_killed B) xs)) (after_accounts B xs (by_key (st_db s)))"
        by (simp add: Some True) (rule commits_then [OF notify])
      then show ?thesis using Some True by (simp add: unfold)
    next
      case False
      then have "commits (oa_commit B a oa) s () (after_account B oa (by_key (st_db s)))"
        using oa_commit_writes [OF B] Cons.prems Some by (simp add: x can_commit_def)
      then have "commits (commit_accounts B ((a, e) # xs)) s (map fst (filter (is_killed B) xs)) (after_accounts B xs (after_account B oa (by_key (st_db s))))"
        by (simp add: Some False) (rule commits_then, assumption, rule commits_then [OF notify IH])
      then show ?thesis using Some False by (simp add: unfold)
    qed
  qed
qed

text \<open>Each key depends on the entry of its own account only.\<close>

lemma after_accounts_key:
  assumes "list_all (can_commit B) xs" "distinct (map fst xs)"
  shows "after_accounts B xs d k = (case map_of xs (key_address k) of None \<Rightarrow> d k
    | Some e \<Rightarrow> if is_killed B (key_address k, e) then d k else after_entry B (Some e) d k)"
  using assms
proof (induction xs arbitrary: d)
  case Nil
  then show ?case by (simp add: after_accounts_def)
next
  case (Cons x xs)
  obtain a e where x: "x = (a, e)" by (cases x)
  define d' where "d' = (if is_killed B x then d else after_entry B (Some e) d)"
  have step: "after_accounts B (x # xs) d = after_accounts B xs d'" by (simp add: after_accounts_def x d'_def)
  have other: "d' k = d k" if "key_address k \<noteq> a"
    using that Cons.prems(1) by (auto simp: d'_def x after_entry_def can_commit_def after_account_other split: option.splits)
  show ?case
  proof (cases "key_address k = a")
    case True
    then have "map_of xs (key_address k) = None" using Cons.prems(2) by (simp add: x map_of_eq_None_iff)
    then show ?thesis unfolding step using Cons True by (simp add: x d'_def)
  next
    case False
    have "after_entry B (Some e') d' k = after_entry B (Some e') d k" for e'
      using other [OF False] by (rule after_entry_local)
    then show ?thesis unfolding step using Cons False other by (simp add: x split: option.splits)
  qed
qed

lemma recycle_writes:
  assumes "bk_storage B = in_memory_ops"
  shows "commits (recycle_storage B as) s () (\<lambda>k. if k \<in> AccountKey ` set as then None else by_key (st_db s) k)"
proof (induction as arbitrary: s)
  case Nil
  show ?case by (simp, rule commits_eret) simp
next
  case (Cons a as)
  have "(\<lambda>k. if k \<in> AccountKey ` set (a # as) then None else by_key (st_db s) k) =
      (\<lambda>d k. if k \<in> AccountKey ` set as then None else d k) ((by_key (st_db s))(AccountKey a := None))" by (auto simp: fun_eq_iff)
  then show ?case unfolding recycle_storage.simps using commits_then [OF commits_delete [OF assms] Cons] by simp
qed

text \<open>What a commit leaves, by key.\<close>

lemma state_commit_writes:
  assumes B: "bk_storage B = in_memory_ops" and cps: "st_checkpoints s = []" "st_statistics_checkpoints s = []"
    and ok: "list_all (can_commit B) (st_cache s)" "hm_ok (st_cache s)"
  shows "\<exists>s'. state_commit B epoch_id s = (Ok (), s') \<and> st_cache s' = [] \<and>
    (\<forall>k. k \<noteq> total_tokens_state_key \<longrightarrow> by_key (st_db s') k = after_entry B (hm_get (st_cache s) (key_address k)) (by_key (st_db s)) k)"
proof -
  let ?xs = "sort_key fst (st_cache s)" and ?s = "s\<lparr>st_cache := []\<rparr>"
  let ?killed = "map fst (filter (is_killed B) ?xs)"
  have xs: "list_all (can_commit B) ?xs" "distinct (map fst ?xs)" using ok by (auto simp: list_all_iff hm_ok_def distinct_map)
  then have get: "map_of ?xs = map_of (st_cache s)" using ok(2) by (subst map_of_inject_set) (auto simp: hm_ok_def)
  let ?d = "\<lambda>k. if k \<in> AccountKey ` set ?killed then None else after_accounts B ?xs (by_key (st_db s)) k"
  let ?t = "?d(total_tokens_state_key := if total_issued (st_statistics s) = 0 then None else Some (enc_u256 (bk_rlp B) (total_issued (st_statistics s))))"
  have statistics: "commits (commit_world_statistics B) s' () ?t" if "by_key (st_db s') = ?d" "st_statistics s' = st_statistics s" for s'
    using that commits_set [OF B, of value_is_default "total_issued (st_statistics s)" "\<lambda>v. Ok (enc_u256 (bk_rlp B) v)"
        "enc_u256 (bk_rlp B) (total_issued (st_statistics s))" total_tokens_state_key s']
    by (simp add: commit_world_statistics_def ebind_def eget_def commits_def total_issued_tokens_def set_total_issued_tokens_def value_is_default_def writes_def)
  have close: "commits (on_db (db_commit B epoch_id)) s' () (by_key (st_db s'))" for s'
    using B by (simp add: commits_def writes_def on_db_def ezoom_def db_commit_def in_memory_ops_def in_memory_commit_def eret_def)
  have "commits (ebind (commit_accounts B ?xs) (\<lambda>killed. ethen (recycle_storage B killed)
      (ethen (commit_world_statistics B) (on_db (db_commit B epoch_id))))) ?s () ?t"
  proof (rule commits_ebind [OF commit_accounts_writes [OF B xs(1)]])
    fix s1 assume w1: "writes ?s (after_accounts B ?xs (by_key (st_db ?s))) s1"
    then have db: "by_key (st_db s1) = after_accounts B ?xs (by_key (st_db s))" by (simp add: writes_def)
    have "commits (recycle_storage B ?killed) s1 () ?d" using recycle_writes [OF B, of ?killed s1] unfolding db .
    then show "commits (ethen (recycle_storage B ?killed) (ethen (commit_world_statistics B) (on_db (db_commit B epoch_id)))) s1 () ?t"
    proof (rule commits_ebind)
      fix s2 assume w2: "writes s1 ?d s2"
      then have "commits (commit_world_statistics B) s2 () ?t" using w1 by (intro statistics) (auto simp: writes_def)
      then show "commits (ethen (commit_world_statistics B) (on_db (db_commit B epoch_id))) s2 () ?t"
        by (rule commits_then [where f = "\<lambda>d. d"]) (rule close)
    qed
  qed
  then obtain s' where s': "state_commit B epoch_id s = (Ok (), s')" "by_key (st_db s') = ?t" "st_cache s' = []"
    using cps by (auto simp: commits_def writes_def state_commit_def)
  have "?d k = after_entry B (hm_get (st_cache s) (key_address k)) (by_key (st_db s)) k" for k
  proof -
    have killed: "k \<in> AccountKey ` set ?killed \<longleftrightarrow>
        k = AccountKey (key_address k) \<and> (\<exists>e. hm_get (st_cache s) (key_address k) = Some e \<and> is_killed B (key_address k, e))"
      using ok(2) by (cases k) (force simp: hm_ok_def)+
    show ?thesis
    proof (cases "hm_get (st_cache s) (key_address k)")
      case None
      then show ?thesis unfolding killed by (simp add: after_accounts_key [OF xs] get after_entry_def)
    next
      case (Some e)
      have "can_commit B (key_address k, e)" using ok(1) map_of_SomeD [OF Some] by (simp add: list_all_iff)
      then show ?thesis
        unfolding killed using Some by (auto simp: after_accounts_key [OF xs] get after_entry_def is_killed_def can_commit_def after_account_killed split: option.splits)
    qed
  qed
  then show ?thesis using s' by auto
qed

text \<open>The first account with code stops the commit.\<close>

lemma ebind_Panic: "fst (m s) = Panic \<Longrightarrow> fst (ebind m n s) = Panic"
  by (auto simp: ebind_def split: res.splits prod.splits)

lemma ethen_emodify: "ethen (emodify f) m s = m (f s)"
  by (simp add: ebind_def emodify_def)

lemma commit_accounts_panics:
  assumes B: "bk_storage B = in_memory_ops"
    and "\<forall>(a, e) \<in> set xs. \<forall>oa. ae_account e = Some oa \<longrightarrow> hm_ok (oa_write_cache oa) \<and> oa_address oa = a"
    and "\<not> list_all (can_commit B) xs"
  shows "fst (commit_accounts B xs s) = Panic"
  using assms(2,3)
proof (induction xs arbitrary: s)
  case (Cons x xs)
  obtain a e where x: "x = (a, e)" by (cases x)
  have rest: "fst (commit_accounts B xs s') = Panic" if "can_commit B x" for s' using that Cons by simp
  show ?case
  proof (cases "ae_account e")
    case None
    then show ?thesis using rest by (simp add: x can_commit_def)
  next
    case (Some oa)
    have oa: "hm_ok (oa_write_cache oa)" "oa_address oa = a" using Cons.prems(1) Some by (auto simp: x)
    show ?thesis
    proof (cases "removed_without_update B oa \<or> \<not> has_code oa")
      case True
      then have "can_commit B x" using Some oa by (simp add: x can_commit_def)
      then have "fst (ethen (emodify f) (commit_accounts B xs) s') = Panic" "fst (ethen (emodify f) (ebind (commit_accounts B xs) g) s') = Panic" for f g s'
        using rest ebind_Panic [of "commit_accounts B xs"] by (simp_all add: ethen_emodify)
      moreover have "\<exists>s'. oa_commit B a oa s = (Ok (), s')" if "\<not> removed_without_update B oa"
        using oa_commit_writes [OF B oa(1,2)] that True by (auto simp: commits_def)
      ultimately show ?thesis using Some by (auto simp: x ebind_def [of "oa_commit B a oa"])
    next
      case False
      then show ?thesis using Some oa_commit_panics [OF B oa(1)] ebind_Panic [of "oa_commit B a oa"] by (simp add: x)
    qed
  qed
qed simp

section \<open>What is read afterwards\<close>

lemma db_get_by_key:
  assumes "bk_storage B = in_memory_ops"
  shows "db_get_account B a db = (case by_key db (AccountKey a) of None \<Rightarrow> Ok None | Some raw \<Rightarrow> rmap Some (new_from_rlp B (aws_address a) raw))"
    "db_get_storage B a k db = (case by_key db (StorageKey a k) of None \<Rightarrow> Ok None | Some raw \<Rightarrow> rmap Some (map_err DecoderError (dec_value (bk_rlp B) raw)))"
  using assms
  by (simp_all add: db_get_account_def db_get_storage_def db_get_def db_get_raw_def in_memory_ops_def in_memory_get_def by_key_def rmap_def split: option.splits)

lemma list_all_hm: "hm_ok m \<Longrightarrow> list_all P m \<longleftrightarrow> (\<forall>a e. hm_get m a = Some e \<longrightarrow> P (a, e))"
  by (force simp: list_all_iff hm_ok_def)

lemma stored_account_read:
  assumes B: "bk_storage B = in_memory_ops" and oa: "by_key db (AccountKey a) = stored_account B oa" "oa_address oa = a"
    and codec: "\<And>x. item_count (bk_rlp B) (enc_evm_account (bk_rlp B) x) = Ok 3 \<and> dec_evm_account (bk_rlp B) (enc_evm_account (bk_rlp B) x) = Ok x"
  shows "db_get_account B a db = Ok (if is_null B oa then None
    else Some \<lparr>ac_address = a, ac_balance = oa_balance oa, ac_nonce = oa_nonce oa, ac_code_hash = oa_code_hash oa\<rparr>)"
proof -
  have "with_space (aws_address a) Ethereum = a" by (simp add: aws_eq_iff with_space_def)
  then show ?thesis
    using oa by (simp add: db_get_by_key(1) [OF B] stored_account_def rmap_def new_from_rlp_def codec to_evm_account_def from_ethereum_account_def
        as_account_def new_empty_def new_empty_with_balance_def account_is_default_def is_null_def)
qed

lemma stored_value_read:
  assumes B: "bk_storage B = in_memory_ops" and codec: "\<And>v. dec_value (bk_rlp B) (enc_value (bk_rlp B) v) = Ok v"
    and oa: "by_key db' (StorageKey a k) = (case hm_get (oa_write_cache oa) k of Some v \<Rightarrow> stored_value B v | None \<Rightarrow> by_key db (StorageKey a k))"
      "oa_address oa = a" "\<not> fresh_storage oa"
  shows "rmap or_zero (db_get_storage B a k db') = storage_view B db oa k"
proof (cases "hm_get (oa_write_cache oa) k")
  case None
  then show ?thesis using oa by (simp add: storage_view_def db_get_by_key(2) [OF B])
next
  case (Some v)
  then show ?thesis
    using oa by (cases "v = 0") (simp_all add: storage_view_def db_get_by_key(2) [OF B] stored_value_def codec rmap_def or_zero_def)
qed

text \<open>What is read of an account, after the commit of the state \<open>s\<close> into \<open>db\<close>.\<close>

definition read_back :: "'d backend \<Rightarrow> 'd state \<Rightarrow> 'd \<Rightarrow> address_with_space \<Rightarrow> bool" where
  "read_back B s db a \<longleftrightarrow> (case Option.bind (hm_get (st_cache s) a) ae_account of
     Some oa \<Rightarrow> db_get_account B a db = Ok (if is_null B oa then None
         else Some \<lparr>ac_address = a, ac_balance = oa_balance oa, ac_nonce = oa_nonce oa, ac_code_hash = oa_code_hash oa\<rparr>) \<and>
       (\<not> fresh_storage oa \<longrightarrow> (\<forall>k. StorageKey a k \<noteq> total_tokens_state_key \<longrightarrow>
         rmap or_zero (db_get_storage B a k db) = storage_view B (st_db s) oa k))
   | None \<Rightarrow> db_get_account B a db = db_get_account B a (st_db s) \<and>
       (\<forall>k. StorageKey a k \<noteq> total_tokens_state_key \<longrightarrow> db_get_storage B a k db = db_get_storage B a k (st_db s)))"

lemma read_back_by_key:
  assumes B: "bk_storage B = in_memory_ops"
    and account_codec: "\<And>x. item_count (bk_rlp B) (enc_evm_account (bk_rlp B) x) = Ok 3 \<and> dec_evm_account (bk_rlp B) (enc_evm_account (bk_rlp B) x) = Ok x"
    and value_codec: "\<And>v. dec_value (bk_rlp B) (enc_value (bk_rlp B) v) = Ok v"
    and addresses: "\<And>e oa. hm_get (st_cache s) a = Some e \<Longrightarrow> ae_account e = Some oa \<Longrightarrow> oa_address oa = a"
    and by_key: "\<And>k. k \<noteq> total_tokens_state_key \<Longrightarrow> by_key db k = after_entry B (hm_get (st_cache s) (key_address k)) (by_key (st_db s)) k"
  shows "read_back B s db a"
proof (cases "Option.bind (hm_get (st_cache s) a) ae_account")
  case None
  then have "by_key db k = by_key (st_db s) k" if "key_address k = a" "k \<noteq> total_tokens_state_key" for k
    using that by_key [of k] by (auto simp: after_entry_def split: option.splits)
  then show ?thesis using None by (simp add: read_back_def db_get_by_key [OF B] total_tokens_state_key_def)
next
  case (Some oa)
  then obtain e where e: "hm_get (st_cache s) a = Some e" "ae_account e = Some oa" by (auto simp: bind_eq_Some_conv)
  note oa = addresses [OF e]
  have "by_key db (AccountKey a) = stored_account B oa"
    using e oa by_key [of "AccountKey a"] by (simp add: after_entry_def after_account_def total_tokens_state_key_def)
  moreover have "by_key db (StorageKey a k) = (case hm_get (oa_write_cache oa) k of Some v \<Rightarrow> stored_value B v | None \<Rightarrow> by_key (st_db s) (StorageKey a k))"
    if "\<not> fresh_storage oa" "StorageKey a k \<noteq> total_tokens_state_key" for k
    using that e oa by_key [of "StorageKey a k"]
    by (auto simp: after_entry_def after_account_def after_storage_def removed_without_update_def fresh_storage_def split: option.splits)
  ultimately show ?thesis
    using Some stored_account_read [OF B _ oa account_codec] stored_value_read [OF B value_codec _ oa] by (simp add: read_back_def)
qed



end
