(* ===== verification/Transactions.thy ===== *)
theory Transactions
  imports Executor Keys
begin

text \<open>
  Transactions as they are signed, sent and executed (utils/primitives/src/transaction.rs, with the
  view of the executor in src/execution/transaction_info.rs).  Keccak is the parameter \<open>K\<close>, the RLP crate
  \<open>R\<close> and the secp256k1 crate \<open>S\<close>.
\<close>

section \<open>Data\<close>

record eip155_transaction =
  et_nonce :: u256
  et_gas_price :: u256
  et_gas :: u256
  et_action :: tx_action
  et_value :: u256
  et_chain_id :: "u32 option"
  et_data :: bytes

datatype transaction = EthereumTx eip155_transaction

record tx_serialize_part =
  tp_unsigned :: transaction
  tp_v :: byte
  tp_r :: u256
  tp_s :: u256

record transaction_with_signature =
  tw_transaction :: tx_serialize_part
  tw_hash :: h256
  tw_rlp_size :: "nat option"

record signed_transaction =
  sx_transaction :: transaction_with_signature
  sx_sender :: address
  sx_public :: "bytes option"

primrec eip155_of :: "transaction \<Rightarrow> eip155_transaction" where
  "eip155_of (EthereumTx tx) = tx"

section \<open>Replay protection\<close>

definition add_chain_replay_protection :: "byte \<Rightarrow> u64 option \<Rightarrow> ('e, u64) res" where
  "add_chain_replay_protection v chain_id =
     rbind (case chain_id of Some n \<Rightarrow> rbind (u_mul n 2) (u_add 35) | None \<Rightarrow> Ok 27) (u_add (ucast v))"

definition extract_standard_v :: "u64 \<Rightarrow> byte" where
  "extract_standard_v v = (if v = 27 then 0 else if v = 28 then 1 else if 35 \<le> v then ucast ((v - 1) mod 2) else 4)"

definition extract_chain_id_from_legacy_v :: "u64 \<Rightarrow> u64 option" where
  "extract_chain_id_from_legacy_v v = (if 35 \<le> v then Some ((v - 35) div 2) else None)"

section \<open>Encodings\<close>

definition action_rlp :: "'x rlp_crate_scheme \<Rightarrow> tx_action \<Rightarrow> bytes" where
  "action_rlp R a = (case a of TxCreate \<Rightarrow> enc_bytes R [] | TxCall address \<Rightarrow> enc_address R address)"

definition action_decode :: "'x rlp_crate_scheme \<Rightarrow> bytes \<Rightarrow> (string, tx_action) res" where
  "action_decode R r = (if rlp_is_empty R r then Ok TxCreate else rbind (dec_address R r) (\<lambda>a. Ok (TxCall a)))"

definition eip155_rlp :: "'x rlp_crate_scheme \<Rightarrow> eip155_transaction \<Rightarrow> ('e, bytes) res" where
  "eip155_rlp R tx =
     (let fields = [enc_u256 R (et_nonce tx), enc_u256 R (et_gas_price tx), enc_u256 R (et_gas tx), action_rlp R (et_action tx),
        enc_u256 R (et_value tx), enc_bytes R (et_data tx)] in
      case et_chain_id tx of
        Some chain_id \<Rightarrow> stream_list R 9 (fields @ [enc_u32 R chain_id, enc_u8 R 0, enc_u8 R 0])
      | None \<Rightarrow> stream_list R 6 fields)"

definition part_rlp :: "'x rlp_crate_scheme \<Rightarrow> tx_serialize_part \<Rightarrow> ('e, bytes) res" where
  "part_rlp R t =
     (let tx = eip155_of (tp_unsigned t) in
      rbind (add_chain_replay_protection (tp_v t) (map_option ucast (et_chain_id tx))) (\<lambda>legacy_v.
      stream_list R 9 [enc_u256 R (et_nonce tx), enc_u256 R (et_gas_price tx), enc_u256 R (et_gas tx), action_rlp R (et_action tx),
        enc_u256 R (et_value tx), enc_bytes R (et_data tx), enc_u64 R legacy_v, enc_u256 R (tp_r t), enc_u256 R (tp_s t)]))"

definition part_decode :: "'x rlp_crate_scheme \<Rightarrow> bytes \<Rightarrow> (string, tx_serialize_part) res" where
  "part_decode R rlp = rbind (item_count R rlp) (\<lambda>n.
     if n \<noteq> 9 then Err ''RlpInvalidLength'' else
     rbind (val_at R (dec_u256 R) rlp 0) (\<lambda>nonce.
     rbind (val_at R (dec_u256 R) rlp 1) (\<lambda>gas_price.
     rbind (val_at R (dec_u256 R) rlp 2) (\<lambda>gas.
     rbind (val_at R (action_decode R) rlp 3) (\<lambda>action.
     rbind (val_at R (dec_u256 R) rlp 4) (\<lambda>v_value.
     rbind (val_at R (dec_bytes R) rlp 5) (\<lambda>data.
     rbind (val_at R (dec_u64 R) rlp 6) (\<lambda>legacy_v.
     rbind (val_at R (dec_u256 R) rlp 7) (\<lambda>r.
     rbind (val_at R (dec_u256 R) rlp 8) (\<lambda>s.
     rbind (case extract_chain_id_from_legacy_v legacy_v of
         None \<Rightarrow> Ok None
       | Some chain_id \<Rightarrow> if 0xffffffff < chain_id then Err ''Does not support chain_id >= 2^32'' else Ok (Some (ucast chain_id))) (\<lambda>chain_id.
     Ok \<lparr>tp_unsigned = EthereumTx \<lparr>et_nonce = nonce, et_gas_price = gas_price, et_gas = gas, et_action = action, et_value = v_value,
           et_chain_id = chain_id, et_data = data\<rparr>,
         tp_v = extract_standard_v legacy_v, tp_r = r, tp_s = s\<rparr>)))))))))))"

definition tws_decode :: "(bytes \<Rightarrow> h256) \<Rightarrow> 'x rlp_crate_scheme \<Rightarrow> bytes \<Rightarrow> (string, transaction_with_signature) res" where
  "tws_decode K R d = rbind (item_count R d) (\<lambda>n.
     if n \<noteq> 4 \<and> n \<noteq> 9 then Err ''RlpIncorrectListLen''
     else rbind (part_decode R d) (\<lambda>t. Ok \<lparr>tw_transaction = t, tw_hash = K d, tw_rlp_size = Some (length d)\<rparr>))"

definition tws_rlp :: "'x rlp_crate_scheme \<Rightarrow> transaction_with_signature \<Rightarrow> ('e, bytes) res" where
  "tws_rlp R t = part_rlp R (tw_transaction t)"

text \<open>\<open>Option<Public>\<close> is encoded as the crate does it.\<close>

definition signed_rlp :: "'x rlp_crate_scheme \<Rightarrow> signed_transaction \<Rightarrow> ('e, bytes) res" where
  "signed_rlp R t = rbind (tws_rlp R (sx_transaction t)) (\<lambda>raw.
     stream_list R 3 [raw, enc_address R (sx_sender t), enc_option R (map_option (\<lambda>p. enc_h512 R (from_be p)) (sx_public t))])"

definition signed_decode :: "(bytes \<Rightarrow> h256) \<Rightarrow> 'x rlp_crate_scheme \<Rightarrow> bytes \<Rightarrow> (string, signed_transaction) res" where
  "signed_decode K R rlp = rbind (val_at R (tws_decode K R) rlp 0) (\<lambda>t. rbind (val_at R (dec_address R) rlp 1) (\<lambda>sender.
     rbind (val_at R (option_of R (\<lambda>r. rbind (dec_h512 R r) (\<lambda>p. Ok (to_be 64 p)))) rlp 2) (\<lambda>public.
     Ok \<lparr>sx_transaction = t, sx_sender = sender, sx_public = public\<rparr>)))"

section \<open>Signing\<close>

definition compute_hash :: "(bytes \<Rightarrow> h256) \<Rightarrow> 'x rlp_crate_scheme \<Rightarrow> transaction_with_signature \<Rightarrow> ('e, transaction_with_signature) res" where
  "compute_hash K R t = rbind (tws_rlp R t) (\<lambda>raw. Ok (t\<lparr>tw_hash := K raw\<rparr>))"

definition signature_hash :: "(bytes \<Rightarrow> h256) \<Rightarrow> 'x rlp_crate_scheme \<Rightarrow> transaction \<Rightarrow> ('e, h256) res" where
  "signature_hash K R t = rbind (eip155_rlp R (eip155_of t)) (\<lambda>raw. Ok (K raw))"

definition with_rsv :: "(bytes \<Rightarrow> h256) \<Rightarrow> 'x rlp_crate_scheme \<Rightarrow> transaction \<Rightarrow> u256 \<Rightarrow> u256 \<Rightarrow> byte \<Rightarrow> ('e, transaction_with_signature) res" where
  "with_rsv K R t r s v =
     compute_hash K R \<lparr>tw_transaction = \<lparr>tp_unsigned = t, tp_v = v, tp_r = r, tp_s = s\<rparr>, tw_hash = 0, tw_rlp_size = None\<rparr>"

definition with_signature :: "(bytes \<Rightarrow> h256) \<Rightarrow> 'x rlp_crate_scheme \<Rightarrow> transaction \<Rightarrow> bytes \<Rightarrow> ('e, transaction_with_signature) res" where
  "with_signature K R t sig = with_rsv K R t (from_be (sig_r sig)) (from_be (sig_s sig)) (sig_v sig)"

definition tws_new_unsigned :: "transaction \<Rightarrow> transaction_with_signature" where
  "tws_new_unsigned t = \<lparr>tw_transaction = \<lparr>tp_unsigned = t, tp_v = 0, tp_r = 0, tp_s = 0\<rparr>, tw_hash = 0, tw_rlp_size = None\<rparr>"

definition is_unsigned :: "transaction_with_signature \<Rightarrow> bool" where
  "is_unsigned t \<longleftrightarrow> tp_r (tw_transaction t) = 0 \<and> tp_s (tw_transaction t) = 0"

definition tws_signature :: "transaction_with_signature \<Rightarrow> bytes" where
  "tws_signature t = from_rsv (tp_r (tw_transaction t)) (tp_s (tw_transaction t)) (tp_v (tw_transaction t))"

definition check_low_s :: "transaction_with_signature \<Rightarrow> (key_error, unit) res" where
  "check_low_s t = (if is_low_s (tws_signature t) then Ok () else Err InvalidSignature)"

definition recover_public :: "secp_ops \<Rightarrow> (bytes \<Rightarrow> h256) \<Rightarrow> 'x rlp_crate_scheme \<Rightarrow> transaction_with_signature \<Rightarrow> (key_error, bytes) res" where
  "recover_public S K R t = rbind (signature_hash K R (tp_unsigned (tw_transaction t))) (recover S (tws_signature t))"

definition tws_size :: "'x rlp_crate_scheme \<Rightarrow> transaction_with_signature \<Rightarrow> ('e, nat) res" where
  "tws_size R t = (case tw_rlp_size t of Some n \<Rightarrow> Ok n | None \<Rightarrow> rbind (tws_rlp R t) (\<lambda>raw. Ok (length raw)))"

definition signed_new :: "(bytes \<Rightarrow> h256) \<Rightarrow> bytes \<Rightarrow> transaction_with_signature \<Rightarrow> signed_transaction" where
  "signed_new K public t =
     (if is_unsigned t then \<lparr>sx_transaction = t, sx_sender = UNSIGNED_SENDER, sx_public = None\<rparr>
      else \<lparr>sx_transaction = t, sx_sender = public_to_address K public, sx_public = Some public\<rparr>)"

definition signed_new_unsigned :: "transaction_with_signature \<Rightarrow> signed_transaction" where
  "signed_new_unsigned t = \<lparr>sx_transaction = t, sx_sender = UNSIGNED_SENDER, sx_public = None\<rparr>"

definition set_public :: "(bytes \<Rightarrow> h256) \<Rightarrow> bytes \<Rightarrow> signed_transaction \<Rightarrow> signed_transaction" where
  "set_public K public t = t\<lparr>sx_sender := public_to_address K public, sx_public := Some public\<rparr>"

text \<open>Both \<open>expect\<close>s panic on an error.\<close>

definition tx_sign :: "secp_ops \<Rightarrow> (bytes \<Rightarrow> h256) \<Rightarrow> 'x rlp_crate_scheme \<Rightarrow> transaction \<Rightarrow> h256 \<Rightarrow> ('e, signed_transaction) res" where
  "tx_sign S K R t secret = rbind (signature_hash K R t) (\<lambda>h. case key_sign S secret h of
       Ok sig \<Rightarrow> rbind (with_signature K R t sig) (\<lambda>tx_with_sig. case recover_public S K R tx_with_sig of
           Ok public \<Rightarrow> Ok (signed_new K public tx_with_sig)
         | _ \<Rightarrow> Panic)
     | _ \<Rightarrow> Panic)"

definition fake_sign_phantom :: "(bytes \<Rightarrow> h256) \<Rightarrow> 'x rlp_crate_scheme \<Rightarrow> eip155_transaction \<Rightarrow> address_with_space \<Rightarrow> ('e, signed_transaction) res" where
  "fake_sign_phantom K R tx from = rbind (with_rsv K R (EthereumTx tx) (ucast (aws_address from)) (ucast (aws_address from)) 0) (\<lambda>t.
     Ok \<lparr>sx_transaction = t, sx_sender = aws_address from, sx_public = None\<rparr>)"

definition fake_sign_rpc :: "(bytes \<Rightarrow> h256) \<Rightarrow> 'x rlp_crate_scheme \<Rightarrow> eip155_transaction \<Rightarrow> address_with_space \<Rightarrow> ('e, signed_transaction) res" where
  "fake_sign_rpc K R tx from = rbind (with_rsv K R (EthereumTx tx) 1 1 0) (\<lambda>t.
     Ok \<lparr>sx_transaction = t, sx_sender = aws_address from, sx_public = None\<rparr>)"

definition signed_verify_public :: "secp_ops \<Rightarrow> (bytes \<Rightarrow> h256) \<Rightarrow> 'x rlp_crate_scheme \<Rightarrow> bool \<Rightarrow> signed_transaction \<Rightarrow> (key_error, bool) res" where
  "signed_verify_public S K R skip t = (case sx_public t of
     None \<Rightarrow> Ok False
   | Some public \<Rightarrow> if skip then Ok True
       else rbind (signature_hash K R (tp_unsigned (tw_transaction (sx_transaction t)))) (verify_public S public (tws_signature (sx_transaction t))))"

text \<open>What the executor sees of a signed transaction.\<close>

definition signed_info :: "signed_transaction \<Rightarrow> transaction_info" where
  "signed_info t =
     (let tx = eip155_of (tp_unsigned (tw_transaction (sx_transaction t))) in
      \<lparr>tx_sender = with_space (sx_sender t) Ethereum, tx_nonce = et_nonce tx, tx_gas_limit = et_gas tx, tx_gas_price = et_gas_price tx,
       tx_data = et_data tx, tx_action = et_action tx, tx_value = et_value tx\<rparr>)"

end
