(* ===== verification/Log_Filter.thy ===== *)
theory Log_Filter
  imports Traces Substate
begin

text \<open>
  Filters on log entries (utils/primitives: filter.rs, log_entry.rs, epoch.rs): which entries match, and
  the bloom filters that a search looks for in a block.  The bloom type is the parameter \<open>bloom_ops\<close>.
\<close>

section \<open>Filters\<close>

datatype epoch_number = Number u64 | Earliest | LatestCheckpoint | LatestFinalized | LatestConfirmed | LatestState | LatestMined

record log_filter_params =
  lf_address :: "address list option"
  lf_topics :: "h256 list option list"
  lf_trusted :: bool
  lf_space :: space

datatype log_filter =
    EpochLogFilter epoch_number epoch_number log_filter_params
  | BlockHashLogFilter "h256 list" log_filter_params
  | BlockNumberLogFilter u64 u64 log_filter_params

definition log_filter_params_default :: log_filter_params where
  "log_filter_params_default = \<lparr>lf_address = None, lf_topics = [None, None, None, None], lf_trusted = False, lf_space = Ethereum\<rparr>"

definition log_filter_default :: log_filter where
  "log_filter_default = EpochLogFilter LatestCheckpoint LatestState log_filter_params_default"

fun filter_params :: "log_filter \<Rightarrow> log_filter_params" where
  "filter_params (EpochLogFilter _ _ p) = p"
| "filter_params (BlockHashLogFilter _ p) = p"
| "filter_params (BlockNumberLogFilter _ _ p) = p"

text \<open>The errors of log filtering.\<close>

datatype filter_error =
    InvalidEpochNumber u64 u64
  | InvalidBlockNumber u64 u64
  | OutOfBoundEpochNumber u64 u64
  | EpochNumberGapTooLarge u64 u64 u64
  | BlockNumberGapTooLarge u64 u64 u64
  | UnableToVerify u64 u64
  | UnknownBlock h256
  | EpochAlreadyPruned u64 u64
  | BlockAlreadyPruned h256
  | BlockNotExecutedYet h256
  | PivotChainReorg u64 h256 h256
  | CustomFilterError string

section \<open>Blooms and matching\<close>

definition bloom_of :: "'b bloom_ops \<Rightarrow> bytes \<Rightarrow> 'b" where
  "bloom_of Bl input = bloom_accrue Bl input (bloom_default Bl)"

definition log_bloom :: "'b bloom_ops \<Rightarrow> log_entry \<Rightarrow> 'b" where
  "log_bloom Bl log = fold (\<lambda>t. bloom_accrue Bl (to_be 32 t)) (le_topics log) (bloom_of Bl (to_be 20 (le_address log)))"

definition topic_blooms :: "'b bloom_ops \<Rightarrow> h256 list option \<Rightarrow> 'b list \<Rightarrow> 'b list" where
  "topic_blooms Bl topic bs = (case topic of
     None \<Rightarrow> bs
   | Some topics \<Rightarrow> concat (map (\<lambda>bloom. map (\<lambda>t. bloom_accrue Bl (to_be 32 t) bloom) topics) bs))"

definition bloom_possibilities :: "'b bloom_ops \<Rightarrow> log_filter_params \<Rightarrow> 'b list" where
  "bloom_possibilities Bl F =
     (let blooms = (case lf_address F of
          Some addresses \<Rightarrow> if addresses = [] then [bloom_default Bl] else map (\<lambda>a. bloom_of Bl (to_be 20 a)) addresses
        | None \<Rightarrow> [bloom_default Bl])
      in fold (topic_blooms Bl) (lf_topics F) blooms)"

definition topic_matches :: "log_entry \<Rightarrow> nat \<times> h256 list option \<Rightarrow> bool" where
  "topic_matches log = (\<lambda>(i, topic). case topic of
     Some topics \<Rightarrow> if topics = [] then True else list_ex (\<lambda>t. i < length (le_topics log) \<and> le_topics log ! i = t) topics
   | None \<Rightarrow> True)"

definition lf_matches :: "log_filter_params \<Rightarrow> log_entry \<Rightarrow> bool" where
  "lf_matches F log =
     (if le_space log \<noteq> lf_space F then False
      else (case lf_address F of
              Some addresses \<Rightarrow> if addresses = [] then True else list_ex (\<lambda>a. le_address log = a) addresses
            | None \<Rightarrow> True) \<and>
        list_all (topic_matches log) (enumerate 0 (lf_topics F)))"

section \<open>Completeness\<close>

text \<open>The documented meaning of blooms: sets of bits, to which an input adds its own.\<close>

definition bloom_laws :: "'b bloom_ops \<Rightarrow> ('b \<Rightarrow> nat set) \<Rightarrow> (bytes \<Rightarrow> nat set) \<Rightarrow> bool" where
  "bloom_laws Bl bits_of input_bits \<longleftrightarrow> bits_of (bloom_default Bl) = {} \<and>
     (\<forall>x b. bits_of (bloom_accrue Bl x b) = bits_of b \<union> input_bits x) \<and>
     (\<forall>a b. bits_of (bloom_union Bl a b) = bits_of a \<union> bits_of b)"

lemma log_bloom_bits:
  assumes "bloom_laws Bl bits_of input_bits"
  shows "bits_of (log_bloom Bl log) = input_bits (to_be 20 (le_address log)) \<union> (\<Union>t \<in> set (le_topics log). input_bits (to_be 32 t))"
proof -
  have *: "bits_of (fold (\<lambda>t. bloom_accrue Bl (to_be 32 t)) ts b) = bits_of b \<union> (\<Union>t \<in> set ts. input_bits (to_be 32 t))" for ts b
    using assms by (induction ts arbitrary: b) (auto simp: bloom_laws_def)
  show ?thesis unfolding log_bloom_def * using assms by (simp add: bloom_of_def bloom_laws_def)
qed

lemma topic_blooms_covered:
  assumes Bl: "bloom_laws Bl bits_of input_bits" and L: "\<And>t. t \<in> set (le_topics log) \<Longrightarrow> input_bits (to_be 32 t) \<subseteq> L"
    and "\<exists>b \<in> set bs. bits_of b \<subseteq> L" and "list_all (topic_matches log) (enumerate i ts)" and "Some [] \<notin> set ts"
  shows "\<exists>b \<in> set (fold (topic_blooms Bl) ts bs). bits_of b \<subseteq> L"
  using assms(3-5)
proof (induction ts arbitrary: bs i)
  case (Cons x ts)
  have "\<exists>b \<in> set (topic_blooms Bl x bs). bits_of b \<subseteq> L"
  proof (cases x)
    case None
    then show ?thesis using Cons.prems(1) by (simp add: topic_blooms_def)
  next
    case (Some topics)
    then obtain t where "t \<in> set topics" "t \<in> set (le_topics log)"
      using Cons.prems(2,3) by (auto simp: topic_matches_def list_ex_iff split: if_splits)
    then show ?thesis using Some Cons.prems(1) L Bl by (fastforce simp: topic_blooms_def bloom_laws_def)
  qed
  then show ?case using Cons.IH [of "topic_blooms Bl x bs" "Suc i"] Cons.prems by simp
qed simp

text \<open>A position with no topics to choose from leaves nothing to look for.\<close>

lemma topic_blooms_empty: "Some [] \<in> set ts \<Longrightarrow> fold (topic_blooms Bl) ts bs = []"
proof (induction ts arbitrary: bs)
  case (Cons x ts)
  have "fold (topic_blooms Bl) us [] = []" for us by (induction us) (auto simp: topic_blooms_def split: option.splits)
  moreover have "topic_blooms Bl (Some []) bs = []" by (simp add: topic_blooms_def)
  ultimately show ?case using Cons by auto
qed simp

text \<open>C24.  Searching by blooms misses no entry: the bloom of an entry that matches a filter covers one of the blooms that the filter looks
  for.  A filter with an empty list of topics at some position is the exception: it looks for no bloom at all, although that position
  matches every entry.\<close>

theorem bloom_search_complete:
  assumes Bl: "bloom_laws Bl bits_of input_bits"
  shows "if Some [] \<in> set (lf_topics F) then bloom_possibilities Bl F = []
    else lf_matches F log \<longrightarrow> (\<exists>b \<in> set (bloom_possibilities Bl F). bits_of b \<subseteq> bits_of (log_bloom Bl log))"
proof (cases "Some [] \<in> set (lf_topics F)")
  case True
  then show ?thesis by (simp add: bloom_possibilities_def topic_blooms_empty)
next
  case False
  let ?bs = "case lf_address F of Some addresses \<Rightarrow> if addresses = [] then [bloom_default Bl] else map (\<lambda>a. bloom_of Bl (to_be 20 a)) addresses
    | None \<Rightarrow> [bloom_default Bl]"
  note bits = log_bloom_bits [OF Bl, of log]
  have "\<exists>b \<in> set ?bs. bits_of b \<subseteq> bits_of (log_bloom Bl log)" if "lf_matches F log"
    using that Bl unfolding bits by (auto simp: lf_matches_def bloom_of_def bloom_laws_def list_ex_iff split: option.splits if_splits)
  moreover have "input_bits (to_be 32 t) \<subseteq> bits_of (log_bloom Bl log)" if "t \<in> set (le_topics log)" for t using that unfolding bits by blast
  moreover have "list_all (topic_matches log) (enumerate 0 (lf_topics F))" if "lf_matches F log" using that by (simp add: lf_matches_def split: if_splits)
  ultimately have "\<exists>b \<in> set (fold (topic_blooms Bl) (lf_topics F) ?bs). bits_of b \<subseteq> bits_of (log_bloom Bl log)" if "lf_matches F log"
    using that False by (intro topic_blooms_covered [OF Bl])
  then show ?thesis using False by (simp add: bloom_possibilities_def)
qed

section \<open>Reference blooms\<close>

definition ref_bloom :: "nat set bloom_ops" where
  "ref_bloom = \<lparr>bloom_default = {}, bloom_accrue = (\<lambda>x b. b \<union> {unat (from_be x :: 11 word)}), bloom_union = (\<union>)\<rparr>"

definition ref_log :: log_entry where
  "ref_log = \<lparr>le_address = 5, le_topics = [7], le_data = [], le_space = Ethereum\<rparr>"

theorem bloom_search_complete_witness:
  "(\<exists>b \<in> set (bloom_possibilities ref_bloom (log_filter_params_default\<lparr>lf_address := Some [4, 5], lf_topics := [Some [7]]\<rparr>)). b \<subseteq> log_bloom ref_bloom ref_log) \<and>
   bloom_possibilities ref_bloom (log_filter_params_default\<lparr>lf_topics := [Some []]\<rparr>) = [] \<and>
   lf_matches (log_filter_params_default\<lparr>lf_topics := [Some []]\<rparr>) ref_log"
proof -
  have laws: "bloom_laws ref_bloom (\<lambda>b. b) (\<lambda>x. {unat (from_be x :: 11 word)})" by (simp add: bloom_laws_def ref_bloom_def)
  let ?F = "log_filter_params_default\<lparr>lf_address := Some [4, 5], lf_topics := [Some [7]]\<rparr>"
    and ?G = "log_filter_params_default\<lparr>lf_topics := [Some []]\<rparr>"
  have "lf_matches ?F ref_log" "lf_matches ?G ref_log"
    by (simp_all add: lf_matches_def log_filter_params_default_def ref_log_def topic_matches_def)
  then show ?thesis using bloom_search_complete [OF laws, of ?F ref_log] bloom_search_complete [OF laws, of ?G ref_log] by simp
qed

end
