(* ===== verification/Chain_Data.thy ===== *)
theory Chain_Data
  imports Transactions Log_Filter
begin

text \<open>
  What is stored and sent beside transactions (utils/primitives: receipt.rs, log_entry.rs, state_root.rs,
  storage.rs, transaction_index.rs, block_header.rs).  Keccak is the parameter \<open>K\<close>, the RLP crate \<open>R\<close>;
  sizes in bytes are natural numbers.
\<close>

section \<open>Receipts\<close>

datatype transaction_outcome = TxSuccess | TxFailure | TxSkipped

fun outcome_into_u8 :: "transaction_outcome \<Rightarrow> byte" where
  "outcome_into_u8 TxSuccess = 0"
| "outcome_into_u8 TxFailure = 1"
| "outcome_into_u8 TxSkipped = 2"

definition outcome_rlp :: "'x rlp_crate_scheme \<Rightarrow> transaction_outcome \<Rightarrow> bytes" where
  "outcome_rlp R x = enc_u8 R (outcome_into_u8 x)"

definition outcome_decode :: "'x rlp_crate_scheme \<Rightarrow> bytes \<Rightarrow> (string, transaction_outcome) res" where
  "outcome_decode R r = rbind (dec_u8 R r) (\<lambda>n.
     if n = 0 then Ok TxSuccess else if n = 1 then Ok TxFailure else if n = 2 then Ok TxSkipped
     else Err ''Unrecognized outcome status'')"

definition outcome_in_space :: "transaction_outcome \<Rightarrow> space \<Rightarrow> byte" where
  "outcome_in_space x sp = (case x of TxSuccess \<Rightarrow> 1 | TxFailure \<Rightarrow> 0 | TxSkipped \<Rightarrow> 0xff)"

record 'b receipt =
  rc_accumulated_gas_used :: u256
  rc_gas_fee :: u256
  rc_log_bloom :: 'b
  rc_logs :: "log_entry list"
  rc_outcome_status :: transaction_outcome

definition receipt_new :: "transaction_outcome \<Rightarrow> u256 \<Rightarrow> u256 \<Rightarrow> log_entry list \<Rightarrow> 'b \<Rightarrow> 'b receipt" where
  "receipt_new outcome accumulated_gas_used gas_fee logs bloom =
     \<lparr>rc_accumulated_gas_used = accumulated_gas_used, rc_gas_fee = gas_fee, rc_log_bloom = bloom, rc_logs = logs, rc_outcome_status = outcome\<rparr>"

record 'b block_receipts =
  br_receipts :: "'b receipt list"
  br_block_number :: u64
  br_secondary_reward :: u256
  br_error_messages :: "string list"

definition log_entry_rlp :: "'x rlp_crate_scheme \<Rightarrow> log_entry \<Rightarrow> ('e, bytes) res" where
  "log_entry_rlp R l = stream_list R 3 [enc_address R (le_address l), enc_list R (map (enc_h256 R) (le_topics l)), enc_bytes R (le_data l)]"

definition log_entry_decode :: "'x rlp_crate_scheme \<Rightarrow> bytes \<Rightarrow> (string, log_entry) res" where
  "log_entry_decode R r = rbind (item_count R r) (\<lambda>n. if n \<noteq> 3 then Err ''RlpInvalidLength'' else
     rbind (val_at R (dec_address R) r 0) (\<lambda>a. rbind (list_at R (dec_h256 R) r 1) (\<lambda>topics. rbind (val_at R (dec_bytes R) r 2) (\<lambda>d.
     Ok \<lparr>le_address = a, le_topics = topics, le_data = d, le_space = Ethereum\<rparr>))))"

section \<open>State roots and stored values\<close>

record state_root =
  sr_snapshot_root :: h256
  sr_intermediate_delta_root :: h256
  sr_delta_root :: h256

text \<open>The merkle root of an empty trie, Keccak of no bytes.\<close>

definition state_root_genesis :: "(bytes \<Rightarrow> h256) \<Rightarrow> h256 \<Rightarrow> state_root" where
  "state_root_genesis K root = \<lparr>sr_snapshot_root = K [], sr_intermediate_delta_root = K [], sr_delta_root = root\<rparr>"

definition state_root_default :: "(bytes \<Rightarrow> h256) \<Rightarrow> state_root" where
  "state_root_default K = \<lparr>sr_snapshot_root = K [], sr_intermediate_delta_root = K [], sr_delta_root = K []\<rparr>"

definition compute_state_root_hash :: "(bytes \<Rightarrow> h256) \<Rightarrow> state_root \<Rightarrow> h256" where
  "compute_state_root_hash K r = K (to_be 32 (sr_snapshot_root r) @ to_be 32 (sr_intermediate_delta_root r) @ to_be 32 (sr_delta_root r))"

definition state_root_rlp :: "'x rlp_crate_scheme \<Rightarrow> state_root \<Rightarrow> ('e, bytes) res" where
  "state_root_rlp R r = stream_list R 3 [enc_h256 R (sr_snapshot_root r), enc_h256 R (sr_intermediate_delta_root r), enc_h256 R (sr_delta_root r)]"

definition state_root_decode :: "'x rlp_crate_scheme \<Rightarrow> bytes \<Rightarrow> (string, state_root) res" where
  "state_root_decode R r = rbind (val_at R (dec_h256 R) r 0) (\<lambda>a. rbind (val_at R (dec_h256 R) r 1) (\<lambda>b. rbind (val_at R (dec_h256 R) r 2) (\<lambda>c.
     Ok \<lparr>sr_snapshot_root = a, sr_intermediate_delta_root = b, sr_delta_root = c\<rparr>)))"

datatype 'a mpt_value = MptNone | TombStone | MptSome 'a

definition mpt_is_some :: "'a mpt_value \<Rightarrow> bool" where
  "mpt_is_some v = (case v of MptSome _ \<Rightarrow> True | _ \<Rightarrow> False)"

definition mpt_is_tombstone :: "'a mpt_value \<Rightarrow> bool" where
  "mpt_is_tombstone v = (case v of TombStone \<Rightarrow> True | _ \<Rightarrow> False)"

definition mpt_into_option :: "'a \<Rightarrow> 'a mpt_value \<Rightarrow> 'a option" where
  "mpt_into_option dflt v = (case v of MptNone \<Rightarrow> None | TombStone \<Rightarrow> Some dflt | MptSome x \<Rightarrow> Some x)"

definition mpt_unwrap :: "'a \<Rightarrow> 'a mpt_value \<Rightarrow> ('e, 'a) res" where
  "mpt_unwrap dflt v = (case v of MptNone \<Rightarrow> Panic | TombStone \<Rightarrow> Ok dflt | MptSome x \<Rightarrow> Ok x)"

definition mpt_from_option :: "'a option \<Rightarrow> 'a mpt_value" where
  "mpt_from_option x = (case x of None \<Rightarrow> MptNone | Some v \<Rightarrow> MptSome v)"

definition mpt_rlp :: "'x rlp_crate_scheme \<Rightarrow> h256 mpt_value \<Rightarrow> ('e, bytes) res" where
  "mpt_rlp R v = (case v of
     MptNone \<Rightarrow> stream_list R 1 [enc_u8 R 0]
   | TombStone \<Rightarrow> stream_list R 1 [enc_u8 R 1]
   | MptSome h \<Rightarrow> stream_list R 2 [enc_u8 R 2, enc_h256 R h])"

definition mpt_decode :: "'x rlp_crate_scheme \<Rightarrow> bytes \<Rightarrow> (string, h256 mpt_value) res" where
  "mpt_decode R r = rbind (val_at R (dec_u8 R) r 0) (\<lambda>n.
     if n = 0 then Ok MptNone else if n = 1 then Ok TombStone
     else if n = 2 then rbind (val_at R (dec_h256 R) r 1) (\<lambda>h. Ok (MptSome h)) else Panic)"

definition layout_to_bytes :: "storage_layout \<Rightarrow> bytes" where
  "layout_to_bytes l = (case l of Regular version \<Rightarrow> [0, version])"

definition layout_from_bytes :: "bytes \<Rightarrow> (string, storage_layout) res" where
  "layout_from_bytes raw = (case raw of [a, version] \<Rightarrow> if a = 0 then Ok (Regular version) else Err ''Unknown storage layout''
     | _ \<Rightarrow> Err ''Unknown storage layout'')"

record transaction_index =
  ti_block_hash :: h256
  ti_real_index :: usize
  ti_is_phantom :: bool
  ti_rpc_index :: "usize option"

definition tx_index_rlp :: "'x rlp_crate_scheme \<Rightarrow> transaction_index \<Rightarrow> ('e, bytes) res" where
  "tx_index_rlp R t = stream_list R 4 [enc_h256 R (ti_block_hash t), enc_u64 R (ti_real_index t), enc_bool R (ti_is_phantom t),
     enc_option R (map_option (enc_u64 R) (ti_rpc_index t))]"

definition tx_index_decode :: "'x rlp_crate_scheme \<Rightarrow> bytes \<Rightarrow> (string, transaction_index) res" where
  "tx_index_decode R r = rbind (item_count R r) (\<lambda>n.
     if n < 2 \<or> 4 < n then Err ''RlpInvalidLength'' else
     rbind (val_at R (dec_h256 R) r 0) (\<lambda>h. rbind (val_at R (dec_u64 R) r 1) (\<lambda>i.
     rbind (if n = 2 then Ok False else val_at R (dec_bool R) r 2) (\<lambda>phantom.
     rbind (if n < 4 then Ok None else val_at R (option_of R (dec_u64 R)) r 3) (\<lambda>rpc.
     Ok \<lparr>ti_block_hash = h, ti_real_index = i, ti_is_phantom = phantom, ti_rpc_index = rpc\<rparr>)))))"

section \<open>Headers\<close>

record block_header_part =
  bh_parent_hash :: h256
  bh_height :: u64
  bh_timestamp :: u64
  bh_author :: address
  bh_transactions_root :: h256
  bh_deferred_state_root :: h256
  bh_deferred_receipts_root :: h256
  bh_deferred_logs_bloom_hash :: h256
  bh_blame :: u32
  bh_difficulty :: u256
  bh_adaptive :: bool
  bh_gas_limit :: u256
  bh_referee_hashes :: "h256 list"
  bh_custom :: "bytes list"
  bh_nonce :: u256
  bh_pos_reference :: "h256 option"

record block_header =
  hd_rlp_part :: block_header_part
  hd_hash :: "h256 option"
  hd_pow_hash :: "h256 option"
  hd_approximated_rlp_size :: nat

text \<open>Equality of headers ignores the nonce, the reference to the PoS block and the hashes.\<close>

definition header_part_eq :: "block_header_part \<Rightarrow> block_header_part \<Rightarrow> bool" where
  "header_part_eq p o' \<longleftrightarrow> bh_parent_hash p = bh_parent_hash o' \<and> bh_height p = bh_height o' \<and> bh_timestamp p = bh_timestamp o' \<and>
     bh_author p = bh_author o' \<and> bh_transactions_root p = bh_transactions_root o' \<and> bh_deferred_state_root p = bh_deferred_state_root o' \<and>
     bh_deferred_receipts_root p = bh_deferred_receipts_root o' \<and> bh_deferred_logs_bloom_hash p = bh_deferred_logs_bloom_hash o' \<and>
     bh_blame p = bh_blame o' \<and> bh_difficulty p = bh_difficulty o' \<and> bh_adaptive p = bh_adaptive o' \<and> bh_gas_limit p = bh_gas_limit o' \<and>
     bh_referee_hashes p = bh_referee_hashes o' \<and> bh_custom p = bh_custom o'"

definition header_eq :: "block_header \<Rightarrow> block_header \<Rightarrow> bool" where
  "header_eq h o' \<longleftrightarrow> header_part_eq (hd_rlp_part h) (hd_rlp_part o')"

definition HEADER_LIST_MIN_LEN :: nat where
  "HEADER_LIST_MIN_LEN = 13"

text \<open>The thirteen items that every encoding starts with, and the ones at the end.\<close>

definition header_fields :: "'x rlp_crate_scheme \<Rightarrow> block_header_part \<Rightarrow> bytes list" where
  "header_fields R p = [enc_h256 R (bh_parent_hash p), enc_u64 R (bh_height p), enc_u64 R (bh_timestamp p), enc_address R (bh_author p),
     enc_h256 R (bh_transactions_root p), enc_h256 R (bh_deferred_state_root p), enc_h256 R (bh_deferred_receipts_root p),
     enc_h256 R (bh_deferred_logs_bloom_hash p), enc_u32 R (bh_blame p), enc_u256 R (bh_difficulty p),
     enc_u8 R (if bh_adaptive p then 1 else 0), enc_u256 R (bh_gas_limit p), enc_list R (map (enc_h256 R) (bh_referee_hashes p))]"

definition header_tail :: "'x rlp_crate_scheme \<Rightarrow> block_header_part \<Rightarrow> bytes list" where
  "header_tail R p = (case bh_pos_reference p of None \<Rightarrow> [] | Some h \<Rightarrow> [enc_option R (Some (enc_h256 R h))]) @ bh_custom p"

definition pos_count :: "block_header_part \<Rightarrow> nat" where
  "pos_count p = (if bh_pos_reference p = None then 0 else 1)"

definition stream_rlp_without_nonce :: "'x rlp_crate_scheme \<Rightarrow> block_header_part \<Rightarrow> ('e, bytes) res" where
  "stream_rlp_without_nonce R p =
     stream_list R (HEADER_LIST_MIN_LEN + pos_count p + length (bh_custom p)) (header_fields R p @ header_tail R p)"

definition stream_rlp :: "'x rlp_crate_scheme \<Rightarrow> block_header_part \<Rightarrow> ('e, bytes) res" where
  "stream_rlp R p =
     stream_list R (HEADER_LIST_MIN_LEN + 1 + pos_count p + length (bh_custom p)) (header_fields R p @ [enc_u256 R (bh_nonce p)] @ header_tail R p)"

definition stream_rlp_with_pow_hash :: "'x rlp_crate_scheme \<Rightarrow> block_header \<Rightarrow> ('e, bytes) res" where
  "stream_rlp_with_pow_hash R h =
     (let p = hd_rlp_part h in
      stream_list R (HEADER_LIST_MIN_LEN + 2 + pos_count p + length (bh_custom p))
        (header_fields R p @ [enc_u256 R (bh_nonce p), enc_option R (map_option (enc_h256 R) (hd_pow_hash h))] @ header_tail R p))"

definition header_hash :: "(bytes \<Rightarrow> h256) \<Rightarrow> 'x rlp_crate_scheme \<Rightarrow> block_header \<Rightarrow> ('e, h256) res" where
  "header_hash K R h = (case hd_hash h of Some x \<Rightarrow> Ok x | None \<Rightarrow> rbind (stream_rlp R (hd_rlp_part h)) (\<lambda>raw. Ok (K raw)))"

definition header_compute_hash :: "(bytes \<Rightarrow> h256) \<Rightarrow> 'x rlp_crate_scheme \<Rightarrow> block_header \<Rightarrow> ('e, block_header) res" where
  "header_compute_hash K R h = rbind (header_hash K R h) (\<lambda>x. Ok (h\<lparr>hd_hash := Some x\<rparr>))"

definition problem_hash :: "(bytes \<Rightarrow> h256) \<Rightarrow> 'x rlp_crate_scheme \<Rightarrow> block_header \<Rightarrow> ('e, h256) res" where
  "problem_hash K R h = rbind (stream_rlp_without_nonce R (hd_rlp_part h)) (\<lambda>raw. Ok (K raw))"

definition header_set_nonce :: "u256 \<Rightarrow> block_header \<Rightarrow> block_header" where
  "header_set_nonce n h = h\<lparr>hd_rlp_part := (hd_rlp_part h)\<lparr>bh_nonce := n\<rparr>\<rparr>"

definition header_set_timestamp :: "u64 \<Rightarrow> block_header \<Rightarrow> block_header" where
  "header_set_timestamp t h = h\<lparr>hd_rlp_part := (hd_rlp_part h)\<lparr>bh_timestamp := t\<rparr>\<rparr>"

text \<open>Decoding, with the reference to the PoS block at index \<open>pos\<close>; an item there that is no reference counts as custom data.\<close>

definition header_part_decode :: "'x rlp_crate_scheme \<Rightarrow> nat \<Rightarrow> bytes \<Rightarrow> (string, block_header_part) res" where
  "header_part_decode R pos r =
     rbind (val_at R (dec_h256 R) r 0) (\<lambda>parent_hash. rbind (val_at R (dec_u64 R) r 1) (\<lambda>height.
     rbind (val_at R (dec_u64 R) r 2) (\<lambda>timestamp. rbind (val_at R (dec_address R) r 3) (\<lambda>author.
     rbind (val_at R (dec_h256 R) r 4) (\<lambda>transactions_root. rbind (val_at R (dec_h256 R) r 5) (\<lambda>deferred_state_root.
     rbind (val_at R (dec_h256 R) r 6) (\<lambda>deferred_receipts_root. rbind (val_at R (dec_h256 R) r 7) (\<lambda>deferred_logs_bloom_hash.
     rbind (val_at R (dec_u32 R) r 8) (\<lambda>blame. rbind (val_at R (dec_u256 R) r 9) (\<lambda>difficulty.
     rbind (val_at R (dec_u8 R) r 10) (\<lambda>adaptive. rbind (val_at R (dec_u256 R) r 11) (\<lambda>gas_limit.
     rbind (list_at R (dec_h256 R) r 12) (\<lambda>referee_hashes. rbind (val_at R (dec_u256 R) r 13) (\<lambda>nonce.
     Ok \<lparr>bh_parent_hash = parent_hash, bh_height = height, bh_timestamp = timestamp, bh_author = author,
       bh_transactions_root = transactions_root, bh_deferred_state_root = deferred_state_root,
       bh_deferred_receipts_root = deferred_receipts_root, bh_deferred_logs_bloom_hash = deferred_logs_bloom_hash, bh_blame = blame,
       bh_difficulty = difficulty, bh_adaptive = (adaptive = 1), bh_gas_limit = gas_limit, bh_referee_hashes = referee_hashes, bh_custom = [],
       bh_nonce = nonce,
       bh_pos_reference = (case val_at R (option_of R (dec_h256 R)) r pos of Ok x \<Rightarrow> x | _ \<Rightarrow> None)\<rparr>))))))))))))))"

definition header_custom_decode :: "'x rlp_crate_scheme \<Rightarrow> nat \<Rightarrow> bytes \<Rightarrow> block_header_part \<Rightarrow> (string, block_header_part) res" where
  "header_custom_decode R pos r p = rbind (item_count R r) (\<lambda>n.
     rbind (foldr (\<lambda>i rest. rbind (rlp_at R r i) (\<lambda>x. rbind rest (\<lambda>xs. Ok (x # xs)))) [pos + pos_count p..<n] (Ok [])) (\<lambda>custom.
     Ok (p\<lparr>bh_custom := custom\<rparr>)))"

definition header_decode :: "(bytes \<Rightarrow> h256) \<Rightarrow> 'x rlp_crate_scheme \<Rightarrow> bytes \<Rightarrow> (string, block_header) res" where
  "header_decode K R r = rbind (header_part_decode R 14 r) (\<lambda>p. rbind (header_custom_decode R 14 r p) (\<lambda>p.
     header_compute_hash K R \<lparr>hd_rlp_part = p, hd_hash = None, hd_pow_hash = None, hd_approximated_rlp_size = length r\<rparr>))"

definition decode_with_pow_hash :: "(bytes \<Rightarrow> h256) \<Rightarrow> 'x rlp_crate_scheme \<Rightarrow> bytes \<Rightarrow> (string, block_header) res" where
  "decode_with_pow_hash K R r = rbind (header_part_decode R 15 r) (\<lambda>p. rbind (val_at R (option_of R (dec_h256 R)) r 14) (\<lambda>pow_hash.
     rbind (header_custom_decode R 15 r p) (\<lambda>p.
     header_compute_hash K R \<lparr>hd_rlp_part = p, hd_hash = None, hd_pow_hash = pow_hash, hd_approximated_rlp_size = length r\<rparr>)))"

end
