(* ===== verification/Blocks.thy ===== *)
theory Blocks
  imports Chain_Data
begin

text \<open>
  The builder of headers with the roots and blooms it computes (utils/primitives/src/block_header.rs) and
  blocks with their compact form (block.rs).  Beside Keccak and the RLP crate, the heap size of a header
  (\<open>malloc_size_of\<close>), SipHash and the random nonce of a compact block are parameters.
\<close>

section \<open>Building headers\<close>

definition builder_new :: "(bytes \<Rightarrow> h256) \<Rightarrow> h256 \<Rightarrow> block_header_part" where
  "builder_new K keccak_empty_bloom = \<lparr>bh_parent_hash = K [], bh_height = 0, bh_timestamp = 0, bh_author = 0, bh_transactions_root = K [],
     bh_deferred_state_root = 0, bh_deferred_receipts_root = 0, bh_deferred_logs_bloom_hash = keccak_empty_bloom, bh_blame = 0,
     bh_difficulty = 0, bh_adaptive = False, bh_gas_limit = 0, bh_referee_hashes = [], bh_custom = [], bh_nonce = 0, bh_pos_reference = None\<rparr>"

definition with_parent_hash :: "h256 \<Rightarrow> block_header_part \<Rightarrow> block_header_part" where
  "with_parent_hash x b = b\<lparr>bh_parent_hash := x\<rparr>"

definition with_height :: "u64 \<Rightarrow> block_header_part \<Rightarrow> block_header_part" where
  "with_height x b = b\<lparr>bh_height := x\<rparr>"

definition with_timestamp :: "u64 \<Rightarrow> block_header_part \<Rightarrow> block_header_part" where
  "with_timestamp x b = b\<lparr>bh_timestamp := x\<rparr>"

definition with_author :: "address \<Rightarrow> block_header_part \<Rightarrow> block_header_part" where
  "with_author x b = b\<lparr>bh_author := x\<rparr>"

definition with_transactions_root :: "h256 \<Rightarrow> block_header_part \<Rightarrow> block_header_part" where
  "with_transactions_root x b = b\<lparr>bh_transactions_root := x\<rparr>"

definition with_deferred_state_root :: "h256 \<Rightarrow> block_header_part \<Rightarrow> block_header_part" where
  "with_deferred_state_root x b = b\<lparr>bh_deferred_state_root := x\<rparr>"

definition with_deferred_receipts_root :: "h256 \<Rightarrow> block_header_part \<Rightarrow> block_header_part" where
  "with_deferred_receipts_root x b = b\<lparr>bh_deferred_receipts_root := x\<rparr>"

definition with_deferred_logs_bloom_hash :: "h256 \<Rightarrow> block_header_part \<Rightarrow> block_header_part" where
  "with_deferred_logs_bloom_hash x b = b\<lparr>bh_deferred_logs_bloom_hash := x\<rparr>"

definition with_blame :: "u32 \<Rightarrow> block_header_part \<Rightarrow> block_header_part" where
  "with_blame x b = b\<lparr>bh_blame := x\<rparr>"

definition with_difficulty :: "u256 \<Rightarrow> block_header_part \<Rightarrow> block_header_part" where
  "with_difficulty x b = b\<lparr>bh_difficulty := x\<rparr>"

definition with_adaptive :: "bool \<Rightarrow> block_header_part \<Rightarrow> block_header_part" where
  "with_adaptive x b = b\<lparr>bh_adaptive := x\<rparr>"

definition with_gas_limit :: "u256 \<Rightarrow> block_header_part \<Rightarrow> block_header_part" where
  "with_gas_limit x b = b\<lparr>bh_gas_limit := x\<rparr>"

definition with_referee_hashes :: "h256 list \<Rightarrow> block_header_part \<Rightarrow> block_header_part" where
  "with_referee_hashes x b = b\<lparr>bh_referee_hashes := x\<rparr>"

definition with_custom :: "bytes list \<Rightarrow> block_header_part \<Rightarrow> block_header_part" where
  "with_custom x b = b\<lparr>bh_custom := x\<rparr>"

definition with_nonce :: "u256 \<Rightarrow> block_header_part \<Rightarrow> block_header_part" where
  "with_nonce x b = b\<lparr>bh_nonce := x\<rparr>"

definition with_pos_reference :: "h256 option \<Rightarrow> block_header_part \<Rightarrow> block_header_part" where
  "with_pos_reference x b = b\<lparr>bh_pos_reference := x\<rparr>"

definition build :: "(block_header_part \<Rightarrow> nat) \<Rightarrow> block_header_part \<Rightarrow> block_header" where
  "build heap_size b = \<lparr>hd_rlp_part = b, hd_hash = None, hd_pow_hash = None, hd_approximated_rlp_size = heap_size b\<rparr>"

definition compute_aggregated_bloom :: "'b bloom_ops \<Rightarrow> 'b list \<Rightarrow> 'b" where
  "compute_aggregated_bloom Bl blooms = fold (\<lambda>b res. bloom_union Bl res b) blooms (bloom_default Bl)"

definition compute_block_logs_bloom_hash :: "'b bloom_ops \<Rightarrow> ('b \<Rightarrow> h256) \<Rightarrow> 'b block_receipts list \<Rightarrow> h256" where
  "compute_block_logs_bloom_hash Bl bloom_keccak receipts =
     bloom_keccak (fold (\<lambda>r b. bloom_union Bl b (rc_log_bloom r)) (concat (map br_receipts receipts)) (bloom_default Bl))"

definition compute_blame_state_root_incremental :: "(bytes \<Rightarrow> h256) \<Rightarrow> h256 \<Rightarrow> h256 \<Rightarrow> h256" where
  "compute_blame_state_root_incremental K first_root remaining_root = K (to_be 32 first_root @ to_be 32 remaining_root)"

definition compute_blame_state_root_vec_root :: "(bytes \<Rightarrow> h256) \<Rightarrow> h256 list \<Rightarrow> ('e, h256) res" where
  "compute_blame_state_root_vec_root K roots =
     (if roots = [] then Panic
      else Ok (fold (\<lambda>i accumulated. compute_blame_state_root_incremental K (roots ! i) accumulated) (rev [0..<length roots - 1]) (last roots)))"

section \<open>Blocks\<close>

record block =
  bk_header :: block_header
  bk_transactions :: "signed_transaction list"
  bk_approximated_rlp_size :: nat
  bk_approximated_rlp_size_with_public :: nat

text \<open>The sum of the sizes of the transactions, from \<open>n\<close> on.\<close>

fun sum_sizes :: "'x rlp_crate_scheme \<Rightarrow> signed_transaction list \<Rightarrow> nat \<Rightarrow> ('e, nat) res" where
  "sum_sizes R [] n = Ok n"
| "sum_sizes R (t # ts) n = rbind (tws_size R (sx_transaction t)) (\<lambda>k. sum_sizes R ts (n + k))"

definition new_with_rlp_size :: "'x rlp_crate_scheme \<Rightarrow> block_header \<Rightarrow> signed_transaction list \<Rightarrow> nat option \<Rightarrow> nat option \<Rightarrow> ('e, block) res" where
  "new_with_rlp_size R h ts rlp_size rlp_size_with_public =
     rbind (case rlp_size of Some n \<Rightarrow> Ok n | None \<Rightarrow> sum_sizes R ts (hd_approximated_rlp_size h)) (\<lambda>approximated.
     Ok \<lparr>bk_header = h, bk_transactions = ts, bk_approximated_rlp_size = approximated,
         bk_approximated_rlp_size_with_public = (case rlp_size_with_public of Some n \<Rightarrow> n | None \<Rightarrow> approximated + length ts * 84)\<rparr>)"

definition block_new :: "'x rlp_crate_scheme \<Rightarrow> block_header \<Rightarrow> signed_transaction list \<Rightarrow> ('e, block) res" where
  "block_new R h ts = new_with_rlp_size R h ts None None"

definition block_hash :: "(bytes \<Rightarrow> h256) \<Rightarrow> 'x rlp_crate_scheme \<Rightarrow> block \<Rightarrow> ('e, h256) res" where
  "block_hash K R b = header_hash K R (bk_header b)"

definition signed_gas :: "signed_transaction \<Rightarrow> u256" where
  "signed_gas t = et_gas (eip155_of (tp_unsigned (tw_transaction (sx_transaction t))))"

fun sum_gas :: "signed_transaction list \<Rightarrow> u256 \<Rightarrow> ('e, u256) res" where
  "sum_gas [] g = Ok g"
| "sum_gas (t # ts) g = rbind (u_add g (signed_gas t)) (sum_gas ts)"

definition total_gas :: "block \<Rightarrow> ('e, u256) res" where
  "total_gas b = sum_gas (bk_transactions b) 0"

definition block_size :: "'x rlp_crate_scheme \<Rightarrow> block \<Rightarrow> ('e, nat) res" where
  "block_size R b = sum_sizes R (bk_transactions b) 0"

text \<open>Every transaction is of the Ethereum space, the only one.\<close>

definition transaction_hashes :: "space option \<Rightarrow> block \<Rightarrow> h256 list" where
  "transaction_hashes filter_by b = (case filter_by of
     Some sp \<Rightarrow> map (\<lambda>t. tw_hash (sx_transaction t)) (filter (\<lambda>_. Ethereum = sp) (bk_transactions b))
   | None \<Rightarrow> map (\<lambda>t. tw_hash (sx_transaction t)) (bk_transactions b))"

fun encode_each :: "('a \<Rightarrow> ('e, bytes) res) \<Rightarrow> 'a list \<Rightarrow> ('e, bytes list) res" where
  "encode_each enc [] = Ok []"
| "encode_each enc (x # xs) = rbind (enc x) (\<lambda>r. rbind (encode_each enc xs) (\<lambda>rs. Ok (r # rs)))"

definition encode_body_with_tx_public :: "'x rlp_crate_scheme \<Rightarrow> block \<Rightarrow> ('e, bytes) res" where
  "encode_body_with_tx_public R b =
     rbind (encode_each (signed_rlp R) (bk_transactions b)) (stream_list R (length (bk_transactions b)))"

text \<open>The check that nothing follows the item.\<close>

definition exact_payload :: "'x rlp_crate_scheme \<Rightarrow> bytes \<Rightarrow> (string, unit) res" where
  "exact_payload R r = rbind (payload_total R r) (\<lambda>n. if length r \<noteq> n then Err ''RlpIsTooBig'' else Ok ())"

definition decode_body_with_tx_public :: "(bytes \<Rightarrow> h256) \<Rightarrow> 'x rlp_crate_scheme \<Rightarrow> bytes \<Rightarrow> (string, signed_transaction list) res" where
  "decode_body_with_tx_public K R r = rbind (exact_payload R r) (\<lambda>_. as_list R (signed_decode K R) r)"

definition encode_with_tx_public :: "'x rlp_crate_scheme \<Rightarrow> block \<Rightarrow> ('e, bytes) res" where
  "encode_with_tx_public R b = rbind (stream_rlp R (hd_rlp_part (bk_header b))) (\<lambda>h.
     rbind (encode_body_with_tx_public R b) (\<lambda>body. stream_list R 2 [h, body]))"

definition decode_with_tx_public :: "(bytes \<Rightarrow> h256) \<Rightarrow> 'x rlp_crate_scheme \<Rightarrow> bytes \<Rightarrow> (string, block) res" where
  "decode_with_tx_public K R r = rbind (exact_payload R r) (\<lambda>_. rbind (item_count R r) (\<lambda>n.
     if n \<noteq> 2 then Err ''RlpIncorrectListLen'' else
     rbind (val_at R (header_decode K R) r 0) (\<lambda>h. rbind (val_at R (decode_body_with_tx_public K R) r 1) (\<lambda>ts.
     new_with_rlp_size R h ts None (Some (length r))))))"

definition block_rlp :: "'x rlp_crate_scheme \<Rightarrow> block \<Rightarrow> ('e, bytes) res" where
  "block_rlp R b = rbind (stream_rlp R (hd_rlp_part (bk_header b))) (\<lambda>h.
     rbind (encode_each (\<lambda>t. tws_rlp R (sx_transaction t)) (bk_transactions b)) (\<lambda>ts.
     rbind (stream_list R (length (bk_transactions b)) ts) (\<lambda>body. stream_list R 2 [h, body])))"

definition block_decode :: "(bytes \<Rightarrow> h256) \<Rightarrow> 'x rlp_crate_scheme \<Rightarrow> bytes \<Rightarrow> (string, block) res" where
  "block_decode K R r = rbind (exact_payload R r) (\<lambda>_. rbind (item_count R r) (\<lambda>n.
     if n \<noteq> 2 then Err ''RlpIncorrectListLen'' else
     rbind (list_at R (tws_decode K R) r 1) (\<lambda>ts. rbind (val_at R (header_decode K R) r 0) (\<lambda>h.
     new_with_rlp_size R h (map signed_new_unsigned ts) (Some (length r)) None))))"

section \<open>Compact blocks\<close>

record compact_block =
  cb_header :: block_header
  cb_nonce :: u64
  cb_tx_short_ids :: bytes
  cb_reconstructed_txns :: "signed_transaction option list"

definition SHORT_ID_SIZE_IN_BYTES :: nat where
  "SHORT_ID_SIZE_IN_BYTES = 6"

definition compact_len :: "compact_block \<Rightarrow> nat" where
  "compact_len c = length (cb_tx_short_ids c) div SHORT_ID_SIZE_IN_BYTES"

definition little_endian_u64 :: "bytes \<Rightarrow> u64" where
  "little_endian_u64 bs = from_be (rev bs)"

definition get_shortid_key :: "(bytes \<Rightarrow> h256) \<Rightarrow> 'x rlp_crate_scheme \<Rightarrow> block_header \<Rightarrow> u64 \<Rightarrow> ('e, u64 \<times> u64) res" where
  "get_shortid_key K R h nonce = rbind (stream_rlp R (hd_rlp_part h)) (\<lambda>raw. rbind (stream_list R 2 [raw, enc_u64 R nonce]) (\<lambda>to_hash.
     let key_hash = to_be 32 (K to_hash) in Ok (little_endian_u64 (take 8 key_hash), little_endian_u64 (take 8 (drop 8 key_hash)))))"

text \<open>\<open>sip\<close> is SipHash-2-4 under two keys.\<close>

definition get_random_bytes :: "(u64 \<Rightarrow> u64 \<Rightarrow> bytes \<Rightarrow> u64) \<Rightarrow> h256 \<Rightarrow> u64 \<Rightarrow> u64 \<Rightarrow> 16 word" where
  "get_random_bytes sip h key1 key2 = ucast (sip key1 key2 (to_be 32 h) AND 0xffff)"

definition short_id :: "(u64 \<Rightarrow> u64 \<Rightarrow> bytes \<Rightarrow> u64) \<Rightarrow> u64 \<Rightarrow> u64 \<Rightarrow> h256 \<Rightarrow> bytes" where
  "short_id sip k0 k1 h =
     (let random = get_random_bytes sip h k0 k1; hb = to_be 32 h in
      [ucast (drop_bit 8 (random AND 0xff00)), ucast (random AND 0xff), hb ! 28, hb ! 29, hb ! 30, hb ! 31])"

definition create_shortids :: "(u64 \<Rightarrow> u64 \<Rightarrow> bytes \<Rightarrow> u64) \<Rightarrow> signed_transaction list \<Rightarrow> u64 \<Rightarrow> u64 \<Rightarrow> bytes" where
  "create_shortids sip ts k0 k1 = fold (\<lambda>t ids. ids @ short_id sip k0 k1 (tw_hash (sx_transaction t))) ts []"

definition to_u16 :: "byte \<Rightarrow> byte \<Rightarrow> ('e, 16 word) res" where
  "to_u16 v1 v2 = u_add (push_bit 8 (ucast v1)) (ucast v2)"

definition to_u32 :: "byte \<Rightarrow> byte \<Rightarrow> byte \<Rightarrow> byte \<Rightarrow> ('e, u32) res" where
  "to_u32 v1 v2 v3 v4 = rbind (u_add (push_bit 24 (ucast v1)) (push_bit 16 (ucast v2))) (\<lambda>x.
     rbind (u_add x (push_bit 8 (ucast v3))) (\<lambda>y. u_add y (ucast v4)))"

definition to_compact :: "(bytes \<Rightarrow> h256) \<Rightarrow> 'x rlp_crate_scheme \<Rightarrow> (u64 \<Rightarrow> u64 \<Rightarrow> bytes \<Rightarrow> u64) \<Rightarrow> u64 \<Rightarrow> block \<Rightarrow> ('e, compact_block) res" where
  "to_compact K R sip nonce b = rbind (get_shortid_key K R (bk_header b) nonce) (\<lambda>(k0, k1).
     Ok \<lparr>cb_header = bk_header b, cb_nonce = nonce, cb_tx_short_ids = create_shortids sip (bk_transactions b) k0 k1, cb_reconstructed_txns = []\<rparr>)"

text \<open>The loop over the ids, six bytes at a time; an incomplete last id is an index out of bounds.\<close>

fun decompose :: "bytes \<Rightarrow> ('e, 16 word list \<times> u32 list) res" where
  "decompose [] = Ok ([], [])"
| "decompose (a # b # c # d # e # f # rest) = rbind (to_u16 a b) (\<lambda>x. rbind (to_u32 c d e f) (\<lambda>y.
     rbind (decompose rest) (\<lambda>(xs, ys). Ok (x # xs, y # ys))))"
| "decompose _ = Panic"

definition get_decomposed_short_ids :: "compact_block \<Rightarrow> ('e, 16 word list \<times> u32 list) res" where
  "get_decomposed_short_ids c = decompose (cb_tx_short_ids c)"

definition compact_rlp :: "'x rlp_crate_scheme \<Rightarrow> compact_block \<Rightarrow> ('e, bytes) res" where
  "compact_rlp R c = rbind (stream_rlp R (hd_rlp_part (cb_header c))) (\<lambda>h. stream_list R 3 [h, enc_u64 R (cb_nonce c), enc_bytes R (cb_tx_short_ids c)])"

definition compact_decode :: "(bytes \<Rightarrow> h256) \<Rightarrow> 'x rlp_crate_scheme \<Rightarrow> bytes \<Rightarrow> (string, compact_block) res" where
  "compact_decode K R r = rbind (val_at R (dec_bytes R) r 2) (\<lambda>short_ids.
     if length short_ids mod SHORT_ID_SIZE_IN_BYTES \<noteq> 0 then Err ''Compact Block length Error!''
     else rbind (val_at R (header_decode K R) r 0) (\<lambda>h. rbind (val_at R (dec_u64 R) r 1) (\<lambda>nonce.
       Ok \<lparr>cb_header = h, cb_nonce = nonce, cb_tx_short_ids = short_ids, cb_reconstructed_txns = []\<rparr>)))"

end
