(* ===== verification/Transaction_Properties.thy ===== *)
theory Transaction_Properties
  imports Transactions Builtin_Properties
begin

text \<open>Transactions on the wire: the encoding of the signature's recovery byte, round trips, and what a receiver learns of the signer.\<close>

section \<open>Replay protection\<close>

definition legacy_v :: "byte \<Rightarrow> u32 option \<Rightarrow> u64" where
  "legacy_v v c = ucast v + (case c of Some n \<Rightarrow> 35 + ucast n * 2 | None \<Rightarrow> 27)"

lemma legacy_v_value:
  "add_chain_replay_protection v (map_option ucast (c :: u32 option)) = Ok (legacy_v v c)"
  "unat (legacy_v v c) = unat v + (case c of Some n \<Rightarrow> 35 + 2 * unat n | None \<Rightarrow> 27)"
proof -
  have v: "unat v < 2 ^ 8" using unat_lt_pow [of v] by simp
  have uv: "unat (ucast v :: u64) = unat v" using v by (simp add: unsigned_ucast_eq take_bit_nat_eq_self)
  have n: "unat n < 2 ^ 32 \<and> unat (ucast n :: u64) = unat n" for n :: u32
    using unat_lt_pow [of n] by (simp add: unsigned_ucast_eq take_bit_nat_eq_self)
  show "add_chain_replay_protection v (map_option ucast c) = Ok (legacy_v v c)"
  proof (cases c)
    case (Some m)
    have "unat v + unat m * 2 < 2 ^ 60" using v n [of m] by simp
    then show ?thesis using n Some by (simp add: add_chain_replay_protection_def legacy_v_def u_add_def u_mul_def uv unat_word_ariths)
  qed (use v in \<open>simp add: add_chain_replay_protection_def legacy_v_def u_add_def uv\<close>)
  show "unat (legacy_v v c) = unat v + (case c of Some n \<Rightarrow> 35 + 2 * unat n | None \<Rightarrow> 27)"
  proof (cases c)
    case (Some m)
    have "unat v + unat m * 2 < 2 ^ 60" using v n [of m] by simp
    then show ?thesis using n Some by (simp add: legacy_v_def uv unat_word_ariths)
  qed (use v in \<open>simp add: legacy_v_def uv unat_word_ariths\<close>)
qed

text \<open>What is read back of the byte and the chain id.\<close>

definition read_legacy :: "u64 \<Rightarrow> (string, byte \<times> u32 option) res" where
  "read_legacy w = rbind (case extract_chain_id_from_legacy_v w of
         None \<Rightarrow> Ok None
       | Some chain_id \<Rightarrow> if 0xffffffff < chain_id then Err ''Does not support chain_id >= 2^32'' else Ok (Some (ucast chain_id)))
     (\<lambda>c. Ok (extract_standard_v w, c))"

lemma standard_v_value:
  "unat (extract_standard_v w) = (if unat w = 27 then 0 else if unat w = 28 then 1 else if 35 \<le> unat w then (unat w - 1) mod 2 else 4)"
proof -
  have "unat (ucast ((w - 1) mod 2) :: byte) = (unat w - 1) mod 2" if "35 \<le> unat w"
  proof -
    have "unat (w - 1) = unat w - 1" using that by (simp add: unat_sub word_le_nat_alt)
    then show ?thesis by (simp add: unsigned_ucast_eq unat_mod_distrib take_bit_nat_eq_self)
  qed
  then show ?thesis by (auto simp: extract_standard_v_def word_le_nat_alt word_unat_eq_iff)
qed

lemma legacy_chain_id:
  "extract_chain_id_from_legacy_v w = (if 35 \<le> unat w then Some (of_nat ((unat w - 35) div 2)) else None)"
proof -
  have "(w - 35) div 2 = of_nat ((unat w - 35) div 2)" if "35 \<le> unat w"
    using that by (simp add: word_unat_eq_iff unat_div_distrib unat_sub word_le_nat_alt unat_of_nat_small unat_lt_pow [of w, simplified, THEN order.strict_trans1 [rotated]])
  then show ?thesis by (simp add: extract_chain_id_from_legacy_v_def word_le_nat_alt)
qed

lemma legacy_back:
  fixes v :: byte and c :: "u32 option"
  defines "w \<equiv> legacy_v v c"
  shows "read_legacy w = Ok (v, c) \<longleftrightarrow> v \<le> 1 \<or> v = 4 \<and> c = None"
proof -
  have w: "unat w = unat v + (case c of Some n \<Rightarrow> 35 + 2 * unat n | None \<Rightarrow> 27)" by (simp add: w_def legacy_v_value)
  have v: "unat v < 2 ^ 8" using unat_lt_pow [of v] by simp
  have v_iff: "v \<le> 1 \<longleftrightarrow> unat v \<le> 1" "v = 4 \<longleftrightarrow> unat v = 4" "extract_standard_v w = v \<longleftrightarrow> unat (extract_standard_v w) = unat v"
    by (simp_all add: word_le_nat_alt word_unat_eq_iff)
  show ?thesis
  proof (cases c)
    case None
    show ?thesis
    proof (cases "unat v < 8")
      case True
      then have "unat v \<in> {0, 1, 2, 3, 4, 5, 6, 7}" by auto
      then show ?thesis using w None True by (auto simp: read_legacy_def legacy_chain_id v_iff standard_v_value)
    next
      case False
      then have "read_legacy w \<noteq> Ok (v, c)" using w None by (auto simp: read_legacy_def legacy_chain_id)
      moreover have "\<not> v \<le> 1" "v \<noteq> 4" using False by (auto simp: v_iff)
      ultimately show ?thesis by simp
    qed
  next
    case (Some n)
    have n: "unat n < 2 ^ 32" using unat_lt_pow [of n] by simp
    define m where "m = unat n + unat v div 2"
    have m: "m < 2 ^ 33" using n v by (simp add: m_def)
    have chain: "extract_chain_id_from_legacy_v w = Some (of_nat m)" using w Some by (simp add: legacy_chain_id m_def)
    have um: "unat (of_nat m :: u64) = m" using m by (intro unat_of_nat_small) simp
    have std: "unat (extract_standard_v w) = unat v mod 2" using w Some by (simp add: standard_v_value mod_Suc) presburger
    have "read_legacy w = Ok (v, c) \<longleftrightarrow> m < 2 ^ 32 \<and> m = unat n \<and> unat v mod 2 = unat v"
    proof -
      have "(ucast (of_nat m :: u64) :: u32) = n \<longleftrightarrow> m = unat n" if "m < 2 ^ 32"
        using that um by (simp add: word_unat_eq_iff unsigned_ucast_eq take_bit_nat_eq_self)
      moreover have "(0xffffffff < (of_nat m :: u64)) \<longleftrightarrow> \<not> m < 2 ^ 32" using um by (simp add: word_less_nat_alt) linarith
      ultimately show ?thesis using std by (auto simp: read_legacy_def chain Some v_iff)
    qed
    also have "\<dots> \<longleftrightarrow> unat v \<le> 1" using n by (auto simp: m_def)
    finally show ?thesis using Some by (simp add: v_iff)
  qed
qed

section \<open>Round trips\<close>

lemma action_codec:
  assumes "rlp_ok R single"
  shows "single (action_rlp R a)" "action_decode R (action_rlp R a) = Ok a"
  using rlp_single [OF assms] rlp_dec [OF assms] by (cases a; simp add: action_rlp_def action_decode_def)+

text \<open>The bytes of a transaction, and what decoding makes of them.\<close>

definition part_bytes :: "'x rlp_crate_scheme \<Rightarrow> tx_serialize_part \<Rightarrow> bytes" where
  "part_bytes R t = (let tx = eip155_of (tp_unsigned t) in
     enc_list R [enc_u256 R (et_nonce tx), enc_u256 R (et_gas_price tx), enc_u256 R (et_gas tx), action_rlp R (et_action tx),
      enc_u256 R (et_value tx), enc_bytes R (et_data tx), enc_u64 R (legacy_v (tp_v t) (et_chain_id tx)), enc_u256 R (tp_r t), enc_u256 R (tp_s t)])"

lemma part_rlp_bytes: "part_rlp R t = Ok (part_bytes R t)"
  by (simp add: part_rlp_def part_bytes_def legacy_v_value stream_list_def Let_def)

lemma part_bytes_decode:
  assumes R: "rlp_ok R single" and d: "length (et_data (eip155_of (tp_unsigned t))) < 2 ^ 63"
  shows "single (part_bytes R t)" "item_count R (part_bytes R t) = Ok 9"
    "part_decode R (part_bytes R t) = rbind (read_legacy (legacy_v (tp_v t) (et_chain_id (eip155_of (tp_unsigned t)))))
      (\<lambda>(v, c). Ok (t\<lparr>tp_unsigned := EthereumTx ((eip155_of (tp_unsigned t))\<lparr>et_chain_id := c\<rparr>), tp_v := v\<rparr>))"
proof -
  let ?tx = "eip155_of (tp_unsigned t)"
  let ?items = "[enc_u256 R (et_nonce ?tx), enc_u256 R (et_gas_price ?tx), enc_u256 R (et_gas ?tx), action_rlp R (et_action ?tx),
      enc_u256 R (et_value ?tx), enc_bytes R (et_data ?tx), enc_u64 R (legacy_v (tp_v t) (et_chain_id ?tx)), enc_u256 R (tp_r t), enc_u256 R (tp_s t)]"
  have bytes: "part_bytes R t = enc_list R ?items" by (simp add: part_bytes_def Let_def)
  have items: "list_all single ?items" by (simp add: rlp_single [OF R] action_codec [OF R])
  have count: "item_count R (enc_list R ?items) = Ok 9" using rlp_list(1) [OF R items] by simp
  show "single (part_bytes R t)" unfolding bytes by (rule rlp_single(11) [OF R items])
  show "item_count R (part_bytes R t) = Ok 9" unfolding bytes by (rule count)
  show "part_decode R (part_bytes R t) = rbind (read_legacy (legacy_v (tp_v t) (et_chain_id ?tx)))
      (\<lambda>(v, c). Ok (t\<lparr>tp_unsigned := EthereumTx (?tx\<lparr>et_chain_id := c\<rparr>), tp_v := v\<rparr>))"
    unfolding bytes part_decode_def count using d
    by (simp add: rlp_reads [OF R items] rlp_dec [OF R] action_codec [OF R] read_legacy_def split: option.splits)
qed

lemma part_unchanged:
  "t\<lparr>tp_unsigned := EthereumTx ((eip155_of (tp_unsigned t))\<lparr>et_chain_id := c\<rparr>), tp_v := v\<rparr> = t \<longleftrightarrow>
    v = tp_v t \<and> c = et_chain_id (eip155_of (tp_unsigned t))"
proof (cases t)
  case (fields u w r s)
  obtain tx where "u = EthereumTx tx" by (cases u)
  then show ?thesis using fields by (cases tx) auto
qed

lemma tws_decode_bytes:
  assumes R: "rlp_ok R single" and d: "length (et_data (eip155_of (tp_unsigned (tw_transaction t)))) < 2 ^ 63"
  defines "raw \<equiv> part_bytes R (tw_transaction t)"
  shows "tws_decode K R raw = Ok (t\<lparr>tw_hash := K raw, tw_rlp_size := Some (length raw)\<rparr>) \<longleftrightarrow>
      tp_v (tw_transaction t) \<le> 1 \<or> tp_v (tw_transaction t) = 4 \<and> et_chain_id (eip155_of (tp_unsigned (tw_transaction t))) = None"
proof -
  let ?t = "tw_transaction t"
  let ?tx = "eip155_of (tp_unsigned ?t)"
  note raw = part_bytes_decode [OF R d, folded raw_def]
  have "part_decode R raw = Ok ?t \<longleftrightarrow> read_legacy (legacy_v (tp_v ?t) (et_chain_id ?tx)) = Ok (tp_v ?t, et_chain_id ?tx)"
    unfolding raw(3) by (auto simp: rbind_Ok_iff part_unchanged)
  then have "tws_decode K R raw = Ok (t\<lparr>tw_hash := K raw, tw_rlp_size := Some (length raw)\<rparr>) \<longleftrightarrow>
      read_legacy (legacy_v (tp_v ?t) (et_chain_id ?tx)) = Ok (tp_v ?t, et_chain_id ?tx)"
    unfolding tws_decode_def raw(2) by (cases t) (auto simp: rbind_Ok_iff)
  then show ?thesis unfolding legacy_back .
qed

text \<open>C20.  A transaction is always encoded, and decoding the bytes gives it back, with the hash and length of the bytes, exactly when its
  recovery byte is zero or one, or four without a chain id; no other recovery byte survives the replay protection.\<close>

theorem transaction_round_trip:
  assumes "rlp_ok R single" and "length (et_data (eip155_of (tp_unsigned (tw_transaction t)))) < 2 ^ 63"
  shows "\<exists>raw. (tws_rlp R t :: (string, bytes) res) = Ok raw \<and>
    (tws_decode K R raw = Ok (t\<lparr>tw_hash := K raw, tw_rlp_size := Some (length raw)\<rparr>) \<longleftrightarrow>
      tp_v (tw_transaction t) \<le> 1 \<or> tp_v (tw_transaction t) = 4 \<and> et_chain_id (eip155_of (tp_unsigned (tw_transaction t))) = None)"
  using tws_decode_bytes [OF assms, of K] by (simp add: tws_rlp_def part_rlp_bytes)

section \<open>Signing\<close>

definition unsigned_bytes :: "'x rlp_crate_scheme \<Rightarrow> eip155_transaction \<Rightarrow> bytes" where
  "unsigned_bytes R tx = enc_list R ([enc_u256 R (et_nonce tx), enc_u256 R (et_gas_price tx), enc_u256 R (et_gas tx), action_rlp R (et_action tx),
     enc_u256 R (et_value tx), enc_bytes R (et_data tx)] @ (case et_chain_id tx of None \<Rightarrow> [] | Some c \<Rightarrow> [enc_u32 R c, enc_u8 R 0, enc_u8 R 0]))"

lemma signature_hash_bytes: "signature_hash K R t = Ok (K (unsigned_bytes R (eip155_of t)))"
  by (simp add: signature_hash_def eip155_rlp_def unsigned_bytes_def stream_list_def Let_def split: option.splits)

lemma from_rsv_parts: "length sig = 65 \<Longrightarrow> from_rsv (from_be (sig_r sig)) (from_be (sig_s sig)) (sig_v sig) = sig"
proof -
  assume l: "length sig = 65"
  have "to_be 32 (from_be (sig_r sig) :: h256) = sig_r sig" "to_be 32 (from_be (sig_s sig) :: h256) = sig_s sig"
    using to_be_from_be [of "sig_r sig", where 'a = 256] to_be_from_be [of "sig_s sig", where 'a = 256] l by (simp_all add: sig_r_def sig_s_def)
  moreover have "sig = take 32 sig @ take 32 (drop 32 sig) @ [sig ! 64]"
  proof -
    have "drop 64 sig = [sig ! 64]" using l Cons_nth_drop_Suc [of 64 sig] by simp
    then show ?thesis by (metis add.commute append_take_drop_id drop_drop numeral_Bit0)
  qed
  ultimately show ?thesis by (simp add: from_rsv_def sig_r_def sig_s_def sig_v_def)
qed

text \<open>What signing gives, with the signature \<open>sig\<close> of the key pair.\<close>

definition signed_by :: "(bytes \<Rightarrow> h256) \<Rightarrow> 'x rlp_crate_scheme \<Rightarrow> eip155_transaction \<Rightarrow> bytes \<Rightarrow> transaction_with_signature" where
  "signed_by K R tx sig =
     (let t = \<lparr>tp_unsigned = EthereumTx tx, tp_v = sig_v sig, tp_r = from_be (sig_r sig), tp_s = from_be (sig_s sig)\<rparr> in
      \<lparr>tw_transaction = t, tw_hash = K (part_bytes R t), tw_rlp_size = None\<rparr>)"

lemma with_signature_gives: "with_signature K R (EthereumTx tx) sig = Ok (signed_by K R tx sig)"
  by (simp add: with_signature_def with_rsv_def compute_hash_def tws_rlp_def part_rlp_bytes signed_by_def Let_def)

lemma tx_sign_gives:
  assumes S: "secp_laws S" and kp: "from_secret S secret = Ok kp" and valid: "\<And>m sig. key_sign S secret m = Ok sig \<Longrightarrow> signature_is_valid sig"
  shows "\<exists>sig. length sig = 65 \<and> signature_is_valid sig \<and> recover_public S K R (signed_by K R tx sig) = Ok (kp_public kp) \<and>
    verify_public S (kp_public kp) sig (K (unsigned_bytes R tx)) = Ok True \<and>
    (tx_sign S K R (EthereumTx tx) secret :: ('e, signed_transaction) res) =
      Ok \<lparr>sx_transaction = signed_by K R tx sig, sx_sender = kp_address K kp, sx_public = Some (kp_public kp)\<rparr>"
proof -
  obtain sig where sig: "key_sign S secret (K (unsigned_bytes R tx)) = Ok sig" "length sig = 65" "recover S sig (K (unsigned_bytes R tx)) = Ok (kp_public kp)"
    "verify_public S (kp_public kp) sig (K (unsigned_bytes R tx)) = Ok True"
    using sign_gives [OF S kp] by blast
  have v: "signature_is_valid sig" by (rule valid [OF sig(1)])
  then have "\<not> is_unsigned (signed_by K R tx sig)" by (auto simp: signature_is_valid_def is_unsigned_def signed_by_def Let_def)
  moreover have "recover_public S K R (signed_by K R tx sig) = Ok (kp_public kp)"
    using sig(3) from_rsv_parts [OF sig(2)] by (simp add: recover_public_def signature_hash_bytes signed_by_def tws_signature_def Let_def)
  ultimately show ?thesis
    using sig v by (auto simp: tx_sign_def signature_hash_bytes with_signature_gives signed_new_def kp_address_def)
qed


section \<open>Witnesses\<close>

definition ref_eip155 :: eip155_transaction where
  "ref_eip155 = \<lparr>et_nonce = 0, et_gas_price = 1, et_gas = 100000, et_action = TxCall 9, et_value = 5, et_chain_id = Some 1, et_data = [1, 2]\<rparr>"

definition ref_signed :: "byte \<Rightarrow> transaction_with_signature" where
  "ref_signed v = \<lparr>tw_transaction = \<lparr>tp_unsigned = EthereumTx ref_eip155, tp_v = v, tp_r = 7, tp_s = 7\<rparr>, tw_hash = 0, tw_rlp_size = None\<rparr>"

theorem transaction_round_trip_witness:
  "(\<exists>raw. (tws_rlp ref_crate (ref_signed 1) :: (string, bytes) res) = Ok raw \<and>
      tws_decode ref_keccak ref_crate raw = Ok ((ref_signed 1)\<lparr>tw_hash := ref_keccak raw, tw_rlp_size := Some (length raw)\<rparr>)) \<and>
   (\<exists>raw. (tws_rlp ref_crate (ref_signed 2) :: (string, bytes) res) = Ok raw \<and>
      tws_decode ref_keccak ref_crate raw \<noteq> Ok ((ref_signed 2)\<lparr>tw_hash := ref_keccak raw, tw_rlp_size := Some (length raw)\<rparr>))"
  using transaction_round_trip [OF ref_crate_ok, of "ref_signed 1" ref_keccak] transaction_round_trip [OF ref_crate_ok, of "ref_signed 2" ref_keccak]
  by (auto simp: ref_signed_def ref_eip155_def word_le_nat_alt)


end
