(* ===== verification/Chain_Data_Properties.thy ===== *)
theory Chain_Data_Properties
  imports Blocks Transaction_Properties
begin

text \<open>Headers and compact blocks on the wire.\<close>

section \<open>Headers\<close>

lemma header_tail_length: "length (header_tail R p) = pos_count p + length (bh_custom p)"
  by (simp add: header_tail_def pos_count_def split: option.splits)

lemma header_fields_length: "length (header_fields R p) = 13"
  by (simp add: header_fields_def)

definition header_bytes :: "'x rlp_crate_scheme \<Rightarrow> block_header_part \<Rightarrow> bytes" where
  "header_bytes R p = enc_list R (header_fields R p @ [enc_u256 R (bh_nonce p)] @ header_tail R p)"

text \<open>The announced length is the number of items, for each of the three encodings.\<close>

lemma header_streams_complete:
  "stream_rlp R p = Ok (header_bytes R p)"
  "stream_rlp_without_nonce R p = Ok (enc_list R (header_fields R p @ header_tail R p))"
  "stream_rlp_with_pow_hash R h = Ok (enc_list R (header_fields R (hd_rlp_part h) @ [enc_u256 R (bh_nonce (hd_rlp_part h)),
     enc_option R (map_option (enc_h256 R) (hd_pow_hash h))] @ header_tail R (hd_rlp_part h)))"
  by (simp_all add: stream_rlp_def stream_rlp_without_nonce_def stream_rlp_with_pow_hash_def stream_list_def header_bytes_def header_tail_length
      header_fields_length HEADER_LIST_MIN_LEN_def Let_def)

lemma header_items_single:
  assumes R: "rlp_ok R single" and c: "list_all single (bh_custom p)"
  shows "list_all single (header_fields R p)" "list_all single (header_tail R p)"
proof -
  have "list_all single (map (enc_h256 R) xs)" for xs by (induction xs) (simp_all add: rlp_single [OF R])
  then show "list_all single (header_fields R p)" by (simp add: header_fields_def rlp_single [OF R])
  have "single (enc_option R (Some (enc_h256 R h)))" for h by (rule rlp_single(10) [OF R]) (auto simp: rlp_single [OF R])
  then show "list_all single (header_tail R p)" using c by (auto simp: header_tail_def split: option.splits)
qed

lemma custom_items:
  assumes R: "rlp_ok R single" and xs: "list_all single xs" and k: "k \<le> length xs"
  shows "foldr (\<lambda>i rest. rbind (rlp_at R (enc_list R xs) i) (\<lambda>x. rbind rest (\<lambda>ys. Ok (x # ys)))) [k..<length xs] (Ok []) = Ok (drop k xs)"
  using k
proof (induction "length xs - k" arbitrary: k)
  case (Suc n)
  then have "k < length xs" "n = length xs - Suc k" by linarith+
  then show ?case using Suc.hyps(1) [of "Suc k"] rlp_list(2) [OF R xs] by (simp add: upt_conv_Cons Cons_nth_drop_Suc)
qed simp

lemma header_fields_nth:
  "header_fields R p ! 0 = enc_h256 R (bh_parent_hash p)" "header_fields R p ! 1 = enc_u64 R (bh_height p)"
  "header_fields R p ! 2 = enc_u64 R (bh_timestamp p)" "header_fields R p ! 3 = enc_address R (bh_author p)"
  "header_fields R p ! 4 = enc_h256 R (bh_transactions_root p)" "header_fields R p ! 5 = enc_h256 R (bh_deferred_state_root p)"
  "header_fields R p ! 6 = enc_h256 R (bh_deferred_receipts_root p)" "header_fields R p ! 7 = enc_h256 R (bh_deferred_logs_bloom_hash p)"
  "header_fields R p ! 8 = enc_u32 R (bh_blame p)" "header_fields R p ! 9 = enc_u256 R (bh_difficulty p)"
  "header_fields R p ! 10 = enc_u8 R (if bh_adaptive p then 1 else 0)" "header_fields R p ! 11 = enc_u256 R (bh_gas_limit p)"
  "header_fields R p ! 12 = enc_list R (map (enc_h256 R) (bh_referee_hashes p))"
  by (simp_all add: header_fields_def)

text \<open>The reference that decoding finds: the first item after the nonce, when it reads as one.\<close>

definition read_reference :: "'x rlp_crate_scheme \<Rightarrow> bytes list \<Rightarrow> h256 option" where
  "read_reference R xs = (case xs of [] \<Rightarrow> None | x # _ \<Rightarrow> (case option_of R (dec_h256 R) x of Ok v \<Rightarrow> v | _ \<Rightarrow> None))"

lemma header_part_read:
  assumes R: "rlp_ok R single" and c: "list_all single (bh_custom p)"
  shows "header_part_decode R 14 (header_bytes R p) = Ok (p\<lparr>bh_custom := [], bh_pos_reference := read_reference R (header_tail R p)\<rparr>)"
proof -
  let ?xs = "header_fields R p @ [enc_u256 R (bh_nonce p)] @ header_tail R p"
  have xs: "list_all single ?xs" using header_items_single [OF R c] rlp_single(5) [OF R] by simp
  have topics: "list_all single (map (enc_h256 R) (bh_referee_hashes p))" by (simp add: list_all_iff rlp_single [OF R])
  have "as_list R (dec_h256 R) (enc_list R (map (enc_h256 R) (bh_referee_hashes p))) = Ok (bh_referee_hashes p)"
    unfolding rlp_reads(3) [OF R topics] by (rule decode_all_map) (rule rlp_dec(7) [OF R])
  moreover have "(case val_at R (option_of R (dec_h256 R)) (enc_list R ?xs) 14 of Ok x \<Rightarrow> x | _ \<Rightarrow> None) = read_reference R (header_tail R p)"
  proof (cases "header_tail R p")
    case Nil
    then have "\<exists>e. rlp_at R (enc_list R ?xs) 14 = Err e" using rlp_list(3) [OF R xs] by (simp add: header_fields_length)
    then show ?thesis using Nil by (auto simp: val_at_def read_reference_def)
  next
    case (Cons x ys)
    then have "?xs ! 14 = x" "14 < length ?xs" by (simp_all add: nth_append header_fields_length)
    then have "val_at R (option_of R (dec_h256 R)) (enc_list R ?xs) 14 = option_of R (dec_h256 R) x"
      by (simp only: rlp_reads(1) [OF R xs])
    with Cons show ?thesis by (simp add: read_reference_def)
  qed
  moreover have "?xs ! i = header_fields R p ! i" if "i < 13" for i using that by (simp add: nth_append header_fields_length)
  moreover have "?xs ! 13 = enc_u256 R (bh_nonce p)" "13 < length ?xs" by (simp_all add: nth_append header_fields_length)
  ultimately show ?thesis
    unfolding header_bytes_def header_part_decode_def
    by (simp only: rlp_reads(1,2) [OF R xs] header_fields_nth rlp_dec [OF R] rbind.simps) simp
qed

lemma header_decode_gives:
  assumes R: "rlp_ok R single" and c: "list_all single (bh_custom p)"
    and q: "q = p\<lparr>bh_pos_reference := r, bh_custom := drop (if r = None then 0 else 1) (header_tail R p)\<rparr>"
    and r: "r = read_reference R (header_tail R p)"
  shows "header_decode K R (header_bytes R p) =
    Ok \<lparr>hd_rlp_part = q, hd_hash = Some (K (header_bytes R q)), hd_pow_hash = None, hd_approximated_rlp_size = length (header_bytes R p)\<rparr>"
proof -
  let ?xs = "header_fields R p @ [enc_u256 R (bh_nonce p)] @ header_tail R p"
  let ?p = "p\<lparr>bh_custom := [], bh_pos_reference := r\<rparr>"
  have xs: "list_all single ?xs" using header_items_single [OF R c] rlp_single(5) [OF R] by simp
  have k: "14 + pos_count ?p \<le> length ?xs" by (auto simp: pos_count_def r read_reference_def header_fields_length split: list.splits)
  have "drop (14 + pos_count ?p) ?xs = drop (pos_count ?p) (header_tail R p)" by (simp add: header_fields_length)
  then have "header_custom_decode R 14 (header_bytes R p) ?p = Ok q"
    unfolding header_custom_decode_def header_bytes_def rlp_list(1) [OF R xs] rbind.simps custom_items [OF R xs k]
    by (simp add: q pos_count_def)
  then show ?thesis
    by (simp add: header_decode_def header_part_read [OF R c] r [symmetric] header_compute_hash_def header_hash_def header_streams_complete)
qed

text \<open>The items that the decoder takes for the reference to a PoS block.\<close>

definition takes_for_reference :: "'x rlp_crate_scheme \<Rightarrow> block_header_part \<Rightarrow> bool" where
  "takes_for_reference R p \<longleftrightarrow> bh_pos_reference p = None \<and> bh_custom p \<noteq> [] \<and>
     (\<exists>h. option_of R (dec_h256 R) (hd (bh_custom p)) = Ok (Some h))"

lemma header_round_trip_gives:
  assumes R: "rlp_ok R single" and c: "list_all single (bh_custom p)"
  shows "header_decode K R (header_bytes R p) =
      Ok \<lparr>hd_rlp_part = p, hd_hash = Some (K (header_bytes R p)), hd_pow_hash = None, hd_approximated_rlp_size = length (header_bytes R p)\<rparr> \<longleftrightarrow>
    \<not> takes_for_reference R p"
proof -
  let ?r = "read_reference R (header_tail R p)"
  let ?q = "p\<lparr>bh_pos_reference := ?r, bh_custom := drop (if ?r = None then 0 else 1) (header_tail R p)\<rparr>"
  have "option_of R (dec_h256 R) (enc_option R (Some (enc_h256 R h))) = Ok (Some h)" for h
    unfolding option_of_def by (subst rlp_dec(10) [OF R]) (auto simp: rlp_single [OF R] rlp_dec(7) [OF R])
  then have q: "?q = p \<longleftrightarrow> \<not> takes_for_reference R p"
    by (cases p) (auto simp: takes_for_reference_def read_reference_def header_tail_def split: option.splits list.splits res.splits)
  have "header_decode K R (header_bytes R p) =
      Ok \<lparr>hd_rlp_part = p, hd_hash = Some (K (header_bytes R p)), hd_pow_hash = None, hd_approximated_rlp_size = length (header_bytes R p)\<rparr> \<longleftrightarrow> ?q = p"
    unfolding header_decode_gives [OF R c refl refl] by auto
  then show ?thesis unfolding q .
qed

text \<open>C25.  An encoded header reads back as itself, with the hash of its bytes, exactly when the decoder cannot take its first custom item for
  a reference to a PoS block: there is such a reference, or no custom item, or the first one does not read as one.\<close>

theorem header_round_trip:
  assumes R: "rlp_ok R single" and c: "list_all single (bh_custom p)"
  shows "\<exists>raw. (stream_rlp R p :: (string, bytes) res) = Ok raw \<and>
    (header_decode K R raw = Ok \<lparr>hd_rlp_part = p, hd_hash = Some (K raw), hd_pow_hash = None, hd_approximated_rlp_size = length raw\<rparr> \<longleftrightarrow>
       bh_pos_reference p \<noteq> None \<or> bh_custom p = [] \<or> (\<forall>h. option_of R (dec_h256 R) (hd (bh_custom p)) \<noteq> Ok (Some h)))"
  unfolding header_streams_complete res.inject ex_simps using header_round_trip_gives [OF R c, of K] by (simp add: takes_for_reference_def)

section \<open>Short ids\<close>

lemma u_add_disjoint: "a AND b = 0 \<Longrightarrow> u_add a b = Ok (a OR b :: 'a::len word)"
proof -
  assume d: "a AND b = 0"
  then have "unat a AND unat b = 0" by (metis unat_0 unsigned_and_eq)
  then have "unat a + unat b = unat (a OR b)" by (simp add: disjunctive_add_eq_or unsigned_or_eq)
  moreover have "a + b = a OR b" using d by (rule disjunctive_add_eq_or)
  moreover have "\<not> 2 ^ LENGTH('a) \<le> unat (a OR b)" unfolding not_le by (rule unsigned_less)
  ultimately show ?thesis by (simp only: u_add_def if_False)
qed

lemma to_u16_parts: "to_u16 (ucast (drop_bit 8 (x AND 0xff00))) (ucast (x AND 0xff)) = Ok (x :: 16 word)"
proof -
  let ?a = "push_bit 8 (ucast (ucast (drop_bit 8 (x AND 0xff00)) :: byte)) :: 16 word"
  let ?b = "ucast (ucast (x AND 0xff) :: byte) :: 16 word"
  have m: "(0xff :: 16 word) = mask 8" "(0xff00 :: 16 word) = push_bit 8 (mask 8)" by (simp_all add: mask_eq_exp_minus_1)
  have "?a AND ?b = 0" by (rule bit_word_eqI) (auto simp: m bit_simps)
  moreover have "?a OR ?b = x"
  proof (rule bit_word_eqI)
    fix n assume "n < LENGTH(16)"
    then show "bit (?a OR ?b) n = bit x n" by (cases "n < 8") (auto simp: m bit_simps)
  qed
  ultimately show ?thesis by (simp add: to_u16_def u_add_disjoint)
qed

lemma to_u32_parts:
  fixes h :: h256
  shows "to_u32 (ucast (drop_bit 24 h)) (ucast (drop_bit 16 h)) (ucast (drop_bit 8 h)) (ucast h) = Ok (ucast h)"
proof -
  let ?f = "\<lambda>n. push_bit n (ucast (ucast (drop_bit n h) :: byte)) :: u32"
  have "?f 24 AND ?f 16 = 0" "(?f 24 OR ?f 16) AND ?f 8 = 0" "(?f 24 OR ?f 16 OR ?f 8) AND ?f 0 = 0"
    by (rule bit_word_eqI; auto simp: bit_simps)+
  moreover have "?f 24 OR ?f 16 OR ?f 8 OR ?f 0 = ucast h"
  proof (rule bit_word_eqI)
    fix n assume "n < LENGTH(32)"
    then consider "n < 8" | "8 \<le> n" "n < 16" | "16 \<le> n" "n < 24" | "24 \<le> n" "n < 32" by fastforce
    then show "bit (?f 24 OR ?f 16 OR ?f 8 OR ?f 0) n = bit (ucast h :: u32) n" by cases (auto simp: bit_simps)
  qed
  ultimately show ?thesis by (simp add: to_u32_def u_add_disjoint or.assoc)
qed

lemma low_bytes:
  "to_be 32 h ! 28 = ucast (drop_bit 24 h)" "to_be 32 h ! 29 = ucast (drop_bit 16 h)" "to_be 32 h ! 30 = ucast (drop_bit 8 h)"
  "to_be 32 h ! 31 = ucast h" for h :: h256
  by (simp_all add: to_be_def rev_nth)
lemma short_id_read:
  "decompose (short_id sip k0 k1 h @ rest) =
     rbind (decompose rest) (\<lambda>(xs, ys). Ok (get_random_bytes sip h k0 k1 # xs, ucast h # ys))"
  unfolding short_id_def Let_def low_bytes append_Cons append_Nil decompose.simps(2) to_u16_parts to_u32_parts rbind.simps by (rule refl)

lemma create_shortids_concat: "create_shortids sip ts k0 k1 = concat (map (\<lambda>t. short_id sip k0 k1 (tw_hash (sx_transaction t))) ts)"
proof -
  have "fold (\<lambda>t ids. ids @ f t) ts acc = acc @ concat (map f ts)" for f :: "signed_transaction \<Rightarrow> bytes" and acc by (induction ts arbitrary: acc) auto
  then show ?thesis by (simp add: create_shortids_def)
qed

lemma create_shortids_read:
  "decompose (create_shortids sip ts k0 k1) =
     Ok (map (\<lambda>t. get_random_bytes sip (tw_hash (sx_transaction t)) k0 k1) ts, map (\<lambda>t. ucast (tw_hash (sx_transaction t))) ts)"
  "length (create_shortids sip ts k0 k1) = 6 * length ts"
  by (induction ts) (simp_all add: create_shortids_concat short_id_read, simp add: short_id_def Let_def)


definition ref_header_part :: "bytes list \<Rightarrow> block_header_part" where
  "ref_header_part custom = with_custom custom (with_height 3 (builder_new ref_keccak 0))"

theorem header_round_trip_witness:
  "(\<exists>raw. (stream_rlp ref_crate (ref_header_part []) :: (string, bytes) res) = Ok raw \<and> header_decode ref_keccak ref_crate raw =
      Ok \<lparr>hd_rlp_part = ref_header_part [], hd_hash = Some (ref_keccak raw), hd_pow_hash = None, hd_approximated_rlp_size = length raw\<rparr>) \<and>
   (let p = ref_header_part [ref_list [ref_item 0 (to_be 32 (5 :: h256))]] in
    \<exists>raw. (stream_rlp ref_crate p :: (string, bytes) res) = Ok raw \<and> header_decode ref_keccak ref_crate raw \<noteq>
      Ok \<lparr>hd_rlp_part = p, hd_hash = Some (ref_keccak raw), hd_pow_hash = None, hd_approximated_rlp_size = length raw\<rparr>)"
proof -
  let ?x = "ref_list [ref_item 0 (to_be 32 (5 :: h256))]"
  have "option_of ref_crate (dec_h256 ref_crate) ?x = Ok (Some 5)"
    by (simp add: option_of_def ref_crate_def ref_payload_list ref_iter_list ref_single_item ref_word_item)
  then show ?thesis
    using header_round_trip [OF ref_crate_ok, of "ref_header_part []" ref_keccak] header_round_trip [OF ref_crate_ok, of "ref_header_part [?x]" ref_keccak]
    by (auto simp: ref_header_part_def with_custom_def with_height_def builder_new_def ref_single_item Let_def)
qed

definition ref_block :: block where
  "ref_block = \<lparr>bk_header = build (\<lambda>_. 0) (ref_header_part []),
     bk_transactions = [\<lparr>sx_transaction = ref_signed 1, sx_sender = 0, sx_public = None\<rparr>],
     bk_approximated_rlp_size = 0, bk_approximated_rlp_size_with_public = 0\<rparr>"


end
