(* ===== verification/Secrets.thy ===== *)
theory Secrets
  imports Keys Substate
begin

text \<open>
  Arithmetic on secret and public keys (utils/cfxkey: secret.rs, math.rs, the rest of keypair.rs) and the
  type bits of addresses (utils/cfx_types/src/lib.rs).  The arithmetic of the secp256k1 crate extends the
  parameter of Keys; a method with a mutable receiver is an effect on the secret.
\<close>

section \<open>The arithmetic of the crate\<close>

record secp_math =
  sm_ops :: secp_ops
  sk_add_assign :: "bytes \<Rightarrow> bytes \<Rightarrow> secp_error + bytes"
  sk_mul_assign :: "bytes \<Rightarrow> bytes \<Rightarrow> secp_error + bytes"
  sk_inv_assign :: "bytes \<Rightarrow> secp_error + bytes"
  MINUS_ONE_KEY :: bytes
  ONE_KEY :: bytes
  pk_add_assign :: "bytes \<Rightarrow> bytes \<Rightarrow> secp_error + bytes"
  pk_mul_assign :: "bytes \<Rightarrow> bytes \<Rightarrow> secp_error + bytes"
  pk_is_valid :: "bytes \<Rightarrow> bool"
  serialize_compressed :: "bytes \<Rightarrow> bytes"
  shared_secret_new_raw :: "bytes \<Rightarrow> bytes \<Rightarrow> bytes"
  CURVE_ORDER :: h256
  GENERATOR_X :: bytes
  GENERATOR_Y :: bytes

section \<open>Secrets\<close>

definition secret_of_key :: "bytes \<Rightarrow> h256" where
  "secret_of_key key = from_be (take 32 key)"

definition secret_from_slice :: "bytes \<Rightarrow> h256 option" where
  "secret_from_slice key = (if length key \<noteq> 32 then None else Some (from_be (take 32 key)))"

definition from_unsafe_slice :: "secp_math \<Rightarrow> bytes \<Rightarrow> (key_error, h256) res" where
  "from_unsafe_slice S key = rbind (from_secp (secret_key_from_slice (sm_ops S) key)) (\<lambda>k. Ok (secret_of_key k))"

definition to_secp256k1_secret :: "secp_math \<Rightarrow> h256 \<Rightarrow> (key_error, bytes) res" where
  "to_secp256k1_secret S secret = from_secp (secret_key_from_slice (sm_ops S) (to_be 32 secret))"

definition check_validity :: "secp_math \<Rightarrow> h256 \<Rightarrow> (key_error, unit) res" where
  "check_validity S secret = rbind (to_secp256k1_secret S secret) (\<lambda>_. Ok ())"

text \<open>The receiver is assigned only when the computation succeeds.\<close>

definition assign_key :: "(key_error, bytes) res \<Rightarrow> (h256, key_error, unit) eff" where
  "assign_key r = ebind (elift r) (\<lambda>k. emodify (\<lambda>_. secret_of_key k))"

definition secret_add :: "secp_math \<Rightarrow> h256 \<Rightarrow> (h256, key_error, unit) eff" where
  "secret_add S other = (\<lambda>secret.
     if other = 0 then (Ok (), secret)
     else if secret = 0 then (Ok (), other)
     else assign_key (rbind (to_secp256k1_secret S secret) (\<lambda>k. rbind (to_secp256k1_secret S other) (\<lambda>o'.
       from_secp (sk_add_assign S k o')))) secret)"

definition secret_neg :: "secp_math \<Rightarrow> (h256, key_error, unit) eff" where
  "secret_neg S = (\<lambda>secret.
     if secret = 0 then (Ok (), secret)
     else assign_key (rbind (to_secp256k1_secret S secret) (\<lambda>k. from_secp (sk_mul_assign S k (MINUS_ONE_KEY S)))) secret)"

definition secret_sub :: "secp_math \<Rightarrow> h256 \<Rightarrow> (h256, key_error, unit) eff" where
  "secret_sub S other = (\<lambda>secret.
     if other = 0 then (Ok (), secret)
     else if secret = 0 then secret_neg S other
     else assign_key (rbind (to_secp256k1_secret S secret) (\<lambda>k. rbind (to_secp256k1_secret S other) (\<lambda>o'.
       rbind (from_secp (sk_mul_assign S o' (MINUS_ONE_KEY S))) (\<lambda>m. from_secp (sk_add_assign S k m))))) secret)"

definition secret_dec :: "secp_math \<Rightarrow> (h256, key_error, unit) eff" where
  "secret_dec S = (\<lambda>secret.
     if secret = 0 then (Ok (), secret_of_key (MINUS_ONE_KEY S))
     else assign_key (rbind (to_secp256k1_secret S secret) (\<lambda>k. from_secp (sk_add_assign S k (MINUS_ONE_KEY S)))) secret)"

definition secret_mul :: "secp_math \<Rightarrow> h256 \<Rightarrow> (h256, key_error, unit) eff" where
  "secret_mul S other = (\<lambda>secret.
     if secret = 0 then (Ok (), secret)
     else if other = 0 then (Ok (), 0)
     else assign_key (rbind (to_secp256k1_secret S secret) (\<lambda>k. rbind (to_secp256k1_secret S other) (\<lambda>o'.
       from_secp (sk_mul_assign S k o')))) secret)"

definition secret_inv :: "secp_math \<Rightarrow> (h256, key_error, unit) eff" where
  "secret_inv S = (\<lambda>secret. assign_key (rbind (to_secp256k1_secret S secret) (\<lambda>k. from_secp (sk_inv_assign S k))) secret)"

primrec mul_times :: "secp_math \<Rightarrow> h256 \<Rightarrow> nat \<Rightarrow> (h256, key_error, unit) eff" where
  "mul_times S c 0 = eret ()"
| "mul_times S c (Suc n) = ethen (secret_mul S c) (mul_times S c n)"

definition secret_pow :: "secp_math \<Rightarrow> usize \<Rightarrow> (h256, key_error, unit) eff" where
  "secret_pow S pow = (\<lambda>secret.
     if secret = 0 then (Ok (), secret)
     else if pow = 0 then (Ok (), secret_of_key (ONE_KEY S))
     else if pow = 1 then (Ok (), secret)
     else mul_times S secret (unat pow - 1) secret)"

section \<open>Public keys\<close>

definition to_secp256k1_public :: "secp_math \<Rightarrow> bytes \<Rightarrow> (key_error, bytes) res" where
  "to_secp256k1_public S public = from_secp (public_key_from_slice (sm_ops S) (4 # take 64 public))"

definition public_of_key :: "secp_math \<Rightarrow> bytes \<Rightarrow> bytes" where
  "public_of_key S key = take 64 (drop 1 (serialize_uncompressed (sm_ops S) key))"

definition public_is_valid :: "secp_math \<Rightarrow> bytes \<Rightarrow> bool" where
  "public_is_valid S public = (case to_secp256k1_public S public of Ok p \<Rightarrow> pk_is_valid S p | _ \<Rightarrow> False)"

definition public_mul_secret :: "secp_math \<Rightarrow> bytes \<Rightarrow> h256 \<Rightarrow> (key_error, bytes) res" where
  "public_mul_secret S public secret = rbind (to_secp256k1_secret S secret) (\<lambda>s. rbind (to_secp256k1_public S public) (\<lambda>p.
     rbind (from_secp (pk_mul_assign S p s)) (\<lambda>q. Ok (public_of_key S q))))"

definition public_add :: "secp_math \<Rightarrow> bytes \<Rightarrow> bytes \<Rightarrow> (key_error, bytes) res" where
  "public_add S public other = rbind (to_secp256k1_public S public) (\<lambda>p. rbind (to_secp256k1_public S other) (\<lambda>o'.
     rbind (from_secp (pk_add_assign S p o')) (\<lambda>q. Ok (public_of_key S q))))"

definition public_sub :: "secp_math \<Rightarrow> bytes \<Rightarrow> bytes \<Rightarrow> (key_error, bytes) res" where
  "public_sub S public other = rbind (to_secp256k1_public S other) (\<lambda>o'. rbind (from_secp (pk_mul_assign S o' (MINUS_ONE_KEY S))) (\<lambda>neg.
     rbind (to_secp256k1_public S public) (\<lambda>p. rbind (from_secp (pk_add_assign S p neg)) (\<lambda>q. Ok (public_of_key S q)))))"

definition public_negate :: "secp_math \<Rightarrow> bytes \<Rightarrow> (key_error, bytes) res" where
  "public_negate S public = rbind (to_secp256k1_public S public) (\<lambda>p.
     rbind (from_secp (pk_mul_assign S p (MINUS_ONE_KEY S))) (\<lambda>q. Ok (public_of_key S q)))"

definition generation_point :: "secp_math \<Rightarrow> ('e, bytes) res" where
  "generation_point S = (case public_key_from_slice (sm_ops S) (4 # GENERATOR_X S @ GENERATOR_Y S) of
     Inr p \<Rightarrow> Ok (public_of_key S p) | Inl _ \<Rightarrow> Panic)"

section \<open>The rest of key pairs\<close>

definition from_secret_slice :: "secp_math \<Rightarrow> bytes \<Rightarrow> (key_error, key_pair) res" where
  "from_secret_slice S key = rbind (from_unsafe_slice S key) (from_secret (sm_ops S))"

definition from_keypair :: "secp_math \<Rightarrow> bytes \<Rightarrow> bytes \<Rightarrow> key_pair" where
  "from_keypair S sec publ = \<lparr>kp_secret = secret_of_key sec, kp_public = public_of_key S publ\<rparr>"

section \<open>Type bits of addresses\<close>

definition is_null_address :: "address \<Rightarrow> bool" where
  "is_null_address a \<longleftrightarrow> a = 0"

definition is_contract_address :: "address \<Rightarrow> bool" where
  "is_contract_address a \<longleftrightarrow> address_type_bits a = 0x80"

definition is_user_account_address :: "address \<Rightarrow> bool" where
  "is_user_account_address a \<longleftrightarrow> address_type_bits a = 0x10"

definition is_genesis_valid_address :: "address \<Rightarrow> bool" where
  "is_genesis_valid_address a \<longleftrightarrow> is_contract_address a \<or> is_user_account_address a \<or> is_builtin_address a \<or> is_null_address a"

definition set_address_type_bits :: "byte \<Rightarrow> address \<Rightarrow> address" where
  "set_address_type_bits type_bits a = (let bs = to_be 20 a in from_be ((bs ! 0 AND 0x0f OR type_bits) # tl bs))"

definition is_compatible_public :: "(bytes \<Rightarrow> h256) \<Rightarrow> bytes \<Rightarrow> bool" where
  "is_compatible_public K public = is_user_account_address (from_be (drop 12 (to_be 32 (K public))))"

end
