(* ===== verification/Key_Laws.thy ===== *)
theory Key_Laws
  imports Secrets
begin

text \<open>
  What the secp256k1 crate documents of its keys, and what follows for the arithmetic on secrets.
\<close>

section \<open>The curve\<close>

text \<open>
  Secret keys are the scalars between zero and the order \<open>n\<close> of the curve, in 32 bytes; \<open>P k\<close> is the public key of the scalar
  \<open>k\<close>.  Sums and products that are zero are no keys, every scalar has an inverse, and the shared secret of two key pairs is symmetric.
\<close>

definition scalar :: "nat \<Rightarrow> h256 \<Rightarrow> bool" where
  "scalar n x \<longleftrightarrow> 0 < unat x \<and> unat x < n"

definition scalar_laws :: "secp_math \<Rightarrow> nat \<Rightarrow> bool" where
  "scalar_laws S n \<longleftrightarrow> unat (CURVE_ORDER S) = n \<and> 1 < n \<and>
     (\<forall>d. secret_key_from_slice (sm_ops S) d = (if length d = 32 \<and> scalar n (from_be d) then Inr d else Inl SecpInvalidSecretKey)) \<and>
     MINUS_ONE_KEY S = to_be 32 (of_nat (n - 1) :: h256) \<and> ONE_KEY S = to_be 32 (1 :: h256) \<and>
     (\<forall>a b. scalar n a \<longrightarrow> scalar n b \<longrightarrow>
        sk_add_assign S (to_be 32 a) (to_be 32 b) = (if (unat a + unat b) mod n = 0 then Inl SecpInvalidSecretKey
          else Inr (to_be 32 (of_nat ((unat a + unat b) mod n) :: h256))) \<and>
        sk_mul_assign S (to_be 32 a) (to_be 32 b) = (if (unat a * unat b) mod n = 0 then Inl SecpInvalidSecretKey
          else Inr (to_be 32 (of_nat ((unat a * unat b) mod n) :: h256)))) \<and>
     (\<forall>a. scalar n a \<longrightarrow> (\<exists>c. scalar n c \<and> sk_inv_assign S (to_be 32 a) = Inr (to_be 32 c) \<and> (unat a * unat c) mod n = 1))"

definition point_laws :: "secp_math \<Rightarrow> nat \<Rightarrow> (nat \<Rightarrow> bytes) \<Rightarrow> bool" where
  "point_laws S n P \<longleftrightarrow>
     (\<forall>a. scalar n a \<longrightarrow> public_key_from_secret_key (sm_ops S) (to_be 32 a) = Inr (P (unat a)) \<and>
        length (serialize_uncompressed (sm_ops S) (P (unat a))) = 65 \<and> hd (serialize_uncompressed (sm_ops S) (P (unat a))) = 4 \<and>
        public_key_from_slice (sm_ops S) (serialize_uncompressed (sm_ops S) (P (unat a))) = Inr (P (unat a)) \<and>
        length (serialize_compressed S (P (unat a))) = 33) \<and>
     (\<forall>a b. scalar n a \<longrightarrow> scalar n b \<longrightarrow>
        pk_add_assign S (P (unat a)) (P (unat b)) = (if (unat a + unat b) mod n = 0 then Inl SecpInvalidPublicKey
          else Inr (P ((unat a + unat b) mod n))) \<and>
        pk_mul_assign S (P (unat a)) (to_be 32 b) = (if (unat a * unat b) mod n = 0 then Inl SecpInvalidPublicKey
          else Inr (P ((unat a * unat b) mod n))) \<and>
        length (shared_secret_new_raw S (P (unat a)) (to_be 32 b)) = 32 \<and>
        shared_secret_new_raw S (P (unat a)) (to_be 32 b) = shared_secret_new_raw S (P (unat b)) (to_be 32 a))"

lemma from_be_to_be_32 [simp]: "from_be (to_be 32 x) = (x :: h256)"
  by (simp add: from_be_to_be take_bit_word_eq_self)

lemma secret_of_key_be [simp]: "secret_of_key (to_be 32 x) = x"
  by (simp add: secret_of_key_def)

section \<open>Arithmetic on secrets\<close>

lemma order_facts:
  assumes "scalar_laws S n"
  shows "unat (CURVE_ORDER S) = n" "1 < n" "n < 2 ^ 256"
proof -
  show "unat (CURVE_ORDER S) = n" "1 < n" using assms by (auto simp: scalar_laws_def)
  moreover have "unat (CURVE_ORDER S) < 2 ^ LENGTH(256)" by (rule unsigned_less)
  ultimately show "n < 2 ^ 256" by simp
qed

lemma scalar_reduced:
  assumes "scalar_laws S n"
  shows "unat (of_nat (x mod n) :: h256) = x mod n" "x mod n \<noteq> 0 \<Longrightarrow> scalar n (of_nat (x mod n))"
proof -
  have "x mod n < n" using order_facts(2) [OF assms] by simp
  then have "x mod n < 2 ^ 256" using order_facts(3) [OF assms] by linarith
  then show r: "unat (of_nat (x mod n) :: h256) = x mod n" by (simp add: unat_of_nat)
  then show "x mod n \<noteq> 0 \<Longrightarrow> scalar n (of_nat (x mod n))" using \<open>x mod n < n\<close> by (simp add: scalar_def)
qed

lemma secret_key_gives:
  assumes "scalar_laws S n" and "scalar n a"
  shows "secret_key_from_slice (sm_ops S) (to_be 32 a) = Inr (to_be 32 a)" "to_secp256k1_secret S a = Ok (to_be 32 a)"
  using assms by (simp_all add: scalar_laws_def to_secp256k1_secret_def from_secp_def)

lemma inverse_gives:
  assumes "scalar_laws S n" and "scalar n a"
  shows "\<exists>c. scalar n c \<and> sk_inv_assign S (to_be 32 a) = Inr (to_be 32 c) \<and> (unat a * unat c) mod n = 1"
  using assms by (simp add: scalar_laws_def)

lemma product_nonzero:
  assumes S: "scalar_laws S n" and a: "scalar n a" and b: "scalar n b"
  shows "(unat a * unat b) mod n \<noteq> 0"
proof
  assume z: "(unat a * unat b) mod n = 0"
  obtain c :: h256 where c: "(unat a * unat c) mod n = 1" using inverse_gives [OF S a] by blast
  have "(unat a * unat c * unat b) mod n = unat b mod n" using c by (metis mod_mult_left_eq mult_1)
  moreover have "(unat a * unat c * unat b) mod n = (unat c * (unat a * unat b mod n)) mod n" by (simp add: mod_mult_right_eq ac_simps)
  ultimately show False using z b by (simp add: scalar_def)
qed

lemma minus_one:
  assumes S: "scalar_laws S n"
  shows "MINUS_ONE_KEY S = to_be 32 (of_nat (n - Suc 0) :: h256)" "scalar n (of_nat (n - Suc 0))"
    "unat (of_nat (n - Suc 0) :: h256) = n - Suc 0"
  using S scalar_reduced [OF S, of "n - 1"] order_facts(2) [OF S] by (simp_all add: scalar_laws_def)

lemma times_minus_one: "0 < a \<Longrightarrow> a < n \<Longrightarrow> (a * (n - 1)) mod n = n - (a :: nat)"
proof -
  assume "0 < a" "a < n"
  then have "a * (n - 1) = (a - 1) * n + (n - a)" by (cases a; cases n) (auto simp: algebra_simps)
  then show "(a * (n - 1)) mod n = n - a" using \<open>0 < a\<close> \<open>a < n\<close> by (simp only: mod_mult_self3) simp
qed

lemma assign_key_simps [simp]:
  "assign_key (Ok k) a = (Ok (), secret_of_key k)" "assign_key (Err e) a = (Err e, a)" "assign_key Panic a = (Panic, a)"
  by (simp_all add: assign_key_def eff_simps)

lemma key_steps:
  assumes "scalar_laws S n" and "scalar n a" and "scalar n b"
  shows "from_secp (sk_add_assign S (to_be 32 a) (to_be 32 b)) =
      (if (unat a + unat b) mod n = 0 then Err InvalidSecret else Ok (to_be 32 (of_nat ((unat a + unat b) mod n) :: h256)))"
    "from_secp (sk_mul_assign S (to_be 32 a) (to_be 32 b)) = Ok (to_be 32 (of_nat ((unat a * unat b) mod n) :: h256))"
  using assms product_nonzero [OF assms] by (simp_all add: from_secp_def scalar_laws_def)

lemma scalar_not_zero: "scalar n a \<Longrightarrow> a \<noteq> 0"
  by (auto simp: scalar_def)

lemma secret_mul_scalar:
  assumes S: "scalar_laws S n" and a: "scalar n a" and b: "scalar n b"
  shows "secret_mul S b a = (Ok (), of_nat ((unat a * unat b) mod n))"
  using scalar_not_zero [OF a] scalar_not_zero [OF b]
  by (simp add: secret_mul_def secret_key_gives(2) [OF S a] secret_key_gives(2) [OF S b] key_steps [OF S a b])

lemma secret_neg_scalar:
  assumes S: "scalar_laws S n" and a: "scalar n a"
  shows "secret_neg S a = (Ok (), of_nat (n - unat a))"
proof -
  have "(unat a * (n - 1)) mod n = n - unat a" using a by (intro times_minus_one) (auto simp: scalar_def)
  then show ?thesis
    using scalar_not_zero [OF a] by (simp add: secret_neg_def secret_key_gives(2) [OF S a] minus_one(1,3) [OF S] key_steps [OF S a minus_one(2) [OF S]])
qed

lemma secret_add_scalar:
  assumes S: "scalar_laws S n" and a: "scalar n a" and b: "scalar n b"
  shows "secret_add S b a = (if (unat a + unat b) mod n = 0 then (Err InvalidSecret, a) else (Ok (), of_nat ((unat a + unat b) mod n)))"
  using scalar_not_zero [OF a] scalar_not_zero [OF b]
  by (simp add: secret_add_def secret_key_gives(2) [OF S a] secret_key_gives(2) [OF S b] key_steps [OF S a b])

lemma secret_sub_scalar:
  assumes S: "scalar_laws S n" and a: "scalar n a" and b: "scalar n b"
  shows "secret_sub S b a = (if a = b then (Err InvalidSecret, a) else (Ok (), of_nat ((unat a + n - unat b) mod n)))"
proof -
  have m: "(unat b * (n - Suc 0)) mod n = n - unat b" using b times_minus_one [of "unat b" n] by (simp add: scalar_def)
  have r: "n - unat b = (n - unat b) mod n" "0 < n - unat b" using b by (auto simp: scalar_def)
  then have neg: "scalar n (of_nat (n - unat b))" "unat (of_nat (n - unat b) :: h256) = n - unat b"
    using scalar_reduced [OF S, of "n - unat b"] by simp_all
  have z: "(unat a + (n - unat b)) mod n = 0 \<longleftrightarrow> a = b"
  proof -
    have "(unat a + (n - unat b)) mod n = (if unat b \<le> unat a then unat a - unat b else unat a + (n - unat b))"
    proof (cases "unat b \<le> unat a")
      case True
      then have "unat a + (n - unat b) = (unat a - unat b) + n" using b by (simp add: scalar_def)
      then show ?thesis using True a by (simp only: mod_add_self2) (simp add: scalar_def less_imp_diff_less)
    qed (use a b in \<open>auto simp: scalar_def\<close>)
    then show ?thesis using b by (auto simp: scalar_def word_unat_eq_iff split: if_splits)
  qed
  have diff: "unat a + n - unat b = unat a + (n - unat b)" using b by (simp add: scalar_def)
  have "from_secp (sk_mul_assign S (to_be 32 b) (MINUS_ONE_KEY S)) = Ok (to_be 32 (of_nat (n - unat b) :: h256))"
    unfolding minus_one(1) [OF S] key_steps(2) [OF S b minus_one(2) [OF S]] minus_one(3) [OF S] m ..
  moreover have "from_secp (sk_add_assign S (to_be 32 a) (to_be 32 (of_nat (n - unat b) :: h256))) =
      (if a = b then Err InvalidSecret else Ok (to_be 32 (of_nat ((unat a + n - unat b) mod n) :: h256)))"
    unfolding key_steps(1) [OF S a neg(1)] neg(2) z diff ..
  ultimately have "secret_sub S b a =
      assign_key (if a = b then Err InvalidSecret else Ok (to_be 32 (of_nat ((unat a + n - unat b) mod n) :: h256))) a"
    unfolding secret_sub_def secret_key_gives(2) [OF S a] secret_key_gives(2) [OF S b] rbind.simps
    using scalar_not_zero [OF a] scalar_not_zero [OF b] by (simp only: rbind.simps if_False)
  then show ?thesis by simp
qed

lemma mul_times_scalar:
  assumes S: "scalar_laws S n" and c: "scalar n c"
  shows "scalar n a \<Longrightarrow> mul_times S c k a = (Ok (), of_nat ((unat a * unat c ^ k) mod n))"
proof (induction k arbitrary: a)
  case 0
  then show ?case by (simp add: eret_def scalar_def)
next
  case (Suc k)
  note r = scalar_reduced [OF S, of "unat a * unat c"]
  have "scalar n (of_nat ((unat a * unat c) mod n))" using r(2) product_nonzero [OF S Suc.prems c] by blast
  from Suc.IH [OF this] show ?case
    by (simp add: eff_simps secret_mul_scalar [OF S Suc.prems c] r(1) mod_mult_left_eq mult.assoc)
qed

lemma below_order: "unat a < n \<Longrightarrow> a \<noteq> 0 \<Longrightarrow> scalar n a"
  by (simp add: scalar_def unat_gt_0)

lemma secret_pow_scalar:
  assumes S: "scalar_laws S n" and a: "scalar n a"
  shows "secret_pow S k a = (Ok (), of_nat (unat a ^ unat k mod n))"
proof (cases "k = 0 \<or> k = 1")
  case True
  moreover have "secret_of_key (ONE_KEY S) = 1" "1 < n" using S by (auto simp: scalar_laws_def)
  ultimately show ?thesis using a by (auto simp: secret_pow_def scalar_def)
next
  case False
  then obtain j where "unat k = Suc j" by (cases "unat k") (auto simp: unat_eq_zero)
  then show ?thesis using False scalar_not_zero [OF a] mul_times_scalar [OF S a a, of j] by (simp add: secret_pow_def)
qed

text \<open>On secrets below the order of the curve, addition, subtraction, multiplication and powers are those modulo the order, with two
  exceptions: a sum or difference of nonzero secrets that is zero is refused and leaves the secret alone, and zero to the power of zero
  is zero.\<close>

theorem secret_arithmetic:
  assumes S: "scalar_laws S n" and a: "unat a < n" and b: "unat b < n"
  shows "secret_add S b a = (if a \<noteq> 0 \<and> b \<noteq> 0 \<and> (unat a + unat b) mod n = 0 then (Err InvalidSecret, a)
      else (Ok (), of_nat ((unat a + unat b) mod n))) \<and>
    secret_sub S b a = (if a \<noteq> 0 \<and> a = b then (Err InvalidSecret, a) else (Ok (), of_nat ((unat a + n - unat b) mod n))) \<and>
    secret_mul S b a = (Ok (), of_nat ((unat a * unat b) mod n)) \<and>
    secret_pow S k a = (Ok (), of_nat (if a = 0 then 0 else unat a ^ unat k mod n))"
proof (intro conjI)
  note sa = below_order [OF a] and sb = below_order [OF b]
  show "secret_add S b a = (if a \<noteq> 0 \<and> b \<noteq> 0 \<and> (unat a + unat b) mod n = 0 then (Err InvalidSecret, a)
      else (Ok (), of_nat ((unat a + unat b) mod n)))"
  proof (cases "a = 0 \<or> b = 0")
    case True
    then show ?thesis using a b by (auto simp: secret_add_def)
  qed (simp add: secret_add_scalar [OF S sa sb])
  show "secret_sub S b a = (if a \<noteq> 0 \<and> a = b then (Err InvalidSecret, a) else (Ok (), of_nat ((unat a + n - unat b) mod n)))"
  proof (cases "a = 0 \<or> b = 0")
    case True
    then show ?thesis using a b secret_neg_scalar [OF S sb] by (auto simp: secret_sub_def unat_gt_0)
  qed (simp add: secret_sub_scalar [OF S sa sb])
  show "secret_mul S b a = (Ok (), of_nat ((unat a * unat b) mod n))"
  proof (cases "a = 0 \<or> b = 0")
    case True
    then show ?thesis by (auto simp: secret_mul_def)
  qed (simp add: secret_mul_scalar [OF S sa sb])
  show "secret_pow S k a = (Ok (), of_nat (if a = 0 then 0 else unat a ^ unat k mod n))"
  proof (cases "a = 0")
    case True
    then show ?thesis by (simp add: secret_pow_def)
  qed (simp add: secret_pow_scalar [OF S sa])
qed

section \<open>A small curve\<close>

text \<open>The multiples of a point of order seven: the public key of a scalar is the scalar.\<close>

definition ref_value :: "bytes \<Rightarrow> nat" where
  "ref_value d = unat (from_be d :: h256)"

definition ref_scalar :: "secp_error \<Rightarrow> nat \<Rightarrow> secp_error + bytes" where
  "ref_scalar e x = (if x mod 7 = 0 then Inl e else Inr (to_be 32 (of_nat (x mod 7) :: h256)))"

definition ref_math :: secp_math where
  "ref_math = \<lparr>sm_ops = \<lparr>
       secret_key_from_slice = (\<lambda>d. if length d = 32 \<and> scalar 7 (from_be d) then Inr d else Inl SecpInvalidSecretKey),
       public_key_from_slice = (\<lambda>d. if length d = 65 \<and> hd d = 4 then Inr (take 32 (drop 1 d)) else Inl SecpInvalidPublicKey),
       public_key_from_secret_key = Inr, serialize_uncompressed = (\<lambda>k. 4 # k @ k),
       recovery_id_from_i32 = Inr, recoverable_from_compact = (\<lambda>c v. Inr c), serialize_compact = (\<lambda>k. (0, k)), to_standard = (\<lambda>k. k),
       sign_recoverable = (\<lambda>m. Inr), secp_recover = (\<lambda>m. Inr), secp_verify = (\<lambda>m k p. Inr ())\<rparr>,
     sk_add_assign = (\<lambda>a b. ref_scalar SecpInvalidSecretKey (ref_value a + ref_value b)),
     sk_mul_assign = (\<lambda>a b. ref_scalar SecpInvalidSecretKey (ref_value a * ref_value b)),
     sk_inv_assign = (\<lambda>a. ref_scalar SecpInvalidSecretKey (ref_value a ^ 5)),
     MINUS_ONE_KEY = to_be 32 (6 :: h256), ONE_KEY = to_be 32 (1 :: h256),
     pk_add_assign = (\<lambda>a b. ref_scalar SecpInvalidPublicKey (ref_value a + ref_value b)),
     pk_mul_assign = (\<lambda>a b. ref_scalar SecpInvalidPublicKey (ref_value a * ref_value b)),
     pk_is_valid = (\<lambda>_. True), serialize_compressed = (\<lambda>k. 2 # k),
     shared_secret_new_raw = (\<lambda>p k. to_be 32 (of_nat (ref_value p * ref_value k mod 7) :: h256)),
     CURVE_ORDER = 7, GENERATOR_X = to_be 32 (1 :: h256), GENERATOR_Y = to_be 32 (1 :: h256)\<rparr>"

lemma ref_value_be [simp]: "ref_value (to_be 32 x) = unat (x :: h256)"
  by (simp add: ref_value_def)

lemma unat_mod_seven: "unat (of_nat (x mod 7) :: h256) = x mod 7"
proof -
  have "x mod 7 < 7" by simp
  then have "x mod 7 < 2 ^ 256" by (rule less_trans) simp
  then show ?thesis by (simp add: unat_of_nat)
qed

lemma seventh_power: "scalar 7 a \<Longrightarrow> (unat a * (unat a ^ 5 mod 7)) mod 7 = 1 \<and> unat a ^ 5 mod 7 \<noteq> 0"
proof -
  assume "scalar 7 a"
  then have "unat a \<in> {1, 2, 3, 4, 5, 6}" unfolding scalar_def by auto
  then show ?thesis by auto
qed

lemma ref_scalar_laws: "scalar_laws ref_math 7"
proof -
  have "\<exists>c. scalar 7 c \<and> sk_inv_assign ref_math (to_be 32 a) = Inr (to_be 32 c) \<and> (unat a * unat c) mod 7 = 1" if "scalar 7 a" for a
    using seventh_power [OF that]
    by (intro exI [of _ "of_nat (unat a ^ 5 mod 7)"]) (auto simp: ref_math_def ref_scalar_def scalar_def unat_mod_seven)
  then show ?thesis unfolding scalar_laws_def by (auto simp: ref_math_def ref_scalar_def)
qed

lemma ref_point_laws: "point_laws ref_math 7 (\<lambda>k. to_be 32 (of_nat k :: h256))"
  unfolding point_laws_def by (auto simp: ref_math_def ref_scalar_def ac_simps)

theorem secret_arithmetic_witness:
  "secret_add ref_math 5 4 = (Ok (), 2) \<and> secret_add ref_math 3 4 = (Err InvalidSecret, 4) \<and>
   secret_sub ref_math 5 4 = (Ok (), 6) \<and> secret_mul ref_math 5 4 = (Ok (), 6) \<and> secret_pow ref_math 3 4 = (Ok (), 1)"
  using secret_arithmetic [OF ref_scalar_laws, of 4 5 3] secret_arithmetic [OF ref_scalar_laws, of 4 3 3] by simp

end
