(* ===== verification/Key_Derivation.thy ===== *)
theory Key_Derivation
  imports Key_Laws
begin

text \<open>
  Deterministic derivation of keys (utils/cfxkey/src/extended.rs).  HMAC-SHA512 is the parameter \<open>hmac\<close>, Keccak \<open>K\<close>;
  a label is a value with the bytes it stores.
\<close>

section \<open>Labels\<close>

definition store_u32 :: "u32 \<Rightarrow> bytes" where
  "store_u32 label = to_be 4 label"

definition store_h256 :: "h256 \<Rightarrow> bytes" where
  "store_h256 label = to_be 32 label"

datatype 't derivation = Soft 't | Hard 't

definition derivation_from_u32 :: "u32 \<Rightarrow> u32 derivation" where
  "derivation_from_u32 index = (if index < push_bit 30 2 then Soft index else Hard index)"

datatype derivation_error = InvalidHardenedUse | InvalidPoint | MissingIndex | InvalidSeed

record extended_secret =
  es_secret :: h256
  es_chain_code :: h256

record extended_public =
  ep_public :: bytes
  ep_chain_code :: h256

record extended_key_pair =
  ek_secret :: extended_secret
  ek_public :: extended_public

section \<open>Derivation of the two kinds of keys\<close>

definition modulo_u512 :: "512 word \<Rightarrow> u256 \<Rightarrow> ('e, u256) res" where
  "modulo_u512 u1 u2 = (if u2 = 0 then Panic else
     (let m = u1 mod ucast u2 in if 2 ^ 256 \<le> unat m then Panic else Ok (ucast m)))"

definition private_add :: "secp_math \<Rightarrow> u256 \<Rightarrow> u256 \<Rightarrow> ('e, u256) res" where
  "private_add S k1 k2 = rbind (u_add (ucast k1) (ucast k2)) (\<lambda>sum. modulo_u512 sum (CURVE_ORDER S))"

definition hmac_pair :: "secp_math \<Rightarrow> (bytes \<Rightarrow> bytes \<Rightarrow> bytes) \<Rightarrow> bytes \<Rightarrow> h256 \<Rightarrow> h256 \<Rightarrow> ('e, h256 \<times> h256) res" where
  "hmac_pair S hmac d private_key chain_code =
     (let i_512 = hmac (to_be 32 chain_code) d;
          hmac_key = from_be (take 32 i_512); next_chain_code = from_be (take 32 (drop 32 i_512)) in
      rbind (private_add S hmac_key private_key) (\<lambda>child_key. Ok (child_key, next_chain_code)))"

text \<open>The copy into the buffer panics when the point is not 33 bytes long.\<close>

definition private_soft :: "secp_math \<Rightarrow> (bytes \<Rightarrow> bytes \<Rightarrow> bytes) \<Rightarrow> h256 \<Rightarrow> h256 \<Rightarrow> bytes \<Rightarrow> ('e, h256 \<times> h256) res" where
  "private_soft S hmac private_key chain_code label =
     (case secret_key_from_slice (sm_ops S) (to_be 32 private_key) of
        Inl _ \<Rightarrow> Panic
      | Inr sec_private \<Rightarrow> (case public_key_from_secret_key (sm_ops S) sec_private of
          Inl _ \<Rightarrow> Panic
        | Inr sec_public \<Rightarrow> (let public_serialized = serialize_compressed S sec_public in
            if length public_serialized \<noteq> 33 then Panic
            else hmac_pair S hmac (public_serialized @ label) private_key chain_code)))"

definition private_hard :: "secp_math \<Rightarrow> (bytes \<Rightarrow> bytes \<Rightarrow> bytes) \<Rightarrow> h256 \<Rightarrow> h256 \<Rightarrow> bytes \<Rightarrow> ('e, h256 \<times> h256) res" where
  "private_hard S hmac private_key chain_code label =
     hmac_pair S hmac (0 # to_be 32 private_key @ label) private_key chain_code"

definition derive_private ::
  "secp_math \<Rightarrow> (bytes \<Rightarrow> bytes \<Rightarrow> bytes) \<Rightarrow> ('t \<Rightarrow> bytes) \<Rightarrow> h256 \<Rightarrow> h256 \<Rightarrow> 't derivation \<Rightarrow> ('e, h256 \<times> h256) res" where
  "derive_private S hmac store private_key chain_code index = (case index of
     Soft i \<Rightarrow> private_soft S hmac private_key chain_code (store i)
   | Hard i \<Rightarrow> private_hard S hmac private_key chain_code (store i))"

definition derive_public ::
  "secp_math \<Rightarrow> (bytes \<Rightarrow> bytes \<Rightarrow> bytes) \<Rightarrow> ('t \<Rightarrow> bytes) \<Rightarrow> bytes \<Rightarrow> h256 \<Rightarrow> 't derivation \<Rightarrow> (derivation_error, bytes \<times> h256) res" where
  "derive_public S hmac store public_key chain_code index = (case index of
     Hard _ \<Rightarrow> Err InvalidHardenedUse
   | Soft i \<Rightarrow> (case public_key_from_slice (sm_ops S) (4 # public_key) of
       Inl _ \<Rightarrow> Err InvalidPoint
     | Inr public_sec \<Rightarrow> (let public_serialized = serialize_compressed S public_sec in
         if length public_serialized \<noteq> 33 then Panic
         else (let i_512 = hmac (to_be 32 chain_code) (public_serialized @ store i);
                   new_private = (from_be (take 32 i_512) :: h256); new_chain_code = from_be (take 32 (drop 32 i_512)) in
               if CURVE_ORDER S \<le> new_private then Err MissingIndex
               else (case secret_key_from_slice (sm_ops S) (to_be 32 new_private) of
                   Inl _ \<Rightarrow> Panic
                 | Inr new_private_sec \<Rightarrow> (case public_key_from_secret_key (sm_ops S) new_private_sec of
                     Inl _ \<Rightarrow> Panic
                   | Inr new_public \<Rightarrow> (case pk_add_assign S new_public public_sec of
                       Inl _ \<Rightarrow> Panic
                     | Inr q \<Rightarrow> Ok (public_of_key S q, new_chain_code))))))))"

text \<open>A hundred thousand rounds of Keccak.\<close>

definition derive_chain_code :: "(bytes \<Rightarrow> h256) \<Rightarrow> h256 \<Rightarrow> h256" where
  "derive_chain_code K secret = ((\<lambda>running. K (to_be 32 running)) ^^ 99999) (K (to_be 32 secret))"

definition derive_point :: "secp_math \<Rightarrow> h256 \<Rightarrow> (derivation_error, bytes) res" where
  "derive_point S secret = (case secret_key_from_slice (sm_ops S) (to_be 32 secret) of
     Inl _ \<Rightarrow> Err InvalidPoint
   | Inr sec \<Rightarrow> (case public_key_from_secret_key (sm_ops S) sec of
       Inl _ \<Rightarrow> Err InvalidPoint
     | Inr public_sec \<Rightarrow> Ok (public_of_key S public_sec)))"

definition seed_pair :: "(bytes \<Rightarrow> bytes \<Rightarrow> bytes) \<Rightarrow> bytes \<Rightarrow> h256 \<times> h256" where
  "seed_pair hmac seed = (let i_512 = hmac (map (\<lambda>c. of_nat (of_char c)) ''Bitcoin seed'') seed in
     (from_be (take 32 i_512), from_be (take 32 (drop 32 i_512))))"

section \<open>Extended keys\<close>

definition extended_secret_new :: "(bytes \<Rightarrow> h256) \<Rightarrow> h256 \<Rightarrow> extended_secret" where
  "extended_secret_new K secret = \<lparr>es_secret = secret, es_chain_code = derive_chain_code K secret\<rparr>"

definition extended_secret_derive ::
  "secp_math \<Rightarrow> (bytes \<Rightarrow> bytes \<Rightarrow> bytes) \<Rightarrow> ('t \<Rightarrow> bytes) \<Rightarrow> 't derivation \<Rightarrow> extended_secret \<Rightarrow> ('e, extended_secret) res" where
  "extended_secret_derive S hmac store index x =
     rbind (derive_private S hmac store (es_secret x) (es_chain_code x) index) (\<lambda>(derived_key, next_chain_code).
     Ok \<lparr>es_secret = derived_key, es_chain_code = next_chain_code\<rparr>)"

definition extended_public_from_secret :: "secp_math \<Rightarrow> extended_secret \<Rightarrow> (derivation_error, extended_public) res" where
  "extended_public_from_secret S x = rbind (derive_point S (es_secret x)) (\<lambda>p. Ok \<lparr>ep_public = p, ep_chain_code = es_chain_code x\<rparr>)"

definition extended_public_derive ::
  "secp_math \<Rightarrow> (bytes \<Rightarrow> bytes \<Rightarrow> bytes) \<Rightarrow> ('t \<Rightarrow> bytes) \<Rightarrow> 't derivation \<Rightarrow> extended_public \<Rightarrow> (derivation_error, extended_public) res" where
  "extended_public_derive S hmac store index x =
     rbind (derive_public S hmac store (ep_public x) (ep_chain_code x) index) (\<lambda>(derived_key, next_chain_code).
     Ok \<lparr>ep_public = derived_key, ep_chain_code = next_chain_code\<rparr>)"

definition extended_pair_with_code :: "h256 \<Rightarrow> bytes \<Rightarrow> h256 \<Rightarrow> extended_key_pair" where
  "extended_pair_with_code secret public chain_code =
     \<lparr>ek_secret = \<lparr>es_secret = secret, es_chain_code = chain_code\<rparr>, ek_public = \<lparr>ep_public = public, ep_chain_code = chain_code\<rparr>\<rparr>"

definition extended_pair_of :: "secp_math \<Rightarrow> extended_secret \<Rightarrow> ('e, extended_key_pair) res" where
  "extended_pair_of S x = (case extended_public_from_secret S x of Ok p \<Rightarrow> Ok \<lparr>ek_secret = x, ek_public = p\<rparr> | _ \<Rightarrow> Panic)"

definition extended_pair_new :: "secp_math \<Rightarrow> (bytes \<Rightarrow> h256) \<Rightarrow> h256 \<Rightarrow> ('e, extended_key_pair) res" where
  "extended_pair_new S K secret = extended_pair_of S (extended_secret_new K secret)"

definition extended_pair_with_secret :: "secp_math \<Rightarrow> h256 \<Rightarrow> h256 \<Rightarrow> ('e, extended_key_pair) res" where
  "extended_pair_with_secret S secret chain_code = extended_pair_of S \<lparr>es_secret = secret, es_chain_code = chain_code\<rparr>"

definition extended_pair_with_seed :: "secp_math \<Rightarrow> (bytes \<Rightarrow> bytes \<Rightarrow> bytes) \<Rightarrow> bytes \<Rightarrow> (derivation_error, extended_key_pair) res" where
  "extended_pair_with_seed S hmac seed = (case seed_pair hmac seed of (master_key, chain_code) \<Rightarrow>
     (case from_unsafe_slice S (to_be 32 master_key) of
        Ok secret \<Rightarrow> extended_pair_with_secret S secret chain_code
      | Err _ \<Rightarrow> Err InvalidSeed
      | Panic \<Rightarrow> Panic))"

definition extended_pair_derive ::
  "secp_math \<Rightarrow> (bytes \<Rightarrow> bytes \<Rightarrow> bytes) \<Rightarrow> ('t \<Rightarrow> bytes) \<Rightarrow> 't derivation \<Rightarrow> extended_key_pair \<Rightarrow> (derivation_error, extended_key_pair) res" where
  "extended_pair_derive S hmac store index x =
     rbind (extended_secret_derive S hmac store index (ek_secret x)) (\<lambda>derived.
     rbind (extended_public_from_secret S derived) (\<lambda>p. Ok \<lparr>ek_secret = derived, ek_public = p\<rparr>))"

section \<open>Derivation commutes with taking public keys\<close>

lemma private_add_gives:
  assumes S: "scalar_laws S n"
  shows "private_add S x y = Ok (of_nat ((unat x + unat y) mod n))"
proof -
  note n = order_facts [OF S]
  let ?s = "ucast x + ucast y :: 512 word"
  have x: "unat x < 2 ^ 256" "unat y < 2 ^ 256" using unsigned_less [of x] unsigned_less [of y] by simp_all
  have u: "unat (ucast x :: 512 word) = unat x" "unat (ucast y :: 512 word) = unat y" "unat (ucast (CURVE_ORDER S) :: 512 word) = n"
    using less_trans [OF x(1), of "2 ^ 512"] less_trans [OF x(2), of "2 ^ 512"] less_trans [OF n(3), of "2 ^ 512"]
    by (simp_all add: unsigned_ucast_eq take_bit_nat_eq_self n(1))
  have sum: "unat ?s = unat x + unat y" using x u by (intro trans [OF unat_add_no_overflow]) simp_all
  have m: "unat (?s mod ucast (CURVE_ORDER S)) = (unat x + unat y) mod n" by (simp add: unat_mod sum u)
  have "(unat x + unat y) mod n < 2 ^ 256" using n(2,3) by (meson less_trans mod_less_divisor zero_less_one)
  moreover have "ucast (?s mod ucast (CURVE_ORDER S)) = (of_nat ((unat x + unat y) mod n) :: u256)" by (metis m of_nat_unat)
  moreover have "unat x + unat y < 2 ^ 512" "CURVE_ORDER S \<noteq> 0" using x n(1,2) by auto
  ultimately show ?thesis
    unfolding private_add_def u_add_def modulo_u512_def Let_def by (simp add: u m not_le)
qed

lemma public_key_reads:
  assumes "point_laws S n P" and "scalar n a"
  shows "public_key_from_slice (sm_ops S) (4 # public_of_key S (P (unat a))) = Inr (P (unat a))"
proof -
  let ?s = "serialize_uncompressed (sm_ops S) (P (unat a))"
  have "length ?s = 65" "hd ?s = 4" "public_key_from_slice (sm_ops S) ?s = Inr (P (unat a))" using assms by (auto simp: point_laws_def)
  moreover from this(1,2) have "4 # take 64 (drop 1 ?s) = ?s" by (cases ?s) auto
  ultimately show ?thesis by (simp add: public_of_key_def)
qed

lemma derive_point_gives:
  assumes "scalar_laws S n" "point_laws S n P" "scalar n a"
  shows "derive_point S a = Ok (public_of_key S (P (unat a)))"
  using assms by (simp add: derive_point_def secret_key_gives(1) [OF assms(1,3)] point_laws_def)

lemma derive_point_zero:
  assumes "scalar_laws S n"
  shows "derive_point S 0 = Err InvalidPoint" "secret_key_from_slice (sm_ops S) (to_be 32 (0 :: h256)) = Inl SecpInvalidSecretKey"
  using assms by (simp_all add: derive_point_def scalar_laws_def scalar_def)

text \<open>C28.  Soft derivation commutes with taking the public key: the key derived from the public key is the public key of the derived secret,
  with the same chain code.  The secret is always derived, its scalar the sum with the HMAC modulo the order, while the derivation of the public
  key reports an HMAC that is not below the order and panics where the HMAC or the derived secret is zero.\<close>

theorem derivation_commutes:
  assumes S: "scalar_laws S n" and P: "point_laws S n P" and x: "scalar n (es_secret x)"
    and key: "key = (from_be (take 32 (hmac (to_be 32 (es_chain_code x)) (serialize_compressed S (P (unat (es_secret x))) @ store i))) :: h256)"
  shows "\<exists>child pub. (extended_secret_derive S hmac store (Soft i) x :: (derivation_error, extended_secret) res) = Ok child \<and>
    extended_public_from_secret S x = Ok pub \<and> unat (es_secret child) = (unat key + unat (es_secret x)) mod n \<and>
    extended_public_derive S hmac store (Soft i) pub =
      (if n \<le> unat key then Err MissingIndex
       else if key = 0 \<or> es_secret child = 0 then Panic
       else extended_public_from_secret S child)"
proof -
  let ?p = "P (unat (es_secret x))"
  let ?h = "hmac (to_be 32 (es_chain_code x)) (serialize_compressed S ?p @ store i)"
  let ?child = "\<lparr>es_secret = of_nat ((unat key + unat (es_secret x)) mod n), es_chain_code = from_be (take 32 (drop 32 ?h))\<rparr>"
  let ?pub = "\<lparr>ep_public = public_of_key S ?p, ep_chain_code = es_chain_code x\<rparr>"
  have p: "public_key_from_secret_key (sm_ops S) (to_be 32 a) = Inr (P (unat a))" "length (serialize_compressed S (P (unat a))) = 33"
    if "scalar n a" for a using P that by (auto simp: point_laws_def)
  have child: "(extended_secret_derive S hmac store (Soft i) x :: (derivation_error, extended_secret) res) = Ok ?child"
    by (simp add: extended_secret_derive_def derive_private_def private_soft_def secret_key_gives(1) [OF S x] p [OF x] Let_def hmac_pair_def
        private_add_gives [OF S] key)
  have pub: "extended_public_from_secret S x = Ok ?pub"
    by (simp add: extended_public_from_secret_def derive_point_gives [OF S P x])
  have order: "CURVE_ORDER S \<le> key \<longleftrightarrow> n \<le> unat key" using order_facts(1) [OF S] by (simp add: word_le_nat_alt)
  note derive = extended_public_derive_def derive_public_def public_key_reads [OF P x] p [OF x] Let_def key [symmetric] order
  have derived: "extended_public_derive S hmac store (Soft i) ?pub =
      (if n \<le> unat key then Err MissingIndex else if key = 0 \<or> es_secret ?child = 0 then Panic else extended_public_from_secret S ?child)"
  proof (cases "n \<le> unat key \<or> key = 0")
    case True
    then show ?thesis using order_facts(2) [OF S] derive_point_zero(2) [OF S] by (auto simp: derive)
  next
    case False
    then have k: "scalar n key" by (simp add: scalar_def unat_gt_0)
    let ?sum = "(unat key + unat (es_secret x)) mod n"
    note r = scalar_reduced [OF S, of "unat key + unat (es_secret x)"]
    have add: "pk_add_assign S (P (unat key)) ?p = (if ?sum = 0 then Inl SecpInvalidPublicKey else Inr (P ?sum))"
      using P k x by (simp add: point_laws_def)
    have "es_secret ?child = 0 \<longleftrightarrow> ?sum = 0" using unat_eq_zero [of "of_nat ?sum :: h256"] unfolding r(1) extended_secret.select_convs ..
    then show ?thesis
      using False derive_point_gives [OF S P r(2)] r(1)
      by (cases "?sum = 0") (simp_all add: derive secret_key_gives(1) [OF S k] p(1) [OF k] add extended_public_from_secret_def)
  qed
  show ?thesis by (rule exI [of _ ?child], rule exI [of _ ?pub], intro conjI child pub derived) (simp add: scalar_reduced(1) [OF S])
qed

definition ref_hmac :: "byte \<Rightarrow> bytes \<Rightarrow> bytes \<Rightarrow> bytes" where
  "ref_hmac b key d = to_be 32 (ucast b :: h256) @ to_be 32 (9 :: h256)"

theorem derivation_commutes_witness:
  "\<exists>child pub. (extended_secret_derive ref_math (ref_hmac 2) store_u32 (Soft 1) \<lparr>es_secret = 3, es_chain_code = 8\<rparr> :: (derivation_error, extended_secret) res) = Ok child \<and>
     extended_public_from_secret ref_math \<lparr>es_secret = 3, es_chain_code = 8\<rparr> = Ok pub \<and> unat (es_secret child) = 5 \<and>
     extended_public_derive ref_math (ref_hmac 2) store_u32 (Soft 1) pub = extended_public_from_secret ref_math child"
proof -
  have "scalar 7 (3 :: h256)" "unat (5 :: h256) \<noteq> 0" by (simp_all add: scalar_def)
  then show ?thesis
    using derivation_commutes [OF ref_scalar_laws ref_point_laws, of "\<lparr>es_secret = 3, es_chain_code = 8\<rparr>" 2 "ref_hmac 2" store_u32 1]
    by (auto simp: ref_hmac_def)
qed

end
