(* ===== verification/Ecies.thy ===== *)
theory Ecies
  imports Key_Derivation
begin

text \<open>
  Shared secrets and encryption to a public key (utils/cfxkey/src/crypto.rs).  SHA-256, HMAC-SHA256 and AES in counter mode are a parameter;
  the random key pair and initialisation vector of a message are arguments.
\<close>

section \<open>The crates\<close>

record cipher_ops =
  ci_sha256 :: "bytes \<Rightarrow> bytes"
  ci_hmac_sha256 :: "bytes \<Rightarrow> bytes \<Rightarrow> bytes"
  encrypt_128_ctr :: "bytes \<Rightarrow> bytes \<Rightarrow> bytes \<Rightarrow> string + bytes"
  decrypt_128_ctr :: "bytes \<Rightarrow> bytes \<Rightarrow> bytes \<Rightarrow> string + bytes"

datatype crypto_error = Secp secp_error | CryptoIo string | InvalidCipherMessage | Symm string

definition crypto_secp :: "secp_error + 'a \<Rightarrow> (crypto_error, 'a) res" where
  "crypto_secp r = (case r of Inl e \<Rightarrow> Err (Secp e) | Inr a \<Rightarrow> Ok a)"

definition crypto_symm :: "string + 'a \<Rightarrow> (crypto_error, 'a) res" where
  "crypto_symm r = (case r of Inl e \<Rightarrow> Err (Symm e) | Inr a \<Rightarrow> Ok a)"

text \<open>Digests and tags have 32 bytes; counter mode keeps the length, and decryption undoes encryption.\<close>

definition cipher_laws :: "cipher_ops \<Rightarrow> bool" where
  "cipher_laws C \<longleftrightarrow> (\<forall>d. length (ci_sha256 C d) = 32) \<and> (\<forall>k d. length (ci_hmac_sha256 C k d) = 32) \<and>
     (\<forall>k iv plain. length k = 16 \<longrightarrow> length iv = 16 \<longrightarrow> (\<exists>cipher. encrypt_128_ctr C k iv plain = Inr cipher \<and>
        length cipher = length plain \<and> decrypt_128_ctr C k iv cipher = Inr plain))"

section \<open>Agreement and encryption\<close>

definition agree :: "secp_math \<Rightarrow> h256 \<Rightarrow> bytes \<Rightarrow> (crypto_error, h256) res" where
  "agree S secret public =
     rbind (crypto_secp (public_key_from_slice (sm_ops S) (4 # take 64 public))) (\<lambda>publ.
     rbind (crypto_secp (secret_key_from_slice (sm_ops S) (to_be 32 secret))) (\<lambda>sec.
     case from_unsafe_slice S (take 32 (shared_secret_new_raw S publ sec)) of
       Ok z \<Rightarrow> Ok z | Err _ \<Rightarrow> Err (Secp SecpInvalidSecretKey) | Panic \<Rightarrow> Panic))"

text \<open>The loop that fills \<open>dest\<close>, 32 bytes at a time.\<close>

function kdf_loop :: "cipher_ops \<Rightarrow> h256 \<Rightarrow> bytes \<Rightarrow> u32 \<Rightarrow> nat \<Rightarrow> bytes \<Rightarrow> ('e, bytes) res" where
  "kdf_loop C secret s1 ctr written dest =
     (if written < length dest then
        (let d = ci_sha256 C (to_be 4 ctr @ to_be 32 secret @ s1) in
         if length dest < written + 32 \<or> length d \<noteq> 32 then Panic
         else rbind (u_add ctr 1) (\<lambda>next_ctr. kdf_loop C secret s1 next_ctr (written + 32) (overwrite dest written d)))
      else Ok dest)"
  by pat_completeness auto

termination
  by (relation "measure (\<lambda>(_, _, _, _, written, dest). length dest - written)") (auto simp: length_overwrite)

declare kdf_loop.simps [simp del]

definition kdf :: "cipher_ops \<Rightarrow> h256 \<Rightarrow> bytes \<Rightarrow> bytes \<Rightarrow> ('e, bytes) res" where
  "kdf C secret s1 dest = kdf_loop C secret s1 1 0 dest"

definition ecies_encrypt :: "secp_math \<Rightarrow> cipher_ops \<Rightarrow> key_pair \<Rightarrow> bytes \<Rightarrow> bytes \<Rightarrow> bytes \<Rightarrow> bytes \<Rightarrow> (crypto_error, bytes) res" where
  "ecies_encrypt S C r iv public auth_data plain =
     rbind (agree S (kp_secret r) public) (\<lambda>z. rbind (kdf C z [] (replicate 32 0)) (\<lambda>key.
     let ekey = take 16 key; mkey = ci_sha256 C (take 16 (drop 16 key)) in
     rbind (crypto_symm (encrypt_128_ctr C ekey iv plain)) (\<lambda>cipher.
     Ok (4 # kp_public r @ iv @ cipher @ ci_hmac_sha256 C mkey (iv @ cipher @ auth_data)))))"

definition ecies_decrypt :: "secp_math \<Rightarrow> cipher_ops \<Rightarrow> h256 \<Rightarrow> bytes \<Rightarrow> bytes \<Rightarrow> (crypto_error, bytes) res" where
  "ecies_decrypt S C secret auth_data encrypted =
     (if length encrypted < 1 + 64 + 16 + 32 \<or> encrypted ! 0 < 2 \<or> 4 < encrypted ! 0 then Err InvalidCipherMessage
      else (let e = drop 1 encrypted in
        rbind (agree S secret (take 64 e)) (\<lambda>z. rbind (kdf C z [] (replicate 32 0)) (\<lambda>key.
        let ekey = take 16 key; mkey = ci_sha256 C (take 16 (drop 16 key)); clen = length encrypted - (1 + 64 + 16 + 32);
            cipher_with_iv = take (16 + clen) (drop 64 e); cipher_iv = take 16 cipher_with_iv; cipher_no_iv = drop 16 cipher_with_iv;
            msg_mac = drop (64 + 16 + clen) e in
        if ci_hmac_sha256 C mkey (cipher_with_iv @ auth_data) \<noteq> msg_mac then Err InvalidCipherMessage
        else crypto_symm (decrypt_128_ctr C ekey cipher_iv cipher_no_iv)))))"

section \<open>The receiver reads the message\<close>

lemma kdf_gives:
  assumes "cipher_laws C"
  shows "kdf C z [] (replicate 32 0) = Ok (ci_sha256 C (to_be 4 (1 :: u32) @ to_be 32 z))"
  using assms by (simp add: kdf_def kdf_loop.simps [of C z "[]"] Let_def u_add_def cipher_laws_def overwrite_def)

lemma agree_gives:
  assumes S: "scalar_laws S n" and P: "point_laws S n P" and a: "scalar n a" and b: "scalar n b"
  shows "agree S b (public_of_key S (P (unat a))) =
    (let z = from_be (shared_secret_new_raw S (P (unat a)) (to_be 32 b)) in if scalar n z then Ok z else Err (Secp SecpInvalidSecretKey))"
proof -
  let ?raw = "shared_secret_new_raw S (P (unat a)) (to_be 32 b)"
  have l: "length ?raw = 32" using P a b by (simp add: point_laws_def)
  then have "from_unsafe_slice S (take 32 ?raw) = (if scalar n (from_be ?raw) then Ok (from_be ?raw) else Err InvalidSecret)"
    using S by (simp add: from_unsafe_slice_def from_secp_def scalar_laws_def secret_of_key_def)
  moreover have "take 64 (public_of_key S (P (unat a))) = public_of_key S (P (unat a))" by (simp add: public_of_key_def)
  ultimately show ?thesis
    by (simp add: agree_def crypto_secp_def public_key_reads [OF P a] secret_key_gives(1) [OF S b] Let_def)
qed

text \<open>C29.  Whatever is encrypted to a public key, its secret key decrypts with the same authenticated data; encryption fails only where
  the shared point gives no valid secret, and it never panics.\<close>

theorem ecies_round_trip:
  assumes S: "scalar_laws S n" and P: "point_laws S n P" and C: "cipher_laws C"
    and a: "scalar n secret" and b: "scalar n ephemeral" and iv: "length iv = 16"
  shows "(let z = from_be (shared_secret_new_raw S (P (unat secret)) (to_be 32 ephemeral)) :: h256;
      message = ecies_encrypt S C \<lparr>kp_secret = ephemeral, kp_public = public_of_key S (P (unat ephemeral))\<rparr> iv
        (public_of_key S (P (unat secret))) auth_data plain in
    if scalar n z then \<exists>msg. message = Ok msg \<and> length msg = 113 + length plain \<and> ecies_decrypt S C secret auth_data msg = Ok plain
    else message = Err (Secp SecpInvalidSecretKey))"
proof -
  let ?raw = "shared_secret_new_raw S (P (unat secret)) (to_be 32 ephemeral)"
  let ?z = "from_be ?raw :: h256"
  let ?key = "ci_sha256 C (to_be 4 (1 :: u32) @ to_be 32 ?z)"
  let ?pub = "public_of_key S (P (unat ephemeral))"
  have sym: "shared_secret_new_raw S (P (unat ephemeral)) (to_be 32 secret) = ?raw" using P a b by (simp add: point_laws_def)
  have pub: "length ?pub = 64" using P b by (simp add: point_laws_def public_of_key_def)
  have "length (take 16 ?key) = 16" using C by (simp add: cipher_laws_def)
  then obtain cipher where c: "encrypt_128_ctr C (take 16 ?key) iv plain = Inr cipher" "length cipher = length plain"
      "decrypt_128_ctr C (take 16 ?key) iv cipher = Inr plain"
    using C iv by (meson cipher_laws_def)
  let ?mac = "ci_hmac_sha256 C (ci_sha256 C (take 16 (drop 16 ?key))) (iv @ cipher @ auth_data)"
  have mac: "length ?mac = 32" using C by (simp add: cipher_laws_def)
  let ?msg = "4 # ?pub @ iv @ cipher @ ?mac"
  have "ecies_decrypt S C secret auth_data ?msg = Ok plain" if "scalar n ?z"
    using that pub iv mac c
    by (simp add: ecies_decrypt_def Let_def agree_gives [OF S P b a] sym kdf_gives [OF C] crypto_symm_def)
  then show ?thesis
    using pub iv mac c by (simp add: ecies_encrypt_def Let_def agree_gives [OF S P a b] kdf_gives [OF C] crypto_symm_def)
qed

definition ref_cipher :: cipher_ops where
  "ref_cipher = \<lparr>ci_sha256 = (\<lambda>d. take 32 (d @ replicate 32 0)), ci_hmac_sha256 = (\<lambda>k d. take 32 (d @ replicate 32 0)),
     encrypt_128_ctr = (\<lambda>k iv d. Inr (map (\<lambda>x. x + 1) d)), decrypt_128_ctr = (\<lambda>k iv d. Inr (map (\<lambda>x. x - 1) d))\<rparr>"

lemma ref_cipher_laws: "cipher_laws ref_cipher"
  by (auto simp: cipher_laws_def ref_cipher_def comp_def min_def)

theorem ecies_round_trip_witness:
  "\<exists>msg. ecies_encrypt ref_math ref_cipher \<lparr>kp_secret = 3, kp_public = public_of_key ref_math (to_be 32 (3 :: h256))\<rparr> (replicate 16 5)
       (public_of_key ref_math (to_be 32 (4 :: h256))) [7] [1, 2, 3] = Ok msg \<and>
     ecies_decrypt ref_math ref_cipher 4 [7] msg = Ok [1, 2, 3]"
proof -
  have k: "scalar 7 (4 :: h256)" "scalar 7 (3 :: h256)" by (simp_all add: scalar_def)
  have "from_be (shared_secret_new_raw ref_math (to_be 32 (4 :: h256)) (to_be 32 (3 :: h256))) = (5 :: h256)" by (simp add: ref_math_def)
  moreover have "scalar 7 (5 :: h256)" by (simp add: scalar_def)
  ultimately show ?thesis
    using ecies_round_trip [OF ref_scalar_laws ref_point_laws ref_cipher_laws k, of "replicate 16 5" "[7]" "[1, 2, 3]"] by (auto simp: Let_def)
qed

end
