(* ===== verification/Brain_Wallets.thy ===== *)
theory Brain_Wallets
  imports Key_Derivation
begin

text \<open>
  Key generators (utils/cfxkey: brain.rs, brain_prefix.rs, prefix.rs) and the recovery of brain wallets (brain_recover.rs).  The word list and the
  edit distance of third-party crates are parameters, random phrases and key pairs are given as sequences.  Phrases are strings of characters.
\<close>

section \<open>Generators\<close>

definition phrase_bytes :: "string \<Rightarrow> bytes" where
  "phrase_bytes phrase = map (\<lambda>c. of_nat (of_char c)) phrase"

text \<open>The loop of a brain wallet: it may run forever.\<close>

partial_function (option) brain_loop :: "secp_math \<Rightarrow> (bytes \<Rightarrow> h256) \<Rightarrow> h256 \<Rightarrow> nat \<Rightarrow> key_pair option" where
  "brain_loop S K secret i =
     (let secret = K (to_be 32 secret) in
      if \<not> 16384 < i then brain_loop S K secret (i + 1)
      else (case rbind (from_unsafe_slice S (to_be 32 secret)) (from_secret (sm_ops S)) of
          Ok pair \<Rightarrow> if hd (to_be 20 (kp_address K pair)) = 0x10 then Some pair else brain_loop S K secret i
        | _ \<Rightarrow> brain_loop S K secret i))"

definition brain_generate :: "secp_math \<Rightarrow> (bytes \<Rightarrow> h256) \<Rightarrow> string \<Rightarrow> key_pair option" where
  "brain_generate S K phrase = brain_loop S K (K (phrase_bytes phrase)) 0"

definition starts_with :: "bytes \<Rightarrow> address \<Rightarrow> bool" where
  "starts_with pre a \<longleftrightarrow> take (length pre) (to_be 20 a) = pre"

fun prefix_generate :: "(bytes \<Rightarrow> h256) \<Rightarrow> bytes \<Rightarrow> key_pair list \<Rightarrow> (key_error, key_pair) res" where
  "prefix_generate K pre [] = Err (KeyCustom ''Could not find keypair'')"
| "prefix_generate K pre (keypair # rest) = (if starts_with pre (kp_address K keypair) then Ok keypair else prefix_generate K pre rest)"

text \<open>The result and the last phrase.\<close>

fun brain_prefix_generate ::
  "secp_math \<Rightarrow> (bytes \<Rightarrow> h256) \<Rightarrow> bytes \<Rightarrow> string list \<Rightarrow> string \<Rightarrow> ((key_error, key_pair) res \<times> string) option" where
  "brain_prefix_generate S K pre [] last_phrase = Some (Err (KeyCustom ''Could not find keypair''), last_phrase)"
| "brain_prefix_generate S K pre (phrase # rest) last_phrase = Option.bind (brain_generate S K phrase) (\<lambda>keypair.
     if starts_with pre (kp_address K keypair) then Some (Ok keypair, phrase) else brain_prefix_generate S K pre rest last_phrase)"

section \<open>Phrases\<close>

record phrases_iterator =
  pi_words :: "string list list"
  pi_combinations :: u64
  pi_indexes :: "nat list"
  pi_has_next :: bool

fun count_combinations :: "string list list \<Rightarrow> u64 \<Rightarrow> ('e, u64) res" where
  "count_combinations [] n = Ok n"
| "count_combinations (w # ws) n = rbind (u_mul n (of_nat (length w))) (count_combinations ws)"

definition phrases_new :: "string list list \<Rightarrow> ('e, phrases_iterator) res" where
  "phrases_new words = rbind (count_combinations words 1) (\<lambda>combinations.
     Ok \<lparr>pi_words = words, pi_combinations = combinations, pi_indexes = map (\<lambda>_. 0) words, pi_has_next = 0 < combinations\<rparr>)"

definition generate_substitutions :: "string list \<Rightarrow> (string \<Rightarrow> string \<Rightarrow> nat) \<Rightarrow> string \<Rightarrow> string list" where
  "generate_substitutions WORDS edit_distance word = map snd (sort_key fst (map (\<lambda>w. (edit_distance w word, w)) WORDS))"

fun split_spaces :: "string \<Rightarrow> string list" where
  "split_spaces [] = [[]]"
| "split_spaces (c # cs) = (if c = CHR '' '' then [] # split_spaces cs
     else (case split_spaces cs of w # ws \<Rightarrow> (c # w) # ws | [] \<Rightarrow> [[c]]))"

definition from_known_phrase :: "string list \<Rightarrow> (string \<Rightarrow> string \<Rightarrow> nat) \<Rightarrow> string \<Rightarrow> nat \<Rightarrow> ('e, phrases_iterator) res" where
  "from_known_phrase WORDS edit_distance known_phrase expected_words =
     (let words = map (\<lambda>word. if word \<in> set WORDS then [word] else generate_substitutions WORDS edit_distance word) (split_spaces known_phrase);
          words = (if length words < expected_words then words @ replicate (expected_words - length words) WORDS else words) in
      phrases_new words)"

definition current_phrase :: "phrases_iterator \<Rightarrow> ('e, string) res" where
  "current_phrase it = (let ws = pi_words it; ix = pi_indexes it in
     if list_all (\<lambda>i. i < length ws \<and> ix ! i < length (ws ! i)) [0..<length ix] \<and> ix \<noteq> []
     then Ok (fold (\<lambda>i s. s @ '' '' @ ws ! i ! (ix ! i)) [1..<length ix] (ws ! 0 ! (ix ! 0))) else Panic)"

text \<open>The odometer, from position \<open>pos\<close> down.\<close>

fun next_index_at :: "string list list \<Rightarrow> nat list \<Rightarrow> nat \<Rightarrow> nat list \<times> bool" where
  "next_index_at ws ix 0 = (ix, False)"
| "next_index_at ws ix (Suc pos) =
     (let ix = ix[pos := ix ! pos + 1] in
      if length (ws ! pos) \<le> ix ! pos then next_index_at ws (ix[pos := 0]) pos else (ix, True))"

definition phrases_next :: "phrases_iterator \<Rightarrow> ('e, string option \<times> phrases_iterator) res" where
  "phrases_next it = (if \<not> pi_has_next it then Ok (None, it) else
     rbind (current_phrase it) (\<lambda>phrase.
     case next_index_at (pi_words it) (pi_indexes it) (length (pi_indexes it)) of (ix, b) \<Rightarrow>
       Ok (Some phrase, it\<lparr>pi_indexes := ix, pi_has_next := b\<rparr>)))"

partial_function (option) recover_loop :: "secp_math \<Rightarrow> (bytes \<Rightarrow> h256) \<Rightarrow> address \<Rightarrow> phrases_iterator \<Rightarrow> ('e, string option) res option" where
  "recover_loop S K a it = (case phrases_next it of
     Ok (None, _) \<Rightarrow> Some (Ok None)
   | Ok (Some phrase, it') \<Rightarrow> Option.bind (brain_generate S K phrase) (\<lambda>keypair.
       if kp_address K keypair = a then Some (Ok (Some phrase)) else recover_loop S K a it')
   | Err e \<Rightarrow> Some (Err e)
   | Panic \<Rightarrow> Some Panic)"

definition brain_recover ::
  "secp_math \<Rightarrow> (bytes \<Rightarrow> h256) \<Rightarrow> string list \<Rightarrow> (string \<Rightarrow> string \<Rightarrow> nat) \<Rightarrow> address \<Rightarrow> string \<Rightarrow> nat \<Rightarrow> ('e, string option) res option" where
  "brain_recover S K WORDS edit_distance a known_phrase expected_words =
     (case from_known_phrase WORDS edit_distance known_phrase expected_words of
        Ok it \<Rightarrow> recover_loop S K a it | Err e \<Rightarrow> Some (Err e) | Panic \<Rightarrow> Some Panic)"

section \<open>The iterator visits every combination in order\<close>

text \<open>The index vectors from \<open>ix\<close> on, and all of them.\<close>

definition all_indexes :: "string list list \<Rightarrow> nat list list" where
  "all_indexes ws = product_lists (map (\<lambda>w. [0..<length w]) ws)"

fun indexes_from :: "string list list \<Rightarrow> nat list \<Rightarrow> nat list list" where
  "indexes_from (w # ws) (i # ix) = map (Cons i) (indexes_from ws ix) @ concat (map (\<lambda>j. map (Cons j) (all_indexes ws)) [Suc i..<length w])"
| "indexes_from _ _ = [[]]"

definition indexes_in_range :: "string list list \<Rightarrow> nat list \<Rightarrow> bool" where
  "indexes_in_range ws ix \<longleftrightarrow> list_all2 (\<lambda>w i. i < length w) ws ix"

lemma next_index_Cons:
  "pos \<le> length ix \<Longrightarrow> next_index_at (w # ws) (i # ix) (Suc pos) = (case next_index_at ws ix pos of (ix', b) \<Rightarrow>
     if b then (i # ix', True) else if length w \<le> Suc i then (0 # ix', False) else (Suc i # ix', True))"
proof (induction pos arbitrary: ix)
  case (Suc pos)
  then show ?case using Suc.IH [of "ix[pos := 0]"] by (auto simp: Let_def split: prod.splits)
qed simp

lemma indexes_from_zeros: "list_all (\<lambda>w. w \<noteq> []) ws \<Longrightarrow> indexes_from ws (map (\<lambda>_. 0) ws) = all_indexes ws"
  by (induction ws) (auto simp: all_indexes_def upt_conv_Cons)

lemma next_index_step:
  assumes "indexes_in_range ws ix"
  shows "case next_index_at ws ix (length ix) of (ix', b) \<Rightarrow> indexes_in_range ws ix' \<and>
    indexes_from ws ix = ix # (if b then indexes_from ws ix' else []) \<and> (\<not> b \<longrightarrow> ix' = map (\<lambda>_. 0) ws)"
  using assms
proof (induction ws arbitrary: ix)
  case Nil
  then show ?case by (simp add: indexes_in_range_def)
next
  case (Cons w ws)
  then obtain i iy where ix: "ix = i # iy" "i < length w" "indexes_in_range ws iy" by (auto simp: indexes_in_range_def list_all2_Cons1)
  obtain iy' b where n: "next_index_at ws iy (length iy) = (iy', b)" by fastforce
  then have step: "indexes_in_range ws iy'" "indexes_from ws iy = iy # (if b then indexes_from ws iy' else [])" "\<not> b \<longrightarrow> iy' = map (\<lambda>_. 0) ws"
    using Cons.IH [OF ix(3)] by auto
  have full: "list_all (\<lambda>w. w \<noteq> []) ws" using ix(3) by (auto simp: indexes_in_range_def list_all_length list_all2_conv_all_nth)
  have "next_index_at (w # ws) ix (length ix) =
      (if b then (i # iy', True) else if length w \<le> Suc i then (0 # iy', False) else (Suc i # iy', True))"
    unfolding ix(1) length_Cons next_index_Cons [OF order_refl] n by simp
  moreover have "[Suc i..<length w] = (if length w \<le> Suc i then [] else Suc i # [Suc (Suc i)..<length w])" by (simp add: upt_conv_Cons)
  ultimately show ?case
    using ix step indexes_from_zeros [OF full] by (cases b; cases "length w \<le> Suc i") (auto simp: indexes_in_range_def)
qed

fun join_words :: "string list \<Rightarrow> string" where
  "join_words [] = []"
| "join_words (w # ws) = w @ concat (map (\<lambda>x. '' '' @ x) ws)"

lemma current_phrase_gives:
  assumes "indexes_in_range ws ix" "ws \<noteq> []"
  shows "current_phrase \<lparr>pi_words = ws, pi_combinations = c, pi_indexes = ix, pi_has_next = b\<rparr> = Ok (join_words (map2 (!) ws ix))"
proof -
  have r: "length ws = length ix" "\<And>i. i < length ix \<Longrightarrow> ix ! i < length (ws ! i)" "ix \<noteq> []"
    using assms by (auto simp: indexes_in_range_def list_all2_conv_all_nth)
  obtain v vs i iy where c: "ws = v # vs" "ix = i # iy" "length vs = length iy" using r(1,3) by (cases ws; cases ix) auto
  have "fold (\<lambda>k s. s @ f k) ks s = s @ concat (map f ks)" for f :: "nat \<Rightarrow> string" and ks s by (induction ks arbitrary: s) auto
  then have "fold (\<lambda>k s. s @ '' '' @ ws ! k ! (ix ! k)) [1..<length ix] (v ! i) = v ! i @ concat (map (\<lambda>k. '' '' @ ws ! k ! (ix ! k)) [1..<length ix])"
    by simp
  also have "map (\<lambda>k. '' '' @ ws ! k ! (ix ! k)) [1..<length ix] = map (\<lambda>x. '' '' @ x) (map (\<lambda>k. vs ! k ! (iy ! k)) [0..<length iy])"
  proof -
    have "[1..<length ix] = map Suc [0..<length iy]" unfolding c(2) length_Cons map_Suc_upt by simp
    then show ?thesis using c by (simp add: comp_def)
  qed
  also have "map (\<lambda>k. vs ! k ! (iy ! k)) [0..<length iy] = map2 (!) vs iy" using c by (intro nth_equalityI) simp_all
  finally show ?thesis using r c by (simp add: current_phrase_def Let_def list_all_iff comp_def)
qed

lemma product_lists_indexes: "map (map2 (!) ws) (all_indexes ws) = product_lists ws"
proof (induction ws)
  case (Cons w ws)
  have "map (map2 (!) (w # ws)) (all_indexes (w # ws)) = concat (map (\<lambda>j. map (Cons (w ! j)) (map (map2 (!) ws) (all_indexes ws))) [0..<length w])"
    by (simp add: all_indexes_def map_concat comp_def)
  also have "\<dots> = concat (map (\<lambda>x. map (Cons x) (product_lists ws)) (map ((!) w) [0..<length w]))" by (simp only: Cons.IH map_map comp_def)
  also have "\<dots> = product_lists (w # ws)" by (simp add: map_nth)
  finally show ?case .
qed (simp add: all_indexes_def)

lemma recover_loop_gives:
  assumes ws: "ws \<noteq> []" and gen: "\<And>p. p \<in> set (map (join_words \<circ> map2 (!) ws) (indexes_from ws ix)) \<Longrightarrow> brain_generate S K p = Some (pair p)"
    and ix: "indexes_in_range ws ix"
  shows "recover_loop S K a \<lparr>pi_words = ws, pi_combinations = c, pi_indexes = ix, pi_has_next = True\<rparr> =
    Some (Ok (find (\<lambda>p. kp_address K (pair p) = a) (map (join_words \<circ> map2 (!) ws) (indexes_from ws ix))) :: (string, string option) res)"
  using gen ix
proof (induction "length (indexes_from ws ix)" arbitrary: ix rule: less_induct)
  case less
  obtain ix' b where n: "next_index_at ws ix (length ix) = (ix', b)" by fastforce
  then have step: "indexes_in_range ws ix'" "indexes_from ws ix = ix # (if b then indexes_from ws ix' else [])"
    using next_index_step [OF less.prems(2)] by auto
  let ?it = "\<lambda>ix b. \<lparr>pi_words = ws, pi_combinations = c, pi_indexes = ix, pi_has_next = b\<rparr>"
  have nx: "phrases_next (?it ix True) =
      (Ok (Some (join_words (map2 (!) ws ix)), ?it ix' b) :: (string, string option \<times> phrases_iterator) res)"
    by (simp add: phrases_next_def current_phrase_gives [OF less.prems(2) ws] n)
  have rest: "recover_loop S K a (?it ix' b) =
      Some (Ok (find (\<lambda>p. kp_address K (pair p) = a) (map (join_words \<circ> map2 (!) ws) (if b then indexes_from ws ix' else []))) :: (string, string option) res)"
  proof (cases b)
    case True
    then show ?thesis using less.hyps [of ix'] less.prems(1) step by simp
  next
    case False
    then show ?thesis by (subst recover_loop.simps) (simp add: phrases_next_def)
  qed
  have "brain_generate S K (join_words (map2 (!) ws ix)) = Some (pair (join_words (map2 (!) ws ix)))" using less.prems(1) step(2) by simp
  then show ?case by (subst recover_loop.simps) (simp add: nx rest step(2))
qed

lemma count_combinations_gives:
  assumes "list_all (\<lambda>w. length w < 2 ^ 64) ws" "count_combinations ws n = (Ok m :: (string, u64) res)"
  shows "unat m = unat n * prod_list (map length ws)"
  using assms
proof (induction ws arbitrary: n)
  case (Cons w ws)
  have w: "unat (of_nat (length w) :: u64) = length w" using Cons.prems(1) by (simp add: unat_of_nat)
  then have small: "unat n * length w < 2 ^ 64" 
    and rest: "count_combinations ws (n * of_nat (length w)) = (Ok m :: (string, u64) res)"
    using Cons.prems(2) by (auto simp: u_mul_def split: if_splits)
  then have "unat (n * of_nat (length w)) = unat n * length w" by (simp add: unat_word_ariths w)
  then show ?case using Cons.IH [OF _ rest] Cons.prems(1) by simp
qed simp

lemma product_lists_empty: "product_lists ws = [] \<longleftrightarrow> prod_list (map length ws) = 0"
  by (induction ws) auto

lemma split_spaces_some: "split_spaces cs \<noteq> []"
  by (induction cs) (auto split: list.splits)

text \<open>C30.  The recovery of a brain wallet tries every combination of the possible words once, in lexicographic order, and returns the first
  phrase whose key pair has the address, if there is one; unless the number of combinations overflows or a generator never ends.\<close>

theorem brain_recover_finds_first:
  assumes it: "from_known_phrase WORDS edit_distance known_phrase expected_words = (Ok it :: (string, phrases_iterator) res)"
    and W: "length WORDS < 2 ^ 63"
    and gen: "\<And>p. p \<in> set (map join_words (product_lists (pi_words it))) \<Longrightarrow> brain_generate S K p = Some (pair p)"
  shows "brain_recover S K WORDS edit_distance a known_phrase expected_words =
    Some (Ok (find (\<lambda>p. kp_address K (pair p) = a) (map join_words (product_lists (pi_words it)))) :: (string, string option) res)"
proof -
  define ws where "ws = pi_words it"
  have "\<exists>m. count_combinations ws 1 = (Ok m :: (string, u64) res) \<and>
      it = \<lparr>pi_words = ws, pi_combinations = m, pi_indexes = map (\<lambda>_. 0) ws, pi_has_next = 0 < m\<rparr>"
    using it by (auto simp: ws_def from_known_phrase_def phrases_new_def rbind_Ok_iff Let_def)
  then obtain m where ws: "count_combinations ws 1 = (Ok m :: (string, u64) res)"
      "it = \<lparr>pi_words = ws, pi_combinations = m, pi_indexes = map (\<lambda>_. 0) ws, pi_has_next = 0 < m\<rparr>" by blast
  define known where "known = map (\<lambda>word. if word \<in> set WORDS then [word] else generate_substitutions WORDS edit_distance word) (split_spaces known_phrase)"
  have "ws = known \<or> (\<exists>k. ws = known @ replicate k WORDS)"
    using it by (auto simp: ws_def known_def from_known_phrase_def phrases_new_def rbind_Ok_iff Let_def)
  moreover have "known \<noteq> []" using split_spaces_some by (simp add: known_def)
  moreover have "list_all (\<lambda>w. length w < 2 ^ 64) known" using W by (auto simp: known_def list_all_iff generate_substitutions_def)
  ultimately have len: "list_all (\<lambda>w. length w < 2 ^ 64) ws" "ws \<noteq> []" using W by (auto simp: list_all_iff)
  have m: "unat m = prod_list (map length ws)" using count_combinations_gives [OF len(1) ws(1)] by simp
  have "recover_loop S K a it = Some (Ok (find (\<lambda>p. kp_address K (pair p) = a) (map join_words (product_lists ws))) :: (string, string option) res)"
  proof (cases "m = 0")
    case True
    then have "product_lists ws = []" using m by (simp add: product_lists_empty)
    then show ?thesis using True ws(2) by (subst recover_loop.simps) (simp add: phrases_next_def)
  next
    case False
    then have full: "list_all (\<lambda>w. w \<noteq> []) ws" using m by (auto simp: list_all_iff unat_eq_zero [symmetric] prod_list_zero_iff simp del: unat_eq_zero)
    then have zeros: "indexes_in_range ws (map (\<lambda>_. 0) ws)" by (auto simp: indexes_in_range_def list_all2_conv_all_nth list_all_length)
    have all: "map (join_words \<circ> map2 (!) ws) (indexes_from ws (map (\<lambda>_. 0) ws)) = map join_words (product_lists ws)"
      unfolding indexes_from_zeros [OF full] product_lists_indexes [symmetric] by simp
    have pos: "0 < m" using False by (simp add: word_gt_0)
    show ?thesis
      unfolding ws(2) using recover_loop_gives [OF len(2) _ zeros, of S K pair a m] gen all ws(2) pos by simp
  qed
  then show ?thesis using it ws(2) by (simp add: brain_recover_def)
qed

section \<open>A wallet\<close>

definition wallet_keccak :: "bytes \<Rightarrow> h256" where
  "wallet_keccak d = (if length d = 64 then 0x1000000000000000000000000000000000000000 else 3)"

definition wallet_pair :: key_pair where
  "wallet_pair = \<lparr>kp_secret = 3, kp_public = public_of_key ref_math (to_be 32 (3 :: h256))\<rparr>"

lemma wallet_generates: "brain_generate ref_math wallet_keccak p = Some wallet_pair"
proof -
  have k: "wallet_keccak (to_be 32 s) = 3" for s :: h256 by (simp add: wallet_keccak_def)
  have sc: "scalar 7 (3 :: h256)" by (simp add: scalar_def)
  have "from_secret (sm_ops ref_math) 3 = Ok wallet_pair"
    using secret_key_gives(1) [OF ref_scalar_laws sc] by (simp add: from_secret_def from_secp_def wallet_pair_def public_of_key_def ref_math_def)
  then have pair: "rbind (from_unsafe_slice ref_math (to_be 32 (3 :: h256))) (from_secret (sm_ops ref_math)) = Ok wallet_pair"
    using secret_key_gives(1) [OF ref_scalar_laws sc] by (simp add: from_unsafe_slice_def from_secp_def)
  have "length (kp_public wallet_pair) = 64" by (simp add: wallet_pair_def public_of_key_def ref_math_def)
  then have "kp_address wallet_keccak wallet_pair = from_be (drop 12 (to_be 32 (0x1000000000000000000000000000000000000000 :: h256)))"
    by (simp add: kp_address_def public_to_address_def wallet_keccak_def)
  moreover have "hd (to_be 20 (from_be (drop 12 (to_be 32 (0x1000000000000000000000000000000000000000 :: h256))) :: address)) = 0x10" by code_simp
  ultimately have addr: "hd (to_be 20 (kp_address wallet_keccak wallet_pair)) = 0x10" by simp
  have "brain_loop ref_math wallet_keccak s i = Some wallet_pair" if "i \<le> 16385" for s i
    using that
  proof (induction "16385 - i" arbitrary: s i)
    case 0
    then show ?case by (subst brain_loop.simps) (simp add: k pair addr)
  next
    case (Suc j)
    then show ?case by (subst brain_loop.simps) (simp add: k pair addr)
  qed
  then show ?thesis by (simp add: brain_generate_def)
qed

theorem brain_recover_finds_first_witness:
  "brain_recover ref_math wallet_keccak [''a'', ''b''] (\<lambda>x y. 0) (kp_address wallet_keccak wallet_pair) ''b'' 2 =
     Some (Ok (Some ''b a'') :: (string, string option) res)"
proof -
  let ?it = "\<lparr>pi_words = [[''b''], [''a'', ''b'']], pi_combinations = 2, pi_indexes = [0, 0], pi_has_next = True\<rparr>"
  have "from_known_phrase [''a'', ''b''] (\<lambda>x y. 0) ''b'' 2 = (Ok ?it :: (string, phrases_iterator) res)"
    by (simp add: from_known_phrase_def phrases_new_def u_mul_def)
  then show ?thesis
    using brain_recover_finds_first [of "[''a'', ''b'']" "\<lambda>x y. 0" "''b''" 2 ?it ref_math wallet_keccak "\<lambda>_. wallet_pair" "kp_address wallet_keccak wallet_pair"]
    by (simp add: wallet_generates)
qed

end
