(* ===== verification/Spec2Isabelle.thy ===== *)
theory Spec2Isabelle
  imports Vm_Properties State_Properties Context_Properties Frame_Properties Observer_Properties Executor_Properties Abi_Properties Internal_Properties
    Chain_Properties Commit_Properties Chain_Data_Properties Ecies Brain_Wallets
begin

text \<open>
  Verification of cfx-evm, the Ethereum virtual machine of Conflux.

  \<^bold>\<open>The program.\<close>  A transaction is checked and charged by the executor (src/src/execution), which opens
  a call or create frame (src/src/call_create_frame).  A frame runs contract code in the interpreter
  (src/src/evm), or a builtin (src/src/builtin) or internal contract (src/src/internal_contract) of the machine
  (src/src/machine.rs).  Code reaches the chain through the trait \<open>Context\<close>, implemented on the world state
  (src/src/state), a cache of accounts with checkpoints over a database (src/backend).  A nested call or
  create traps to the stack of frames, which runs the callee and resumes the caller.  Observers
  (src/src/observer) are notified of every frame and turn the notifications into traces, estimates and
  error reports.  After the frames the executor refunds gas and removes killed contracts.  Around this core stand
  the data that is signed, sent and stored (src/utils/primitives, src/utils/cfxkey).

  \<^bold>\<open>Modelling.\<close>  Prelude holds the vocabulary: Rust integers are words of their width, \<open>usize\<close> is 64 bits;
  a fallible function has values in \<open>('e, 'a) res\<close>, where \<open>Err\<close> is an early return and \<open>Panic\<close> a panic
  (checked arithmetic, indexing, \<open>unwrap\<close>, \<open>expect\<close>); code with a mutable receiver is in \<open>eff\<close>, a function
  from the state to a result and the new state, with a calculus of weakest preconditions.  A loop that
  the source does not bound is a \<open>partial_function (option)\<close>, so that a run that never ends is \<open>None\<close>; there is
  no fuel.  Hash maps are association lists (Hash_Map).  \<open>BigUint\<close>s are natural numbers.

  \<^bold>\<open>Interpreter\<close> (src/src/evm, src/src/vm, src/utils/memory-cache).  Instructions: instructions.rs.  Vm_Types and
  Vm_Context: the types and the trait \<open>Context\<close> of src/src/vm, the latter a record of operations whose
  contract is the locale \<open>vm_context_laws\<close>.  Evm_Stack, Evm_Memory, Gasometer, Shared_Cache: stack.rs, memory.rs,
  gasometer.rs, shared_cache.rs; Cost_Type: the trait of the same name, a locale interpreted for \<open>usize\<close> and
  \<open>U256\<close>; Evm_Arith and Interpreter: mod.rs.  Interpreter_Safety proves by instruction that, over a lawful context,
  the interpreter with gas in \<open>usize\<close> does not panic; Interpreter_Run that it returns, since every step burns
  gas or advances.  Vm_Properties: jump destinations, cache, memory, copies, arithmetic, gas of nested calls, the table.

  \<^bold>\<open>World state\<close> (src/src/state, src/backend).  State_Db, Overlay_Account, World_State, Substate: the database
  with its in-memory storage (locale \<open>storage_laws\<close>), account_entry.rs, mod.rs and substate.rs.  State_Refinement,
  State_Contract and State_Machine state what a caller sees, a stack of worlds without caches and journals, and
  prove that every operation and every sequence of operations refines it.  State_Properties and
  Commit_Properties: refinement, checkpoints, storage, transfers, killed contracts, and what a commit leaves
  in the database.  State_Reference is a concrete backend for the witnesses.

  \<^bold>\<open>Contexts and frames\<close> (src/src/call_create_frame).  Call_Context: context.rs; Context_Laws interprets
  \<open>vm_context_laws\<close> on it, so the theorems on the interpreter hold on the chain (Context_Properties).  Frame and
  Frame_Stack: frame.rs, executive.rs, result.rs, stack.rs.  Frame_Laws, Frame_Runs and Stack_Laws follow a
  frame and the stack of waiting frames through worlds, call stack, notifications and gas; Frame_Properties
  concludes termination, atomicity, nesting of notifications and that the checks of nested frames pass.

  \<^bold>\<open>Observers\<close> (src/src/observer).  Traces and Observers: trace.rs, trace_filter.rs, tracer.rs, gasman.rs,
  multi_observers.rs, error_unwind.rs.  Observer_Laws reads a run as a forest of frames; Observer_Properties states
  the traces, pairs, error chains and estimates by recursion over it.

  \<^bold>\<open>Executor and machine\<close> (src/src/execution, src/src/machine.rs).  Executor: executor.rs, executed.rs,
  estimate.rs, options.rs; Executor_Laws and Executor_Properties: a transaction returns, what it pays, what a failed
  or dropped one changes, and virtual runs.  Builtins, Blake2f: builtin/mod.rs, blake2f.rs, with Builtin_Laws and
  Builtin_Properties.  Solidity_Abi: utils/solidity-abi, with the contract \<open>abi_codec\<close> of a type (Abi_Laws) and
  Abi_Properties.  Internal_Contracts, Cross_Space: the components and contracts of src/src/internal_contract;
  Internal_Laws interprets the locale \<open>solidity_function_laws\<close> for every function.  Chain_Params, Chain_Properties:
  chain ids and common parameters.  Chain_Machine puts builtins and internal contracts together;
  Internal_Properties shows that every transaction on this machine gets an outcome.

  \<^bold>\<open>Data on the wire\<close> (src/utils/primitives, src/utils/cfxkey).  Rlp: what is used of the RLP crate, with
  its laws, and Rlp_Reference, a codec that satisfies them.  Keys: signature.rs and keypair.rs.  Transactions:
  transaction.rs.  Log_Filter: filter.rs and epoch.rs.  Chain_Data and Blocks: receipt.rs, state_root.rs, storage.rs,
  transaction_index.rs, block_header.rs, block.rs.  Transaction_Properties and Chain_Data_Properties: which
  transactions and headers read back as themselves, who is recovered as the signer, and the ids of compact blocks;
  Log_Filter: a search by blooms misses no entry.  Secrets and Key_Laws: arithmetic on keys (secret.rs, math.rs);
  Key_Derivation: extended.rs, where deriving commutes with taking the public key; Ecies: crypto.rs, whose messages
  the receiver reads; Brain_Wallets: brain.rs, prefix.rs, brain_prefix.rs, brain_recover.rs, where the search is complete.

  \<^bold>\<open>Parameters\<close>, with documented laws as named hypotheses where a proof needs them: Keccak-256 and the other
  digests, the RLP crate (\<open>rlp_ok\<close>, \<open>rlp_calm\<close>), the LRU map (\<open>lru_laws\<close>), the pairing curve, \<open>BytesRef\<close>
  (\<open>crypto_laws\<close>), secp256k1 (\<open>secp_laws\<close>, \<open>scalar_laws\<close>, \<open>point_laws\<close>), AES, HMAC and SHA-256
  (\<open>cipher_laws\<close>), word lists, blooms (\<open>bloom_laws\<close>), SipHash, the order of a hash set, the random
  sender of a virtual run and nonce of a compact block, the TOML parser and the heap size of a header.  Each law is
  shown to hold of a concrete instance, on which the witnesses evaluate the properties.

  \<^bold>\<open>Bounds.\<close>  The theorems on termination and safety assume a gas limit below \<open>2 ^ 64\<close>, with which the source
  chooses the interpreter with gas in \<open>usize\<close>, and byte strings shorter than \<open>2 ^ 63\<close>, as Rust guarantees.

  \<^bold>\<open>Not modelled.\<close>  Locks and reference counts, since one thread runs a transaction and shared data is
  copied before it is written; texts of errors, JSON and \<open>Debug\<close> output; encodings that a macro derives for
  traces and receipts; the vendored measurement of heap sizes (utils/malloc_size_of); procedural macros, which run at
  compile time; the command line tool of cfxkey; the resumption of a frame stack from another machine, which the source leaves
  unfinished; tests and benchmarks.
\<close>

end
